(* ===== verification/Rust_Prelude.thy ===== *)
theory Rust_Prelude
  imports Main "HOL-Library.Word" "HOL-Library.Signed_Division" "HOL-Library.Monad_Syntax"
begin

text \<open>
  The prelude of the development: what the Rust sources use of the language and of its
  standard library, and the generic lemmas that every component shares.

  \<^item> Machine integers. \<open>u8\<close> to \<open>u128\<close> and \<open>i16\<close> to \<open>i128\<close> are words of that width; a signed
    value is the same bit pattern, read by \<open>sint\<close>. \<open>f32\<close> and \<open>f64\<close> are their IEEE bit
    patterns, since the sources below only move floats. \<open>usize\<close> is \<open>nat\<close>: lengths of
    in-memory buffers, which never overflow a 64-bit \<open>usize\<close>.
  \<^item> Byte order: \<open>to_le_bytes\<close>, \<open>from_le_bytes\<close>, \<open>to_be_bytes\<close>, \<open>from_be_bytes\<close>.
  \<^item> Strings. A Rust \<open>str\<close> is the list of its UTF-8 bytes, each an Isabelle \<open>char\<close>, so that
    \<open>len()\<close> is \<open>length\<close>; \<open>from_utf8\<close> checks well-formedness as \<open>core::str\<close> does.
  \<^item> Checked arithmetic: an operation that overflows (a panic when overflow checks are on)
    is \<open>None\<close>, and every other result is what both build profiles compute.
  \<^item> \<open>Result<T, E>\<close> is the sum \<open>E + T\<close>, with \<open>Inl\<close> for \<open>Err\<close>.
\<close>

named_theorems codec_simps \<open>unfolding rules of the byte codecs\<close>
named_theorems panic_free \<open>conditions under which a checked operation returns\<close>

section \<open>Machine integers\<close>

type_synonym u8 = "8 word"
type_synonym u16 = "16 word"
type_synonym u32 = "32 word"
type_synonym u64 = "64 word"
type_synonym u128 = "128 word"
type_synonym i8 = "8 word"
type_synonym i16 = "16 word"
type_synonym i32 = "32 word"
type_synonym i64 = "64 word"
type_synonym i128 = "128 word"
type_synonym f32 = "32 word"
type_synonym f64 = "64 word"
type_synonym bytes = "8 word list"

section \<open>Byte order\<close>

text \<open>The digits of a natural number in base 256, least significant byte first.\<close>

fun nat_to_le :: "nat \<Rightarrow> nat \<Rightarrow> bytes" where
  "nat_to_le 0 n = []"
| "nat_to_le (Suc k) n = word_of_nat n # nat_to_le k (n div 256)"

fun nat_from_le :: "bytes \<Rightarrow> nat" where
  "nat_from_le [] = 0"
| "nat_from_le (b # bs) = unat b + 256 * nat_from_le bs"

definition to_le_bytes :: "'a::len word \<Rightarrow> bytes" where
  "to_le_bytes w = nat_to_le (LENGTH('a) div 8) (unat w)"

definition from_le_bytes :: "bytes \<Rightarrow> 'a::len word" where
  "from_le_bytes bs = word_of_nat (nat_from_le bs)"

definition to_be_bytes :: "'a::len word \<Rightarrow> bytes" where
  "to_be_bytes w = rev (to_le_bytes w)"

definition from_be_bytes :: "bytes \<Rightarrow> 'a::len word" where
  "from_be_bytes bs = from_le_bytes (rev bs)"

lemma length_nat_to_le [simp]: "length (nat_to_le k n) = k"
  by (induction k n rule: nat_to_le.induct) auto

lemma nat_from_le_nat_to_le: "nat_from_le (nat_to_le k n) = n mod 256 ^ k"
proof (induction k n rule: nat_to_le.induct)
  case (2 k n)
  have "unat (word_of_nat n :: u8) = n mod 256"
    by (simp add: unat_of_nat)
  with 2 show ?case
    by (simp add: mod_mult2_eq)
qed simp

lemma nat_from_le_bound: "nat_from_le bs < 256 ^ length bs"
proof (induction bs)
  case (Cons b bs)
  have "unat b < 256"
    using unsigned_less [of b, where ?'a = nat] by simp
  moreover have "256 * nat_from_le bs + 256 \<le> 256 * 256 ^ length bs"
    using Cons by simp
  ultimately show ?case
    by simp
qed simp

lemma nat_to_le_nat_from_le: "nat_to_le (length bs) (nat_from_le bs) = bs"
proof (induction bs)
  case (Cons b bs)
  have b: "unat b < 256"
    using unsigned_less [of b, where ?'a = nat] by simp
  have "(256 :: u8) = 0"
    by simp
  then have "(word_of_nat (unat b + 256 * nat_from_le bs) :: u8) = word_of_nat (unat b)"
    by (simp only: of_nat_add of_nat_mult of_nat_numeral mult_zero_left add_0_right)
  with b Cons show ?case
    by simp
qed simp

lemma length_to_le_bytes [simp]: "length (to_le_bytes (w :: 'a::len word)) = LENGTH('a) div 8"
  by (simp add: to_le_bytes_def)

lemma length_to_be_bytes [simp]: "length (to_be_bytes (w :: 'a::len word)) = LENGTH('a) div 8"
  by (simp add: to_be_bytes_def)

lemma pow256_word_length:
  assumes "8 dvd LENGTH('a::len)"
  shows "(256::nat) ^ (LENGTH('a) div 8) = 2 ^ LENGTH('a)"
proof -
  obtain k where k: "LENGTH('a) = 8 * k"
    using assms by (rule dvdE)
  have "(256::nat) ^ k = 2 ^ (8 * k)"
    by (simp add: power_mult)
  then show ?thesis
    unfolding k by simp
qed

lemma from_to_le_bytes:
  assumes "8 dvd LENGTH('a)"
  shows "from_le_bytes (to_le_bytes (w :: 'a::len word)) = w"
  unfolding to_le_bytes_def from_le_bytes_def nat_from_le_nat_to_le
  using assms by (simp add: pow256_word_length)

lemma to_from_le_bytes:
  assumes "8 * length bs = LENGTH('a)"
  shows "to_le_bytes (from_le_bytes bs :: 'a::len word) = bs"
proof -
  have len: "LENGTH('a) div 8 = length bs"
    using assms by simp
  have "nat_from_le bs < 2 ^ LENGTH('a)"
    using nat_from_le_bound [of bs] assms by (simp add: power_mult flip: assms)
  then have "unat (word_of_nat (nat_from_le bs) :: 'a word) = nat_from_le bs"
    by (simp add: unat_of_nat)
  then show ?thesis
    unfolding to_le_bytes_def from_le_bytes_def len by (simp add: nat_to_le_nat_from_le)
qed

lemma from_to_be_bytes:
  assumes "8 dvd LENGTH('a)"
  shows "from_be_bytes (to_be_bytes (w :: 'a::len word)) = w"
  using assms by (simp add: to_be_bytes_def from_be_bytes_def from_to_le_bytes)

lemma to_from_be_bytes:
  assumes "8 * length bs = LENGTH('a)"
  shows "to_be_bytes (from_be_bytes bs :: 'a::len word) = bs"
  using assms by (simp add: to_be_bytes_def from_be_bytes_def to_from_le_bytes)

lemma from_le_bytes_widths [simp, codec_simps]:
  "from_le_bytes (to_le_bytes (a :: 8 word)) = a"
  "from_le_bytes (to_le_bytes (b :: 16 word)) = b"
  "from_le_bytes (to_le_bytes (c :: 32 word)) = c"
  "from_le_bytes (to_le_bytes (d :: 64 word)) = d"
  "from_le_bytes (to_le_bytes (e :: 128 word)) = e"
  by (simp_all add: from_to_le_bytes)

lemma from_be_bytes_widths [simp, codec_simps]:
  "from_be_bytes (to_be_bytes (a :: 8 word)) = a"
  "from_be_bytes (to_be_bytes (b :: 16 word)) = b"
  "from_be_bytes (to_be_bytes (c :: 32 word)) = c"
  "from_be_bytes (to_be_bytes (d :: 64 word)) = d"
  "from_be_bytes (to_be_bytes (e :: 128 word)) = e"
  by (simp_all add: from_to_be_bytes)

lemma from_le_bytes_single [simp]: "from_le_bytes [b] = (b :: u8)"
  by (simp add: from_le_bytes_def)

lemma from_be_bytes_single [simp]: "from_be_bytes [b] = (b :: u8)"
  by (simp add: from_be_bytes_def)

lemma to_le_bytes_single [simp]: "to_le_bytes (b :: u8) = [b]"
  by (simp add: to_le_bytes_def)

lemma from_le_bytes_inj:
  assumes "8 * length xs = LENGTH('a)" "8 * length ys = LENGTH('a)"
    and "(from_le_bytes xs :: 'a::len word) = from_le_bytes ys"
  shows "xs = ys"
  using assms by (metis to_from_le_bytes)

section \<open>Strings and UTF-8\<close>

text \<open>
  A \<open>str\<close> is the list of its UTF-8 bytes as characters. The sources iterate over
  \<open>chars()\<close> only to compare them with ASCII characters, and no byte of a multi-byte
  sequence is an ASCII byte, so the iteration over bytes gives the same text.
\<close>

definition byte_of :: "char \<Rightarrow> u8" where
  "byte_of c = word_of_nat (of_char c)"

definition char_of_byte :: "u8 \<Rightarrow> char" where
  "char_of_byte b = char_of (unat b)"

definition as_bytes :: "string \<Rightarrow> bytes" where
  "as_bytes s = map byte_of s"

lemma of_char_less_256 [simp]: "(of_char c :: nat) < 256"
  by (cases c) simp

lemma unat_byte_of [simp]: "unat (byte_of c) = of_char c"
  by (simp add: byte_of_def unat_of_nat)

lemma char_of_byte_of [simp]: "char_of_byte (byte_of c) = c"
  by (simp add: char_of_byte_def)

lemma byte_of_char_of_byte [simp]: "byte_of (char_of_byte b) = b"
proof -
  have "unat b < 256"
    using unsigned_less [of b, where ?'a = nat] by simp
  then show ?thesis
    by (simp add: byte_of_def char_of_byte_def)
qed

lemma byte_of_eq_iff [simp]: "byte_of c = byte_of d \<longleftrightarrow> c = d"
  by (metis char_of_byte_of)

lemma length_as_bytes [simp]: "length (as_bytes s) = length s"
  by (simp add: as_bytes_def)

lemma as_bytes_append [simp]: "as_bytes (s @ t) = as_bytes s @ as_bytes t"
  by (simp add: as_bytes_def)

lemma as_bytes_inj [simp]: "as_bytes s = as_bytes t \<longleftrightarrow> s = t"
  unfolding as_bytes_def by (rule inj_eq) (simp add: inj_on_def inj_mapI)

definition is_continuation :: "u8 \<Rightarrow> bool" where
  "is_continuation b \<longleftrightarrow> 0x80 \<le> b \<and> b \<le> 0xBF"

text \<open>The well-formed byte sequences of the Unicode standard, as \<open>core::str::from_utf8\<close>
  accepts them: no overlong forms, no surrogates, nothing above U+10FFFF.\<close>

fun utf8_valid :: "bytes \<Rightarrow> bool" where
  "utf8_valid [] = True"
| "utf8_valid (a # r) =
     (if a < 0x80 then utf8_valid r
      else if 0xC2 \<le> a \<and> a \<le> 0xDF then
        (case r of b # r' \<Rightarrow> is_continuation b \<and> utf8_valid r' | _ \<Rightarrow> False)
      else if 0xE0 \<le> a \<and> a \<le> 0xEF then
        (case r of b # c # r' \<Rightarrow>
           is_continuation b \<and> (a = 0xE0 \<longrightarrow> 0xA0 \<le> b) \<and> (a = 0xED \<longrightarrow> b \<le> 0x9F)
           \<and> is_continuation c \<and> utf8_valid r' | _ \<Rightarrow> False)
      else if 0xF0 \<le> a \<and> a \<le> 0xF4 then
        (case r of b # c # d # r' \<Rightarrow>
           is_continuation b \<and> (a = 0xF0 \<longrightarrow> 0x90 \<le> b) \<and> (a = 0xF4 \<longrightarrow> b \<le> 0x8F)
           \<and> is_continuation c \<and> is_continuation d \<and> utf8_valid r' | _ \<Rightarrow> False)
      else False)"

definition from_utf8 :: "bytes \<Rightarrow> string option" where
  "from_utf8 bs = (if utf8_valid bs then Some (map char_of_byte bs) else None)"

lemma from_utf8_Some_iff: "from_utf8 bs = Some s \<longleftrightarrow> utf8_valid bs \<and> bs = as_bytes s"
  by (auto simp: from_utf8_def as_bytes_def o_def)

lemma from_utf8_as_bytes: "utf8_valid (as_bytes s) \<Longrightarrow> from_utf8 (as_bytes s) = Some s"
  by (simp add: from_utf8_Some_iff)

lemma utf8_valid_ascii: "\<forall>b \<in> set bs. b < 0x80 \<Longrightarrow> utf8_valid bs"
  by (induction bs) auto

section \<open>Checked arithmetic\<close>

definition in_i32 :: "int \<Rightarrow> bool" where
  "in_i32 x \<longleftrightarrow> - (2 ^ 31) \<le> x \<and> x < 2 ^ 31"

definition in_i64 :: "int \<Rightarrow> bool" where
  "in_i64 x \<longleftrightarrow> - (2 ^ 63) \<le> x \<and> x < 2 ^ 63"

definition chk32 :: "int \<Rightarrow> int option" where
  "chk32 x = (if in_i32 x then Some x else None)"

definition chk64 :: "int \<Rightarrow> int option" where
  "chk64 x = (if in_i64 x then Some x else None)"

lemma chk32_Some [panic_free]: "- 2147483648 \<le> x \<Longrightarrow> x < 2147483648 \<Longrightarrow> chk32 x = Some x"
  by (simp add: chk32_def in_i32_def)

lemma chk64_Some [panic_free]:
  "- 9223372036854775808 \<le> x \<Longrightarrow> x < 9223372036854775808 \<Longrightarrow> chk64 x = Some x"
  by (simp add: chk64_def in_i64_def)

lemma sint_i32_bounds: "- 2147483648 \<le> sint (w :: i32)" "sint w < 2147483648"
  using sint_greater_eq [of w] sint_less [of w] by simp_all

lemma sint_i64_bounds:
  "- 9223372036854775808 \<le> sint (w :: i64)" "sint w < 9223372036854775808"
  using sint_greater_eq [of w] sint_less [of w] by simp_all

lemma sint_word_of_int_i32: "in_i32 x \<Longrightarrow> sint (word_of_int x :: i32) = x"
  by (simp add: in_i32_def signed_of_int signed_take_bit_int_eq_self)

lemma sint_word_of_int_i64: "in_i64 x \<Longrightarrow> sint (word_of_int x :: i64) = x"
  by (simp add: in_i64_def signed_of_int signed_take_bit_int_eq_self)

lemma sint_eq_uint_i32: "uint w < 2 ^ 31 \<Longrightarrow> sint (w :: i32) = uint w"
proof -
  assume "uint w < 2 ^ 31"
  then have "in_i32 (uint w)"
    using order_trans [OF _ uint_ge_0 [of w], of "- (2 ^ 31)"] unfolding in_i32_def by simp
  then show ?thesis
    using sint_word_of_int_i32 [of "uint w"] by simp
qed

lemma sint_eq_unat_i32: "unat w < 2 ^ 31 \<Longrightarrow> sint (w :: i32) = int (unat w)"
proof -
  assume "unat w < 2 ^ 31"
  then have "int (unat w) < int (2 ^ 31)"
    by (simp only: of_nat_less_iff)
  then show ?thesis
    using sint_eq_uint_i32 [of w] by simp
qed

lemma uint_word_of_int_u32: "0 \<le> x \<and> x < 2 ^ 32 \<Longrightarrow> uint (word_of_int x :: u32) = x"
  by (simp add: unsigned_of_int take_bit_int_eq_self)

lemma sdiv_nonneg: "0 \<le> a \<Longrightarrow> 0 < b \<Longrightarrow> (a :: int) sdiv b = a div b"
  by (simp add: signed_divide_int_def sgn_if)

section \<open>Results\<close>

text \<open>The \<open>?\<close> operator.\<close>

definition try_bind :: "'e + 'a \<Rightarrow> ('a \<Rightarrow> 'e + 'b) \<Rightarrow> 'e + 'b" where
  "try_bind r f = (case r of Inl e \<Rightarrow> Inl e | Inr a \<Rightarrow> f a)"

lemma try_bind_simps [simp]: "try_bind (Inl e) f = Inl e" "try_bind (Inr a) f = f a"
  by (simp_all add: try_bind_def)

lemma try_bind_eq_Inr: "try_bind r f = Inr b \<longleftrightarrow> (\<exists>a. r = Inr a \<and> f a = Inr b)"
  by (cases r) auto

section \<open>Lists\<close>

lemma take_append_exact [simp]: "length xs = n \<Longrightarrow> take n (xs @ ys) = xs"
  by simp

lemma drop_append_exact [simp]: "length xs = n \<Longrightarrow> drop n (xs @ ys) = ys"
  by simp

section \<open>Searching a byte\<close>

text \<open>\<open>memchr\<close> (documented: the index of the first occurrence of a byte).\<close>

fun memchr :: "u8 \<Rightarrow> bytes \<Rightarrow> nat option" where
  "memchr n [] = None"
| "memchr n (b # bs) = (if b = n then Some 0 else map_option Suc (memchr n bs))"

lemma memchr_None_iff: "memchr n bs = None \<longleftrightarrow> n \<notin> set bs"
  by (induction bs) auto

lemma memchr_append_found [simp]: "n \<notin> set xs \<Longrightarrow> memchr n (xs @ n # ys) = Some (length xs)"
  by (induction xs) auto

lemma memchr_SomeD:
  "memchr n bs = Some p \<Longrightarrow> p < length bs \<and> bs ! p = n \<and> n \<notin> set (take p bs)"
proof (induction bs arbitrary: p)
  case (Cons b bs)
  then show ?case
    by (cases p) (auto split: if_splits)
qed simp

lemma memchr_append: "memchr n xs = Some p \<Longrightarrow> memchr n (xs @ ys) = Some p"
  by (induction xs arbitrary: p) (auto split: if_splits)

lemma memchr_split:
  assumes "memchr n bs = Some p"
  shows "bs = take p bs @ n # drop (Suc p) bs"
  using memchr_SomeD [OF assms] id_take_nth_drop [of p bs] by simp

end
