(* ===== verification/Rust_Text.thy ===== *)
theory Rust_Text
  imports Rust_Prelude
begin

text \<open>
  Text in the standard library, as far as the sources use it: decimal printing of integers
  (\<open>{}\<close>, \<open>{:02}\<close> and the like), \<open>str::parse\<close> for integers, \<open>str::trim\<close> and
  \<open>str::split_whitespace\<close>. Strings are UTF-8 bytes (see the prelude), so the Unicode white
  space characters appear as their encodings.
\<close>

section \<open>Decimal printing\<close>

definition digit_char :: "nat \<Rightarrow> char" where
  "digit_char d = char_of (48 + d)"

fun show_nat :: "nat \<Rightarrow> string" where
  "show_nat n = (if n < 10 then [digit_char n] else show_nat (n div 10) @ [digit_char (n mod 10)])"

declare show_nat.simps [simp del]

definition show_int :: "int \<Rightarrow> string" where
  "show_int x = (if x < 0 then CHR ''-'' # show_nat (nat (- x)) else show_nat (nat x))"

text \<open>\<open>{:0>w}\<close> on text, and \<open>{:0w}\<close> on integers, where the sign comes first.\<close>

definition pad_zeros :: "nat \<Rightarrow> string \<Rightarrow> string" where
  "pad_zeros w s = replicate (w - length s) CHR ''0'' @ s"

definition show_padded :: "nat \<Rightarrow> int \<Rightarrow> string" where
  "show_padded w x =
     (if x < 0 then CHR ''-'' # pad_zeros (w - 1) (show_nat (nat (- x)))
      else pad_zeros w (show_nat (nat x)))"

section \<open>Parsing integers\<close>

definition char_digit :: "char \<Rightarrow> nat option" where
  "char_digit c =
     (let n = of_char c :: nat in if 48 \<le> n \<and> n \<le> 57 then Some (n - 48) else None)"

fun digits_value :: "nat \<Rightarrow> string \<Rightarrow> nat option" where
  "digits_value acc [] = Some acc"
| "digits_value acc (c # cs) = do { d \<leftarrow> char_digit c; digits_value (acc * 10 + d) cs }"

definition parse_nat :: "string \<Rightarrow> nat option" where
  "parse_nat s = (if s = [] then None else digits_value 0 s)"

text \<open>\<open>parse::<iN>()\<close> and \<open>parse::<uN>()\<close> with the bounds of the type.\<close>

definition parse_signed :: "int \<Rightarrow> int \<Rightarrow> string \<Rightarrow> int option" where
  "parse_signed lo hi s =
     do { x \<leftarrow> (case s of
                 c # r \<Rightarrow> if c = CHR ''-'' then map_option (\<lambda>n. - int n) (parse_nat r)
                          else if c = CHR ''+'' then map_option int (parse_nat r)
                          else map_option int (parse_nat s)
               | [] \<Rightarrow> None);
          if lo \<le> x \<and> x \<le> hi then Some x else None }"

definition parse_unsigned :: "nat \<Rightarrow> string \<Rightarrow> nat option" where
  "parse_unsigned hi s =
     do { n \<leftarrow> (case s of
                 c # r \<Rightarrow> if c = CHR ''+'' then parse_nat r else parse_nat s
               | [] \<Rightarrow> None);
          if n \<le> hi then Some n else None }"

section \<open>White space\<close>

text \<open>The number of bytes of a white space character at the front of the text.\<close>

fun ws_prefix :: "nat list \<Rightarrow> nat" where
  "ws_prefix [] = 0"
| "ws_prefix (a # r) =
     (if (9 \<le> a \<and> a \<le> 13) \<or> a = 32 then 1
      else case r of
        b # r' \<Rightarrow>
          if a = 0xC2 \<and> (b = 0x85 \<or> b = 0xA0) then 2
          else (case r' of
            c # _ \<Rightarrow>
              if (a = 0xE1 \<and> b = 0x9A \<and> c = 0x80)
                \<or> (a = 0xE2 \<and> b = 0x80 \<and> ((0x80 \<le> c \<and> c \<le> 0x8A) \<or> c = 0xA8 \<or> c = 0xA9 \<or> c = 0xAF))
                \<or> (a = 0xE2 \<and> b = 0x81 \<and> c = 0x9F)
                \<or> (a = 0xE3 \<and> b = 0x80 \<and> c = 0x80) then 3 else 0
          | [] \<Rightarrow> 0)
      | [] \<Rightarrow> 0)"

text \<open>The same at the end: the last three, two or one bytes.\<close>

definition ws_suffix :: "nat list \<Rightarrow> nat" where
  "ws_suffix s =
     (if 3 \<le> length s \<and> ws_prefix (drop (length s - 3) s) = 3 then 3
      else if 2 \<le> length s \<and> ws_prefix (drop (length s - 2) s) = 2 then 2
      else if 1 \<le> length s \<and> ws_prefix (drop (length s - 1) s) = 1 then 1
      else 0)"

definition codes :: "string \<Rightarrow> nat list" where
  "codes s = map of_char s"

function trim_start :: "string \<Rightarrow> string" where
  "trim_start s = (if s = [] \<or> ws_prefix (codes s) = 0 then s else trim_start (drop (ws_prefix (codes s)) s))"
  by pat_completeness auto
termination
  by (relation "measure length") (auto simp: codes_def)

function trim_end :: "string \<Rightarrow> string" where
  "trim_end s = (if s = [] \<or> ws_suffix (codes s) = 0 then s
     else trim_end (take (length s - ws_suffix (codes s)) s))"
  by pat_completeness auto
termination
  by (relation "measure length") (auto simp: codes_def)

declare trim_start.simps [simp del] trim_end.simps [simp del]

definition trim :: "string \<Rightarrow> string" where
  "trim s = trim_end (trim_start s)"

text \<open>\<open>split_whitespace\<close>: the non-empty runs between white space.\<close>

function split_ws :: "string \<Rightarrow> string \<Rightarrow> string list" where
  "split_ws cur s =
     (if s = [] then (if cur = [] then [] else [cur])
      else let n = ws_prefix (codes s)
           in if n = 0 then split_ws (cur @ [hd s]) (tl s)
              else (if cur = [] then [] else [cur]) @ split_ws [] (drop n s))"
  by pat_completeness auto
termination
  by (relation "measure (\<lambda>(cur, s). length s)") (auto simp: codes_def)

declare split_ws.simps [simp del]

definition split_whitespace :: "string \<Rightarrow> string list" where
  "split_whitespace s = split_ws [] s"

section \<open>Printing and parsing are inverse\<close>

lemma char_digit_digit_char [simp]: "d < 10 \<Longrightarrow> char_digit (digit_char d) = Some d"
  by (simp add: char_digit_def digit_char_def)

lemma digits_value_append:
  "digits_value acc (s @ t) = do { v \<leftarrow> digits_value acc s; digits_value v t }"
  by (induction s arbitrary: acc) (auto split: bind_split)

lemma show_nat_nonempty [simp]: "show_nat n \<noteq> []"
  by (subst show_nat.simps) simp

lemma digits_value_show_nat: "digits_value 0 (show_nat n) = Some n"
proof (induction n rule: show_nat.induct)
  case (1 n)
  then show ?case
    by (cases "n < 10") (simp_all add: show_nat.simps [of n] digits_value_append)
qed

lemma parse_nat_show_nat [simp]: "parse_nat (show_nat n) = Some n"
  by (simp add: parse_nat_def digits_value_show_nat)

lemma show_nat_digits: "list_all (\<lambda>c. char_digit c \<noteq> None) (show_nat n)"
proof (induction n rule: show_nat.induct)
  case (1 n)
  then show ?case
    by (cases "n < 10") (simp_all add: show_nat.simps [of n])
qed

lemma show_nat_inj: "show_nat m = show_nat n \<Longrightarrow> m = n"
  by (metis option.inject parse_nat_show_nat)

lemma sign_not_digit [simp]: "char_digit (CHR ''-'') = None" "char_digit (CHR ''+'') = None"
  by (simp_all add: char_digit_def)

lemma show_nat_Cons_sign: "show_nat n = c # r \<Longrightarrow> c \<noteq> CHR ''-'' \<and> c \<noteq> CHR ''+''"
  using show_nat_digits [of n] by auto

lemma parse_unsigned_show_nat: "n \<le> hi \<Longrightarrow> parse_unsigned hi (show_nat n) = Some n"
proof (cases "show_nat n")
  case (Cons c r)
  then show "n \<le> hi \<Longrightarrow> ?thesis"
    using show_nat_Cons_sign [OF Cons] parse_nat_show_nat [of n] by (simp add: parse_unsigned_def)
qed simp

lemma parse_signed_show_int: "lo \<le> x \<Longrightarrow> x \<le> hi \<Longrightarrow> parse_signed lo hi (show_int x) = Some x"
proof (cases "x < 0")
  case True
  then show "lo \<le> x \<Longrightarrow> x \<le> hi \<Longrightarrow> ?thesis"
    by (simp add: parse_signed_def show_int_def)
next
  case False
  obtain c r where cr: "show_nat (nat x) = c # r"
    by (cases "show_nat (nat x)") auto
  from False show "lo \<le> x \<Longrightarrow> x \<le> hi \<Longrightarrow> ?thesis"
    using show_nat_Cons_sign [OF cr] parse_nat_show_nat [of "nat x"]
    by (simp add: parse_signed_def show_int_def cr)
qed

lemma digits_value_zeros: "digits_value 0 (replicate k (CHR ''0'') @ s) = digits_value 0 s"
  by (induction k) (simp_all add: char_digit_def)

lemma parse_nat_pad_zeros [simp]: "parse_nat (pad_zeros w (show_nat n)) = Some n"
  by (simp add: parse_nat_def pad_zeros_def digits_value_zeros digits_value_show_nat)

lemma length_show_nat_le: "n < 10 ^ Suc k \<Longrightarrow> length (show_nat n) \<le> Suc k"
proof (induction k arbitrary: n)
  case (Suc k)
  then have "n div 10 < 10 ^ Suc k" by simp
  with Suc.IH have "length (show_nat (n div 10)) \<le> Suc k" by blast
  then show ?case
    by (subst show_nat.simps) simp
qed (simp add: show_nat.simps)

lemma length_pad_zeros [simp]: "length s \<le> w \<Longrightarrow> length (pad_zeros w s) = w"
  by (simp add: pad_zeros_def)

end
