(* ===== verification/Backend.thy ===== *)
theory Backend
  imports Rust_Text
begin

text \<open>
  Server-to-client messages, \<open>hyperdb-api-core/src/protocol/message/backend.rs\<close>:
  \<open>Header::parse\<close>, \<open>Message::parse\<close> with its cursor \<open>Buffer\<close>, the iterators over message bodies
  and the column access of \<open>DataRowBody\<close>.

  \<open>Message_parse\<close> takes the read buffer and returns the outcome and the buffer as the call
  leaves it: a complete frame is split off before its body is looked at, so the buffer also
  moves when the body is rejected. An iterator is a function from its state to the item and
  the next state. The I/O errors carry their kind and their message text.
\<close>

section \<open>The code\<close>

datatype io_error = InvalidData string | InvalidInput string | UnexpectedEof string

subsection \<open>Tags and the header\<close>

definition PARSE_COMPLETE_TAG :: u8 where "PARSE_COMPLETE_TAG = byte_of CHR ''1''"
definition BIND_COMPLETE_TAG :: u8 where "BIND_COMPLETE_TAG = byte_of CHR ''2''"
definition CLOSE_COMPLETE_TAG :: u8 where "CLOSE_COMPLETE_TAG = byte_of CHR ''3''"
definition NOTIFICATION_RESPONSE_TAG :: u8 where "NOTIFICATION_RESPONSE_TAG = byte_of CHR ''A''"
definition COPY_DONE_TAG :: u8 where "COPY_DONE_TAG = byte_of CHR ''c''"
definition COMMAND_COMPLETE_TAG :: u8 where "COMMAND_COMPLETE_TAG = byte_of CHR ''C''"
definition COPY_DATA_TAG :: u8 where "COPY_DATA_TAG = byte_of CHR ''d''"
definition DATA_ROW_TAG :: u8 where "DATA_ROW_TAG = byte_of CHR ''D''"
definition ERROR_RESPONSE_TAG :: u8 where "ERROR_RESPONSE_TAG = byte_of CHR ''E''"
definition COPY_IN_RESPONSE_TAG :: u8 where "COPY_IN_RESPONSE_TAG = byte_of CHR ''G''"
definition COPY_OUT_RESPONSE_TAG :: u8 where "COPY_OUT_RESPONSE_TAG = byte_of CHR ''H''"
definition EMPTY_QUERY_RESPONSE_TAG :: u8 where "EMPTY_QUERY_RESPONSE_TAG = byte_of CHR ''I''"
definition BACKEND_KEY_DATA_TAG :: u8 where "BACKEND_KEY_DATA_TAG = byte_of CHR ''K''"
definition NO_DATA_TAG :: u8 where "NO_DATA_TAG = byte_of CHR ''n''"
definition NOTICE_RESPONSE_TAG :: u8 where "NOTICE_RESPONSE_TAG = byte_of CHR ''N''"
definition AUTHENTICATION_TAG :: u8 where "AUTHENTICATION_TAG = byte_of CHR ''R''"
definition PORTAL_SUSPENDED_TAG :: u8 where "PORTAL_SUSPENDED_TAG = byte_of CHR ''s''"
definition PARAMETER_STATUS_TAG :: u8 where "PARAMETER_STATUS_TAG = byte_of CHR ''S''"
definition PARAMETER_DESCRIPTION_TAG :: u8 where "PARAMETER_DESCRIPTION_TAG = byte_of CHR ''t''"
definition ROW_DESCRIPTION_TAG :: u8 where "ROW_DESCRIPTION_TAG = byte_of CHR ''T''"
definition READY_FOR_QUERY_TAG :: u8 where "READY_FOR_QUERY_TAG = byte_of CHR ''Z''"

lemmas tag_defs =
  PARSE_COMPLETE_TAG_def BIND_COMPLETE_TAG_def CLOSE_COMPLETE_TAG_def NOTIFICATION_RESPONSE_TAG_def
  COPY_DONE_TAG_def COMMAND_COMPLETE_TAG_def COPY_DATA_TAG_def DATA_ROW_TAG_def
  ERROR_RESPONSE_TAG_def COPY_IN_RESPONSE_TAG_def COPY_OUT_RESPONSE_TAG_def
  EMPTY_QUERY_RESPONSE_TAG_def BACKEND_KEY_DATA_TAG_def NO_DATA_TAG_def NOTICE_RESPONSE_TAG_def
  AUTHENTICATION_TAG_def PORTAL_SUSPENDED_TAG_def PARAMETER_STATUS_TAG_def
  PARAMETER_DESCRIPTION_TAG_def ROW_DESCRIPTION_TAG_def READY_FOR_QUERY_TAG_def

record Header =
  hdr_tag :: u8
  hdr_len :: i32

definition Header_parse :: "bytes \<Rightarrow> io_error + Header option" where
  "Header_parse buf =
     (if length buf < 5 then Inr None
      else
        let t = buf ! 0; l = from_be_bytes (take 4 (drop 1 buf)) :: i32
        in if sint l < 4 then Inl (InvalidData ''invalid message length: header length < 4'')
           else Inr (Some \<lparr>hdr_tag = t, hdr_len = l\<rparr>))"

subsection \<open>Messages\<close>

record DataRowBody =
  row_storage :: bytes
  row_len :: u16

record CopyResponseBody =
  cr_format :: u8
  cr_len :: u16
  cr_storage :: bytes

datatype Message =
    AuthenticationOk
  | AuthenticationCleartextPassword
  | AuthenticationMd5Password bytes \<comment> \<open>\<open>salt\<close>, four bytes\<close>
  | AuthenticationSasl bytes
  | AuthenticationSaslContinue bytes
  | AuthenticationSaslFinal bytes
  | BackendKeyData i32 i32 \<comment> \<open>\<open>process_id\<close>, \<open>secret_key\<close>\<close>
  | BindComplete
  | CloseComplete
  | CommandComplete bytes
  | CopyData bytes
  | CopyDone
  | CopyInResponse CopyResponseBody
  | CopyOutResponse CopyResponseBody
  | DataRow DataRowBody
  | EmptyQueryResponse
  | ErrorResponse bytes
  | NoData
  | NoticeResponse bytes
  | NotificationResponse i32 bytes bytes \<comment> \<open>\<open>process_id\<close>, \<open>channel\<close>, \<open>message\<close>\<close>
  | ParameterDescription bytes u16
  | ParameterStatus bytes bytes
  | ParseComplete
  | PortalSuspended
  | ReadyForQuery u8
  | RowDescription bytes u16

subsection \<open>The cursor \<open>Buffer\<close>\<close>

record Buffer =
  buf_bytes :: bytes
  buf_idx :: nat

definition Buffer_slice :: "Buffer \<Rightarrow> bytes" where
  "Buffer_slice b = drop (buf_idx b) (buf_bytes b)"

definition Buffer_is_empty :: "Buffer \<Rightarrow> bool" where
  "Buffer_is_empty b \<longleftrightarrow> Buffer_slice b = []"

definition read_cstr :: "Buffer \<Rightarrow> io_error + (bytes \<times> Buffer)" where
  "read_cstr b =
     (case memchr 0 (Buffer_slice b) of
        Some pos \<Rightarrow>
          let start = buf_idx b; end' = start + pos
          in Inr (take (end' - start) (drop start (buf_bytes b)), b\<lparr>buf_idx := end' + 1\<rparr>)
      | None \<Rightarrow> Inl (UnexpectedEof ''unexpected EOF''))"

definition read_all :: "Buffer \<Rightarrow> bytes \<times> Buffer" where
  "read_all b = (drop (buf_idx b) (buf_bytes b), b\<lparr>buf_idx := length (buf_bytes b)\<rparr>)"

text \<open>\<open>Read for Buffer\<close>, and \<open>read_exact\<close> of the standard library on top of it: the first
  \<open>read\<close> fills the buffer or drains the slice, and a drained slice is an early end of file.\<close>

definition Buffer_read :: "Buffer \<Rightarrow> nat \<Rightarrow> bytes \<times> Buffer" where
  "Buffer_read b n =
     (let l = min (length (Buffer_slice b)) n in (take l (Buffer_slice b), b\<lparr>buf_idx := buf_idx b + l\<rparr>))"

definition read_exact :: "nat \<Rightarrow> Buffer \<Rightarrow> io_error + (bytes \<times> Buffer)" where
  "read_exact n b =
     (let (got, b') = Buffer_read b n
      in if length got < n then Inl (UnexpectedEof ''failed to fill whole buffer'') else Inr (got, b'))"

definition read_u8 :: "Buffer \<Rightarrow> io_error + (u8 \<times> Buffer)" where
  "read_u8 b = try_bind (read_exact 1 b) (\<lambda>(bs, b'). Inr (from_be_bytes bs, b'))"

definition read_u16 :: "Buffer \<Rightarrow> io_error + (u16 \<times> Buffer)" where
  "read_u16 b = try_bind (read_exact 2 b) (\<lambda>(bs, b'). Inr (from_be_bytes bs, b'))"

definition read_i32 :: "Buffer \<Rightarrow> io_error + (i32 \<times> Buffer)" where
  "read_i32 b = try_bind (read_exact 4 b) (\<lambda>(bs, b'). Inr (from_be_bytes bs, b'))"

subsection \<open>\<open>Message::parse\<close>\<close>

definition parse_authentication :: "Buffer \<Rightarrow> io_error + (Message \<times> Buffer)" where
  "parse_authentication b =
     try_bind (read_i32 b) (\<lambda>(t, b1).
       if t = 0 then Inr (AuthenticationOk, b1)
       else if t = 3 then Inr (AuthenticationCleartextPassword, b1)
       else if t = 5 then
         try_bind (read_exact 4 b1) (\<lambda>(salt, b2). Inr (AuthenticationMd5Password salt, b2))
       else if t = 10 then (let (storage, b2) = read_all b1 in Inr (AuthenticationSasl storage, b2))
       else if t = 11 then (let (storage, b2) = read_all b1 in Inr (AuthenticationSaslContinue storage, b2))
       else if t = 12 then (let (storage, b2) = read_all b1 in Inr (AuthenticationSaslFinal storage, b2))
       else Inl (InvalidInput (''unknown authentication tag `'' @ show_int (sint t) @ ''`'')))"

definition parse_body :: "u8 \<Rightarrow> Buffer \<Rightarrow> io_error + (Message \<times> Buffer)" where
  "parse_body t b =
     (if t = PARSE_COMPLETE_TAG then Inr (ParseComplete, b)
      else if t = BIND_COMPLETE_TAG then Inr (BindComplete, b)
      else if t = CLOSE_COMPLETE_TAG then Inr (CloseComplete, b)
      else if t = NOTIFICATION_RESPONSE_TAG then
        try_bind (read_i32 b) (\<lambda>(process_id, b1).
          try_bind (read_cstr b1) (\<lambda>(channel, b2).
            try_bind (read_cstr b2) (\<lambda>(message, b3).
              Inr (NotificationResponse process_id channel message, b3))))
      else if t = COPY_DONE_TAG then Inr (CopyDone, b)
      else if t = COMMAND_COMPLETE_TAG then
        try_bind (read_cstr b) (\<lambda>(ctag, b1). Inr (CommandComplete ctag, b1))
      else if t = COPY_DATA_TAG then (let (storage, b1) = read_all b in Inr (CopyData storage, b1))
      else if t = DATA_ROW_TAG then
        try_bind (read_u16 b) (\<lambda>(l, b1).
          let (storage, b2) = read_all b1 in Inr (DataRow \<lparr>row_storage = storage, row_len = l\<rparr>, b2))
      else if t = ERROR_RESPONSE_TAG then (let (storage, b1) = read_all b in Inr (ErrorResponse storage, b1))
      else if t = COPY_IN_RESPONSE_TAG then
        try_bind (read_u8 b) (\<lambda>(format, b1).
          try_bind (read_u16 b1) (\<lambda>(l, b2).
            let (storage, b3) = read_all b2
            in Inr (CopyInResponse \<lparr>cr_format = format, cr_len = l, cr_storage = storage\<rparr>, b3)))
      else if t = COPY_OUT_RESPONSE_TAG then
        try_bind (read_u8 b) (\<lambda>(format, b1).
          try_bind (read_u16 b1) (\<lambda>(l, b2).
            let (storage, b3) = read_all b2
            in Inr (CopyOutResponse \<lparr>cr_format = format, cr_len = l, cr_storage = storage\<rparr>, b3)))
      else if t = EMPTY_QUERY_RESPONSE_TAG then Inr (EmptyQueryResponse, b)
      else if t = BACKEND_KEY_DATA_TAG then
        try_bind (read_i32 b) (\<lambda>(process_id, b1).
          try_bind (read_i32 b1) (\<lambda>(secret_key, b2). Inr (BackendKeyData process_id secret_key, b2)))
      else if t = NO_DATA_TAG then Inr (NoData, b)
      else if t = NOTICE_RESPONSE_TAG then (let (storage, b1) = read_all b in Inr (NoticeResponse storage, b1))
      else if t = AUTHENTICATION_TAG then parse_authentication b
      else if t = PORTAL_SUSPENDED_TAG then Inr (PortalSuspended, b)
      else if t = PARAMETER_STATUS_TAG then
        try_bind (read_cstr b) (\<lambda>(name, b1).
          try_bind (read_cstr b1) (\<lambda>(value, b2). Inr (ParameterStatus name value, b2)))
      else if t = PARAMETER_DESCRIPTION_TAG then
        try_bind (read_u16 b) (\<lambda>(l, b1).
          let (storage, b2) = read_all b1 in Inr (ParameterDescription storage l, b2))
      else if t = ROW_DESCRIPTION_TAG then
        try_bind (read_u16 b) (\<lambda>(l, b1).
          let (storage, b2) = read_all b1 in Inr (RowDescription storage l, b2))
      else if t = READY_FOR_QUERY_TAG then
        try_bind (read_u8 b) (\<lambda>(status, b1). Inr (ReadyForQuery status, b1))
      else Inl (InvalidInput (''unknown message tag `'' @ show_nat (unat t) @ ''`'')))"

text \<open>\<open>reserve\<close> only grows the capacity; \<open>checked_add\<close> cannot overflow a 64-bit \<open>usize\<close>.\<close>

definition Message_parse :: "bytes \<Rightarrow> (io_error + Message option) \<times> bytes" where
  "Message_parse buf =
     (if length buf < 5 then (Inr None, buf)
      else
        let t = buf ! 0; l = unat (from_be_bytes (take 4 (drop 1 buf)) :: u32)
        in if l < 4 then (Inl (InvalidInput ''invalid message length: parsing u32''), buf)
           else
             let total_len = l + 1
             in if length buf < total_len then (Inr None, buf)
                else
                  let b = \<lparr>buf_bytes = take total_len buf, buf_idx = 5\<rparr>
                  in (try_bind (parse_body t b) (\<lambda>(message, b').
                        if \<not> Buffer_is_empty b' then
                          Inl (InvalidInput ''invalid message length: expected buffer to be empty'')
                        else Inr (Some message)),
                      drop total_len buf))"

section \<open>Framing\<close>

text \<open>The length field of a complete header, and the three ways a call ends.\<close>

definition wire_len :: "bytes \<Rightarrow> nat" where
  "wire_len buf = unat (from_be_bytes (take 4 (drop 1 buf)) :: u32)"

definition body_outcome :: "bytes \<Rightarrow> io_error + Message option" where
  "body_outcome fr =
     try_bind (parse_body (fr ! 0) \<lparr>buf_bytes = fr, buf_idx = 5\<rparr>) (\<lambda>(message, b').
       if \<not> Buffer_is_empty b' then
         Inl (InvalidInput ''invalid message length: expected buffer to be empty'')
       else Inr (Some message))"

lemma body_outcome_not_None: "body_outcome fr \<noteq> Inr None"
  by (auto simp: body_outcome_def try_bind_def split: sum.split prod.split)

lemma Message_parse_cases:
  "Message_parse buf =
     (if length buf < 5 then (Inr None, buf)
      else if wire_len buf < 4 then (Inl (InvalidInput ''invalid message length: parsing u32''), buf)
      else if length buf < wire_len buf + 1 then (Inr None, buf)
      else (body_outcome (take (wire_len buf + 1) buf), drop (wire_len buf + 1) buf))"
  by (simp add: Message_parse_def wire_len_def body_outcome_def Let_def)

lemma wire_len_append [simp]: "5 \<le> length buf \<Longrightarrow> wire_len (buf @ ys) = wire_len buf"
  by (simp add: wire_len_def)


lemma Message_parse_incomplete: "Message_parse buf = (Inr None, rest) \<Longrightarrow> rest = buf"
  by (auto simp: Message_parse_cases body_outcome_not_None split: if_splits)

lemma Message_parse_suffix: "Message_parse buf = (r, rest) \<Longrightarrow> \<exists>fr. buf = fr @ rest"
  by (auto simp: Message_parse_cases split: if_splits) (metis append_take_drop_id)

lemma Message_parse_progress:
  "Message_parse buf = (Inr (Some m), rest) \<Longrightarrow> 5 + length rest \<le> length buf"
  by (auto simp: Message_parse_cases split: if_splits)

lemma Message_parse_stable:
  assumes "Message_parse buf = (r, rest)" "r \<noteq> Inr None"
  shows "Message_parse (buf @ ys) = (r, rest @ ys)"
  using assms by (auto simp: Message_parse_cases split: if_splits)

section \<open>An interface: a parser over a growing buffer\<close>

text \<open>
  What a reader of a byte stream needs of its parser. \<open>next_message\<close> is the reader: it asks
  the parser, and while the buffer holds no complete message it appends the next chunk.
\<close>

fun next_message ::
  "('b list \<Rightarrow> ('e + 'm option) \<times> 'b list) \<Rightarrow> 'b list \<Rightarrow> 'b list list
     \<Rightarrow> ('e + 'm) option \<times> 'b list \<times> 'b list list" where
  "next_message p buf chunks =
     (case p buf of
        (Inl e, rest) \<Rightarrow> (Some (Inl e), rest, chunks)
      | (Inr (Some m), rest) \<Rightarrow> (Some (Inr m), rest, chunks)
      | (Inr None, rest) \<Rightarrow>
          (case chunks of [] \<Rightarrow> (None, rest, []) | c # cs \<Rightarrow> next_message p (rest @ c) cs))"

declare next_message.simps [simp del]

locale framed_parser =
  fixes parse :: "'b list \<Rightarrow> ('e + 'm option) \<times> 'b list"
  assumes incomplete: "parse buf = (Inr None, rest) \<Longrightarrow> rest = buf"
    and suffix: "parse buf = (r, rest) \<Longrightarrow> \<exists>fr. buf = fr @ rest"
    and progress: "parse buf = (Inr (Some m), rest) \<Longrightarrow> length rest < length buf"
    and stable: "parse buf = (r, rest) \<Longrightarrow> r \<noteq> Inr None \<Longrightarrow> parse (buf @ ys) = (r, rest @ ys)"
begin

lemma next_message_None:
  "fst (parse (buf @ concat cs)) = Inr None \<Longrightarrow>
   next_message parse buf cs = (None, buf @ concat cs, [])"
proof (induction cs arbitrary: buf)
  case Nil
  then show ?case
    by (subst next_message.simps) (auto split: prod.split dest: incomplete)
next
  case (Cons c cs)
  obtain r rest where p: "parse buf = (r, rest)"
    by (cases "parse buf")
  have "r = Inr None"
    using stable [OF p, of "concat (c # cs)"] Cons.prems by (cases "r = Inr None") auto
  with p incomplete have "next_message parse buf (c # cs) = next_message parse (buf @ c) cs"
    by (subst next_message.simps) auto
  with Cons show ?case
    by simp
qed

lemma next_message_Some:
  assumes "parse (buf @ concat cs) = (r, rest)" "r \<noteq> Inr None"
  shows "\<exists>o' buf' cs'. next_message parse buf cs = (Some o', buf', cs')
           \<and> buf' @ concat cs' = rest \<and> map_sum id Some o' = r"
  using assms
proof (induction cs arbitrary: buf)
  case Nil
  then show ?case
    by (subst next_message.simps) (auto split: prod.split sum.split option.split)
next
  case (Cons c cs)
  obtain r' rest' where p: "parse buf = (r', rest')"
    by (cases "parse buf")
  show ?case
  proof (cases "r' = Inr None")
    case True
    with p incomplete have "next_message parse buf (c # cs) = next_message parse (buf @ c) cs"
      by (subst next_message.simps) auto
    with Cons show ?thesis
      by simp
  next
    case False
    with stable [OF p] Cons.prems have "r' = r" "rest' @ concat (c # cs) = rest"
      by auto
    with p False show ?thesis
      by (subst next_message.simps) (auto split: prod.split sum.split option.split)
  qed
qed

text \<open>How the stream is cut into reads does not change what is read.\<close>

lemma chunking_independent:
  assumes "buf @ concat cs = buf2 @ concat cs2"
  shows "fst (next_message parse buf cs) = fst (next_message parse buf2 cs2)"
    and "(case next_message parse buf cs of (_, b, ds) \<Rightarrow> b @ concat ds)
       = (case next_message parse buf2 cs2 of (_, b, ds) \<Rightarrow> b @ concat ds)"
proof -
  obtain r rest where p: "parse (buf @ concat cs) = (r, rest)"
    by (cases "parse (buf @ concat cs)")
  have "fst (next_message parse buf cs) = fst (next_message parse buf2 cs2) \<and>
    (case next_message parse buf cs of (_, b, ds) \<Rightarrow> b @ concat ds)
       = (case next_message parse buf2 cs2 of (_, b, ds) \<Rightarrow> b @ concat ds)"
  proof (cases "r = Inr None")
    case True
    with p show ?thesis
      using next_message_None [of buf cs] next_message_None [of buf2 cs2] assms by simp
  next
    case False
    have inj: "map_sum id Some a = map_sum id Some b \<Longrightarrow> a = b" for a b :: "'e + 'm"
      by (cases a; cases b) auto
    show ?thesis
      using next_message_Some [OF p False] next_message_Some [OF p [unfolded assms] False] inj
      by fastforce
  qed
  then show "fst (next_message parse buf cs) = fst (next_message parse buf2 cs2)"
    and "(case next_message parse buf cs of (_, b, ds) \<Rightarrow> b @ concat ds)
       = (case next_message parse buf2 cs2 of (_, b, ds) \<Rightarrow> b @ concat ds)"
    by simp_all
qed

end

interpretation backend: framed_parser Message_parse
proof unfold_locales
  show "length rest < length buf" if "Message_parse buf = (Inr (Some m), rest)" for buf m rest
    using Message_parse_progress [OF that] by simp
qed (erule Message_parse_incomplete Message_parse_suffix, (rule Message_parse_stable, assumption+)?)+

section \<open>The server side: what \<open>Message::parse\<close> must read\<close>

text \<open>The wire form of each message (the protocol's message formats), and the
  values it can carry: a C string holds no NUL, the salt has four bytes.\<close>

definition nul_free_bytes :: "bytes \<Rightarrow> bool" where
  "nul_free_bytes bs \<longleftrightarrow> 0 \<notin> set bs"

fun server_tag :: "Message \<Rightarrow> u8" where
  "server_tag AuthenticationOk = AUTHENTICATION_TAG"
| "server_tag AuthenticationCleartextPassword = AUTHENTICATION_TAG"
| "server_tag (AuthenticationMd5Password _) = AUTHENTICATION_TAG"
| "server_tag (AuthenticationSasl _) = AUTHENTICATION_TAG"
| "server_tag (AuthenticationSaslContinue _) = AUTHENTICATION_TAG"
| "server_tag (AuthenticationSaslFinal _) = AUTHENTICATION_TAG"
| "server_tag (BackendKeyData _ _) = BACKEND_KEY_DATA_TAG"
| "server_tag BindComplete = BIND_COMPLETE_TAG"
| "server_tag CloseComplete = CLOSE_COMPLETE_TAG"
| "server_tag (CommandComplete _) = COMMAND_COMPLETE_TAG"
| "server_tag (CopyData _) = COPY_DATA_TAG"
| "server_tag CopyDone = COPY_DONE_TAG"
| "server_tag (CopyInResponse _) = COPY_IN_RESPONSE_TAG"
| "server_tag (CopyOutResponse _) = COPY_OUT_RESPONSE_TAG"
| "server_tag (DataRow _) = DATA_ROW_TAG"
| "server_tag EmptyQueryResponse = EMPTY_QUERY_RESPONSE_TAG"
| "server_tag (ErrorResponse _) = ERROR_RESPONSE_TAG"
| "server_tag NoData = NO_DATA_TAG"
| "server_tag (NoticeResponse _) = NOTICE_RESPONSE_TAG"
| "server_tag (NotificationResponse _ _ _) = NOTIFICATION_RESPONSE_TAG"
| "server_tag (ParameterDescription _ _) = PARAMETER_DESCRIPTION_TAG"
| "server_tag (ParameterStatus _ _) = PARAMETER_STATUS_TAG"
| "server_tag ParseComplete = PARSE_COMPLETE_TAG"
| "server_tag PortalSuspended = PORTAL_SUSPENDED_TAG"
| "server_tag (ReadyForQuery _) = READY_FOR_QUERY_TAG"
| "server_tag (RowDescription _ _) = ROW_DESCRIPTION_TAG"

fun server_body :: "Message \<Rightarrow> bytes" where
  "server_body AuthenticationOk = to_be_bytes (0 :: i32)"
| "server_body AuthenticationCleartextPassword = to_be_bytes (3 :: i32)"
| "server_body (AuthenticationMd5Password salt) = to_be_bytes (5 :: i32) @ salt"
| "server_body (AuthenticationSasl d) = to_be_bytes (10 :: i32) @ d"
| "server_body (AuthenticationSaslContinue d) = to_be_bytes (11 :: i32) @ d"
| "server_body (AuthenticationSaslFinal d) = to_be_bytes (12 :: i32) @ d"
| "server_body (BackendKeyData pid key) = to_be_bytes pid @ to_be_bytes key"
| "server_body (CommandComplete t) = t @ [0]"
| "server_body (CopyData d) = d"
| "server_body (CopyInResponse r) = [cr_format r] @ to_be_bytes (cr_len r) @ cr_storage r"
| "server_body (CopyOutResponse r) = [cr_format r] @ to_be_bytes (cr_len r) @ cr_storage r"
| "server_body (DataRow r) = to_be_bytes (row_len r) @ row_storage r"
| "server_body (ErrorResponse d) = d"
| "server_body (NoticeResponse d) = d"
| "server_body (NotificationResponse pid ch m) = to_be_bytes pid @ ch @ [0] @ m @ [0]"
| "server_body (ParameterDescription d n) = to_be_bytes n @ d"
| "server_body (ParameterStatus n v) = n @ [0] @ v @ [0]"
| "server_body (ReadyForQuery st) = [st]"
| "server_body (RowDescription d n) = to_be_bytes n @ d"
| "server_body _ = []"

fun server_wf :: "Message \<Rightarrow> bool" where
  "server_wf (AuthenticationMd5Password salt) = (length salt = 4)"
| "server_wf (CommandComplete t) = nul_free_bytes t"
| "server_wf (NotificationResponse _ ch m) = (nul_free_bytes ch \<and> nul_free_bytes m)"
| "server_wf (ParameterStatus n v) = (nul_free_bytes n \<and> nul_free_bytes v)"
| "server_wf _ = True"

definition server_encode :: "Message \<Rightarrow> bytes" where
  "server_encode m =
     server_tag m # to_be_bytes (word_of_nat (length (server_body m) + 4) :: u32) @ server_body m"

definition sendable :: "Message \<Rightarrow> bool" where
  "sendable m \<longleftrightarrow> server_wf m \<and> length (server_body m) + 4 < 2 ^ 32"

text \<open>A small calculus of cursor programs: \<open>p\<close>, started with the bytes \<open>xs\<close> ahead, returns
  \<open>v\<close> and leaves \<open>ys\<close> ahead.\<close>

definition reads :: "(Buffer \<Rightarrow> io_error + ('a \<times> Buffer)) \<Rightarrow> bytes \<Rightarrow> 'a \<Rightarrow> bytes \<Rightarrow> bool" where
  "reads p xs v ys \<longleftrightarrow>
     (\<forall>b. Buffer_slice b = xs \<longrightarrow> (\<exists>b'. p b = Inr (v, b') \<and> Buffer_slice b' = ys))"

lemma reads_return [intro]: "reads (\<lambda>b. Inr (v, b)) xs v xs"
  by (simp add: reads_def)

lemma reads_bind:
  assumes "reads p xs v ys" "reads (f v) ys w zs"
  shows "reads (\<lambda>b. try_bind (p b) (\<lambda>(v, b'). f v b')) xs w zs"
  using assms by (fastforce simp: reads_def)

lemma reads_read_all [intro]:
  "g xs = v \<Longrightarrow> reads (\<lambda>b. case read_all b of (s, b1) \<Rightarrow> Inr (g s, b1)) xs v []"
  by (simp add: reads_def read_all_def Buffer_slice_def)

lemma reads_read_exact:
  assumes "length xs = n"
  shows "reads (read_exact n) (xs @ ys) xs ys"
proof -
  have "read_exact n b = Inr (xs, b\<lparr>buf_idx := buf_idx b + n\<rparr>) \<and> drop (buf_idx b + n) (buf_bytes b) = ys"
    if "drop (buf_idx b) (buf_bytes b) = xs @ ys" for b
    using that assms
    by (simp add: read_exact_def Buffer_read_def Buffer_slice_def add.commute [of "buf_idx b"]
        flip: drop_drop)
  then show ?thesis
    by (fastforce simp: reads_def Buffer_slice_def)
qed

lemma reads_read_i32: "reads read_i32 (to_be_bytes v @ ys) v ys"
  using reads_bind [OF reads_read_exact [of "to_be_bytes v" 4 ys],
      of "\<lambda>bs b. Inr (from_be_bytes bs, b)" v ys]
  by (simp add: reads_def read_i32_def)

lemma reads_read_u16: "reads read_u16 (to_be_bytes v @ ys) v ys"
  using reads_bind [OF reads_read_exact [of "to_be_bytes v" 2 ys],
      of "\<lambda>bs b. Inr (from_be_bytes bs, b)" v ys]
  by (simp add: reads_def read_u16_def)

lemma reads_read_u8: "reads read_u8 (v # ys) v ys"
  using reads_bind [OF reads_read_exact [of "[v]" 1 ys],
      of "\<lambda>bs b. Inr (from_be_bytes bs, b)" v ys]
  by (simp add: reads_def read_u8_def)

lemma reads_read_cstr: "nul_free_bytes s \<Longrightarrow> reads read_cstr (s @ 0 # ys) s ys"
proof -
  assume s: "nul_free_bytes s"
  have "read_cstr b = Inr (s, b\<lparr>buf_idx := buf_idx b + length s + 1\<rparr>)
      \<and> drop (buf_idx b + length s + 1) (buf_bytes b) = ys"
    if b: "drop (buf_idx b) (buf_bytes b) = s @ 0 # ys" for b
  proof -
    have "drop (buf_idx b + length s + 1) (buf_bytes b) = drop (length s + 1) (s @ 0 # ys)"
      unfolding b [symmetric] by (simp add: ac_simps)
    with b s show ?thesis
      by (simp add: read_cstr_def Buffer_slice_def nul_free_bytes_def)
  qed
  then show ?thesis
    by (fastforce simp: reads_def Buffer_slice_def)
qed

lemma read_i32_last: "reads read_i32 (to_be_bytes v) v []"
  using reads_read_i32 [of v "[]"] by simp

lemmas reads_rules = reads_bind [OF reads_read_i32] reads_bind [OF read_i32_last]
  reads_bind [OF reads_read_u16] reads_bind [OF reads_read_u8] reads_bind [OF reads_read_cstr]
  reads_bind [OF reads_read_exact [where ys = "[]", simplified]] reads_read_all reads_return

lemma parse_authentication_server:
  "server_wf m \<Longrightarrow> server_tag m = AUTHENTICATION_TAG \<Longrightarrow>
   reads parse_authentication (server_body m) m []"
  unfolding parse_authentication_def
  by (cases m)
    (auto simp: tag_defs intro!: reads_rules)

lemma parse_body_server:
  assumes "server_wf m"
  shows "reads (parse_body (server_tag m)) (server_body m) m []"
proof (cases "server_tag m = AUTHENTICATION_TAG")
  case True
  then have "parse_body (server_tag m) = parse_authentication"
    by (simp add: parse_body_def fun_eq_iff tag_defs)
  with parse_authentication_server [OF assms True] show ?thesis
    by simp
next
  case False
  with assms show ?thesis
    unfolding parse_body_def
    by (cases m) (auto simp: tag_defs intro!: reads_rules)
qed

lemma body_outcome_server:
  assumes "server_wf m" "length h = 4"
  shows "body_outcome (server_tag m # h @ server_body m) = Inr (Some m)"
proof -
  have "Buffer_slice \<lparr>buf_bytes = server_tag m # h @ server_body m, buf_idx = 5\<rparr> = server_body m"
    using assms by (simp add: Buffer_slice_def)
  with parse_body_server [OF assms(1)] show ?thesis
    by (auto simp: body_outcome_def reads_def Buffer_is_empty_def)
qed

lemma Message_parse_server:
  assumes "sendable m"
  shows "Message_parse (server_encode m @ rest) = (Inr (Some m), rest)"
proof -
  have len: "wire_len (server_encode m @ rest) = length (server_body m) + 4"
    using assms by (simp add: wire_len_def server_encode_def sendable_def unat_of_nat del: of_nat_add of_nat_numeral)
  have size: "length (server_encode m) = length (server_body m) + 5"
    by (simp add: server_encode_def)
  have "body_outcome (server_encode m) = Inr (Some m)"
    unfolding server_encode_def using assms by (intro body_outcome_server) (simp_all add: sendable_def)
  then show ?thesis
    unfolding Message_parse_cases len by (simp add: size)
qed

section \<open>Properties\<close>

text \<open>C27. \<open>Message::parse\<close> reads what the protocol says a server writes: for each of the twenty-six
  kinds of message, with any contents that fit the frame, parsing its wire form followed by
  any other bytes returns that message and leaves exactly those bytes.\<close>

theorem server_message_roundtrip:
  assumes "sendable m"
  shows "Message_parse (server_encode m @ rest) = (Inr (Some m), rest)"
  using assms by (rule Message_parse_server)

theorem server_message_roundtrip_witness:
  "Message_parse (server_encode (ReadyForQuery 73) @ [1, 2]) = (Inr (Some (ReadyForQuery 73)), [1, 2])"
  by (rule server_message_roundtrip) (simp add: sendable_def)

text \<open>How the network cuts the byte stream into reads never changes what is parsed: from the
  same bytes, buffered or still to come, the next result is the same message or the same error,
  and the bytes left over are the same.\<close>

theorem parse_chunking_independent:
  assumes "buf @ concat chunks = buf2 @ concat chunks2"
  shows "fst (next_message Message_parse buf chunks) = fst (next_message Message_parse buf2 chunks2) \<and>
    (case next_message Message_parse buf chunks of (_, b, ds) \<Rightarrow> b @ concat ds)
      = (case next_message Message_parse buf2 chunks2 of (_, b, ds) \<Rightarrow> b @ concat ds)"
  using backend.chunking_independent [OF assms] by blast

theorem parse_chunking_independent_witness:
  "fst (next_message Message_parse [90, 0] [[0, 0], [5, 73]])
     = fst (next_message Message_parse [] [[90], [0, 0, 0, 5, 73]])"
  using parse_chunking_independent [of "[90, 0]" "[[0, 0], [5, 73]]" "[]" "[[90], [0, 0, 0, 5, 73]]"] by simp

end
