(* ===== verification/Message_Bodies.thy ===== *)
theory Message_Bodies
  imports Backend
begin

text \<open>
  The bodies of the server messages, \<open>hyperdb-api-core/src/protocol/message/backend.rs\<close>: the
  accessors that decode UTF-8, the iterators \<open>SaslMechanisms\<close>, \<open>ErrorFields\<close>, \<open>Parameters\<close>,
  \<open>Fields\<close> and \<open>DataRowRanges\<close>, and the column access of \<open>DataRowBody\<close>.

  An iterator's \<open>next\<close> is a function from the iterator's state to the item and the next
  state. \<open>collect_results\<close> is \<open>collect::<Result<Vec<_>, _>>()\<close> (it stops at the first error) and
  \<open>collect_ok\<close> is a loop over \<open>.flatten()\<close> (errors are skipped); both take the number of
  \<open>next\<close> calls they may make. The locale \<open>result_iterator\<close> says when that is enough.
\<close>

section \<open>Collecting an iterator\<close>

fun collect_results :: "nat \<Rightarrow> ('s \<Rightarrow> ('e + 'a) option \<times> 's) \<Rightarrow> 's \<Rightarrow> ('e + 'a list) option" where
  "collect_results 0 nxt s = None"
| "collect_results (Suc n) nxt s =
     (case nxt s of
        (None, _) \<Rightarrow> Some (Inr [])
      | (Some (Inl e), _) \<Rightarrow> Some (Inl e)
      | (Some (Inr x), s') \<Rightarrow>
          (case collect_results n nxt s' of
             Some (Inr xs) \<Rightarrow> Some (Inr (x # xs)) | r \<Rightarrow> r))"

fun collect_ok :: "nat \<Rightarrow> ('s \<Rightarrow> ('e + 'a) option \<times> 's) \<Rightarrow> 's \<Rightarrow> 'a list option" where
  "collect_ok 0 nxt s = None"
| "collect_ok (Suc n) nxt s =
     (case nxt s of
        (None, _) \<Rightarrow> Some []
      | (Some (Inl e), s') \<Rightarrow> collect_ok n nxt s'
      | (Some (Inr x), s') \<Rightarrow> map_option (Cons x) (collect_ok n nxt s'))"

locale result_iterator =
  fixes nxt :: "'s \<Rightarrow> ('e + 'a) option \<times> 's" and size_of :: "'s \<Rightarrow> nat"
  assumes ok_shrinks: "nxt s = (Some (Inr x), s') \<Longrightarrow> size_of s' < size_of s"
begin

lemma collect_results_returns: "size_of s < n \<Longrightarrow> \<exists>r. collect_results n nxt s = Some r"
proof (induction n arbitrary: s)
  case (Suc n)
  obtain y s' where y: "nxt s = (y, s')"
    by (cases "nxt s")
  consider "y = None" | e where "y = Some (Inl e)" | x where "y = Some (Inr x)"
    by (cases y rule: option.exhaust; metis sum.exhaust)
  then show ?case
  proof cases
    case 3
    then have "\<exists>r. collect_results n nxt s' = Some r"
      using Suc.IH [of s'] ok_shrinks [of s x s'] y Suc.prems by simp
    with 3 y show ?thesis
      by (auto split: sum.split)
  qed (simp_all add: y)
qed simp

lemma collect_results_more:
  "collect_results n nxt s = Some r \<Longrightarrow> n \<le> k \<Longrightarrow> collect_results k nxt s = Some r"
proof (induction n arbitrary: k s r)
  case (Suc n)
  then obtain k' where "k = Suc k'" "n \<le> k'"
    by (cases k) auto
  moreover obtain y s' where "nxt s = (y, s')"
    by (cases "nxt s")
  ultimately show ?case
    using Suc.prems(1) Suc.IH [of s' _ k']
    by (cases y; cases "the y"; cases "collect_results n nxt s'") auto
qed simp

end

locale finite_iterator = result_iterator +
  assumes err_shrinks: "nxt s = (Some (Inl e), s') \<Longrightarrow> size_of s' < size_of s"
begin

lemma collect_ok_returns: "size_of s < n \<Longrightarrow> \<exists>xs. collect_ok n nxt s = Some xs"
proof (induction n arbitrary: s)
  case (Suc n)
  obtain y s' where y: "nxt s = (y, s')"
    by (cases "nxt s")
  consider "y = None" | e where "y = Some (Inl e)" | x where "y = Some (Inr x)"
    by (cases y rule: option.exhaust; metis sum.exhaust)
  then show ?case
  proof cases
    case (2 e)
    then show ?thesis
      using Suc.IH [of s'] err_shrinks [of s e s'] y Suc.prems by simp
  next
    case (3 x)
    then show ?thesis
      using Suc.IH [of s'] ok_shrinks [of s x s'] y Suc.prems by auto
  qed (simp add: y)
qed simp

end

section \<open>The code\<close>

subsection \<open>UTF-8 accessors\<close>

text \<open>\<open>str::from_utf8(..).map_err(..)\<close>; the error carries the display of \<open>Utf8Error\<close>, of which
  only the kind is kept.\<close>

definition utf8_or_invalid :: "bytes \<Rightarrow> io_error + string" where
  "utf8_or_invalid bs =
     (case from_utf8 bs of Some s \<Rightarrow> Inr s | None \<Rightarrow> Inl (InvalidInput ''invalid utf-8''))"

definition CommandComplete_tag :: "bytes \<Rightarrow> io_error + string" where
  "CommandComplete_tag t = utf8_or_invalid t"

definition ParameterStatus_name :: "bytes \<Rightarrow> io_error + string" where
  "ParameterStatus_name n = utf8_or_invalid n"

definition ParameterStatus_value :: "bytes \<Rightarrow> io_error + string" where
  "ParameterStatus_value v = utf8_or_invalid v"

definition Notification_channel :: "bytes \<Rightarrow> io_error + string" where
  "Notification_channel c = utf8_or_invalid c"

definition Notification_message :: "bytes \<Rightarrow> io_error + string" where
  "Notification_message m = utf8_or_invalid m"

subsection \<open>\<open>SaslMechanisms\<close>\<close>

definition SaslMechanisms_next :: "bytes \<Rightarrow> string option \<times> bytes" where
  "SaslMechanisms_next buf =
     (if buf = [] \<or> buf ! 0 = 0 then (None, buf)
      else
        (case memchr 0 buf of
           Some pos \<Rightarrow>
             (case from_utf8 (take pos buf) of
                Some mechanism \<Rightarrow> (Some mechanism, drop (pos + 1) buf)
              | None \<Rightarrow> (None, buf))
         | None \<Rightarrow> (None, buf)))"

lemma SaslMechanisms_next_shrinks:
  "SaslMechanisms_next buf = (Some m, buf') \<Longrightarrow> length buf' < length buf"
  by (simp add: SaslMechanisms_next_def split: if_splits option.splits) (metis diff_less length_drop
      length_greater_0_conv zero_less_Suc)

function mechanisms :: "bytes \<Rightarrow> string list" where
  "mechanisms buf =
     (case SaslMechanisms_next buf of (Some m, buf') \<Rightarrow> m # mechanisms buf' | (None, _) \<Rightarrow> [])"
  by pat_completeness auto
termination
  by (relation "measure length") (auto dest: SaslMechanisms_next_shrinks [OF sym])

declare mechanisms.simps [simp del]

subsection \<open>\<open>ErrorFields\<close>\<close>

record ErrorField =
  err_type :: u8
  field_value :: bytes

definition ErrorField_value :: "ErrorField \<Rightarrow> io_error + string" where
  "ErrorField_value f = utf8_or_invalid (field_value f)"

definition ErrorFields_next :: "bytes \<Rightarrow> (io_error + ErrorField) option \<times> bytes" where
  "ErrorFields_next buf =
     (if buf = [] then (None, buf)
      else
        let t = buf ! 0; buf1 = drop 1 buf
        in if t = 0 then (None, buf1)
           else
             (case memchr 0 buf1 of
                Some pos \<Rightarrow>
                  (Some (Inr \<lparr>err_type = t, field_value = take pos buf1\<rparr>), drop (pos + 1) buf1)
              | None \<Rightarrow> (Some (Inl (UnexpectedEof ''unexpected EOF in error field'')), buf1)))"

subsection \<open>\<open>Parameters\<close>\<close>

record Parameters =
  param_buf :: bytes
  param_remaining :: u16

definition Parameters_next :: "Parameters \<Rightarrow> (io_error + u32) option \<times> Parameters" where
  "Parameters_next s =
     (if param_remaining s = 0 then (None, s)
      else
        let s1 = s\<lparr>param_remaining := param_remaining s - 1\<rparr>; buf = param_buf s
        in if length buf < 4 then (Some (Inl (UnexpectedEof ''unexpected EOF'')), s1)
           else (Some (Inr (from_be_bytes (take 4 buf))), s1\<lparr>param_buf := drop 4 buf\<rparr>))"

subsection \<open>\<open>Fields\<close>\<close>

record Field =
  field_name :: string
  table_oid :: u32
  column_id :: i16
  field_type_oid :: u32
  type_size :: i16
  field_type_modifier :: i32
  field_format :: i16

record Fields =
  fields_buf :: bytes
  fields_remaining :: u16

definition Fields_next :: "Fields \<Rightarrow> (io_error + Field) option \<times> Fields" where
  "Fields_next s =
     (if fields_remaining s = 0 then (None, s)
      else
        let s1 = s\<lparr>fields_remaining := fields_remaining s - 1\<rparr>; buf = fields_buf s
        in (case memchr 0 buf of
              None \<Rightarrow> (Some (Inl (UnexpectedEof ''unexpected EOF in field name'')), s1)
            | Some name_end \<Rightarrow>
                (case from_utf8 (take name_end buf) of
                   None \<Rightarrow> (Some (Inl (InvalidInput ''invalid utf-8'')), s1)
                 | Some name \<Rightarrow>
                     let buf1 = drop (name_end + 1) buf; s2 = s1\<lparr>fields_buf := buf1\<rparr>
                     in if length buf1 < 18 then
                          (Some (Inl (UnexpectedEof ''unexpected EOF in field description'')), s2)
                        else
                          (Some (Inr
                             \<lparr>field_name = name,
                              table_oid = from_be_bytes (take 4 buf1),
                              column_id = from_be_bytes (take 2 (drop 4 buf1)),
                              field_type_oid = from_be_bytes (take 4 (drop 6 buf1)),
                              type_size = from_be_bytes (take 2 (drop 10 buf1)),
                              field_type_modifier = from_be_bytes (take 4 (drop 12 buf1)),
                              field_format = from_be_bytes (take 2 (drop 16 buf1))\<rparr>),
                           s2\<lparr>fields_buf := drop 18 buf1\<rparr>))))"

subsection \<open>\<open>DataRowBody\<close> and \<open>DataRowRanges\<close>\<close>

record DataRowRanges =
  rr_buf :: bytes
  rr_len :: nat
  rr_remaining :: u16

definition ranges :: "DataRowBody \<Rightarrow> DataRowRanges" where
  "ranges d = \<lparr>rr_buf = row_storage d, rr_len = length (row_storage d), rr_remaining = row_len d\<rparr>"

definition DataRowRanges_next ::
  "DataRowRanges \<Rightarrow> (io_error + (nat \<times> nat) option) option \<times> DataRowRanges" where
  "DataRowRanges_next s =
     (if rr_remaining s = 0 then
        (if rr_buf s = [] then (None, s)
         else (Some (Inl (InvalidInput ''invalid message length: extra data in data row'')), s))
      else
        let s1 = s\<lparr>rr_remaining := rr_remaining s - 1\<rparr>
        in if length (rr_buf s) < 4 then
             (Some (Inl (UnexpectedEof ''unexpected EOF reading column length'')), s1)
           else
             let l = sint (from_be_bytes (take 4 (rr_buf s)) :: i32);
                 buf = drop 4 (rr_buf s);
                 s2 = s1\<lparr>rr_buf := buf\<rparr>
             in if l < 0 then (Some (Inr None), s2)
                else if length buf < nat l then (Some (Inl (UnexpectedEof ''unexpected EOF'')), s2)
                else
                  let base = rr_len s - length buf
                  in (Some (Inr (Some (base, base + nat l))), s2\<lparr>rr_buf := drop (nat l) buf\<rparr>))"

text \<open>\<open>compute_all_offsets\<close>: the \<open>for\<close> loop, with its \<open>break\<close>s.\<close>

primrec offsets_loop :: "nat \<Rightarrow> nat \<Rightarrow> bytes \<Rightarrow> (nat \<times> nat) option list" where
  "offsets_loop 0 pos buf = []"
| "offsets_loop (Suc n) pos buf =
     (if pos + 4 > length buf then []
      else
        let l = sint (from_be_bytes (take 4 (drop pos buf)) :: i32); pos1 = pos + 4
        in if l \<ge> 0 then
             let start = pos1; end' = start + nat l
             in if end' > length buf then []
                else Some (start, end') # offsets_loop n end' buf
           else None # offsets_loop n pos1 buf)"

definition compute_all_offsets :: "DataRowBody \<Rightarrow> (nat \<times> nat) option list" where
  "compute_all_offsets d = offsets_loop (unat (row_len d)) 0 (row_storage d)"

text \<open>The loop that skips to a column, shared by \<open>get_column_bytes\<close> and \<open>is_column_null\<close>;
  \<open>None\<close> is its early return.\<close>

primrec skip_columns :: "nat \<Rightarrow> bytes \<Rightarrow> bytes option" where
  "skip_columns 0 buf = Some buf"
| "skip_columns (Suc n) buf =
     (if length buf < 4 then None
      else
        let l = sint (from_be_bytes (take 4 buf) :: i32); buf1 = drop 4 buf
        in if l \<ge> 0 then
             (if length buf1 < nat l then None else skip_columns n (drop (nat l) buf1))
           else skip_columns n buf1)"

definition get_column_bytes :: "DataRowBody \<Rightarrow> nat \<Rightarrow> bytes option" where
  "get_column_bytes d idx =
     (if idx \<ge> unat (row_len d) then None
      else
        (case skip_columns idx (row_storage d) of
           None \<Rightarrow> None
         | Some buf \<Rightarrow>
             if length buf < 4 then None
             else
               let l = sint (from_be_bytes (take 4 buf) :: i32)
               in if l < 0 then None
                  else if length buf < 4 + nat l then None
                  else Some (take (nat l) (drop 4 buf))))"

definition is_column_null :: "DataRowBody \<Rightarrow> nat \<Rightarrow> bool" where
  "is_column_null d idx =
     (if idx \<ge> unat (row_len d) then True
      else
        (case skip_columns idx (row_storage d) of
           None \<Rightarrow> True
         | Some buf \<Rightarrow>
             if length buf < 4 then True else sint (from_be_bytes (take 4 buf) :: i32) < 0))"

section \<open>Every iteration ends\<close>

lemma unat_minus_one_less: "(w :: 'a::len word) \<noteq> 0 \<Longrightarrow> unat (w - 1) < unat w"
  by (simp add: unat_minus_one unat_gt_0)

interpretation error_fields: finite_iterator ErrorFields_next length
  by unfold_locales
    (auto simp: ErrorFields_next_def Let_def split: if_splits option.splits)

interpretation parameters: finite_iterator Parameters_next "\<lambda>s. unat (param_remaining s)"
  by unfold_locales
    (auto simp: Parameters_next_def Let_def unat_minus_one_less split: if_splits)

interpretation fields: finite_iterator Fields_next "\<lambda>s. unat (fields_remaining s)"
  by unfold_locales
    (auto simp: Fields_next_def Let_def unat_minus_one_less split: if_splits option.splits)

text \<open>\<open>DataRowRanges\<close> repeats its error for ever when the row has extra bytes, so only its
  \<open>Ok\<close> items are bounded; collecting into a \<open>Result\<close> stops at that error.\<close>

interpretation row_ranges: result_iterator DataRowRanges_next "\<lambda>s. unat (rr_remaining s)"
  by unfold_locales
    (auto simp: DataRowRanges_next_def Let_def unat_minus_one_less split: if_splits)

text \<open>The collected forms the client uses, with a bound that is always enough.\<close>

definition error_fields_ok :: "bytes \<Rightarrow> ErrorField list" where
  "error_fields_ok buf = the (collect_ok (length buf + 1) ErrorFields_next buf)"

definition fields_all :: "bytes \<Rightarrow> u16 \<Rightarrow> io_error + Field list" where
  "fields_all buf n =
     the (collect_results (unat n + 1) Fields_next \<lparr>fields_buf = buf, fields_remaining = n\<rparr>)"

definition ranges_all :: "DataRowBody \<Rightarrow> io_error + (nat \<times> nat) option list" where
  "ranges_all d = the (collect_results (unat (row_len d) + 1) DataRowRanges_next (ranges d))"

section \<open>Rows: the three ways to reach a column\<close>

text \<open>The first column of the bytes ahead, and the bytes after it: \<open>None\<close> when they are cut
  short. Every traversal above is a fold of this step.\<close>

definition split_column :: "bytes \<Rightarrow> (bytes option \<times> bytes) option" where
  "split_column buf =
     (if length buf < 4 then None
      else
        let l = sint (from_be_bytes (take 4 buf) :: i32); r = drop 4 buf
        in if l < 0 then Some (None, r)
           else if length r < nat l then None
           else Some (Some (take (nat l) r), drop (nat l) r))"

fun nth_column :: "nat \<Rightarrow> bytes \<Rightarrow> bytes option" where
  "nth_column n buf =
     (case split_column buf of
        None \<Rightarrow> None
      | Some (c, r) \<Rightarrow> (case n of 0 \<Rightarrow> c | Suc k \<Rightarrow> nth_column k r))"

declare nth_column.simps [simp del]

lemma nth_column_simps:
  "nth_column 0 buf = (case split_column buf of None \<Rightarrow> None | Some (c, r) \<Rightarrow> c)"
  "nth_column (Suc k) buf =
     (case split_column buf of None \<Rightarrow> None | Some (c, r) \<Rightarrow> nth_column k r)"
  by (simp_all add: nth_column.simps split: option.split)

lemma skip_columns_split:
  "skip_columns (Suc n) buf =
     (case split_column buf of None \<Rightarrow> None | Some (c, r) \<Rightarrow> skip_columns n r)"
  by (auto simp: split_column_def Let_def)

lemma get_column_bytes_nth:
  assumes "idx < unat (row_len d)"
  shows "get_column_bytes d idx = nth_column idx (row_storage d)"
proof -
  have "(case skip_columns idx buf of None \<Rightarrow> None
          | Some b \<Rightarrow> (case split_column b of None \<Rightarrow> None | Some (c, _) \<Rightarrow> c))
      = nth_column idx buf" for buf
  proof (induction idx arbitrary: buf)
    case 0
    then show ?case
      by (subst nth_column.simps) (simp split: option.split prod.split)
  next
    case (Suc n)
    then show ?case
      by (subst nth_column.simps, subst skip_columns_split) (simp split: option.split prod.split)
  qed
  moreover have "get_column_bytes d idx =
      (case skip_columns idx (row_storage d) of None \<Rightarrow> None
       | Some b \<Rightarrow> (case split_column b of None \<Rightarrow> None | Some (c, _) \<Rightarrow> c))"
    using assms by (auto simp: get_column_bytes_def split_column_def Let_def split: option.split)
  ultimately show ?thesis
    by simp
qed

definition sub_slice :: "bytes \<Rightarrow> nat \<times> nat \<Rightarrow> bytes" where
  "sub_slice buf r = take (snd r - fst r) (drop (fst r) buf)"

lemma offsets_loop_Suc:
  assumes "pos \<le> length buf"
  shows "offsets_loop (Suc n) pos buf =
     (case split_column (drop pos buf) of
        None \<Rightarrow> []
      | Some (c, r) \<Rightarrow>
          (case c of None \<Rightarrow> None | Some v \<Rightarrow> Some (pos + 4, pos + 4 + length v))
            # offsets_loop n (length buf - length r) buf)"
    and "split_column (drop pos buf) = Some (c, r) \<Longrightarrow>
      drop (length buf - length r) buf = r \<and> length r \<le> length buf
      \<and> (\<forall>v. c = Some v \<longrightarrow> sub_slice buf (pos + 4, pos + 4 + length v) = v)"
  using assms by (auto simp: split_column_def Let_def sub_slice_def min_def add.commute split: if_splits)

lemma offsets_loop_nth:
  assumes "pos \<le> length buf"
  shows "(if i < length (offsets_loop n pos buf)
          then map_option (sub_slice buf) (offsets_loop n pos buf ! i) else None)
       = (if i < n then nth_column i (drop pos buf) else None)"
  using assms
proof (induction n arbitrary: pos i)
  case (Suc n)
  show ?case
  proof (cases "split_column (drop pos buf)")
    case None
    with Suc.prems show ?thesis
      by (simp add: offsets_loop_Suc nth_column.simps del: offsets_loop.simps)
  next
    case (Some cr)
    obtain c r where cr: "cr = (c, r)"
      by (cases cr)
    note step = offsets_loop_Suc(2) [OF Suc.prems Some [unfolded cr]]
    have IH: "(if i < length (offsets_loop n (length buf - length r) buf)
          then map_option (sub_slice buf) (offsets_loop n (length buf - length r) buf ! i) else None)
       = (if i < n then nth_column i r else None)" for i
      using Suc.IH [of "length buf - length r" i] step by simp
    show ?thesis
    proof (cases i)
      case 0
      then show ?thesis
        using Suc.prems Some cr step
        by (simp add: offsets_loop_Suc nth_column_simps del: offsets_loop.simps split: option.split)
    next
      case (Suc k)
      then show ?thesis
        using Suc.prems Some cr IH [of k] \<open>pos \<le> length buf\<close>
        by (auto simp add: offsets_loop_Suc nth_column_simps simp del: offsets_loop.simps
            split: if_splits)
    qed
  qed
qed simp

lemma compute_all_offsets_nth:
  "(if i < length (compute_all_offsets d)
    then map_option (sub_slice (row_storage d)) (compute_all_offsets d ! i) else None)
   = get_column_bytes d i"
proof -
  have "get_column_bytes d i = (if i < unat (row_len d) then nth_column i (row_storage d) else None)"
    using get_column_bytes_nth [of i d] by (simp add: get_column_bytes_def)
  then show ?thesis
    using offsets_loop_nth [of 0 "row_storage d" i "unat (row_len d)"]
    by (simp only: compute_all_offsets_def drop0 le0 simp_thms)
qed

text \<open>One \<open>next\<close> of \<open>DataRowRanges\<close>, as a step of \<open>split_column\<close>.\<close>

lemma DataRowRanges_next_step:
  assumes "rr_remaining s \<noteq> 0" "rr_len s = length buf" "rr_buf s = drop pos buf" "pos \<le> length buf"
  shows "case split_column (drop pos buf) of
      None \<Rightarrow> \<exists>e s'. DataRowRanges_next s = (Some (Inl e), s')
    | Some (c, r) \<Rightarrow> DataRowRanges_next s =
        (Some (Inr (map_option (\<lambda>v. (pos + 4, pos + 4 + length v)) c)),
         s\<lparr>rr_remaining := rr_remaining s - 1, rr_buf := r\<rparr>)"
  using assms by (auto simp: DataRowRanges_next_def split_column_def Let_def)

lemma collect_ranges:
  assumes "rr_len s = length buf" "rr_buf s = drop pos buf" "pos \<le> length buf"
    and "collect_results n DataRowRanges_next s = Some (Inr rs)"
  shows "rs = offsets_loop (unat (rr_remaining s)) pos buf \<and> length rs = unat (rr_remaining s)"
  using assms
proof (induction n arbitrary: s pos rs)
  case (Suc n)
  show ?case
  proof (cases "rr_remaining s = 0")
    case True
    with Suc.prems show ?thesis
      by (auto simp: DataRowRanges_next_def split: if_splits)
  next
    case False
    then obtain k where k: "unat (rr_remaining s) = Suc k" "unat (rr_remaining s - 1) = k"
      using unat_minus_one [of "rr_remaining s"] unat_eq_0 [of "rr_remaining s"]
      by (cases "unat (rr_remaining s)") auto
    note step = DataRowRanges_next_step [OF False Suc.prems(1-3)]
    show ?thesis
    proof (cases "split_column (drop pos buf)")
      case None
      with step Suc.prems(4) show ?thesis
        by auto
    next
      case (Some cr)
      obtain c r where cr: "cr = (c, r)"
        by (cases cr)
      note facts = offsets_loop_Suc(2) [OF Suc.prems(3) Some [unfolded cr]]
      let ?s = "s\<lparr>rr_remaining := rr_remaining s - 1, rr_buf := r\<rparr>"
      obtain rs' where rs': "collect_results n DataRowRanges_next ?s = Some (Inr rs')"
          "rs = map_option (\<lambda>v. (pos + 4, pos + 4 + length v)) c # rs'"
        using step Some cr Suc.prems(4) by (auto split: option.splits sum.splits)
      have "rs' = offsets_loop k (length buf - length r) buf \<and> length rs' = k"
        using Suc.IH [of ?s "length buf - length r" rs'] Suc.prems(1) facts rs' k by auto
      with rs' k Some cr Suc.prems(3) show ?thesis
        by (auto simp add: offsets_loop_Suc map_option_case simp del: offsets_loop.simps)
    qed
  qed
qed simp

lemma ranges_all_offsets:
  assumes "ranges_all d = Inr rs"
  shows "rs = compute_all_offsets d \<and> length rs = unat (row_len d)"
proof -
  obtain r where r: "collect_results (unat (row_len d) + 1) DataRowRanges_next (ranges d) = Some r"
    using row_ranges.collect_results_returns [of "ranges d" "unat (row_len d) + 1"]
    by (auto simp only: ranges_def DataRowRanges.simps less_add_one)
  with assms have "r = Inr rs"
    by (simp add: ranges_all_def)
  with r show ?thesis
    using collect_ranges [of "ranges d" "row_storage d" 0 "unat (row_len d) + 1" rs]
    by (auto simp add: ranges_def compute_all_offsets_def simp del: collect_results.simps)
qed

subsection \<open>Well-formed rows\<close>

definition put_column :: "bytes option \<Rightarrow> bytes" where
  "put_column c =
     (case c of None \<Rightarrow> to_be_bytes (- 1 :: i32)
      | Some v \<Rightarrow> to_be_bytes (word_of_nat (length v) :: i32) @ v)"

definition put_row :: "bytes option list \<Rightarrow> DataRowBody" where
  "put_row cols =
     \<lparr>row_storage = concat (map put_column cols), row_len = word_of_nat (length cols)\<rparr>"

definition row_fits :: "bytes option list \<Rightarrow> bool" where
  "row_fits cols \<longleftrightarrow>
     length cols < 2 ^ 16 \<and> list_all (\<lambda>c. case c of None \<Rightarrow> True | Some v \<Rightarrow> length v < 2 ^ 31) cols"

lemma sint_of_small_nat: "n < 2 ^ 31 \<Longrightarrow> sint (word_of_nat n :: i32) = int n"
  using sint_word_of_int_i32 [of "int n"] by (simp add: in_i32_def)

lemma split_column_put:
  assumes "\<And>v. c = Some v \<Longrightarrow> length v < 2 ^ 31"
  shows "split_column (put_column c @ r) = Some (c, r)"
  using assms by (cases c) (simp_all add: split_column_def put_column_def Let_def sint_of_small_nat)

lemma nth_column_put:
  "list_all (\<lambda>c. case c of None \<Rightarrow> True | Some v \<Rightarrow> length v < 2 ^ 31) cols \<Longrightarrow> i < length cols \<Longrightarrow>
   nth_column i (concat (map put_column cols) @ rest) = cols ! i"
proof (induction cols arbitrary: i)
  case (Cons c cols)
  then have "split_column (put_column c @ concat (map put_column cols) @ rest)
      = Some (c, concat (map put_column cols) @ rest)"
    by (intro split_column_put) auto
  with Cons show ?case
    by (cases i) (simp_all add: nth_column_simps)
qed simp

lemma collect_ranges_put:
  "list_all (\<lambda>c. case c of None \<Rightarrow> True | Some v \<Rightarrow> length v < 2 ^ 31) cols \<Longrightarrow>
   unat (rr_remaining s) = length cols \<Longrightarrow> rr_buf s = concat (map put_column cols) \<Longrightarrow>
   length (rr_buf s) \<le> rr_len s \<Longrightarrow>
   \<exists>rs. collect_results (length cols + 1) DataRowRanges_next s = Some (Inr rs)"
proof (induction cols arbitrary: s)
  case Nil
  then show ?case
    by (simp add: DataRowRanges_next_def unat_eq_0)
next
  case (Cons c cols)
  let ?r = "concat (map put_column cols)"
  have sp: "split_column (rr_buf s) = Some (c, ?r)"
    using Cons.prems(1,3) split_column_put [of c ?r] by (cases c) auto
  have nz: "rr_remaining s \<noteq> 0"
    using Cons.prems(2) by auto
  let ?pad = "replicate (rr_len s - length (rr_buf s)) 0 @ rr_buf s"
  have "\<exists>y. DataRowRanges_next s = (Some (Inr y), s\<lparr>rr_remaining := rr_remaining s - 1, rr_buf := ?r\<rparr>)"
    using DataRowRanges_next_step [OF nz, of ?pad "rr_len s - length (rr_buf s)"] Cons.prems(4) sp
    by auto
  moreover have "length ?r \<le> rr_len s"
    using Cons.prems(3,4) by simp
  ultimately show ?case
    using Cons.IH [of "s\<lparr>rr_remaining := rr_remaining s - 1, rr_buf := ?r\<rparr>"] Cons.prems nz
    by (auto simp: unat_minus_one)
qed

lemma ranges_all_put:
  assumes "row_fits cols"
  shows "\<exists>rs. ranges_all (put_row cols) = Inr rs"
proof -
  have n: "unat (row_len (put_row cols)) = length cols"
    using assms by (simp add: put_row_def row_fits_def unat_of_nat)
  have "\<exists>rs. collect_results (length cols + 1) DataRowRanges_next (ranges (put_row cols)) = Some (Inr rs)"
    using assms n by (intro collect_ranges_put) (auto simp: ranges_def row_fits_def put_row_def)
  with n show ?thesis
    by (auto simp: ranges_all_def)
qed

lemma get_column_bytes_put:
  assumes "row_fits cols" "i < length cols"
  shows "get_column_bytes (put_row cols) i = cols ! i"
proof -
  have "unat (row_len (put_row cols)) = length cols"
    using assms by (simp add: put_row_def row_fits_def unat_of_nat)
  then show ?thesis
    using get_column_bytes_nth [of i "put_row cols"] nth_column_put [of cols i "[]"] assms
    by (simp add: put_row_def row_fits_def)
qed

section \<open>What a server writes, the iterators read back\<close>

definition put_error_fields :: "ErrorField list \<Rightarrow> bytes" where
  "put_error_fields fs = concat (map (\<lambda>f. err_type f # field_value f @ [0]) fs) @ [0]"

definition error_field_wf :: "ErrorField \<Rightarrow> bool" where
  "error_field_wf f \<longleftrightarrow> err_type f \<noteq> 0 \<and> nul_free_bytes (field_value f)"

lemma collect_error_fields:
  "list_all error_field_wf fs \<Longrightarrow> length fs < n \<Longrightarrow>
   collect_ok n ErrorFields_next (put_error_fields fs) = Some fs"
proof (induction fs arbitrary: n)
  case Nil
  then obtain k where "n = Suc k"
    by (cases n) auto
  then show ?case
    by (simp add: put_error_fields_def ErrorFields_next_def)
next
  case (Cons f fs)
  then obtain k where "n = Suc k" "length fs < k"
    by (cases n) auto
  moreover have "put_error_fields (f # fs) = err_type f # field_value f @ 0 # put_error_fields fs"
    by (simp add: put_error_fields_def)
  moreover have "ErrorFields_next (err_type f # field_value f @ 0 # put_error_fields fs)
      = (Some (Inr f), put_error_fields fs)"
    using Cons.prems by (simp add: ErrorFields_next_def error_field_wf_def nul_free_bytes_def)
  ultimately show ?case
    using Cons by simp
qed

lemma error_fields_ok_put:
  assumes "list_all error_field_wf fs"
  shows "error_fields_ok (put_error_fields fs) = fs"
proof -
  have "length fs \<le> length (put_error_fields fs)"
    by (induction fs) (simp_all add: put_error_fields_def)
  with collect_error_fields [OF assms] show ?thesis
    by (simp add: error_fields_ok_def del: collect_ok.simps)
qed

definition put_field :: "Field \<Rightarrow> bytes" where
  "put_field f =
     as_bytes (field_name f) @ [0] @ to_be_bytes (table_oid f) @ to_be_bytes (column_id f)
       @ to_be_bytes (field_type_oid f) @ to_be_bytes (type_size f)
       @ to_be_bytes (field_type_modifier f) @ to_be_bytes (field_format f)"

definition field_wf :: "Field \<Rightarrow> bool" where
  "field_wf f \<longleftrightarrow> utf8_valid (as_bytes (field_name f)) \<and> nul_free_bytes (as_bytes (field_name f))"

lemma Fields_next_put:
  assumes "field_wf f" "n \<noteq> 0"
  shows "Fields_next \<lparr>fields_buf = put_field f @ rest, fields_remaining = n\<rparr>
       = (Some (Inr f), \<lparr>fields_buf = rest, fields_remaining = n - 1\<rparr>)"
  using assms
  by (simp add: Fields_next_def put_field_def field_wf_def nul_free_bytes_def from_utf8_as_bytes Let_def)

lemma collect_fields:
  "list_all field_wf fs \<Longrightarrow> length fs < 2 ^ 16 \<Longrightarrow> length fs < n \<Longrightarrow>
   collect_results n Fields_next
     \<lparr>fields_buf = concat (map put_field fs) @ rest, fields_remaining = word_of_nat (length fs)\<rparr>
   = Some (Inr fs)"
proof (induction fs arbitrary: n)
  case Nil
  then obtain k where "n = Suc k"
    by (cases n) auto
  then show ?case
    by (simp add: Fields_next_def)
next
  case (Cons f fs)
  then obtain k where "n = Suc k" "length fs < k"
    by (cases n) auto
  moreover have "(word_of_nat (length (f # fs)) :: u16) \<noteq> 0"
  proof -
    have "unat (word_of_nat (length (f # fs)) :: u16) = length (f # fs)"
      using Cons.prems(2) by (simp only: unat_of_nat) simp
    then show ?thesis
      by (metis length_0_conv list.distinct(1) unsigned_0)
  qed
  ultimately show ?case
    using Cons Fields_next_put [of f "word_of_nat (length (f # fs))" "concat (map put_field fs) @ rest"]
    by simp
qed

lemma fields_all_put:
  assumes "list_all field_wf fs" "length fs < 2 ^ 16"
  shows "fields_all (concat (map put_field fs)) (word_of_nat (length fs)) = Inr fs"
proof -
  have "unat (word_of_nat (length fs) :: u16) = length fs"
    using assms(2) by (simp add: unat_of_nat)
  with collect_fields [OF assms, of "length fs + 1" "[]"] show ?thesis
    by (simp add: fields_all_def del: collect_results.simps)
qed

end
