(* ===== verification/Client_Error.thy ===== *)
theory Client_Error
  imports Message_Bodies
begin

text \<open>
  Client errors and notices: \<open>hyperdb-api-core/src/client/error.rs\<close> (\<open>Error\<close>, its constructors and
  accessors, \<open>extract_sqlstate\<close>), \<open>parse_error_response\<close> of \<open>client/connection.rs\<close> and
  \<open>Notice\<close> of \<open>client/notice.rs\<close>. The variants of \<open>Error\<close> carry the suffix \<open>Error\<close>.
\<close>

section \<open>The code\<close>

subsection \<open>\<open>error.rs\<close>\<close>

datatype Error =
    ConnectionError string "string option" \<comment> \<open>\<open>message\<close>, \<open>sqlstate\<close>\<close>
  | AuthenticationError string
  | QueryError string "string option" "string option" "string option"
      \<comment> \<open>\<open>message\<close>, \<open>sqlstate\<close>, \<open>detail\<close>, \<open>hint\<close>\<close>
  | ProtocolError string
  | IoError string
  | ConfigError string
  | TlsError string
  | TimeoutError string
  | CancelledError string "string option"
  | ClosedError string "string option"
  | ConversionError string
  | FeatureNotSupportedError string
  | OtherError string

definition connection_error :: "string \<Rightarrow> Error" where
  "connection_error m = ConnectionError m None"

definition query_error :: "string \<Rightarrow> Error" where
  "query_error m = QueryError m None None None"

definition cancelled_error :: "string \<Rightarrow> Error" where
  "cancelled_error m = CancelledError m None"

definition closed_error :: "string \<Rightarrow> Error" where
  "closed_error m = ClosedError m None"

text \<open>\<open>from_io\<close> on the errors of the message parser, none of which wraps a TLS error.\<close>

fun from_io :: "io_error \<Rightarrow> Error" where
  "from_io (InvalidData m) = IoError m"
| "from_io (InvalidInput m) = IoError m"
| "from_io (UnexpectedEof m) = IoError m"

definition db :: "string \<Rightarrow> string \<Rightarrow> string \<Rightarrow> Error" where
  "db severity code message =
     QueryError (severity @ '': '' @ message @ '' ('' @ code @ '')'') (Some code) None None"

fun Error_message :: "Error \<Rightarrow> string" where
  "Error_message (ConnectionError m _) = m"
| "Error_message (QueryError m _ _ _) = m"
| "Error_message (CancelledError m _) = m"
| "Error_message (ClosedError m _) = m"
| "Error_message (AuthenticationError m) = m"
| "Error_message (ProtocolError m) = m"
| "Error_message (IoError m) = m"
| "Error_message (ConfigError m) = m"
| "Error_message (TlsError m) = m"
| "Error_message (TimeoutError m) = m"
| "Error_message (ConversionError m) = m"
| "Error_message (FeatureNotSupportedError m) = m"
| "Error_message (OtherError m) = m"

fun Error_detail :: "Error \<Rightarrow> string option" where
  "Error_detail (QueryError _ _ d _) = d"
| "Error_detail _ = None"

fun Error_hint :: "Error \<Rightarrow> string option" where
  "Error_hint (QueryError _ _ _ h) = h"
| "Error_hint _ = None"

text \<open>\<open>str::find\<close> and \<open>str::rfind\<close> for a character.\<close>

fun str_find :: "char \<Rightarrow> string \<Rightarrow> nat option" where
  "str_find c [] = None"
| "str_find c (d # s) = (if d = c then Some 0 else map_option Suc (str_find c s))"

definition str_rfind :: "char \<Rightarrow> string \<Rightarrow> nat option" where
  "str_rfind c s = map_option (\<lambda>i. length s - 1 - i) (str_find c (rev s))"

definition is_ascii_alphanumeric :: "char \<Rightarrow> bool" where
  "is_ascii_alphanumeric c \<longleftrightarrow>
     (let n = of_char c :: nat in (48 \<le> n \<and> n \<le> 57) \<or> (65 \<le> n \<and> n \<le> 90) \<or> (97 \<le> n \<and> n \<le> 122))"

definition extract_sqlstate :: "string \<Rightarrow> string option" where
  "extract_sqlstate message =
     do { start \<leftarrow> str_rfind CHR ''('' message;
          e \<leftarrow> str_find CHR '')'' (drop start message);
          let code = trim (take (e - 1) (drop (start + 1) message));
          if length code = 5 \<and> list_all is_ascii_alphanumeric code then Some code else None }"

fun sqlstate :: "Error \<Rightarrow> string option" where
  "sqlstate (ConnectionError _ s) = s"
| "sqlstate (CancelledError _ s) = s"
| "sqlstate (ClosedError _ s) = s"
| "sqlstate (QueryError m s _ _) = (case s of Some code \<Rightarrow> Some code | None \<Rightarrow> extract_sqlstate m)"
| "sqlstate _ = None"

subsection \<open>\<open>parse_error_response\<close> (\<open>connection.rs\<close>)\<close>

record error_acc =
  acc_severity :: string
  acc_code :: string
  acc_message :: string

definition error_step :: "error_acc \<Rightarrow> ErrorField \<Rightarrow> error_acc" where
  "error_step a f =
     (if err_type f = byte_of CHR ''S'' \<or> err_type f = byte_of CHR ''V'' then
        (case ErrorField_value f of Inr s \<Rightarrow> a\<lparr>acc_severity := s\<rparr> | Inl _ \<Rightarrow> a)
      else if err_type f = byte_of CHR ''C'' then
        (case ErrorField_value f of Inr s \<Rightarrow> a\<lparr>acc_code := s\<rparr> | Inl _ \<Rightarrow> a)
      else if err_type f = byte_of CHR ''M'' then
        (case ErrorField_value f of Inr s \<Rightarrow> a\<lparr>acc_message := s\<rparr> | Inl _ \<Rightarrow> a)
      else a)"

definition parse_error_response :: "bytes \<Rightarrow> Error" where
  "parse_error_response body =
     (let a = foldl error_step
        \<lparr>acc_severity = ''ERROR'', acc_code = ''00000'', acc_message = ''unknown error''\<rparr>
        (error_fields_ok body)
      in db (acc_severity a) (acc_code a) (acc_message a))"

subsection \<open>\<open>notice.rs\<close>\<close>

record Notice =
  notice_severity :: "string option"
  notice_code :: "string option"
  notice_message :: string
  notice_detail :: "string option"
  notice_hint :: "string option"
  notice_position :: "i32 option"

definition notice_step :: "Notice \<Rightarrow> ErrorField \<Rightarrow> Notice" where
  "notice_step n f =
     (case ErrorField_value f of
        Inl _ \<Rightarrow> n
      | Inr v \<Rightarrow>
          if err_type f = byte_of CHR ''S'' then n\<lparr>notice_severity := Some v\<rparr>
          else if err_type f = byte_of CHR ''V'' \<and> notice_severity n = None then n\<lparr>notice_severity := Some v\<rparr>
          else if err_type f = byte_of CHR ''C'' then n\<lparr>notice_code := Some v\<rparr>
          else if err_type f = byte_of CHR ''M'' then n\<lparr>notice_message := v\<rparr>
          else if err_type f = byte_of CHR ''D'' then n\<lparr>notice_detail := Some v\<rparr>
          else if err_type f = byte_of CHR ''H'' then n\<lparr>notice_hint := Some v\<rparr>
          else if err_type f = byte_of CHR ''P'' then
            n\<lparr>notice_position := map_option word_of_int (parse_signed (- (2 ^ 31)) (2 ^ 31 - 1) v)\<rparr>
          else n)"

definition from_response_body :: "bytes \<Rightarrow> Notice" where
  "from_response_body body =
     foldl notice_step
       \<lparr>notice_severity = None, notice_code = None, notice_message = '''', notice_detail = None, notice_hint = None, notice_position = None\<rparr>
       (error_fields_ok body)"

definition is_warning :: "Notice \<Rightarrow> bool" where
  "is_warning n \<longleftrightarrow> notice_severity n \<in> {Some ''WARNING'', Some ''WARN''}"

definition is_info :: "Notice \<Rightarrow> bool" where
  "is_info n \<longleftrightarrow> notice_severity n \<in> {Some ''NOTICE'', Some ''INFO'', Some ''LOG'', Some ''DEBUG''}"

definition Notice_fmt :: "Notice \<Rightarrow> string" where
  "Notice_fmt n =
     (case notice_severity n of Some sev \<Rightarrow> sev @ '': '' | None \<Rightarrow> '''') @ notice_message n
       @ (case notice_code n of Some c \<Rightarrow> '' ('' @ c @ '')'' | None \<Rightarrow> '''')"

section \<open>Fields and their readers\<close>

text \<open>The text of the last readable field with one of the given types.\<close>

definition last_text :: "char list \<Rightarrow> string \<Rightarrow> ErrorField list \<Rightarrow> string" where
  "last_text keys dflt fs =
     foldl (\<lambda>a f. if err_type f \<in> byte_of ` set keys then
        (case ErrorField_value f of Inr s \<Rightarrow> s | Inl _ \<Rightarrow> a) else a) dflt fs"

lemma byte_of_ascii_inj: "byte_of c = byte_of d \<longleftrightarrow> c = d"
  by simp

lemma error_steps:
  "foldl error_step a fs =
     \<lparr>acc_severity = last_text ''SV'' (acc_severity a) fs, acc_code = last_text ''C'' (acc_code a) fs,
      acc_message = last_text ''M'' (acc_message a) fs\<rparr>"
proof (induction fs arbitrary: a)
  case Nil
  then show ?case
    by (simp add: last_text_def)
next
  case (Cons f fs)
  have "foldl error_step a (f # fs) = foldl error_step (error_step a f) fs"
    by simp
  also have "\<dots> =
     \<lparr>acc_severity = last_text ''SV'' (acc_severity a) (f # fs), acc_code = last_text ''C'' (acc_code a) (f # fs),
      acc_message = last_text ''M'' (acc_message a) (f # fs)\<rparr>"
    unfolding Cons.IH by (auto simp: last_text_def error_step_def split: sum.split)
  finally show ?case .
qed

lemma str_find_append: "c \<notin> set s \<Longrightarrow> str_find c (s @ c # t) = Some (length s)"
  by (induction s) auto

lemma str_rfind_append: "c \<notin> set t \<Longrightarrow> str_rfind c (s @ c # t) = Some (length s)"
  by (simp add: str_rfind_def str_find_append)

lemma alphanumeric_plain:
  "list_all is_ascii_alphanumeric s \<Longrightarrow> CHR ''('' \<notin> set s \<and> CHR '')'' \<notin> set s"
  by (auto simp: list_all_iff is_ascii_alphanumeric_def)

lemma trim_alphanumeric:
  assumes "list_all is_ascii_alphanumeric s"
  shows "trim s = s"
proof -
  have no_ws: "ws_prefix xs = 0" if "\<forall>n \<in> set xs. 48 \<le> n \<and> n < 128" for xs
    using that by (cases xs rule: ws_prefix.cases) (auto split: list.split)
  have "\<forall>n \<in> set (codes s). 48 \<le> n \<and> n < 128"
    using assms by (auto simp: codes_def list_all_iff is_ascii_alphanumeric_def Let_def)
  then have "ws_prefix (drop k (codes s)) = 0" for k
    by (intro no_ws) (auto dest: in_set_dropD)
  from this this [of 0] show ?thesis
    by (simp add: trim_def trim_start.simps trim_end.simps ws_suffix_def)
qed

lemma extract_sqlstate_at:
  assumes "length code = 5" "list_all is_ascii_alphanumeric code"
  shows "extract_sqlstate (p @ CHR ''('' # code @ '')'') = Some code"
proof -
  note plain = alphanumeric_plain [OF assms(2)]
  have "str_rfind CHR ''('' (p @ CHR ''('' # code @ '')'') = Some (length p)"
    using plain by (intro str_rfind_append) simp
  moreover have "str_find CHR '')'' (CHR ''('' # code @ '')'') = Some (Suc (length code))"
    using plain str_find_append [of "CHR '')''" code "[]"] by simp
  ultimately show ?thesis
    using assms trim_alphanumeric [OF assms(2)] by (simp add: extract_sqlstate_def)
qed

section \<open>Properties\<close>

text \<open>The SQLSTATE of a server error is found both ways: \<open>sqlstate\<close> returns the stored code,
  and the fallback that scrapes the message text of the same error finds the same code when it
  has the form of a SQLSTATE.\<close>

theorem sqlstate_of_db:
  assumes "length code = 5" "list_all is_ascii_alphanumeric code"
  shows "sqlstate (db severity code message) = Some code \<and>
    extract_sqlstate (Error_message (db severity code message)) = Some code"
  using extract_sqlstate_at [OF assms, of "severity @ '': '' @ message @ '' ''"] by (simp add: db_def)

theorem sqlstate_of_db_witness:
  "sqlstate (db ''ERROR'' ''42P04'' ''database (x) exists'') = Some ''42P04'' \<and>
   extract_sqlstate (Error_message (db ''ERROR'' ''42P04'' ''database (x) exists'')) = Some ''42P04''"
  by (rule sqlstate_of_db) (simp_all add: is_ascii_alphanumeric_def)

text \<open>\<open>parse_error_response\<close> on the error fields a server writes: the severity, the code and
  the message are the last fields of their types, each with its default when there is none, and
  no other field reaches the error.\<close>

theorem parse_error_response_fields:
  assumes "list_all error_field_wf fs"
  shows "parse_error_response (put_error_fields fs) =
    db (last_text ''SV'' ''ERROR'' fs) (last_text ''C'' ''00000'' fs) (last_text ''M'' ''unknown error'' fs)"
  using error_fields_ok_put [OF assms] by (simp add: parse_error_response_def error_steps)

theorem parse_error_response_fields_witness:
  "parse_error_response (put_error_fields
     [\<lparr>err_type = 0x43, field_value = [0x34, 0x32]\<rparr>, \<lparr>err_type = 0x4D, field_value = [0x6E, 0x6F]\<rparr>])
   = db ''ERROR'' ''42'' ''no''"
proof -
  let ?fs = "[\<lparr>err_type = 0x43, field_value = [0x34, 0x32]\<rparr>, \<lparr>err_type = 0x4D, field_value = [0x6E, 0x6F]\<rparr>]"
  have "list_all error_field_wf ?fs"
    by (simp add: error_field_wf_def nul_free_bytes_def)
  moreover have "from_utf8 [0x34, 0x32] = Some ''42''" "from_utf8 [0x6E, 0x6F] = Some ''no''"
    by (simp_all add: from_utf8_Some_iff as_bytes_def byte_of_def)
  ultimately show ?thesis
    using parse_error_response_fields [of ?fs]
    by (simp add: last_text_def byte_of_def ErrorField_value_def utf8_or_invalid_def)
qed

end
