(* ===== verification/Api_Error.thy ===== *)
theory Api_Error
  imports Client_Error Rust_Strings
begin

text \<open>
  The public error type, \<open>hyperdb-api/src/error.rs\<close>: the variants, their \<open>Display\<close> and \<open>sqlstate\<close>, and
  the conversion from the client's errors, with the \<open>Display\<close> of \<open>client/error.rs\<close> it renders first.
\<close>

section \<open>The code\<close>

subsection \<open>\<open>Display\<close> of the client's errors\<close>

definition render_detail :: "string \<Rightarrow> string option \<Rightarrow> string" where
  "render_detail message detail =
     (case detail of
        Some d \<Rightarrow> if \<not> str_contains message d then '': '' @ d else ''''
      | None \<Rightarrow> '''')"

fun Error_fmt :: "Error \<Rightarrow> string" where
  "Error_fmt (QueryError message _ detail _) = message @ render_detail message detail"
| "Error_fmt (ConnectionError message _) = message"
| "Error_fmt (CancelledError message _) = message"
| "Error_fmt (ClosedError message _) = message"
| "Error_fmt (AuthenticationError m) = m"
| "Error_fmt (ProtocolError m) = m"
| "Error_fmt (IoError m) = m"
| "Error_fmt (ConfigError m) = m"
| "Error_fmt (TlsError m) = m"
| "Error_fmt (TimeoutError m) = m"
| "Error_fmt (ConversionError m) = m"
| "Error_fmt (FeatureNotSupportedError m) = m"
| "Error_fmt (OtherError m) = m"

subsection \<open>The public error\<close>

datatype ColumnErrorKind =
    Missing
  | Null
  | TypeMismatch string string \<comment> \<open>\<open>expected\<close>, \<open>actual\<close>\<close>

datatype ApiError =
    Api_Connection string "io_error option" "string option" \<comment> \<open>\<open>message\<close>, \<open>source\<close>, \<open>sqlstate\<close>\<close>
  | Api_Authentication string
  | Api_Tls string
  | Api_Server "string option" string "string option" "string option"
      \<comment> \<open>\<open>sqlstate\<close>, \<open>message\<close>, \<open>detail\<close>, \<open>hint\<close>\<close>
  | Api_Protocol string
  | Api_Io io_error
  | Api_Closed string "string option" \<comment> \<open>\<open>message\<close>, \<open>sqlstate\<close>\<close>
  | Api_Timeout string
  | Api_Cancelled string "string option"
  | Api_Conversion string
  | Api_Serialization string
  | Api_Config string
  | Api_FeatureNotSupported string
  | InvalidName string
  | InvalidTableDefinition string
  | NotFound string
  | AlreadyExists string
  | InvalidOperation string
  | Api_Column string ColumnErrorKind
  | ColumnIndexOutOfBounds nat nat \<comment> \<open>\<open>idx\<close>, \<open>column_count\<close>\<close>
  | Api_Internal string

fun io_error_text :: "io_error \<Rightarrow> string" where
  "io_error_text (InvalidData m) = m"
| "io_error_text (InvalidInput m) = m"
| "io_error_text (UnexpectedEof m) = m"

fun ColumnErrorKind_fmt :: "ColumnErrorKind \<Rightarrow> string" where
  "ColumnErrorKind_fmt Missing = ''column not found''"
| "ColumnErrorKind_fmt Null = ''unexpected NULL''"
| "ColumnErrorKind_fmt (TypeMismatch expected actual) =
     ''type mismatch: expected '' @ expected @ '', got '' @ actual"

text \<open>\<open>.as_ref().map(..).unwrap_or_default()\<close> of the format attributes; \<open>CHR 10\<close> is the line feed.\<close>

definition optional_text :: "string \<Rightarrow> string option \<Rightarrow> string \<Rightarrow> string" where
  "optional_text before v after = (case v of None \<Rightarrow> '''' | Some s \<Rightarrow> before @ s @ after)"

abbreviation state_text :: "string option \<Rightarrow> string" where
  "state_text s \<equiv> optional_text '' ('' s '')''"

fun ApiError_fmt :: "ApiError \<Rightarrow> string" where
  "ApiError_fmt (Api_Connection message source state) = ''connection error'' @ state_text state @ '': '' @ message"
| "ApiError_fmt (Api_Authentication m) = ''authentication failed: '' @ m"
| "ApiError_fmt (Api_Tls m) = ''TLS error: '' @ m"
| "ApiError_fmt (Api_Server state message detail hint) =
     ''server error'' @ state_text state @ '': '' @ message
       @ optional_text (CHR 10 # ''DETAIL: '') detail '''' @ optional_text (CHR 10 # ''HINT: '') hint ''''"
| "ApiError_fmt (Api_Protocol m) = ''protocol error: '' @ m"
| "ApiError_fmt (Api_Io e) = ''I/O error: '' @ io_error_text e"
| "ApiError_fmt (Api_Closed message state) = ''connection closed'' @ state_text state @ '': '' @ message"
| "ApiError_fmt (Api_Timeout m) = ''operation timed out: '' @ m"
| "ApiError_fmt (Api_Cancelled message state) = ''operation cancelled'' @ state_text state @ '': '' @ message"
| "ApiError_fmt (Api_Conversion m) = ''conversion error: '' @ m"
| "ApiError_fmt (Api_Serialization m) = ''serialization error: '' @ m"
| "ApiError_fmt (Api_Config m) = ''configuration error: '' @ m"
| "ApiError_fmt (Api_FeatureNotSupported m) = ''feature not supported: '' @ m"
| "ApiError_fmt (InvalidName m) = ''invalid name: '' @ m"
| "ApiError_fmt (InvalidTableDefinition m) = ''invalid table definition: '' @ m"
| "ApiError_fmt (NotFound m) = ''not found: '' @ m"
| "ApiError_fmt (AlreadyExists m) = ''already exists: '' @ m"
| "ApiError_fmt (InvalidOperation m) = ''invalid operation: '' @ m"
| "ApiError_fmt (Api_Column name kind) = ''column '' @ name @ '': '' @ ColumnErrorKind_fmt kind"
| "ApiError_fmt (ColumnIndexOutOfBounds idx column_count) =
     ''column index '' @ show_nat idx @ '' out of bounds (row has '' @ show_nat column_count @ '' columns)''"
| "ApiError_fmt (Api_Internal m) = ''internal error: '' @ m"

fun ApiError_sqlstate :: "ApiError \<Rightarrow> string option" where
  "ApiError_sqlstate (Api_Server state _ _ _) = state"
| "ApiError_sqlstate (Api_Connection _ _ state) = state"
| "ApiError_sqlstate (Api_Closed _ state) = state"
| "ApiError_sqlstate (Api_Cancelled _ state) = state"
| "ApiError_sqlstate _ = None"

text \<open>\<open>impl From<client::Error> for Error\<close>\<close>

fun from_client_error :: "Error \<Rightarrow> ApiError" where
  "from_client_error (ConnectionError m state) = Api_Connection (Error_fmt (ConnectionError m state)) None state"
| "from_client_error (AuthenticationError m) = Api_Authentication (Error_fmt (AuthenticationError m))"
| "from_client_error (QueryError message state detail hint) = Api_Server state message detail hint"
| "from_client_error (ProtocolError m) = Api_Protocol (Error_fmt (ProtocolError m))"
| "from_client_error (IoError m) = Api_Connection (Error_fmt (IoError m)) None None"
| "from_client_error (ConfigError m) = Api_Config (Error_fmt (ConfigError m))"
| "from_client_error (TlsError m) = Api_Tls (Error_fmt (TlsError m))"
| "from_client_error (TimeoutError m) = Api_Timeout (Error_fmt (TimeoutError m))"
| "from_client_error (CancelledError m state) = Api_Cancelled (Error_fmt (CancelledError m state)) state"
| "from_client_error (ClosedError m state) = Api_Closed (Error_fmt (ClosedError m state)) state"
| "from_client_error (ConversionError m) = Api_Conversion (Error_fmt (ConversionError m))"
| "from_client_error (FeatureNotSupportedError m) = Api_FeatureNotSupported (Error_fmt (FeatureNotSupportedError m))"
| "from_client_error (OtherError m) = Api_Internal (Error_fmt (OtherError m))"

section \<open>Properties\<close>

text \<open>What the conversion keeps. The public error reports the SQLSTATE of the client's error, except
  that a code the client would read out of the message text of a query error is lost; the rendered text
  contains the client's message, and for query errors the detail and the hint.\<close>

theorem conversion_keeps_sqlstate:
  "ApiError_sqlstate (from_client_error e) =
     (case e of QueryError _ state _ _ \<Rightarrow> state | _ \<Rightarrow> sqlstate e)"
  by (cases e) simp_all

lemma str_contains_mid: "str_contains (p @ m @ t) m"
  unfolding str_contains_iff by blast

lemma str_contains_end: "str_contains (p @ m) m"
  using str_contains_mid [of p m "[]"] by simp

theorem conversion_keeps_text:
  "str_contains (ApiError_fmt (from_client_error e)) (Error_message e) \<and>
   (\<forall>d. Error_detail e = Some d \<longrightarrow> str_contains (ApiError_fmt (from_client_error e)) d) \<and>
   (\<forall>h. Error_hint e = Some h \<longrightarrow> str_contains (ApiError_fmt (from_client_error e)) h)"
proof (cases e)
  case (QueryError m s d h)
  let ?pre = "''server error'' @ state_text s @ '': ''"
  let ?det = "optional_text (CHR 10 # ''DETAIL: '') d ''''"
  let ?hnt = "optional_text (CHR 10 # ''HINT: '') h ''''"
  have fmt: "ApiError_fmt (from_client_error e) = ?pre @ m @ ?det @ ?hnt"
    using QueryError by simp
  have "str_contains (?pre @ m @ ?det @ ?hnt) m"
    by (rule str_contains_mid)
  moreover have "str_contains (?pre @ m @ ?det @ ?hnt) x" if "d = Some x" for x
    using str_contains_mid [of "?pre @ m @ CHR 10 # ''DETAIL: ''" x ?hnt] that
    by (simp add: optional_text_def [of "CHR 10 # ''DETAIL: ''"])
  moreover have "str_contains (?pre @ m @ ?det @ ?hnt) x" if "h = Some x" for x
    using str_contains_end [of "?pre @ m @ ?det @ CHR 10 # ''HINT: ''" x] that
    by (simp add: optional_text_def [of "CHR 10 # ''HINT: ''"])
  ultimately show ?thesis
    unfolding fmt using QueryError by simp
qed (simp_all only: from_client_error.simps ApiError_fmt.simps Error_fmt.simps Error_message.simps
      Error_detail.simps Error_hint.simps append_assoc [symmetric] str_contains_end, simp_all)

end
