(* ===== verification/Sql_Escape.thy ===== *)
theory Sql_Escape
  imports Rust_Prelude
begin

text \<open>
  SQL escaping, \<open>hyperdb-api-core/src/protocol/escape.rs\<close>: the \<open>Display\<close> implementations of
  \<open>SqlIdentifier\<close>, \<open>QuotedIdentifier\<close> and \<open>SqlLiteral\<close>, the convenience functions around them
  and \<open>format_table_name\<close>.

  The specification is a scanner for quoted SQL tokens (an opening quote, a body in which a
  doubled quote stands for one quote, a closing quote). The locale \<open>quoted_token\<close> states what
  a renderer promises; its lemmas show that the scanner reads back exactly the text that was
  rendered and stops exactly where the token ends, whatever that text contains.
\<close>

section \<open>The code\<close>

text \<open>\<open>impl Display for QuotedIdentifier\<close>: 0x22 is the double quote.\<close>

definition QuotedIdentifier_fmt :: "string \<Rightarrow> string" where
  "QuotedIdentifier_fmt s =
     [CHR 0x22] @
     concat (map (\<lambda>c. if c = CHR 0x22 then [CHR 0x22, CHR 0x22] else [c]) s) @
     [CHR 0x22]"

definition SqlIdentifier_fmt :: "string \<Rightarrow> string" where
  "SqlIdentifier_fmt s = QuotedIdentifier_fmt s"

text \<open>\<open>impl Display for SqlLiteral\<close>: 0x27 is the single quote.\<close>

definition SqlLiteral_fmt :: "string \<Rightarrow> string" where
  "SqlLiteral_fmt s =
     [CHR 0x27] @
     concat (map (\<lambda>c. if c = CHR 0x27 then [CHR 0x27, CHR 0x27] else [c]) s) @
     [CHR 0x27]"

definition escape_identifier :: "string \<Rightarrow> string" where
  "escape_identifier s = SqlIdentifier_fmt s"

definition escape_literal :: "string \<Rightarrow> string" where
  "escape_literal s = SqlLiteral_fmt s"

definition is_ascii_alphabetic :: "char \<Rightarrow> bool" where
  "is_ascii_alphabetic c \<longleftrightarrow>
     (of_char c :: nat) \<in> {65..90} \<or> (of_char c :: nat) \<in> {97..122}"

definition is_ascii_digit :: "char \<Rightarrow> bool" where
  "is_ascii_digit c \<longleftrightarrow> (of_char c :: nat) \<in> {48..57}"

definition is_valid_unquoted_identifier :: "string \<Rightarrow> bool" where
  "is_valid_unquoted_identifier s =
     (case s of
        [] \<Rightarrow> False
      | c # cs \<Rightarrow>
          (is_ascii_alphabetic c \<or> c = CHR ''_'') \<and>
          list_all (\<lambda>d. is_ascii_alphabetic d \<or> is_ascii_digit d \<or> d = CHR ''_'' \<or> d = CHR ''$'') cs)"

definition format_table_name :: "string option \<Rightarrow> string option \<Rightarrow> string \<Rightarrow> string" where
  "format_table_name database schema table =
     (case (database, schema) of
        (Some db, Some s) \<Rightarrow>
          SqlIdentifier_fmt db @ ''.'' @ SqlIdentifier_fmt s @ ''.'' @ SqlIdentifier_fmt table
      | (None, Some s) \<Rightarrow> SqlIdentifier_fmt s @ ''.'' @ SqlIdentifier_fmt table
      | (Some db, None) \<Rightarrow> SqlIdentifier_fmt db @ ''.'' @ SqlIdentifier_fmt table
      | (None, None) \<Rightarrow> SqlIdentifier_fmt table)"

section \<open>The scanner a SQL front end applies to quoted tokens\<close>

fun scan_body :: "char \<Rightarrow> string \<Rightarrow> (string \<times> string) option" where
  "scan_body q [] = None"
| "scan_body q (c # r) =
     (if c = q then
        (case r of
           d # r' \<Rightarrow>
             if d = q then map_option (\<lambda>(t, u). (q # t, u)) (scan_body q r') else Some ([], r)
         | [] \<Rightarrow> Some ([], []))
      else map_option (\<lambda>(t, u). (c # t, u)) (scan_body q r))"

definition scan_quoted :: "char \<Rightarrow> string \<Rightarrow> (string \<times> string) option" where
  "scan_quoted q s = (case s of c # r \<Rightarrow> if c = q then scan_body q r else None | [] \<Rightarrow> None)"

text \<open>A dotted sequence of quoted identifiers; \<open>n\<close> bounds the number of parts.\<close>

fun scan_name :: "nat \<Rightarrow> string \<Rightarrow> string list option" where
  "scan_name 0 s = None"
| "scan_name (Suc n) s =
     (case scan_quoted (CHR 0x22) s of
        None \<Rightarrow> None
      | Some (t, []) \<Rightarrow> Some [t]
      | Some (t, c # r) \<Rightarrow> if c = CHR ''.'' then map_option ((#) t) (scan_name n r) else None)"

section \<open>What a renderer of quoted tokens promises\<close>

locale quoted_token =
  fixes quote :: char
    and render :: "string \<Rightarrow> string"
  assumes render_shape:
    "render s = quote # concat (map (\<lambda>c. if c = quote then [quote, quote] else [c]) s) @ [quote]"
begin

lemma scan_body_rendered:
  assumes "\<not> (\<exists>r'. rest = quote # r')"
  shows "scan_body quote
      (concat (map (\<lambda>c. if c = quote then [quote, quote] else [c]) s) @ quote # rest) = Some (s, rest)"
proof (induction s)
  case Nil
  then show ?case
    using assms by (auto split: list.split)
next
  case (Cons c s)
  then show ?case by simp
qed

lemma scan_render:
  assumes "\<not> (\<exists>r'. rest = quote # r')"
  shows "scan_quoted quote (render s @ rest) = Some (s, rest)"
  using scan_body_rendered [OF assms] by (simp add: scan_quoted_def render_shape)

lemma render_inj: "render s = render t \<Longrightarrow> s = t"
  using scan_render [of "[]" s] scan_render [of "[]" t] by simp

lemma render_starts: "\<exists>r. render s = quote # r"
  by (simp add: render_shape)

end

interpretation ident: quoted_token "CHR 0x22" QuotedIdentifier_fmt
  by unfold_locales (simp add: QuotedIdentifier_fmt_def)

interpretation lit: quoted_token "CHR 0x27" SqlLiteral_fmt
  by unfold_locales (simp add: SqlLiteral_fmt_def)

section \<open>Properties\<close>

lemma scan_name_last: "scan_name (Suc n) (SqlIdentifier_fmt t) = Some [t]"
  using ident.scan_render [of "[]" t] by (simp add: SqlIdentifier_fmt_def)

lemma scan_name_dot:
  "scan_name (Suc n) (SqlIdentifier_fmt t @ CHR ''.'' # r) = map_option ((#) t) (scan_name n r)"
  using ident.scan_render [of "CHR ''.'' # r" t] by (simp add: SqlIdentifier_fmt_def)

text \<open>C32. No SQL injection through a quoted token: whatever the text contains, a SQL scanner that
  reads the rendered identifier or literal gets exactly that text back and stops exactly where
  the rendering ends, for every continuation that does not itself start with the quote.\<close>

theorem escaping_is_injection_free:
  assumes "rest = [] \<or> hd rest \<noteq> CHR 0x22 \<and> hd rest \<noteq> CHR 0x27"
  shows "scan_quoted (CHR 0x22) (escape_identifier s @ rest) = Some (s, rest) \<and>
    scan_quoted (CHR 0x27) (escape_literal s @ rest) = Some (s, rest)"
  using assms ident.scan_render [of rest s] lit.scan_render [of rest s]
  by (cases rest) (simp_all add: escape_identifier_def escape_literal_def SqlIdentifier_fmt_def)

theorem escaping_is_injection_free_witness:
  "scan_quoted (CHR 0x22) (escape_identifier [CHR ''a'', CHR 0x22, CHR '';''] @ '' FROM t'')
     = Some ([CHR ''a'', CHR 0x22, CHR '';''], '' FROM t'') \<and>
   scan_quoted (CHR 0x27) (escape_literal [CHR ''a'', CHR 0x22, CHR '';''] @ '' FROM t'')
     = Some ([CHR ''a'', CHR 0x22, CHR '';''], '' FROM t'')"
  by (rule escaping_is_injection_free) simp

text \<open>A qualified table name reads back as its parts: the scanner of dotted quoted names finds
  exactly the database, schema and table that were given, with dots and quotes inside them kept.
  (A name with a database and no schema has the same shape as one with a schema only.)\<close>

theorem format_table_name_parts:
  "scan_name 3 (format_table_name database schema table) =
     Some ((case database of Some d \<Rightarrow> [d] | None \<Rightarrow> []) @
           (case schema of Some s \<Rightarrow> [s] | None \<Rightarrow> []) @ [table])"
  by (cases database; cases schema)
    (simp_all add: format_table_name_def eval_nat_numeral scan_name_last scan_name_dot del: scan_name.simps)

end
