(* ===== verification/Sql_Names.thy ===== *)
theory Sql_Names
  imports Api_Error Sql_Escape
begin

text \<open>
  Validated SQL names, \<open>hyperdb-api/src/names.rs\<close>: \<open>Name\<close>, \<open>DatabaseName\<close>, \<open>SchemaName\<close> and \<open>TableName\<close>,
  their constructors, \<open>Display\<close> and \<open>FromStr\<close>. The two copies of the identifier parser in the source
  (\<open>parse_qualified_identifier\<close> and the body of \<open>TableName::from_str\<close>) are the same loop.
\<close>

section \<open>The code\<close>

definition IDENTIFIER_LIMIT :: nat where
  "IDENTIFIER_LIMIT = 1024"

definition escape_name :: "string \<Rightarrow> ApiError + string" where
  "escape_name name =
     (let len = chars_count name
      in if len > IDENTIFIER_LIMIT then
           Inl (InvalidName (''Name exceeds identifier limit ('' @ show_nat len @ '' > '' @
             show_nat IDENTIFIER_LIMIT @ '')''))
         else Inr ([CHR 0x22] @ replace_char (CHR 0x22) [CHR 0x22, CHR 0x22] name @ [CHR 0x22]))"

definition escape_sql_path :: "string \<Rightarrow> string" where
  "escape_sql_path path = [CHR 0x22] @ replace_char (CHR 0x22) [CHR 0x22, CHR 0x22] path @ [CHR 0x22]"

definition escape_string_literal :: "string \<Rightarrow> string" where
  "escape_string_literal value = [CHR 0x27] @ replace_char (CHR 0x27) [CHR 0x27, CHR 0x27] value @ [CHR 0x27]"

record Name =
  escaped :: string
  unescaped :: string

definition Name_try_new :: "string \<Rightarrow> ApiError + Name" where
  "Name_try_new name =
     (if name = [] then Inl (InvalidName ''Name must not be empty'')
      else try_bind (escape_name name) (\<lambda>e. Inr \<lparr>escaped = e, unescaped = name\<rparr>))"

text \<open>\<open>PartialEq\<close> and \<open>Ord\<close> for \<open>Name\<close> compare the unescaped names; strings compare bytewise.\<close>

definition Name_eq :: "Name \<Rightarrow> Name \<Rightarrow> bool" where
  "Name_eq a b \<longleftrightarrow> unescaped a = unescaped b"

definition Name_less :: "Name \<Rightarrow> Name \<Rightarrow> bool" where
  "Name_less a b \<longleftrightarrow> (unescaped a, unescaped b) \<in> lexord {(c, d). (of_char c :: nat) < of_char d}"

text \<open>The loop state: the parts so far, the current part and whether a quote is open.\<close>

fun identifier_loop :: "string list \<Rightarrow> string \<Rightarrow> bool \<Rightarrow> string \<Rightarrow> string list" where
  "identifier_loop parts current in_quotes [] =
     (if current \<noteq> [] then parts @ [current] else parts)"
| "identifier_loop parts current in_quotes (c # cs) =
     (if c = CHR 0x22 then
        (case cs of
           d # cs' \<Rightarrow>
             if in_quotes \<and> d = CHR 0x22 then identifier_loop parts (current @ [CHR 0x22]) in_quotes cs'
             else identifier_loop parts current (\<not> in_quotes) cs
         | [] \<Rightarrow> identifier_loop parts current (\<not> in_quotes) cs)
      else if c = CHR ''.'' \<and> \<not> in_quotes then
        (if current \<noteq> [] then identifier_loop (parts @ [current]) [] in_quotes cs
         else identifier_loop parts current in_quotes cs)
      else identifier_loop parts (current @ [c]) in_quotes cs)"

definition parse_qualified_identifier :: "string \<Rightarrow> string list" where
  "parse_qualified_identifier s = identifier_loop [] [] False s"

type_synonym DatabaseName = Name \<comment> \<open>a struct with the one field \<open>name\<close>\<close>

definition DatabaseName_try_new :: "string \<Rightarrow> ApiError + DatabaseName" where
  "DatabaseName_try_new name = try_bind (Name_try_new name) Inr"

record SchemaName =
  sn_database :: "DatabaseName option"
  sn_schema :: Name

definition SchemaName_try_new :: "string \<Rightarrow> ApiError + SchemaName" where
  "SchemaName_try_new s = try_bind (Name_try_new s) (\<lambda>n. Inr \<lparr>sn_database = None, sn_schema = n\<rparr>)"

definition SchemaName_with_database :: "SchemaName \<Rightarrow> string \<Rightarrow> ApiError + SchemaName" where
  "SchemaName_with_database sn database =
     try_bind (DatabaseName_try_new database) (\<lambda>d. Inr (sn\<lparr>sn_database := Some d\<rparr>))"

definition SchemaName_fmt :: "SchemaName \<Rightarrow> string" where
  "SchemaName_fmt sn =
     (case sn_database sn of
        Some d \<Rightarrow> escaped d @ ''.'' @ escaped (sn_schema sn)
      | None \<Rightarrow> escaped (sn_schema sn))"

definition invalid_identifier :: "string \<Rightarrow> ApiError" where
  "invalid_identifier s = InvalidName (''Invalid SQL identifier: '' @ s)"

definition SchemaName_from_str :: "string \<Rightarrow> ApiError + SchemaName" where
  "SchemaName_from_str s =
     (case parse_qualified_identifier s of
        [n] \<Rightarrow> SchemaName_try_new n
      | [d, n] \<Rightarrow> try_bind (SchemaName_try_new n) (\<lambda>sn. SchemaName_with_database sn d)
      | _ \<Rightarrow> Inl (invalid_identifier s))"

record TableName =
  tn_database :: "DatabaseName option"
  tn_schema :: "Name option"
  tn_table :: Name

definition TableName_try_new :: "string \<Rightarrow> ApiError + TableName" where
  "TableName_try_new table =
     try_bind (Name_try_new table) (\<lambda>n. Inr \<lparr>tn_database = None, tn_schema = None, tn_table = n\<rparr>)"

definition TableName_with_schema :: "TableName \<Rightarrow> string \<Rightarrow> ApiError + TableName" where
  "TableName_with_schema tn s = try_bind (Name_try_new s) (\<lambda>n. Inr (tn\<lparr>tn_schema := Some n\<rparr>))"

definition TableName_with_database :: "TableName \<Rightarrow> string \<Rightarrow> ApiError + TableName" where
  "TableName_with_database tn d = try_bind (DatabaseName_try_new d) (\<lambda>n. Inr (tn\<lparr>tn_database := Some n\<rparr>))"

definition TableName_fmt :: "TableName \<Rightarrow> string" where
  "TableName_fmt tn =
     (case tn_database tn of Some d \<Rightarrow> escaped d @ ''.'' | None \<Rightarrow> '''') @
     (case tn_schema tn of Some s \<Rightarrow> escaped s @ ''.'' | None \<Rightarrow> '''') @
     escaped (tn_table tn)"

definition TableName_from_str :: "string \<Rightarrow> ApiError + TableName" where
  "TableName_from_str str =
     (case parse_qualified_identifier str of
        [t] \<Rightarrow> TableName_try_new t
      | [s, t] \<Rightarrow> try_bind (TableName_try_new t) (\<lambda>tn. TableName_with_schema tn s)
      | [d, s, t] \<Rightarrow> try_bind (TableName_try_new t)
          (\<lambda>tn. try_bind (TableName_with_schema tn s) (\<lambda>tn. TableName_with_database tn d))
      | _ \<Rightarrow> Inl (invalid_identifier str))"

section \<open>Names\<close>

text \<open>A name as the constructors build it.\<close>

definition name_wf :: "Name \<Rightarrow> bool" where
  "name_wf n \<longleftrightarrow> Name_try_new (unescaped n) = Inr n"

lemma escape_name_quoted:
  "escape_name s = (if chars_count s \<le> IDENTIFIER_LIMIT then Inr (QuotedIdentifier_fmt s)
     else Inl (InvalidName (''Name exceeds identifier limit ('' @ show_nat (chars_count s) @ '' > '' @
             show_nat IDENTIFIER_LIMIT @ '')'')))"
  by (simp add: escape_name_def QuotedIdentifier_fmt_def replace_char_def Let_def)

lemma name_wf_iff:
  "name_wf n \<longleftrightarrow> unescaped n \<noteq> [] \<and> chars_count (unescaped n) \<le> IDENTIFIER_LIMIT \<and>
     escaped n = QuotedIdentifier_fmt (unescaped n)"
  by (cases n) (auto simp: name_wf_def Name_try_new_def escape_name_quoted)

lemma Name_try_new_wf: "Name_try_new s = Inr n \<Longrightarrow> name_wf n \<and> unescaped n = s"
  by (auto simp: name_wf_iff Name_try_new_def escape_name_quoted split: if_splits)

lemma Name_try_new_unescaped [simp]: "name_wf n \<Longrightarrow> Name_try_new (unescaped n) = Inr n"
  by (simp add: name_wf_def)

lemma name_wf_eqI: "name_wf a \<Longrightarrow> name_wf b \<Longrightarrow> unescaped a = unescaped b \<Longrightarrow> a = b"
  by (metis name_wf_def sum.inject(2))

section \<open>Parsing back what was rendered\<close>

lemma identifier_loop_quoted:
  assumes "\<And>r. rest \<noteq> CHR 0x22 # r"
  shows "identifier_loop parts current True
      (concat (map (\<lambda>c. if c = CHR 0x22 then [CHR 0x22, CHR 0x22] else [c]) s) @ CHR 0x22 # rest)
    = identifier_loop parts (current @ s) False rest"
proof (induction s arbitrary: current)
  case Nil
  show ?case
    using assms by (cases rest) auto
next
  case (Cons c s)
  then show ?case
    by (cases "c = CHR 0x22") auto
qed

lemma identifier_loop_name:
  assumes "name_wf n" "\<And>r. rest \<noteq> CHR 0x22 # r"
  shows "identifier_loop parts [] False (escaped n @ rest)
    = identifier_loop parts (unescaped n) False rest"
proof -
  have step: "identifier_loop parts [] False (CHR 0x22 # cs) = identifier_loop parts [] True cs" for cs
    by (cases cs) auto
  show ?thesis
    using identifier_loop_quoted [OF assms(2), of parts "[]" "unescaped n"] assms(1)
    by (simp add: name_wf_iff QuotedIdentifier_fmt_def step del: identifier_loop.simps)
qed

lemma identifier_loop_last:
  assumes "name_wf n"
  shows "identifier_loop parts [] False (escaped n) = parts @ [unescaped n]"
  using identifier_loop_name [of n "[]" parts] assms by (simp add: name_wf_iff)

lemma identifier_loop_dot:
  assumes "name_wf n"
  shows "identifier_loop parts [] False (escaped n @ CHR ''.'' # rest)
    = identifier_loop (parts @ [unescaped n]) [] False rest"
  using identifier_loop_name [of n "CHR ''.'' # rest" parts] assms by (simp add: name_wf_iff)

lemmas rendered_parts = identifier_loop_dot identifier_loop_last parse_qualified_identifier_def

definition table_name_wf :: "TableName \<Rightarrow> bool" where
  "table_name_wf tn \<longleftrightarrow> pred_option name_wf (tn_database tn) \<and> pred_option name_wf (tn_schema tn)
     \<and> name_wf (tn_table tn)"

definition schema_name_wf :: "SchemaName \<Rightarrow> bool" where
  "schema_name_wf sn \<longleftrightarrow> pred_option name_wf (sn_database sn) \<and> name_wf (sn_schema sn)"

text \<open>The constructors keep the invariant.\<close>

lemma table_name_constructors_wf:
  "TableName_try_new t = Inr tn \<Longrightarrow> table_name_wf tn"
  "table_name_wf tn \<Longrightarrow> TableName_with_schema tn s = Inr tn' \<Longrightarrow> table_name_wf tn'"
  "table_name_wf tn \<Longrightarrow> TableName_with_database tn s = Inr tn' \<Longrightarrow> table_name_wf tn'"
  by (auto simp: TableName_try_new_def TableName_with_schema_def TableName_with_database_def
      DatabaseName_try_new_def table_name_wf_def try_bind_eq_Inr dest: Name_try_new_wf)

lemma TableName_from_str_wf:
  "TableName_from_str s = Inr tn \<Longrightarrow> table_name_wf tn"
  unfolding TableName_from_str_def
  by (auto simp: try_bind_eq_Inr split: list.splits dest: table_name_constructors_wf)

definition table_name_parts :: "TableName \<Rightarrow> string list" where
  "table_name_parts tn = map unescaped (case tn_database tn of None \<Rightarrow> [] | Some d \<Rightarrow> [d]) @
     map unescaped (case tn_schema tn of None \<Rightarrow> [] | Some s \<Rightarrow> [s]) @ [unescaped (tn_table tn)]"

lemma parse_table_name_parts:
  "table_name_wf tn \<Longrightarrow> parse_qualified_identifier (TableName_fmt tn) = table_name_parts tn"
  by (auto simp: table_name_wf_def TableName_fmt_def table_name_parts_def rendered_parts
      split: option.splits)

text \<open>Names survive their text. A table name that the constructors accept is rendered as text
  that names exactly its parts to the parser; parsing that text gives the same table name back,
  except when it has a database and no schema: then the database comes back as the schema.\<close>

theorem table_name_roundtrip:
  assumes "table_name_wf tn"
  shows "TableName_from_str (TableName_fmt tn) =
    Inr (case (tn_database tn, tn_schema tn) of
           (Some d, None) \<Rightarrow> tn\<lparr>tn_database := None, tn_schema := Some d\<rparr>
         | _ \<Rightarrow> tn)"
proof -
  obtain d s t where tn: "tn = \<lparr>tn_database = d, tn_schema = s, tn_table = t\<rparr>"
    by (cases tn) auto
  show ?thesis
    using assms unfolding TableName_from_str_def parse_table_name_parts [OF assms]
    by (cases d; cases s)
      (simp_all add: tn table_name_parts_def table_name_wf_def TableName_try_new_def
        TableName_with_schema_def TableName_with_database_def DatabaseName_try_new_def)
qed

theorem table_name_roundtrip_witness:
  "TableName_from_str (TableName_fmt \<lparr>tn_database = None,
      tn_schema = Some \<lparr>escaped = QuotedIdentifier_fmt ''s.x'', unescaped = ''s.x''\<rparr>,
      tn_table = \<lparr>escaped = QuotedIdentifier_fmt [CHR ''t'', CHR 0x22], unescaped = [CHR ''t'', CHR 0x22]\<rparr>\<rparr>)
   = Inr \<lparr>tn_database = None,
      tn_schema = Some \<lparr>escaped = QuotedIdentifier_fmt ''s.x'', unescaped = ''s.x''\<rparr>,
      tn_table = \<lparr>escaped = QuotedIdentifier_fmt [CHR ''t'', CHR 0x22], unescaped = [CHR ''t'', CHR 0x22]\<rparr>\<rparr>"
proof -
  let ?tn = "\<lparr>tn_database = None,
      tn_schema = Some \<lparr>escaped = QuotedIdentifier_fmt ''s.x'', unescaped = ''s.x''\<rparr>,
      tn_table = \<lparr>escaped = QuotedIdentifier_fmt [CHR ''t'', CHR 0x22], unescaped = [CHR ''t'', CHR 0x22]\<rparr>\<rparr>"
  have "table_name_wf ?tn"
    by (simp add: table_name_wf_def name_wf_iff chars_count_def is_continuation_def byte_of_def IDENTIFIER_LIMIT_def)
  from table_name_roundtrip [OF this] show ?thesis
    by simp
qed

theorem schema_name_roundtrip:
  assumes "schema_name_wf sn"
  shows "SchemaName_from_str (SchemaName_fmt sn) = Inr sn"
proof -
  obtain d s where sn: "sn = \<lparr>sn_database = d, sn_schema = s\<rparr>"
    by (cases sn) auto
  show ?thesis
    using assms
    by (cases d)
      (simp_all add: sn SchemaName_from_str_def SchemaName_fmt_def schema_name_wf_def rendered_parts
        SchemaName_try_new_def SchemaName_with_database_def DatabaseName_try_new_def)
qed

lemma escape_sql_path_scans:
  "escape_sql_path p = QuotedIdentifier_fmt p" "escape_string_literal v = SqlLiteral_fmt v"
  by (simp_all add: escape_sql_path_def escape_string_literal_def QuotedIdentifier_fmt_def
      SqlLiteral_fmt_def replace_char_def)

end
