(* ===== verification/Sql_Types.thy ===== *)
theory Sql_Types
  imports Sql_Escape Rust_Text
begin

text \<open>
  Type identifiers and SQL types: \<open>hyperdb-api-core/src/types/oid.rs\<close> (\<open>oids\<close>, \<open>Type\<close>) and
  \<open>hyperdb-api-core/src/types/sql_type.rs\<close> (\<open>SqlType\<close>, \<open>Nullability\<close>, \<open>ColumnDefinition\<close>).
  The constructors of \<open>SqlType\<close> carry the prefix \<open>Sql\<close>. An \<open>assert!\<close> that fails and an
  overflow of \<open>i32\<close> are \<open>None\<close>.
\<close>

unbundle bit_operations_syntax

section \<open>The code\<close>

subsection \<open>\<open>oid.rs\<close>\<close>

type_synonym Oid = u32

definition BOOL :: Oid where "BOOL = 16"
definition BIG_INT :: Oid where "BIG_INT = 20"
definition SMALL_INT :: Oid where "SMALL_INT = 21"
definition INT_OID :: Oid where "INT_OID = 23"
definition NUMERIC :: Oid where "NUMERIC = 1700"
definition FLOAT_OID :: Oid where "FLOAT_OID = 700"
definition DOUBLE_OID :: Oid where "DOUBLE_OID = 701"
definition OID :: Oid where "OID = 26"
definition BYTE_A :: Oid where "BYTE_A = 17"
definition TEXT_OID :: Oid where "TEXT_OID = 25"
definition VARCHAR :: Oid where "VARCHAR = 1043"
definition CHAR_OID :: Oid where "CHAR_OID = 1042"
definition CHAR1 :: Oid where "CHAR1 = 18"
definition JSON :: Oid where "JSON = 114"
definition DATE_OID :: Oid where "DATE_OID = 1082"
definition INTERVAL_OID :: Oid where "INTERVAL_OID = 1186"
definition TIME_OID :: Oid where "TIME_OID = 1083"
definition TIMESTAMP :: Oid where "TIMESTAMP = 1114"
definition TIMESTAMP_TZ :: Oid where "TIMESTAMP_TZ = 1184"
definition GEOGRAPHY :: Oid where "GEOGRAPHY = 5003"

lemmas oid_defs = BOOL_def BIG_INT_def SMALL_INT_def INT_OID_def NUMERIC_def FLOAT_OID_def
  DOUBLE_OID_def OID_def BYTE_A_def TEXT_OID_def VARCHAR_def CHAR_OID_def CHAR1_def JSON_def
  DATE_OID_def INTERVAL_OID_def TIME_OID_def TIMESTAMP_def TIMESTAMP_TZ_def GEOGRAPHY_def

record Type =
  oid :: Oid
  modifier :: "i32 option"

definition Type_new :: "Oid \<Rightarrow> Type" where
  "Type_new x = \<lparr>oid = x, modifier = None\<rparr>"

definition with_modifier :: "Oid \<Rightarrow> i32 \<Rightarrow> Type" where
  "with_modifier x m = \<lparr>oid = x, modifier = Some m\<rparr>"

definition is_variable_length :: "Type \<Rightarrow> bool" where
  "is_variable_length t \<longleftrightarrow> oid t \<in> {TEXT_OID, VARCHAR, CHAR_OID, BYTE_A, JSON, GEOGRAPHY}"

definition fixed_size :: "Type \<Rightarrow> nat option" where
  "fixed_size t =
     (if oid t = BOOL then Some 1
      else if oid t = SMALL_INT then Some 2
      else if oid t \<in> {INT_OID, FLOAT_OID, DATE_OID, OID} then Some 4
      else if oid t \<in> {BIG_INT, DOUBLE_OID, TIME_OID, TIMESTAMP, TIMESTAMP_TZ} then Some 8
      else if oid t \<in> {NUMERIC, INTERVAL_OID} then Some 16
      else None)"

definition Type_varchar :: "i32 \<Rightarrow> Type option" where
  "Type_varchar max_length =
     map_option (\<lambda>m. with_modifier VARCHAR (word_of_int m)) (chk32 (sint max_length + 4))"

definition Type_char :: "i32 \<Rightarrow> Type option" where
  "Type_char l = map_option (\<lambda>m. with_modifier CHAR_OID (word_of_int m)) (chk32 (sint l + 4))"

definition MAX_PRECISION :: nat where "MAX_PRECISION = 38"

definition numeric_with_precision :: "i32 \<Rightarrow> i32 \<Rightarrow> Type option" where
  "numeric_with_precision precision scale =
     (if \<not> (sint precision \<ge> 1 \<and> sint precision \<le> int MAX_PRECISION) then None
      else if \<not> (sint scale \<ge> 0) then None
      else if \<not> (sint scale \<le> sint precision) then None
      else map_option (\<lambda>m. with_modifier NUMERIC (word_of_int m))
             (chk32 (sint (push_bit 16 precision OR scale) + 4)))"

subsection \<open>\<open>sql_type.rs\<close>\<close>

datatype SqlType =
    SqlBool
  | SqlBigInt
  | SqlSmallInt
  | SqlInt
  | SqlNumeric u32 u32 \<comment> \<open>\<open>precision\<close>, \<open>scale\<close>\<close>
  | SqlDouble
  | SqlFloat
  | SqlOid
  | SqlByteA
  | SqlText
  | SqlVarchar "u32 option" \<comment> \<open>\<open>max_length\<close>\<close>
  | SqlChar u32 \<comment> \<open>\<open>length\<close>\<close>
  | SqlJson
  | SqlDate
  | SqlInterval
  | SqlTime
  | SqlTimestamp
  | SqlTimestampTz
  | SqlGeography
  | SqlUnsupported

definition SqlType_numeric :: "u32 \<Rightarrow> u32 \<Rightarrow> SqlType option" where
  "SqlType_numeric precision scale =
     (if \<not> (precision \<ge> 1 \<and> unat precision \<le> MAX_PRECISION) then None
      else if \<not> scale \<le> precision then None
      else Some (SqlNumeric precision scale))"

definition try_numeric :: "u32 \<Rightarrow> u32 \<Rightarrow> SqlType option" where
  "try_numeric precision scale =
     (if precision \<ge> 1 \<and> unat precision \<le> MAX_PRECISION \<and> scale \<le> precision
      then Some (SqlNumeric precision scale) else None)"

fun internal_oid :: "SqlType \<Rightarrow> Oid" where
  "internal_oid SqlBool = BOOL"
| "internal_oid SqlBigInt = BIG_INT"
| "internal_oid SqlSmallInt = SMALL_INT"
| "internal_oid SqlInt = INT_OID"
| "internal_oid (SqlNumeric _ _) = NUMERIC"
| "internal_oid SqlDouble = DOUBLE_OID"
| "internal_oid SqlFloat = FLOAT_OID"
| "internal_oid SqlOid = OID"
| "internal_oid SqlByteA = BYTE_A"
| "internal_oid SqlText = TEXT_OID"
| "internal_oid (SqlVarchar _) = VARCHAR"
| "internal_oid (SqlChar l) = (if l = 1 then CHAR1 else CHAR_OID)"
| "internal_oid SqlJson = JSON"
| "internal_oid SqlDate = DATE_OID"
| "internal_oid SqlInterval = INTERVAL_OID"
| "internal_oid SqlTime = TIME_OID"
| "internal_oid SqlTimestamp = TIMESTAMP"
| "internal_oid SqlTimestampTz = TIMESTAMP_TZ"
| "internal_oid SqlGeography = GEOGRAPHY"
| "internal_oid SqlUnsupported = 0"

fun precision :: "SqlType \<Rightarrow> u32 option" where
  "precision (SqlNumeric p _) = Some p"
| "precision _ = None"

fun scale :: "SqlType \<Rightarrow> u32 option" where
  "scale (SqlNumeric _ s) = Some s"
| "scale _ = None"

fun max_length :: "SqlType \<Rightarrow> u32 option" where
  "max_length (SqlVarchar n) = n"
| "max_length (SqlChar l) = Some l"
| "max_length _ = None"

definition from_oid :: "Oid \<Rightarrow> SqlType" where
  "from_oid x =
     (if x = BOOL then SqlBool
      else if x = BIG_INT then SqlBigInt
      else if x = SMALL_INT then SqlSmallInt
      else if x = INT_OID then SqlInt
      else if x = NUMERIC then SqlNumeric 0 0
      else if x = DOUBLE_OID then SqlDouble
      else if x = FLOAT_OID then SqlFloat
      else if x = OID then SqlOid
      else if x = BYTE_A then SqlByteA
      else if x = TEXT_OID then SqlText
      else if x = VARCHAR then SqlVarchar None
      else if x = CHAR_OID \<or> x = CHAR1 then SqlChar 1
      else if x = JSON then SqlJson
      else if x = DATE_OID then SqlDate
      else if x = INTERVAL_OID then SqlInterval
      else if x = TIME_OID then SqlTime
      else if x = TIMESTAMP then SqlTimestamp
      else if x = TIMESTAMP_TZ then SqlTimestampTz
      else if x = GEOGRAPHY then SqlGeography
      else SqlUnsupported)"

text \<open>After the guard \<open>modifier >= 4\<close> the value \<open>modifier - 4\<close> is non-negative and below
  \<open>2 ^ 31\<close>, so \<open>u32::try_from\<close> keeps its bits.\<close>

definition from_oid_and_modifier :: "Oid \<Rightarrow> i32 \<Rightarrow> SqlType" where
  "from_oid_and_modifier x m =
     (if x = NUMERIC then
        (if sint m < 4 then SqlNumeric 0 0
         else
           let mod_val = m - 4; p = drop_bit 16 mod_val; s = mod_val AND 0xFFFF
           in if unat p > MAX_PRECISION \<or> s > p then SqlNumeric 0 0 else SqlNumeric p s)
      else if x = VARCHAR then
        (if sint m < 4 then SqlVarchar None else SqlVarchar (Some (m - 4)))
      else if x = CHAR_OID then
        (if sint m < 4 then SqlChar 1 else SqlChar (m - 4))
      else from_oid x)"

fun is_numeric :: "SqlType \<Rightarrow> bool" where
  "is_numeric SqlSmallInt = True"
| "is_numeric SqlInt = True"
| "is_numeric SqlBigInt = True"
| "is_numeric SqlFloat = True"
| "is_numeric SqlDouble = True"
| "is_numeric (SqlNumeric _ _) = True"
| "is_numeric _ = False"

fun is_string :: "SqlType \<Rightarrow> bool" where
  "is_string SqlText = True"
| "is_string (SqlVarchar _) = True"
| "is_string (SqlChar _) = True"
| "is_string SqlJson = True"
| "is_string _ = False"

definition is_temporal :: "SqlType \<Rightarrow> bool" where
  "is_temporal t \<longleftrightarrow> t \<in> {SqlDate, SqlTime, SqlTimestamp, SqlTimestampTz, SqlInterval}"

definition is_unsupported :: "SqlType \<Rightarrow> bool" where
  "is_unsupported t \<longleftrightarrow> t = SqlUnsupported"

fun SqlType_fmt :: "SqlType \<Rightarrow> string" where
  "SqlType_fmt SqlBool = ''BOOLEAN''"
| "SqlType_fmt SqlBigInt = ''BIGINT''"
| "SqlType_fmt SqlSmallInt = ''SMALLINT''"
| "SqlType_fmt SqlInt = ''INTEGER''"
| "SqlType_fmt (SqlNumeric p s) =
     ''NUMERIC('' @ show_nat (unat p) @ '', '' @ show_nat (unat s) @ '')''"
| "SqlType_fmt SqlDouble = ''DOUBLE PRECISION''"
| "SqlType_fmt SqlFloat = ''REAL''"
| "SqlType_fmt SqlOid = ''OID''"
| "SqlType_fmt SqlByteA = ''BYTEA''"
| "SqlType_fmt SqlText = ''TEXT''"
| "SqlType_fmt (SqlVarchar (Some n)) = ''VARCHAR('' @ show_nat (unat n) @ '')''"
| "SqlType_fmt (SqlVarchar None) = ''VARCHAR''"
| "SqlType_fmt (SqlChar l) = ''CHAR('' @ show_nat (unat l) @ '')''"
| "SqlType_fmt SqlJson = ''JSON''"
| "SqlType_fmt SqlDate = ''DATE''"
| "SqlType_fmt SqlInterval = ''INTERVAL''"
| "SqlType_fmt SqlTime = ''TIME''"
| "SqlType_fmt SqlTimestamp = ''TIMESTAMP''"
| "SqlType_fmt SqlTimestampTz = ''TIMESTAMPTZ''"
| "SqlType_fmt SqlGeography = ''GEOGRAPHY''"
| "SqlType_fmt SqlUnsupported = ''UNSUPPORTED''"

datatype Nullability = Nullable | NotNullable

definition is_nullable :: "Nullability \<Rightarrow> bool" where
  "is_nullable n \<longleftrightarrow> n = Nullable"

definition is_not_nullable :: "Nullability \<Rightarrow> bool" where
  "is_not_nullable n \<longleftrightarrow> n = NotNullable"

fun Nullability_fmt :: "Nullability \<Rightarrow> string" where
  "Nullability_fmt Nullable = ''NULL''"
| "Nullability_fmt NotNullable = ''NOT NULL''"

definition Nullability_from_bool :: "bool \<Rightarrow> Nullability" where
  "Nullability_from_bool b = (if b then Nullable else NotNullable)"

record ColumnDefinition =
  cd_name :: string
  sql_type :: SqlType
  nullability :: Nullability

definition ColumnDefinition_nullable :: "string \<Rightarrow> SqlType \<Rightarrow> ColumnDefinition" where
  "ColumnDefinition_nullable n t = \<lparr>cd_name = n, sql_type = t, nullability = Nullable\<rparr>"

definition ColumnDefinition_not_null :: "string \<Rightarrow> SqlType \<Rightarrow> ColumnDefinition" where
  "ColumnDefinition_not_null n t = \<lparr>cd_name = n, sql_type = t, nullability = NotNullable\<rparr>"

definition ColumnDefinition_oid :: "ColumnDefinition \<Rightarrow> Oid" where
  "ColumnDefinition_oid c = internal_oid (sql_type c)"

definition ColumnDefinition_fmt :: "ColumnDefinition \<Rightarrow> string" where
  "ColumnDefinition_fmt c =
     CHR 0x22 # cd_name c @ [CHR 0x22] @ '' '' @ SqlType_fmt (sql_type c) @ '' ''
       @ Nullability_fmt (nullability c)"

section \<open>Type modifiers\<close>

text \<open>The wire form of a type: its OID with the modifier that the server sends for it
  (\<open>((precision << 16) | scale) + 4\<close>, \<open>length + 4\<close>, or \<open>-1\<close>), and the types it can carry.\<close>

fun pg_modifier :: "SqlType \<Rightarrow> i32" where
  "pg_modifier (SqlNumeric p s) = (push_bit 16 p OR s) + 4"
| "pg_modifier (SqlVarchar (Some n)) = n + 4"
| "pg_modifier (SqlChar n) = n + 4"
| "pg_modifier _ = - 1"

fun sql_type_wf :: "SqlType \<Rightarrow> bool" where
  "sql_type_wf (SqlNumeric p s) = (unat p \<le> MAX_PRECISION \<and> s \<le> p)"
| "sql_type_wf (SqlVarchar (Some n)) = (unat n < 2 ^ 31 - 4)"
| "sql_type_wf (SqlChar n) = (unat n < 2 ^ 31 - 4)"
| "sql_type_wf _ = True"

lemma bit_of_small: "(w :: u32) < 64 \<Longrightarrow> bit w n \<Longrightarrow> n < 6"
proof -
  assume "w < 64" and b: "bit w n"
  then have "take_bit 6 w = w"
    using less_mask_eq [of w 6] by (simp add: take_bit_eq_mask)
  with b show "n < 6"
    by (metis bit_take_bit_iff)
qed

lemma packed_numeric:
  fixes p s :: u32
  assumes p: "p < 64" and s: "s < 64"
  shows "drop_bit 16 (push_bit 16 p OR s) = p"
    and "(push_bit 16 p OR s) AND 0xFFFF = s"
    and "unat (push_bit 16 p OR s) = unat p * 65536 + unat s"
proof -
  note bp = bit_of_small [OF p] and bs = bit_of_small [OF s]
  show "drop_bit 16 (push_bit 16 p OR s) = p"
    by (rule bit_word_eqI) (use bp bs in \<open>fastforce simp: bit_simps\<close>)
  have "(push_bit 16 p OR s) AND mask 16 = s"
    by (rule bit_word_eqI) (use bs in \<open>fastforce simp: bit_simps\<close>)
  then show "(push_bit 16 p OR s) AND 0xFFFF = s"
    by (simp add: mask_eq_exp_minus_1)
  have "push_bit 16 p AND s = 0"
    by (rule bit_word_eqI) (use bs in \<open>fastforce simp: bit_simps\<close>)
  then have "push_bit 16 p OR s = p * 65536 + s"
    by (simp add: push_bit_eq_mult disjunctive_add_eq_or [symmetric])
  moreover have "unat p < 64" "unat s < 64"
    using p s by (simp_all add: word_less_nat_alt)
  ultimately show "unat (push_bit 16 p OR s) = unat p * 65536 + unat s"
    by (simp add: unat_word_ariths)
qed

text \<open>Adding the offset 4 to a small value does not leave \<open>i32\<close>.\<close>

lemma offset_modifier:
  assumes "unat (w :: u32) < 2 ^ 31 - 4"
  shows "sint (w + 4) = int (unat w) + 4" "sint w = int (unat w)"
proof -
  have "unat (w + 4) = unat w + 4"
    using assms by (simp add: unat_word_ariths)
  with assms sint_eq_unat_i32 [of "w + 4"] sint_eq_unat_i32 [of w]
  show "sint (w + 4) = int (unat w) + 4" "sint w = int (unat w)"
    by simp_all
qed

lemma from_modifier_numeric:
  assumes "unat p \<le> 38" "s \<le> p"
  shows "from_oid_and_modifier NUMERIC ((push_bit 16 p OR s) + 4) = SqlNumeric p s"
    and "unat (push_bit 16 p OR s) < 2 ^ 31 - 4"
proof -
  have "p < 64" "s < 64"
    using assms by (simp_all add: word_less_nat_alt word_le_nat_alt)
  note packed = packed_numeric [OF this]
  have "unat s \<le> 38"
    using assms by (simp add: word_le_nat_alt)
  with assms show small: "unat (push_bit 16 p OR s) < 2 ^ 31 - 4"
    by (simp add: packed)
  define w where "w = push_bit 16 p OR s"
  have w: "drop_bit 16 w = p" "w AND 0xFFFF = s" "\<not> sint (w + 4) < 4"
    using packed(1,2) offset_modifier(1) [OF small] by (simp_all add: w_def del: drop_bit_or)
  then have "from_oid_and_modifier NUMERIC (w + 4) = SqlNumeric p s"
    using assms by (auto simp: from_oid_and_modifier_def Let_def MAX_PRECISION_def)
  then show "from_oid_and_modifier NUMERIC ((push_bit 16 p OR s) + 4) = SqlNumeric p s"
    by (simp add: w_def)
qed

lemma pg_modifier_wf:
  "sql_type_wf t \<Longrightarrow> from_oid_and_modifier (internal_oid t) (pg_modifier t) = t"
proof (cases t)
  case (SqlNumeric p s)
  moreover assume "sql_type_wf t"
  ultimately show ?thesis
    using from_modifier_numeric(1) [of p s] by (simp add: MAX_PRECISION_def)
next
  case (SqlVarchar n)
  moreover assume "sql_type_wf t"
  ultimately show ?thesis
    using offset_modifier by (cases n) (auto simp: from_oid_and_modifier_def oid_defs)
next
  case (SqlChar n)
  moreover assume "sql_type_wf t"
  ultimately show ?thesis
    using offset_modifier by (auto simp: from_oid_and_modifier_def from_oid_def oid_defs)
qed (simp_all add: from_oid_and_modifier_def from_oid_def oid_defs)

section \<open>Properties\<close>

text \<open>A column type survives the result metadata: the OID and the modifier that the protocol
  gives for a type are read back by \<open>from_oid_and_modifier\<close> as that type, with precision, scale
  and length, for every well-formed type.\<close>

theorem sql_type_roundtrip:
  assumes "sql_type_wf t"
  shows "from_oid_and_modifier (internal_oid t) (pg_modifier t) = t"
  using assms by (rule pg_modifier_wf)

theorem sql_type_roundtrip_witness:
  "from_oid_and_modifier (internal_oid (SqlNumeric 18 2)) (pg_modifier (SqlNumeric 18 2)) = SqlNumeric 18 2"
  by (rule sql_type_roundtrip) (simp add: MAX_PRECISION_def)

text \<open>Whatever OID and modifier a server sends, a \<open>NUMERIC\<close> read from them has a precision of at
  most 38 and a scale not above the precision: the decoder never sees another scale.\<close>

theorem numeric_modifier_bounds:
  "case from_oid_and_modifier x m of
     SqlNumeric p s \<Rightarrow> unat p \<le> MAX_PRECISION \<and> s \<le> p
   | _ \<Rightarrow> True"
proof (cases "from_oid_and_modifier x m")
  case (SqlNumeric p s)
  have "from_oid x = SqlNumeric p s \<Longrightarrow> p = 0 \<and> s = 0"
    by (simp add: from_oid_def split: if_splits)
  with SqlNumeric show ?thesis
    by (auto simp: from_oid_and_modifier_def Let_def MAX_PRECISION_def split: if_splits)
qed simp_all

text \<open>\<open>Type::numeric_with_precision\<close> accepts exactly the precisions 1 to 38 with a scale between 0
  and the precision (it panics on every other pair), and the type it returns is read back by
  \<open>from_oid_and_modifier\<close> with that precision and scale.\<close>

theorem numeric_with_precision_correct:
  "case numeric_with_precision p s of
     Some t \<Rightarrow> from_oid_and_modifier (oid t) (the (modifier t)) = SqlNumeric p s \<and>
       1 \<le> sint p \<and> sint p \<le> 38 \<and> 0 \<le> sint s \<and> sint s \<le> sint p
   | None \<Rightarrow> \<not> (1 \<le> sint p \<and> sint p \<le> 38 \<and> 0 \<le> sint s \<and> sint s \<le> sint p)"
proof (cases "1 \<le> sint p \<and> sint p \<le> 38 \<and> 0 \<le> sint s \<and> sint s \<le> sint p")
  case True
  have nonneg: "int (unat w) = sint w" if "0 \<le> sint w" for w :: i32
  proof -
    have "word_of_int (sint w) = w"
      by simp
    then have "uint w = sint w"
      using that sint_i32_bounds [of w] uint_word_of_int_u32 [of "sint w"] by simp
    then show ?thesis
      by simp
  qed
  have up: "int (unat p) = sint p" and us: "int (unat s) = sint s"
    using True nonneg by simp_all
  with True have le: "unat p \<le> 38" "s \<le> p"
    unfolding word_le_nat_alt by linarith+
  note m = from_modifier_numeric [OF le]
  have "chk32 (sint (push_bit 16 p OR s) + 4) = Some (sint ((push_bit 16 p OR s) + 4))"
    using offset_modifier [OF m(2)] sint_i32_bounds [of "(push_bit 16 p OR s) + 4"]
    by (intro chk32_Some [THEN trans]) simp_all
  with True m(1) show ?thesis
    by (simp add: numeric_with_precision_def MAX_PRECISION_def with_modifier_def)
next
  case False
  then show ?thesis
    by (auto simp: numeric_with_precision_def MAX_PRECISION_def)
qed

end
