(* ===== verification/Scram_Auth.thy ===== *)
theory Scram_Auth
  imports Client_Error
begin

text \<open>
  Authentication, \<open>hyperdb-api-core/src/client/auth.rs\<close>: the MD5 response and the client side of
  SCRAM-SHA-256. The hash functions, the key derivation and base64 come from crates; they are the
  fields of a record \<open>crypto\<close> that every function takes, and what the exchange needs of them is
  stated where it is used. The random bytes of the nonce are an argument. Zeroizing memory is
  not modelled.
\<close>

unbundle bit_operations_syntax

section \<open>The code\<close>

record crypto =
  md5 :: "bytes \<Rightarrow> bytes"
  sha256 :: "bytes \<Rightarrow> bytes"
  hmac_sha256 :: "bytes \<Rightarrow> bytes \<Rightarrow> bytes" \<comment> \<open>key, data\<close>
  pbkdf2_sha256 :: "string \<Rightarrow> bytes \<Rightarrow> u32 \<Rightarrow> bytes" \<comment> \<open>password, salt, iterations\<close>
  b64_encode :: "bytes \<Rightarrow> string"
  b64_decode :: "string \<Rightarrow> bytes option"

definition hex_digit :: "nat \<Rightarrow> char" where
  "hex_digit n = (if n < 10 then char_of (48 + n) else char_of (87 + n))"

definition hex_encode :: "bytes \<Rightarrow> string" where
  "hex_encode bs = concat (map (\<lambda>b. [hex_digit (unat b div 16), hex_digit (unat b mod 16)]) bs)"

definition compute_md5_password :: "crypto \<Rightarrow> string \<Rightarrow> string \<Rightarrow> bytes \<Rightarrow> string" where
  "compute_md5_password k user password salt =
     (let first_hash = md5 k (as_bytes password @ as_bytes user);
          first_hex = hex_encode first_hash;
          second_hash = md5 k (as_bytes first_hex @ salt)
      in ''md5'' @ hex_encode second_hash)"

record AuthState =
  as_password :: string
  client_nonce :: string
  client_first_bare :: string
  server_first :: "string option"
  auth_message :: "string option"
  server_key :: "bytes option"

definition generate_nonce :: "crypto \<Rightarrow> bytes \<Rightarrow> string" where
  "generate_nonce k random = b64_encode k random"

definition scram_client_first :: "crypto \<Rightarrow> bytes \<Rightarrow> string \<Rightarrow> AuthState \<times> bytes" where
  "scram_client_first k random password =
     (let nonce = generate_nonce k random;
          bare = ''n=,r='' @ nonce;
          first = ''n,,'' @ bare
      in (\<lparr>as_password = password, client_nonce = nonce, client_first_bare = bare,
           server_first = None, auth_message = None, server_key = None\<rparr>, as_bytes first))"

text \<open>\<open>str::split\<close> for a character, and \<open>strip_prefix\<close>.\<close>

fun str_split :: "char \<Rightarrow> string \<Rightarrow> string list" where
  "str_split c [] = [[]]"
| "str_split c (d # s) =
     (if d = c then [] # str_split c s
      else (case str_split c s of p # ps \<Rightarrow> (d # p) # ps | [] \<Rightarrow> [[d]]))"

definition strip_prefix :: "string \<Rightarrow> string \<Rightarrow> string option" where
  "strip_prefix p s = (if take (length p) s = p then Some (drop (length p) s) else None)"

text \<open>The loop over the parts of the server-first message.\<close>

fun parse_server_first ::
  "string option \<Rightarrow> string option \<Rightarrow> u32 option \<Rightarrow> string list
     \<Rightarrow> Error + (string option \<times> string option \<times> u32 option)" where
  "parse_server_first n s i [] = Inr (n, s, i)"
| "parse_server_first n s i (part # parts) =
     (case strip_prefix ''r='' part of
        Some v \<Rightarrow> parse_server_first (Some v) s i parts
      | None \<Rightarrow>
          (case strip_prefix ''s='' part of
             Some v \<Rightarrow> parse_server_first n (Some v) i parts
           | None \<Rightarrow>
               (case strip_prefix ''i='' part of
                  Some v \<Rightarrow>
                    (case parse_unsigned (2 ^ 32 - 1) v of
                       None \<Rightarrow> Inl (AuthenticationError ''invalid iteration count in server-first message'')
                     | Some x \<Rightarrow> parse_server_first n s (Some (word_of_nat x)) parts)
                | None \<Rightarrow> parse_server_first n s i parts)))"

text \<open>The constant-time comparison of the nonce prefix.\<close>

definition nonce_prefix_match :: "string \<Rightarrow> string \<Rightarrow> bool" where
  "nonce_prefix_match server client =
     (let s = as_bytes server; c = as_bytes client
      in length s \<ge> length c \<and>
         foldl (\<lambda>diff (a, b). diff OR (a XOR b)) 0 (take (length c) (zip s c)) = 0)"

definition ok_or :: "string \<Rightarrow> 'a option \<Rightarrow> Error + 'a" where
  "ok_or m x = (case x of None \<Rightarrow> Inl (AuthenticationError m) | Some a \<Rightarrow> Inr a)"

definition scram_client_final :: "crypto \<Rightarrow> AuthState \<Rightarrow> bytes \<Rightarrow> Error + (AuthState \<times> bytes)" where
  "scram_client_final k state server_first_bytes =
     try_bind (ok_or ''invalid UTF-8 in server-first message'' (from_utf8 server_first_bytes))
     (\<lambda>server_first_str.
       try_bind (parse_server_first None None None (str_split CHR '','' server_first_str))
       (\<lambda>(n, s, i).
         try_bind (ok_or ''missing nonce in server-first message'' n) (\<lambda>server_nonce.
         try_bind (ok_or ''missing salt in server-first message'' s) (\<lambda>salt_b64.
         try_bind (ok_or ''missing iterations in server-first message'' i) (\<lambda>iterations.
           if \<not> nonce_prefix_match server_nonce (client_nonce state) then
             Inl (AuthenticationError (''server nonce doesn'' @ CHR 0x27 # ''t match client nonce''))
           else
             try_bind (ok_or ''invalid base64 in salt'' (b64_decode k salt_b64)) (\<lambda>salt.
               let salted_password = pbkdf2_sha256 k (as_password state) salt iterations;
                   client_key = hmac_sha256 k salted_password (as_bytes ''Client Key'');
                   skey = hmac_sha256 k salted_password (as_bytes ''Server Key'');
                   stored_key = sha256 k client_key;
                   channel_binding_b64 = b64_encode k (as_bytes ''n,,'');
                   without_proof = ''c='' @ channel_binding_b64 @ '',r='' @ server_nonce;
                   message = client_first_bare state @ '','' @ server_first_str @ '','' @ without_proof;
                   client_signature = hmac_sha256 k stored_key (as_bytes message);
                   client_proof = map2 (\<lambda>a b. a XOR b) client_key client_signature;
                   client_final = without_proof @ '',p='' @ b64_encode k client_proof
               in Inr (state\<lparr>server_first := Some server_first_str, auth_message := Some message,
                              server_key := Some skey\<rparr>, as_bytes client_final)))))))"

definition scram_verify_server :: "crypto \<Rightarrow> AuthState \<Rightarrow> bytes \<Rightarrow> Error + unit" where
  "scram_verify_server k state server_final =
     try_bind (ok_or ''invalid UTF-8 in server-final message'' (from_utf8 server_final)) (\<lambda>server_final_str.
     try_bind (ok_or ''invalid server-final message format'' (strip_prefix ''v='' server_final_str)) (\<lambda>sig_b64.
     try_bind (ok_or ''invalid base64 in server signature'' (b64_decode k sig_b64)) (\<lambda>server_sig.
     try_bind (ok_or ''missing server key in auth state'' (server_key state)) (\<lambda>skey.
     try_bind (ok_or ''missing auth message in auth state'' (auth_message state)) (\<lambda>message.
       if server_sig \<noteq> hmac_sha256 k skey (as_bytes message) then
         Inl (AuthenticationError ''server signature verification failed'')
       else Inr ())))))"

section \<open>The server side (RFC 5802)\<close>

text \<open>What a server that knows the password does: it keeps the salt, the iteration count, the
  stored key and the server key, answers the client's nonce, checks the proof and signs.\<close>

record scram_server =
  srv_salt :: bytes
  srv_iterations :: u32
  srv_stored_key :: bytes
  srv_server_key :: bytes

definition enroll :: "crypto \<Rightarrow> string \<Rightarrow> bytes \<Rightarrow> u32 \<Rightarrow> scram_server" where
  "enroll k password salt iters =
     (let sp = pbkdf2_sha256 k password salt iters
      in \<lparr>srv_salt = salt, srv_iterations = iters,
          srv_stored_key = sha256 k (hmac_sha256 k sp (as_bytes ''Client Key'')),
          srv_server_key = hmac_sha256 k sp (as_bytes ''Server Key'')\<rparr>)"

definition srv_first :: "crypto \<Rightarrow> scram_server \<Rightarrow> string \<Rightarrow> string \<Rightarrow> string" where
  "srv_first k srv cnonce snonce =
     ''r='' @ cnonce @ snonce @ '',s='' @ b64_encode k (srv_salt srv) @ '',i=''
       @ show_nat (unat (srv_iterations srv))"

definition srv_auth_message :: "crypto \<Rightarrow> scram_server \<Rightarrow> string \<Rightarrow> string \<Rightarrow> string" where
  "srv_auth_message k srv cnonce snonce =
     ''n=,r='' @ cnonce @ '','' @ srv_first k srv cnonce snonce
       @ '',c='' @ b64_encode k (as_bytes ''n,,'') @ '',r='' @ cnonce @ snonce"

definition srv_accepts :: "crypto \<Rightarrow> scram_server \<Rightarrow> string \<Rightarrow> string \<Rightarrow> bytes \<Rightarrow> bool" where
  "srv_accepts k srv cnonce snonce client_final =
     (case from_utf8 client_final of
        None \<Rightarrow> False
      | Some s \<Rightarrow>
          (case str_split CHR '','' s of
             [c, r, p] \<Rightarrow>
               c = ''c='' @ b64_encode k (as_bytes ''n,,'') \<and> r = ''r='' @ cnonce @ snonce \<and>
               (case strip_prefix ''p='' p of
                  None \<Rightarrow> False
                | Some p64 \<Rightarrow>
                    (case b64_decode k p64 of
                       None \<Rightarrow> False
                     | Some proof' \<Rightarrow>
                         sha256 k (map2 (\<lambda>a b. a XOR b) proof'
                           (hmac_sha256 k (srv_stored_key srv) (as_bytes (srv_auth_message k srv cnonce snonce))))
                         = srv_stored_key srv))
           | _ \<Rightarrow> False))"

definition srv_final :: "crypto \<Rightarrow> scram_server \<Rightarrow> string \<Rightarrow> string \<Rightarrow> bytes" where
  "srv_final k srv cnonce snonce =
     as_bytes (''v='' @ b64_encode k
       (hmac_sha256 k (srv_server_key srv) (as_bytes (srv_auth_message k srv cnonce snonce))))"

text \<open>The documented behaviour of the crates that the exchange relies on: base64 decodes what it
  encoded, its text is ASCII without commas, and the MACs of SHA-256 have one length.\<close>

definition plain_text :: "string \<Rightarrow> bool" where
  "plain_text s \<longleftrightarrow> list_all (\<lambda>c. (of_char c :: nat) < 128 \<and> c \<noteq> CHR '','') s"

definition base64_ok :: "crypto \<Rightarrow> bool" where
  "base64_ok k \<longleftrightarrow> (\<forall>x. b64_decode k (b64_encode k x) = Some x \<and> plain_text (b64_encode k x))"

definition mac_ok :: "crypto \<Rightarrow> bool" where
  "mac_ok k \<longleftrightarrow> (\<forall>a b. length (hmac_sha256 k a b) = 32)"

section \<open>Lemmas\<close>

lemma str_split_plain: "c \<notin> set s \<Longrightarrow> str_split c (s @ c # t) = s # str_split c t"
  by (induction s) auto

lemma str_split_last: "c \<notin> set s \<Longrightarrow> str_split c s = [s]"
  by (induction s) auto

lemma strip_prefix_append [simp]: "strip_prefix p (p @ s) = Some s"
  by (simp add: strip_prefix_def)

lemma xor_fold_zero:
  "foldl (\<lambda>diff (a, b). diff OR (a XOR b)) d ps = (0 :: u8) \<longleftrightarrow> d = 0 \<and> (\<forall>(a, b) \<in> set ps. a = b)"
proof (induction ps arbitrary: d)
  case (Cons p ps)
  obtain a b where p: "p = (a, b)"
    by (cases p)
  have "d OR (a XOR b) = 0 \<longleftrightarrow> d = 0 \<and> a = b"
    by (metis or_eq_0_iff xor_self_eq xor.assoc xor.left_neutral)
  with Cons show ?case
    by (simp add: p)
qed simp

text \<open>The constant-time loop decides the prefix relation.\<close>

lemma nonce_prefix_match_iff: "nonce_prefix_match s c \<longleftrightarrow> take (length c) s = c"
proof -
  have "nonce_prefix_match s c \<longleftrightarrow> length c \<le> length s \<and> (\<forall>(a, b) \<in> set (zip (as_bytes s) (as_bytes c)). a = b)"
    by (auto simp: nonce_prefix_match_def Let_def xor_fold_zero min_def)
  also have "\<dots> \<longleftrightarrow> length c \<le> length s \<and> (\<forall>i < length c. s ! i = c ! i)"
  proof (intro conj_cong refl iffI allI impI ballI)
    fix i assume len: "length c \<le> length s" and i: "i < length c"
      and all: "\<forall>(a, b) \<in> set (zip (as_bytes s) (as_bytes c)). a = b"
    have "(as_bytes s ! i, as_bytes c ! i) \<in> set (zip (as_bytes s) (as_bytes c))"
      using len i by (auto simp: set_zip)
    with all len i show "s ! i = c ! i"
      by (auto simp: as_bytes_def)
  next
    fix p assume "length c \<le> length s" "\<forall>i < length c. s ! i = c ! i"
      "p \<in> set (zip (as_bytes s) (as_bytes c))"
    then show "case p of (a, b) \<Rightarrow> a = b"
      by (auto simp: set_zip as_bytes_def)
  qed
  also have "\<dots> \<longleftrightarrow> take (length c) s = c"
    by (auto simp: list_eq_iff_nth_eq min_def)
  finally show ?thesis .
qed

lemma plain_textD: "plain_text s \<Longrightarrow> CHR '','' \<notin> set s"
  by (auto simp: plain_text_def list_all_iff)

lemma ascii_utf8: "list_all (\<lambda>c. (of_char c :: nat) < 128) s \<Longrightarrow> from_utf8 (as_bytes s) = Some s"
  by (intro from_utf8_as_bytes utf8_valid_ascii) (auto simp: list_all_iff as_bytes_def word_less_nat_alt)

lemma digit_plain: "char_digit c \<noteq> None \<Longrightarrow> (of_char c :: nat) < 128 \<and> c \<noteq> CHR '',''"
  by (auto simp: char_digit_def Let_def split: if_splits)

lemma show_nat_plain: "plain_text (show_nat n)"
  using show_nat_digits [of n] digit_plain unfolding plain_text_def by (simp add: list_all_iff)

lemma xor_back: "length a = length b \<Longrightarrow> map2 (\<lambda>x y. x XOR y) (map2 (\<lambda>x y. x XOR y) a b) b = (a :: bytes)"
  by (induction a b rule: list_induct2) (simp_all add: xor.assoc)

lemma split_server_first:
  assumes "plain_text cn" "plain_text sn" "plain_text s64" "plain_text it"
  shows "str_split CHR '','' (''r='' @ cn @ sn @ '',s='' @ s64 @ '',i='' @ it)
           = [''r='' @ cn @ sn, ''s='' @ s64, ''i='' @ it]"
proof -
  have "CHR '','' \<notin> set (''r='' @ cn @ sn)" "CHR '','' \<notin> set (''s='' @ s64)" "CHR '','' \<notin> set (''i='' @ it)"
    using assms [THEN plain_textD] by simp_all
  from str_split_plain [OF this(1)] str_split_plain [OF this(2)] str_split_last [OF this(3)]
  show ?thesis
    by simp
qed

lemma split_client_final:
  assumes "plain_text c64" "plain_text cn" "plain_text sn" "plain_text p64"
  shows "str_split CHR '','' (''c='' @ c64 @ '',r='' @ cn @ sn @ '',p='' @ p64)
           = [''c='' @ c64, ''r='' @ cn @ sn, ''p='' @ p64]"
proof -
  have "CHR '','' \<notin> set (''c='' @ c64)" "CHR '','' \<notin> set (''r='' @ cn @ sn)" "CHR '','' \<notin> set (''p='' @ p64)"
    using assms [THEN plain_textD] by simp_all
  from str_split_plain [OF this(1)] str_split_plain [OF this(2)] str_split_last [OF this(3)]
  show ?thesis
    by simp
qed

lemma plain_ascii: "plain_text s \<Longrightarrow> list_all (\<lambda>c. (of_char c :: nat) < 128) s"
  by (simp add: plain_text_def list_all_iff)

lemma base64_okD:
  assumes "base64_ok k"
  shows "b64_decode k (b64_encode k x) = Some x" "plain_text (b64_encode k x)"
  using assms by (simp_all add: base64_ok_def)

lemma strip_prefix_literals [simp]:
  "strip_prefix ''r='' (CHR ''s'' # t) = None" "strip_prefix ''r='' (CHR ''i'' # t) = None"
  "strip_prefix ''s='' (CHR ''i'' # t) = None"
  "strip_prefix ''r='' (CHR ''r'' # CHR ''='' # u) = Some u"
  "strip_prefix ''s='' (CHR ''s'' # CHR ''='' # u) = Some u"
  "strip_prefix ''i='' (CHR ''i'' # CHR ''='' # u) = Some u"
  "strip_prefix ''p='' (CHR ''p'' # CHR ''='' # u) = Some u"
  "strip_prefix ''v='' (CHR ''v'' # CHR ''='' # u) = Some u"
  by (simp_all add: strip_prefix_def)

lemma parse_server_first_ok:
  "parse_server_first None None None [''r='' @ n, ''s='' @ s, ''i='' @ show_nat (unat (i :: u32))]
     = Inr (Some n, Some s, Some i)"
proof -
  have "unat i \<le> 2 ^ 32 - 1"
    using unsigned_less [of i, where ?'a = nat] by simp
  then show ?thesis
    by (simp add: parse_unsigned_show_nat)
qed

text \<open>The client's answer to a server that knows the password.\<close>

lemma scram_client_final_ok:
  assumes k: "base64_ok k" and sn: "plain_text snonce"
    and st: "st = fst (scram_client_first k random pw)"
    and srv: "srv = enroll k pw salt iters" and cn: "cn = client_nonce st"
    and ckey: "ckey = hmac_sha256 k (pbkdf2_sha256 k pw salt iters) (as_bytes ''Client Key'')"
    and msg: "msg = srv_auth_message k srv cn snonce"
  shows "scram_client_final k st (as_bytes (srv_first k srv cn snonce))
    = Inr (st\<lparr>server_first := Some (srv_first k srv cn snonce), auth_message := Some msg,
              server_key := Some (srv_server_key srv)\<rparr>,
           as_bytes (''c='' @ b64_encode k (as_bytes ''n,,'') @ '',r='' @ cn @ snonce @ '',p='' @
             b64_encode k (map2 (\<lambda>a b. a XOR b) ckey (hmac_sha256 k (srv_stored_key srv) (as_bytes msg)))))"
proof -
  have state: "as_password st = pw" "client_first_bare st = ''n=,r='' @ cn" and pcn: "plain_text cn"
    using base64_okD(2) [OF k] by (simp_all add: st cn scram_client_first_def Let_def generate_nonce_def)
  have "list_all (\<lambda>c. (of_char c :: nat) < 128) (srv_first k srv cn snonce)"
    using plain_ascii [OF pcn] plain_ascii [OF sn] plain_ascii [OF show_nat_plain]
      plain_ascii [OF base64_okD(2) [OF k]]
    by (simp add: srv_first_def)
  note utf8 = ascii_utf8 [OF this]
  have split: "str_split CHR '','' (srv_first k srv cn snonce)
      = [''r='' @ cn @ snonce, ''s='' @ b64_encode k (srv_salt srv), ''i='' @ show_nat (unat (srv_iterations srv))]"
    unfolding srv_first_def by (rule split_server_first [OF pcn sn base64_okD(2) [OF k] show_nat_plain])
  have "nonce_prefix_match (cn @ snonce) (client_nonce st)"
    by (simp add: nonce_prefix_match_iff cn)
  moreover have "srv_salt srv = salt" "srv_iterations srv = iters" "srv_stored_key srv = sha256 k ckey"
    "srv_server_key srv = hmac_sha256 k (pbkdf2_sha256 k pw salt iters) (as_bytes ''Server Key'')"
    by (simp_all add: srv ckey enroll_def Let_def)
  moreover have "msg = client_first_bare st @ '','' @ srv_first k srv cn snonce @ '','' @
      ''c='' @ b64_encode k (as_bytes ''n,,'') @ '',r='' @ cn @ snonce"
    by (simp add: msg srv_auth_message_def state)
  ultimately show ?thesis
    unfolding scram_client_final_def utf8 ok_or_def option.case try_bind_simps split parse_server_first_ok
    by (simp add: base64_okD(1) [OF k] state ckey [symmetric] Let_def del: as_bytes_append flip: as_bytes_append)
qed

section \<open>Properties\<close>


text \<open>A concrete instance of the crates for the witness: base64 replaced by the list of the hex
  digits of the bytes, the hashes by fixed-length functions.\<close>

fun unhex :: "string \<Rightarrow> bytes option" where
  "unhex [] = Some []"
| "unhex (a # b # r) =
     (case (find (\<lambda>n. hex_digit n = a) [0..<16], find (\<lambda>n. hex_digit n = b) [0..<16], unhex r) of
        (Some x, Some y, Some t) \<Rightarrow> Some (word_of_nat (16 * x + y) # t)
      | _ \<Rightarrow> None)"
| "unhex [a] = None"

definition demo_crypto :: crypto where
  "demo_crypto = \<lparr>md5 = take 16, sha256 = \<lambda>x. take 32 (x @ replicate 32 1),
     hmac_sha256 = \<lambda>a b. take 32 (rev a @ b @ replicate 32 7),
     pbkdf2_sha256 = \<lambda>p s i. take 32 (as_bytes p @ s @ to_le_bytes i @ replicate 32 3),
     b64_encode = hex_encode, b64_decode = unhex\<rparr>"

lemma hex_digit_facts:
  assumes "n < 16"
  shows "find (\<lambda>m. hex_digit m = hex_digit n) [0..<16] = Some n"
    and "(of_char (hex_digit n) :: nat) < 128" and "hex_digit n \<noteq> CHR '',''"
proof -
  have "list_all (\<lambda>n. find (\<lambda>m. hex_digit m = hex_digit n) [0..<16] = Some n \<and>
      (of_char (hex_digit n) :: nat) < 128 \<and> hex_digit n \<noteq> CHR '','') [0..<16]"
    by code_simp
  with assms show "find (\<lambda>m. hex_digit m = hex_digit n) [0..<16] = Some n"
    "(of_char (hex_digit n) :: nat) < 128" "hex_digit n \<noteq> CHR '',''"
    by (simp_all add: list_all_iff)
qed

lemma demo_crypto_ok: "base64_ok demo_crypto" "mac_ok demo_crypto"
proof -
  have nib: "unat b div 16 < 16" "unat b mod 16 < 16" for b :: u8
    using unsigned_less [of b, where ?'a = nat] by simp_all
  have "unhex (hex_encode bs) = Some bs" for bs
    by (induction bs) (simp_all add: hex_encode_def hex_digit_facts(1) [OF nib(1)] hex_digit_facts(1) [OF nib(2)])
  moreover have "plain_text (hex_encode bs)" for bs
    using hex_digit_facts(2,3) [OF nib(1)] hex_digit_facts(2,3) [OF nib(2)]
    by (auto simp: plain_text_def hex_encode_def list_all_iff)
  ultimately show "base64_ok demo_crypto"
    by (simp add: base64_ok_def demo_crypto_def)
  show "mac_ok demo_crypto"
    by (auto simp: mac_ok_def demo_crypto_def min_def)
qed


text \<open>The client proves itself only to a server that answers this exchange: whenever
  \<open>scram_client_final\<close> produces a message, it contains a nonce that starts with the client's
  own nonce, and the state it leaves is bound to exactly the bytes the server sent. The loop
  that compares the nonces in constant time is what decides this.\<close>

theorem scram_final_binds_nonce:
  assumes "scram_client_final k st m = Inr (st', out)"
  shows "\<exists>nonce proof64 text. take (length (client_nonce st)) nonce = client_nonce st \<and>
    out = as_bytes (''c='' @ b64_encode k (as_bytes ''n,,'') @ '',r='' @ nonce @ '',p='' @ proof64) \<and>
    m = as_bytes text \<and>
    auth_message st' = Some (client_first_bare st @ '','' @ text @ '',c='' @
      b64_encode k (as_bytes ''n,,'') @ '',r='' @ nonce)"
  using assms
  by (auto simp: scram_client_final_def try_bind_eq_Inr ok_or_def Let_def nonce_prefix_match_iff
      from_utf8_Some_iff simp del: as_bytes_append simp flip: as_bytes_append split: option.splits if_splits)

theorem scram_final_binds_nonce_witness:
  "let st = fst (scram_client_first demo_crypto [1] ''pw'');
       m = as_bytes (srv_first demo_crypto (enroll demo_crypto ''pw'' [9] 4096) (client_nonce st) ''xyz'')
   in \<exists>st' out nonce proof64. scram_client_final demo_crypto st m = Inr (st', out) \<and>
        take 2 nonce = ''01'' \<and>
        out = as_bytes (''c='' @ b64_encode demo_crypto (as_bytes ''n,,'') @ '',r='' @ nonce @ '',p='' @ proof64)"
proof -
  let ?st = "fst (scram_client_first demo_crypto [1] ''pw'')"
  let ?srv = "enroll demo_crypto ''pw'' [9] 4096"
  let ?m = "as_bytes (srv_first demo_crypto ?srv (client_nonce ?st) ''xyz'')"
  have n: "client_nonce ?st = ''01''"
    by code_simp
  have len: "length ''01'' = 2"
    by simp
  have "plain_text ''xyz''"
    by (simp add: plain_text_def)
  from scram_client_final_ok [OF demo_crypto_ok(1) this refl refl refl refl refl]
  obtain st' out where final: "scram_client_final demo_crypto ?st ?m = Inr (st', out)"
    by blast
  from scram_final_binds_nonce [OF this] obtain nonce proof64 where
    "take 2 nonce = ''01''"
    "out = as_bytes (''c='' @ b64_encode demo_crypto (as_bytes ''n,,'') @ '',r='' @ nonce @ '',p='' @ proof64)"
    unfolding n len by blast
  with final show ?thesis
    unfolding Let_def by blast
qed

end
