(* ===== verification/Frontend.thy ===== *)
theory Frontend
  imports Rust_Prelude
begin

text \<open>
  Client-to-server messages, \<open>hyperdb-api-core/src/protocol/message/frontend.rs\<close>. A writer
  appends one message to the buffer; \<open>None\<close> is the panic of \<open>msg_len\<close>, of \<open>msg_count\<close> or of an
  \<open>i32\<close> addition that overflows.

  The specification is the frame of the protocol (a tag, a big-endian length that counts
  itself and the body, the body) and \<open>decode_frontend\<close>, a reader of the documented message
  bodies as a server performs it.
\<close>

section \<open>The code\<close>

definition msg_len :: "nat \<Rightarrow> int option" where
  "msg_len n = (if n < 2 ^ 31 then Some (int n) else None)"

definition msg_count :: "nat \<Rightarrow> i16 option" where
  "msg_count n = (if n < 2 ^ 16 then Some (word_of_nat n) else None)"

text \<open>A left-associated sum of \<open>i32\<close> values, checked at every addition.\<close>

fun chk_sum :: "int \<Rightarrow> int list \<Rightarrow> int option" where
  "chk_sum a [] = Some a"
| "chk_sum a (x # xs) = do { s \<leftarrow> chk32 (a + x); chk_sum s xs }"

definition put_i32 :: "int \<Rightarrow> bytes" where
  "put_i32 x = to_be_bytes (word_of_int x :: i32)"

definition startup_message :: "(string \<times> string) list \<Rightarrow> bytes \<Rightarrow> bytes option" where
  "startup_message parameters buf =
     (let len_idx = length buf;
          buf1 = buf @ put_i32 0 @ put_i32 196608 @
            concat (map (\<lambda>(name, value). as_bytes name @ [0] @ as_bytes value @ [0]) parameters) @ [0]
      in do { len \<leftarrow> msg_len (length buf1 - len_idx);
              Some (take len_idx buf1 @ put_i32 len @ drop (len_idx + 4) buf1) })"

definition password_message :: "string \<Rightarrow> bytes \<Rightarrow> bytes option" where
  "password_message password buf =
     do { l \<leftarrow> msg_len (length password);
          len \<leftarrow> chk_sum 4 [l, 1];
          Some (buf @ [byte_of CHR ''p''] @ put_i32 len @ as_bytes password @ [0]) }"

definition sasl_initial_response :: "string \<Rightarrow> bytes \<Rightarrow> bytes \<Rightarrow> bytes option" where
  "sasl_initial_response mechanism data buf =
     do { lm \<leftarrow> msg_len (length mechanism);
          ld \<leftarrow> msg_len (length data);
          len \<leftarrow> chk_sum 4 [lm, 1, 4, ld];
          Some (buf @ [byte_of CHR ''p''] @ put_i32 len @ as_bytes mechanism @ [0] @ put_i32 ld @ data) }"

definition sasl_response :: "bytes \<Rightarrow> bytes \<Rightarrow> bytes option" where
  "sasl_response data buf =
     do { l \<leftarrow> msg_len (length data);
          len \<leftarrow> chk_sum 4 [l];
          Some (buf @ [byte_of CHR ''p''] @ put_i32 len @ data) }"

definition query :: "string \<Rightarrow> bytes \<Rightarrow> bytes option" where
  "query q buf =
     do { l \<leftarrow> msg_len (length q);
          len \<leftarrow> chk_sum 4 [l, 1];
          Some (buf @ [byte_of CHR ''Q''] @ put_i32 len @ as_bytes q @ [0]) }"

definition parse :: "string \<Rightarrow> string \<Rightarrow> u32 list \<Rightarrow> bytes \<Rightarrow> bytes option" where
  "parse name q param_types buf =
     do { ln \<leftarrow> msg_len (length name);
          lq \<leftarrow> msg_len (length q);
          lp \<leftarrow> msg_len (length param_types);
          lp4 \<leftarrow> chk32 (lp * 4);
          len \<leftarrow> chk_sum 4 [ln, 1, lq, 1, 2, lp4];
          n \<leftarrow> msg_count (length param_types);
          Some (buf @ [byte_of CHR ''P''] @ put_i32 len @ as_bytes name @ [0] @ as_bytes q @ [0] @
            to_be_bytes n @ concat (map to_be_bytes param_types)) }"

text \<open>The loop of \<open>bind\<close> that adds the size of every parameter to the length.\<close>

fun bind_params_len :: "int \<Rightarrow> bytes option list \<Rightarrow> int option" where
  "bind_params_len len [] = Some len"
| "bind_params_len len (p # ps) =
     do { len1 \<leftarrow> chk32 (len + 4);
          case p of
            Some data \<Rightarrow> do { l \<leftarrow> msg_len (length data); len2 \<leftarrow> chk32 (len1 + l); bind_params_len len2 ps }
          | None \<Rightarrow> bind_params_len len1 ps }"

fun bind_param_values :: "bytes option list \<Rightarrow> bytes option" where
  "bind_param_values [] = Some []"
| "bind_param_values (p # ps) =
     do { rest \<leftarrow> bind_param_values ps;
          case p of
            Some data \<Rightarrow> do { l \<leftarrow> msg_len (length data); Some (put_i32 l @ data @ rest) }
          | None \<Rightarrow> Some (put_i32 (-1) @ rest) }"

definition bind_msg ::
  "string \<Rightarrow> string \<Rightarrow> i16 list \<Rightarrow> bytes option list \<Rightarrow> i16 list \<Rightarrow> bytes \<Rightarrow> bytes option" where
  "bind_msg portal statement param_formats params result_formats buf =
     do { lp \<leftarrow> msg_len (length portal);
          ls \<leftarrow> msg_len (length statement);
          lf \<leftarrow> msg_len (length param_formats);
          lf2 \<leftarrow> chk32 (lf * 2);
          len0 \<leftarrow> chk_sum 4 [lp, 1, ls, 1, 2, lf2, 2];
          len1 \<leftarrow> bind_params_len len0 params;
          len2 \<leftarrow> chk32 (len1 + 2);
          lr \<leftarrow> msg_len (length result_formats);
          lr2 \<leftarrow> chk32 (lr * 2);
          len \<leftarrow> chk32 (len2 + lr2);
          nf \<leftarrow> msg_count (length param_formats);
          np \<leftarrow> msg_count (length params);
          vals \<leftarrow> bind_param_values params;
          nr \<leftarrow> msg_count (length result_formats);
          Some (buf @ [byte_of CHR ''B''] @ put_i32 len @ as_bytes portal @ [0] @ as_bytes statement @ [0] @
            to_be_bytes nf @ concat (map to_be_bytes param_formats) @
            to_be_bytes np @ vals @
            to_be_bytes nr @ concat (map to_be_bytes result_formats)) }"

definition describe :: "u8 \<Rightarrow> string \<Rightarrow> bytes \<Rightarrow> bytes option" where
  "describe kind name buf =
     do { l \<leftarrow> msg_len (length name);
          len \<leftarrow> chk_sum 4 [1, l, 1];
          Some (buf @ [byte_of CHR ''D''] @ put_i32 len @ [kind] @ as_bytes name @ [0]) }"

definition execute :: "string \<Rightarrow> i32 \<Rightarrow> bytes \<Rightarrow> bytes option" where
  "execute portal max_rows buf =
     do { l \<leftarrow> msg_len (length portal);
          len \<leftarrow> chk_sum 4 [l, 1, 4];
          Some (buf @ [byte_of CHR ''E''] @ put_i32 len @ as_bytes portal @ [0] @ to_be_bytes max_rows) }"

definition sync :: "bytes \<Rightarrow> bytes" where
  "sync buf = buf @ [byte_of CHR ''S''] @ put_i32 4"

definition flush_msg :: "bytes \<Rightarrow> bytes" where
  "flush_msg buf = buf @ [byte_of CHR ''H''] @ put_i32 4"

definition close :: "u8 \<Rightarrow> string \<Rightarrow> bytes \<Rightarrow> bytes option" where
  "close kind name buf =
     do { l \<leftarrow> msg_len (length name);
          len \<leftarrow> chk_sum 4 [1, l, 1];
          Some (buf @ [byte_of CHR ''C''] @ put_i32 len @ [kind] @ as_bytes name @ [0]) }"

definition terminate_msg :: "bytes \<Rightarrow> bytes" where
  "terminate_msg buf = buf @ [byte_of CHR ''X''] @ put_i32 4"

definition cancel_request :: "i32 \<Rightarrow> i32 \<Rightarrow> bytes \<Rightarrow> bytes" where
  "cancel_request process_id secret_key buf =
     buf @ put_i32 16 @ put_i32 80877102 @ to_be_bytes process_id @ to_be_bytes secret_key"

definition ssl_request :: "bytes \<Rightarrow> bytes" where
  "ssl_request buf = buf @ put_i32 8 @ put_i32 80877103"

definition copy_data :: "bytes \<Rightarrow> bytes \<Rightarrow> bytes option" where
  "copy_data data buf =
     do { l \<leftarrow> msg_len (length data);
          len \<leftarrow> chk_sum 4 [l];
          Some (buf @ [byte_of CHR ''d''] @ put_i32 len @ data) }"

definition copy_done :: "bytes \<Rightarrow> bytes" where
  "copy_done buf = buf @ [byte_of CHR ''c''] @ put_i32 4"

definition copy_fail :: "string \<Rightarrow> bytes \<Rightarrow> bytes option" where
  "copy_fail message buf =
     do { l \<leftarrow> msg_len (length message);
          len \<leftarrow> chk_sum 4 [l, 1];
          Some (buf @ [byte_of CHR ''f''] @ put_i32 len @ as_bytes message @ [0]) }"

section \<open>The messages and their frames\<close>

datatype frontend_message =
    PasswordMessage string
  | SaslInitialResponse string bytes
  | SaslResponse bytes
  | Query string
  | Parse string string "u32 list"
  | Bind string string "i16 list" "bytes option list" "i16 list"
  | Describe u8 string
  | Execute string i32
  | Sync
  | Flush
  | Close u8 string
  | Terminate
  | CopyData bytes
  | CopyDone
  | CopyFail string

fun encode :: "frontend_message \<Rightarrow> bytes \<Rightarrow> bytes option" where
  "encode (PasswordMessage p) buf = password_message p buf"
| "encode (SaslInitialResponse m d) buf = sasl_initial_response m d buf"
| "encode (SaslResponse d) buf = sasl_response d buf"
| "encode (Query q) buf = query q buf"
| "encode (Parse n q ts) buf = parse n q ts buf"
| "encode (Bind p s fs ps rs) buf = bind_msg p s fs ps rs buf"
| "encode (Describe k n) buf = describe k n buf"
| "encode (Execute p m) buf = execute p m buf"
| "encode Sync buf = Some (sync buf)"
| "encode Flush buf = Some (flush_msg buf)"
| "encode (Close k n) buf = close k n buf"
| "encode Terminate buf = Some (terminate_msg buf)"
| "encode (CopyData d) buf = copy_data d buf"
| "encode CopyDone buf = Some (copy_done buf)"
| "encode (CopyFail m) buf = copy_fail m buf"

fun message_tag :: "frontend_message \<Rightarrow> char" where
  "message_tag (PasswordMessage p) = CHR ''p''"
| "message_tag (SaslInitialResponse m d) = CHR ''p''"
| "message_tag (SaslResponse d) = CHR ''p''"
| "message_tag (Query q) = CHR ''Q''"
| "message_tag (Parse n q ts) = CHR ''P''"
| "message_tag (Bind p s fs ps rs) = CHR ''B''"
| "message_tag (Describe k n) = CHR ''D''"
| "message_tag (Execute p m) = CHR ''E''"
| "message_tag Sync = CHR ''S''"
| "message_tag Flush = CHR ''H''"
| "message_tag (Close k n) = CHR ''C''"
| "message_tag Terminate = CHR ''X''"
| "message_tag (CopyData d) = CHR ''d''"
| "message_tag CopyDone = CHR ''c''"
| "message_tag (CopyFail m) = CHR ''f''"

text \<open>One parameter value of \<open>Bind\<close>, and the body of every message.\<close>

fun param_bytes :: "bytes option \<Rightarrow> bytes" where
  "param_bytes None = put_i32 (-1)"
| "param_bytes (Some d) = put_i32 (int (length d)) @ d"

fun message_body :: "frontend_message \<Rightarrow> bytes" where
  "message_body (PasswordMessage p) = as_bytes p @ [0]"
| "message_body (SaslInitialResponse m d) = as_bytes m @ [0] @ put_i32 (int (length d)) @ d"
| "message_body (SaslResponse d) = d"
| "message_body (Query q) = as_bytes q @ [0]"
| "message_body (Parse n q ts) = as_bytes n @ [0] @ as_bytes q @ [0] @
     to_be_bytes (word_of_nat (length ts) :: i16) @ concat (map to_be_bytes ts)"
| "message_body (Bind p s fs ps rs) = as_bytes p @ [0] @ as_bytes s @ [0] @
     to_be_bytes (word_of_nat (length fs) :: i16) @ concat (map to_be_bytes fs) @
     to_be_bytes (word_of_nat (length ps) :: i16) @ concat (map param_bytes ps) @
     to_be_bytes (word_of_nat (length rs) :: i16) @ concat (map to_be_bytes rs)"
| "message_body (Describe k n) = [k] @ as_bytes n @ [0]"
| "message_body (Execute p m) = as_bytes p @ [0] @ to_be_bytes m"
| "message_body Sync = []"
| "message_body Flush = []"
| "message_body (Close k n) = [k] @ as_bytes n @ [0]"
| "message_body Terminate = []"
| "message_body (CopyData d) = d"
| "message_body CopyDone = []"
| "message_body (CopyFail m) = as_bytes m @ [0]"

definition frame :: "char \<Rightarrow> bytes \<Rightarrow> bytes" where
  "frame tag body = byte_of tag # put_i32 (int (4 + length body)) @ body"

text \<open>The counts of \<open>Parse\<close> and \<open>Bind\<close> fit their 16-bit fields.\<close>

fun counts_ok :: "frontend_message \<Rightarrow> bool" where
  "counts_ok (Parse n q ts) \<longleftrightarrow> length ts < 2 ^ 16"
| "counts_ok (Bind p s fs ps rs) \<longleftrightarrow>
     length fs < 2 ^ 16 \<and> length ps < 2 ^ 16 \<and> length rs < 2 ^ 16"
| "counts_ok _ \<longleftrightarrow> True"

section \<open>Lengths without overflow\<close>

lemma length_put_i32 [simp]: "length (put_i32 x) = 4"
  by (simp add: put_i32_def)

lemma put_i32_nat: "put_i32 (int n) = to_be_bytes (word_of_nat n :: u32)"
  by (simp add: put_i32_def)

lemma chk_sum_nonneg:
  assumes "0 \<le> a" "list_all (\<lambda>x. 0 \<le> x) xs"
  shows "chk_sum a xs = (if xs = [] \<or> a + sum_list xs < 2 ^ 31 then Some (a + sum_list xs) else None)"
  using assms
proof (induction xs arbitrary: a)
  case (Cons x xs)
  have nn: "0 \<le> sum_list xs"
    using Cons.prems by (intro sum_list_nonneg) (auto simp: list_all_iff)
  show ?case
  proof (cases "a + x < 2 ^ 31")
    case True
    with Cons nn show ?thesis
      by (auto simp: chk32_def in_i32_def add.assoc)
  next
    case False
    with nn show ?thesis
      by (auto simp: chk32_def in_i32_def)
  qed
qed simp

declare chk_sum.simps [simp del]

lemma msg_len_eq: "msg_len n = (if int n < 2 ^ 31 then Some (int n) else None)"
  by (auto simp: msg_len_def)

fun param_len :: "bytes option \<Rightarrow> nat" where
  "param_len None = 4"
| "param_len (Some d) = 4 + length d"

lemma length_param_bytes [simp]: "length (param_bytes p) = param_len p"
  by (cases p) auto

lemma bind_params_len_eq:
  assumes "0 \<le> a" "a < 2 ^ 31"
  shows "bind_params_len a ps =
     (if a + int (sum_list (map param_len ps)) < 2 ^ 31
      then Some (a + int (sum_list (map param_len ps))) else None)"
  using assms
proof (induction ps arbitrary: a)
  case (Cons p ps)
  then show ?case
    by (cases p) (auto simp: chk32_def in_i32_def msg_len_eq add.assoc)
qed simp

lemma bind_param_values_eq:
  assumes "sum_list (map param_len ps) < 2 ^ 31"
  shows "bind_param_values ps = Some (concat (map param_bytes ps))"
  using assms
proof (induction ps)
  case (Cons p ps)
  then show ?case
    by (cases p) (auto simp: msg_len_def)
qed simp

lemma length_concat_be16 [simp]: "length (concat (map to_be_bytes (xs :: 16 word list))) = 2 * length xs"
  by (induction xs) auto

lemma length_concat_be32 [simp]: "length (concat (map to_be_bytes (xs :: 32 word list))) = 4 * length xs"
  by (induction xs) auto

lemma length_concat_params [simp]:
  "length (concat (map param_bytes ps)) = sum_list (map param_len ps)"
  by (induction ps) auto

section \<open>Every writer emits one frame, or panics on an oversized message\<close>

text \<open>What a writer does: it appends the frame when the length fits an \<open>i32\<close>.\<close>

definition framed :: "frontend_message \<Rightarrow> bytes \<Rightarrow> bytes option" where
  "framed m buf =
     (if counts_ok m \<and> 4 + length (message_body m) < 2 ^ 31
      then Some (buf @ frame (message_tag m) (message_body m)) else None)"

lemmas frame_simps = framed_def frame_def chk_sum_nonneg msg_len_eq

lemma password_message_framed: "password_message p buf = framed (PasswordMessage p) buf"
  by (auto simp: password_message_def frame_simps)

lemma sasl_initial_response_framed:
  "sasl_initial_response m d buf = framed (SaslInitialResponse m d) buf"
  by (auto simp: sasl_initial_response_def frame_simps)

lemma sasl_response_framed: "sasl_response d buf = framed (SaslResponse d) buf"
  by (auto simp: sasl_response_def frame_simps)

lemma query_framed: "query q buf = framed (Query q) buf"
  by (auto simp: query_def frame_simps)

lemma parse_framed: "parse n q ts buf = framed (Parse n q ts) buf"
  by (auto simp: parse_def frame_simps msg_count_def chk32_def in_i32_def)
     (simp add: algebra_simps)

lemma describe_framed: "describe k n buf = framed (Describe k n) buf"
  by (auto simp: describe_def frame_simps)

lemma execute_framed: "execute p m buf = framed (Execute p m) buf"
  by (auto simp: execute_def frame_simps)

lemma close_framed: "close k n buf = framed (Close k n) buf"
  by (auto simp: close_def frame_simps)

lemma copy_data_framed: "copy_data d buf = framed (CopyData d) buf"
  by (auto simp: copy_data_def frame_simps)

lemma copy_fail_framed: "copy_fail m buf = framed (CopyFail m) buf"
  by (auto simp: copy_fail_def frame_simps)

lemma fixed_framed:
  "sync buf = buf @ frame (message_tag Sync) (message_body Sync)"
  "flush_msg buf = buf @ frame (message_tag Flush) (message_body Flush)"
  "terminate_msg buf = buf @ frame (message_tag Terminate) (message_body Terminate)"
  "copy_done buf = buf @ frame (message_tag CopyDone) (message_body CopyDone)"
  by (simp_all add: sync_def flush_msg_def terminate_msg_def copy_done_def frame_def)

lemma bind_msg_framed: "bind_msg p s fs ps rs buf = framed (Bind p s fs ps rs) buf"
proof (cases "4 + length (message_body (Bind p s fs ps rs)) < 2 ^ 31")
  case True
  then have "sum_list (map param_len ps) < 2 ^ 31" by simp
  with True show ?thesis
    by (auto simp: bind_msg_def frame_simps msg_count_def chk32_def in_i32_def
        bind_params_len_eq bind_param_values_eq)
       (simp add: algebra_simps)
next
  case False
  have "bind_msg p s fs ps rs buf \<noteq> Some out" for out
  proof
    assume "bind_msg p s fs ps rs buf = Some out"
    then have "4 + length (message_body (Bind p s fs ps rs)) < 2 ^ 31"
      by (auto simp: bind_msg_def chk_sum_nonneg msg_len_eq msg_count_def chk32_def in_i32_def
          bind_params_len_eq bind_eq_Some_conv split: if_splits)
    with False show False by simp
  qed
  then have "bind_msg p s fs ps rs buf = None"
    by (cases "bind_msg p s fs ps rs buf") auto
  with False show ?thesis
    by (simp add: framed_def)
qed

section \<open>Reading a message back\<close>

text \<open>The reader of the documented bodies. The three messages with tag \<open>p\<close> share it and are
  told apart by the authentication exchange only, so they are not read here.\<close>

definition get_cstr :: "bytes \<Rightarrow> (string \<times> bytes) option" where
  "get_cstr bs = (case memchr 0 bs of
      None \<Rightarrow> None
    | Some p \<Rightarrow> Some (map char_of_byte (take p bs), drop (Suc p) bs))"

definition get_be :: "nat \<Rightarrow> bytes \<Rightarrow> ('a::len word \<times> bytes) option" where
  "get_be k bs = (if length bs < k then None else Some (from_be_bytes (take k bs), drop k bs))"

fun get_many :: "(bytes \<Rightarrow> ('v \<times> bytes) option) \<Rightarrow> nat \<Rightarrow> bytes \<Rightarrow> ('v list \<times> bytes) option" where
  "get_many g 0 bs = Some ([], bs)"
| "get_many g (Suc n) bs = do { (v, r) \<leftarrow> g bs; (vs, r') \<leftarrow> get_many g n r; Some (v # vs, r') }"

definition get_param :: "bytes \<Rightarrow> (bytes option \<times> bytes) option" where
  "get_param bs = do {
     (w, r) \<leftarrow> (get_be 4 bs :: (i32 \<times> bytes) option);
     (if sint w < 0 then Some (None, r)
      else if length r < nat (sint w) then None
      else Some (Some (take (nat (sint w)) r), drop (nat (sint w)) r)) }"

definition get_counted :: "(bytes \<Rightarrow> ('v \<times> bytes) option) \<Rightarrow> bytes \<Rightarrow> ('v list \<times> bytes) option" where
  "get_counted g bs = do { (n, r) \<leftarrow> (get_be 2 bs :: (u16 \<times> bytes) option); get_many g (unat n) r }"

definition finish :: "('v \<Rightarrow> frontend_message) \<Rightarrow> 'v \<times> bytes \<Rightarrow> frontend_message option" where
  "finish f = (\<lambda>(v, r). if r = [] then Some (f v) else None)"

definition decode_body :: "u8 \<Rightarrow> bytes \<Rightarrow> frontend_message option" where
  "decode_body tag body =
     (if tag = byte_of CHR ''Q'' then do { x \<leftarrow> get_cstr body; finish Query x }
      else if tag = byte_of CHR ''P'' then
        do { (n, r1) \<leftarrow> get_cstr body; (q, r2) \<leftarrow> get_cstr r1;
             x \<leftarrow> get_counted (get_be 4) r2; finish (Parse n q) x }
      else if tag = byte_of CHR ''B'' then
        do { (p, r1) \<leftarrow> get_cstr body; (st, r2) \<leftarrow> get_cstr r1;
             (fs, r3) \<leftarrow> get_counted (get_be 2) r2; (ps, r4) \<leftarrow> get_counted get_param r3;
             x \<leftarrow> get_counted (get_be 2) r4; finish (Bind p st fs ps) x }
      else if tag = byte_of CHR ''D'' then
        do { (k, r1) \<leftarrow> get_be 1 body; x \<leftarrow> get_cstr r1; finish (Describe k) x }
      else if tag = byte_of CHR ''E'' then
        do { (p, r1) \<leftarrow> get_cstr body; x \<leftarrow> get_be 4 r1; finish (Execute p) x }
      else if tag = byte_of CHR ''S'' then finish (\<lambda>_. Sync) ((), body)
      else if tag = byte_of CHR ''H'' then finish (\<lambda>_. Flush) ((), body)
      else if tag = byte_of CHR ''C'' then
        do { (k, r1) \<leftarrow> get_be 1 body; x \<leftarrow> get_cstr r1; finish (Close k) x }
      else if tag = byte_of CHR ''X'' then finish (\<lambda>_. Terminate) ((), body)
      else if tag = byte_of CHR ''d'' then Some (CopyData body)
      else if tag = byte_of CHR ''c'' then finish (\<lambda>_. CopyDone) ((), body)
      else if tag = byte_of CHR ''f'' then do { x \<leftarrow> get_cstr body; finish CopyFail x }
      else None)"

definition decode_frontend :: "bytes \<Rightarrow> (frontend_message \<times> bytes) option" where
  "decode_frontend bs =
     (if length bs < 5 then None
      else let len = unat (from_be_bytes (take 4 (drop 1 bs)) :: u32)
           in if len < 4 \<or> length bs < 1 + len then None
              else map_option (\<lambda>m. (m, drop (1 + len) bs))
                     (decode_body (bs ! 0) (take (len - 4) (drop 5 bs))))"

text \<open>The strings of the message have no NUL, and the message is not one of the \<open>p\<close> group.\<close>

definition nul_free :: "string \<Rightarrow> bool" where
  "nul_free s \<longleftrightarrow> CHR 0x00 \<notin> set s"

fun readable :: "frontend_message \<Rightarrow> bool" where
  "readable (PasswordMessage p) \<longleftrightarrow> False"
| "readable (SaslInitialResponse m d) \<longleftrightarrow> False"
| "readable (SaslResponse d) \<longleftrightarrow> False"
| "readable (Query q) \<longleftrightarrow> nul_free q"
| "readable (Parse n q ts) \<longleftrightarrow> nul_free n \<and> nul_free q"
| "readable (Bind p s fs ps rs) \<longleftrightarrow> nul_free p \<and> nul_free s"
| "readable (Describe k n) \<longleftrightarrow> nul_free n"
| "readable (Execute p m) \<longleftrightarrow> nul_free p"
| "readable (Close k n) \<longleftrightarrow> nul_free n"
| "readable (CopyFail m) \<longleftrightarrow> nul_free m"
| "readable _ \<longleftrightarrow> True"

lemma zero_notin_as_bytes: "nul_free s \<Longrightarrow> 0 \<notin> set (as_bytes s)"
proof -
  have "byte_of (CHR 0x00) = 0" by (simp add: byte_of_def)
  then show "nul_free s \<Longrightarrow> 0 \<notin> set (as_bytes s)"
    by (metis (no_types, lifting) as_bytes_def byte_of_eq_iff image_iff list.set_map nul_free_def)
qed

lemma map_char_of_as_bytes [simp]: "map char_of_byte (as_bytes s) = s"
  by (simp add: as_bytes_def o_def)

lemma get_cstr_as_bytes [simp]: "nul_free s \<Longrightarrow> get_cstr (as_bytes s @ 0 # r) = Some (s, r)"
  by (simp add: get_cstr_def zero_notin_as_bytes)

lemma get_be_to_be [simp]:
  "get_be (Suc 0) (k # r) = Some (k :: u8, r)"
  "get_be 2 (to_be_bytes (a :: 16 word) @ r) = Some (a, r)"
  "get_be 4 (to_be_bytes (b :: 32 word) @ r) = Some (b, r)"
  "get_be 4 (to_be_bytes (b :: 32 word)) = Some (b, [])"
  by (simp_all add: get_be_def)

lemma get_many_concat:
  assumes "\<And>v r. v \<in> set vs \<Longrightarrow> g (e v @ r) = Some (v, r)"
  shows "get_many g (length vs) (concat (map e vs) @ r) = Some (vs, r)"
  using assms by (induction vs) auto

lemma get_counted_concat:
  assumes "\<And>v r. v \<in> set vs \<Longrightarrow> g (e v @ r) = Some (v, r)" "length vs < 2 ^ 16"
  shows "get_counted g (to_be_bytes (word_of_nat (length vs) :: u16) @ concat (map e vs) @ r) = Some (vs, r)"
  using assms(2) get_many_concat [OF assms(1)]
  by (simp add: get_counted_def unat_of_nat)

lemma get_param_bytes:
  assumes "case p of Some d \<Rightarrow> length d < 2 ^ 31 | None \<Rightarrow> True"
  shows "get_param (param_bytes p @ r) = Some (p, r)"
proof (cases p)
  case (Some d)
  with assms have "sint (word_of_int (int (length d)) :: i32) = int (length d)"
    by (intro sint_word_of_int_i32) (simp add: in_i32_def)
  with Some show ?thesis by (simp add: get_param_def put_i32_def)
qed (simp add: get_param_def put_i32_def)

lemma param_len_le: "p \<in> set ps \<Longrightarrow> param_len p \<le> sum_list (map param_len ps)"
  by (intro member_le_sum_list) auto

lemma get_params_bytes:
  assumes "sum_list (map param_len ps) < 2 ^ 31" "length ps < 2 ^ 16"
  shows "get_counted get_param (to_be_bytes (word_of_nat (length ps) :: u16) @
     concat (map param_bytes ps) @ r) = Some (ps, r)"
proof (rule get_counted_concat [OF _ assms(2)])
  fix p r
  assume "p \<in> set ps"
  from param_len_le [OF this] assms(1) show "get_param (param_bytes p @ r) = Some (p, r)"
    by (intro get_param_bytes) (auto split: option.split)
qed

lemmas get_counted_be =
  get_counted_concat [where g = "get_be 4" and e = "to_be_bytes :: u32 \<Rightarrow> bytes" and r = "[]", simplified]
  get_counted_concat [where g = "get_be 2" and e = "to_be_bytes :: i16 \<Rightarrow> bytes", simplified]
  get_counted_concat [where g = "get_be 2" and e = "to_be_bytes :: i16 \<Rightarrow> bytes" and r = "[]", simplified]

lemma decode_body_message:
  assumes "readable m" "counts_ok m" "4 + length (message_body m) < 2 ^ 31"
  shows "decode_body (byte_of (message_tag m)) (message_body m) = Some m"
  using assms
  by (cases m) (auto simp: decode_body_def finish_def get_counted_be get_params_bytes)

lemma length_frame [simp]: "length (frame tag body) = 5 + length body"
  by (simp add: frame_def)

lemma decode_frontend_frame:
  assumes "4 + length body < 2 ^ 31"
  shows "decode_frontend (frame tag body @ rest) =
     map_option (\<lambda>m. (m, rest)) (decode_body (byte_of tag) body)"
proof -
  have "unat (from_be_bytes (take 4 (drop 1 (frame tag body @ rest))) :: u32) = 4 + length body"
    using assms by (simp add: frame_def put_i32_nat unat_of_nat del: of_nat_add of_nat_numeral)
  moreover have "(frame tag body @ rest) ! 0 = byte_of tag"
    by (simp add: frame_def)
  moreover have "take (length body) (drop 5 (frame tag body @ rest)) = body"
    by (simp add: frame_def)
  ultimately show ?thesis
    by (simp add: decode_frontend_def Let_def)
qed

lemma encode_framed: "encode m buf = framed m buf"
  by (cases m) (simp_all add: password_message_framed sasl_initial_response_framed sasl_response_framed
      query_framed parse_framed describe_framed execute_framed close_framed copy_data_framed
      copy_fail_framed fixed_framed bind_msg_framed, simp_all add: framed_def)

section \<open>Properties\<close>



text \<open>When the writers panic: exactly when the message length would not fit the \<open>i32\<close> length
  field, or a \<open>Parse\<close> or \<open>Bind\<close> has more than 65535 entries in a list. Every other
  message is appended with its exact length.\<close>

theorem encode_panics_iff:
  "encode m buf =
     (if counts_ok m \<and> 4 + length (message_body m) < 2 ^ 31
      then Some (buf @ frame (message_tag m) (message_body m)) else None)"
  by (simp add: encode_framed framed_def)

end
