(* ===== verification/Calendar.thy ===== *)
theory Calendar
  imports Rust_Prelude
begin

text \<open>
  The proleptic Gregorian calendar as arithmetic, free of any machine integer: years that
  begin in March, so that the leap day is the last day of a year. \<open>civil Y e\<close> counts the days
  up to day \<open>e\<close> of the March year \<open>Y\<close>. The two decompositions below are what the Julian day
  conversions of \<open>hyperdb-api-core/src/types/special.rs\<close> rest on.
\<close>

section \<open>Years and months\<close>

definition leap :: "int \<Rightarrow> bool" where
  "leap y \<longleftrightarrow> y mod 4 = 0 \<and> (y mod 100 \<noteq> 0 \<or> y mod 400 = 0)"

definition days_in_month :: "int \<Rightarrow> int \<Rightarrow> int" where
  "days_in_month y m =
     (if m = 2 then (if leap y then 29 else 28) else if m \<in> {4, 6, 9, 11} then 30 else 31)"

definition valid_ymd :: "int \<Rightarrow> int \<Rightarrow> int \<Rightarrow> bool" where
  "valid_ymd y m d \<longleftrightarrow> 1 \<le> m \<and> m \<le> 12 \<and> 1 \<le> d \<and> d \<le> days_in_month y m"

definition civil :: "int \<Rightarrow> int \<Rightarrow> int" where
  "civil Y e = 365 * Y + Y div 4 - Y div 100 + Y div 400 + e"

section \<open>Quotients\<close>

lemma quotE:
  fixes x n :: int
  assumes "0 < n"
  obtains q where "x div n = q" "n * q \<le> x" "x < n * q + n"
proof
  show "x div n = x div n" ..
  have "x mod n = x - n * (x div n)" by (simp add: minus_mult_div_eq_mod)
  then show "n * (x div n) \<le> x" "x < n * (x div n) + n"
    using pos_mod_sign [OF assms, of x] pos_mod_bound [OF assms, of x] by linarith+
qed

lemma div_const_facts:
  fixes b k :: int
  shows "146097 * b div 4 = b div 4 + 36524 * b" "1461 * k div 4 = k div 4 + 365 * k"
    "(k + 100 * b) div 4 = k div 4 + 25 * b"
proof -
  have eqs: "146097 * b = b + 4 * (36524 * b)" "1461 * k = k + 4 * (365 * k)"
    "k + 100 * b = k + 4 * (25 * b)" by simp_all
  show "146097 * b div 4 = b div 4 + 36524 * b" unfolding eqs by (subst div_mult_self2) simp_all
  show "1461 * k div 4 = k div 4 + 365 * k" unfolding eqs by (subst div_mult_self2) simp_all
  show "(k + 100 * b) div 4 = k div 4 + 25 * b" unfolding eqs by (subst div_mult_self2) simp_all
qed

lemma quarter_facts:
  fixes b :: int
  shows "4 * (b div 4) = b - b mod 4" "0 \<le> b mod 4" "b mod 4 \<le> 3"
  using minus_mod_eq_mult_div [of b 4] pos_mod_bound [of 4 b] by simp_all

section \<open>Recovering the year and the day\<close>

lemma leap_next:
  fixes b k :: int
  assumes "0 \<le> k" "k < 100"
  shows "leap (100 * b + k + 1) \<longleftrightarrow> k mod 4 = 3 \<and> (k = 99 \<longrightarrow> b mod 4 = 3)"
proof -
  have "100 * b + k + 1 = (k + 1) + 4 * (25 * b)" by simp
  then have m4: "(100 * b + k + 1) mod 4 = 0 \<longleftrightarrow> k mod 4 = 3"
    by (simp only: mod_mult_self2) presburger
  show ?thesis
  proof (cases "k = 99")
    case True
    have "(100 * (b + 1)) mod (100 * 4) = 100 * ((b + 1) mod 4)" by (rule mod_mult_mult1)
    moreover have "(b + 1) mod 4 = 0 \<longleftrightarrow> b mod 4 = 3" by presburger
    ultimately show ?thesis using True m4 by (simp add: leap_def algebra_simps)
  next
    case False
    have "100 * b + k + 1 = (k + 1) + 100 * b" by simp
    then have "(100 * b + k + 1) mod 100 = (k + 1) mod 100" by (simp only: mod_mult_self2)
    then have "(100 * b + k + 1) mod 100 = k + 1" using assms False by simp
    then show ?thesis using assms False m4 by (simp add: leap_def)
  qed
qed

lemma civil_parts:
  "civil Y e = 146097 * (Y div 100) div 4 + 1461 * (Y mod 100) div 4 + e"
proof -
  have "Y div 4 = Y mod 100 div 4 + 25 * (Y div 100)"
    using div_const_facts(3) [of "Y mod 100" "Y div 100"] by simp
  moreover have "Y div 400 = Y div 100 div 4"
    using zdiv_zmult2_eq [of 4 Y 100] by simp
  moreover have "Y = Y mod 100 + 100 * (Y div 100)" by simp
  ultimately show ?thesis
    unfolding civil_def div_const_facts by linarith
qed

lemma century_of:
  fixes b c :: int
  assumes "0 \<le> c" "c \<le> 36523 \<or> c = 36524 \<and> b mod 4 = 3"
  shows "(4 * (146097 * b div 4 + c) + 3) div 146097 = b"
proof -
  show ?thesis using assms quarter_facts [of b] unfolding div_const_facts by (intro int_div_pos_eq [where r = "4 * c + 3 - b mod 4"]) auto
qed

lemma year_of:
  fixes k e :: int
  assumes "0 \<le> e" "e \<le> 364 \<or> e = 365 \<and> k mod 4 = 3"
  shows "(4 * (1461 * k div 4 + e) + 3) div 1461 = k"
proof -
  show ?thesis using assms quarter_facts [of k] unfolding div_const_facts by (intro int_div_pos_eq [where r = "4 * e + 3 - k mod 4"]) auto
qed

lemma civil_decode:
  assumes "0 \<le> e" "e \<le> 364 \<or> e = 365 \<and> leap (Y + 1)"
  defines "a \<equiv> civil Y e"
  shows "(4 * a + 3) div 146097 = Y div 100"
    and "(4 * (a - 146097 * (Y div 100) div 4) + 3) div 1461 = Y mod 100"
    and "a - 146097 * (Y div 100) div 4 - 1461 * (Y mod 100) div 4 = e"
proof -
  define b k where "b = Y div 100" and "k = Y mod 100"
  have k: "0 \<le> k" "k < 100" by (simp_all add: k_def)
  have Y: "Y = 100 * b + k" by (simp add: b_def k_def)
  have l: "k mod 4 = 3 \<and> (k = 99 \<longrightarrow> b mod 4 = 3)" if "e = 365"
  proof -
    have "leap (Y + 1)" using assms that by auto
    then show ?thesis unfolding Y using leap_next [OF k] by simp
  qed
  have c: "1461 * k div 4 + e \<le> 36523 \<or> 1461 * k div 4 + e = 36524 \<and> b mod 4 = 3"
  proof (cases "k = 99")
    case True
    then show ?thesis using assms l by auto
  next
    case False
    then have "1461 * k div 4 \<le> 1461 * 98 div 4" using k by (intro zdiv_mono1) auto
    then show ?thesis using assms(2) by auto
  qed
  have a: "a = 146097 * b div 4 + (1461 * k div 4 + e)"
    by (simp add: a_def civil_parts b_def k_def)
  have c0: "0 \<le> 1461 * k div 4 + e" using k assms(1) by simp
  show "(4 * a + 3) div 146097 = Y div 100"
    unfolding a using century_of [OF c0 c] by (simp add: b_def)
  show "(4 * (a - 146097 * (Y div 100) div 4) + 3) div 1461 = Y mod 100"
    using year_of [OF assms(1), of k] assms(2) l unfolding a by (auto simp: b_def k_def)
  show "a - 146097 * (Y div 100) div 4 - 1461 * (Y mod 100) div 4 = e"
    unfolding a by (simp add: b_def k_def)
qed

lemma civil_encode:
  fixes a :: int
  assumes "0 \<le> a"
  defines "b \<equiv> (4 * a + 3) div 146097"
  defines "c \<equiv> a - 146097 * b div 4"
  defines "k \<equiv> (4 * c + 3) div 1461"
  defines "e \<equiv> c - 1461 * k div 4"
  shows "0 \<le> b" "0 \<le> k" "k < 100" "0 \<le> e" "e \<le> 364 \<or> e = 365 \<and> leap (100 * b + k + 1)" "civil (100 * b + k) e = a"
proof -
  have b: "146097 * b \<le> 4 * a + 3" "4 * a + 3 < 146097 * b + 146097"
    unfolding b_def by linarith+
  show "0 \<le> b" using assms(1) by (simp add: b_def)
  have q: "4 * (146097 * b div 4) = 146097 * b - b mod 4"
    using quarter_facts(1) [of b] by (simp add: div_const_facts(1))
  note bm = quarter_facts(2,3) [of b]
  obtain X where X: "146097 * b div 4 = X" by simp
  have "0 \<le> c"
    using b(1) q bm by (simp add: c_def X)
  moreover have "4 * c \<le> 146093 + b mod 4"
    using b(2) q unfolding c_def X right_diff_distrib by linarith
  ultimately have c: "0 \<le> c" "4 * c \<le> 146093 + b mod 4" .
  have k1: "1461 * k \<le> 4 * c + 3" "4 * c + 3 < 1461 * k + 1461"
    unfolding k_def by linarith+
  show k: "0 \<le> k" "k < 100" using c bm k1 by linarith+
  have q2: "4 * (1461 * k div 4) = 1461 * k - k mod 4"
    using quarter_facts(1) [of k] by (simp add: div_const_facts(2))
  note km = quarter_facts(2,3) [of k]
  obtain Z where Z: "1461 * k div 4 = Z" by simp
  show e0: "0 \<le> e" using k1 q2 km unfolding e_def Z by linarith
  have e: "4 * e \<le> 1457 + k mod 4"
    using k1(2) q2 unfolding e_def Z right_diff_distrib by linarith
  show "e \<le> 364 \<or> e = 365 \<and> leap (100 * b + k + 1)"
  proof (cases "e \<le> 364")
    case False
    then have e': "e = 365" "k mod 4 = 3" using e km by linarith+
    have "k = 99 \<longrightarrow> b mod 4 = 3"
    proof
      assume "k = 99"
      then have "c = 36524" using e' unfolding e_def by simp
      then show "b mod 4 = 3" using c bm by linarith
    qed
    then have "leap (100 * b + k + 1)" using e' leap_next [OF k] by simp
    then show ?thesis using e' by simp
  qed simp
  have "(100 * b + k) div 100 = b" "(100 * b + k) mod 100 = k" using k by simp_all
  then show "civil (100 * b + k) e = a" by (simp add: civil_parts e_def c_def)
qed

section \<open>Months of a March year\<close>

lemma month_day:
  fixes mm d :: int
  assumes "0 \<le> mm" "mm \<le> 11" "1 \<le> d" "d \<le> (153 * (mm + 1) + 2) div 5 - (153 * mm + 2) div 5"
  shows "(5 * ((153 * mm + 2) div 5 + d - 1) + 2) div 153 = mm"
proof -
  obtain M where M: "(153 * mm + 2) div 5 = M" "5 * M \<le> 153 * mm + 2" "153 * mm + 2 < 5 * M + 5"
    by (rule quotE [of 5 "153 * mm + 2"]) auto
  obtain M' where M': "(153 * (mm + 1) + 2) div 5 = M'" "5 * M' \<le> 153 * (mm + 1) + 2"
    by (rule quotE [of 5 "153 * (mm + 1) + 2"]) auto
  show ?thesis
    using assms(3,4) M M' unfolding M(1) M'(1)
    by (intro int_div_pos_eq [where r = "5 * (M + d - 1) + 2 - 153 * mm"]) auto
qed

lemma month_day_back:
  fixes e :: int
  assumes "0 \<le> e" "e \<le> 365"
  defines "mm \<equiv> (5 * e + 2) div 153"
  defines "d \<equiv> e - (153 * mm + 2) div 5 + 1"
  shows "0 \<le> mm" "mm \<le> 11" "1 \<le> d" "d \<le> (153 * (mm + 1) + 2) div 5 - (153 * mm + 2) div 5" "d \<le> 31"
proof -
  obtain q where "(5 * e + 2) div 153 = q" "153 * q \<le> 5 * e + 2" "5 * e + 2 < 153 * q + 153"
    by (rule quotE [of 153 "5 * e + 2"]) auto
  then have m: "153 * mm \<le> 5 * e + 2" "5 * e + 2 < 153 * mm + 153"
    by (simp_all add: mm_def)
  obtain M where M: "(153 * mm + 2) div 5 = M" "5 * M \<le> 153 * mm + 2" "153 * mm + 2 < 5 * M + 5"
    by (rule quotE [of 5 "153 * mm + 2"]) auto
  obtain M' where M': "(153 * (mm + 1) + 2) div 5 = M'" "5 * M' \<le> 153 * (mm + 1) + 2"
      "153 * (mm + 1) + 2 < 5 * M' + 5"
    by (rule quotE [of 5 "153 * (mm + 1) + 2"]) auto
  show "0 \<le> mm" "mm \<le> 11" using m assms(1,2) by linarith+
  show "1 \<le> d" "d \<le> (153 * (mm + 1) + 2) div 5 - (153 * mm + 2) div 5" "d \<le> 31"
    unfolding d_def M(1) M'(1) using m M(2,3) M'(2,3) unfolding distrib_left by auto
qed

lemma month_cases:
  assumes "0 \<le> (mm :: int)" "mm \<le> 11"
  obtains "mm = 0" | "mm = 1" | "mm = 2" | "mm = 3" | "mm = 4" | "mm = 5" | "mm = 6" | "mm = 7"
    | "mm = 8" | "mm = 9" | "mm = 10" | "mm = 11"
proof -
  from assms have "mm \<in> {0, 1, 2, 3, 4, 5, 6, 7, 8, 9, 10, 11}"
    by (simp, presburger)
  with that show thesis
    by blast
qed

lemma leap_shift: "leap (y + 4800) \<longleftrightarrow> leap y"
proof -
  have "y + 4800 = y + 4 * 1200" "y + 4800 = y + 100 * 48" "y + 4800 = y + 400 * 12"
    by simp_all
  then have "(y + 4800) mod 4 = y mod 4" "(y + 4800) mod 100 = y mod 100"
      "(y + 4800) mod 400 = y mod 400"
    by (metis mod_mult_self2)+
  then show ?thesis
    by (simp add: leap_def)
qed

text \<open>The month of the civil calendar for a March month, and back.\<close>

definition march_month :: "int \<Rightarrow> int" where
  "march_month m = (if m > 2 then m - 3 else m + 9)"

definition march_year :: "int \<Rightarrow> int \<Rightarrow> int" where
  "march_year y m = (if m > 2 then y + 4800 else y + 4799)"

definition day_of_year :: "int \<Rightarrow> int \<Rightarrow> int" where
  "day_of_year m d = (153 * march_month m + 2) div 5 + d - 1"

lemma valid_day_of_year:
  assumes "valid_ymd y m d"
  shows "0 \<le> march_month m" "march_month m \<le> 11" "0 \<le> day_of_year m d"
    and "day_of_year m d \<le> 364 \<or> day_of_year m d = 365 \<and> leap (march_year y m + 1)"
    and "d \<le> (153 * (march_month m + 1) + 2) div 5 - (153 * march_month m + 2) div 5"
proof -
  show mm: "0 \<le> march_month m" "march_month m \<le> 11"
    using assms by (auto simp: valid_ymd_def march_month_def)
  have "0 \<le> day_of_year m d \<and>
    (day_of_year m d \<le> 364 \<or> day_of_year m d = 365 \<and> leap (march_year y m + 1)) \<and>
    d \<le> (153 * (march_month m + 1) + 2) div 5 - (153 * march_month m + 2) div 5"
  proof -
    have "m = (if march_month m \<le> 9 then march_month m + 3 else march_month m - 9)"
      using assms by (auto simp: valid_ymd_def march_month_def)
    then show ?thesis
      using mm assms leap_shift [of y] leap_shift [unfolded add.commute [of _ 4800], of y]
      by (cases rule: month_cases [OF mm])
        (auto simp: day_of_year_def valid_ymd_def days_in_month_def march_year_def split: if_splits)
  qed
  then show "0 \<le> day_of_year m d"
    and "day_of_year m d \<le> 364 \<or> day_of_year m d = 365 \<and> leap (march_year y m + 1)"
    and "d \<le> (153 * (march_month m + 1) + 2) div 5 - (153 * march_month m + 2) div 5"
    by blast+
qed

lemma valid_from_march:
  assumes e: "0 \<le> e" "e \<le> 364 \<or> e = 365 \<and> leap (Y + 1)"
  defines "mm \<equiv> (5 * e + 2) div 153"
  defines "m \<equiv> mm + 3 - 12 * (mm div 10)"
  defines "d \<equiv> e - (153 * mm + 2) div 5 + 1"
  defines "y \<equiv> Y - 4800 + mm div 10"
  shows "valid_ymd y m d" "march_year y m = Y" "day_of_year m d = e"
proof -
  have e365: "e \<le> 365" using e by auto
  note mb = month_day_back [OF e(1) e365, folded mm_def, folded d_def]
  have Ly: "leap (Y + 1) \<longleftrightarrow> leap (Y - 4799)"
    using leap_shift [of "Y - 4799"] by (simp add: algebra_simps)
  have "valid_ymd y m d \<and> march_year y m = Y \<and> march_month m = mm"
    using mb(3,4) e Ly
    by (cases rule: month_cases [OF mb(1,2)])
      (auto simp: m_def y_def valid_ymd_def days_in_month_def march_year_def march_month_def d_def)
  then show "valid_ymd y m d" "march_year y m = Y" "day_of_year m d = e"
    by (simp_all add: day_of_year_def d_def)
qed

section \<open>Bounds\<close>

lemma civil_bounds:
  "146097 * Y - 699 + 400 * e \<le> 400 * civil Y e" "400 * civil Y e \<le> 146097 * Y + 396 + 400 * e"
proof -
  obtain q4 where q4: "Y div 4 = q4" "4 * q4 \<le> Y" "Y < 4 * q4 + 4"
    by (rule quotE [of 4 Y]) auto
  obtain q100 where q100: "Y div 100 = q100" "100 * q100 \<le> Y" "Y < 100 * q100 + 100"
    by (rule quotE [of 100 Y]) auto
  obtain q400 where q400: "Y div 400 = q400" "400 * q400 \<le> Y" "Y < 400 * q400 + 400"
    by (rule quotE [of 400 Y]) auto
  show "146097 * Y - 699 + 400 * e \<le> 400 * civil Y e" "400 * civil Y e \<le> 146097 * Y + 396 + 400 * e"
    unfolding civil_def q4(1) q100(1) q400(1) using q4 q100 q400 by auto
qed

lemma civil_nonneg:
  assumes "0 \<le> Y" "0 \<le> e"
  shows "0 \<le> civil Y e"
proof -
  obtain q where "Y div 100 = q" "100 * q \<le> Y"
    by (rule quotE [of 100 Y]) auto
  moreover have "0 \<le> Y div 4" "0 \<le> Y div 400" using assms by simp_all
  ultimately show ?thesis using assms unfolding civil_def by linarith
qed

end
