(* ===== verification/Datetime.thy ===== *)
theory Datetime
  imports Calendar Rust_Text
begin

text \<open>
  Dates, times, timestamps and intervals, \<open>hyperdb-api-core/src/types/special.rs\<close>: \<open>Date\<close>,
  \<open>Time\<close>, \<open>Timestamp\<close>, \<open>OffsetTimestamp\<close> and \<open>Interval\<close> with their constructors, conversions,
  encodings and \<open>Display\<close>.

  The fields are words of the source's width. Arithmetic that wraps in the source is word
  arithmetic; arithmetic that the source writes with plain operators is computed on integers
  and checked step by step, \<open>None\<close> standing for an overflow. \<open>/\<close> and \<open>%\<close> on signed integers
  are \<open>sdiv\<close> and \<open>smod\<close>. Errors are the texts of the source's messages.
\<close>

section \<open>The code\<close>

subsection \<open>\<open>Date\<close>\<close>

record Date =
  date_days :: i32

definition JULIAN_DAY_EPOCH :: int where "JULIAN_DAY_EPOCH = 2451545"
definition MIN_JULIAN_DAY :: int where "MIN_JULIAN_DAY = 1721060"
definition MAX_JULIAN_DAY :: int where "MAX_JULIAN_DAY = 5373484"
definition MIN_DAYS :: int where "MIN_DAYS = MIN_JULIAN_DAY - JULIAN_DAY_EPOCH"
definition MAX_DAYS :: int where "MAX_DAYS = MAX_JULIAN_DAY - JULIAN_DAY_EPOCH"

lemmas date_consts = JULIAN_DAY_EPOCH_def MIN_JULIAN_DAY_def MAX_JULIAN_DAY_def MIN_DAYS_def MAX_DAYS_def

definition Date_from_days :: "i32 \<Rightarrow> Date" where
  "Date_from_days d = \<lparr>date_days = d\<rparr>"

definition Date_try_from_days :: "i32 \<Rightarrow> string + Date" where
  "Date_try_from_days d =
     (if \<not> (MIN_DAYS \<le> sint d \<and> sint d \<le> MAX_DAYS) then
        Inl (''days offset '' @ show_int (sint d) @ '' is out of supported range ('' @ show_int MIN_DAYS
             @ '' to '' @ show_int MAX_DAYS @ '', years 1-9999)'')
      else Inr \<lparr>date_days = d\<rparr>)"

definition ymd_to_days :: "i32 \<Rightarrow> u32 \<Rightarrow> u32 \<Rightarrow> i32 option" where
  "ymd_to_days year month day =
     (let d = sint day in do {
        m \<leftarrow> if sint month > 2 then chk32 (sint month + 1) else chk32 (sint month + 13);
        y \<leftarrow> if sint month > 2 then chk32 (sint year + 4800) else chk32 (sint year + 4799);
        let century = y sdiv 100;
        t1 \<leftarrow> chk32 (y * 365);
        t2 \<leftarrow> chk32 (t1 - 32167);
        t3 \<leftarrow> chk32 (t2 + y sdiv 4);
        t4 \<leftarrow> chk32 (t3 - century);
        t5 \<leftarrow> chk32 (t4 + century sdiv 4);
        mm \<leftarrow> chk32 (7834 * m);
        t6 \<leftarrow> chk32 (t5 + mm sdiv 256);
        julian \<leftarrow> chk32 (t6 + d);
        days \<leftarrow> chk32 (julian - 2451545);
        Some (word_of_int days) })"

definition days_to_ymd :: "i32 \<Rightarrow> (i32 \<times> u32 \<times> u32) option" where
  "days_to_ymd days =
     do { julian \<leftarrow> chk32 (sint days + 2451545);
          a \<leftarrow> chk32 (julian + 32044);
          a4 \<leftarrow> chk32 (4 * a);
          a43 \<leftarrow> chk32 (a4 + 3);
          let b = a43 sdiv 146097;
          b1 \<leftarrow> chk32 (b * 146097);
          c \<leftarrow> chk32 (a - b1 sdiv 4);
          c4 \<leftarrow> chk32 (4 * c);
          c43 \<leftarrow> chk32 (c4 + 3);
          let d = c43 sdiv 1461;
          d1 \<leftarrow> chk32 (1461 * d);
          e \<leftarrow> chk32 (c - d1 sdiv 4);
          e5 \<leftarrow> chk32 (5 * e);
          e52 \<leftarrow> chk32 (e5 + 2);
          let m = e52 sdiv 153;
          m1 \<leftarrow> chk32 (153 * m);
          m2 \<leftarrow> chk32 (m1 + 2);
          d2 \<leftarrow> chk32 (e - m2 sdiv 5);
          day \<leftarrow> chk32 (d2 + 1);
          m3 \<leftarrow> chk32 (m + 3);
          m4 \<leftarrow> chk32 (12 * (m sdiv 10));
          month \<leftarrow> chk32 (m3 - m4);
          y1 \<leftarrow> chk32 (b * 100);
          y2 \<leftarrow> chk32 (y1 + d);
          y3 \<leftarrow> chk32 (y2 - 4800);
          year \<leftarrow> chk32 (y3 + m sdiv 10);
          Some (word_of_int year, word_of_int month, word_of_int day) }"

definition Date_new :: "i32 \<Rightarrow> u32 \<Rightarrow> u32 \<Rightarrow> Date option" where
  "Date_new year month day = map_option (\<lambda>d. \<lparr>date_days = d\<rparr>) (ymd_to_days year month day)"

definition to_ymd :: "Date \<Rightarrow> (i32 \<times> u32 \<times> u32) option" where
  "to_ymd x = days_to_ymd (date_days x)"

definition to_julian_day :: "Date \<Rightarrow> i32" where
  "to_julian_day x = date_days x + word_of_int JULIAN_DAY_EPOCH"

definition Date_encode :: "Date \<Rightarrow> u32" where
  "Date_encode x = date_days x + word_of_int JULIAN_DAY_EPOCH"

definition Date_decode :: "u32 \<Rightarrow> Date" where
  "Date_decode encoded = \<lparr>date_days = encoded - word_of_int JULIAN_DAY_EPOCH\<rparr>"

definition Date_try_decode :: "u32 \<Rightarrow> string + Date" where
  "Date_try_decode encoded =
     (let julian_day = sint encoded
      in if \<not> (MIN_JULIAN_DAY \<le> julian_day \<and> julian_day \<le> MAX_JULIAN_DAY) then
           Inl (''Julian day '' @ show_int julian_day @ '' is out of supported range (''
                @ show_int MIN_JULIAN_DAY @ '' to '' @ show_int MAX_JULIAN_DAY @ '', years 1-9999)'')
         else
           (case chk32 (julian_day - JULIAN_DAY_EPOCH) of
              None \<Rightarrow>
                Inl (''Date calculation would overflow: Julian day '' @ show_int julian_day
                     @ '' - epoch '' @ show_int JULIAN_DAY_EPOCH @ '' exceeds i32 range'')
            | Some days \<Rightarrow>
                if \<bar>days\<bar> > (2 ^ 31 - 1) div 2 then
                  Inl (''Date calculation would overflow: days offset '' @ show_int days
                       @ '' exceeds safe range'')
                else Inr \<lparr>date_days = word_of_int days\<rparr>))"

definition Date_fmt :: "Date \<Rightarrow> string option" where
  "Date_fmt x =
     map_option (\<lambda>(year, month, day).
       show_padded 4 (sint year) @ ''-'' @ show_padded 2 (uint month) @ ''-'' @ show_padded 2 (uint day))
       (to_ymd x)"

subsection \<open>\<open>Time\<close>\<close>

record Time =
  time_micros :: u64

definition MICROS_PER_SECOND :: u64 where "MICROS_PER_SECOND = 1000000"
definition MICROS_PER_MINUTE :: u64 where "MICROS_PER_MINUTE = 60 * MICROS_PER_SECOND"
definition MICROS_PER_HOUR :: u64 where "MICROS_PER_HOUR = 60 * MICROS_PER_MINUTE"
definition MAX_MICROSECONDS :: u64 where "MAX_MICROSECONDS = 24 * MICROS_PER_HOUR - 1"

lemmas time_consts = MICROS_PER_SECOND_def MICROS_PER_MINUTE_def MICROS_PER_HOUR_def MAX_MICROSECONDS_def

definition Time_try_from_microseconds :: "u64 \<Rightarrow> string + Time" where
  "Time_try_from_microseconds us =
     (if us > MAX_MICROSECONDS then
        Inl (''Time microseconds '' @ show_nat (unat us) @ '' exceeds 24-hour limit (''
             @ show_nat (unat MAX_MICROSECONDS) @ '')'')
      else Inr \<lparr>time_micros = us\<rparr>)"

text \<open>No step can overflow: \<open>2 ^ 32\<close> hours are less than \<open>2 ^ 64\<close> microseconds.\<close>

definition Time_new :: "u32 \<Rightarrow> u32 \<Rightarrow> u32 \<Rightarrow> u32 \<Rightarrow> Time" where
  "Time_new hour minute second microsecond =
     \<lparr>time_micros = ucast hour * MICROS_PER_HOUR + ucast minute * MICROS_PER_MINUTE
        + ucast second * MICROS_PER_SECOND + ucast microsecond\<rparr>"

definition to_hms_micro :: "Time \<Rightarrow> u32 \<times> u32 \<times> u32 \<times> u32" where
  "to_hms_micro t =
     (let hour = ucast (time_micros t div MICROS_PER_HOUR);
          remaining = time_micros t mod MICROS_PER_HOUR;
          minute = ucast (remaining div MICROS_PER_MINUTE);
          remaining = remaining mod MICROS_PER_MINUTE;
          second = ucast (remaining div MICROS_PER_SECOND);
          microsecond = ucast (remaining mod MICROS_PER_SECOND)
      in (hour, minute, second, microsecond))"

definition Time_encode :: "Time \<Rightarrow> u64" where
  "Time_encode t = time_micros t"

definition Time_decode :: "u64 \<Rightarrow> Time" where
  "Time_decode encoded = \<lparr>time_micros = encoded\<rparr>"

definition Time_to_microseconds :: "Time \<Rightarrow> i64" where
  "Time_to_microseconds t = time_micros t"

definition Time_fmt :: "Time \<Rightarrow> string" where
  "Time_fmt t =
     (let (h, m, s, us) = to_hms_micro t
      in if us = 0 then
           show_padded 2 (uint h) @ '':'' @ show_padded 2 (uint m) @ '':'' @ show_padded 2 (uint s)
         else
           show_padded 2 (uint h) @ '':'' @ show_padded 2 (uint m) @ '':'' @ show_padded 2 (uint s)
             @ ''.'' @ show_padded 6 (uint us))"

subsection \<open>\<open>Timestamp\<close>\<close>

record Timestamp =
  ts_micros :: i64

definition MICROS_PER_DAY :: int where "MICROS_PER_DAY = 24 * 60 * 60 * 1000000"
definition EPOCH_OFFSET_MICROS :: int where "EPOCH_OFFSET_MICROS = JULIAN_DAY_EPOCH * MICROS_PER_DAY"

definition Timestamp_new :: "Date \<Rightarrow> Time \<Rightarrow> Timestamp option" where
  "Timestamp_new date time =
     do { date_micros \<leftarrow> chk64 (sint (date_days date) * MICROS_PER_DAY);
          let time_us = sint (time_micros time);
          us \<leftarrow> chk64 (date_micros + time_us);
          Some \<lparr>ts_micros = word_of_int us\<rparr> }"

text \<open>\<open>div_euclid\<close> and \<open>rem_euclid\<close> by a positive number are \<open>div\<close> and \<open>mod\<close> on integers.\<close>

definition to_date_time :: "Timestamp \<Rightarrow> Date \<times> Time" where
  "to_date_time t =
     (let days = word_of_int (sint (ts_micros t) div MICROS_PER_DAY);
          time_us = word_of_int (sint (ts_micros t) mod MICROS_PER_DAY)
      in (\<lparr>date_days = days\<rparr>, \<lparr>time_micros = time_us\<rparr>))"

definition Timestamp_encode :: "Timestamp \<Rightarrow> u64" where
  "Timestamp_encode t = ts_micros t + word_of_int EPOCH_OFFSET_MICROS"

definition Timestamp_decode :: "u64 \<Rightarrow> Timestamp" where
  "Timestamp_decode encoded = \<lparr>ts_micros = encoded - word_of_int EPOCH_OFFSET_MICROS\<rparr>"

definition Timestamp_to_microseconds :: "Timestamp \<Rightarrow> i64 option" where
  "Timestamp_to_microseconds t =
     map_option word_of_int (chk64 (sint (ts_micros t) + EPOCH_OFFSET_MICROS))"

definition Timestamp_fmt :: "Timestamp \<Rightarrow> string option" where
  "Timestamp_fmt t =
     (let (date, time) = to_date_time t in map_option (\<lambda>d. d @ '' '' @ Time_fmt time) (Date_fmt date))"

subsection \<open>\<open>OffsetTimestamp\<close>\<close>

record OffsetTimestamp =
  ots_timestamp :: Timestamp
  offset_minutes :: i16

definition local_timestamp :: "OffsetTimestamp \<Rightarrow> Timestamp option" where
  "local_timestamp t =
     (let offset_micros = sint (offset_minutes t) * 60 * 1000000
      in map_option (\<lambda>us. \<lparr>ts_micros = word_of_int us\<rparr>)
           (chk64 (sint (ts_micros (ots_timestamp t)) + offset_micros)))"

definition OffsetTimestamp_encode :: "OffsetTimestamp \<Rightarrow> u64" where
  "OffsetTimestamp_encode t = Timestamp_encode (ots_timestamp t)"

definition OffsetTimestamp_decode :: "u64 \<Rightarrow> OffsetTimestamp" where
  "OffsetTimestamp_decode encoded = \<lparr>ots_timestamp = Timestamp_decode encoded, offset_minutes = 0\<rparr>"

definition to_microseconds_utc :: "OffsetTimestamp \<Rightarrow> i64 option" where
  "to_microseconds_utc t = Timestamp_to_microseconds (ots_timestamp t)"

definition OffsetTimestamp_fmt :: "OffsetTimestamp \<Rightarrow> string option" where
  "OffsetTimestamp_fmt t =
     do { local \<leftarrow> local_timestamp t;
          let (date, time) = to_date_time local;
          d \<leftarrow> Date_fmt date;
          let off = sint (offset_minutes t);
          let offset_hours = off sdiv 60;
          let offset_mins = \<bar>off smod 60\<bar>;
          let sign = (if off \<ge> 0 then ''+'' else ''-'');
          Some (d @ '' '' @ Time_fmt time @ sign @ show_padded 2 \<bar>offset_hours\<bar> @ '':''
                  @ show_padded 2 offset_mins) }"

subsection \<open>\<open>Interval\<close>\<close>

record Interval =
  iv_micros :: i64
  iv_days :: i32
  iv_months :: i32

definition Interval_new :: "i32 \<Rightarrow> i32 \<Rightarrow> i64 \<Rightarrow> Interval" where
  "Interval_new months days us = \<lparr>iv_micros = us, iv_days = days, iv_months = months\<rparr>"

definition from_years :: "i32 \<Rightarrow> Interval option" where
  "from_years years = map_option (\<lambda>m. Interval_new (word_of_int m) 0 0) (chk32 (sint years * 12))"

definition from_hours :: "i64 \<Rightarrow> Interval option" where
  "from_hours hours = map_option (\<lambda>us. Interval_new 0 0 (word_of_int us)) (chk64 (sint hours * 3600000000))"

definition from_minutes :: "i64 \<Rightarrow> Interval option" where
  "from_minutes minutes =
     map_option (\<lambda>us. Interval_new 0 0 (word_of_int us)) (chk64 (sint minutes * 60000000))"

definition from_seconds :: "i64 \<Rightarrow> Interval option" where
  "from_seconds seconds =
     map_option (\<lambda>us. Interval_new 0 0 (word_of_int us)) (chk64 (sint seconds * 1000000))"

definition Interval_encode :: "Interval \<Rightarrow> bytes" where
  "Interval_encode i = to_le_bytes (iv_micros i) @ to_le_bytes (iv_days i) @ to_le_bytes (iv_months i)"

definition Interval_decode :: "bytes \<Rightarrow> Interval" where
  "Interval_decode buf =
     \<lparr>iv_micros = from_le_bytes (take 8 buf),
      iv_days = from_le_bytes (take 4 (drop 8 buf)),
      iv_months = from_le_bytes (take 4 (drop 12 buf))\<rparr>"

definition plural :: "int \<Rightarrow> string" where
  "plural n = (if \<bar>n\<bar> = 1 then '''' else ''s'')"

fun join_spaces :: "string list \<Rightarrow> string" where
  "join_spaces [] = ''''"
| "join_spaces [s] = s"
| "join_spaces (s # t # r) = s @ '' '' @ join_spaces (t # r)"

definition interval_clock :: "int \<Rightarrow> string" where
  "interval_clock us =
     (let sign = (if us < 0 then ''-'' else '''');
          a = \<bar>us\<bar>;
          total_seconds = a div 1000000;
          micros = a mod 1000000;
          hours = total_seconds div 3600;
          minutes = (total_seconds mod 3600) div 60;
          seconds = total_seconds mod 60
      in if micros = 0 then
           sign @ show_padded 2 hours @ '':'' @ show_padded 2 minutes @ '':'' @ show_padded 2 seconds
         else
           sign @ show_padded 2 hours @ '':'' @ show_padded 2 minutes @ '':'' @ show_padded 2 seconds
             @ ''.'' @ show_padded 6 micros)"

text \<open>\<open>days.abs()\<close> overflows for \<open>i32::MIN\<close>; the years and months cannot.\<close>

definition Interval_fmt :: "Interval \<Rightarrow> string option" where
  "Interval_fmt i =
     (let years = sint (iv_months i) sdiv 12;
          months = sint (iv_months i) smod 12;
          days = sint (iv_days i);
          us = sint (iv_micros i);
          p1 = (if years \<noteq> 0 then [show_int years @ '' year'' @ plural years] else []);
          p2 = (if months \<noteq> 0 then [show_int months @ '' mon'' @ plural months] else [])
      in do { p3 \<leftarrow> if days \<noteq> 0 then map_option (\<lambda>_. [show_int days @ '' day'' @ plural days]) (chk32 \<bar>days\<bar>)
                    else Some [];
              let parts = p1 @ p2 @ p3;
              Some (join_spaces
                (parts @ (if us \<noteq> 0 \<or> parts = [] then [interval_clock us] else []))) })"

section \<open>Dates\<close>

lemma march_month_code:
  assumes "0 \<le> mm" "mm \<le> (11::int)"
  shows "7834 * (mm + 4) div 256 = (153 * mm + 2) div 5 + 122"
  by (cases rule: month_cases [OF assms]) simp_all

lemma ymd_to_days_civil:
  assumes v: "valid_ymd (sint year) (uint month) (uint day)"
    and y: "- 4799 \<le> sint year" "sint year \<le> 1000000"
  shows "ymd_to_days year month day =
    Some (word_of_int (civil (march_year (sint year) (uint month)) (day_of_year (uint month) (uint day)) - 2483589))"
proof -
  define Y mm where "Y = march_year (sint year) (uint month)" and "mm = march_month (uint month)"
  note vd = valid_day_of_year [OF v, folded mm_def]
  have md: "1 \<le> uint month" "uint month \<le> 12" "1 \<le> uint day" "uint day \<le> 31"
    using v by (auto simp: valid_ymd_def days_in_month_def split: if_splits)
  then have s: "sint month = uint month" "sint day = uint day"
    by (simp_all add: sint_eq_uint_i32)
  have Y: "0 \<le> Y" "Y \<le> 1004800"
    using y by (auto simp: Y_def march_year_def)
  have code: "(if uint month > 2 then uint month + 1 else uint month + 13) = mm + 4"
      "(if uint month > 2 then sint year + 4800 else sint year + 4799) = Y"
    by (auto simp: Y_def mm_def march_year_def march_month_def)
  obtain q4 where q4: "Y div 4 = q4" "4 * q4 \<le> Y" "Y < 4 * q4 + 4"
    by (rule quotE [of 4 Y]) auto
  obtain q100 where q100: "Y div 100 = q100" "100 * q100 \<le> Y" "Y < 100 * q100 + 100"
    by (rule quotE [of 100 Y]) auto
  obtain q400 where q400: "q100 div 4 = q400" "4 * q400 \<le> q100" "q100 < 4 * q400 + 4"
    by (rule quotE [of 4 q100]) auto
  have Y400: "Y div 400 = q400"
    using zdiv_zmult2_eq [of 4 Y 100] q100 q400 by simp
  obtain M where M: "(153 * mm + 2) div 5 = M" "5 * M \<le> 153 * mm + 2" "153 * mm + 2 < 5 * M + 5"
    by (rule quotE [of 5 "153 * mm + 2"]) auto
  have M0: "0 \<le> M" "M \<le> 337" using M vd by linarith+
  have nn: "0 \<le> q100" using q100 Y by linarith
  have sd: "Y sdiv 100 = q100" "Y sdiv 4 = q4" "q100 sdiv 4 = q400" "(7834 * (mm + 4)) sdiv 256 = M + 122"
    using Y nn vd(1,2) q4(1) q100(1) q400(1) march_month_code [OF vd(1,2)] M(1) by (simp_all add: sdiv_nonneg)
  have sd4: "(7834 * mm + 31336) sdiv 256 = M + 122"
    using sd(4) by (simp add: distrib_left)
  have e: "civil Y (day_of_year (uint month) (uint day)) = 365 * Y + q4 - q100 + q400 + M + uint day - 1"
    by (simp add: civil_def q4(1) q100(1) Y400 day_of_year_def M(1) flip: mm_def)
  have c: "(if 2 < sint month then chk32 (sint month + 1) else chk32 (sint month + 13)) = Some (mm + 4)"
      "(if 2 < sint month then chk32 (sint year + 4800) else chk32 (sint year + 4799)) = Some Y"
    using code md Y y unfolding s by (auto simp: chk32_def in_i32_def)
  show ?thesis
    unfolding ymd_to_days_def Let_def c Y_def [symmetric] e Option.bind.bind_lunit sd
    using Y q4 q100 q400 M0 md vd(1,2)
    by (simp add: chk32_def in_i32_def sd sd4 s)
qed

lemma days_to_ymd_civil:
  assumes a: "a = sint days + 2483589" "0 \<le> a" "a \<le> 400000000"
  defines "b \<equiv> (4 * a + 3) div 146097"
  defines "c \<equiv> a - 146097 * b div 4"
  defines "k \<equiv> (4 * c + 3) div 1461"
  defines "e \<equiv> c - 1461 * k div 4"
  defines "mm \<equiv> (5 * e + 2) div 153"
  shows "days_to_ymd days =
    Some (word_of_int (100 * b + k - 4800 + mm div 10), word_of_int (mm + 3 - 12 * (mm div 10)),
      word_of_int (e - (153 * mm + 2) div 5 + 1))"
proof -
  note ce = civil_encode [OF a(2), folded b_def, folded c_def, folded k_def, folded e_def]
  have e365: "e \<le> 365" using ce(5) by auto
  note mb = month_day_back [OF ce(4) e365, folded mm_def]
  obtain B where B: "(4 * a + 3) div 146097 = B" "146097 * B \<le> 4 * a + 3" "4 * a + 3 < 146097 * B + 146097"
    by (rule quotE [of 146097 "4 * a + 3"]) auto
  have b: "b = B" by (simp add: b_def B(1))
  have c: "0 \<le> c" "c \<le> 36525"
  proof -
    obtain X where X: "146097 * b div 4 = X" "4 * X \<le> 146097 * b" "146097 * b < 4 * X + 4"
      by (rule quotE [of 4 "146097 * b"]) auto
    show "0 \<le> c" "c \<le> 36525" using X B unfolding c_def X(1) b by auto
  qed
  have sd: "(4 * a + 3) sdiv 146097 = b" "(4 * c + 3) sdiv 1461 = k" "(5 * e + 2) sdiv 153 = mm"
    "mm sdiv 10 = mm div 10" "(153 * mm + 2) sdiv 5 = (153 * mm + 2) div 5"
    unfolding b_def [symmetric] k_def [symmetric] mm_def [symmetric]
    using a(2) c(1) ce(4) mb(1)
    by (subst sdiv_nonneg, simp, simp, (simp only: b_def k_def mm_def)?)+
  have "(146097 * b) sdiv 4 = 146097 * b div 4" "(1461 * k) sdiv 4 = 1461 * k div 4"
    using ce(1,2) by (simp_all add: sdiv_nonneg)
  then have sd2: "(146097 * b) sdiv 4 = a - c" "(1461 * k) sdiv 4 = c - e"
    by (simp_all only: c_def e_def diff_diff_eq2 add_diff_cancel_left')
  have ac: "0 \<le> b" "b \<le> 11000" using B a ce b by auto
  have mb10: "0 \<le> mm div 10" "mm div 10 \<le> 1" using mb(1,2) by auto
  obtain M where M: "(153 * mm + 2) div 5 = M" by simp
  obtain t where t: "mm div 10 = t" by simp
  have ch: "chk32 (sint days + 2451545) = Some (a - 32044)" "chk32 (a - 32044 + 32044) = Some a"
    "chk32 (4 * a) = Some (4 * a)" "chk32 (4 * a + 3) = Some (4 * a + 3)"
    "chk32 (b * 146097) = Some (146097 * b)" "chk32 (a - (a - c)) = Some c"
    using a ac c B(2) unfolding b [symmetric] by (auto simp: chk32_def in_i32_def)
  have ch2: "chk32 (4 * c) = Some (4 * c)" "chk32 (4 * c + 3) = Some (4 * c + 3)"
    "chk32 (1461 * k) = Some (1461 * k)" "chk32 (c - (c - e)) = Some e"
    "chk32 (5 * e) = Some (5 * e)" "chk32 (5 * e + 2) = Some (5 * e + 2)"
    using c ce(2-4) e365 by (auto simp: chk32_def in_i32_def)
  have ch3: "chk32 (153 * mm) = Some (153 * mm)" "chk32 (153 * mm + 2) = Some (153 * mm + 2)"
    "chk32 (e - M) = Some (e - M)" "chk32 (e - M + 1) = Some (e - M + 1)"
    "chk32 (mm + 3) = Some (mm + 3)" "chk32 (12 * t) = Some (12 * t)"
    "chk32 (mm + 3 - 12 * t) = Some (mm + 3 - 12 * t)"
    using mb(1-3,5) mb10 unfolding M t by (auto simp: chk32_def in_i32_def)
  have ch4: "chk32 (b * 100) = Some (100 * b)" "chk32 (100 * b + k) = Some (100 * b + k)"
    "chk32 (100 * b + k - 4800) = Some (100 * b + k - 4800)"
    "chk32 (100 * b + k - 4800 + t) = Some (100 * b + k - 4800 + t)"
    using ac ce(2,3) mb10 unfolding t by (auto simp: chk32_def in_i32_def)
  show ?thesis
    unfolding days_to_ymd_def Let_def
    by (simp only: ch ch2 ch3 ch4 sd sd2 M t Option.bind.bind_lunit)
qed

lemma to_ymd_civil:
  assumes e: "0 \<le> e" "e \<le> 364 \<or> e = 365 \<and> leap (Y + 1)" and Y: "0 \<le> Y" "Y \<le> 1004800"
    and x: "sint (date_days x) = civil Y e - 2483589"
  defines "mm \<equiv> (5 * e + 2) div 153"
  shows "to_ymd x = Some (word_of_int (Y - 4800 + mm div 10), word_of_int (mm + 3 - 12 * (mm div 10)),
      word_of_int (e - (153 * mm + 2) div 5 + 1))"
proof -
  have a: "0 \<le> civil Y e" "civil Y e \<le> 400000000"
    using civil_bounds [of Y e] civil_nonneg [of Y e] e Y by auto
  have "civil Y e = sint (date_days x) + 2483589"
    using x by simp
  note days_to_ymd_civil [OF this a, unfolded civil_decode [OF e], folded mm_def]
  moreover have "100 * (Y div 100) + Y mod 100 = Y"
    by simp
  ultimately show ?thesis
    unfolding to_ymd_def by simp
qed

lemma ymd_days_ymd:
  assumes v: "valid_ymd (sint year) (uint month) (uint day)"
    and y: "- 4799 \<le> sint year" "sint year \<le> 1000000"
  shows "\<exists>x. Date_new year month day = Some x \<and> to_ymd x = Some (year, month, day)"
proof -
  define Y e where "Y = march_year (sint year) (uint month)" and "e = day_of_year (uint month) (uint day)"
  note vd = valid_day_of_year [OF v]
  have Y: "0 \<le> Y" "Y \<le> 1004800"
    using y by (auto simp: Y_def march_year_def)
  have bnd: "in_i32 (civil Y e - 2483589)"
    using civil_bounds [of Y e] civil_nonneg [of Y e] Y vd(3,4) by (auto simp: in_i32_def Y_def e_def)
  let ?x = "\<lparr>date_days = word_of_int (civil Y e - 2483589)\<rparr>"
  have new: "Date_new year month day = Some ?x"
    using ymd_to_days_civil [OF v y] by (simp add: Date_new_def Y_def e_def)
  have mm: "(5 * e + 2) div 153 = march_month (uint month)"
    unfolding e_def day_of_year_def using v vd(1,2,5) by (intro month_day) (auto simp: valid_ymd_def)
  have cal: "Y - 4800 + march_month (uint month) div 10 = sint year"
      "march_month (uint month) + 3 - 12 * (march_month (uint month) div 10) = uint month"
      "e - (153 * march_month (uint month) + 2) div 5 + 1 = uint day"
    using v by (auto simp: Y_def e_def march_month_def march_year_def valid_ymd_def day_of_year_def)
  have "to_ymd ?x = Some (word_of_int (sint year), word_of_int (uint month), word_of_int (uint day))"
    using to_ymd_civil [of e Y ?x] vd(3,4) Y sint_word_of_int_i32 [OF bnd]
    by (simp add: mm cal flip: Y_def e_def)
  with new show ?thesis
    by simp
qed

lemma days_ymd_days:
  assumes x: "MIN_DAYS \<le> sint (date_days x)" "sint (date_days x) \<le> MAX_DAYS"
  shows "\<exists>year month day. to_ymd x = Some (year, month, day) \<and> 0 \<le> sint year \<and> sint year \<le> 9999
    \<and> valid_ymd (sint year) (uint month) (uint day) \<and> Date_new year month day = Some x"
proof -
  define a where "a = sint (date_days x) + 2483589"
  have a: "1753104 \<le> a" "a \<le> 5405528"
    using x by (auto simp: a_def date_consts)
  obtain Y e where Ye: "0 \<le> Y" "0 \<le> e" "e \<le> 364 \<or> e = 365 \<and> leap (Y + 1)" "civil Y e = a"
  proof -
    have "0 \<le> a" using a by simp
    note ce = civil_encode [OF this]
    show thesis by (rule that [OF _ ce(4-6)]) (use ce(1,2) in simp)
  qed
  have Y: "4799 \<le> Y" "Y \<le> 14799"
    using civil_bounds [of Y e] Ye a by auto
  define mm where "mm = (5 * e + 2) div 153"
  let ?y = "Y - 4800 + mm div 10" and ?m = "mm + 3 - 12 * (mm div 10)"
    and ?d = "e - (153 * mm + 2) div 5 + 1"
  note vf = valid_from_march [OF Ye(2,3), folded mm_def]
  have e365: "e \<le> 365" using Ye by auto
  note mb = month_day_back [OF Ye(2) e365, folded mm_def]
  obtain q where q: "(5 * e + 2) div 153 = q" "153 * q \<le> 5 * e + 2" "5 * e + 2 < 153 * q + 153"
    by (rule quotE [of 153 "5 * e + 2"]) auto
  have first: "10 \<le> mm" if "Y = 4799"
  proof -
    have "306 \<le> e" using Ye(4) a(1) that by (simp add: civil_def)
    then show ?thesis using q by (simp add: mm_def)
  qed
  have last: "mm \<le> 9" if "Y = 14799"
  proof -
    have "e \<le> 305" using Ye(4) a(2) that by (simp add: civil_def)
    then show ?thesis using q by (simp add: mm_def)
  qed
  have t: "mm div 10 = (if 10 \<le> mm then 1 else 0)"
    using mb(1,2) by auto
  have y: "0 \<le> ?y" "?y \<le> 9999"
    using Y first last unfolding t by (cases "Y = 4799"; cases "Y = 14799"; auto)+
  have md: "1 \<le> ?m" "?m \<le> 12"
    using mb(1,2) unfolding t by auto
  have words: "sint (word_of_int ?y :: i32) = ?y" "uint (word_of_int ?m :: u32) = ?m"
      "uint (word_of_int ?d :: u32) = ?d"
    by (rule sint_word_of_int_i32 uint_word_of_int_u32, use y md mb(3,5) in \<open>simp add: in_i32_def\<close>)+
  have ymd: "to_ymd x = Some (word_of_int ?y, word_of_int ?m, word_of_int ?d)"
    using to_ymd_civil [of e Y x] Ye Y by (simp add: mm_def a_def)
  have "ymd_to_days (word_of_int ?y) (word_of_int ?m) (word_of_int ?d) = Some (date_days x)"
    using ymd_to_days_civil [of "word_of_int ?y" "word_of_int ?m" "word_of_int ?d"] vf y Ye(4)
    unfolding words by (simp add: a_def)
  then have "Date_new (word_of_int ?y) (word_of_int ?m) (word_of_int ?d) = Some x"
    by (simp add: Date_new_def)
  with ymd y vf(1) show ?thesis
    by (intro exI conjI) (assumption | simp only: words)+
qed

lemma Date_decode_encode: "Date_decode (Date_encode x) = x" "Date_encode (Date_decode w) = w"
  by (simp_all add: Date_decode_def Date_encode_def)

lemma in_i64_sint [simp]: "in_i64 (sint (w :: i64))"
  using sint_i64_bounds [of w] by (simp add: in_i64_def)

lemma in_i32_sint [simp]: "in_i32 (sint (w :: i32))"
  using sint_i32_bounds [of w] by (simp add: in_i32_def)

lemma Date_try_decode_encode:
  "Date_try_decode (Date_encode x) = Inr x \<longleftrightarrow> MIN_DAYS \<le> sint (date_days x) \<and> sint (date_days x) \<le> MAX_DAYS"
  "(\<exists>y. Date_try_decode w = Inr y) \<longleftrightarrow> MIN_JULIAN_DAY \<le> sint w \<and> sint w \<le> MAX_JULIAN_DAY"
  "Date_try_decode w = Inr y \<Longrightarrow> y = Date_decode w"
proof -
  have ok: "Date_try_decode w = (if MIN_JULIAN_DAY \<le> sint w \<and> sint w \<le> MAX_JULIAN_DAY
      then Inr (Date_decode w) else Date_try_decode w)" for w
    by (auto simp: Date_try_decode_def Let_def chk32_def in_i32_def date_consts Date_decode_def)
  have err: "\<not> (MIN_JULIAN_DAY \<le> sint w \<and> sint w \<le> MAX_JULIAN_DAY) \<Longrightarrow> Date_try_decode w \<noteq> Inr y" for w y
    by (auto simp: Date_try_decode_def)
  have range: "MIN_JULIAN_DAY \<le> sint (Date_encode x) \<and> sint (Date_encode x) \<le> MAX_JULIAN_DAY
      \<longleftrightarrow> MIN_DAYS \<le> sint (date_days x) \<and> sint (date_days x) \<le> MAX_DAYS"
  proof -
    have "sint (Date_encode x) = sint (date_days x) + 2451545" if "in_i32 (sint (date_days x) + 2451545)"
      using sint_word_of_int_i32 [OF that] by (simp add: Date_encode_def date_consts)
    moreover have "\<not> in_i32 (sint (date_days x) + 2451545) \<Longrightarrow> sint (Date_encode x) < 0"
    proof -
      assume "\<not> in_i32 (sint (date_days x) + 2451545)"
      then have "in_i32 (sint (date_days x) + 2451545 - 2 ^ 32)" "sint (date_days x) + 2451545 - 2 ^ 32 < 0"
        using sint_i32_bounds [of "date_days x"] by (auto simp: in_i32_def)
      moreover have "word_of_int (sint (date_days x) + 2451545 - 2 ^ 32) = Date_encode x"
      proof -
        have "(word_of_int (2 ^ 32) :: i32) = 0"
          by simp
        then show ?thesis
          by (simp only: of_int_diff of_int_add  diff_zero Date_encode_def date_consts) simp
      qed
      ultimately show ?thesis
        using sint_word_of_int_i32 by metis
    qed
    ultimately show ?thesis
      using sint_i32_bounds [of "date_days x"]
      by (cases "in_i32 (sint (date_days x) + 2451545)") (auto simp: date_consts in_i32_def)
  qed
  show "Date_try_decode (Date_encode x) = Inr x \<longleftrightarrow> MIN_DAYS \<le> sint (date_days x) \<and> sint (date_days x) \<le> MAX_DAYS"
    using ok [of "Date_encode x"] err [of "Date_encode x" x] range by (auto simp: Date_decode_encode)
  show "(\<exists>y. Date_try_decode w = Inr y) \<longleftrightarrow> MIN_JULIAN_DAY \<le> sint w \<and> sint w \<le> MAX_JULIAN_DAY"
    using ok [of w] err [of w] by metis
  show "Date_try_decode w = Inr y \<Longrightarrow> y = Date_decode w"
    using ok [of w] err [of w] by (metis sum.inject(2))
qed

section \<open>Times, timestamps, intervals\<close>

lemma unat_Time_new:
  "unat (time_micros (Time_new h m s us))
   = unat h * 3600000000 + unat m * 60000000 + unat s * 1000000 + unat us"
proof -
  have b: "unat w < 2 ^ 32" for w :: u32
    using unsigned_less [of w, where ?'a = nat] by simp
  have "unat h * 3600000000 + unat m * 60000000 + unat s * 1000000 + unat us < 2 ^ 64"
    using b [of h] b [of m] b [of s] b [of us] by simp
  moreover have "time_micros (Time_new h m s us)
      = word_of_nat (unat h * 3600000000 + unat m * 60000000 + unat s * 1000000 + unat us)"
    by (simp add: Time_new_def time_consts)
  ultimately show ?thesis
    by (simp only: unat_of_nat mod_less) simp
qed

lemma ucast_of_nat: "(ucast (x :: u64) :: u32) = word_of_nat (unat x)"
  by simp

lemma digits_div_mod:
  fixes q r n :: nat
  assumes "r < n"
  shows "(q * n + r) div n = q" "(q * n + r) mod n = r"
  using assms by simp_all

lemma to_hms_micro_nat:
  "to_hms_micro t =
     (let n = unat (time_micros t)
      in (word_of_nat (n div 3600000000), word_of_nat (n mod 3600000000 div 60000000),
          word_of_nat (n mod 3600000000 mod 60000000 div 1000000),
          word_of_nat (n mod 3600000000 mod 60000000 mod 1000000)))"
  unfolding to_hms_micro_def Let_def time_consts ucast_of_nat unat_div unat_mod by simp

lemma hms_Time_new:
  assumes "h < 24" "m < 60" "s < 60" "us < 1000000"
  shows "to_hms_micro (Time_new h m s us) = (h, m, s, us)"
    and "time_micros (Time_new h m s us) \<le> MAX_MICROSECONDS"
proof -
  have n: "unat h < 24" "unat m < 60" "unat s < 60" "unat us < 1000000"
    using assms by (simp_all add: word_less_nat_alt)
  note t = unat_Time_new [of h m s us]
  show "time_micros (Time_new h m s us) \<le> MAX_MICROSECONDS"
    using n by (simp add: word_le_nat_alt time_consts t)
  let ?r1 = "unat m * 60000000 + (unat s * 1000000 + unat us)" and ?r2 = "unat s * 1000000 + unat us"
  have "unat h * 3600000000 + unat m * 60000000 + unat s * 1000000 + unat us = unat h * 3600000000 + ?r1"
    by simp
  moreover have "?r1 < 3600000000" "?r2 < 60000000"
    using n by auto
  ultimately show "to_hms_micro (Time_new h m s us) = (h, m, s, us)"
    unfolding to_hms_micro_nat t Let_def using n(4) by (simp only: digits_div_mod) simp
qed

lemma Time_new_hms:
  assumes "time_micros t \<le> MAX_MICROSECONDS"
  shows "case to_hms_micro t of (h, m, s, us) \<Rightarrow>
     Time_new h m s us = t \<and> h < 24 \<and> m < 60 \<and> s < 60 \<and> us < 1000000"
proof -
  define n where "n = unat (time_micros t)"
  have n: "n < 86400000000"
    using assms by (simp add: word_le_nat_alt time_consts n_def)
  define h m s us where "h = n div 3600000000" and "m = n mod 3600000000 div 60000000"
    and "s = n mod 3600000000 mod 60000000 div 1000000" and "us = n mod 3600000000 mod 60000000 mod 1000000"
  have b: "h < 24" "m < 60" "s < 60" "us < 1000000"
    using n by (auto simp: h_def m_def s_def us_def less_mult_imp_div_less)
  have sum: "n = h * 3600000000 + m * 60000000 + s * 1000000 + us"
    unfolding h_def m_def s_def us_def by (simp add: add.assoc div_mult_mod_eq)
  have w: "unat (word_of_nat x :: u32) = x" if "x < 1000000" for x
    using that by (simp add: unat_of_nat)
  have "unat (time_micros (Time_new (word_of_nat h) (word_of_nat m) (word_of_nat s) (word_of_nat us))) = n"
    using b by (simp add: unat_Time_new w flip: sum)
  then have "time_micros (Time_new (word_of_nat h) (word_of_nat m) (word_of_nat s) (word_of_nat us)) = time_micros t"
    unfolding n_def by (rule unsigned_word_eqI)
  moreover have "to_hms_micro t = (word_of_nat h, word_of_nat m, word_of_nat s, word_of_nat us)"
    by (simp add: to_hms_micro_nat Let_def h_def m_def s_def us_def n_def)
  ultimately show ?thesis
    using b by (simp add: word_less_nat_alt w)
qed

lemma Timestamp_codec: "Timestamp_decode (Timestamp_encode t) = t" "Timestamp_encode (Timestamp_decode w) = w"
  by (simp_all add: Timestamp_decode_def Timestamp_encode_def)

lemma Timestamp_to_microseconds_encode:
  "Timestamp_to_microseconds t = Some w \<Longrightarrow> w = Timestamp_encode t"
  by (auto simp: Timestamp_to_microseconds_def Timestamp_encode_def chk64_def split: if_splits)

lemma date_time_of_parts:
  assumes d: "\<bar>sint (date_days d)\<bar> \<le> 106751990" and t: "time_micros t \<le> MAX_MICROSECONDS"
  shows "\<exists>ts. Timestamp_new d t = Some ts \<and> to_date_time ts = (d, t)"
proof -
  define D T where "D = sint (date_days d)" and "T = uint (time_micros t)"
  have T: "0 \<le> T" "T < 86400000000"
    using t by (simp_all add: T_def word_le_def time_consts)
  have sT: "sint (time_micros t) = T"
  proof -
    have "in_i64 T" using T by (simp add: in_i64_def)
    then show ?thesis using sint_word_of_int_i64 [of T] by (simp add: T_def)
  qed
  have D: "- 106751990 \<le> D" "D \<le> 106751990"
    using d by (auto simp: D_def)
  have in64: "in_i64 (D * 86400000000)" "in_i64 (D * 86400000000 + T)"
    using D T by (auto simp: in_i64_def)
  have dm: "(D * 86400000000 + T) div 86400000000 = D" "(D * 86400000000 + T) mod 86400000000 = T"
    using T by simp_all
  let ?ts = "\<lparr>ts_micros = word_of_int (D * 86400000000 + T)\<rparr> :: Timestamp"
  have "Timestamp_new d t = Some ?ts"
    using in64 by (simp add: Timestamp_new_def MICROS_PER_DAY_def chk64_def sT Let_def flip: D_def)
  moreover have "sint (ts_micros ?ts) = D * 86400000000 + T"
    by (simp only: Timestamp.simps sint_word_of_int_i64 [OF in64(2)])
  then have "to_date_time ?ts = (d, t)"
  proof -
    assume s: "sint (ts_micros ?ts) = D * 86400000000 + T"
    have K: "MICROS_PER_DAY = 86400000000"
      by (simp add: MICROS_PER_DAY_def)
    show ?thesis
      unfolding to_date_time_def s K dm Let_def by (simp add: D_def T_def)
  qed
  ultimately show ?thesis
    by blast
qed

lemma parts_of_date_time:
  assumes "- 9223372022400000000 \<le> sint (ts_micros t)"
  shows "Timestamp_new (fst (to_date_time t)) (snd (to_date_time t)) = Some t"
    and "time_micros (snd (to_date_time t)) \<le> MAX_MICROSECONDS"
proof -
  define u where "u = sint (ts_micros t)"
  have u: "- 9223372022400000000 \<le> u" "u < 9223372036854775808"
    using assms sint_i64_bounds [of "ts_micros t"] by (simp_all add: u_def)
  obtain q where q: "u div 86400000000 = q" "86400000000 * q \<le> u" "u < 86400000000 * q + 86400000000"
    by (rule quotE [of 86400000000 u]) auto
  define r where "r = u - 86400000000 * q"
  have um: "u mod 86400000000 = r" and r: "0 \<le> r" "r < 86400000000"
    using q by (simp_all add: r_def minus_mult_div_eq_mod [symmetric])
  have ur: "u = q * 86400000000 + r" by (simp add: r_def)
  have w: "sint (word_of_int q :: i32) = q" "sint (word_of_int r :: i64) = r"
    using q(2,3) u r by (auto intro!: sint_word_of_int_i32 sint_word_of_int_i64 simp: in_i32_def in_i64_def)
  have in64: "in_i64 (q * 86400000000)" "in_i64 (q * 86400000000 + r)"
  proof -
    have "- 106751991 \<le> q" "q \<le> 106751991"
      using q(2,3) u by linarith+
    then show "in_i64 (q * 86400000000)"
      by (simp add: in_i64_def)
    show "in_i64 (q * 86400000000 + r)"
      using u by (simp add: in_i64_def flip: ur)
  qed
  have dt: "to_date_time t = (\<lparr>date_days = word_of_int q\<rparr>, \<lparr>time_micros = word_of_int r\<rparr>)"
    by (simp add: to_date_time_def MICROS_PER_DAY_def q(1) um flip: u_def)
  have "word_of_int u = ts_micros t" by (simp add: u_def)
  then show "Timestamp_new (fst (to_date_time t)) (snd (to_date_time t)) = Some t"
    using in64 unfolding dt Timestamp_new_def MICROS_PER_DAY_def
    by (simp add: chk64_def w Let_def ur [symmetric])
  have "uint (word_of_int r :: u64) = r"
    using r by (simp add: unsigned_of_int take_bit_int_eq_self)
  then show "time_micros (snd (to_date_time t)) \<le> MAX_MICROSECONDS"
    using r by (simp add: dt word_le_def time_consts)
qed

lemma Interval_decode_encode: "Interval_decode (Interval_encode i) = i"
  by (simp add: Interval_decode_def Interval_encode_def)

section \<open>Properties\<close>

text \<open>The calendar arithmetic is right: for every valid date of the proleptic Gregorian
  calendar between the years -4799 and 1000000, \<open>Date::new\<close> does not overflow, and \<open>to_ymd\<close> returns
  the year, month and day it was made from.\<close>

theorem Date_ymd_roundtrip:
  assumes "valid_ymd (sint year) (uint month) (uint day)" "- 4799 \<le> sint year" "sint year \<le> 1000000"
  shows "\<exists>x. Date_new year month day = Some x \<and> to_ymd x = Some (year, month, day)"
  using assms by (rule ymd_days_ymd)

theorem Date_ymd_roundtrip_witness:
  "\<exists>x. Date_new 2024 2 29 = Some x \<and> to_ymd x = Some (2024, 2, 29)"
  by (rule Date_ymd_roundtrip) (simp_all add: valid_ymd_def days_in_month_def leap_def)

text \<open>Every stored day number in the supported range is a valid date of the years 0 to 9999, and
  \<open>Date::new\<close> on its parts returns the same day number.\<close>

theorem Date_days_roundtrip:
  assumes "MIN_DAYS \<le> sint (date_days x)" "sint (date_days x) \<le> MAX_DAYS"
  shows "\<exists>year month day. to_ymd x = Some (year, month, day) \<and> 0 \<le> sint year \<and> sint year \<le> 9999
    \<and> valid_ymd (sint year) (uint month) (uint day) \<and> Date_new year month day = Some x"
  using assms by (rule days_ymd_days)

theorem Date_days_roundtrip_witness:
  "\<exists>year month day. to_ymd \<lparr>date_days = 0\<rparr> = Some (year, month, day) \<and> 0 \<le> sint year \<and> sint year \<le> 9999
    \<and> valid_ymd (sint year) (uint month) (uint day) \<and> Date_new year month day = Some \<lparr>date_days = 0\<rparr>"
  by (rule Date_days_roundtrip) (simp_all add: date_consts)

text \<open>The checked decoder of dates accepts exactly the Julian days of its documented constants and
  returns for them what the unchecked decoder returns; it reads back what \<open>encode\<close>
  wrote for exactly the dates in range.\<close>

theorem Date_try_decode_range:
  "((\<exists>y. Date_try_decode w = Inr y) \<longleftrightarrow> MIN_JULIAN_DAY \<le> sint w \<and> sint w \<le> MAX_JULIAN_DAY) \<and>
   (case Date_try_decode w of Inr y \<Rightarrow> y = Date_decode w | Inl _ \<Rightarrow> True) \<and>
   (Date_try_decode (Date_encode x) = Inr x \<longleftrightarrow> MIN_DAYS \<le> sint (date_days x) \<and> sint (date_days x) \<le> MAX_DAYS)"
  using Date_try_decode_encode(2,3) [of w] Date_try_decode_encode(1) [of x] by (auto split: sum.split)

text \<open>The smallest accepted Julian day is the first of January of the year 0, one year before what
  its comment says.\<close>

theorem MIN_JULIAN_DAY_is_year_0:
  "Date_try_decode (word_of_int MIN_JULIAN_DAY) = Inr \<lparr>date_days = word_of_int MIN_DAYS\<rparr> \<and>
   to_ymd \<lparr>date_days = word_of_int MIN_DAYS\<rparr> = Some (0, 1, 1)"
  by code_simp

text \<open>A timestamp and its parts: for every date whose timestamp fits (about 292000 years around
  the epoch) and every time of day, \<open>Timestamp::new\<close> does not overflow and \<open>to_date_time\<close>
  returns the same date and time, also before the epoch.\<close>

theorem Timestamp_parts_roundtrip:
  assumes "\<bar>sint (date_days d)\<bar> \<le> 106751990" "time_micros t \<le> MAX_MICROSECONDS"
  shows "\<exists>ts. Timestamp_new d t = Some ts \<and> to_date_time ts = (d, t)"
  using assms by (rule date_time_of_parts)

theorem Timestamp_parts_roundtrip_witness:
  "\<exists>ts. Timestamp_new \<lparr>date_days = - 1\<rparr> \<lparr>time_micros = 1\<rparr> = Some ts \<and>
     to_date_time ts = (\<lparr>date_days = - 1\<rparr>, \<lparr>time_micros = 1\<rparr>)"
  by (rule Timestamp_parts_roundtrip) (simp_all add: time_consts)

text \<open>Times of day: \<open>to_hms_micro\<close> of a time in range gives an hour below 24, a minute and a second
  below 60 and microseconds below a million, from which \<open>Time::new\<close> rebuilds the time.\<close>

theorem Time_hms_roundtrip:
  assumes "time_micros t \<le> MAX_MICROSECONDS"
  shows "case to_hms_micro t of (h, m, s, us) \<Rightarrow>
     Time_new h m s us = t \<and> h < 24 \<and> m < 60 \<and> s < 60 \<and> us < 1000000"
  using assms by (rule Time_new_hms)

theorem Time_hms_roundtrip_witness:
  "case to_hms_micro \<lparr>time_micros = 45296000007\<rparr> of (h, m, s, us) \<Rightarrow>
     Time_new h m s us = \<lparr>time_micros = 45296000007\<rparr> \<and> h < 24 \<and> m < 60 \<and> s < 60 \<and> us < 1000000"
  by (rule Time_hms_roundtrip) (simp add: time_consts)

end
