(* ===== verification/Numeric_Decimal.thy ===== *)
theory Numeric_Decimal
  imports Rust_Text
begin

text \<open>
  Fixed-point numbers and geography values, \<open>hyperdb-api-core/src/types/special.rs\<close>: \<open>Numeric\<close>
  (constructors, the 8-byte and 16-byte wire forms, \<open>Display\<close>) and the byte container
  \<open>Geography\<close>. The conversions of \<open>Numeric\<close> from and to \<open>f64\<close> and the WKT/WKB conversions of
  \<open>Geography\<close> (third-party parsers) are not part of the model.

  \<open>Display\<close> renders the digits into an array of 39 bytes from its end; \<open>None\<close> stands for a
  write before the start of that array.
\<close>

section \<open>The code\<close>

record Numeric =
  num_value :: i128
  num_scale :: u8

definition SMALL_NUMERIC_MAX_PRECISION :: nat where "SMALL_NUMERIC_MAX_PRECISION = 18"
definition MAX_MAGNITUDE_DIGITS :: nat where "MAX_MAGNITUDE_DIGITS = 39"

definition Numeric_new :: "i128 \<Rightarrow> u8 \<Rightarrow> Numeric" where
  "Numeric_new v s = \<lparr>num_value = v, num_scale = s\<rparr>"

definition from_i128 :: "i128 \<Rightarrow> Numeric" where
  "from_i128 v = \<lparr>num_value = v, num_scale = 0\<rparr>"

definition from_i64 :: "i64 \<Rightarrow> Numeric" where
  "from_i64 v = \<lparr>num_value = scast v, num_scale = 0\<rparr>"

definition from_i32 :: "i32 \<Rightarrow> Numeric" where
  "from_i32 v = \<lparr>num_value = scast v, num_scale = 0\<rparr>"

definition Numeric_encode :: "Numeric \<Rightarrow> bytes" where
  "Numeric_encode n = to_le_bytes (num_value n)"

definition encode_int64 :: "Numeric \<Rightarrow> string + bytes" where
  "encode_int64 n =
     (if in_i64 (sint (num_value n)) then Inr (to_le_bytes (word_of_int (sint (num_value n)) :: i64))
      else Inl (''Numeric::encode_int64 called with value '' @ show_int (sint (num_value n))
             @ '' outside i64 range; precision must be <= '' @ show_nat SMALL_NUMERIC_MAX_PRECISION
             @ '' for the 64-bit wire form (use Numeric::encode for the 16-byte form instead)''))"

definition Numeric_decode :: "bytes \<Rightarrow> u8 \<Rightarrow> Numeric" where
  "Numeric_decode buf s = \<lparr>num_value = from_le_bytes buf, num_scale = s\<rparr>"

definition decode_int64 :: "bytes \<Rightarrow> u8 \<Rightarrow> Numeric" where
  "decode_int64 buf s = \<lparr>num_value = scast (from_le_bytes buf :: i64), num_scale = s\<rparr>"

definition from_binary_with_scale :: "bytes \<Rightarrow> u8 \<Rightarrow> string + Numeric" where
  "from_binary_with_scale buf s =
     (if length buf = 8 then Inr (decode_int64 buf s)
      else if length buf = 16 then Inr (Numeric_decode buf s)
      else Inl (''invalid buffer size for Numeric (expected 8 or 16 bytes, got ''
             @ show_nat (length buf) @ '')''))"

text \<open>The digit loop of \<open>Display\<close>: \<open>start\<close> moves down as digits are written.\<close>

function digit_loop :: "nat \<Rightarrow> bytes \<Rightarrow> nat \<Rightarrow> (nat \<times> bytes) option" where
  "digit_loop start buf magnitude =
     (if start = 0 then None
      else
        let start = start - 1;
            buf = buf[start := byte_of CHR ''0'' + word_of_nat (magnitude mod 10)];
            magnitude = magnitude div 10
        in if magnitude = 0 then Some (start, buf) else digit_loop start buf magnitude)"
  by pat_completeness auto
termination
  by (relation "measure (\<lambda>(start, _, _). start)") auto

declare digit_loop.simps [simp del]

definition Numeric_fmt :: "Numeric \<Rightarrow> string option" where
  "Numeric_fmt n =
     (let v = sint (num_value n); scale = unat (num_scale n)
      in if num_scale n = 0 then Some (show_int v)
         else do {
           let sign = (if v < 0 then ''-'' else '''');
           (start, buf) \<leftarrow> digit_loop MAX_MAGNITUDE_DIGITS (replicate MAX_MAGNITUDE_DIGITS 0) (nat \<bar>v\<bar>);
           digits \<leftarrow> from_utf8 (drop start buf);
           Some (sign @
             (if length digits > scale then
                let point = length digits - scale
                in take point digits @ ''.'' @ drop point digits
              else ''0.'' @ pad_zeros scale digits)) })"

datatype GeographyBinaryFormat = HyperLegacy | Wkb

record Geography =
  geo_data :: bytes
  geo_format :: GeographyBinaryFormat

definition Geography_from_bytes :: "bytes \<Rightarrow> Geography" where
  "Geography_from_bytes d = \<lparr>geo_data = d, geo_format = HyperLegacy\<rparr>"

definition from_wkb_bytes :: "bytes \<Rightarrow> Geography" where
  "from_wkb_bytes d = \<lparr>geo_data = d, geo_format = Wkb\<rparr>"

definition is_wkb :: "Geography \<Rightarrow> bool" where
  "is_wkb g \<longleftrightarrow> geo_format g = Wkb"

definition is_hyper_legacy :: "Geography \<Rightarrow> bool" where
  "is_hyper_legacy g \<longleftrightarrow> geo_format g = HyperLegacy"

section \<open>The wire forms\<close>

lemma scast_i64_i128: "(scast (w :: i64) :: i128) = word_of_int (sint w)"
  by simp

lemma sint_scast_i64: "sint (scast (w :: i64) :: i128) = sint w"
proof -
  have "sint (word_of_int x :: i128) = x" if "- (2 ^ 127) \<le> x" "x < 2 ^ 127" for x
    using that by (simp add: signed_of_int signed_take_bit_int_eq_self)
  from this [of "sint w"] show ?thesis
    using sint_i64_bounds [of w] by simp
qed

lemma scast_i64_narrow:
  assumes "in_i64 (sint (v :: i128))"
  shows "(scast (word_of_int (sint v) :: i64) :: i128) = v"
proof -
  have "(scast (word_of_int (sint v) :: i64) :: i128) = word_of_int (sint (word_of_int (sint v) :: i64))"
    by (rule scast_i64_i128)
  also have "\<dots> = word_of_int (sint v)"
    by (simp only: sint_word_of_int_i64 [OF assms])
  finally show ?thesis
    by simp
qed

lemma decode_encode_int64:
  assumes "in_i64 (sint (num_value n))"
  shows "\<exists>bs. encode_int64 n = Inr bs \<and> from_binary_with_scale bs (num_scale n) = Inr n"
  using assms scast_i64_narrow [OF assms]
  by (simp add: encode_int64_def from_binary_with_scale_def decode_int64_def)

lemma decode_encode_i128: "from_binary_with_scale (Numeric_encode n) (num_scale n) = Inr n"
  by (simp add: from_binary_with_scale_def Numeric_encode_def Numeric_decode_def)

section \<open>\<open>Display\<close>\<close>

lemma byte_of_digit: "d < 10 \<Longrightarrow> byte_of CHR ''0'' + word_of_nat d = byte_of (digit_char d)"
  by (simp add: byte_of_def digit_char_def)

lemma digit_loop_show:
  "length (show_nat m) \<le> start \<Longrightarrow> start \<le> length buf \<Longrightarrow>
   digit_loop start buf m =
     Some (start - length (show_nat m),
           take (start - length (show_nat m)) buf @ as_bytes (show_nat m) @ drop start buf)"
proof (induction start buf m rule: digit_loop.induct)
  case (1 start buf m)
  have nz: "start \<noteq> 0"
    using 1(2) by (cases "show_nat m") auto
  let ?s = "start - 1" and ?b = "byte_of (digit_char (m mod 10))"
  have upd: "buf[?s := ?b] = take ?s buf @ ?b # drop start buf"
    using 1(3) nz by (simp add: upd_conv_take_nth_drop)
  have step: "digit_loop start buf m =
      (if m div 10 = 0 then Some (?s, buf[?s := ?b]) else digit_loop ?s (buf[?s := ?b]) (m div 10))"
    using nz by (subst digit_loop.simps) (simp add: Let_def byte_of_digit)
  show ?case
  proof (cases "m < 10")
    case True
    then have "show_nat m = [digit_char m]"
      by (simp add: show_nat.simps)
    with True step upd show ?thesis
      by (simp add: as_bytes_def)
  next
    case False
    then have sh: "show_nat m = show_nat (m div 10) @ [digit_char (m mod 10)]"
      by (subst show_nat.simps) simp
    let ?L = "length (show_nat (m div 10))"
    have L: "?L \<le> ?s" "?s \<le> length (buf[?s := ?b])"
      using 1(2,3) sh by simp_all
    have "digit_loop ?s (buf[?s := ?b]) (m div 10)
        = Some (?s - ?L, take (?s - ?L) (buf[?s := ?b]) @ as_bytes (show_nat (m div 10)) @ drop ?s (buf[?s := ?b]))"
      using 1(1) [OF nz refl refl refl _ L(1)] L False by (simp add: byte_of_digit div_eq_0_iff)
    moreover have "take (?s - ?L) (buf[?s := ?b]) = take (?s - ?L) buf"
      by (simp add: take_update_cancel)
    moreover have "drop ?s (buf[?s := ?b]) = ?b # drop start buf"
      unfolding upd using 1(3) nz by simp
    ultimately show ?thesis
      using step False sh by (simp add: as_bytes_def div_eq_0_iff)
  qed
qed

lemma magnitude_digits: "length (show_nat (nat \<bar>sint (v :: i128)\<bar>)) \<le> 39"
proof -
  have "- (2 ^ 127) \<le> sint v" "sint v < 2 ^ 127"
    using sint_greater_eq [of v] sint_less [of v] by simp_all
  then have "nat \<bar>sint v\<bar> < 10 ^ Suc 38"
    by auto
  then show ?thesis
    using length_show_nat_le [of _ 38] by simp
qed

lemma show_nat_ascii: "utf8_valid (as_bytes (show_nat n))"
proof -
  have "byte_of c < 0x80" if "char_digit c \<noteq> None" for c
    using that by (auto simp: char_digit_def Let_def word_less_nat_alt split: if_splits)
  then show ?thesis
    using show_nat_digits [of n] by (intro utf8_valid_ascii) (auto simp: list_all_iff as_bytes_def)
qed

text \<open>The text in closed form, for every value and scale.\<close>

lemma Numeric_fmt_eq:
  "Numeric_fmt n =
     Some (if num_scale n = 0 then show_int (sint (num_value n))
       else (if sint (num_value n) < 0 then ''-'' else '''') @
         (let digits = show_nat (nat \<bar>sint (num_value n)\<bar>); scale = unat (num_scale n)
          in if length digits > scale
             then take (length digits - scale) digits @ ''.'' @ drop (length digits - scale) digits
             else ''0.'' @ pad_zeros scale digits))"
proof -
  let ?m = "nat \<bar>sint (num_value n)\<bar>"
  let ?k = "39 - length (show_nat ?m)"
  have "digit_loop 39 (replicate 39 0) ?m = Some (?k, take ?k (replicate 39 0) @ as_bytes (show_nat ?m))"
    using digit_loop_show [of ?m 39 "replicate 39 0"] magnitude_digits [of "num_value n"] by simp
  moreover have "drop ?k (take ?k (replicate 39 (0 :: u8)) @ as_bytes (show_nat ?m)) = as_bytes (show_nat ?m)"
    by (rule drop_append_exact) simp
  ultimately show ?thesis
    by (simp add: Numeric_fmt_def MAX_MAGNITUDE_DIGITS_def from_utf8_as_bytes [OF show_nat_ascii] Let_def
        del: take_replicate drop_append)
qed

text \<open>Reading decimal text back: the unscaled value and the number of fractional digits.\<close>

definition parse_decimal :: "string \<Rightarrow> (int \<times> nat) option" where
  "parse_decimal s =
     (let neg = (s \<noteq> [] \<and> hd s = CHR ''-'');
          r = (if neg then tl s else s);
          int_part = takeWhile (\<lambda>c. c \<noteq> CHR ''.'') r;
          frac_part = drop (length int_part + 1) r
      in map_option (\<lambda>n. ((if neg then - int n else int n), length frac_part))
           (parse_nat (int_part @ frac_part)))"

lemma digits_no_point: "list_all (\<lambda>c. char_digit c \<noteq> None) ds \<Longrightarrow> c \<in> set ds \<Longrightarrow> c \<noteq> CHR ''.'' \<and> c \<noteq> CHR ''-''"
  by (auto simp: list_all_iff char_digit_def Let_def)

lemma parse_decimal_digits:
  assumes "list_all (\<lambda>c. char_digit c \<noteq> None) ip" "ip \<noteq> []" "parse_nat (ip @ fp) = Some m"
  shows "parse_decimal ((if neg then ''-'' else '''') @ ip @ ''.'' @ fp)
       = Some ((if neg then - int m else int m), length fp)"
proof -
  have "takeWhile (\<lambda>c. c \<noteq> CHR ''.'') (ip @ ''.'' @ fp) = ip"
    using digits_no_point [OF assms(1)] by (subst takeWhile_append2) auto
  moreover have "hd ip \<noteq> CHR ''-''"
    using digits_no_point [OF assms(1), of "hd ip"] assms(2) by simp
  ultimately show ?thesis
    using assms(2,3) by (auto simp: parse_decimal_def Let_def)
qed

lemma parse_decimal_int: "parse_decimal (show_int v) = Some (v, 0)"
proof -
  have tw: "takeWhile (\<lambda>c. c \<noteq> CHR ''.'') (show_nat m) = show_nat m" for m
    using digits_no_point [OF show_nat_digits] by (intro takeWhile_eq_all_conv [THEN iffD2]) blast
  have hd: "hd (show_nat m) \<noteq> CHR ''-''" for m
    using digits_no_point [OF show_nat_digits [of m], of "hd (show_nat m)"] by simp
  show ?thesis
    by (auto simp: parse_decimal_def show_int_def tw hd Let_def)
qed

section \<open>Properties\<close>

text \<open>\<open>Display\<close> for \<open>Numeric\<close> never panics, for any \<open>i128\<close> value and any \<open>u8\<close> scale, and its text
  is exact: read back as a decimal number it gives the unscaled value, sign included, and the
  scale.\<close>

theorem Numeric_display_exact:
  "\<exists>s. Numeric_fmt n = Some s \<and> parse_decimal s = Some (sint (num_value n), unat (num_scale n))"
proof (cases "num_scale n = 0")
  case True
  then show ?thesis
    by (simp add: Numeric_fmt_eq parse_decimal_int)
next
  case False
  let ?v = "sint (num_value n)" and ?k = "unat (num_scale n)"
  let ?ds = "show_nat (nat \<bar>?v\<bar>)"
  have sgn: "(if ?v < 0 then - int (nat \<bar>?v\<bar>) else int (nat \<bar>?v\<bar>)) = ?v"
    by simp
  show ?thesis
  proof (cases "length ?ds > ?k")
    case True
    let ?p = "length ?ds - ?k"
    have "list_all (\<lambda>c. char_digit c \<noteq> None) (take ?p ?ds)"
      using show_nat_digits [of "nat \<bar>?v\<bar>"] by (auto simp: list_all_iff dest: in_set_takeD)
    from parse_decimal_digits [OF this, of "drop ?p ?ds" "nat \<bar>?v\<bar>" "?v < 0"] True False
    show ?thesis
      by (simp add: Numeric_fmt_eq Let_def sgn)
  next
    case short: False
    have z: "digits_value 0 (CHR ''0'' # t) = digits_value 0 t" for t
      using digits_value_zeros [of 1 t] by simp
    have "parse_nat (''0'' @ pad_zeros ?k ?ds) = Some (nat \<bar>?v\<bar>)"
      using parse_nat_pad_zeros [of ?k "nat \<bar>?v\<bar>"] z by (simp add: parse_nat_def pad_zeros_def split: if_splits)
    moreover have "list_all (\<lambda>c. char_digit c \<noteq> None) ''0''"
      by (simp add: char_digit_def)
    ultimately show ?thesis
      using parse_decimal_digits [of "''0''" "pad_zeros ?k ?ds" "nat \<bar>?v\<bar>" "?v < 0"] short False
      by (simp add: Numeric_fmt_eq Let_def sgn)
  qed
qed

text \<open>The two wire forms of \<open>Numeric\<close>: the 16-byte form decodes to the value that was
  encoded, always; the 8-byte form is refused exactly when the unscaled value does not fit \<open>i64\<close>,
  and otherwise decodes to the value as well.\<close>

theorem Numeric_wire_roundtrip:
  "from_binary_with_scale (Numeric_encode n) (num_scale n) = Inr n \<and>
   (case encode_int64 n of
      Inr bs \<Rightarrow> in_i64 (sint (num_value n)) \<and> length bs = 8 \<and> from_binary_with_scale bs (num_scale n) = Inr n
    | Inl _ \<Rightarrow> \<not> in_i64 (sint (num_value n)))"
proof (cases "in_i64 (sint (num_value n))")
  case True
  then show ?thesis
    using decode_encode_int64 [OF True] by (simp add: decode_encode_i128 encode_int64_def)
qed (simp add: decode_encode_i128 encode_int64_def)

end
