(* ===== verification/Value_Codec.thy ===== *)
theory Value_Codec
  imports Datetime Numeric_Decimal
begin

text \<open>
  \<open>ToHyperBinary\<close> and \<open>FromHyperBinary\<close>: the traits of \<open>hyperdb-api-core/src/types/traits.rs\<close>, their
  implementations for primitive types, text, bytes and \<open>Option<T>\<close> in
  \<open>hyperdb-api-core/src/types/types.rs\<close>, and those for the types of
  \<open>hyperdb-api-core/src/types/special.rs\<close>.

  For a type \<open>T\<close>, \<open>T_ToHyperBinary\<close> is \<open>to_hyper_binary\<close>, \<open>T_ToHyperBinary_not_null\<close> is
  \<open>to_hyper_binary_not_null\<close>, \<open>T_size\<close> and \<open>T_size_not_null\<close> are the two size functions and
  \<open>T_FromHyperBinary\<close> is \<open>from_hyper_binary\<close>. A writer returns the result and the buffer as it
  leaves it; \<open>None\<close> is a panic. Errors of the standard library's parsers are kept by kind.
  The locale \<open>hyper_value\<close> is the contract of the two traits, interpreted on every type.
\<close>

section \<open>\<open>traits.rs\<close>\<close>

type_synonym put_result = "((string + unit) \<times> bytes) option"

definition null_indicator_write :: "bytes \<Rightarrow> bytes" where
  "null_indicator_write buf = buf @ [1]"

definition write_not_null_indicator :: "bytes \<Rightarrow> bytes" where
  "write_not_null_indicator buf = buf @ [0]"

definition NULL_INDICATOR_SIZE :: nat where "NULL_INDICATOR_SIZE = 1"

definition put_ok :: "bytes \<Rightarrow> put_result" where
  "put_ok buf = Some (Inr (), buf)"

section \<open>\<open>types.rs\<close>\<close>

text \<open>Text that a heuristic recognises: digits and signs, for floats also the point and the
  exponent; then \<open>str::from_utf8\<close>, \<open>trim\<close> and \<open>parse\<close>.\<close>

definition is_ascii_digit :: "u8 \<Rightarrow> bool" where
  "is_ascii_digit b \<longleftrightarrow> byte_of CHR ''0'' \<le> b \<and> b \<le> byte_of CHR ''9''"

definition looks_like_int :: "bytes \<Rightarrow> bool" where
  "looks_like_int buf \<longleftrightarrow>
     list_all (\<lambda>b. is_ascii_digit b \<or> b = byte_of CHR ''-'' \<or> b = byte_of CHR ''+'') buf"

definition looks_like_float :: "bytes \<Rightarrow> bool" where
  "looks_like_float buf \<longleftrightarrow>
     list_all (\<lambda>b. is_ascii_digit b \<or> b = byte_of CHR ''-'' \<or> b = byte_of CHR ''+''
       \<or> b = byte_of CHR ''.'' \<or> b = byte_of CHR ''e'' \<or> b = byte_of CHR ''E'') buf"

definition int_from_text :: "int \<Rightarrow> int \<Rightarrow> bytes \<Rightarrow> string + ('a::len) word" where
  "int_from_text lo hi buf =
     (case from_utf8 buf of
        None \<Rightarrow> Inl ''invalid utf-8''
      | Some s \<Rightarrow>
          (case parse_signed lo hi (trim s) of
             None \<Rightarrow> Inl ''invalid integer''
           | Some x \<Rightarrow> Inr (word_of_int x)))"

text \<open>The text branch for floats, with the decimal reader of the standard library as an argument.\<close>

definition float_from_text :: "(string \<Rightarrow> ('a::len) word option) \<Rightarrow> bytes \<Rightarrow> string + 'a word" where
  "float_from_text parse_float buf =
     (case from_utf8 buf of
        None \<Rightarrow> Inl ''invalid utf-8''
      | Some s \<Rightarrow>
          (case parse_float (trim s) of None \<Rightarrow> Inl ''invalid float'' | Some x \<Rightarrow> Inr x))"

subsection \<open>\<open>bool\<close>\<close>

definition bool_ToHyperBinary_not_null :: "bool \<Rightarrow> bytes \<Rightarrow> put_result" where
  "bool_ToHyperBinary_not_null v buf = put_ok (buf @ [if v then 1 else 0])"

definition bool_ToHyperBinary :: "bool \<Rightarrow> bytes \<Rightarrow> put_result" where
  "bool_ToHyperBinary v buf = put_ok (write_not_null_indicator buf @ [if v then 1 else 0])"

definition bool_size :: "bool \<Rightarrow> nat" where
  "bool_size v = NULL_INDICATOR_SIZE + 1"

definition bool_size_not_null :: "bool \<Rightarrow> nat" where
  "bool_size_not_null v = 1"

definition bool_FromHyperBinary :: "bytes \<Rightarrow> string + bool" where
  "bool_FromHyperBinary buf =
     (if length buf \<noteq> 1 then Inl ''invalid buffer size for bool''
      else
        let b = buf ! 0
        in if b = byte_of CHR ''t'' \<or> b = byte_of CHR ''T'' \<or> b = 1 then Inr True
           else if b = byte_of CHR ''f'' \<or> b = byte_of CHR ''F'' \<or> b = 0 then Inr False
           else Inl (''invalid bool value: '' @ show_nat (unat b)))"

subsection \<open>Integers\<close>

definition i8_ToHyperBinary_not_null :: "i8 \<Rightarrow> bytes \<Rightarrow> put_result" where
  "i8_ToHyperBinary_not_null v buf = put_ok (buf @ to_le_bytes v)"

definition i8_ToHyperBinary :: "i8 \<Rightarrow> bytes \<Rightarrow> put_result" where
  "i8_ToHyperBinary v buf = put_ok (write_not_null_indicator buf @ to_le_bytes v)"

definition i8_size :: "i8 \<Rightarrow> nat" where
  "i8_size v = NULL_INDICATOR_SIZE + 1"

definition i8_size_not_null :: "i8 \<Rightarrow> nat" where
  "i8_size_not_null v = 1"

definition i8_FromHyperBinary :: "bytes \<Rightarrow> string + i8" where
  "i8_FromHyperBinary buf =
     (if length buf = 1 \<and> buf ! 0 \<le> 127 then Inr (buf ! 0) else int_from_text (- 128) 127 buf)"

definition i16_ToHyperBinary_not_null :: "i16 \<Rightarrow> bytes \<Rightarrow> put_result" where
  "i16_ToHyperBinary_not_null v buf = put_ok (buf @ to_le_bytes v)"

definition i16_ToHyperBinary :: "i16 \<Rightarrow> bytes \<Rightarrow> put_result" where
  "i16_ToHyperBinary v buf = put_ok (write_not_null_indicator buf @ to_le_bytes v)"

definition i16_size :: "i16 \<Rightarrow> nat" where
  "i16_size v = NULL_INDICATOR_SIZE + 2"

definition i16_size_not_null :: "i16 \<Rightarrow> nat" where
  "i16_size_not_null v = 2"

definition i16_FromHyperBinary :: "bytes \<Rightarrow> string + i16" where
  "i16_FromHyperBinary buf =
     (if length buf = 2 then Inr (from_le_bytes buf) else int_from_text (- (2 ^ 15)) (2 ^ 15 - 1) buf)"

definition i32_ToHyperBinary_not_null :: "i32 \<Rightarrow> bytes \<Rightarrow> put_result" where
  "i32_ToHyperBinary_not_null v buf = put_ok (buf @ to_le_bytes v)"

definition i32_ToHyperBinary :: "i32 \<Rightarrow> bytes \<Rightarrow> put_result" where
  "i32_ToHyperBinary v buf = put_ok (write_not_null_indicator buf @ to_le_bytes v)"

definition i32_size :: "i32 \<Rightarrow> nat" where
  "i32_size v = NULL_INDICATOR_SIZE + 4"

definition i32_size_not_null :: "i32 \<Rightarrow> nat" where
  "i32_size_not_null v = 4"

definition i32_FromHyperBinary :: "bytes \<Rightarrow> string + i32" where
  "i32_FromHyperBinary buf =
     (if looks_like_int buf \<or> length buf \<noteq> 4 then int_from_text (- (2 ^ 31)) (2 ^ 31 - 1) buf
      else Inr (from_le_bytes buf))"

definition i64_ToHyperBinary_not_null :: "i64 \<Rightarrow> bytes \<Rightarrow> put_result" where
  "i64_ToHyperBinary_not_null v buf = put_ok (buf @ to_le_bytes v)"

definition i64_ToHyperBinary :: "i64 \<Rightarrow> bytes \<Rightarrow> put_result" where
  "i64_ToHyperBinary v buf = put_ok (write_not_null_indicator buf @ to_le_bytes v)"

definition i64_size :: "i64 \<Rightarrow> nat" where
  "i64_size v = NULL_INDICATOR_SIZE + 8"

definition i64_size_not_null :: "i64 \<Rightarrow> nat" where
  "i64_size_not_null v = 8"

definition i64_FromHyperBinary :: "bytes \<Rightarrow> string + i64" where
  "i64_FromHyperBinary buf =
     (if looks_like_int buf \<or> length buf \<noteq> 8 then int_from_text (- (2 ^ 63)) (2 ^ 63 - 1) buf
      else Inr (from_le_bytes buf))"

definition u32_ToHyperBinary_not_null :: "u32 \<Rightarrow> bytes \<Rightarrow> put_result" where
  "u32_ToHyperBinary_not_null v buf = put_ok (buf @ to_le_bytes v)"

definition u32_ToHyperBinary :: "u32 \<Rightarrow> bytes \<Rightarrow> put_result" where
  "u32_ToHyperBinary v buf = put_ok (write_not_null_indicator buf @ to_le_bytes v)"

definition u32_size :: "u32 \<Rightarrow> nat" where
  "u32_size v = NULL_INDICATOR_SIZE + 4"

definition u32_size_not_null :: "u32 \<Rightarrow> nat" where
  "u32_size_not_null v = 4"

definition u32_FromHyperBinary :: "bytes \<Rightarrow> string + u32" where
  "u32_FromHyperBinary buf =
     (if length buf \<noteq> 4 then Inl ''invalid buffer size for u32'' else Inr (from_le_bytes buf))"

definition i128_ToHyperBinary_not_null :: "i128 \<Rightarrow> bytes \<Rightarrow> put_result" where
  "i128_ToHyperBinary_not_null v buf = put_ok (buf @ to_le_bytes v)"

definition i128_ToHyperBinary :: "i128 \<Rightarrow> bytes \<Rightarrow> put_result" where
  "i128_ToHyperBinary v buf = put_ok (write_not_null_indicator buf @ to_le_bytes v)"

definition i128_size :: "i128 \<Rightarrow> nat" where
  "i128_size v = NULL_INDICATOR_SIZE + 16"

definition i128_size_not_null :: "i128 \<Rightarrow> nat" where
  "i128_size_not_null v = 16"

definition i128_FromHyperBinary :: "bytes \<Rightarrow> string + i128" where
  "i128_FromHyperBinary buf =
     (if length buf \<noteq> 16 then Inl ''invalid buffer size for i128'' else Inr (from_le_bytes buf))"

definition u128_ToHyperBinary_not_null :: "u128 \<Rightarrow> bytes \<Rightarrow> put_result" where
  "u128_ToHyperBinary_not_null v buf = put_ok (buf @ to_le_bytes v)"

definition u128_ToHyperBinary :: "u128 \<Rightarrow> bytes \<Rightarrow> put_result" where
  "u128_ToHyperBinary v buf = put_ok (write_not_null_indicator buf @ to_le_bytes v)"

definition u128_size :: "u128 \<Rightarrow> nat" where
  "u128_size v = NULL_INDICATOR_SIZE + 16"

definition u128_size_not_null :: "u128 \<Rightarrow> nat" where
  "u128_size_not_null v = 16"

definition u128_FromHyperBinary :: "bytes \<Rightarrow> string + u128" where
  "u128_FromHyperBinary buf =
     (if length buf \<noteq> 16 then Inl ''invalid buffer size for u128'' else Inr (from_le_bytes buf))"

subsection \<open>Floats\<close>

definition f32_ToHyperBinary_not_null :: "f32 \<Rightarrow> bytes \<Rightarrow> put_result" where
  "f32_ToHyperBinary_not_null v buf = put_ok (buf @ to_le_bytes v)"

definition f32_ToHyperBinary :: "f32 \<Rightarrow> bytes \<Rightarrow> put_result" where
  "f32_ToHyperBinary v buf = put_ok (write_not_null_indicator buf @ to_le_bytes v)"

definition f32_size :: "f32 \<Rightarrow> nat" where
  "f32_size v = NULL_INDICATOR_SIZE + 4"

definition f32_size_not_null :: "f32 \<Rightarrow> nat" where
  "f32_size_not_null v = 4"

definition f32_FromHyperBinary :: "(string \<Rightarrow> f32 option) \<Rightarrow> bytes \<Rightarrow> string + f32" where
  "f32_FromHyperBinary parse_float buf =
     (if looks_like_float buf \<or> length buf \<noteq> 4 then float_from_text parse_float buf
      else Inr (from_le_bytes buf))"

definition f64_ToHyperBinary_not_null :: "f64 \<Rightarrow> bytes \<Rightarrow> put_result" where
  "f64_ToHyperBinary_not_null v buf = put_ok (buf @ to_le_bytes v)"

definition f64_ToHyperBinary :: "f64 \<Rightarrow> bytes \<Rightarrow> put_result" where
  "f64_ToHyperBinary v buf = put_ok (write_not_null_indicator buf @ to_le_bytes v)"

definition f64_size :: "f64 \<Rightarrow> nat" where
  "f64_size v = NULL_INDICATOR_SIZE + 8"

definition f64_size_not_null :: "f64 \<Rightarrow> nat" where
  "f64_size_not_null v = 8"

definition f64_FromHyperBinary :: "(string \<Rightarrow> f64 option) \<Rightarrow> bytes \<Rightarrow> string + f64" where
  "f64_FromHyperBinary parse_float buf =
     (if looks_like_float buf \<or> length buf \<noteq> 8 then float_from_text parse_float buf
      else Inr (from_le_bytes buf))"

subsection \<open>Text, bytes and geography: a four-byte length, then the data\<close>

text \<open>The nullable writer has written its indicator before it refuses an oversized value.\<close>

definition str_ToHyperBinary_not_null :: "string \<Rightarrow> bytes \<Rightarrow> put_result" where
  "str_ToHyperBinary_not_null v buf =
     (let data = as_bytes v
      in if length data \<ge> 2 ^ 32 then
           Some (Inl ''string length exceeds HyperBinary 4-byte length prefix (u32::MAX)'', buf)
         else put_ok (buf @ to_le_bytes (word_of_nat (length data) :: u32) @ data))"

definition str_ToHyperBinary :: "string \<Rightarrow> bytes \<Rightarrow> put_result" where
  "str_ToHyperBinary v buf =
     (let buf = write_not_null_indicator buf; data = as_bytes v
      in if length data \<ge> 2 ^ 32 then
           Some (Inl ''string length exceeds HyperBinary 4-byte length prefix (u32::MAX)'', buf)
         else put_ok (buf @ to_le_bytes (word_of_nat (length data) :: u32) @ data))"

definition str_size :: "string \<Rightarrow> nat" where
  "str_size v = NULL_INDICATOR_SIZE + 4 + length (as_bytes v)"

definition str_size_not_null :: "string \<Rightarrow> nat" where
  "str_size_not_null v = 4 + length (as_bytes v)"

definition str_FromHyperBinary :: "bytes \<Rightarrow> string + string" where
  "str_FromHyperBinary buf = (case from_utf8 buf of None \<Rightarrow> Inl ''invalid utf-8'' | Some s \<Rightarrow> Inr s)"

definition bytes_ToHyperBinary_not_null :: "bytes \<Rightarrow> bytes \<Rightarrow> put_result" where
  "bytes_ToHyperBinary_not_null v buf =
     (let data = v
      in if length data \<ge> 2 ^ 32 then
           Some (Inl ''byte slice length exceeds HyperBinary 4-byte length prefix (u32::MAX)'', buf)
         else put_ok (buf @ to_le_bytes (word_of_nat (length data) :: u32) @ data))"

definition bytes_ToHyperBinary :: "bytes \<Rightarrow> bytes \<Rightarrow> put_result" where
  "bytes_ToHyperBinary v buf =
     (let buf = write_not_null_indicator buf; data = v
      in if length data \<ge> 2 ^ 32 then
           Some (Inl ''byte slice length exceeds HyperBinary 4-byte length prefix (u32::MAX)'', buf)
         else put_ok (buf @ to_le_bytes (word_of_nat (length data) :: u32) @ data))"

definition bytes_size :: "bytes \<Rightarrow> nat" where
  "bytes_size v = NULL_INDICATOR_SIZE + 4 + length (v)"

definition bytes_size_not_null :: "bytes \<Rightarrow> nat" where
  "bytes_size_not_null v = 4 + length (v)"

definition bytes_FromHyperBinary :: "bytes \<Rightarrow> string + bytes" where
  "bytes_FromHyperBinary buf = Inr buf"

definition Geography_ToHyperBinary_not_null :: "Geography \<Rightarrow> bytes \<Rightarrow> put_result" where
  "Geography_ToHyperBinary_not_null v buf =
     (let data = geo_data v
      in if length data \<ge> 2 ^ 32 then
           Some (Inl ''geography length exceeds HyperBinary 4-byte length prefix (u32::MAX)'', buf)
         else put_ok (buf @ to_le_bytes (word_of_nat (length data) :: u32) @ data))"

definition Geography_ToHyperBinary :: "Geography \<Rightarrow> bytes \<Rightarrow> put_result" where
  "Geography_ToHyperBinary v buf =
     (let buf = write_not_null_indicator buf; data = geo_data v
      in if length data \<ge> 2 ^ 32 then
           Some (Inl ''geography length exceeds HyperBinary 4-byte length prefix (u32::MAX)'', buf)
         else put_ok (buf @ to_le_bytes (word_of_nat (length data) :: u32) @ data))"

definition Geography_size :: "Geography \<Rightarrow> nat" where
  "Geography_size v = NULL_INDICATOR_SIZE + 4 + length (geo_data v)"

definition Geography_size_not_null :: "Geography \<Rightarrow> nat" where
  "Geography_size_not_null v = 4 + length (geo_data v)"

definition Geography_FromHyperBinary :: "bytes \<Rightarrow> string + Geography" where
  "Geography_FromHyperBinary buf = Inr \<lparr>geo_data = buf, geo_format = HyperLegacy\<rparr>"

section \<open>\<open>special.rs\<close>\<close>

definition Date_ToHyperBinary_not_null :: "Date \<Rightarrow> bytes \<Rightarrow> put_result" where
  "Date_ToHyperBinary_not_null v buf = put_ok (buf @ to_le_bytes (to_julian_day v))"

definition Date_ToHyperBinary :: "Date \<Rightarrow> bytes \<Rightarrow> put_result" where
  "Date_ToHyperBinary v buf = put_ok (write_not_null_indicator buf @ to_le_bytes (to_julian_day v))"

definition Date_size :: "Date \<Rightarrow> nat" where
  "Date_size v = NULL_INDICATOR_SIZE + 4"

definition Date_size_not_null :: "Date \<Rightarrow> nat" where
  "Date_size_not_null v = 4"

definition Date_FromHyperBinary :: "bytes \<Rightarrow> string + Date" where
  "Date_FromHyperBinary buf =
     (if length buf \<noteq> 4 then Inl ''invalid buffer size for Date'' else Date_try_decode (from_le_bytes buf))"

definition Time_ToHyperBinary_not_null :: "Time \<Rightarrow> bytes \<Rightarrow> put_result" where
  "Time_ToHyperBinary_not_null v buf = put_ok (buf @ to_le_bytes (time_micros v))"

definition Time_ToHyperBinary :: "Time \<Rightarrow> bytes \<Rightarrow> put_result" where
  "Time_ToHyperBinary v buf = put_ok (write_not_null_indicator buf @ to_le_bytes (time_micros v))"

definition Time_size :: "Time \<Rightarrow> nat" where
  "Time_size v = NULL_INDICATOR_SIZE + 8"

definition Time_size_not_null :: "Time \<Rightarrow> nat" where
  "Time_size_not_null v = 8"

definition Time_FromHyperBinary :: "bytes \<Rightarrow> string + Time" where
  "Time_FromHyperBinary buf =
     (if length buf \<noteq> 8 then Inl ''invalid buffer size for Time''
      else Time_try_from_microseconds (from_le_bytes buf))"

definition Timestamp_ToHyperBinary_not_null :: "Timestamp \<Rightarrow> bytes \<Rightarrow> put_result" where
  "Timestamp_ToHyperBinary_not_null v buf =
     do { us \<leftarrow> Timestamp_to_microseconds v; put_ok (buf @ to_le_bytes us) }"

definition Timestamp_ToHyperBinary :: "Timestamp \<Rightarrow> bytes \<Rightarrow> put_result" where
  "Timestamp_ToHyperBinary v buf =
     do { us \<leftarrow> Timestamp_to_microseconds v; put_ok (write_not_null_indicator buf @ to_le_bytes us) }"

definition Timestamp_size :: "Timestamp \<Rightarrow> nat" where
  "Timestamp_size v = NULL_INDICATOR_SIZE + 8"

definition Timestamp_size_not_null :: "Timestamp \<Rightarrow> nat" where
  "Timestamp_size_not_null v = 8"

definition Timestamp_FromHyperBinary :: "bytes \<Rightarrow> string + Timestamp" where
  "Timestamp_FromHyperBinary buf =
     (if length buf \<noteq> 8 then Inl ''invalid buffer size for Timestamp''
      else Inr (Timestamp_decode (from_le_bytes buf)))"

definition OffsetTimestamp_ToHyperBinary_not_null :: "OffsetTimestamp \<Rightarrow> bytes \<Rightarrow> put_result" where
  "OffsetTimestamp_ToHyperBinary_not_null v buf = Timestamp_ToHyperBinary_not_null (ots_timestamp v) buf"

definition OffsetTimestamp_ToHyperBinary :: "OffsetTimestamp \<Rightarrow> bytes \<Rightarrow> put_result" where
  "OffsetTimestamp_ToHyperBinary v buf = Timestamp_ToHyperBinary (ots_timestamp v) buf"

definition OffsetTimestamp_size :: "OffsetTimestamp \<Rightarrow> nat" where
  "OffsetTimestamp_size v = Timestamp_size (ots_timestamp v)"

definition OffsetTimestamp_size_not_null :: "OffsetTimestamp \<Rightarrow> nat" where
  "OffsetTimestamp_size_not_null v = Timestamp_size_not_null (ots_timestamp v)"

definition OffsetTimestamp_FromHyperBinary :: "bytes \<Rightarrow> string + OffsetTimestamp" where
  "OffsetTimestamp_FromHyperBinary buf =
     try_bind (Timestamp_FromHyperBinary buf) (\<lambda>t. Inr \<lparr>ots_timestamp = t, offset_minutes = 0\<rparr>)"

definition Interval_ToHyperBinary_not_null :: "Interval \<Rightarrow> bytes \<Rightarrow> put_result" where
  "Interval_ToHyperBinary_not_null v buf = put_ok (buf @ Interval_encode v)"

definition Interval_ToHyperBinary :: "Interval \<Rightarrow> bytes \<Rightarrow> put_result" where
  "Interval_ToHyperBinary v buf = put_ok (write_not_null_indicator buf @ Interval_encode v)"

definition Interval_size :: "Interval \<Rightarrow> nat" where
  "Interval_size v = NULL_INDICATOR_SIZE + 16"

definition Interval_size_not_null :: "Interval \<Rightarrow> nat" where
  "Interval_size_not_null v = 16"

definition Interval_FromHyperBinary :: "bytes \<Rightarrow> string + Interval" where
  "Interval_FromHyperBinary buf =
     (if length buf \<noteq> 16 then Inl ''invalid buffer size for Interval'' else Inr (Interval_decode buf))"

definition Numeric_ToHyperBinary_not_null :: "Numeric \<Rightarrow> bytes \<Rightarrow> put_result" where
  "Numeric_ToHyperBinary_not_null v buf = put_ok (buf @ Numeric_encode v)"

definition Numeric_ToHyperBinary :: "Numeric \<Rightarrow> bytes \<Rightarrow> put_result" where
  "Numeric_ToHyperBinary v buf = put_ok (write_not_null_indicator buf @ Numeric_encode v)"

definition Numeric_size :: "Numeric \<Rightarrow> nat" where
  "Numeric_size v = NULL_INDICATOR_SIZE + 16"

definition Numeric_size_not_null :: "Numeric \<Rightarrow> nat" where
  "Numeric_size_not_null v = 16"

section \<open>\<open>Option<T>\<close>\<close>

definition option_ToHyperBinary :: "('a \<Rightarrow> bytes \<Rightarrow> put_result) \<Rightarrow> 'a option \<Rightarrow> bytes \<Rightarrow> put_result" where
  "option_ToHyperBinary put v buf =
     (case v of Some x \<Rightarrow> put x buf | None \<Rightarrow> put_ok (null_indicator_write buf))"

definition option_ToHyperBinary_not_null ::
  "('a \<Rightarrow> bytes \<Rightarrow> put_result) \<Rightarrow> 'a option \<Rightarrow> bytes \<Rightarrow> put_result" where
  "option_ToHyperBinary_not_null put_nn v buf =
     (case v of Some x \<Rightarrow> put_nn x buf
      | None \<Rightarrow> Some (Inl ''Cannot write None to a NOT NULL column'', buf))"

definition option_size :: "('a \<Rightarrow> nat) \<Rightarrow> 'a option \<Rightarrow> nat" where
  "option_size sz v = (case v of Some x \<Rightarrow> sz x | None \<Rightarrow> NULL_INDICATOR_SIZE)"

definition option_size_not_null :: "('a \<Rightarrow> nat) \<Rightarrow> 'a option \<Rightarrow> nat option" where
  "option_size_not_null sz v = map_option sz v"

section \<open>The contract of the two traits\<close>

text \<open>
  \<open>good v\<close> says which values a type can carry on the wire, \<open>pre\<close> how many bytes of the written
  form are a length field, which the reader of the value does not see.
\<close>

locale hyper_value =
  fixes put put_nn :: "'a \<Rightarrow> bytes \<Rightarrow> put_result" and sz sz_nn :: "'a \<Rightarrow> nat"
    and get :: "bytes \<Rightarrow> string + 'a" and pre :: nat and good :: "'a \<Rightarrow> bool"
  assumes written: "good v \<Longrightarrow>
      \<exists>p. (\<forall>buf. put_nn v buf = Some (Inr (), buf @ p) \<and> put v buf = Some (Inr (), buf @ 0 # p))
        \<and> length p = sz_nn v \<and> pre \<le> length p \<and> get (drop pre p) = Inr v"
    and sizes: "sz v = NULL_INDICATOR_SIZE + sz_nn v"
begin

lemma put_size:
  assumes "good v"
  shows "\<exists>out. put v buf = Some (Inr (), out) \<and> length out = length buf + sz v"
    and "\<exists>out. put_nn v buf = Some (Inr (), out) \<and> length out = length buf + sz_nn v"
  using written [OF assms] sizes [of v] by (auto simp: NULL_INDICATOR_SIZE_def)

end

text \<open>Reading a nullable column: the indicator, then the value.\<close>

definition read_nullable :: "nat \<Rightarrow> (bytes \<Rightarrow> string + 'a) \<Rightarrow> bytes \<Rightarrow> string + 'a option" where
  "read_nullable pre get bs =
     (case bs of
        [] \<Rightarrow> Inl ''empty''
      | b # p \<Rightarrow> if b = 1 then Inr None else try_bind (get (drop pre p)) (\<lambda>v. Inr (Some v)))"

context hyper_value
begin

lemma option_roundtrip:
  assumes "case v of None \<Rightarrow> True | Some x \<Rightarrow> good x"
  shows "\<exists>p. option_ToHyperBinary put v buf = Some (Inr (), buf @ p)
           \<and> length p = option_size sz v \<and> read_nullable pre get p = Inr v"
proof (cases v)
  case None
  then show ?thesis
    by (simp add: option_ToHyperBinary_def option_size_def read_nullable_def null_indicator_write_def
        put_ok_def NULL_INDICATOR_SIZE_def)
next
  case (Some x)
  with assms written [of x] sizes [of x] show ?thesis
    by (auto simp: option_ToHyperBinary_def option_size_def read_nullable_def NULL_INDICATOR_SIZE_def)
qed

text \<open>For a NOT NULL column an absent value is refused and nothing is written.\<close>

lemma option_not_null:
  "option_ToHyperBinary_not_null put_nn None buf = Some (Inl ''Cannot write None to a NOT NULL column'', buf)"
  "good x \<Longrightarrow> \<exists>p. option_ToHyperBinary_not_null put_nn (Some x) buf = Some (Inr (), buf @ p)
     \<and> option_size_not_null sz_nn (Some x) = Some (length p) \<and> get (drop pre p) = Inr x"
  using written [of x] by (auto simp: option_ToHyperBinary_not_null_def option_size_not_null_def)

end

lemmas put_defs = put_ok_def write_not_null_indicator_def NULL_INDICATOR_SIZE_def

interpretation bool_value: hyper_value bool_ToHyperBinary bool_ToHyperBinary_not_null bool_size
    bool_size_not_null bool_FromHyperBinary 0 "\<lambda>_. True"
  by unfold_locales
    (auto simp: bool_ToHyperBinary_def bool_ToHyperBinary_not_null_def bool_size_def
      bool_size_not_null_def bool_FromHyperBinary_def byte_of_def put_defs)

text \<open>A negative \<open>i8\<close> is written as a byte above 127, which the reader takes for text.\<close>

interpretation i8_value: hyper_value i8_ToHyperBinary i8_ToHyperBinary_not_null i8_size
    i8_size_not_null i8_FromHyperBinary 0 "\<lambda>v. v \<le> 127"
  by unfold_locales
    (auto simp: i8_ToHyperBinary_def i8_ToHyperBinary_not_null_def i8_size_def
      i8_size_not_null_def i8_FromHyperBinary_def put_defs)

interpretation i16_value: hyper_value i16_ToHyperBinary i16_ToHyperBinary_not_null i16_size
    i16_size_not_null i16_FromHyperBinary 0 "\<lambda>_. True"
  by unfold_locales
    (auto simp: i16_ToHyperBinary_def i16_ToHyperBinary_not_null_def i16_size_def
      i16_size_not_null_def i16_FromHyperBinary_def put_defs)

text \<open>A 32-bit or 64-bit integer whose bytes all look like digits or signs is read as text.\<close>

interpretation i32_value: hyper_value i32_ToHyperBinary i32_ToHyperBinary_not_null i32_size
    i32_size_not_null i32_FromHyperBinary 0 "\<lambda>v. \<not> looks_like_int (to_le_bytes v)"
  by unfold_locales
    (auto simp: i32_ToHyperBinary_def i32_ToHyperBinary_not_null_def i32_size_def
      i32_size_not_null_def i32_FromHyperBinary_def put_defs)

interpretation i64_value: hyper_value i64_ToHyperBinary i64_ToHyperBinary_not_null i64_size
    i64_size_not_null i64_FromHyperBinary 0 "\<lambda>v. \<not> looks_like_int (to_le_bytes v)"
  by unfold_locales
    (auto simp: i64_ToHyperBinary_def i64_ToHyperBinary_not_null_def i64_size_def
      i64_size_not_null_def i64_FromHyperBinary_def put_defs)

interpretation u32_value: hyper_value u32_ToHyperBinary u32_ToHyperBinary_not_null u32_size
    u32_size_not_null u32_FromHyperBinary 0 "\<lambda>_. True"
  by unfold_locales
    (auto simp: u32_ToHyperBinary_def u32_ToHyperBinary_not_null_def u32_size_def
      u32_size_not_null_def u32_FromHyperBinary_def put_defs)

interpretation i128_value: hyper_value i128_ToHyperBinary i128_ToHyperBinary_not_null i128_size
    i128_size_not_null i128_FromHyperBinary 0 "\<lambda>_. True"
  by unfold_locales
    (auto simp: i128_ToHyperBinary_def i128_ToHyperBinary_not_null_def i128_size_def
      i128_size_not_null_def i128_FromHyperBinary_def put_defs)

interpretation u128_value: hyper_value u128_ToHyperBinary u128_ToHyperBinary_not_null u128_size
    u128_size_not_null u128_FromHyperBinary 0 "\<lambda>_. True"
  by unfold_locales
    (auto simp: u128_ToHyperBinary_def u128_ToHyperBinary_not_null_def u128_size_def
      u128_size_not_null_def u128_FromHyperBinary_def put_defs)

interpretation f32_value: hyper_value f32_ToHyperBinary f32_ToHyperBinary_not_null f32_size
    f32_size_not_null "f32_FromHyperBinary pf" 0 "\<lambda>v. \<not> looks_like_float (to_le_bytes v)" for pf
  by unfold_locales
    (auto simp: f32_ToHyperBinary_def f32_ToHyperBinary_not_null_def f32_size_def
      f32_size_not_null_def f32_FromHyperBinary_def put_defs)

interpretation f64_value: hyper_value f64_ToHyperBinary f64_ToHyperBinary_not_null f64_size
    f64_size_not_null "f64_FromHyperBinary pf" 0 "\<lambda>v. \<not> looks_like_float (to_le_bytes v)" for pf
  by unfold_locales
    (auto simp: f64_ToHyperBinary_def f64_ToHyperBinary_not_null_def f64_size_def
      f64_size_not_null_def f64_FromHyperBinary_def put_defs)

interpretation str_value: hyper_value str_ToHyperBinary str_ToHyperBinary_not_null str_size
    str_size_not_null str_FromHyperBinary 4 "\<lambda>v. utf8_valid (as_bytes v) \<and> length v < 2 ^ 32"
  by unfold_locales
    (auto simp: str_ToHyperBinary_def str_ToHyperBinary_not_null_def str_size_def
      str_size_not_null_def str_FromHyperBinary_def from_utf8_as_bytes put_defs Let_def)

interpretation bytes_value: hyper_value bytes_ToHyperBinary bytes_ToHyperBinary_not_null bytes_size
    bytes_size_not_null bytes_FromHyperBinary 4 "\<lambda>v. length v < 2 ^ 32"
  by unfold_locales
    (auto simp: bytes_ToHyperBinary_def bytes_ToHyperBinary_not_null_def bytes_size_def
      bytes_size_not_null_def bytes_FromHyperBinary_def put_defs Let_def)

interpretation Geography_value: hyper_value Geography_ToHyperBinary Geography_ToHyperBinary_not_null
    Geography_size Geography_size_not_null Geography_FromHyperBinary 4
    "\<lambda>v. is_hyper_legacy v \<and> length (geo_data v) < 2 ^ 32"
  by unfold_locales
    (auto simp: Geography_ToHyperBinary_def Geography_ToHyperBinary_not_null_def Geography_size_def
      Geography_size_not_null_def Geography_FromHyperBinary_def is_hyper_legacy_def put_defs Let_def)

interpretation Date_value: hyper_value Date_ToHyperBinary Date_ToHyperBinary_not_null Date_size
    Date_size_not_null Date_FromHyperBinary 0
    "\<lambda>v. MIN_DAYS \<le> sint (date_days v) \<and> sint (date_days v) \<le> MAX_DAYS"
proof -
  have "to_julian_day v = Date_encode v" for v
    by (simp add: to_julian_day_def Date_encode_def)
  then show "hyper_value Date_ToHyperBinary Date_ToHyperBinary_not_null Date_size
    Date_size_not_null Date_FromHyperBinary 0
    (\<lambda>v. MIN_DAYS \<le> sint (date_days v) \<and> sint (date_days v) \<le> MAX_DAYS)"
    by unfold_locales
      (auto simp: Date_ToHyperBinary_def Date_ToHyperBinary_not_null_def Date_size_def
        Date_size_not_null_def Date_FromHyperBinary_def Date_try_decode_encode(1) put_defs)
qed

interpretation Time_value: hyper_value Time_ToHyperBinary Time_ToHyperBinary_not_null Time_size
    Time_size_not_null Time_FromHyperBinary 0 "\<lambda>v. time_micros v \<le> MAX_MICROSECONDS"
  by unfold_locales
    (auto simp: Time_ToHyperBinary_def Time_ToHyperBinary_not_null_def Time_size_def
      Time_size_not_null_def Time_FromHyperBinary_def Time_try_from_microseconds_def put_defs)

interpretation Timestamp_value: hyper_value Timestamp_ToHyperBinary Timestamp_ToHyperBinary_not_null
    Timestamp_size Timestamp_size_not_null Timestamp_FromHyperBinary 0
    "\<lambda>v. Timestamp_to_microseconds v \<noteq> None"
proof unfold_locales
  fix v :: Timestamp
  assume "Timestamp_to_microseconds v \<noteq> None"
  then have us: "Timestamp_to_microseconds v = Some (Timestamp_encode v)"
    using Timestamp_to_microseconds_encode by auto
  show "\<exists>p. (\<forall>buf. Timestamp_ToHyperBinary_not_null v buf = Some (Inr (), buf @ p) \<and>
         Timestamp_ToHyperBinary v buf = Some (Inr (), buf @ 0 # p))
      \<and> length p = Timestamp_size_not_null v \<and> 0 \<le> length p
      \<and> Timestamp_FromHyperBinary (drop 0 p) = Inr v"
    by (rule exI [of _ "to_le_bytes (Timestamp_encode v)"])
      (simp add: Timestamp_ToHyperBinary_def Timestamp_ToHyperBinary_not_null_def us
        Timestamp_size_not_null_def Timestamp_FromHyperBinary_def Timestamp_codec put_defs)
qed (simp add: Timestamp_size_def Timestamp_size_not_null_def)

interpretation OffsetTimestamp_value: hyper_value OffsetTimestamp_ToHyperBinary
    OffsetTimestamp_ToHyperBinary_not_null OffsetTimestamp_size OffsetTimestamp_size_not_null
    OffsetTimestamp_FromHyperBinary 0
    "\<lambda>v. Timestamp_to_microseconds (ots_timestamp v) \<noteq> None \<and> offset_minutes v = 0"
proof unfold_locales
  fix v :: OffsetTimestamp
  assume v: "Timestamp_to_microseconds (ots_timestamp v) \<noteq> None \<and> offset_minutes v = 0"
  then show "\<exists>p. (\<forall>buf. OffsetTimestamp_ToHyperBinary_not_null v buf = Some (Inr (), buf @ p) \<and>
         OffsetTimestamp_ToHyperBinary v buf = Some (Inr (), buf @ 0 # p))
      \<and> length p = OffsetTimestamp_size_not_null v \<and> 0 \<le> length p
      \<and> OffsetTimestamp_FromHyperBinary (drop 0 p) = Inr v"
    using Timestamp_value.written [of "ots_timestamp v"]
    by (auto simp: OffsetTimestamp_ToHyperBinary_not_null_def OffsetTimestamp_ToHyperBinary_def
        OffsetTimestamp_size_not_null_def OffsetTimestamp_FromHyperBinary_def)
qed (simp add: OffsetTimestamp_size_def OffsetTimestamp_size_not_null_def Timestamp_value.sizes)

interpretation Interval_value: hyper_value Interval_ToHyperBinary Interval_ToHyperBinary_not_null
    Interval_size Interval_size_not_null Interval_FromHyperBinary 0 "\<lambda>_. True"
proof -
  have len: "length (Interval_encode v) = 16" for v
    by (simp add: Interval_encode_def)
  show "hyper_value Interval_ToHyperBinary Interval_ToHyperBinary_not_null
    Interval_size Interval_size_not_null Interval_FromHyperBinary 0 (\<lambda>_. True)"
    by unfold_locales
      (auto simp: Interval_ToHyperBinary_def Interval_ToHyperBinary_not_null_def Interval_size_def
        Interval_size_not_null_def Interval_FromHyperBinary_def Interval_decode_encode len put_defs)
qed

text \<open>\<open>Numeric\<close> has no \<open>FromHyperBinary\<close>; its reader takes the scale from the column type.\<close>

interpretation Numeric_value: hyper_value Numeric_ToHyperBinary Numeric_ToHyperBinary_not_null
    Numeric_size Numeric_size_not_null "\<lambda>bs. from_binary_with_scale bs s" 0 "\<lambda>v. num_scale v = s" for s
proof -
  have len: "length (Numeric_encode v) = 16" for v
    by (simp add: Numeric_encode_def)
  show "hyper_value Numeric_ToHyperBinary Numeric_ToHyperBinary_not_null
    Numeric_size Numeric_size_not_null (\<lambda>bs. from_binary_with_scale bs s) 0 (\<lambda>v. num_scale v = s)"
    by unfold_locales
      (auto simp: Numeric_ToHyperBinary_def Numeric_ToHyperBinary_not_null_def Numeric_size_def
        Numeric_size_not_null_def decode_encode_i128 len put_defs)
qed

lemma i8_sign: "0 \<le> sint (v :: i8) \<longleftrightarrow> v \<le> 127"
proof -
  have s: "sint (word_of_int x :: i8) = x" if "- 128 \<le> x" "x < 128" for x
    using that by (simp add: signed_of_int signed_take_bit_int_eq_self)
  have u: "0 \<le> uint v" "uint v < 256"
    using uint_lt2p [of v] by simp_all
  show ?thesis
  proof (cases "uint v \<le> 127")
    case True
    with s [of "uint v"] u show ?thesis
      by (simp add: word_le_def)
  next
    case False
    have "word_of_int (uint v - 256) = v"
      by (simp only: of_int_diff) simp
    moreover have "sint (word_of_int (uint v - 256) :: i8) = uint v - 256"
      using u False by (intro s) auto
    ultimately have "sint v = uint v - 256"
      by (simp only:)
    with u False show ?thesis
      by (simp add: word_le_def)
  qed
qed

lemma from_utf8_high: "\<not> v \<le> 127 \<Longrightarrow> from_utf8 [v] = None"
  by (auto simp: from_utf8_def not_le word_less_nat_alt word_le_nat_alt)

section \<open>Properties\<close>

text \<open>A nullable date column: every \<open>Option<Date>\<close> in the supported range is written as the
  announced number of bytes, indicator included, and reading them gives it back.\<close>

theorem Date_nullable_roundtrip:
  assumes "case v of None \<Rightarrow> True | Some x \<Rightarrow> MIN_DAYS \<le> sint (date_days x) \<and> sint (date_days x) \<le> MAX_DAYS"
  shows "\<exists>p. option_ToHyperBinary Date_ToHyperBinary v buf = Some (Inr (), buf @ p)
    \<and> length p = option_size Date_size v \<and> read_nullable 0 Date_FromHyperBinary p = Inr v"
  using assms by (rule Date_value.option_roundtrip)

theorem Date_nullable_roundtrip_witness:
  "\<exists>p. option_ToHyperBinary Date_ToHyperBinary (Some \<lparr>date_days = 9000\<rparr>) [7] = Some (Inr (), [7] @ p)
    \<and> length p = option_size Date_size (Some \<lparr>date_days = 9000\<rparr>)
    \<and> read_nullable 0 Date_FromHyperBinary p = Inr (Some \<lparr>date_days = 9000\<rparr>)"
  by (rule Date_nullable_roundtrip) (simp add: date_consts)

text \<open>A nullable text column: every \<open>Option<String>\<close> shorter than \<open>2 ^ 32\<close> bytes is written as the
  announced number of bytes, and reading them gives it back.\<close>

theorem str_nullable_roundtrip:
  assumes "case v of None \<Rightarrow> True | Some s \<Rightarrow> utf8_valid (as_bytes s) \<and> length s < 2 ^ 32"
  shows "\<exists>p. option_ToHyperBinary str_ToHyperBinary v buf = Some (Inr (), buf @ p)
    \<and> length p = option_size str_size v \<and> read_nullable 4 str_FromHyperBinary p = Inr v"
  using assms by (rule str_value.option_roundtrip)

theorem str_nullable_roundtrip_witness:
  "\<exists>p. option_ToHyperBinary str_ToHyperBinary (Some ''hello'') [] = Some (Inr (), [] @ p)
    \<and> length p = option_size str_size (Some ''hello'')
    \<and> read_nullable 4 str_FromHyperBinary p = Inr (Some ''hello'')"
  by (rule str_nullable_roundtrip) (simp add: as_bytes_def byte_of_def)

text \<open>An \<open>i8\<close> is read back from its own encoding exactly when it is not negative: the reader
  accepts a single byte only up to 127 and parses anything else as text.\<close>

theorem i8_roundtrip_iff:
  "i8_ToHyperBinary_not_null v [] = Some (Inr (), [v]) \<and> (i8_FromHyperBinary [v] = Inr v \<longleftrightarrow> 0 \<le> sint v)"
  using from_utf8_high [of v]
  by (auto simp: i8_sign i8_ToHyperBinary_not_null_def i8_FromHyperBinary_def int_from_text_def put_defs)

text \<open>The text heuristic of \<open>i32\<close> can misread binary data: the value \<open>0x31313131\<close> is written as
  four bytes that are the digits \<open>1111\<close>, and reading them gives the number 1111.\<close>

theorem i32_text_ambiguity:
  "\<exists>bs. i32_ToHyperBinary_not_null 0x31313131 [] = Some (Inr (), bs) \<and> i32_FromHyperBinary bs = Inr 1111"
proof -
  let ?bs = "[0x31, 0x31, 0x31, 0x31] :: bytes"
  have "to_le_bytes (0x31313131 :: i32) = ?bs"
    using to_from_le_bytes [of ?bs, where ?'a = 32] by (simp add: from_le_bytes_def)
  moreover have "looks_like_int ?bs"
    by (simp add: looks_like_int_def is_ascii_digit_def byte_of_def)
  moreover have "from_utf8 ?bs = Some ''1111''"
    by (simp add: from_utf8_Some_iff as_bytes_def byte_of_def)
  moreover have "trim ''1111'' = ''1111''"
    by (simp add: trim_def trim_start.simps trim_end.simps codes_def ws_suffix_def)
  ultimately show ?thesis
    by (simp add: i32_ToHyperBinary_not_null_def i32_FromHyperBinary_def int_from_text_def put_defs
        parse_signed_def parse_nat_def char_digit_def)
qed

end
