(* ===== verification/Row_Access.thy ===== *)
theory Row_Access
  imports Client_Error Value_Codec
begin

text \<open>
  Format codes, result columns and rows: \<open>hyperdb-api-core/src/client/statement.rs\<close> and
  \<open>client/row.rs\<close>. The three row types read the same \<open>DataRow\<close> storage: \<open>Row\<close> with ranges checked
  when it is built, \<open>StreamRow\<close> by walking the storage on every access, \<open>BatchRow\<close> with offsets
  computed once. A slice of \<open>Row\<close> that is out of range would panic, so the getters of \<open>Row\<close>
  have an outer \<open>option\<close>. Conversions to \<open>f64\<close> and the decimal reader for floats
  are arguments.
\<close>

unbundle bit_operations_syntax

section \<open>\<open>statement.rs\<close>\<close>

datatype ParamFormat = ParamText | ParamBinary

fun ParamFormat_to_code :: "ParamFormat \<Rightarrow> i16" where
  "ParamFormat_to_code ParamText = 0"
| "ParamFormat_to_code ParamBinary = 1"

fun ParamFormat_is_binary :: "ParamFormat \<Rightarrow> bool" where
  "ParamFormat_is_binary ParamBinary = True"
| "ParamFormat_is_binary ParamText = False"

definition BROADCAST_BINARY :: "i16 list" where "BROADCAST_BINARY = [1]"

definition bind_format_codes :: "ParamFormat list \<Rightarrow> nat \<Rightarrow> Error + i16 list" where
  "bind_format_codes formats param_count =
     (if formats \<noteq> [] \<and> length formats \<noteq> param_count then
        Inl (ProtocolError (''parameter format count ('' @ show_nat (length formats)
          @ '') does not match parameter count ('' @ show_nat param_count @ '')''))
      else if param_count = 0 then Inr []
      else if formats = [] \<or> list_all ParamFormat_is_binary formats then Inr BROADCAST_BINARY
      else Inr (map ParamFormat_to_code formats))"

datatype ColumnFormat = TextFormat | BinaryFormat | HyperBinaryFormat

definition ColumnFormat_from_code :: "i16 \<Rightarrow> ColumnFormat" where
  "ColumnFormat_from_code code =
     (if code = 0 then TextFormat else if code = 1 then BinaryFormat
      else if code = 2 then HyperBinaryFormat else TextFormat)"

fun ColumnFormat_to_code :: "ColumnFormat \<Rightarrow> i16" where
  "ColumnFormat_to_code TextFormat = 0"
| "ColumnFormat_to_code BinaryFormat = 1"
| "ColumnFormat_to_code HyperBinaryFormat = 2"

fun ColumnFormat_is_binary :: "ColumnFormat \<Rightarrow> bool" where
  "ColumnFormat_is_binary BinaryFormat = True"
| "ColumnFormat_is_binary HyperBinaryFormat = True"
| "ColumnFormat_is_binary TextFormat = False"

record Column =
  col_name :: string
  col_type_oid :: u32
  col_type_modifier :: i32
  col_format :: ColumnFormat

section \<open>\<open>row.rs\<close>\<close>

subsection \<open>\<open>bytea\<close> in hex\<close>

definition hex_digit_to_value :: "u8 \<Rightarrow> u8 option" where
  "hex_digit_to_value c =
     (if byte_of CHR ''0'' \<le> c \<and> c \<le> byte_of CHR ''9'' then Some (c - byte_of CHR ''0'')
      else if byte_of CHR ''a'' \<le> c \<and> c \<le> byte_of CHR ''f'' then Some (c - byte_of CHR ''a'' + 10)
      else if byte_of CHR ''A'' \<le> c \<and> c \<le> byte_of CHR ''F'' then Some (c - byte_of CHR ''A'' + 10)
      else None)"

text \<open>The loop over \<open>chunks(2)\<close> of an even number of digits.\<close>

fun decode_hex_pairs :: "bytes \<Rightarrow> bytes option" where
  "decode_hex_pairs (a # b # r) =
     do { high \<leftarrow> hex_digit_to_value a;
          low \<leftarrow> hex_digit_to_value b;
          rest \<leftarrow> decode_hex_pairs r;
          Some ((push_bit 4 high OR low) # rest) }"
| "decode_hex_pairs _ = Some []"

definition decode_bytea_hex :: "bytes \<Rightarrow> bytes option" where
  "decode_bytea_hex data =
     (if length data \<ge> 2 \<and> data ! 0 = byte_of (CHR 0x5C) \<and> data ! 1 = byte_of CHR ''x'' then
        let hex_data = drop 2 data
        in if length hex_data mod 2 \<noteq> 0 then None else decode_hex_pairs hex_data
      else Some data)"

subsection \<open>\<open>Row\<close>\<close>

record Row =
  row_columns :: "Column list"
  row_data :: DataRowBody
  row_ranges :: "(nat \<times> nat) option list"

fun io_error_message :: "io_error \<Rightarrow> string" where
  "io_error_message (InvalidData m) = m"
| "io_error_message (InvalidInput m) = m"
| "io_error_message (UnexpectedEof m) = m"

definition Row_new :: "Column list \<Rightarrow> DataRowBody \<Rightarrow> Error + Row" where
  "Row_new columns data =
     (case ranges_all data of
        Inl e \<Rightarrow> Inl (ProtocolError (''invalid data row: '' @ io_error_message e))
      | Inr rs \<Rightarrow> Inr \<lparr>row_columns = columns, row_data = data, row_ranges = rs\<rparr>)"

definition Row_column_count :: "Row \<Rightarrow> nat" where
  "Row_column_count r = length (row_columns r)"

text \<open>\<open>&buffer[start..end]\<close>, which panics out of range, and \<open>buffer.get(start..end)\<close>, which does not.\<close>

definition index_range :: "bytes \<Rightarrow> nat \<times> nat \<Rightarrow> bytes option" where
  "index_range buf r =
     (if fst r \<le> snd r \<and> snd r \<le> length buf then Some (sub_slice buf r) else None)"

definition Row_get_bytes :: "Row \<Rightarrow> nat \<Rightarrow> bytes option option" where
  "Row_get_bytes r idx =
     (if idx < length (row_ranges r) then
        (case row_ranges r ! idx of
           Some rng \<Rightarrow> map_option Some (index_range (row_storage (row_data r)) rng)
         | None \<Rightarrow> Some None)
      else Some None)"

definition Row_is_null :: "Row \<Rightarrow> nat \<Rightarrow> bool" where
  "Row_is_null r idx \<longleftrightarrow> idx < length (row_ranges r) \<longrightarrow> row_ranges r ! idx = None"

definition Row_column_format :: "Row \<Rightarrow> nat \<Rightarrow> ColumnFormat" where
  "Row_column_format r idx =
     (if idx < length (row_columns r) then col_format (row_columns r ! idx) else TextFormat)"

text \<open>The shape every getter of \<open>Row\<close> has: fetch the bytes, return on NULL, decode the rest.\<close>

definition Row_with :: "Row \<Rightarrow> nat \<Rightarrow> (bytes \<Rightarrow> 'a option) \<Rightarrow> 'a option option" where
  "Row_with r idx f = map_option (\<lambda>b. Option.bind b f) (Row_get_bytes r idx)"

text \<open>The text branch of the integer getters, \<open>from_utf8(bytes).ok()?.trim().parse().ok()\<close>.\<close>

definition parse_text_int :: "int \<Rightarrow> int \<Rightarrow> bytes \<Rightarrow> ('a::len) word option" where
  "parse_text_int lo hi b =
     do { s \<leftarrow> from_utf8 b; x \<leftarrow> parse_signed lo hi (trim s); Some (word_of_int x) }"

definition parse_text_float :: "(string \<Rightarrow> ('a::len) word option) \<Rightarrow> bytes \<Rightarrow> 'a word option" where
  "parse_text_float parse_float b = do { s \<leftarrow> from_utf8 b; parse_float (trim s) }"

definition Row_get_i16 :: "Row \<Rightarrow> nat \<Rightarrow> i16 option option" where
  "Row_get_i16 r idx = Row_with r idx (\<lambda>b.
     if ColumnFormat_is_binary (Row_column_format r idx) \<and> length b = 2 then Some (from_le_bytes b)
     else if \<not> ColumnFormat_is_binary (Row_column_format r idx) then parse_text_int (- (2 ^ 15)) (2 ^ 15 - 1) b
     else None)"

definition Row_get_i32 :: "Row \<Rightarrow> nat \<Rightarrow> i32 option option" where
  "Row_get_i32 r idx = Row_with r idx (\<lambda>b.
     if ColumnFormat_is_binary (Row_column_format r idx) \<and> length b = 4 then Some (from_le_bytes b)
     else if \<not> ColumnFormat_is_binary (Row_column_format r idx) then parse_text_int (- (2 ^ 31)) (2 ^ 31 - 1) b
     else None)"

definition Row_get_i64 :: "Row \<Rightarrow> nat \<Rightarrow> i64 option option" where
  "Row_get_i64 r idx = Row_with r idx (\<lambda>b.
     if ColumnFormat_is_binary (Row_column_format r idx) \<and> length b = 8 then Some (from_le_bytes b)
     else if \<not> ColumnFormat_is_binary (Row_column_format r idx) then parse_text_int (- (2 ^ 63)) (2 ^ 63 - 1) b
     else None)"

definition Row_get_f32 :: "(string \<Rightarrow> f32 option) \<Rightarrow> Row \<Rightarrow> nat \<Rightarrow> f32 option option" where
  "Row_get_f32 parse_float r idx = Row_with r idx (\<lambda>b.
     if ColumnFormat_is_binary (Row_column_format r idx) \<and> length b = 4 then Some (from_le_bytes b)
     else if \<not> ColumnFormat_is_binary (Row_column_format r idx) then parse_text_float parse_float b
     else None)"

definition Row_get_f64 :: "(string \<Rightarrow> f64 option) \<Rightarrow> Row \<Rightarrow> nat \<Rightarrow> f64 option option" where
  "Row_get_f64 parse_float r idx = Row_with r idx (\<lambda>b.
     if ColumnFormat_is_binary (Row_column_format r idx) \<and> length b = 8 then Some (from_le_bytes b)
     else if \<not> ColumnFormat_is_binary (Row_column_format r idx) then parse_text_float parse_float b
     else None)"

definition Row_get_bool :: "Row \<Rightarrow> nat \<Rightarrow> bool option option" where
  "Row_get_bool r idx = Row_with r idx (\<lambda>b.
     if ColumnFormat_is_binary (Row_column_format r idx) \<and> length b = 1 then
       (if b ! 0 = 0 then Some False else if b ! 0 = 1 then Some True else None)
     else if b \<in> {as_bytes ''t'', as_bytes ''T''} then Some True
     else if b \<in> {as_bytes ''f'', as_bytes ''F''} then Some False
     else if b = as_bytes ''true'' then Some True
     else if b = as_bytes ''false'' then Some False
     else None)"

definition Row_get_string :: "Row \<Rightarrow> nat \<Rightarrow> string option option" where
  "Row_get_string r idx = Row_with r idx from_utf8"

definition Row_get_bytes_owned :: "Row \<Rightarrow> nat \<Rightarrow> bytes option option" where
  "Row_get_bytes_owned r idx = Row_with r idx (\<lambda>b.
     if ColumnFormat_is_binary (Row_column_format r idx) then Some b else decode_bytea_hex b)"

definition ok :: "'e + 'a \<Rightarrow> 'a option" where
  "ok x = (case x of Inl _ \<Rightarrow> None | Inr a \<Rightarrow> Some a)"

text \<open>\<open>get\<close> and \<open>get_by_name\<close>, with the \<open>from_hyper_binary\<close> of the type asked for.\<close>

definition Row_get :: "(bytes \<Rightarrow> 'e + 'a) \<Rightarrow> Row \<Rightarrow> nat \<Rightarrow> 'a option option" where
  "Row_get from_hyper_binary r idx = Row_with r idx (\<lambda>b. ok (from_hyper_binary b))"

fun position :: "('a \<Rightarrow> bool) \<Rightarrow> 'a list \<Rightarrow> nat option" where
  "position p [] = None"
| "position p (x # xs) = (if p x then Some 0 else map_option Suc (position p xs))"

definition Row_column_index :: "Row \<Rightarrow> string \<Rightarrow> Error + nat" where
  "Row_column_index r name =
     (case position (\<lambda>c. col_name c = name) (row_columns r) of
        None \<Rightarrow> Inl (query_error (''column not found: '' @ name))
      | Some i \<Rightarrow> Inr i)"

definition Row_get_by_name :: "(bytes \<Rightarrow> 'e + 'a) \<Rightarrow> Row \<Rightarrow> string \<Rightarrow> 'a option option" where
  "Row_get_by_name from_hyper_binary r name =
     (case ok (Row_column_index r name) of None \<Rightarrow> Some None | Some idx \<Rightarrow> Row_get from_hyper_binary r idx)"

subsection \<open>\<open>StreamRow\<close>\<close>

record StreamRow =
  stream_data :: DataRowBody

definition Stream_column_count :: "StreamRow \<Rightarrow> nat" where
  "Stream_column_count r = unat (row_len (stream_data r))"

definition Stream_get_bytes :: "StreamRow \<Rightarrow> nat \<Rightarrow> bytes option" where
  "Stream_get_bytes r idx = get_column_bytes (stream_data r) idx"

definition Stream_is_null :: "StreamRow \<Rightarrow> nat \<Rightarrow> bool" where
  "Stream_is_null r idx = is_column_null (stream_data r) idx"

text \<open>\<open>(bytes.len() == n).then(|| from_le_bytes(..))\<close> and the match of \<open>get_bool\<close>.\<close>

definition le_value :: "bytes \<Rightarrow> ('a::len) word option" where
  "le_value b = (if length b = LENGTH('a) div 8 then Some (from_le_bytes b) else None)"

definition bool_value :: "bytes \<Rightarrow> bool option" where
  "bool_value b =
     (if length b = 1 then
        (if b ! 0 \<in> {byte_of CHR ''t'', byte_of CHR ''T'', 1} then Some True
         else if b ! 0 \<in> {byte_of CHR ''f'', byte_of CHR ''F'', 0} then Some False
         else None)
      else None)"

definition Stream_get_i16 :: "StreamRow \<Rightarrow> nat \<Rightarrow> i16 option" where
  "Stream_get_i16 r idx = do { b \<leftarrow> Stream_get_bytes r idx; le_value b }"

definition Stream_get_i32 :: "StreamRow \<Rightarrow> nat \<Rightarrow> i32 option" where
  "Stream_get_i32 r idx = do { b \<leftarrow> Stream_get_bytes r idx; le_value b }"

definition Stream_get_i64 :: "StreamRow \<Rightarrow> nat \<Rightarrow> i64 option" where
  "Stream_get_i64 r idx = do { b \<leftarrow> Stream_get_bytes r idx; le_value b }"

definition Stream_get_f32 :: "StreamRow \<Rightarrow> nat \<Rightarrow> f32 option" where
  "Stream_get_f32 r idx = do { b \<leftarrow> Stream_get_bytes r idx; le_value b }"

definition Stream_get_f64 :: "StreamRow \<Rightarrow> nat \<Rightarrow> f64 option" where
  "Stream_get_f64 r idx = do { b \<leftarrow> Stream_get_bytes r idx; le_value b }"

definition Stream_get_bool :: "StreamRow \<Rightarrow> nat \<Rightarrow> bool option" where
  "Stream_get_bool r idx = do { b \<leftarrow> Stream_get_bytes r idx; bool_value b }"

definition Stream_get_string :: "StreamRow \<Rightarrow> nat \<Rightarrow> string option" where
  "Stream_get_string r idx = do { b \<leftarrow> Stream_get_bytes r idx; from_utf8 b }"

subsection \<open>\<open>BatchRow\<close>\<close>

record BatchRow =
  batch_data :: DataRowBody
  batch_offsets :: "(nat \<times> nat) option list"

definition Batch_new :: "DataRowBody \<Rightarrow> BatchRow" where
  "Batch_new data = \<lparr>batch_data = data, batch_offsets = compute_all_offsets data\<rparr>"

definition from_stream :: "StreamRow \<Rightarrow> BatchRow" where
  "from_stream row = Batch_new (stream_data row)"

definition to_batch :: "StreamRow \<Rightarrow> BatchRow" where
  "to_batch row = from_stream row"

definition Batch_column_count :: "BatchRow \<Rightarrow> nat" where
  "Batch_column_count r = length (batch_offsets r)"

definition Batch_get_bytes :: "BatchRow \<Rightarrow> nat \<Rightarrow> bytes option" where
  "Batch_get_bytes r idx =
     (if idx < length (batch_offsets r) then
        (case batch_offsets r ! idx of
           None \<Rightarrow> None
         | Some rng \<Rightarrow> index_range (row_storage (batch_data r)) rng)
      else None)"

definition Batch_is_null :: "BatchRow \<Rightarrow> nat \<Rightarrow> bool" where
  "Batch_is_null r idx \<longleftrightarrow> idx < length (batch_offsets r) \<longrightarrow> batch_offsets r ! idx = None"

definition Batch_get_i16 :: "BatchRow \<Rightarrow> nat \<Rightarrow> i16 option" where
  "Batch_get_i16 r idx = do { b \<leftarrow> Batch_get_bytes r idx; le_value b }"

definition Batch_get_i32 :: "BatchRow \<Rightarrow> nat \<Rightarrow> i32 option" where
  "Batch_get_i32 r idx = do { b \<leftarrow> Batch_get_bytes r idx; le_value b }"

definition Batch_get_i64 :: "BatchRow \<Rightarrow> nat \<Rightarrow> i64 option" where
  "Batch_get_i64 r idx = do { b \<leftarrow> Batch_get_bytes r idx; le_value b }"

definition Batch_get_f32 :: "BatchRow \<Rightarrow> nat \<Rightarrow> f32 option" where
  "Batch_get_f32 r idx = do { b \<leftarrow> Batch_get_bytes r idx; le_value b }"

definition Batch_get_f64 :: "BatchRow \<Rightarrow> nat \<Rightarrow> f64 option" where
  "Batch_get_f64 r idx = do { b \<leftarrow> Batch_get_bytes r idx; le_value b }"

definition Batch_get_bool :: "BatchRow \<Rightarrow> nat \<Rightarrow> bool option" where
  "Batch_get_bool r idx = do { b \<leftarrow> Batch_get_bytes r idx; bool_value b }"

definition Batch_get_string :: "BatchRow \<Rightarrow> nat \<Rightarrow> string option" where
  "Batch_get_string r idx = do { b \<leftarrow> Batch_get_bytes r idx; from_utf8 b }"

subsection \<open>\<open>FromBinaryValue\<close>\<close>

text \<open>\<open>or_else\<close> of \<open>Option\<close>, and the widening \<open>From\<close> conversions of signed integers.\<close>

definition or_else :: "'a option \<Rightarrow> 'a option \<Rightarrow> 'a option" where
  "or_else x y = (case x of Some a \<Rightarrow> Some a | None \<Rightarrow> y)"

definition i32_from_stream_row :: "StreamRow \<Rightarrow> nat \<Rightarrow> i32 option" where
  "i32_from_stream_row r idx = or_else (Stream_get_i32 r idx) (map_option scast (Stream_get_i16 r idx))"

definition i32_from_batch_row :: "BatchRow \<Rightarrow> nat \<Rightarrow> i32 option" where
  "i32_from_batch_row r idx = or_else (Batch_get_i32 r idx) (map_option scast (Batch_get_i16 r idx))"

definition i64_from_stream_row :: "StreamRow \<Rightarrow> nat \<Rightarrow> i64 option" where
  "i64_from_stream_row r idx =
     or_else (or_else (Stream_get_i64 r idx) (map_option scast (Stream_get_i32 r idx)))
       (map_option scast (Stream_get_i16 r idx))"

definition i64_from_batch_row :: "BatchRow \<Rightarrow> nat \<Rightarrow> i64 option" where
  "i64_from_batch_row r idx =
     or_else (or_else (Batch_get_i64 r idx) (map_option scast (Batch_get_i32 r idx)))
       (map_option scast (Batch_get_i16 r idx))"

record float_casts =
  f64_from_f32 :: "f32 \<Rightarrow> f64"
  f64_as_i64 :: "i64 \<Rightarrow> f64"
  f64_from_i32 :: "i32 \<Rightarrow> f64"

definition f64_from_stream_row :: "float_casts \<Rightarrow> StreamRow \<Rightarrow> nat \<Rightarrow> f64 option" where
  "f64_from_stream_row c r idx =
     or_else (or_else (or_else (Stream_get_f64 r idx)
       (map_option (f64_from_f32 c) (Stream_get_f32 r idx)))
       (map_option (f64_as_i64 c) (Stream_get_i64 r idx)))
       (map_option (f64_from_i32 c) (Stream_get_i32 r idx))"

definition f64_from_batch_row :: "float_casts \<Rightarrow> BatchRow \<Rightarrow> nat \<Rightarrow> f64 option" where
  "f64_from_batch_row c r idx =
     or_else (or_else (or_else (Batch_get_f64 r idx)
       (map_option (f64_from_f32 c) (Batch_get_f32 r idx)))
       (map_option (f64_as_i64 c) (Batch_get_i64 r idx)))
       (map_option (f64_from_i32 c) (Batch_get_i32 r idx))"

text \<open>The dates, times, timestamps and intervals: \<open>from_hyper_binary\<close> of the bytes.\<close>

definition hyper_from_stream_row :: "(bytes \<Rightarrow> 'e + 'a) \<Rightarrow> StreamRow \<Rightarrow> nat \<Rightarrow> 'a option" where
  "hyper_from_stream_row fhb r idx = do { b \<leftarrow> Stream_get_bytes r idx; ok (fhb b) }"

definition hyper_from_batch_row :: "(bytes \<Rightarrow> 'e + 'a) \<Rightarrow> BatchRow \<Rightarrow> nat \<Rightarrow> 'a option" where
  "hyper_from_batch_row fhb r idx = do { b \<leftarrow> Batch_get_bytes r idx; ok (fhb b) }"

section \<open>Laws of the readers\<close>

text \<open>What the three row types promise: for a row that its constructor built, reading a column
  never panics and gives the column of the storage.\<close>

locale column_reader =
  fixes valid :: "'r \<Rightarrow> bool"
    and body :: "'r \<Rightarrow> DataRowBody"
    and read :: "'r \<Rightarrow> nat \<Rightarrow> bytes option option"
  assumes reads_column: "valid r \<Longrightarrow> read r i = Some (get_column_bytes (body r) i)"
begin

lemma read_total: "valid r \<Longrightarrow> \<exists>c. read r i = Some c"
  by (simp add: reads_column)

lemma read_put_row:
  "valid r \<Longrightarrow> body r = put_row cols \<Longrightarrow> row_fits cols \<Longrightarrow>
     read r i = Some (if i < length cols then cols ! i else None)"
proof -
  assume r: "valid r" "body r = put_row cols" and fits: "row_fits cols"
  have "unat (row_len (put_row cols)) = length cols"
    using fits by (simp add: put_row_def row_fits_def unat_of_nat)
  then show ?thesis
    using r fits by (simp add: reads_column get_column_bytes_put, simp add: get_column_bytes_def)
qed

end

lemma offsets_loop_in_range:
  assumes "Some (s, e) \<in> set (offsets_loop n pos buf)"
  shows "s \<le> e \<and> e \<le> length buf"
  using assms
proof (induction n arbitrary: pos)
  case (Suc n)
  then show ?case
    by (auto simp: Let_def split: if_splits)
qed simp

lemma index_range_offset:
  assumes "i < length (compute_all_offsets d)" "compute_all_offsets d ! i = Some r"
  shows "index_range (row_storage d) r = Some (sub_slice (row_storage d) r)"
proof -
  obtain s e where r: "r = (s, e)"
    by (cases r)
  have "Some (s, e) \<in> set (compute_all_offsets d)"
    using assms r nth_mem by fastforce
  then show ?thesis
    using offsets_loop_in_range r by (auto simp: index_range_def compute_all_offsets_def)
qed

definition Row_valid :: "Row \<Rightarrow> bool" where
  "Row_valid r \<longleftrightarrow> ranges_all (row_data r) = Inr (row_ranges r)"

definition Batch_valid :: "BatchRow \<Rightarrow> bool" where
  "Batch_valid r \<longleftrightarrow> batch_offsets r = compute_all_offsets (batch_data r)"

lemma Row_new_valid: "Row_new cs d = Inr r \<Longrightarrow> Row_valid r \<and> row_data r = d \<and> row_columns r = cs"
  by (auto simp: Row_new_def Row_valid_def split: sum.splits)

lemma to_batch_valid: "Batch_valid (to_batch r)" "batch_data (to_batch r) = stream_data r"
  by (simp_all add: Batch_valid_def to_batch_def from_stream_def Batch_new_def)

interpretation stream_reader: column_reader "\<lambda>_. True" stream_data "\<lambda>r i. Some (Stream_get_bytes r i)"
  by unfold_locales (simp add: Stream_get_bytes_def)

interpretation batch_reader: column_reader Batch_valid batch_data "\<lambda>r i. Some (Batch_get_bytes r i)"
proof
  fix r i
  assume "Batch_valid r"
  then show "Some (Batch_get_bytes r i) = Some (get_column_bytes (batch_data r) i)"
    using compute_all_offsets_nth [of i "batch_data r"] index_range_offset [of i "batch_data r"]
    by (auto simp: Batch_valid_def Batch_get_bytes_def split: option.splits if_splits)
qed

interpretation row_reader: column_reader Row_valid row_data Row_get_bytes
proof
  fix r i
  assume "Row_valid r"
  then have "row_ranges r = compute_all_offsets (row_data r)"
    using ranges_all_offsets by (auto simp: Row_valid_def)
  then show "Row_get_bytes r i = Some (get_column_bytes (row_data r) i)"
    using compute_all_offsets_nth [of i "row_data r"] index_range_offset [of i "row_data r"]
    by (auto simp: Row_get_bytes_def split: option.splits if_splits)
qed

lemma Batch_get_bytes_to_batch: "Batch_get_bytes (to_batch r) i = Stream_get_bytes r i"
  using batch_reader.reads_column [OF to_batch_valid(1), of r i] stream_reader.reads_column [of r i]
  by (simp add: to_batch_valid)

text \<open>The contract of the trait \<open>FromBinaryValue\<close>: the two extractors agree.\<close>

locale from_binary_value =
  fixes from_stream_row :: "StreamRow \<Rightarrow> nat \<Rightarrow> 'a option"
    and from_batch_row :: "BatchRow \<Rightarrow> nat \<Rightarrow> 'a option"
  assumes extract_agree: "from_batch_row (to_batch r) i = from_stream_row r i"
begin

lemma extract_all_agree: "map (from_batch_row (to_batch r)) is = map (from_stream_row r) is"
  by (simp add: extract_agree)

end

lemmas stream_getters = Stream_get_i16_def Stream_get_i32_def Stream_get_i64_def Stream_get_f32_def
  Stream_get_f64_def Stream_get_bool_def Stream_get_string_def

lemmas batch_getters = Batch_get_i16_def Batch_get_i32_def Batch_get_i64_def Batch_get_f32_def
  Batch_get_f64_def Batch_get_bool_def Batch_get_string_def

interpretation bool_value: from_binary_value Stream_get_bool Batch_get_bool
  by unfold_locales (simp add: stream_getters batch_getters Batch_get_bytes_to_batch)

interpretation i16_value: from_binary_value Stream_get_i16 Batch_get_i16
  by unfold_locales (simp add: stream_getters batch_getters Batch_get_bytes_to_batch)

interpretation i32_value: from_binary_value i32_from_stream_row i32_from_batch_row
  by unfold_locales (simp add: i32_from_stream_row_def i32_from_batch_row_def stream_getters batch_getters
      Batch_get_bytes_to_batch)

interpretation i64_value: from_binary_value i64_from_stream_row i64_from_batch_row
  by unfold_locales (simp add: i64_from_stream_row_def i64_from_batch_row_def stream_getters batch_getters
      Batch_get_bytes_to_batch)

interpretation f32_value: from_binary_value Stream_get_f32 Batch_get_f32
  by unfold_locales (simp add: stream_getters batch_getters Batch_get_bytes_to_batch)

interpretation f64_value: from_binary_value "f64_from_stream_row c" "f64_from_batch_row c" for c
  by unfold_locales (simp add: f64_from_stream_row_def f64_from_batch_row_def stream_getters batch_getters
      Batch_get_bytes_to_batch)

interpretation string_value: from_binary_value Stream_get_string Batch_get_string
  by unfold_locales (simp add: stream_getters batch_getters Batch_get_bytes_to_batch)

interpretation bytes_value: from_binary_value Stream_get_bytes Batch_get_bytes
  by unfold_locales (rule Batch_get_bytes_to_batch)

interpretation hyper_value: from_binary_value "hyper_from_stream_row fhb" "hyper_from_batch_row fhb" for fhb
  by unfold_locales (simp add: hyper_from_stream_row_def hyper_from_batch_row_def Batch_get_bytes_to_batch)

text \<open>Hex text of a \<open>bytea\<close>, as the server writes it.\<close>

definition hex_char :: "nat \<Rightarrow> u8" where
  "hex_char n = (if n < 10 then 48 + word_of_nat n else 87 + word_of_nat n)"

definition bytea_text :: "bytes \<Rightarrow> bytes" where
  "bytea_text bs = as_bytes [CHR 0x5C, CHR ''x''] @
     concat (map (\<lambda>b. [hex_char (unat b div 16), hex_char (unat b mod 16)]) bs)"

lemma hex_digit_to_value_hex_char: "n < 16 \<Longrightarrow> hex_digit_to_value (hex_char n) = Some (word_of_nat n)"
proof -
  assume "n < 16"
  moreover have "list_all (\<lambda>n. hex_digit_to_value (hex_char n) = Some (word_of_nat n)) [0..<16]"
    by code_simp
  ultimately show ?thesis
    by (simp add: list_all_iff)
qed

lemma nibbles_join: "push_bit 4 (word_of_nat (unat b div 16)) OR word_of_nat (unat b mod 16) = (b :: u8)"
proof -
  have "push_bit 4 (word_of_nat (unat b div 16)) = push_bit 4 (drop_bit 4 b)"
    by (simp add: drop_bit_eq_div word_arith_nat_div)
  moreover have "word_of_nat (unat b mod 16) = take_bit 4 b"
    by (simp add: take_bit_eq_mod word_arith_nat_mod)
  moreover have "push_bit 4 (drop_bit 4 b) OR take_bit 4 b = b"
    by (rule bit_word_eqI) (auto simp: bit_or_iff bit_push_bit_iff bit_drop_bit_eq bit_take_bit_iff)
  ultimately show ?thesis
    by simp
qed

lemma decode_hex_pairs_text:
  "decode_hex_pairs (concat (map (\<lambda>b. [hex_char (unat b div 16), hex_char (unat b mod 16)]) bs)) = Some bs"
proof (induction bs)
  case (Cons b bs)
  have "unat b div 16 < 16" "unat b mod 16 < 16"
    using unsigned_less [of b, where ?'a = nat] by simp_all
  with Cons show ?case
    by (simp add: hex_digit_to_value_hex_char nibbles_join)
qed simp

text \<open>How the protocol reads the array of parameter formats: none is all text, one is for all.\<close>

definition wire_formats :: "i16 list \<Rightarrow> nat \<Rightarrow> i16 list" where
  "wire_formats cs n =
     (case cs of [] \<Rightarrow> replicate n 0 | [c] \<Rightarrow> replicate n c | _ \<Rightarrow> cs)"

lemma list_all_binary: "list_all ParamFormat_is_binary fs \<Longrightarrow> fs = replicate (length fs) ParamBinary"
proof (induction fs)
  case (Cons f fs)
  then show ?case
    by (cases f) simp_all
qed simp

lemma wire_formats_map: "length fs = n \<Longrightarrow> 0 < n \<Longrightarrow> wire_formats (map ParamFormat_to_code fs) n = map ParamFormat_to_code fs"
  by (cases fs rule: remdups_adj.cases) (auto simp: wire_formats_def)

section \<open>Properties\<close>

text \<open>The formats a \<open>Bind\<close> carries mean what the caller chose. When \<open>bind_format_codes\<close>
  succeeds, the array it builds, read by the rules of the protocol (no code: all text; one code:
  all parameters), gives every parameter its own format, with an empty choice meaning binary; it
  fails exactly when a format list of another length was given.\<close>

theorem bind_format_codes_meaning:
  "case bind_format_codes formats n of
     Inr cs \<Rightarrow>
       (formats = [] \<or> length formats = n) \<and>
       wire_formats cs n =
         map ParamFormat_to_code (if formats = [] then replicate n ParamBinary else formats)
   | Inl _ \<Rightarrow> formats \<noteq> [] \<and> length formats \<noteq> n"
proof (cases "formats \<noteq> [] \<and> list_all ParamFormat_is_binary formats \<and> length formats = n")
  case True
  then have "formats = replicate n ParamBinary"
    using list_all_binary [of formats] by simp
  with True show ?thesis
    by (auto simp: bind_format_codes_def wire_formats_def BROADCAST_BINARY_def)
next
  case False
  then show ?thesis
    by (auto simp: bind_format_codes_def BROADCAST_BINARY_def wire_formats_map)
      (simp_all add: wire_formats_def)
qed

text \<open>C29. The three row types agree on every storage. For any \<open>DataRow\<close>, well-formed or not, a
  \<open>BatchRow\<close> made from a \<open>StreamRow\<close> returns for every index the bytes that the
  \<open>StreamRow\<close> finds by walking the storage, and a \<open>Row\<close> that could be built returns them too,
  without ever indexing its buffer out of range.\<close>

theorem rows_agree:
  "Batch_get_bytes (to_batch r) i = Stream_get_bytes r i \<and>
   (case Row_new columns (stream_data r) of
      Inr row \<Rightarrow> Row_get_bytes row i = Some (Stream_get_bytes r i) \<and>
        (Row_is_null row i \<longleftrightarrow> Stream_get_bytes r i = None)
    | Inl _ \<Rightarrow> True)"
proof (cases "Row_new columns (stream_data r)")
  case (Inr row)
  then have row: "Row_valid row" "row_data row = stream_data r"
    using Row_new_valid by blast+
  then have bytes: "Row_get_bytes row i = Some (Stream_get_bytes r i)"
    using row_reader.reads_column [of row i] by (simp add: Stream_get_bytes_def)
  moreover have "Row_is_null row i \<longleftrightarrow> Row_get_bytes row i = Some None"
    by (auto simp: Row_is_null_def Row_get_bytes_def split: option.split)
  ultimately show ?thesis
    using Inr by (simp add: Batch_get_bytes_to_batch)
qed (simp add: Batch_get_bytes_to_batch)

text \<open>A row survives the wire: from the storage a server sends for a list of columns (each
  NULL or below 2 GiB, at most 65535 of them), \<open>Row::new\<close> succeeds, and every column
  reads back as sent, NULLs included, with NULL past the end.\<close>

theorem Row_roundtrip:
  assumes "row_fits cols"
  shows "\<exists>row. Row_new columns (put_row cols) = Inr row \<and>
    (\<forall>i. Row_get_bytes row i = Some (if i < length cols then cols ! i else None))"
proof -
  obtain rs where "ranges_all (put_row cols) = Inr rs"
    using ranges_all_put [OF assms] by blast
  then obtain row where row: "Row_new columns (put_row cols) = Inr row"
    by (simp add: Row_new_def)
  then show ?thesis
    using Row_new_valid [OF row] row_reader.read_put_row [OF _ _ assms] by blast
qed

theorem Row_roundtrip_witness:
  "\<exists>row. Row_new [] (put_row [Some [1, 2], None, Some []]) = Inr row \<and>
    Row_get_bytes row 0 = Some (Some [1, 2]) \<and> Row_get_bytes row 1 = Some None \<and>
    Row_get_bytes row 2 = Some (Some [])"
proof -
  have "row_fits [Some [1, 2], None, Some []]"
    by (simp add: row_fits_def)
  from Row_roundtrip [OF this, of "[]"] obtain row where
    new: "Row_new [] (put_row [Some [1, 2], None, Some []]) = Inr row" and
    get: "\<forall>i. Row_get_bytes row i = Some (if i < length [Some [1, 2], None, Some ([] :: bytes)]
           then [Some [1, 2], None, Some []] ! i else None)"
    by blast
  show ?thesis
    using new get by (auto simp: numeral_2_eq_2)
qed

text \<open>Widening reads keep the value. \<open>get::<i64>\<close> on a column that holds the little-endian bytes
  of an \<open>i16\<close>, \<open>i32\<close> or \<open>i64\<close> returns the number that was stored, negative ones included.\<close>

theorem i64_widening_preserves_value:
  "map_option sint (i64_from_stream_row r i) =
     (case Stream_get_bytes r i of
        None \<Rightarrow> None
      | Some b \<Rightarrow>
          if length b = 8 then Some (sint (from_le_bytes b :: i64))
          else if length b = 4 then Some (sint (from_le_bytes b :: i32))
          else if length b = 2 then Some (sint (from_le_bytes b :: i16))
          else None)"
proof -
  have "sint (scast (w :: i32) :: i64) = sint w" "sint (scast (v :: i16) :: i64) = sint v" for w v
    by (simp_all add: signed_scast_eq signed_take_bit_int_eq_self_iff)
      (use sint_greater_eq [of w] sint_less [of w] sint_greater_eq [of v] sint_less [of v] in simp_all)
  then show ?thesis
    by (cases "Stream_get_bytes r i")
      (simp_all add: i64_from_stream_row_def stream_getters or_else_def le_value_def)
qed

text \<open>The integer fallbacks of \<open>get::<f64>\<close> are dead: an eight-byte column is always
  read as the bits of an \<open>f64\<close> and a four-byte column as an \<open>f32\<close>, whatever the column type is,
  so the conversions from \<open>i64\<close> and \<open>i32\<close> that the code lists are never applied and
  an integer column is returned as a reinterpreted bit pattern.\<close>

theorem f64_integer_coercion_dead:
  "f64_from_stream_row c r i =
     (case Stream_get_bytes r i of
        None \<Rightarrow> None
      | Some b \<Rightarrow>
          if length b = 8 then Some (from_le_bytes b)
          else if length b = 4 then Some (f64_from_f32 c (from_le_bytes b))
          else None)"
  by (cases "Stream_get_bytes r i")
    (simp_all add: f64_from_stream_row_def stream_getters or_else_def le_value_def)

text \<open>Hex \<open>bytea\<close> text decodes to the bytes it was written from.\<close>

theorem bytea_hex_roundtrip: "decode_bytea_hex (bytea_text bs) = Some bs"
proof -
  have "length (concat (map (\<lambda>b. [hex_char (unat b div 16), hex_char (unat b mod 16)]) bs)) mod 2 = 0"
    by (induction bs) simp_all
  then show ?thesis
    by (simp add: decode_bytea_hex_def bytea_text_def as_bytes_def decode_hex_pairs_text)
qed

end
