(* ===== verification/Raw_Connection.thy ===== *)
theory Raw_Connection
  imports Scram_Auth Frontend Row_Access Sql_Escape
begin

text \<open>
  The connection, \<open>hyperdb-api-core/src/client/connection.rs\<close>: \<open>RawConnection\<close> with its buffers, the
  start-up handshake, queries, draining after errors and the COPY protocol.

  The stream \<open>S: Read + Write\<close> is a parameter of the code; here it is a script of what its
  calls return. Each \<open>read\<close> takes the next event: some bytes (at most the window the caller
  offers, the rest stays), or an error; no event left means end of file. Each \<open>write_all\<close>
  and each \<open>flush\<close> takes the next outcome: success, or an error after some bytes; no
  outcome left means success. Everything that reached the wire is in \<open>sent\<close>. Errors of the
  stream carry their text and are not TLS errors.

  A method is a function from a connection to a result and a connection, and \<open>None\<close> is a panic
  of the message writers. \<open>andthen\<close> is the \<open>?\<close> operator.
\<close>

section \<open>The stream\<close>

datatype read_event = RdData bytes | RdErr string

datatype write_event = WrOk | WrErr nat string

record io_stream =
  incoming :: "read_event list"
  sent :: bytes
  outcomes :: "write_event list"

definition stream_read :: "nat \<Rightarrow> io_stream \<Rightarrow> (string + bytes) \<times> io_stream" where
  "stream_read window s =
     (case incoming s of
        [] \<Rightarrow> (Inr [], s)
      | RdErr e # r \<Rightarrow> (Inl e, s\<lparr>incoming := r\<rparr>)
      | RdData d # r \<Rightarrow>
          (Inr (take window d),
           s\<lparr>incoming := (if length d \<le> window then r else RdData (drop window d) # r)\<rparr>))"

definition stream_write_all :: "bytes \<Rightarrow> io_stream \<Rightarrow> (string + unit) \<times> io_stream" where
  "stream_write_all bs s =
     (if bs = [] then (Inr (), s)
      else
        (case outcomes s of
           WrErr n e # r \<Rightarrow> (Inl e, s\<lparr>sent := sent s @ take n bs, outcomes := r\<rparr>)
         | _ \<Rightarrow> (Inr (), s\<lparr>sent := sent s @ bs, outcomes := tl (outcomes s)\<rparr>)))"

definition stream_flush :: "io_stream \<Rightarrow> (string + unit) \<times> io_stream" where
  "stream_flush s =
     (case outcomes s of
        WrErr n e # r \<Rightarrow> (Inl e, s\<lparr>outcomes := r\<rparr>)
      | _ \<Rightarrow> (Inr (), s\<lparr>outcomes := tl (outcomes s)\<rparr>))"

section \<open>The connection\<close>

record RawConnection =
  conn_stream :: io_stream
  read_buf :: bytes
  write_buf :: bytes
  process_id :: i32
  secret_key :: i32
  server_params :: "string \<Rightarrow> string option"
  desynchronized :: bool

type_synonym 'a outcome = "((Error + 'a) \<times> RawConnection) option"

definition andthen :: "'a outcome \<Rightarrow> ('a \<Rightarrow> RawConnection \<Rightarrow> 'b outcome) \<Rightarrow> 'b outcome" where
  "andthen r f =
     (case r of
        None \<Rightarrow> None
      | Some (Inl e, c) \<Rightarrow> Some (Inl e, c)
      | Some (Inr a, c) \<Rightarrow> f a c)"

definition POST_ERROR_DRAIN_CAP :: nat where "POST_ERROR_DRAIN_CAP = 1024"

definition ABANDONED_STREAM_MAX_DATA_ROWS :: nat where
  "ABANDONED_STREAM_MAX_DATA_ROWS = 64 * 65536"

definition READ_WINDOW :: nat where "READ_WINDOW = 64 * 1024"

definition RawConnection_new :: "io_stream \<Rightarrow> RawConnection" where
  "RawConnection_new s = \<lparr>conn_stream = s, read_buf = [], write_buf = [], process_id = 0, secret_key = 0,
     server_params = Map.empty, desynchronized = False\<rparr>"

definition is_healthy :: "RawConnection \<Rightarrow> bool" where
  "is_healthy c \<longleftrightarrow> \<not> desynchronized c"

definition ensure_healthy :: "RawConnection \<Rightarrow> Error + unit" where
  "ensure_healthy c =
     (if desynchronized c then
        Inl (connection_error (''connection is desynchronized from the server and cannot be reused; ''
          @ ''discard it and open a new one''))
      else Inr ())"

definition parameter_status :: "string \<Rightarrow> RawConnection \<Rightarrow> string option" where
  "parameter_status name c = server_params c name"

definition mark_desynchronized :: "RawConnection \<Rightarrow> RawConnection" where
  "mark_desynchronized c = c\<lparr>desynchronized := True\<rparr>"

text \<open>\<open>self.ensure_healthy()?\<close>, and a message writer applied to \<open>self.write_buf\<close>.\<close>

definition guard :: "RawConnection \<Rightarrow> unit outcome" where
  "guard c = Some (ensure_healthy c, c)"

definition emit :: "(bytes \<Rightarrow> bytes option) \<Rightarrow> RawConnection \<Rightarrow> unit outcome" where
  "emit w c = map_option (\<lambda>b. (Inr (), c\<lparr>write_buf := b\<rparr>)) (w (write_buf c))"

subsection \<open>Writing\<close>

definition flush :: "RawConnection \<Rightarrow> (Error + unit) \<times> RawConnection" where
  "flush c =
     (if write_buf c = [] then (Inr (), c)
      else
        (case stream_write_all (write_buf c) (conn_stream c) of
           (Inl e, s) \<Rightarrow> (Inl (IoError e), c\<lparr>conn_stream := s\<rparr>)
         | (Inr _, s) \<Rightarrow>
             (case stream_flush s of
                (Inl e, s') \<Rightarrow> (Inl (IoError e), c\<lparr>conn_stream := s'\<rparr>)
              | (Inr _, s') \<Rightarrow> (Inr (), c\<lparr>conn_stream := s', write_buf := []\<rparr>))))"

definition flush_or_desync :: "RawConnection \<Rightarrow> (Error + unit) \<times> RawConnection" where
  "flush_or_desync c =
     (case flush c of (Inl e, c') \<Rightarrow> (Inl e, mark_desynchronized c') | r \<Rightarrow> r)"

definition terminate :: "RawConnection \<Rightarrow> (Error + unit) \<times> RawConnection" where
  "terminate c = flush (c\<lparr>write_buf := terminate_msg (write_buf c)\<rparr>)"

definition flush_stream :: "RawConnection \<Rightarrow> (Error + unit) \<times> RawConnection" where
  "flush_stream c =
     (case stream_flush (conn_stream c) of
        (Inl e, s) \<Rightarrow> (Inl (IoError e), c\<lparr>conn_stream := s\<rparr>)
      | (Inr _, s) \<Rightarrow> (Inr (), c\<lparr>conn_stream := s\<rparr>))"

subsection \<open>Reading\<close>

text \<open>What is still to come: unparsed bytes and unread events. An event of \<open>n\<close> bytes weighs more
  than \<open>n\<close>; a failing read weighs more than the bytes it leaves behind in the buffer.\<close>

fun event_weight :: "read_event \<Rightarrow> nat" where
  "event_weight (RdData d) = Suc (length d)"
| "event_weight (RdErr e) = Suc READ_WINDOW"

definition to_come :: "io_stream \<Rightarrow> nat" where
  "to_come s = sum_list (map event_weight (incoming s))"

lemma stream_read_to_come:
  assumes "stream_read READ_WINDOW s = (Inr d, s')" "d \<noteq> []"
  shows "to_come s' + length d \<le> to_come s" "to_come s' < to_come s"
  using assms by (auto simp: stream_read_def to_come_def READ_WINDOW_def split: list.splits read_event.splits if_splits)

function read_message :: "RawConnection \<Rightarrow> (Error + Message) \<times> RawConnection" where
  "read_message c =
     (case Message_parse (read_buf c) of
        (Inl e, rest) \<Rightarrow> (Inl (from_io e), c\<lparr>read_buf := rest\<rparr>)
      | (Inr (Some m), rest) \<Rightarrow> (Inr m, c\<lparr>read_buf := rest\<rparr>)
      | (Inr None, rest) \<Rightarrow>
          (case stream_read READ_WINDOW (conn_stream c) of
             (Inl e, s) \<Rightarrow>
               (Inl (IoError e), c\<lparr>conn_stream := s, read_buf := rest @ replicate READ_WINDOW 0\<rparr>)
           | (Inr d, s) \<Rightarrow>
               if d = [] then
                 (Inl (closed_error ''connection closed''), c\<lparr>conn_stream := s, read_buf := rest\<rparr>)
               else read_message (c\<lparr>conn_stream := s, read_buf := rest @ d\<rparr>)))"
  by pat_completeness auto
termination
  by (relation "measure (\<lambda>c. to_come (conn_stream c))") (auto dest: stream_read_to_come(2) [OF sym])

declare read_message.simps [simp del]

definition pending :: "RawConnection \<Rightarrow> nat" where
  "pending c = length (read_buf c) + to_come (conn_stream c)"

lemma read_message_pending: "read_message c = (Inr m, c') \<Longrightarrow> pending c' < pending c"
proof (induction c rule: read_message.induct)
  case (1 c)
  obtain r rest where p: "Message_parse (read_buf c) = (r, rest)"
    by (cases "Message_parse (read_buf c)")
  consider (err) e where "r = Inl e" | (msg) m' where "r = Inr (Some m')" | (none) "r = Inr None"
    by (cases r) auto
  then show ?case
  proof cases
    case err
    with 1(2) p show ?thesis
      by (subst (asm) read_message.simps) simp
  next
    case msg
    with 1(2) p Message_parse_progress [of "read_buf c"] show ?thesis
      by (subst (asm) read_message.simps) (auto simp: pending_def)
  next
    case none
    note rest = Message_parse_incomplete [OF p [unfolded none]]
    obtain x s where s: "stream_read READ_WINDOW (conn_stream c) = (x, s)"
      by (cases "stream_read READ_WINDOW (conn_stream c)")
    obtain d where x: "x = Inr d" "d \<noteq> []"
      using 1(2) p none s by (subst (asm) read_message.simps) (auto split: sum.splits if_splits)
    have "read_message (c\<lparr>conn_stream := s, read_buf := rest @ d\<rparr>) = (Inr m, c')"
      using 1(2) p none s x by (subst (asm) read_message.simps) simp
    from 1(1) [OF p [symmetric] none refl s [symmetric] x this] show ?thesis
      using stream_read_to_come(1) [OF s [unfolded x(1)] x(2)] by (simp add: pending_def rest)
  qed
qed

definition read_message_or_desync :: "RawConnection \<Rightarrow> (Error + Message) \<times> RawConnection" where
  "read_message_or_desync c =
     (case read_message c of (Inl e, c') \<Rightarrow> (Inl e, mark_desynchronized c') | r \<Rightarrow> r)"

subsection \<open>Draining\<close>

fun drain_until_ready_bounded :: "nat \<Rightarrow> RawConnection \<Rightarrow> bool \<times> RawConnection" where
  "drain_until_ready_bounded max_messages c =
     (if max_messages = 0 then (False, mark_desynchronized c)
      else
        (case read_message c of
           (Inr (ReadyForQuery _), c') \<Rightarrow> (True, c')
         | (Inr _, c') \<Rightarrow> drain_until_ready_bounded (max_messages - 1) c'
         | (Inl e, c') \<Rightarrow> (False, mark_desynchronized c')))"

declare drain_until_ready_bounded.simps [simp del]

definition drain_until_ready :: "RawConnection \<Rightarrow> RawConnection" where
  "drain_until_ready c = snd (drain_until_ready_bounded (2 ^ 64 - 1) c)"

function drain_abandoned_loop ::
  "nat \<Rightarrow> nat \<Rightarrow> nat \<Rightarrow> nat \<Rightarrow> RawConnection \<Rightarrow> bool \<times> RawConnection" where
  "drain_abandoned_loop max_other max_rows other rows c =
     (case read_message c of
        (Inr (ReadyForQuery _), c') \<Rightarrow> (True, c')
      | (Inr (DataRow _), c') \<Rightarrow>
          if rows + 1 > max_rows then (False, mark_desynchronized c')
          else drain_abandoned_loop max_other max_rows other (rows + 1) c'
      | (Inr _, c') \<Rightarrow>
          if other + 1 > max_other then (False, mark_desynchronized c')
          else drain_abandoned_loop max_other max_rows (other + 1) rows c'
      | (Inl e, c') \<Rightarrow> (False, mark_desynchronized c'))"
  by pat_completeness auto
termination
  by (relation "measure (\<lambda>(_, _, _, _, c). pending c)") (auto dest: read_message_pending [OF sym])

declare drain_abandoned_loop.simps [simp del]

definition drain_abandoned_stream :: "nat \<Rightarrow> nat \<Rightarrow> RawConnection \<Rightarrow> bool \<times> RawConnection" where
  "drain_abandoned_stream max_other_messages max_data_rows c =
     drain_abandoned_loop max_other_messages max_data_rows 0 0 c"

definition consume_error :: "bytes \<Rightarrow> RawConnection \<Rightarrow> Error \<times> RawConnection" where
  "consume_error body c =
     (let err = parse_error_response body
      in (err, snd (drain_until_ready_bounded POST_ERROR_DRAIN_CAP c)))"

text \<open>\<open>return Err(self.consume_error(&body))\<close>\<close>

definition server_error :: "bytes \<Rightarrow> RawConnection \<Rightarrow> (Error + 'a) \<times> RawConnection" where
  "server_error body c = (case consume_error body c of (e, c') \<Rightarrow> (Inl e, c'))"

subsection \<open>Queries\<close>

text \<open>The loop of \<open>simple_query\<close> and \<open>query_binary\<close>.\<close>

function collect_messages :: "Message list \<Rightarrow> RawConnection \<Rightarrow> (Error + Message list) \<times> RawConnection" where
  "collect_messages messages c =
     (case read_message c of
        (Inl e, c') \<Rightarrow> (Inl e, c')
      | (Inr (ReadyForQuery s), c') \<Rightarrow> (Inr (messages @ [ReadyForQuery s]), c')
      | (Inr (ErrorResponse body), c') \<Rightarrow> server_error body c'
      | (Inr m, c') \<Rightarrow> collect_messages (messages @ [m]) c')"
  by pat_completeness auto
termination
  by (relation "measure (\<lambda>(_, c). pending c)") (auto dest: read_message_pending [OF sym])

declare collect_messages.simps [simp del]

definition simple_query :: "string \<Rightarrow> RawConnection \<Rightarrow> Message list outcome" where
  "simple_query q c =
     andthen (guard c) (\<lambda>_ c.
     andthen (emit (query q) c) (\<lambda>_ c.
     andthen (Some (flush c)) (\<lambda>_ c.
       Some (collect_messages [] c))))"

text \<open>The extended protocol with \<open>HyperBinary\<close> results (format code 2).\<close>

definition HYPER_BINARY_FORMAT :: i16 where "HYPER_BINARY_FORMAT = 2"

definition start_query_binary :: "string \<Rightarrow> RawConnection \<Rightarrow> unit outcome" where
  "start_query_binary q c =
     andthen (guard c) (\<lambda>_ c.
     andthen (emit (parse '''' q []) c) (\<lambda>_ c.
     andthen (emit (bind_msg '''' '''' [] [] [HYPER_BINARY_FORMAT]) c) (\<lambda>_ c.
     andthen (emit (describe (byte_of CHR ''P'') '''') c) (\<lambda>_ c.
     andthen (emit (execute '''' 0) c) (\<lambda>_ c.
     andthen (emit (\<lambda>b. Some (sync b)) c) (\<lambda>_ c.
       Some (flush c)))))))"

definition query_binary :: "string \<Rightarrow> RawConnection \<Rightarrow> Message list outcome" where
  "query_binary q c =
     andthen (guard c) (\<lambda>_ c.
     andthen (emit (parse '''' q []) c) (\<lambda>_ c.
     andthen (emit (bind_msg '''' '''' [] [] [HYPER_BINARY_FORMAT]) c) (\<lambda>_ c.
     andthen (emit (describe (byte_of CHR ''P'') '''') c) (\<lambda>_ c.
     andthen (emit (execute '''' 0) c) (\<lambda>_ c.
     andthen (emit (\<lambda>b. Some (sync b)) c) (\<lambda>_ c.
     andthen (Some (flush c)) (\<lambda>_ c.
       Some (collect_messages [] c))))))))"

definition start_simple_query :: "string \<Rightarrow> RawConnection \<Rightarrow> unit outcome" where
  "start_simple_query q c =
     andthen (guard c) (\<lambda>_ c.
     andthen (emit (query q) c) (\<lambda>_ c.
       Some (flush c)))"

definition bind_execute_sync ::
  "string \<Rightarrow> bytes option list \<Rightarrow> i16 list \<Rightarrow> nat \<Rightarrow> RawConnection \<Rightarrow> unit outcome" where
  "bind_execute_sync statement_name params param_format_codes column_count c =
     andthen (guard c) (\<lambda>_ c.
     andthen (emit (bind_msg '''' statement_name param_format_codes params
       (replicate column_count HYPER_BINARY_FORMAT)) c) (\<lambda>_ c.
     andthen (emit (execute '''' 0) c) (\<lambda>_ c.
     andthen (emit (\<lambda>b. Some (sync b)) c) (\<lambda>_ c.
       Some (flush c)))))"

definition start_execute_prepared_with_formats ::
  "string \<Rightarrow> bytes option list \<Rightarrow> ParamFormat list \<Rightarrow> nat \<Rightarrow> RawConnection \<Rightarrow> unit outcome" where
  "start_execute_prepared_with_formats statement_name params param_formats column_count c =
     andthen (Some (bind_format_codes param_formats (length params), c)) (\<lambda>format_codes c.
       bind_execute_sync statement_name params format_codes column_count c)"

definition start_execute_prepared ::
  "string \<Rightarrow> bytes option list \<Rightarrow> nat \<Rightarrow> RawConnection \<Rightarrow> unit outcome" where
  "start_execute_prepared statement_name params column_count c =
     start_execute_prepared_with_formats statement_name params [] column_count c"

subsection \<open>COPY in\<close>

text \<open>The loop that waits for \<open>CopyInResponse\<close>.\<close>

function await_copy_in :: "RawConnection \<Rightarrow> (Error + unit) \<times> RawConnection" where
  "await_copy_in c =
     (case read_message c of
        (Inl e, c') \<Rightarrow> (Inl e, c')
      | (Inr (CopyInResponse _), c') \<Rightarrow> (Inr (), c')
      | (Inr (ErrorResponse body), c') \<Rightarrow> server_error body c'
      | (Inr _, c') \<Rightarrow> await_copy_in c')"
  by pat_completeness auto
termination
  by (relation "measure pending") (auto dest: read_message_pending [OF sym])

declare await_copy_in.simps [simp del]

definition start_copy_in_raw :: "string \<Rightarrow> RawConnection \<Rightarrow> unit outcome" where
  "start_copy_in_raw q c =
     andthen (guard c) (\<lambda>_ c.
     andthen (emit (query q) c) (\<lambda>_ c.
     andthen (Some (flush c)) (\<lambda>_ c.
       Some (await_copy_in c))))"

text \<open>\<open>join\<close> of the standard library, and the COPY command.\<close>

fun join :: "string \<Rightarrow> string list \<Rightarrow> string" where
  "join sep [] = ''''"
| "join sep [s] = s"
| "join sep (s # t # ss) = s @ sep @ join sep (t # ss)"

definition copy_in_command :: "string \<Rightarrow> string list \<Rightarrow> string \<Rightarrow> string" where
  "copy_in_command table_name columns format =
     (let column_list =
        (if columns = [] then ''''
         else '' ('' @ join '', '' (map (\<lambda>c. [CHR 0x22] @
             concat (map (\<lambda>d. if d = CHR 0x22 then [CHR 0x22, CHR 0x22] else [d]) c) @ [CHR 0x22]) columns)
           @ '')'')
      in ''COPY '' @ table_name @ column_list @ '' FROM STDIN WITH (FORMAT '' @ format @ '')'')"

definition start_copy_in_with_format :: "string \<Rightarrow> string list \<Rightarrow> string \<Rightarrow> RawConnection \<Rightarrow> unit outcome" where
  "start_copy_in_with_format table_name columns format c =
     andthen (guard c) (\<lambda>_ c.
     andthen (emit (query (copy_in_command table_name columns format)) c) (\<lambda>_ c.
     andthen (Some (flush c)) (\<lambda>_ c.
       Some (await_copy_in c))))"

definition start_copy_in :: "string \<Rightarrow> string list \<Rightarrow> RawConnection \<Rightarrow> unit outcome" where
  "start_copy_in table_name columns c = start_copy_in_with_format table_name columns ''HYPERBINARY'' c"

definition send_copy_data :: "bytes \<Rightarrow> RawConnection \<Rightarrow> unit outcome" where
  "send_copy_data data c = emit (copy_data data) c"

definition stream_put :: "bytes \<Rightarrow> RawConnection \<Rightarrow> (Error + unit) \<times> RawConnection" where
  "stream_put bs c =
     (case stream_write_all bs (conn_stream c) of
        (Inl e, s) \<Rightarrow> (Inl (IoError e), mark_desynchronized (c\<lparr>conn_stream := s\<rparr>))
      | (Inr _, s) \<Rightarrow> (Inr (), c\<lparr>conn_stream := s\<rparr>))"

definition send_copy_data_direct :: "bytes \<Rightarrow> RawConnection \<Rightarrow> unit outcome" where
  "send_copy_data_direct data c =
     andthen (Some (if write_buf c \<noteq> [] then
         (case stream_put (write_buf c) c of
            (Inl e, c') \<Rightarrow> (Inl e, c')
          | (Inr _, c') \<Rightarrow> (Inr (), c'\<lparr>write_buf := []\<rparr>))
       else (Inr (), c))) (\<lambda>_ c.
     if 4 + length data \<ge> 2 ^ 32 then
       Some (Inl (ProtocolError ''CopyData payload exceeds u32::MAX bytes''), c)
     else
       andthen (Some (stream_put
         (byte_of CHR ''d'' # to_be_bytes (word_of_nat (4 + length data) :: u32)) c)) (\<lambda>_ c.
         Some (stream_put data c)))"

definition copy_count :: "bytes \<Rightarrow> nat option" where
  "copy_count body =
     (case CommandComplete_tag body of
        Inl _ \<Rightarrow> None
      | Inr tag \<Rightarrow>
          (case strip_prefix ''COPY '' tag of
             None \<Rightarrow> None
           | Some count_str \<Rightarrow> parse_unsigned (2 ^ 64 - 1) (trim count_str)))"

fun finish_copy_loop :: "nat \<Rightarrow> nat \<Rightarrow> RawConnection \<Rightarrow> (Error + nat) \<times> RawConnection" where
  "finish_copy_loop budget row_count c =
     (if budget = 0 then
        (Inl (ProtocolError (''finish_copy: no ReadyForQuery within the drain budget; ''
           @ ''connection marked desynchronized'')), mark_desynchronized c)
      else
        (case read_message_or_desync c of
           (Inl e, c') \<Rightarrow> (Inl e, c')
         | (Inr (CommandComplete body), c') \<Rightarrow>
             finish_copy_loop (budget - 1)
               (case copy_count body of Some count \<Rightarrow> count | None \<Rightarrow> row_count) c'
         | (Inr (ReadyForQuery _), c') \<Rightarrow> (Inr row_count, c')
         | (Inr (ErrorResponse body), c') \<Rightarrow> server_error body c'
         | (Inr _, c') \<Rightarrow> finish_copy_loop (budget - 1) row_count c'))"

declare finish_copy_loop.simps [simp del]

definition finish_copy :: "RawConnection \<Rightarrow> nat outcome" where
  "finish_copy c =
     andthen (guard c) (\<lambda>_ c.
     andthen (Some (flush_or_desync c)) (\<lambda>_ c.
     andthen (emit (\<lambda>b. Some (copy_done b)) c) (\<lambda>_ c.
     andthen (Some (flush_or_desync c)) (\<lambda>_ c.
       Some (finish_copy_loop POST_ERROR_DRAIN_CAP 0 c)))))"

fun cancel_copy_loop :: "nat \<Rightarrow> RawConnection \<Rightarrow> (Error + unit) \<times> RawConnection" where
  "cancel_copy_loop budget c =
     (if budget = 0 then
        (Inl (ProtocolError (''cancel_copy: no ReadyForQuery within the drain budget; ''
           @ ''connection marked desynchronized'')), mark_desynchronized c)
      else
        (case read_message_or_desync c of
           (Inl e, c') \<Rightarrow> (Inl e, c')
         | (Inr (ReadyForQuery _), c') \<Rightarrow> (Inr (), c')
         | (Inr _, c') \<Rightarrow> cancel_copy_loop (budget - 1) c'))"

declare cancel_copy_loop.simps [simp del]

definition cancel_copy :: "string \<Rightarrow> RawConnection \<Rightarrow> unit outcome" where
  "cancel_copy reason c =
     andthen (guard c) (\<lambda>_ c.
     andthen (Some (flush_or_desync c)) (\<lambda>_ c.
     andthen (emit (copy_fail reason) c) (\<lambda>_ c.
     andthen (Some (flush_or_desync c)) (\<lambda>_ c.
       Some (cancel_copy_loop POST_ERROR_DRAIN_CAP c)))))"

subsection \<open>COPY out\<close>

function copy_out_loop :: "bytes \<Rightarrow> bool \<Rightarrow> RawConnection \<Rightarrow> (Error + bytes) \<times> RawConnection" where
  "copy_out_loop data in_copy_out c =
     (case read_message c of
        (Inl e, c') \<Rightarrow> (Inl e, c')
      | (Inr (CopyOutResponse _), c') \<Rightarrow> copy_out_loop data True c'
      | (Inr (Message.CopyData body), c') \<Rightarrow>
          copy_out_loop (if in_copy_out then data @ body else data) in_copy_out c'
      | (Inr Message.CopyDone, c') \<Rightarrow> copy_out_loop data False c'
      | (Inr (ReadyForQuery _), c') \<Rightarrow> (Inr data, c')
      | (Inr (ErrorResponse body), c') \<Rightarrow> server_error body c'
      | (Inr _, c') \<Rightarrow> copy_out_loop data in_copy_out c')"
  by pat_completeness auto
termination
  by (relation "measure (\<lambda>(_, _, c). pending c)") (auto dest: read_message_pending [OF sym])

declare copy_out_loop.simps [simp del]

definition copy_out :: "string \<Rightarrow> RawConnection \<Rightarrow> bytes outcome" where
  "copy_out q c =
     andthen (guard c) (\<lambda>_ c.
     andthen (emit (query q) c) (\<lambda>_ c.
     andthen (Some (flush c)) (\<lambda>_ c.
       Some (copy_out_loop [] False c))))"

text \<open>\<open>copy_out_to_writer\<close>: the writer \<open>dyn Write\<close> is scripted like the stream.\<close>

function copy_out_writer_loop ::
  "nat \<Rightarrow> bool \<Rightarrow> io_stream \<Rightarrow> RawConnection \<Rightarrow> (Error + nat) \<times> io_stream \<times> RawConnection" where
  "copy_out_writer_loop bytes_out in_copy_out w c =
     (case read_message c of
        (Inl e, c') \<Rightarrow> (Inl e, w, c')
      | (Inr (CopyOutResponse _), c') \<Rightarrow> copy_out_writer_loop bytes_out True w c'
      | (Inr (Message.CopyData body), c') \<Rightarrow>
          if in_copy_out then
            (case stream_write_all body w of
               (Inl e, w') \<Rightarrow> (Inl (IoError (''Failed to write COPY data: '' @ e)), w', c')
             | (Inr _, w') \<Rightarrow> copy_out_writer_loop (bytes_out + length body) True w' c')
          else copy_out_writer_loop bytes_out False w c'
      | (Inr Message.CopyDone, c') \<Rightarrow> copy_out_writer_loop bytes_out False w c'
      | (Inr (ReadyForQuery _), c') \<Rightarrow> (Inr bytes_out, w, c')
      | (Inr (ErrorResponse body), c') \<Rightarrow> (case server_error body c' of (r, c'') \<Rightarrow> (r, w, c''))
      | (Inr _, c') \<Rightarrow> copy_out_writer_loop bytes_out in_copy_out w c')"
  by pat_completeness auto
termination
  by (relation "measure (\<lambda>(_, _, _, c). pending c)") (auto dest: read_message_pending [OF sym])

declare copy_out_writer_loop.simps [simp del]

definition copy_out_to_writer ::
  "string \<Rightarrow> io_stream \<Rightarrow> RawConnection \<Rightarrow> ((Error + nat) \<times> io_stream \<times> RawConnection) option" where
  "copy_out_to_writer q w c =
     (case andthen (guard c) (\<lambda>_ c. andthen (emit (query q) c) (\<lambda>_ c. Some (flush c))) of
        None \<Rightarrow> None
      | Some (Inl e, c') \<Rightarrow> Some (Inl e, w, c')
      | Some (Inr _, c') \<Rightarrow> Some (copy_out_writer_loop 0 False w c'))"

subsection \<open>Start-up\<close>

text \<open>\<open>{:?}\<close> of a list of strings, for printable text.\<close>

definition debug_str :: "string \<Rightarrow> string" where
  "debug_str s = [CHR 0x22] @
     concat (map (\<lambda>c. if c = CHR 0x22 \<or> c = CHR 0x5C then [CHR 0x5C, c] else [c]) s) @ [CHR 0x22]"

definition debug_list :: "string list \<Rightarrow> string" where
  "debug_list ss = ''['' @ join '', '' (map debug_str ss) @ '']''"

definition need_password :: "string \<Rightarrow> string option \<Rightarrow> Error + string" where
  "need_password m password =
     (case password of None \<Rightarrow> Inl (AuthenticationError m) | Some p \<Rightarrow> Inr p)"

text \<open>One turn of the loop. The loop state is the number of exchanges started (each takes fresh
  random bytes) and \<open>auth_state\<close>; the result \<open>None\<close> is the return from the loop.\<close>

type_synonym startup_state = "nat \<times> AuthState option"

definition startup_step ::
  "crypto \<Rightarrow> (nat \<Rightarrow> bytes) \<Rightarrow> (string \<times> string) list \<Rightarrow> string option
     \<Rightarrow> startup_state \<Rightarrow> Message \<Rightarrow> RawConnection \<Rightarrow> startup_state option outcome" where
  "startup_step k rnd params password st msg c =
     (case msg of
        AuthenticationOk \<Rightarrow> Some (Inr (Some st), c)
      | AuthenticationCleartextPassword \<Rightarrow>
          andthen (Some (need_password ''server requested cleartext password but none provided'' password, c)) (\<lambda>p c.
          andthen (emit (password_message p) c) (\<lambda>_ c.
          andthen (Some (flush c)) (\<lambda>_ c. Some (Inr (Some st), c))))
      | AuthenticationMd5Password salt \<Rightarrow>
          andthen (Some (need_password ''server requested MD5 password but none provided'' password, c)) (\<lambda>p c.
          let user = (case find (\<lambda>(key, _). key = ''user'') params of Some (_, v) \<Rightarrow> v | None \<Rightarrow> '''')
          in andthen (emit (password_message (compute_md5_password k user p salt)) c) (\<lambda>_ c.
             andthen (Some (flush c)) (\<lambda>_ c. Some (Inr (Some st), c))))
      | AuthenticationSasl body \<Rightarrow>
          andthen (Some (need_password ''server requested SASL authentication but no password provided'' password, c))
          (\<lambda>p c.
          if ''SCRAM-SHA-256'' \<notin> set (mechanisms body) then
            Some (Inl (AuthenticationError
              (''server offered unsupported SASL mechanisms: '' @ debug_list (mechanisms body))), c)
          else
            let (state, client_first) = scram_client_first k (rnd (fst st)) p
            in andthen (emit (sasl_initial_response ''SCRAM-SHA-256'' client_first) c) (\<lambda>_ c.
               andthen (Some (flush c)) (\<lambda>_ c. Some (Inr (Some (Suc (fst st), Some state)), c))))
      | AuthenticationSaslContinue body \<Rightarrow>
          (case snd st of
             None \<Rightarrow> Some (Inl (AuthenticationError ''received SASL continue without initial state''), c)
           | Some state \<Rightarrow>
               andthen (Some (scram_client_final k state body, c)) (\<lambda>(new_state, client_final) c.
               andthen (emit (sasl_response client_final) c) (\<lambda>_ c.
               andthen (Some (flush c)) (\<lambda>_ c. Some (Inr (Some (fst st, Some new_state)), c)))))
      | AuthenticationSaslFinal body \<Rightarrow>
          (case snd st of
             None \<Rightarrow> Some (Inl (AuthenticationError ''received SASL final without state''), c)
           | Some state \<Rightarrow>
               andthen (Some (scram_verify_server k state body, c)) (\<lambda>_ c.
                 Some (Inr (Some (fst st, None)), c)))
      | BackendKeyData pid key \<Rightarrow> Some (Inr (Some st), c\<lparr>process_id := pid, secret_key := key\<rparr>)
      | ParameterStatus n v \<Rightarrow>
          (case (ParameterStatus_name n, ParameterStatus_value v) of
             (Inr name, Inr val) \<Rightarrow>
               Some (Inr (Some st), c\<lparr>server_params := (server_params c)(name \<mapsto> val)\<rparr>)
           | _ \<Rightarrow> Some (Inr (Some st), c))
      | ReadyForQuery _ \<Rightarrow> Some (Inr None, c)
      | ErrorResponse body \<Rightarrow> Some (server_error body c)
      | _ \<Rightarrow> Some (Inl (ProtocolError ''unexpected message during startup''), c))"

lemma andthen_Inr:
  "andthen r f = Some (Inr b, c') \<longleftrightarrow> (\<exists>a c. r = Some (Inr a, c) \<and> f a c = Some (Inr b, c'))"
  by (auto simp: andthen_def split: option.split sum.split prod.split)

lemma pending_update [simp]:
  "pending (c\<lparr>process_id := p\<rparr>) = pending c" "pending (c\<lparr>secret_key := i\<rparr>) = pending c"
  "pending (c\<lparr>server_params := m\<rparr>) = pending c"
  by (simp_all add: pending_def)

lemma emit_pending: "emit w c = Some (r, c') \<Longrightarrow> pending c' = pending c"
  by (auto simp: emit_def pending_def)

lemma flush_pending: "flush c = (r, c') \<Longrightarrow> pending c' = pending c"
  by (auto simp: flush_def stream_write_all_def stream_flush_def pending_def to_come_def
      split: if_splits list.splits write_event.splits)

lemma startup_step_pending:
  "startup_step k rnd params password st msg c = Some (Inr (Some st'), c') \<Longrightarrow> pending c' = pending c"
  unfolding startup_step_def
  by (cases msg)
    (auto simp: andthen_Inr need_password_def Let_def server_error_def
      dest!: emit_pending flush_pending split: option.splits sum.splits prod.splits if_splits)

lemma startup_turn:
  "read_message c = (Inr msg, c1) \<Longrightarrow>
   startup_step k rnd params password st msg c1 = Some (Inr (Some st'), c') \<Longrightarrow> pending c' < pending c"
  using read_message_pending startup_step_pending by metis

function startup_loop ::
  "crypto \<Rightarrow> (nat \<Rightarrow> bytes) \<Rightarrow> (string \<times> string) list \<Rightarrow> string option
     \<Rightarrow> startup_state \<Rightarrow> RawConnection \<Rightarrow> unit outcome" where
  "startup_loop k rnd params password st c =
     (case read_message c of
        (Inl e, c') \<Rightarrow> Some (Inl e, c')
      | (Inr msg, c') \<Rightarrow>
          (case startup_step k rnd params password st msg c' of
             None \<Rightarrow> None
           | Some (Inl e, c'') \<Rightarrow> Some (Inl e, c'')
           | Some (Inr None, c'') \<Rightarrow> Some (Inr (), c'')
           | Some (Inr (Some st'), c'') \<Rightarrow> startup_loop k rnd params password st' c''))"
  by pat_completeness auto
termination
  by (relation "measure (\<lambda>(_, _, _, _, _, c). pending c)")
    (auto intro: startup_turn [OF sym])

declare startup_loop.simps [simp del]

definition startup ::
  "crypto \<Rightarrow> (nat \<Rightarrow> bytes) \<Rightarrow> (string \<times> string) list \<Rightarrow> string option
     \<Rightarrow> RawConnection \<Rightarrow> unit outcome" where
  "startup k rnd params password c =
     andthen (emit (startup_message params) c) (\<lambda>_ c.
     andthen (Some (flush c)) (\<lambda>_ c.
       startup_loop k rnd params password (0, None) c))"

end
