(* ===== verification/Table_Definition.thy ===== *)
theory Table_Definition
  imports Sql_Names Sql_Types Raw_Connection
begin

text \<open>
  Table definitions, \<open>hyperdb-api/src/table_definition.rs\<close>: columns, constraints, the builder, lookups and
  the SQL text of \<open>CREATE TABLE\<close> and \<open>DROP TABLE\<close>.

  The specification of the text is a scanner that splits the list in parentheses at its commas,
  knowing nothing but quotes and nesting (\<open>scan_items\<close>).
\<close>

section \<open>The code\<close>

datatype Persistence = Permanent | Temporary

fun Persistence_fmt :: "Persistence \<Rightarrow> string" where
  "Persistence_fmt Permanent = ''Permanent''"
| "Persistence_fmt Temporary = ''Temporary''"

datatype SqlTypeOrName = TypedAs SqlType | TypeName string

fun SqlTypeOrName_type_name :: "SqlTypeOrName \<Rightarrow> string" where
  "SqlTypeOrName_type_name (TypedAs t) = SqlType_fmt t"
| "SqlTypeOrName_type_name (TypeName s) = s"

fun SqlTypeOrName_sql_type :: "SqlTypeOrName \<Rightarrow> SqlType option" where
  "SqlTypeOrName_sql_type (TypedAs t) = Some t"
| "SqlTypeOrName_sql_type (TypeName _) = None"

datatype TableConstraint = AssumedPrimaryKey "string list" | AssumedUnique "string list"

fun TableConstraint_columns :: "TableConstraint \<Rightarrow> string list" where
  "TableConstraint_columns (AssumedPrimaryKey columns) = columns"
| "TableConstraint_columns (AssumedUnique columns) = columns"

definition TableConstraint_to_sql :: "TableConstraint \<Rightarrow> string" where
  "TableConstraint_to_sql k =
     (let keyword = (case k of AssumedPrimaryKey _ \<Rightarrow> ''ASSUMED PRIMARY KEY'' | AssumedUnique _ \<Rightarrow> ''ASSUMED UNIQUE'');
          cols = join '', '' (map QuotedIdentifier_fmt (TableConstraint_columns k))
      in keyword @ '' ('' @ cols @ '')'')"

subsection \<open>Columns\<close>

record ColumnDefinition =
  col_name :: string
  sql_type_or_name :: SqlTypeOrName
  col_nullable :: bool
  collation :: "string option"
  default_expr :: "string option"

definition ColumnDefinition_new :: "string \<Rightarrow> string \<Rightarrow> bool \<Rightarrow> ColumnDefinition" where
  "ColumnDefinition_new name type_name nullable =
     \<lparr>col_name = name, sql_type_or_name = TypeName type_name, col_nullable = nullable,
      collation = None, default_expr = None\<rparr>"

definition with_sql_type :: "string \<Rightarrow> SqlType \<Rightarrow> Nullability \<Rightarrow> ColumnDefinition" where
  "with_sql_type name t n =
     \<lparr>col_name = name, sql_type_or_name = TypedAs t, col_nullable = is_nullable n,
      collation = None, default_expr = None\<rparr>"

definition with_collation :: "string \<Rightarrow> SqlType \<Rightarrow> string \<Rightarrow> Nullability \<Rightarrow> ColumnDefinition" where
  "with_collation name t coll n =
     \<lparr>col_name = name, sql_type_or_name = TypedAs t, col_nullable = is_nullable n,
      collation = Some coll, default_expr = None\<rparr>"

definition column_nullable :: "string \<Rightarrow> SqlType \<Rightarrow> ColumnDefinition" where
  "column_nullable name t = with_sql_type name t Nullable"

definition column_not_null :: "string \<Rightarrow> SqlType \<Rightarrow> ColumnDefinition" where
  "column_not_null name t = with_sql_type name t NotNullable"

definition column_nullability :: "ColumnDefinition \<Rightarrow> Nullability" where
  "column_nullability c = (if col_nullable c then Nullable else NotNullable)"

definition column_sql_type :: "ColumnDefinition \<Rightarrow> SqlType option" where
  "column_sql_type c = SqlTypeOrName_sql_type (sql_type_or_name c)"

definition column_type_name :: "ColumnDefinition \<Rightarrow> string" where
  "column_type_name c = SqlTypeOrName_type_name (sql_type_or_name c)"

definition set_default_expr :: "string \<Rightarrow> ColumnDefinition \<Rightarrow> ColumnDefinition" where
  "set_default_expr e c = c\<lparr>default_expr := Some e\<rparr>"

definition clear_default_expr :: "ColumnDefinition \<Rightarrow> ColumnDefinition" where
  "clear_default_expr c = c\<lparr>default_expr := None\<rparr>"

definition set_collation :: "string \<Rightarrow> ColumnDefinition \<Rightarrow> ColumnDefinition" where
  "set_collation coll c = c\<lparr>collation := Some coll\<rparr>"

definition set_sql_type :: "SqlType \<Rightarrow> ColumnDefinition \<Rightarrow> ColumnDefinition" where
  "set_sql_type t c = c\<lparr>sql_type_or_name := TypedAs t\<rparr>"

subsection \<open>Tables\<close>

record TableDefinition =
  td_name :: string
  td_schema :: "string option"
  td_database :: "string option"
  td_columns :: "ColumnDefinition list"
  td_persistence :: Persistence
  td_constraints :: "TableConstraint list"

definition TableDefinition_new :: "string \<Rightarrow> TableDefinition" where
  "TableDefinition_new name =
     \<lparr>td_name = name, td_schema = None, td_database = None, td_columns = [],
      td_persistence = Permanent, td_constraints = []\<rparr>"

definition TableDefinition_default :: TableDefinition where
  "TableDefinition_default = TableDefinition_new ''unnamed_table''"

text \<open>The argument is the outcome of the caller's \<open>try_into()\<close>.\<close>

definition from_table_name :: "ApiError + TableName \<Rightarrow> ApiError + TableDefinition" where
  "from_table_name table_name =
     try_bind table_name (\<lambda>tn. Inr
       \<lparr>td_name = unescaped (tn_table tn), td_schema = map_option unescaped (tn_schema tn),
        td_database = map_option unescaped (tn_database tn), td_columns = [],
        td_persistence = Permanent, td_constraints = []\<rparr>)"

definition with_schema :: "string \<Rightarrow> TableDefinition \<Rightarrow> TableDefinition" where
  "with_schema s td = td\<lparr>td_schema := Some s\<rparr>"

definition with_database :: "string \<Rightarrow> TableDefinition \<Rightarrow> TableDefinition" where
  "with_database d td = td\<lparr>td_database := Some d\<rparr>"

definition with_persistence :: "Persistence \<Rightarrow> TableDefinition \<Rightarrow> TableDefinition" where
  "with_persistence p td = td\<lparr>td_persistence := p\<rparr>"

definition set_persistence :: "Persistence \<Rightarrow> TableDefinition \<Rightarrow> TableDefinition" where
  "set_persistence p td = td\<lparr>td_persistence := p\<rparr>"

definition add_column_def :: "ColumnDefinition \<Rightarrow> TableDefinition \<Rightarrow> TableDefinition" where
  "add_column_def c td = td\<lparr>td_columns := td_columns td @ [c]\<rparr>"

definition add_column :: "string \<Rightarrow> SqlType \<Rightarrow> Nullability \<Rightarrow> TableDefinition \<Rightarrow> TableDefinition" where
  "add_column name t n td = td\<lparr>td_columns := td_columns td @ [with_sql_type name t n]\<rparr>"

definition add_nullable_column :: "string \<Rightarrow> SqlType \<Rightarrow> TableDefinition \<Rightarrow> TableDefinition" where
  "add_nullable_column name t td = td\<lparr>td_columns := td_columns td @ [with_sql_type name t Nullable]\<rparr>"

definition add_required_column :: "string \<Rightarrow> SqlType \<Rightarrow> TableDefinition \<Rightarrow> TableDefinition" where
  "add_required_column name t td = td\<lparr>td_columns := td_columns td @ [with_sql_type name t NotNullable]\<rparr>"

definition add_column_with_collation ::
  "string \<Rightarrow> SqlType \<Rightarrow> string \<Rightarrow> Nullability \<Rightarrow> TableDefinition \<Rightarrow> TableDefinition" where
  "add_column_with_collation name t coll n td =
     td\<lparr>td_columns := td_columns td @ [with_collation name t coll n]\<rparr>"

definition add_nullable_column_with_collation ::
  "string \<Rightarrow> SqlType \<Rightarrow> string \<Rightarrow> TableDefinition \<Rightarrow> TableDefinition" where
  "add_nullable_column_with_collation name t coll td =
     td\<lparr>td_columns := td_columns td @ [with_collation name t coll Nullable]\<rparr>"

definition add_required_column_with_collation ::
  "string \<Rightarrow> SqlType \<Rightarrow> string \<Rightarrow> TableDefinition \<Rightarrow> TableDefinition" where
  "add_required_column_with_collation name t coll td =
     td\<lparr>td_columns := td_columns td @ [with_collation name t coll NotNullable]\<rparr>"

text \<open>\<open>to_lowercase\<close> is compared with ASCII words only, none of which has a character that a
  non-ASCII letter lowers to, so lowering ASCII letters decides the same. \<open>numeric(38, 0)\<close> passes
  its assertions.\<close>

definition type_name_to_sql_type :: "string \<Rightarrow> SqlType option" where
  "type_name_to_sql_type type_name =
     (let s = to_ascii_lowercase type_name
      in if s \<in> {''integer'', ''int4'', ''int''} then Some SqlInt
         else if s \<in> {''smallint'', ''int2''} then Some SqlSmallInt
         else if s \<in> {''bigint'', ''int8''} then Some SqlBigInt
         else if s \<in> {''double precision'', ''float8''} then Some SqlDouble
         else if s \<in> {''real'', ''float4''} then Some SqlFloat
         else if s = ''text'' then Some SqlText
         else if s \<in> {''boolean'', ''bool''} then Some SqlBool
         else if s = ''date'' then Some SqlDate
         else if s \<in> {''time'', ''time without time zone''} then Some SqlTime
         else if s \<in> {''timestamp'', ''timestamp without time zone''} then Some SqlTimestamp
         else if s \<in> {''timestamptz'', ''timestamp with time zone''} then Some SqlTimestampTz
         else if s = ''bytea'' then Some SqlByteA
         else if s = ''numeric'' then Some (SqlNumeric 38 0)
         else if s = ''json'' then Some SqlJson
         else if s = ''geography'' then Some SqlGeography
         else if starts_with s ''varchar'' \<or> starts_with s ''character varying'' then Some (SqlVarchar (Some 1000))
         else if starts_with s ''char'' \<or> starts_with s ''character'' then Some (SqlChar 1)
         else None)"

definition add_column_raw :: "string \<Rightarrow> string \<Rightarrow> bool \<Rightarrow> TableDefinition \<Rightarrow> TableDefinition" where
  "add_column_raw name type_name nullable td =
     (let t = (case type_name_to_sql_type type_name of None \<Rightarrow> TypeName type_name | Some t \<Rightarrow> TypedAs t)
      in td\<lparr>td_columns := td_columns td @
           [\<lparr>col_name = name, sql_type_or_name = t, col_nullable = nullable, collation = None, default_expr = None\<rparr>]\<rparr>)"

definition add_column_with_sql_type :: "string \<Rightarrow> SqlType \<Rightarrow> bool \<Rightarrow> TableDefinition \<Rightarrow> TableDefinition" where
  "add_column_with_sql_type name t nullable td =
     td\<lparr>td_columns := td_columns td @
       [\<lparr>col_name = name, sql_type_or_name = TypedAs t, col_nullable = nullable, collation = None, default_expr = None\<rparr>]\<rparr>"

definition push_constraint :: "TableConstraint \<Rightarrow> TableDefinition \<Rightarrow> TableDefinition" where
  "push_constraint k td = td\<lparr>td_constraints := td_constraints td @ [k]\<rparr>"

definition set_constraints :: "TableConstraint list \<Rightarrow> TableDefinition \<Rightarrow> TableDefinition" where
  "set_constraints ks td = td\<lparr>td_constraints := ks\<rparr>"

definition set_table_name :: "string \<Rightarrow> TableDefinition \<Rightarrow> TableDefinition" where
  "set_table_name name td = td\<lparr>td_name := name\<rparr>"

definition column_count :: "TableDefinition \<Rightarrow> nat" where
  "column_count td = length (td_columns td)"

text \<open>Indexing panics out of range.\<close>

definition column_at :: "TableDefinition \<Rightarrow> nat \<Rightarrow> ColumnDefinition option" where
  "column_at td i = (if i < length (td_columns td) then Some (td_columns td ! i) else None)"

definition column_by_name :: "TableDefinition \<Rightarrow> string \<Rightarrow> ColumnDefinition option" where
  "column_by_name td name = List.find (\<lambda>c. col_name c = name) (td_columns td)"

fun position :: "('a \<Rightarrow> bool) \<Rightarrow> 'a list \<Rightarrow> nat option" where
  "position p [] = None"
| "position p (x # xs) = (if p x then Some 0 else map_option Suc (position p xs))"

definition column_position_by_name :: "TableDefinition \<Rightarrow> string \<Rightarrow> nat option" where
  "column_position_by_name td name = position (\<lambda>c. col_name c = name) (td_columns td)"

definition table_name :: "TableDefinition \<Rightarrow> string" where
  "table_name td = SqlIdentifier_fmt (td_name td)"

definition schema_name :: "TableDefinition \<Rightarrow> string option" where
  "schema_name td = map_option SqlIdentifier_fmt (td_schema td)"

definition database_name :: "TableDefinition \<Rightarrow> string option" where
  "database_name td = map_option SqlIdentifier_fmt (td_database td)"

definition qualified_name :: "TableDefinition \<Rightarrow> string" where
  "qualified_name td =
     (case (td_database td, td_schema td) of
        (Some dn, Some s) \<Rightarrow> SqlIdentifier_fmt dn @ ''.'' @ SqlIdentifier_fmt s @ ''.'' @ SqlIdentifier_fmt (td_name td)
      | (None, Some s) \<Rightarrow> SqlIdentifier_fmt s @ ''.'' @ SqlIdentifier_fmt (td_name td)
      | (Some dn, None) \<Rightarrow> SqlIdentifier_fmt dn @ ''.'' @ SqlIdentifier_fmt (td_name td)
      | (None, None) \<Rightarrow> SqlIdentifier_fmt (td_name td))"

definition to_table_name :: "TableDefinition \<Rightarrow> ApiError + TableName" where
  "to_table_name td =
     try_bind (TableName_try_new (td_name td)) (\<lambda>t.
     try_bind (case td_schema td of Some s \<Rightarrow> TableName_with_schema t s | None \<Rightarrow> Inr t) (\<lambda>t.
     case td_database td of Some d \<Rightarrow> TableName_with_database t d | None \<Rightarrow> Inr t))"

text \<open>One column of \<open>to_create_sql\<close>.\<close>

definition column_clause :: "ColumnDefinition \<Rightarrow> string" where
  "column_clause c =
     QuotedIdentifier_fmt (col_name c) @ '' '' @ column_type_name c @
     (case collation c of Some coll \<Rightarrow> '' COLLATE '' @ QuotedIdentifier_fmt coll | None \<Rightarrow> '''') @
     (if \<not> col_nullable c then '' NOT NULL'' else '''') @
     (case default_expr c of Some e \<Rightarrow> '' DEFAULT '' @ e | None \<Rightarrow> '''')"

definition create_keyword :: "Persistence \<Rightarrow> bool \<Rightarrow> string" where
  "create_keyword p fail_if_exists =
     (case p of
        Permanent \<Rightarrow> if fail_if_exists then ''CREATE TABLE '' else ''CREATE TABLE IF NOT EXISTS ''
      | Temporary \<Rightarrow> if fail_if_exists then ''CREATE TEMPORARY TABLE '' else ''CREATE TEMPORARY TABLE IF NOT EXISTS '')"

fun column_loop :: "nat \<Rightarrow> string \<Rightarrow> ColumnDefinition list \<Rightarrow> string" where
  "column_loop i sql [] = sql"
| "column_loop i sql (c # cs) =
     column_loop (i + 1) (sql @ (if i > 0 then '', '' else '''') @ column_clause c) cs"

definition to_create_sql :: "TableDefinition \<Rightarrow> bool \<Rightarrow> ApiError + string" where
  "to_create_sql td fail_if_exists =
     (if td_columns td = [] then Inl (InvalidTableDefinition ''Table must have at least one column'')
      else
        let sql = create_keyword (td_persistence td) fail_if_exists;
            sql = sql @ qualified_name td;
            sql = sql @ '' ('';
            sql = column_loop 0 sql (td_columns td);
            sql = foldl (\<lambda>sql k. sql @ '', '' @ TableConstraint_to_sql k) sql (td_constraints td);
            sql = sql @ '')''
        in Inr sql)"

definition to_drop_sql :: "TableDefinition \<Rightarrow> bool \<Rightarrow> string" where
  "to_drop_sql td fail_if_not_exists =
     (if fail_if_not_exists then ''DROP TABLE '' else ''DROP TABLE IF EXISTS '') @ qualified_name td"

section \<open>A scanner for lists in parentheses\<close>

text \<open>One character of SQL text: the nesting depth and the open quote, if any. A doubled quote closes and
  reopens. \<open>None\<close> where the list has a top-level comma or its closing parenthesis.\<close>

definition lex_step :: "nat \<times> char option \<Rightarrow> char \<Rightarrow> (nat \<times> char option) option" where
  "lex_step st c =
     (case st of
        (d, Some q) \<Rightarrow> Some (d, if c = q then None else Some q)
      | (d, None) \<Rightarrow>
          if c = CHR 0x22 \<or> c = CHR 0x27 then Some (d, Some c)
          else if c = CHR ''('' then Some (d + 1, None)
          else if c = CHR '')'' then (if d = 0 then None else Some (d - 1, None))
          else if c = CHR '','' \<and> d = 0 then None
          else Some (d, None))"

fun lex :: "nat \<times> char option \<Rightarrow> string \<Rightarrow> (nat \<times> char option) option" where
  "lex st [] = Some st"
| "lex st (c # cs) = (case lex_step st c of None \<Rightarrow> None | Some st' \<Rightarrow> lex st' cs)"

text \<open>The items up to the closing parenthesis, and the text behind it.\<close>

fun scan_items :: "nat \<times> char option \<Rightarrow> string \<Rightarrow> string \<Rightarrow> (string list \<times> string) option" where
  "scan_items st item [] = None"
| "scan_items st item (c # cs) =
     (case lex_step st c of
        Some st' \<Rightarrow> scan_items st' (item @ [c]) cs
      | None \<Rightarrow>
          if c = CHR '')'' then Some ([item], cs)
          else map_option (\<lambda>(items, r). (item # items, r)) (scan_items (0, None) [] cs))"

definition closed_text :: "string \<Rightarrow> bool" where
  "closed_text s \<longleftrightarrow> lex (0, None) s = Some (0, None)"

lemma lex_append: "lex st (s @ t) = (case lex st s of None \<Rightarrow> None | Some st' \<Rightarrow> lex st' t)"
  by (induction st s rule: lex.induct) (auto split: option.splits)

lemma closed_append [intro]: "closed_text s \<Longrightarrow> closed_text t \<Longrightarrow> closed_text (s @ t)"
  by (simp add: closed_text_def lex_append)

lemma scan_items_lex:
  "lex st s = Some st' \<Longrightarrow> scan_items st item (s @ rest) = scan_items st' (item @ s) rest"
  by (induction st s arbitrary: item rule: lex.induct) (auto split: option.splits)

lemma closed_plain:
  "list_all (\<lambda>c. c \<notin> {CHR 0x22, CHR 0x27, CHR ''('', CHR '')'', CHR '',''}) s \<Longrightarrow> lex (d, None) s = Some (d, None)"
  by (induction s) (auto simp: lex_step_def)

lemma lex_show_nat [simp]: "lex (d, None) (show_nat n) = Some (d, None)"
proof (rule closed_plain)
  show "list_all (\<lambda>c. c \<notin> {CHR 0x22, CHR 0x27, CHR ''('', CHR '')'', CHR '',''}) (show_nat n)"
    using show_nat_digits [of n]
    by (auto simp: list_all_iff char_digit_def)
qed

lemma closed_SqlType: "closed_text (SqlType_fmt t)"
  by (cases t rule: SqlType_fmt.cases)
    (simp_all add: closed_text_def lex_append lex_step_def)

lemma lex_quoted_body:
  "lex (d, Some (CHR 0x22)) (concat (map (\<lambda>c. if c = CHR 0x22 then [CHR 0x22, CHR 0x22] else [c]) s))
     = Some (d, Some (CHR 0x22))"
  by (induction s) (auto simp: lex_step_def)

lemma lex_QuotedIdentifier [simp]: "lex (d, None) (QuotedIdentifier_fmt s) = Some (d, None)"
  by (simp add: QuotedIdentifier_fmt_def lex_append lex_quoted_body) (simp add: lex_step_def lex_append lex_quoted_body)

lemma closed_QuotedIdentifier: "closed_text (QuotedIdentifier_fmt s)"
  by (simp add: closed_text_def)

lemma lex_join_quoted:
  "0 < d \<Longrightarrow> lex (d, None) (join '', '' (map QuotedIdentifier_fmt ss)) = Some (d, None)"
proof (induction ss)
  case (Cons s ss)
  then show ?case
    by (cases ss) (simp_all add: lex_append lex_step_def)
qed simp

lemma closed_constraint: "closed_text (TableConstraint_to_sql k)"
  by (cases k) (simp_all add: closed_text_def TableConstraint_to_sql_def lex_append lex_step_def lex_join_quoted)

text \<open>The parts of a column that are SQL text of the caller: a type given by name and a default.\<close>

definition column_text_closed :: "ColumnDefinition \<Rightarrow> bool" where
  "column_text_closed c \<longleftrightarrow>
     (case sql_type_or_name c of TypedAs _ \<Rightarrow> True | TypeName s \<Rightarrow> closed_text s) \<and>
     pred_option closed_text (default_expr c)"

lemma closed_type_name: "column_text_closed c \<Longrightarrow> closed_text (column_type_name c)"
  by (cases "sql_type_or_name c") (simp_all add: column_text_closed_def column_type_name_def closed_SqlType)

lemma closed_column_clause:
  assumes "column_text_closed c"
  shows "closed_text (column_clause c)"
proof -
  have "closed_text (case default_expr c of Some e \<Rightarrow> '' DEFAULT '' @ e | None \<Rightarrow> '''')"
    using assms by (auto simp: column_text_closed_def closed_text_def lex_step_def split: option.splits)
  moreover have "closed_text (case collation c of Some coll \<Rightarrow> '' COLLATE '' @ QuotedIdentifier_fmt coll | None \<Rightarrow> '''')"
    by (simp add: closed_text_def lex_step_def split: option.splits)
  moreover have "closed_text (if \<not> col_nullable c then '' NOT NULL'' else '''')" "closed_text '' ''"
    by (simp_all add: closed_text_def lex_step_def)
  ultimately show ?thesis
    unfolding column_clause_def
    by (intro closed_append closed_QuotedIdentifier closed_type_name assms)
qed

section \<open>The text of \<open>CREATE TABLE\<close>\<close>

lemma scan_items_join:
  "list_all closed_text (x # xs) \<Longrightarrow>
   scan_items (0, None) pre (join '', '' (x # xs) @ CHR '')'' # rest)
     = Some ((pre @ x) # map ((#) (CHR '' '')) xs, rest)"
proof (induction xs arbitrary: x pre)
  case Nil
  then show ?case
    using scan_items_lex [of "(0, None)" x "(0, None)" pre "CHR '')'' # rest"]
    by (simp add: closed_text_def lex_step_def)
next
  case (Cons y ys)
  then have "scan_items (0, None) pre (x @ CHR '','' # CHR '' '' # join '', '' (y # ys) @ CHR '')'' # rest)
      = scan_items (0, None) (pre @ x) (CHR '','' # CHR '' '' # join '', '' (y # ys) @ CHR '')'' # rest)"
    by (intro scan_items_lex) (simp add: closed_text_def)
  moreover have "scan_items (0, None) '' '' (join '', '' (y # ys) @ CHR '')'' # rest)
      = Some (('' '' @ y) # map ((#) (CHR '' '')) ys, rest)"
    using Cons.prems by (intro Cons.IH) simp
  ultimately show ?case
    by (simp add: lex_step_def)
qed

lemma join_Cons: "join sep (s # zs) = s @ concat (map ((@) sep) zs)"
proof (induction zs arbitrary: s)
  case (Cons z zs)
  show ?case using Cons.IH [of z] by simp
qed simp

lemma join_append:
  "ys \<noteq> [] \<Longrightarrow> join sep (ys @ zs) = join sep ys @ concat (map ((@) sep) zs)"
  by (cases ys) (simp_all add: join_Cons)

lemma column_loop_join:
  "column_loop i sql cs = sql @ (if 0 < i \<and> cs \<noteq> [] then '', '' else '''') @ join '', '' (map column_clause cs)"
proof (induction cs arbitrary: i sql)
  case (Cons c cs)
  have "column_loop i sql (c # cs) = column_loop (i + 1) (sql @ (if i > 0 then '', '' else '''') @ column_clause c) cs"
    by simp
  also have "\<dots> = (sql @ (if i > 0 then '', '' else '''') @ column_clause c) @
      (if cs \<noteq> [] then '', '' else '''') @ join '', '' (map column_clause cs)"
    by (subst Cons.IH) simp
  also have "\<dots> = sql @ (if 0 < i then '', '' else '''') @ join '', '' (map column_clause (c # cs))"
    by (cases cs) simp_all
  finally show ?case by simp
qed simp

lemma foldl_append_text: "foldl (\<lambda>sql k. sql @ f k) sql ks = sql @ concat (map f ks)"
  by (induction ks arbitrary: sql) simp_all

text \<open>The entries of the column list as the scanner sees them: every entry but the first keeps the blank
  that follows the comma.\<close>

definition list_entries :: "string list \<Rightarrow> string list" where
  "list_entries xs = (case xs of [] \<Rightarrow> [] | x # xs \<Rightarrow> x # map ((#) (CHR '' '')) xs)"

lemma to_create_sql_text:
  assumes "td_columns td \<noteq> []"
  shows "to_create_sql td fail = Inr (create_keyword (td_persistence td) fail @ qualified_name td @ '' ('' @
    join '', '' (map column_clause (td_columns td) @ map TableConstraint_to_sql (td_constraints td)) @ '')'')"
  using assms
  by (simp add: to_create_sql_def Let_def column_loop_join foldl_append_text join_append o_def)

text \<open>C33. The text of a table definition has the structure that was asked for. With at least one column,
  \<open>to_create_sql\<close> succeeds with the keyword, the qualified name, which scans back into exactly the
  given parts, and a parenthesised list; splitting that list at its commas, by quotes and nesting
  alone, gives one entry per column and one per constraint, in order and nothing after them, and each
  column entry starts with a quoted name that reads back as the column's name, whatever characters
  the names and collations contain. Only the raw SQL a caller supplies (a type given by name, a
  default expression) has to be closed text. Without columns it is an error.\<close>

theorem create_sql_structure:
  assumes "list_all column_text_closed (td_columns td)"
  shows "if td_columns td = [] then to_create_sql td fail = Inl (InvalidTableDefinition ''Table must have at least one column'')
    else \<exists>body. to_create_sql td fail = Inr (create_keyword (td_persistence td) fail @ qualified_name td @ '' ('' @ body) \<and>
      scan_items (0, None) [] body =
        Some (list_entries (map column_clause (td_columns td) @ map TableConstraint_to_sql (td_constraints td)), []) \<and>
      scan_name 3 (qualified_name td) = Some ((case td_database td of Some d \<Rightarrow> [d] | None \<Rightarrow> []) @
        (case td_schema td of Some s \<Rightarrow> [s] | None \<Rightarrow> []) @ [td_name td]) \<and>
      (\<forall>c. \<exists>r. scan_quoted (CHR 0x22) (column_clause c) = Some (col_name c, r))"
proof (cases "td_columns td = []")
  case False
  then obtain c cs where cols: "td_columns td = c # cs"
    by (cases "td_columns td") auto
  let ?items = "map column_clause (td_columns td) @ map TableConstraint_to_sql (td_constraints td)"
  have "list_all closed_text ?items"
    using assms by (auto simp: list_all_iff intro: closed_column_clause closed_constraint)
  then have "scan_items (0, None) [] (join '', '' ?items @ '')'') = Some (list_entries ?items, [])"
    using scan_items_join [of "column_clause c" "map column_clause cs @ map TableConstraint_to_sql (td_constraints td)" "[]" "[]"]
    by (simp add: cols list_entries_def)
  moreover have "scan_name 3 (qualified_name td) = Some ((case td_database td of Some d \<Rightarrow> [d] | None \<Rightarrow> []) @
      (case td_schema td of Some s \<Rightarrow> [s] | None \<Rightarrow> []) @ [td_name td])"
    by (cases "td_database td"; cases "td_schema td")
      (simp_all add: qualified_name_def eval_nat_numeral scan_name_last scan_name_dot del: scan_name.simps)
  moreover have "\<exists>r. scan_quoted (CHR 0x22) (column_clause c) = Some (col_name c, r)" for c
    unfolding column_clause_def by (intro exI, rule ident.scan_render) simp
  ultimately show ?thesis
    using to_create_sql_text [OF False, of fail] False by auto
qed (simp add: to_create_sql_def)

theorem create_sql_structure_witness:
  "\<exists>body. to_create_sql (add_required_column [CHR ''a'', CHR 0x22, CHR '','', CHR '')''] (SqlNumeric 10 2)
      (add_nullable_column ''id'' SqlInt (TableDefinition_new ''t''))) True
      = Inr (''CREATE TABLE '' @ SqlIdentifier_fmt ''t'' @ '' ('' @ body) \<and>
    (\<exists>e f. scan_items (0, None) [] body = Some ([e, f], []))"
proof -
  let ?td = "add_required_column [CHR ''a'', CHR 0x22, CHR '','', CHR '')''] (SqlNumeric 10 2)
      (add_nullable_column ''id'' SqlInt (TableDefinition_new ''t''))"
  have "list_all column_text_closed (td_columns ?td)"
    by (simp add: add_required_column_def add_nullable_column_def TableDefinition_new_def
        with_sql_type_def column_text_closed_def)
  from create_sql_structure [OF this, of True] show ?thesis
    by (auto simp: add_required_column_def add_nullable_column_def TableDefinition_new_def
        create_keyword_def qualified_name_def list_entries_def)
qed

text \<open>A definition made from a table name gives that name back.\<close>

theorem from_table_name_roundtrip:
  assumes "table_name_wf tn"
  shows "\<exists>td. from_table_name (Inr tn) = Inr td \<and> to_table_name td = Inr tn"
proof -
  obtain d s t where "tn = \<lparr>tn_database = d, tn_schema = s, tn_table = t\<rparr>"
    by (cases tn) auto
  then show ?thesis
    using assms
    by (cases d; cases s)
      (simp_all add: from_table_name_def to_table_name_def table_name_wf_def TableName_try_new_def
        TableName_with_schema_def TableName_with_database_def DatabaseName_try_new_def)
qed

lemma position_Some_iff:
  "position p xs = Some i \<longleftrightarrow> i < length xs \<and> p (xs ! i) \<and> (\<forall>j < i. \<not> p (xs ! j))"
proof (induction xs arbitrary: i)
  case (Cons x xs)
  show ?case
    using Cons.IH [of "i - 1"] by (cases i) (auto simp: less_Suc_eq_0_disj)
qed simp

lemma column_lookup_agree:
  "column_position_by_name td name = Some i \<Longrightarrow> column_by_name td name = column_at td i"
  unfolding column_position_by_name_def column_by_name_def column_at_def position_Some_iff
  by (auto simp: find_Some_iff)

end
