(* ===== verification/Copy_Format.thy ===== *)
theory Copy_Format
  imports Rust_Prelude
begin

text \<open>
  The HyperBinary COPY format, \<open>hyperdb-api-core/src/protocol/copy.rs\<close>: the header, the
  writers for nullable and not-null columns, the readers, and \<open>CopyDataBuilder\<close>, which puts
  the header in front of the first value.

  A writer appends to its buffer. \<open>copy_len\<close> panics above \<open>u32::MAX\<close>: the variable-length
  writers are \<open>None\<close> there. \<open>read_i8\<close> indexes without a check, so it is \<open>None\<close> (a panic) on an
  empty slice; the other readers return \<open>CopyReadError\<close>.

  The specification is the layout itself: a table cell is a value or NULL in a nullable or
  not-null column, and \<open>read_cells\<close> decodes a payload by the source's own readers.
\<close>

section \<open>The code\<close>

datatype CopyReadError =
    BufferTooShort string nat nat \<comment> \<open>\<open>type_name\<close>, \<open>expected\<close>, \<open>actual\<close>\<close>
  | LengthExceedsBuffer nat nat \<comment> \<open>\<open>declared\<close>, \<open>available\<close>\<close>

definition copy_len :: "nat \<Rightarrow> u32 option" where
  "copy_len n = (if n < 2 ^ 32 then Some (word_of_nat n) else None)"

definition HYPER_BINARY_SIGNATURE :: bytes where
  "HYPER_BINARY_SIGNATURE = as_bytes ''HPRCPY''"

definition HYPER_BINARY_HEADER :: bytes where
  "HYPER_BINARY_HEADER = as_bytes ''HPRCPY'' @ [0, 0, 0, 0, 0, 0, 0, 0, 0, 0, 0, 0, 0]"

definition HYPER_BINARY_HEADER_SIZE :: nat where
  "HYPER_BINARY_HEADER_SIZE = 19"

definition write_header :: "bytes \<Rightarrow> bytes" where
  "write_header buf = buf @ HYPER_BINARY_HEADER"

definition write_tuple_start :: "bytes \<Rightarrow> i16 \<Rightarrow> bytes" where
  "write_tuple_start buf field_count = buf"

definition write_trailer :: "bytes \<Rightarrow> bytes" where
  "write_trailer buf = buf"

definition write_null :: "bytes \<Rightarrow> bytes" where
  "write_null buf = buf @ [1]"

definition write_i8 :: "bytes \<Rightarrow> i8 \<Rightarrow> bytes" where
  "write_i8 buf value = buf @ [0] @ [value]"

definition write_i8_not_null :: "bytes \<Rightarrow> i8 \<Rightarrow> bytes" where
  "write_i8_not_null buf value = buf @ [value]"

definition write_i16 :: "bytes \<Rightarrow> i16 \<Rightarrow> bytes" where
  "write_i16 buf value = buf @ [0] @ to_le_bytes value"

definition write_i16_not_null :: "bytes \<Rightarrow> i16 \<Rightarrow> bytes" where
  "write_i16_not_null buf value = buf @ to_le_bytes value"

definition write_i32 :: "bytes \<Rightarrow> i32 \<Rightarrow> bytes" where
  "write_i32 buf value = buf @ [0] @ to_le_bytes value"

definition write_i32_not_null :: "bytes \<Rightarrow> i32 \<Rightarrow> bytes" where
  "write_i32_not_null buf value = buf @ to_le_bytes value"

definition write_i64 :: "bytes \<Rightarrow> i64 \<Rightarrow> bytes" where
  "write_i64 buf value = buf @ [0] @ to_le_bytes value"

definition write_i64_not_null :: "bytes \<Rightarrow> i64 \<Rightarrow> bytes" where
  "write_i64_not_null buf value = buf @ to_le_bytes value"

definition write_data128 :: "bytes \<Rightarrow> bytes \<Rightarrow> bytes" where
  "write_data128 buf value = buf @ [0] @ value"

definition write_data128_not_null :: "bytes \<Rightarrow> bytes \<Rightarrow> bytes" where
  "write_data128_not_null buf value = buf @ value"

definition write_varbinary :: "bytes \<Rightarrow> bytes \<Rightarrow> bytes option" where
  "write_varbinary buf data =
     map_option (\<lambda>len. buf @ [0] @ to_le_bytes len @ data) (copy_len (length data))"

definition write_varbinary_not_null :: "bytes \<Rightarrow> bytes \<Rightarrow> bytes option" where
  "write_varbinary_not_null buf data =
     map_option (\<lambda>len. buf @ to_le_bytes len @ data) (copy_len (length data))"

definition write_f32 :: "bytes \<Rightarrow> f32 \<Rightarrow> bytes" where
  "write_f32 buf value = buf @ [0] @ to_le_bytes value"

definition write_f32_not_null :: "bytes \<Rightarrow> f32 \<Rightarrow> bytes" where
  "write_f32_not_null buf value = buf @ to_le_bytes value"

definition write_f64 :: "bytes \<Rightarrow> f64 \<Rightarrow> bytes" where
  "write_f64 buf value = buf @ [0] @ to_le_bytes value"

definition write_f64_not_null :: "bytes \<Rightarrow> f64 \<Rightarrow> bytes" where
  "write_f64_not_null buf value = buf @ to_le_bytes value"

definition read_i8 :: "bytes \<Rightarrow> i8 option" where
  "read_i8 buf = (case buf of [] \<Rightarrow> None | b # _ \<Rightarrow> Some b)"

definition read_i16 :: "bytes \<Rightarrow> CopyReadError + i16" where
  "read_i16 buf =
     (if length buf < 2 then Inl (BufferTooShort ''i16'' 2 (length buf))
      else Inr (from_le_bytes (take 2 buf)))"

definition read_i32 :: "bytes \<Rightarrow> CopyReadError + i32" where
  "read_i32 buf =
     (if length buf < 4 then Inl (BufferTooShort ''i32'' 4 (length buf))
      else Inr (from_le_bytes (take 4 buf)))"

definition read_i64 :: "bytes \<Rightarrow> CopyReadError + i64" where
  "read_i64 buf =
     (if length buf < 8 then Inl (BufferTooShort ''i64'' 8 (length buf))
      else Inr (from_le_bytes (take 8 buf)))"

definition read_data128 :: "bytes \<Rightarrow> CopyReadError + bytes" where
  "read_data128 buf =
     (if length buf < 16 then Inl (BufferTooShort ''data128'' 16 (length buf))
      else Inr (take 16 buf))"

text \<open>The branches for a 32-bit \<open>usize\<close> (\<open>usize::try_from\<close>, \<open>checked_add\<close>) never fire here.\<close>

definition read_varbinary :: "bytes \<Rightarrow> CopyReadError + bytes" where
  "read_varbinary buf =
     (if length buf < 4 then Inl (BufferTooShort ''varbinary length field'' 4 (length buf))
      else
        let len = unat (from_le_bytes (take 4 buf) :: u32); available = length buf - 4
        in if available < len then Inl (LengthExceedsBuffer len available)
           else Inr (take len (drop 4 buf)))"

subsection \<open>\<open>CopyDataBuilder\<close>\<close>

record CopyDataBuilder =
  buffer :: bytes
  header_written :: bool

text \<open>The capacity only sizes the allocation.\<close>

definition builder_new :: "nat \<Rightarrow> CopyDataBuilder" where
  "builder_new capacity = \<lparr>buffer = [], header_written = False\<rparr>"

definition with_default_capacity :: CopyDataBuilder where
  "with_default_capacity = builder_new (1024 * 1024)"

definition ensure_header :: "CopyDataBuilder \<Rightarrow> CopyDataBuilder" where
  "ensure_header b =
     (if \<not> header_written b then b\<lparr>buffer := write_header (buffer b), header_written := True\<rparr>
      else b)"

definition builder_write_null :: "CopyDataBuilder \<Rightarrow> CopyDataBuilder" where
  "builder_write_null b0 = (let b = ensure_header b0 in b\<lparr>buffer := write_null (buffer b)\<rparr>)"

definition builder_write_bool :: "CopyDataBuilder \<Rightarrow> bool \<Rightarrow> bool \<Rightarrow> CopyDataBuilder" where
  "builder_write_bool b0 value nullable =
     (let b = ensure_header b0; int_value = (if value then 1 else 0)
      in if nullable then b\<lparr>buffer := write_i8 (buffer b) int_value\<rparr>
         else b\<lparr>buffer := write_i8_not_null (buffer b) int_value\<rparr>)"

definition builder_write_i16 :: "CopyDataBuilder \<Rightarrow> i16 \<Rightarrow> bool \<Rightarrow> CopyDataBuilder" where
  "builder_write_i16 b0 value nullable =
     (let b = ensure_header b0
      in if nullable then b\<lparr>buffer := write_i16 (buffer b) value\<rparr>
         else b\<lparr>buffer := write_i16_not_null (buffer b) value\<rparr>)"

definition builder_write_i32 :: "CopyDataBuilder \<Rightarrow> i32 \<Rightarrow> bool \<Rightarrow> CopyDataBuilder" where
  "builder_write_i32 b0 value nullable =
     (let b = ensure_header b0
      in if nullable then b\<lparr>buffer := write_i32 (buffer b) value\<rparr>
         else b\<lparr>buffer := write_i32_not_null (buffer b) value\<rparr>)"

definition builder_write_i64 :: "CopyDataBuilder \<Rightarrow> i64 \<Rightarrow> bool \<Rightarrow> CopyDataBuilder" where
  "builder_write_i64 b0 value nullable =
     (let b = ensure_header b0
      in if nullable then b\<lparr>buffer := write_i64 (buffer b) value\<rparr>
         else b\<lparr>buffer := write_i64_not_null (buffer b) value\<rparr>)"

definition builder_write_data128 :: "CopyDataBuilder \<Rightarrow> bytes \<Rightarrow> bool \<Rightarrow> CopyDataBuilder" where
  "builder_write_data128 b0 value nullable =
     (let b = ensure_header b0
      in if nullable then b\<lparr>buffer := write_data128 (buffer b) value\<rparr>
         else b\<lparr>buffer := write_data128_not_null (buffer b) value\<rparr>)"

definition builder_write_varbinary ::
  "CopyDataBuilder \<Rightarrow> bytes \<Rightarrow> bool \<Rightarrow> CopyDataBuilder option" where
  "builder_write_varbinary b0 value nullable =
     (let b = ensure_header b0
      in map_option (\<lambda>buf. b\<lparr>buffer := buf\<rparr>)
           (if nullable then write_varbinary (buffer b) value
            else write_varbinary_not_null (buffer b) value))"

definition builder_write_str ::
  "CopyDataBuilder \<Rightarrow> string \<Rightarrow> bool \<Rightarrow> CopyDataBuilder option" where
  "builder_write_str b value nullable = builder_write_varbinary b (as_bytes value) nullable"

definition builder_len :: "CopyDataBuilder \<Rightarrow> nat" where
  "builder_len b = length (buffer b)"

definition builder_is_empty :: "CopyDataBuilder \<Rightarrow> bool" where
  "builder_is_empty b \<longleftrightarrow> buffer b = []"

definition builder_take :: "CopyDataBuilder \<Rightarrow> bytes \<times> CopyDataBuilder" where
  "builder_take b = (buffer b, b\<lparr>buffer := [], header_written := False\<rparr>)"

definition builder_as_bytes :: "CopyDataBuilder \<Rightarrow> bytes" where
  "builder_as_bytes b = buffer b"

definition builder_clear :: "CopyDataBuilder \<Rightarrow> CopyDataBuilder" where
  "builder_clear b = b\<lparr>buffer := [], header_written := False\<rparr>"

section \<open>The layout as a specification\<close>

datatype copy_value =
    CBool bool | CI16 i16 | CI32 i32 | CI64 i64 | CData128 bytes | CVar bytes

datatype copy_type = TBool | TI16 | TI32 | TI64 | TData128 | TVar

fun type_of_value :: "copy_value \<Rightarrow> copy_type" where
  "type_of_value (CBool _) = TBool"
| "type_of_value (CI16 _) = TI16"
| "type_of_value (CI32 _) = TI32"
| "type_of_value (CI64 _) = TI64"
| "type_of_value (CData128 _) = TData128"
| "type_of_value (CVar _) = TVar"

text \<open>A column is its type and whether it is nullable; a cell is a value or NULL.\<close>

type_synonym copy_column = "copy_type \<times> bool"
type_synonym copy_cell = "copy_value option"

fun cell_ok :: "copy_column \<Rightarrow> copy_cell \<Rightarrow> bool" where
  "cell_ok (ty, nullable) None \<longleftrightarrow> nullable"
| "cell_ok (ty, nullable) (Some v) \<longleftrightarrow> type_of_value v = ty \<and>
     (case v of CData128 d \<Rightarrow> length d = 16 | CVar d \<Rightarrow> length d < 2 ^ 32 | _ \<Rightarrow> True)"

text \<open>One cell, written by the builder's method for its type.\<close>

fun put_cell :: "CopyDataBuilder \<Rightarrow> copy_column \<Rightarrow> copy_cell \<Rightarrow> CopyDataBuilder option" where
  "put_cell b (ty, nullable) None = Some (builder_write_null b)"
| "put_cell b (ty, nullable) (Some (CBool v)) = Some (builder_write_bool b v nullable)"
| "put_cell b (ty, nullable) (Some (CI16 v)) = Some (builder_write_i16 b v nullable)"
| "put_cell b (ty, nullable) (Some (CI32 v)) = Some (builder_write_i32 b v nullable)"
| "put_cell b (ty, nullable) (Some (CI64 v)) = Some (builder_write_i64 b v nullable)"
| "put_cell b (ty, nullable) (Some (CData128 v)) = Some (builder_write_data128 b v nullable)"
| "put_cell b (ty, nullable) (Some (CVar v)) = builder_write_varbinary b v nullable"

fun put_cells :: "CopyDataBuilder \<Rightarrow> (copy_column \<times> copy_cell) list \<Rightarrow> CopyDataBuilder option" where
  "put_cells b [] = Some b"
| "put_cells b ((col, c) # cs) = do { b' \<leftarrow> put_cell b col c; put_cells b' cs }"

text \<open>Reading by the readers of the source.\<close>

fun ok :: "'e + 'a \<Rightarrow> 'a option" where
  "ok (Inl e) = None"
| "ok (Inr a) = Some a"

fun read_value :: "copy_type \<Rightarrow> bytes \<Rightarrow> (copy_value \<times> bytes) option" where
  "read_value TBool buf = do { b \<leftarrow> read_i8 buf; Some (CBool (b \<noteq> 0), drop 1 buf) }"
| "read_value TI16 buf = do { v \<leftarrow> ok (read_i16 buf); Some (CI16 v, drop 2 buf) }"
| "read_value TI32 buf = do { v \<leftarrow> ok (read_i32 buf); Some (CI32 v, drop 4 buf) }"
| "read_value TI64 buf = do { v \<leftarrow> ok (read_i64 buf); Some (CI64 v, drop 8 buf) }"
| "read_value TData128 buf = do { v \<leftarrow> ok (read_data128 buf); Some (CData128 v, drop 16 buf) }"
| "read_value TVar buf = do { v \<leftarrow> ok (read_varbinary buf); Some (CVar v, drop (4 + length v) buf) }"

fun read_cell :: "copy_column \<Rightarrow> bytes \<Rightarrow> (copy_cell \<times> bytes) option" where
  "read_cell (ty, nullable) buf =
     (if nullable then
        do { ind \<leftarrow> read_i8 buf;
             if ind = 1 then Some (None, drop 1 buf)
             else map_option (\<lambda>(v, r). (Some v, r)) (read_value ty (drop 1 buf)) }
      else map_option (\<lambda>(v, r). (Some v, r)) (read_value ty buf))"

fun read_cells :: "copy_column list \<Rightarrow> bytes \<Rightarrow> (copy_cell list \<times> bytes) option" where
  "read_cells [] buf = Some ([], buf)"
| "read_cells (c # cs) buf =
     do { (v, r) \<leftarrow> read_cell c buf; (vs, r') \<leftarrow> read_cells cs r; Some (v # vs, r') }"

text \<open>The bytes of one value and of one cell.\<close>

fun value_bytes :: "copy_value \<Rightarrow> bytes" where
  "value_bytes (CBool v) = [if v then 1 else 0]"
| "value_bytes (CI16 v) = to_le_bytes v"
| "value_bytes (CI32 v) = to_le_bytes v"
| "value_bytes (CI64 v) = to_le_bytes v"
| "value_bytes (CData128 v) = v"
| "value_bytes (CVar v) = to_le_bytes (word_of_nat (length v) :: u32) @ v"

fun cell_bytes :: "copy_column \<Rightarrow> copy_cell \<Rightarrow> bytes" where
  "cell_bytes (ty, nullable) None = [1]"
| "cell_bytes (ty, nullable) (Some v) = (if nullable then [0] else []) @ value_bytes v"

section \<open>Lemmas\<close>

lemmas copy_write_defs =
  write_header_def write_null_def write_i8_def write_i8_not_null_def write_i16_def
  write_i16_not_null_def write_i32_def write_i32_not_null_def write_i64_def write_i64_not_null_def
  write_data128_def write_data128_not_null_def write_varbinary_def write_varbinary_not_null_def
  copy_len_def

lemmas builder_defs =
  builder_write_null_def builder_write_bool_def builder_write_i16_def builder_write_i32_def
  builder_write_i64_def builder_write_data128_def builder_write_varbinary_def

definition builder_payload :: "CopyDataBuilder \<Rightarrow> bytes" where
  "builder_payload b = (if header_written b then drop 19 (buffer b) else [])"

text \<open>The invariant of the builder: either nothing was written, or the buffer starts with
  the header.\<close>

definition builder_inv :: "CopyDataBuilder \<Rightarrow> bool" where
  "builder_inv b \<longleftrightarrow>
     buffer b = (if header_written b then HYPER_BINARY_HEADER @ builder_payload b else [])"

lemma length_header [simp]: "length HYPER_BINARY_HEADER = 19"
  by (simp add: HYPER_BINARY_HEADER_def)

lemma builder_inv_iff:
  "builder_inv b \<longleftrightarrow>
     (if header_written b then \<exists>p. buffer b = HYPER_BINARY_HEADER @ p else buffer b = [])"
  by (auto simp: builder_inv_def builder_payload_def)

lemma ensure_header_inv:
  assumes "builder_inv b"
  shows "buffer (ensure_header b) = HYPER_BINARY_HEADER @ builder_payload b"
    and "header_written (ensure_header b)"
  using assms
  by (auto simp: builder_inv_iff ensure_header_def write_header_def builder_payload_def
      split: if_splits)

lemma put_cell_buffer:
  assumes "builder_inv b" "cell_ok col c"
  shows "\<exists>b'. put_cell b col c = Some b' \<and> header_written b' \<and>
     buffer b' = HYPER_BINARY_HEADER @ builder_payload b @ cell_bytes col c"
  using assms(2) ensure_header_inv [OF assms(1)]
  by (cases "(b, col, c)" rule: put_cell.cases)
     (auto simp: builder_defs copy_write_defs Let_def)

lemma put_cells_buffer:
  assumes "builder_inv b" "list_all (\<lambda>(col, c). cell_ok col c) cs"
  shows "\<exists>b'. put_cells b cs = Some b' \<and> builder_inv b' \<and>
     header_written b' = (header_written b \<or> cs \<noteq> []) \<and>
     builder_payload b' = builder_payload b @ concat (map (\<lambda>(col, c). cell_bytes col c) cs)"
  using assms
proof (induction cs arbitrary: b)
  case (Cons x cs)
  obtain col c where x: "x = (col, c)" by fastforce
  from Cons.prems x obtain b1 where b1: "put_cell b col c = Some b1" "header_written b1"
      "buffer b1 = HYPER_BINARY_HEADER @ builder_payload b @ cell_bytes col c"
    using put_cell_buffer by fastforce
  then have "builder_inv b1" and p: "builder_payload b1 = builder_payload b @ cell_bytes col c"
    by (auto simp: builder_inv_iff builder_payload_def)
  then obtain b2 where "put_cells b1 cs = Some b2" "builder_inv b2" "header_written b2"
      "builder_payload b2 = builder_payload b1 @ concat (map (\<lambda>(col, c). cell_bytes col c) cs)"
    using Cons.IH [of b1] Cons.prems b1 by auto
  with b1 x p show ?case by simp
qed (simp add: builder_inv_def)

lemma read_value_bytes:
  assumes "cell_ok (ty, nullable) (Some v)"
  shows "read_value ty (value_bytes v @ rest) = Some (v, rest)"
  using assms
  by (cases v)
     (auto simp: read_i8_def read_i16_def read_i32_def read_i64_def read_data128_def
        read_varbinary_def Let_def unat_of_nat)

lemma read_cell_bytes:
  assumes "cell_ok col c"
  shows "read_cell col (cell_bytes col c @ rest) = Some (c, rest)"
proof (cases "(col, c)" rule: cell_bytes.cases)
  case (1 ty nullable)
  with assms show ?thesis by (simp add: read_i8_def)
next
  case (2 ty nullable v)
  with assms show ?thesis
    using read_value_bytes [of ty nullable v rest] by (auto simp: read_i8_def)
qed

lemma read_cells_bytes:
  "list_all (\<lambda>(col, c). cell_ok col c) cs \<Longrightarrow>
   read_cells (map fst cs) (concat (map (\<lambda>(col, c). cell_bytes col c) cs) @ rest) =
     Some (map snd cs, rest)"
proof (induction cs)
  case (Cons x cs)
  then show ?case
    by (cases x) (simp add: read_cell_bytes del: read_cell.simps)
qed simp

section \<open>Properties\<close>

text \<open>C31. COPY data survives the wire: any non-empty list of cells (nullable or not, of every type
  the builder writes, NULL only in nullable columns) is accepted by the builder; the bytes
  it hands over start with the HyperBinary header, and the readers of the format return from
  what follows exactly the cells that were written, consuming everything. Taking the
  bytes leaves the builder as new.\<close>

theorem copy_stream_roundtrip:
  assumes "list_all (\<lambda>(col, c). cell_ok col c) cells" "cells \<noteq> []"
  shows "\<exists>b. put_cells (builder_new capacity) cells = Some b \<and>
    take HYPER_BINARY_HEADER_SIZE (fst (builder_take b)) = HYPER_BINARY_HEADER \<and>
    read_cells (map fst cells) (drop HYPER_BINARY_HEADER_SIZE (fst (builder_take b)))
      = Some (map snd cells, []) \<and>
    snd (builder_take b) = builder_new capacity"
proof -
  have new: "builder_inv (builder_new capacity)" "builder_payload (builder_new capacity) = []"
    by (simp_all add: builder_new_def builder_inv_def builder_payload_def)
  obtain b where b: "put_cells (builder_new capacity) cells = Some b" "builder_inv b" "header_written b"
      "builder_payload b = concat (map (\<lambda>(col, c). cell_bytes col c) cells)"
    using put_cells_buffer [OF new(1) assms(1)] assms(2) new(2) by auto
  then have "buffer b = HYPER_BINARY_HEADER @ concat (map (\<lambda>(col, c). cell_bytes col c) cells)"
    by (simp add: builder_inv_def)
  moreover have "read_cells (map fst cells) (concat (map (\<lambda>(col, c). cell_bytes col c) cells))
      = Some (map snd cells, [])"
    using read_cells_bytes [OF assms(1), of "[]"] by simp
  ultimately show ?thesis
    using b(1) by (simp add: builder_take_def HYPER_BINARY_HEADER_SIZE_def builder_new_def)
qed

theorem copy_stream_roundtrip_witness:
  "\<exists>b. put_cells (builder_new 0) [((TI32, True), None), ((TVar, False), Some (CVar [1, 2]))] = Some b \<and>
    read_cells [(TI32, True), (TVar, False)] (drop HYPER_BINARY_HEADER_SIZE (fst (builder_take b)))
      = Some ([None, Some (CVar [1, 2])], [])"
proof -
  have "list_all (\<lambda>(col, c). cell_ok col c) [((TI32, True), None), ((TVar, False), Some (CVar [1, 2]))]"
    by simp
  from copy_stream_roundtrip [OF this, of 0] show ?thesis
    by auto
qed

end
