(* ===== verification/Insert_Chunk.thy ===== *)
theory Insert_Chunk
  imports Table_Definition Copy_Format Datetime Numeric_Decimal
begin

text \<open>
  The row encoder of \<open>hyperdb-api/src/inserter.rs\<close>: \<open>InsertChunk\<close>, which appends the cells of rows to a
  COPY buffer, and the conversion of numeric values to their column's scale.

  A method returns its result and the chunk; \<open>None\<close> is a panic (the overflow checks of the
  timestamp conversions). The abstraction of a chunk is the list of cells of its rows
  (\<open>Copy_Format\<close>); floats are cells of their bits.
\<close>

section \<open>Numeric columns\<close>

text \<open>\<open>10_i128.checked_pow(k)\<close> and \<open>checked_mul\<close>.\<close>

definition in_i128 :: "int \<Rightarrow> bool" where
  "in_i128 x \<longleftrightarrow> - (2 ^ 127) \<le> x \<and> x < 2 ^ 127"

definition checked_pow10 :: "nat \<Rightarrow> int option" where
  "checked_pow10 k = (if in_i128 (10 ^ k) then Some (10 ^ k) else None)"

definition rescale_numeric :: "Numeric \<Rightarrow> u32 \<Rightarrow> string + i128" where
  "rescale_numeric value target_scale =
     (let value_scale = unat (num_scale value);
          unscaled = sint (num_value value);
          target = unat target_scale
      in if value_scale = target then Inr (num_value value)
         else if value_scale < target then
           (case checked_pow10 (target - value_scale) of
              None \<Rightarrow> Inl ''the scale difference overflows 128-bit storage''
            | Some factor \<Rightarrow>
                if in_i128 (unscaled * factor) then Inr (word_of_int (unscaled * factor))
                else Inl ''the value overflows 128-bit storage at the column's scale'')
         else
           (case checked_pow10 (value_scale - target) of
              None \<Rightarrow> Inl ''the value has more decimal digits than the column keeps''
            | Some factor \<Rightarrow>
                if unscaled smod factor = 0 then Inr (word_of_int (unscaled sdiv factor))
                else Inl ''the value has more decimal digits than the column keeps''))"

text \<open>\<open>Display\<close> of the value never panics (\<open>Numeric_display_exact\<close>).\<close>

definition numeric_for_column :: "TableDefinition \<Rightarrow> nat \<Rightarrow> Numeric \<Rightarrow> ApiError + (u32 \<times> i128)" where
  "numeric_for_column table_def column_index value =
     (let column = column_at table_def column_index;
          name = (case column of None \<Rightarrow> ''<unknown>'' | Some c \<Rightarrow> col_name c);
          ps = do { c \<leftarrow> column; t \<leftarrow> column_sql_type c; p \<leftarrow> precision t; s \<leftarrow> scale t; Some (p, s) }
      in case ps of
           None \<Rightarrow> Inl (Api_Conversion
             (''Cannot determine numeric precision for column '' @ [CHR 0x27] @ name @ [CHR 0x27] @
              '' at index '' @ show_nat column_index @ ''. '' @
              ''Ensure the column is defined with explicit SqlType including precision.'' @ [CHR 10, CHR 10] @
              ''Example fix:'' @ [CHR 10] @ ''  table_def.add_column_with_type('' @ [CHR 0x22] @ name @ [CHR 0x22] @
              '', SqlType::Numeric { precision: 10, scale: 2 }, true);''))
         | Some (p, col_scale) \<Rightarrow>
             (case rescale_numeric value col_scale of
                Inl reason \<Rightarrow> Inl (Api_Conversion
                  (''Numeric value '' @ the (Numeric_fmt value) @ '' cannot be stored in column '' @ [CHR 0x27] @
                   name @ [CHR 0x27] @ '' with scale '' @ show_nat (unat col_scale) @ '': '' @ reason))
              | Inr unscaled \<Rightarrow> Inr (p, unscaled)))"

section \<open>\<open>InsertChunk\<close>\<close>

definition CHUNK_SIZE_LIMIT :: nat where "CHUNK_SIZE_LIMIT = 16 * 1024 * 1024"
definition CHUNK_ROW_LIMIT :: nat where "CHUNK_ROW_LIMIT = 64000"

record InsertChunk =
  ic_buffer :: bytes
  ic_header_written :: bool
  ic_column_index :: nat
  ic_column_count :: nat
  ic_row_count :: nat
  ic_column_nullable :: "bool list"

definition InsertChunk_new :: "nat \<Rightarrow> bool list \<Rightarrow> InsertChunk" where
  "InsertChunk_new n nullables =
     \<lparr>ic_buffer = [], ic_header_written = False, ic_column_index = 0, ic_column_count = n,
      ic_row_count = 0, ic_column_nullable = nullables\<rparr>"

definition from_table_definition :: "TableDefinition \<Rightarrow> InsertChunk" where
  "from_table_definition td = InsertChunk_new (column_count td) (map col_nullable (td_columns td))"

definition buffer_size :: "InsertChunk \<Rightarrow> nat" where
  "buffer_size k = length (ic_buffer k)"

definition should_flush :: "InsertChunk \<Rightarrow> bool" where
  "should_flush k \<longleftrightarrow> ic_row_count k \<ge> CHUNK_ROW_LIMIT \<or> length (ic_buffer k) \<ge> CHUNK_SIZE_LIMIT"

definition chunk_is_empty :: "InsertChunk \<Rightarrow> bool" where
  "chunk_is_empty k \<longleftrightarrow> ic_row_count k = 0"

definition chunk_take :: "InsertChunk \<Rightarrow> bytes option \<times> InsertChunk" where
  "chunk_take k =
     (if ic_row_count k = 0 then (None, k)
      else (Some (ic_buffer k), k\<lparr>ic_row_count := 0, ic_buffer := []\<rparr>))"

definition chunk_clear :: "InsertChunk \<Rightarrow> InsertChunk" where
  "chunk_clear k = k\<lparr>ic_buffer := [], ic_header_written := False, ic_column_index := 0, ic_row_count := 0\<rparr>"

definition chunk_ensure_header :: "InsertChunk \<Rightarrow> InsertChunk" where
  "chunk_ensure_header k =
     (if \<not> ic_header_written k then k\<lparr>ic_buffer := write_header (ic_buffer k), ic_header_written := True\<rparr> else k)"

definition current_column_nullable :: "InsertChunk \<Rightarrow> bool" where
  "current_column_nullable k =
     (if ic_column_index k < length (ic_column_nullable k) then ic_column_nullable k ! ic_column_index k else True)"

type_synonym chunk_result = "((ApiError + unit) \<times> InsertChunk) option"

definition too_many :: ApiError where
  "too_many = InvalidTableDefinition ''Too many columns in row''"

text \<open>The shape of every \<open>add_*\<close>: the bounds check, the header, the writer for a nullable or for
  a not-null column, the next column. A writer is \<open>None\<close> where it panics.\<close>

definition add_with ::
  "(bytes \<Rightarrow> bytes option) \<Rightarrow> (bytes \<Rightarrow> bytes option) \<Rightarrow> InsertChunk \<Rightarrow> chunk_result" where
  "add_with write write_not_null k =
     (if ic_column_index k \<ge> ic_column_count k then Some (Inl too_many, k)
      else
        let k = chunk_ensure_header k
        in do { buf \<leftarrow> (if current_column_nullable k then write (ic_buffer k) else write_not_null (ic_buffer k));
                Some (Inr (), k\<lparr>ic_buffer := buf, ic_column_index := ic_column_index k + 1\<rparr>) })"

definition chunk_add_null :: "InsertChunk \<Rightarrow> chunk_result" where
  "chunk_add_null k =
     (if ic_column_index k \<ge> ic_column_count k then Some (Inl too_many, k)
      else if \<not> current_column_nullable k then
        Some (Inl (InvalidTableDefinition ''Cannot add NULL to non-nullable column''), k)
      else
        let k = chunk_ensure_header k
        in Some (Inr (), k\<lparr>ic_buffer := write_null (ic_buffer k), ic_column_index := ic_column_index k + 1\<rparr>))"

definition chunk_add_bool :: "bool \<Rightarrow> InsertChunk \<Rightarrow> chunk_result" where
  "chunk_add_bool v k =
     (let int_value = (if v then 1 else 0)
      in add_with (\<lambda>b. Some (write_i8 b int_value)) (\<lambda>b. Some (write_i8_not_null b int_value)) k)"

definition chunk_add_i16 :: "i16 \<Rightarrow> InsertChunk \<Rightarrow> chunk_result" where
  "chunk_add_i16 v k = add_with (\<lambda>b. Some (write_i16 b v)) (\<lambda>b. Some (write_i16_not_null b v)) k"

definition chunk_add_i32 :: "i32 \<Rightarrow> InsertChunk \<Rightarrow> chunk_result" where
  "chunk_add_i32 v k = add_with (\<lambda>b. Some (write_i32 b v)) (\<lambda>b. Some (write_i32_not_null b v)) k"

definition chunk_add_i64 :: "i64 \<Rightarrow> InsertChunk \<Rightarrow> chunk_result" where
  "chunk_add_i64 v k = add_with (\<lambda>b. Some (write_i64 b v)) (\<lambda>b. Some (write_i64_not_null b v)) k"

definition chunk_add_f32 :: "f32 \<Rightarrow> InsertChunk \<Rightarrow> chunk_result" where
  "chunk_add_f32 v k = add_with (\<lambda>b. Some (write_f32 b v)) (\<lambda>b. Some (write_f32_not_null b v)) k"

definition chunk_add_f64 :: "f64 \<Rightarrow> InsertChunk \<Rightarrow> chunk_result" where
  "chunk_add_f64 v k = add_with (\<lambda>b. Some (write_f64 b v)) (\<lambda>b. Some (write_f64_not_null b v)) k"

definition chunk_add_bytes :: "bytes \<Rightarrow> InsertChunk \<Rightarrow> chunk_result" where
  "chunk_add_bytes v k =
     (if ic_column_index k \<ge> ic_column_count k then Some (Inl too_many, k)
      else if length v > 2 ^ 32 - 1 then
        Some (Inl (Api_Conversion (''Value length '' @ show_nat (length v) @
          '' exceeds HyperBinary 4-byte length limit ('' @ show_nat (2 ^ 32 - 1) @ '')'')), k)
      else add_with (\<lambda>b. write_varbinary b v) (\<lambda>b. write_varbinary_not_null b v) k)"

definition chunk_add_str :: "string \<Rightarrow> InsertChunk \<Rightarrow> chunk_result" where
  "chunk_add_str v k = chunk_add_bytes (as_bytes v) k"

definition chunk_add_data128 :: "bytes \<Rightarrow> InsertChunk \<Rightarrow> chunk_result" where
  "chunk_add_data128 v k = add_with (\<lambda>b. Some (write_data128 b v)) (\<lambda>b. Some (write_data128_not_null b v)) k"

definition chunk_add_date :: "Date \<Rightarrow> InsertChunk \<Rightarrow> chunk_result" where
  "chunk_add_date v k =
     (let julian_day = to_julian_day v
      in add_with (\<lambda>b. Some (write_i32 b julian_day)) (\<lambda>b. Some (write_i32_not_null b julian_day)) k)"

definition chunk_add_time :: "Time \<Rightarrow> InsertChunk \<Rightarrow> chunk_result" where
  "chunk_add_time v k =
     (let micros = Time_to_microseconds v
      in add_with (\<lambda>b. Some (write_i64 b micros)) (\<lambda>b. Some (write_i64_not_null b micros)) k)"

text \<open>The conversion of a timestamp can overflow; it runs after the bounds check.\<close>

definition add_micros :: "i64 option \<Rightarrow> InsertChunk \<Rightarrow> chunk_result" where
  "add_micros micros k =
     add_with (\<lambda>b. map_option (write_i64 b) micros) (\<lambda>b. map_option (write_i64_not_null b) micros) k"

definition chunk_add_timestamp :: "Timestamp \<Rightarrow> InsertChunk \<Rightarrow> chunk_result" where
  "chunk_add_timestamp v k = add_micros (Timestamp_to_microseconds v) k"

definition chunk_add_offset_timestamp :: "OffsetTimestamp \<Rightarrow> InsertChunk \<Rightarrow> chunk_result" where
  "chunk_add_offset_timestamp v k = add_micros (to_microseconds_utc v) k"

definition chunk_add_interval :: "Interval \<Rightarrow> InsertChunk \<Rightarrow> chunk_result" where
  "chunk_add_interval v k =
     (let packed = Interval_encode v
      in add_with (\<lambda>b. Some (write_data128 b packed)) (\<lambda>b. Some (write_data128_not_null b packed)) k)"

definition chunk_add_geography :: "Geography \<Rightarrow> InsertChunk \<Rightarrow> chunk_result" where
  "chunk_add_geography v k = chunk_add_bytes (geo_data v) k"

definition chunk_end_row :: "InsertChunk \<Rightarrow> (ApiError + unit) \<times> InsertChunk" where
  "chunk_end_row k =
     (if ic_column_index k \<noteq> ic_column_count k then
        (Inl (InvalidTableDefinition (''Expected '' @ show_nat (ic_column_count k) @ '' columns, got '' @
           show_nat (ic_column_index k))), k)
      else (Inr (), k\<lparr>ic_column_index := 0, ic_row_count := ic_row_count k + 1\<rparr>))"

section \<open>Rescaling is exact\<close>

lemma sint_i128_bounds: "- (2 ^ 127) \<le> sint (w :: i128)" "sint w < 2 ^ 127"
  using sint_greater_eq [of w] sint_less [of w] by simp_all

lemma in_i128_sint [simp]: "in_i128 (sint (w :: i128))"
  using sint_i128_bounds [of w] by (simp add: in_i128_def)

lemma sint_word_of_int_i128: "in_i128 x \<Longrightarrow> sint (word_of_int x :: i128) = x"
  by (simp add: in_i128_def signed_of_int signed_take_bit_int_eq_self)


lemma in_i128_pow10: "in_i128 (10 ^ k) \<longleftrightarrow> k \<le> 38"
proof
  assume "in_i128 (10 ^ k)"
  show "k \<le> 38"
  proof (rule ccontr)
    assume "\<not> k \<le> 38"
    then have "(10 :: int) ^ 39 \<le> 10 ^ k" by (intro power_increasing) simp_all
    with \<open>in_i128 (10 ^ k)\<close> show False by (simp add: in_i128_def)
  qed
next
  assume "k \<le> 38"
  then have "(10 :: int) ^ k \<le> 10 ^ 38" by (intro power_increasing) simp_all
  then show "in_i128 (10 ^ k)"
    by (simp add: in_i128_def) (smt (verit) zero_le_power)
qed

lemma scaled_eq_up:
  fixes w u :: int
  shows "a \<le> b \<Longrightarrow> w * 10 ^ a = u * 10 ^ b \<longleftrightarrow> w = u * 10 ^ (b - a)"
  using power_add [of "10 :: int" "b - a" a] by (simp add: mult.assoc [symmetric])

lemma smod_zero_iff: "a smod b = 0 \<longleftrightarrow> b dvd a" for a b :: int
  by (simp add: signed_modulo_int_def mod_eq_0_iff_dvd sgn_0_0) auto

lemma sdiv_exact: "0 < b \<Longrightarrow> (q * b) sdiv b = q" for q b :: int
  by (simp add: signed_divide_int_def abs_mult sgn_mult mult_sgn_abs)

lemma pow10_quotient_small:
  fixes q :: int
  assumes "0 < k" "in_i128 (q * 10 ^ k)"
  shows "in_i128 q"
proof -
  have "(10 :: int) ^ 1 \<le> 10 ^ k"
    using assms(1) by (intro power_increasing) simp_all
  then have "\<bar>q\<bar> * 10 \<le> \<bar>q\<bar> * 10 ^ k"
    by (intro mult_left_mono) simp_all
  moreover have "\<bar>q\<bar> * 10 ^ k = \<bar>q * 10 ^ k\<bar>"
    by (simp add: abs_mult)
  ultimately show ?thesis
    using assms(2) unfolding in_i128_def by linarith
qed

text \<open>Rescaling keeps the number. For every target scale a column can have, the stored integer at the
  column's scale denotes exactly the number given, \<open>value / 10^scale\<close>; and an error means that no
  128-bit integer denotes it there. The one number refused although it fits is zero written with more
  than 38 decimals too many.\<close>

theorem rescale_exact:
  assumes "unat ts \<le> 38"
  shows "case rescale_numeric v ts of
      Inr w \<Rightarrow> sint w * 10 ^ unat (num_scale v) = sint (num_value v) * 10 ^ unat ts
    | Inl _ \<Rightarrow> num_value v = 0 \<and> unat ts + 38 < unat (num_scale v) \<or>
        \<not> (\<exists>w :: i128. sint w * 10 ^ unat (num_scale v) = sint (num_value v) * 10 ^ unat ts)"
proof -
  let ?s = "unat (num_scale v)" and ?t = "unat ts" and ?u = "sint (num_value v)"
  consider (eq) "?s = ?t" | (up) "?s < ?t" | (down) "?t < ?s" by linarith
  then show ?thesis
  proof cases
    case eq
    then show ?thesis by (simp add: rescale_numeric_def)
  next
    case up
    then have "in_i128 (10 ^ (?t - ?s))"
      using assms by (simp add: in_i128_pow10)
    moreover have "(w * 10 ^ ?s = ?u * 10 ^ ?t) \<longleftrightarrow> w = ?u * 10 ^ (?t - ?s)" for w
      using scaled_eq_up [of ?s ?t w ?u] up by simp
    moreover have "in_i128 (?u * 10 ^ (?t - ?s))" if "sint (w :: i128) = ?u * 10 ^ (?t - ?s)" for w
      using in_i128_sint [of w] that by simp
    ultimately show ?thesis
      using up sint_word_of_int_i128 [of "?u * 10 ^ (?t - ?s)"]
      by (auto simp: rescale_numeric_def checked_pow10_def Let_def)
  next
    case down
    have iff: "(w * 10 ^ ?s = ?u * 10 ^ ?t) \<longleftrightarrow> ?u = w * 10 ^ (?s - ?t)" for w
      using scaled_eq_up [of ?t ?s ?u w] down by auto
    show ?thesis
    proof (cases "?s - ?t \<le> 38")
      case True
      then have pow: "in_i128 (10 ^ (?s - ?t))" by (simp add: in_i128_pow10)
      show ?thesis
      proof (cases "10 ^ (?s - ?t) dvd ?u")
        case div: True
        then obtain q where q: "?u = q * 10 ^ (?s - ?t)" by (auto simp: dvd_def mult.commute)
        have "in_i128 q"
          using pow10_quotient_small [of "?s - ?t" q] down q in_i128_sint [of "num_value v"] by simp
        moreover have "?u sdiv 10 ^ (?s - ?t) = q"
          unfolding q by (rule sdiv_exact) simp
        ultimately show ?thesis
          using div pow down q sint_word_of_int_i128 [of q]
          by (simp add: rescale_numeric_def checked_pow10_def Let_def smod_zero_iff iff
              flip: power_add)
      next
        case False
        then have "\<not> (\<exists>w. ?u = w * 10 ^ (?s - ?t))" by (auto simp: dvd_def mult.commute)
        then show ?thesis
          using False pow down by (simp add: rescale_numeric_def checked_pow10_def Let_def smod_zero_iff iff)
      qed
    next
      case False
      have "w = 0" if "?u = w * 10 ^ (?s - ?t)" for w
      proof (rule ccontr)
        assume "w \<noteq> 0"
        have "(10 :: int) ^ 39 \<le> 10 ^ (?s - ?t)"
          using False by (intro power_increasing) simp_all
        then have "1 * 10 ^ 39 \<le> \<bar>w\<bar> * 10 ^ (?s - ?t)"
          using \<open>w \<noteq> 0\<close> by (intro mult_mono) simp_all
        also have "\<dots> = \<bar>?u\<bar>" by (simp add: that abs_mult)
        finally show False
          using sint_i128_bounds [of "num_value v"] by simp
      qed
      then have "num_value v = 0 \<or> \<not> (\<exists>w. ?u = w * 10 ^ (?s - ?t))"
        using signed_eq_0_iff [of "num_value v"] by fastforce
      then show ?thesis
        using False down by (auto simp: rescale_numeric_def checked_pow10_def in_i128_pow10 Let_def iff)
    qed
  qed
qed

theorem rescale_exact_witness:
  "case rescale_numeric \<lparr>num_value = 12345, num_scale = 1\<rparr> 2 of
      Inr w \<Rightarrow> sint w * 10 ^ unat (1 :: u8) = sint (12345 :: i128) * 10 ^ unat (2 :: u32)
    | Inl _ \<Rightarrow> False"
proof -
  have "rescale_numeric \<lparr>num_value = 12345, num_scale = 1\<rparr> 2 = Inr 123450"
    by (simp add: rescale_numeric_def checked_pow10_def in_i128_def Let_def)
  moreover have "unat (2 :: u32) \<le> 38" by simp
  note rescale_exact [OF this, of "\<lparr>num_value = 12345, num_scale = 1\<rparr>"]
  ultimately show ?thesis by simp
qed

end
