(* ===== verification/Connection_Laws.thy ===== *)
theory Connection_Laws
  imports Raw_Connection
begin

text \<open>
  The laws of the connection. What a read does to a connection, whatever the stream returns; what a
  sequence of reads returns on a stream that carries the messages of a server (in any cut);
  and the properties of the request methods: a request and its answer, draining, the sticky flag,
  the COPY protocol, start-up.
\<close>

section \<open>What a read may change\<close>

text \<open>The write side and the session data, which reading never touches.\<close>

definition write_side ::
  "RawConnection \<Rightarrow> bytes \<times> write_event list \<times> bytes \<times> i32 \<times> i32 \<times> (string \<Rightarrow> string option)" where
  "write_side c = (sent (conn_stream c), outcomes (conn_stream c), write_buf c, process_id c, secret_key c,
     server_params c)"

lemma stream_read_frame:
  "stream_read w s = (r, s') \<Longrightarrow> sent s' = sent s \<and> outcomes s' = outcomes s"
  by (auto simp: stream_read_def split: list.splits read_event.splits)

lemma read_message_frame:
  "read_message c = (r, c') \<Longrightarrow> write_side c' = write_side c \<and> desynchronized c' = desynchronized c"
proof (induction c arbitrary: r c' rule: read_message.induct)
  case (1 c)
  obtain p rest where p: "Message_parse (read_buf c) = (p, rest)"
    by (cases "Message_parse (read_buf c)")
  obtain x s where s: "stream_read READ_WINDOW (conn_stream c) = (x, s)"
    by (cases "stream_read READ_WINDOW (conn_stream c)")
  note frame = stream_read_frame [OF s]
  note IH = 1(1) [OF p [symmetric] _ refl s [symmetric]]
  show ?case
  proof (cases "p = Inr None \<and> (\<exists>d. x = Inr d \<and> d \<noteq> [])")
    case True
    then obtain d where d: "p = Inr None" "x = Inr d" "d \<noteq> []"
      by blast
    then have "read_message (c\<lparr>conn_stream := s, read_buf := rest @ d\<rparr>) = (r, c')"
      using 1(2) p s by (subst (asm) read_message.simps) simp
    from IH [OF d this] show ?thesis
      using frame by (simp add: write_side_def)
  next
    case False
    then show ?thesis
      using 1(2) p s frame
      by (subst (asm) read_message.simps) (auto simp: write_side_def split: sum.splits option.splits if_splits)
  qed
qed

section \<open>Streams that carry messages\<close>

text \<open>A stream without read errors, cut into non-empty reads in any way, and the bytes not
  yet parsed.\<close>

fun event_bytes :: "read_event \<Rightarrow> bytes" where
  "event_bytes (RdData d) = d"
| "event_bytes (RdErr e) = []"

definition unread :: "RawConnection \<Rightarrow> bytes" where
  "unread c = read_buf c @ concat (map event_bytes (incoming (conn_stream c)))"

definition quiet :: "RawConnection \<Rightarrow> bool" where
  "quiet c \<longleftrightarrow> list_all (\<lambda>e. event_bytes e \<noteq> []) (incoming (conn_stream c))"

lemma stream_read_quiet:
  assumes "quiet c" "stream_read READ_WINDOW (conn_stream c) = (x, s)"
  shows "\<exists>d. x = Inr d \<and> (d = [] \<longleftrightarrow> incoming (conn_stream c) = []) \<and>
    quiet (c\<lparr>conn_stream := s, read_buf := b\<rparr>) \<and>
    d @ concat (map event_bytes (incoming s)) = concat (map event_bytes (incoming (conn_stream c)))"
proof (cases "incoming (conn_stream c)")
  case Nil
  with assms show ?thesis
    by (auto simp: stream_read_def quiet_def)
next
  case (Cons e es)
  with assms show ?thesis
    by (cases e) (auto simp: stream_read_def quiet_def READ_WINDOW_def split: if_splits)
qed

text \<open>On a quiet stream, \<open>read_message\<close> is the parser applied to everything to come.\<close>

lemma read_message_quiet:
  assumes "quiet c" "Message_parse (unread c) = (r, rest)"
  shows "\<exists>c'. read_message c = (case r of
       Inl e \<Rightarrow> Inl (from_io e)
     | Inr (Some m) \<Rightarrow> Inr m
     | Inr None \<Rightarrow> Inl (closed_error ''connection closed''), c') \<and> quiet c' \<and> unread c' = rest"
  using assms
proof (induction c rule: read_message.induct)
  case (1 c)
  obtain p rest' where p: "Message_parse (read_buf c) = (p, rest')"
    by (cases "Message_parse (read_buf c)")
  show ?case
  proof (cases "p = Inr None")
    case False
    with Message_parse_stable [OF p] 1(3) have "r = p" "rest = rest' @ concat (map event_bytes (incoming (conn_stream c)))"
      by (simp_all add: unread_def)
    then show ?thesis
      using 1(2) p False
      by (subst read_message.simps) (auto simp: unread_def quiet_def split: sum.split option.split)
  next
    case True
    note rest' = Message_parse_incomplete [OF p [unfolded True]]
    obtain x s where s: "stream_read READ_WINDOW (conn_stream c) = (x, s)"
      by (cases "stream_read READ_WINDOW (conn_stream c)")
    from stream_read_quiet [OF 1(2) s] obtain d where
      d: "x = Inr d" "d = [] \<longleftrightarrow> incoming (conn_stream c) = []"
        "d @ concat (map event_bytes (incoming s)) = concat (map event_bytes (incoming (conn_stream c)))"
        "\<And>b. quiet (c\<lparr>conn_stream := s, read_buf := b\<rparr>)"
      by metis
    let ?c = "c\<lparr>conn_stream := s, read_buf := rest' @ d\<rparr>"
    have un: "unread ?c = unread c"
      using d(3) by (simp add: unread_def rest')
    show ?thesis
    proof (cases "d = []")
      case False
      have "read_message c = read_message ?c"
        using p True s d(1) False by (subst read_message.simps) simp
      with 1(1) [OF p [symmetric] True refl s [symmetric] d(1) False d(4)] 1(3) un show ?thesis
        by simp
    next
      case nil: True
      then have "unread c = read_buf c"
        using d(2) by (simp add: unread_def)
      with 1(3) p True have "r = Inr None" "rest = rest'"
        by simp_all
      then show ?thesis
        using p True s d nil un \<open>unread c = read_buf c\<close>
        by (subst read_message.simps) (auto simp: rest' quiet_def)
    qed
  qed
qed

lemma read_message_encoded:
  assumes "quiet c" "sendable m" "unread c = server_encode m @ rest"
  obtains c' where "read_message c = (Inr m, c')" "quiet c'" "unread c' = rest"
    "write_side c' = write_side c" "desynchronized c' = desynchronized c"
proof -
  have "Message_parse (unread c) = (Inr (Some m), rest)"
    using Message_parse_server [OF assms(2)] assms(3) by simp
  from read_message_quiet [OF assms(1) this] obtain c' where
    "read_message c = (Inr m, c')" "quiet c'" "unread c' = rest"
    by auto
  with read_message_frame that show thesis
    by blast
qed

section \<open>Message loops on such streams\<close>

text \<open>The connection has read up to \<open>rest\<close> and nothing else about it has changed.\<close>

definition advanced :: "RawConnection \<Rightarrow> bytes \<Rightarrow> RawConnection \<Rightarrow> bool" where
  "advanced c rest c' \<longleftrightarrow> quiet c' \<and> unread c' = rest \<and> write_side c' = write_side c \<and>
     desynchronized c' = desynchronized c"

lemma advanced_trans: "advanced c r c1 \<Longrightarrow> advanced c1 r' c2 \<Longrightarrow> advanced c r' c2"
  by (simp add: advanced_def)

lemma read_advances:
  assumes "quiet c" "sendable m" "unread c = server_encode m @ rest"
  shows "\<exists>c'. read_message c = (Inr m, c') \<and> advanced c rest c'"
  using read_message_encoded [OF assms] by (auto simp: advanced_def)

definition wire :: "Message list \<Rightarrow> bytes" where
  "wire ms = concat (map server_encode ms)"

lemma wire_simps [simp]: "wire [] = []" "wire (m # ms) = server_encode m @ wire ms" "wire (xs @ ys) = wire xs @ wire ys"
  by (simp_all add: wire_def)

fun not_ready :: "Message \<Rightarrow> bool" where
  "not_ready (ReadyForQuery _) = False"
| "not_ready _ = True"

lemma sendable_ready [simp]: "sendable (ReadyForQuery s)"
  by (simp add: sendable_def)

lemma drain_stream:
  assumes "list_all sendable ms" "list_all not_ready ms" "length ms < n"
    and "quiet c" "unread c = wire (ms @ [ReadyForQuery s]) @ rest"
  shows "\<exists>c'. drain_until_ready_bounded n c = (True, c') \<and> advanced c rest c'"
  using assms
proof (induction ms arbitrary: n c)
  case Nil
  then obtain c' where "read_message c = (Inr (ReadyForQuery s), c')" "advanced c rest c'"
    using read_advances [of c "ReadyForQuery s" rest] by auto
  with Nil.prems show ?case
    by (subst drain_until_ready_bounded.simps) simp
next
  case (Cons m ms)
  then obtain c1 where c1: "read_message c = (Inr m, c1)" "advanced c (wire (ms @ [ReadyForQuery s]) @ rest) c1"
    using read_advances [of c m "wire (ms @ [ReadyForQuery s]) @ rest"] by auto
  have "\<exists>c2. drain_until_ready_bounded (n - 1) c1 = (True, c2) \<and> advanced c1 rest c2"
    using Cons.prems c1(2) by (intro Cons.IH) (auto simp: advanced_def)
  then obtain c2 where c2: "drain_until_ready_bounded (n - 1) c1 = (True, c2)" "advanced c1 rest c2"
    by blast
  have "drain_until_ready_bounded n c = (True, c2)"
    using Cons.prems c1(1) c2(1) by (subst drain_until_ready_bounded.simps) (cases m; simp)
  with advanced_trans [OF c1(2) c2(2)] show ?case
    by blast
qed

text \<open>The first error of an answer, and how many messages follow it.\<close>

fun first_error :: "Message list \<Rightarrow> bytes option" where
  "first_error [] = None"
| "first_error (ErrorResponse b # ms) = Some b"
| "first_error (m # ms) = first_error ms"

fun after_error :: "Message list \<Rightarrow> nat" where
  "after_error [] = 0"
| "after_error (ErrorResponse b # ms) = length ms"
| "after_error (m # ms) = after_error ms"

text \<open>What a server may send in answer to a request, before \<open>ReadyForQuery\<close>.\<close>

definition answers :: "Message list \<Rightarrow> bool" where
  "answers ms \<longleftrightarrow> list_all sendable ms \<and> list_all not_ready ms \<and> after_error ms < POST_ERROR_DRAIN_CAP"

lemma answers_Cons: "answers (m # ms) \<Longrightarrow> (\<forall>b. m \<noteq> ErrorResponse b) \<Longrightarrow> answers ms"
  by (cases m) (simp_all add: answers_def)

lemma server_error_stream:
  assumes "answers (ErrorResponse b # ms)" "quiet c" "unread c = wire (ms @ [ReadyForQuery s]) @ rest"
  shows "\<exists>c'. server_error b c = (Inl (parse_error_response b), c') \<and> advanced c rest c'"
  using drain_stream [of ms POST_ERROR_DRAIN_CAP c s rest] assms
  by (auto simp: server_error_def consume_error_def answers_def)

text \<open>The shape of the message loops: a step on every message of the answer, an error that ends
  it, a result at \<open>ReadyForQuery\<close>. One induction serves all of them. A loop may also leave early on
  messages it does not accept.\<close>

locale partial_message_loop =
  fixes run_loop :: "'s \<Rightarrow> RawConnection \<Rightarrow> (Error + 'a) \<times> RawConnection"
    and step :: "'s \<Rightarrow> Message \<Rightarrow> 's"
    and result :: "'s \<Rightarrow> u8 \<Rightarrow> 'a"
    and accepts :: "Message \<Rightarrow> bool"
  assumes on_ready: "read_message c = (Inr (ReadyForQuery t), c') \<Longrightarrow> run_loop x c = (Inr (result x t), c')"
    and on_error: "read_message c = (Inr (ErrorResponse b), c') \<Longrightarrow> run_loop x c = server_error b c'"
    and on_other: "read_message c = (Inr m, c') \<Longrightarrow> not_ready m \<Longrightarrow> \<forall>b. m \<noteq> ErrorResponse b \<Longrightarrow>
      accepts m \<Longrightarrow> run_loop x c = run_loop (step x m) c'"
begin

lemma partial_loop_stream:
  assumes "answers ms" "list_all accepts ms" "quiet c" "unread c = wire (ms @ [ReadyForQuery t]) @ rest"
  shows "\<exists>c'. run_loop x c = (case first_error ms of
      None \<Rightarrow> Inr (result (foldl step x ms) t)
    | Some b \<Rightarrow> Inl (parse_error_response b), c') \<and> advanced c rest c'"
  using assms
proof (induction ms arbitrary: x c)
  case Nil
  then obtain c' where "read_message c = (Inr (ReadyForQuery t), c')" "advanced c rest c'"
    using read_advances [of c "ReadyForQuery t" rest] by auto
  with on_ready show ?case
    by auto
next
  case (Cons m ms)
  have "sendable m" "not_ready m"
    using Cons.prems(1) by (simp_all add: answers_def)
  then obtain c1 where c1: "read_message c = (Inr m, c1)" "advanced c (wire (ms @ [ReadyForQuery t]) @ rest) c1"
    using read_advances [of c m "wire (ms @ [ReadyForQuery t]) @ rest"] Cons.prems by auto
  show ?case
  proof (cases "\<exists>b. m = ErrorResponse b")
    case True
    then obtain b where b: "m = ErrorResponse b"
      by blast
    with server_error_stream [of b ms c1 t rest, where ?'a = 'a] Cons.prems(1) c1(2) obtain c2 where
      "server_error b c1 = ((Inl (parse_error_response b), c2) :: (Error + 'a) \<times> RawConnection)" "advanced c1 rest c2"
      by (auto simp: advanced_def)
    with on_error [of c b c1 x] c1 b advanced_trans show ?thesis
      by auto
  next
    case False
    then have "first_error (m # ms) = first_error ms"
      by (cases m) simp_all
    moreover have "\<exists>c2. run_loop (step x m) c1 = (case first_error ms of
         None \<Rightarrow> Inr (result (foldl step (step x m) ms) t) | Some b \<Rightarrow> Inl (parse_error_response b), c2)
       \<and> advanced c1 rest c2"
      using answers_Cons [OF Cons.prems(1)] Cons.prems(2) False c1(2) by (intro Cons.IH) (auto simp: advanced_def)
    moreover have "run_loop x c = run_loop (step x m) c1"
      using on_other [OF c1(1) \<open>not_ready m\<close>] Cons.prems(2) False by simp
    ultimately show ?thesis
      using advanced_trans [OF c1(2)] by (metis foldl_Cons)
  qed
qed

end

locale message_loop =
  fixes run_loop :: "'s \<Rightarrow> RawConnection \<Rightarrow> (Error + 'a) \<times> RawConnection"
    and step :: "'s \<Rightarrow> Message \<Rightarrow> 's"
    and result :: "'s \<Rightarrow> u8 \<Rightarrow> 'a"
  assumes loop_ready: "read_message c = (Inr (ReadyForQuery t), c') \<Longrightarrow> run_loop x c = (Inr (result x t), c')"
    and loop_error: "read_message c = (Inr (ErrorResponse b), c') \<Longrightarrow> run_loop x c = server_error b c'"
    and loop_other: "read_message c = (Inr m, c') \<Longrightarrow> not_ready m \<Longrightarrow> \<forall>b. m \<noteq> ErrorResponse b \<Longrightarrow>
      run_loop x c = run_loop (step x m) c'"

sublocale message_loop \<subseteq> every: partial_message_loop run_loop step result "\<lambda>_. True"
  by unfold_locales (auto intro: loop_ready loop_error loop_other)

context message_loop
begin

lemma loop_stream:
  assumes "answers ms" "quiet c" "unread c = wire (ms @ [ReadyForQuery t]) @ rest"
  shows "\<exists>c'. run_loop x c = (case first_error ms of
      None \<Rightarrow> Inr (result (foldl step x ms) t)
    | Some b \<Rightarrow> Inl (parse_error_response b), c') \<and> advanced c rest c'"
  using every.partial_loop_stream [OF assms(1) _ assms(2,3)] by (simp add: list_all_iff)

end

interpretation collect: message_loop collect_messages "\<lambda>acc m. acc @ [m]" "\<lambda>acc t. acc @ [ReadyForQuery t]"
proof
  fix c m c' x
  assume "read_message c = (Inr m, c')" "not_ready m" "\<forall>b. m \<noteq> ErrorResponse b"
  then show "collect_messages x c = collect_messages (x @ [m]) c'"
    by (subst collect_messages.simps) (cases m; simp)
qed (simp_all add: collect_messages.simps)

lemma foldl_snoc: "foldl (\<lambda>acc m. acc @ [m]) xs ms = xs @ ms"
  by (induction ms arbitrary: xs) simp_all

text \<open>What COPY OUT collects: the data between \<open>CopyOutResponse\<close> and \<open>CopyDone\<close>.\<close>

fun copy_out_step :: "bytes \<times> bool \<Rightarrow> Message \<Rightarrow> bytes \<times> bool" where
  "copy_out_step (data, on) (CopyOutResponse _) = (data, True)"
| "copy_out_step (data, on) (Message.CopyData body) = (if on then data @ body else data, on)"
| "copy_out_step (data, on) Message.CopyDone = (data, False)"
| "copy_out_step (data, on) _ = (data, on)"

interpretation copy_out: message_loop "\<lambda>(data, on). copy_out_loop data on" copy_out_step "\<lambda>x _. fst x"
proof
  fix c m c' and x :: "bytes \<times> bool"
  assume "read_message c = (Inr m, c')" "not_ready m" "\<forall>b. m \<noteq> ErrorResponse b"
  moreover obtain data on where "x = (data, on)"
    by (cases x)
  ultimately show "(case x of (data, on) \<Rightarrow> copy_out_loop data on) c =
      (case copy_out_step x m of (data, on) \<Rightarrow> copy_out_loop data on) c'"
    by (simp, subst copy_out_loop.simps) (cases m; simp)
qed (auto simp add: copy_out_loop.simps split: prod.split)

section \<open>Requests and their answers\<close>

definition in_sync :: "RawConnection \<Rightarrow> bool" where
  "in_sync c \<longleftrightarrow> is_healthy c \<and> quiet c \<and> write_buf c = [] \<and> outcomes (conn_stream c) = []"

definition answer :: "Message list \<Rightarrow> u8 \<Rightarrow> Error + Message list" where
  "answer ms t = (case first_error ms of
     None \<Rightarrow> Inr (ms @ [ReadyForQuery t]) | Some b \<Rightarrow> Inl (parse_error_response b))"

lemma andthen_simps [simp]:
  "andthen None f = None" "andthen (Some (Inl e, c)) f = Some (Inl e, c)" "andthen (Some (Inr a, c)) f = f a c"
  by (simp_all add: andthen_def)

lemma guard_healthy: "is_healthy c \<Longrightarrow> guard c = Some (Inr (), c)"
  by (simp add: guard_def ensure_healthy_def is_healthy_def)

lemma emit_Some: "w (write_buf c) = Some b \<Longrightarrow> emit w c = Some (Inr (), c\<lparr>write_buf := b\<rparr>)"
  by (simp add: emit_def)

text \<open>A successful flush puts the buffer on the wire and touches nothing else.\<close>

lemma flush_ok:
  assumes "outcomes (conn_stream c) = []"
  shows "\<exists>c'. flush c = (Inr (), c') \<and> sent (conn_stream c') = sent (conn_stream c) @ write_buf c \<and>
    write_buf c' = [] \<and> outcomes (conn_stream c') = [] \<and> unread c' = unread c \<and> (quiet c' \<longleftrightarrow> quiet c) \<and>
    desynchronized c' = desynchronized c"
  using assms by (auto simp: flush_def stream_write_all_def stream_flush_def unread_def quiet_def)

lemma flush_request:
  assumes "in_sync c"
  shows "\<exists>c'. flush (c\<lparr>write_buf := b\<rparr>) = (Inr (), c') \<and> in_sync c' \<and> unread c' = unread c \<and>
    sent (conn_stream c') = sent (conn_stream c) @ b"
  using assms flush_ok [of "c\<lparr>write_buf := b\<rparr>"]
  by (auto simp: in_sync_def is_healthy_def unread_def quiet_def)

lemma advanced_in_sync: "in_sync c \<Longrightarrow> advanced c rest c' \<Longrightarrow>
    in_sync c' \<and> unread c' = rest \<and> sent (conn_stream c') = sent (conn_stream c)"
  by (simp add: in_sync_def advanced_def write_side_def is_healthy_def)

lemma collect_answer:
  assumes "answers ms" "in_sync c" "unread c = wire (ms @ [ReadyForQuery t]) @ rest"
  shows "\<exists>c'. collect_messages [] c = (answer ms t, c') \<and> in_sync c' \<and> unread c' = rest \<and>
    sent (conn_stream c') = sent (conn_stream c)"
proof -
  have "quiet c"
    using assms(2) by (simp add: in_sync_def)
  from collect.loop_stream [OF assms(1) this assms(3), of "[]", unfolded foldl_snoc append_Nil, folded answer_def]
  obtain c' where "collect_messages [] c = (answer ms t, c')" "advanced c rest c'"
    by blast
  with advanced_in_sync [OF assms(2)] show ?thesis
    by blast
qed

definition query_frame :: "string \<Rightarrow> bytes" where
  "query_frame q = frame CHR ''Q'' (as_bytes q @ [0])"

lemma emit_query:
  assumes "length q + 5 < 2 ^ 31"
  shows "emit (query q) c = Some (Inr (), c\<lparr>write_buf := write_buf c @ query_frame q\<rparr>)"
  using assms by (intro emit_Some) (simp add: query_framed framed_def query_frame_def)

lemma simple_query_answer:
  assumes "in_sync c" "answers ms" "unread c = wire (ms @ [ReadyForQuery t]) @ rest" "length q + 5 < 2 ^ 31"
  shows "\<exists>c'. simple_query q c = Some (answer ms t, c') \<and> in_sync c' \<and> unread c' = rest \<and>
    sent (conn_stream c') = sent (conn_stream c) @ query_frame q"
proof -
  have c: "is_healthy c" "write_buf c = []"
    using assms(1) by (simp_all add: in_sync_def)
  obtain c1 where c1: "flush (c\<lparr>write_buf := query_frame q\<rparr>) = (Inr (), c1)" "in_sync c1"
      "unread c1 = wire (ms @ [ReadyForQuery t]) @ rest"
      "sent (conn_stream c1) = sent (conn_stream c) @ query_frame q"
    using flush_request [OF assms(1)] assms(3) by metis
  from collect_answer [OF assms(2) c1(2,3)] c1(4) obtain c2 where
    "collect_messages [] c1 = (answer ms t, c2)" "in_sync c2" "unread c2 = rest"
    "sent (conn_stream c2) = sent (conn_stream c) @ query_frame q"
    by metis
  then show ?thesis
    unfolding simple_query_def using c c1(1) by (simp add: guard_healthy emit_query [OF assms(4)])
qed

text \<open>The extended query with binary results, as one batch of frames.\<close>

definition binary_query_frames :: "string \<Rightarrow> bytes" where
  "binary_query_frames q =
     concat (map (\<lambda>m. frame (message_tag m) (message_body m))
       [Parse '''' q [], Bind '''' '''' [] [] [2], Describe (byte_of CHR ''P'') '''', Execute '''' 0, Sync])"

lemma emit_binary_query:
  assumes "length q + 8 < 2 ^ 31" "is_healthy c"
  shows "start_query_binary q c = Some (flush (c\<lparr>write_buf := write_buf c @ binary_query_frames q\<rparr>))"
    and "query_binary q c =
      andthen (Some (flush (c\<lparr>write_buf := write_buf c @ binary_query_frames q\<rparr>))) (\<lambda>_ c. Some (collect_messages [] c))"
proof -
  have "parse '''' q [] b = Some (b @ frame CHR ''P'' (message_body (Parse '''' q [])))" for b
    using assms(1) by (simp add: parse_framed framed_def)
  moreover have "bind_msg '''' '''' [] [] [2] b = Some (b @ frame CHR ''B'' (message_body (Bind '''' '''' [] [] [2])))"
    "describe (byte_of CHR ''P'') '''' b = Some (b @ frame CHR ''D'' (message_body (Describe (byte_of CHR ''P'') '''')))"
    "execute '''' 0 b = Some (b @ frame CHR ''E'' (message_body (Execute '''' 0)))" for b
    by (simp_all add: bind_msg_framed describe_framed execute_framed framed_def)
  ultimately show "start_query_binary q c = Some (flush (c\<lparr>write_buf := write_buf c @ binary_query_frames q\<rparr>))"
    "query_binary q c =
      andthen (Some (flush (c\<lparr>write_buf := write_buf c @ binary_query_frames q\<rparr>))) (\<lambda>_ c. Some (collect_messages [] c))"
    by (simp_all add: start_query_binary_def query_binary_def guard_healthy [OF assms(2)] emit_def
        HYPER_BINARY_FORMAT_def fixed_framed binary_query_frames_def)
qed

section \<open>The sticky flag\<close>

text \<open>The methods of the connection as data, to speak about arbitrary sequences of calls. \<open>run\<close> keeps
  of the result only whether it was \<open>Ok\<close>.\<close>

datatype call =
    SimpleQuery string
  | QueryBinary string
  | StartQueryBinary string
  | StartSimpleQuery string
  | StartExecutePrepared string "bytes option list" "ParamFormat list" nat
  | StartCopyIn string "string list" string
  | StartCopyInRaw string
  | FinishCopy
  | CancelCopy string
  | CopyOut string
  | SendCopyData bytes
  | SendCopyDataDirect bytes
  | FlushBuffer
  | FlushStream
  | ReadMessage
  | DrainBounded nat
  | DrainAbandoned nat nat
  | TerminateConnection

definition outcome_of :: "'a outcome \<Rightarrow> (bool \<times> RawConnection) option" where
  "outcome_of r = map_option (\<lambda>(x, c). (case x of Inl _ \<Rightarrow> False | Inr _ \<Rightarrow> True, c)) r"

fun run :: "call \<Rightarrow> RawConnection \<Rightarrow> (bool \<times> RawConnection) option" where
  "run (SimpleQuery q) c = outcome_of (simple_query q c)"
| "run (QueryBinary q) c = outcome_of (query_binary q c)"
| "run (StartQueryBinary q) c = outcome_of (start_query_binary q c)"
| "run (StartSimpleQuery q) c = outcome_of (start_simple_query q c)"
| "run (StartExecutePrepared n ps fs k) c = outcome_of (start_execute_prepared_with_formats n ps fs k c)"
| "run (StartCopyIn t cs f) c = outcome_of (start_copy_in_with_format t cs f c)"
| "run (StartCopyInRaw q) c = outcome_of (start_copy_in_raw q c)"
| "run FinishCopy c = outcome_of (finish_copy c)"
| "run (CancelCopy r) c = outcome_of (cancel_copy r c)"
| "run (CopyOut q) c = outcome_of (copy_out q c)"
| "run (SendCopyData d) c = outcome_of (send_copy_data d c)"
| "run (SendCopyDataDirect d) c = outcome_of (send_copy_data_direct d c)"
| "run FlushBuffer c = outcome_of (Some (flush c))"
| "run FlushStream c = outcome_of (Some (flush_stream c))"
| "run ReadMessage c = outcome_of (Some (read_message c))"
| "run (DrainBounded n) c = Some (drain_until_ready_bounded n c)"
| "run (DrainAbandoned n k) c = Some (drain_abandoned_stream n k c)"
| "run TerminateConnection c = outcome_of (Some (terminate c))"

text \<open>The methods that start or finish a request, all of which check the flag first.\<close>

fun is_request :: "call \<Rightarrow> bool" where
  "is_request (SendCopyData _) = False"
| "is_request (SendCopyDataDirect _) = False"
| "is_request FlushBuffer = False"
| "is_request FlushStream = False"
| "is_request ReadMessage = False"
| "is_request (DrainBounded _) = False"
| "is_request (DrainAbandoned _ _) = False"
| "is_request TerminateConnection = False"
| "is_request _ = True"

lemma guard_desync: "desynchronized c \<Longrightarrow> \<exists>e. guard c = Some (Inl e, c)"
  by (simp add: guard_def ensure_healthy_def)

lemmas request_defs = simple_query_def query_binary_def start_query_binary_def start_simple_query_def
  start_execute_prepared_with_formats_def bind_execute_sync_def start_copy_in_with_format_def
  start_copy_in_raw_def finish_copy_def cancel_copy_def copy_out_def

lemma request_desync:
  assumes "desynchronized c" "is_request r"
  shows "run r c = Some (False, c)"
proof -
  obtain e where "guard c = Some (Inl e, c)"
    using guard_desync [OF assms(1)] by blast
  with assms(2) show ?thesis
    by (cases r) (auto simp: request_defs outcome_of_def bind_format_codes_def)
qed

text \<open>A drain ends healthy exactly when it saw \<open>ReadyForQuery\<close>. The messages are told apart once
  here, for every loop.\<close>

lemma read_cases:
  obtains (failed) e c1 where "read_message c = (Inl e, c1)"
  | (ready) s c1 where "read_message c = (Inr (ReadyForQuery s), c1)"
  | (error) b c1 where "read_message c = (Inr (ErrorResponse b), c1)"
  | (other) m c1 where "read_message c = (Inr m, c1)" "not_ready m" "\<forall>b. m \<noteq> ErrorResponse b"
proof -
  obtain r c1 where r: "read_message c = (r, c1)"
    by (cases "read_message c")
  show thesis
  proof (cases r)
    case (Inr m)
    with r that(2-4) show thesis
      by (cases m) auto
  qed (use r that(1) in blast)
qed

lemma drain_step:
  "n > 0 \<Longrightarrow> read_message c = (Inr m, c1) \<Longrightarrow> not_ready m \<Longrightarrow>
     drain_until_ready_bounded n c = drain_until_ready_bounded (n - 1) c1"
  by (subst drain_until_ready_bounded.simps) (cases m; simp)

lemma drain_flag:
  "drain_until_ready_bounded n c = (b, c') \<Longrightarrow> desynchronized c' \<longleftrightarrow> desynchronized c \<or> \<not> b"
proof (induction n arbitrary: c)
  case 0
  then show ?case
    by (auto simp: drain_until_ready_bounded.simps mark_desynchronized_def)
next
  case (Suc n)
  have step: "desynchronized c' \<longleftrightarrow> desynchronized c \<or> \<not> b"
    if "read_message c = (Inr m, c1)" "not_ready m" for m c1
    using Suc drain_step [OF _ that, of "Suc n"] read_message_frame [OF that(1)] by simp
  show ?case
  proof (cases rule: read_cases [of c])
    case (failed e c1)
    with Suc.prems read_message_frame [OF failed] show ?thesis
      by (auto simp: drain_until_ready_bounded.simps [of "Suc n"] mark_desynchronized_def)
  next
    case (ready s c1)
    with Suc.prems read_message_frame [OF ready] show ?thesis
      by (auto simp: drain_until_ready_bounded.simps [of "Suc n"])
  next
    case (error x c1)
    then show ?thesis
      using step by simp
  next
    case (other m c1)
    then show ?thesis
      using step by blast
  qed
qed

lemma drain_abandoned_flag:
  "drain_abandoned_loop n k i j c = (b, c') \<Longrightarrow> desynchronized c' \<longleftrightarrow> desynchronized c \<or> \<not> b"
proof (induction "pending c" arbitrary: i j c rule: less_induct)
  case less
  obtain r c1 where r: "read_message c = (r, c1)"
    by (cases "read_message c")
  note keep = read_message_frame [OF r]
  note loop = less.prems [unfolded drain_abandoned_loop.simps [of n k i j c] r prod.case]
  show ?case
  proof (cases r)
    case (Inl e)
    with loop keep show ?thesis
      by (auto simp: mark_desynchronized_def)
  next
    case (Inr m)
    with r have "pending c1 < pending c"
      by (simp add: read_message_pending)
    with Inr loop keep less.hyps [of c1] show ?thesis
      by (cases m) (auto simp: mark_desynchronized_def split: if_splits)
  qed
qed

lemma flush_flag: "flush c = (r, c') \<Longrightarrow> desynchronized c' = desynchronized c"
  by (auto simp: flush_def split: if_splits prod.splits sum.splits)

text \<open>A result that leaves the flag set, and its rules for sequencing.\<close>

definition stays_marked :: "'a outcome \<Rightarrow> bool" where
  "stays_marked x \<longleftrightarrow> (\<forall>r c'. x = Some (r, c') \<longrightarrow> desynchronized c')"

lemma stays_marked_andthen:
  "stays_marked m \<Longrightarrow> (\<And>a c. desynchronized c \<Longrightarrow> stays_marked (f a c)) \<Longrightarrow> stays_marked (andthen m f)"
  by (auto simp: stays_marked_def andthen_def split: option.splits prod.splits sum.splits)

lemma stays_marked_put: "desynchronized c \<Longrightarrow> stays_marked (Some (stream_put bs c))"
  by (auto simp: stays_marked_def stream_put_def mark_desynchronized_def split: prod.splits sum.splits)

lemma send_direct_flag:
  assumes "desynchronized c"
  shows "stays_marked (send_copy_data_direct d c)"
  unfolding send_copy_data_direct_def
proof (rule stays_marked_andthen)
  show "stays_marked (Some (if write_buf c \<noteq> [] then
      case stream_put (write_buf c) c of (Inl e, c') \<Rightarrow> (Inl e, c') | (Inr _, c') \<Rightarrow> (Inr (), c'\<lparr>write_buf := []\<rparr>)
      else (Inr (), c)))"
    using assms stays_marked_put [OF assms, of "write_buf c"]
    by (auto simp: stays_marked_def split: prod.splits sum.splits)
qed (auto intro!: stays_marked_andthen stays_marked_put simp: stays_marked_def [of "Some (Inl _, _)"])

lemma outcome_of_SomeD: "outcome_of x = Some (b, c') \<Longrightarrow> \<exists>r. x = Some (r, c')"
  by (auto simp: outcome_of_def)

lemma run_flag:
  assumes "run x c = Some (b, c')" "desynchronized c"
  shows "desynchronized c'"
proof (cases "is_request x")
  case True
  with request_desync [OF assms(2) this] assms show ?thesis
    by simp
next
  case False
  note direct = send_direct_flag [OF assms(2), unfolded stays_marked_def]
  from False assms show ?thesis
    by (cases x)
      (auto simp: send_copy_data_def emit_def terminate_def flush_stream_def drain_abandoned_stream_def
        dest!: outcome_of_SomeD dest: direct [rule_format] flush_flag read_message_frame drain_flag drain_abandoned_flag
        split: prod.splits sum.splits)
qed

fun run_all :: "call list \<Rightarrow> RawConnection \<Rightarrow> RawConnection option" where
  "run_all [] c = Some c"
| "run_all (x # xs) c = (case run x c of None \<Rightarrow> None | Some (_, c') \<Rightarrow> run_all xs c')"

lemma run_all_flag: "run_all xs c = Some c' \<Longrightarrow> desynchronized c \<Longrightarrow> desynchronized c'"
  by (induction xs arbitrary: c) (auto split: option.splits prod.splits dest: run_flag)

lemma run_all_requests:
  "desynchronized c \<Longrightarrow> list_all is_request xs \<Longrightarrow> run_all xs c = Some c"
  by (induction xs) (simp_all add: request_desync)

section \<open>Ending a COPY\<close>

text \<open>The messages a connection reads one after the other.\<close>

inductive consumes :: "RawConnection \<Rightarrow> Message list \<Rightarrow> RawConnection \<Rightarrow> bool" where
  consumes_Nil: "consumes c [] c"
| consumes_Cons: "read_message c = (Inr m, c1) \<Longrightarrow> consumes c1 ms c2 \<Longrightarrow> consumes c (m # ms) c2"

inductive_cases consumes_ConsE: "consumes c (m # ms) c'"

definition reached_ready :: "RawConnection \<Rightarrow> RawConnection \<Rightarrow> bool" where
  "reached_ready c c' \<longleftrightarrow> (\<exists>ms t. consumes c (ms @ [ReadyForQuery t]) c')"

lemma reached_ready_now: "read_message c = (Inr (ReadyForQuery t), c') \<Longrightarrow> reached_ready c c'"
  unfolding reached_ready_def by (intro exI [of _ "[]"] exI [of _ t]) (auto intro: consumes.intros)

lemma reached_ready_step: "read_message c = (Inr m, c1) \<Longrightarrow> reached_ready c1 c' \<Longrightarrow> reached_ready c c'"
  unfolding reached_ready_def using consumes_Cons [of c m c1] by (metis append_Cons)

lemma drain_reached: "drain_until_ready_bounded n c = (True, c') \<Longrightarrow> reached_ready c c'"
proof (induction n arbitrary: c)
  case 0
  then show ?case
    by (simp add: drain_until_ready_bounded.simps)
next
  case (Suc n)
  show ?case
  proof (cases rule: read_cases [of c])
    case (failed e c1)
    with Suc.prems show ?thesis
      by (simp add: drain_until_ready_bounded.simps [of "Suc n"])
  next
    case (ready s c1)
    with Suc.prems show ?thesis
      by (simp add: drain_until_ready_bounded.simps [of "Suc n"] reached_ready_now)
  next
    case (error x c1)
    with Suc drain_step [OF _ error, of "Suc n"] show ?thesis
      by (auto intro: reached_ready_step)
  next
    case (other m c1)
    with Suc drain_step [OF _ other(1,2), of "Suc n"] show ?thesis
      by (auto intro: reached_ready_step)
  qed
qed

lemma server_error_reached:
  assumes "server_error b c = (r, c')"
  shows "(\<exists>e. r = Inl e) \<and> (\<not> desynchronized c' \<longrightarrow> reached_ready c c')"
proof -
  obtain ok' c1 where d: "drain_until_ready_bounded POST_ERROR_DRAIN_CAP c = (ok', c1)"
    by (cases "drain_until_ready_bounded POST_ERROR_DRAIN_CAP c")
  with assms have "r = Inl (parse_error_response b)" "c' = c1"
    by (simp_all add: server_error_def consume_error_def)
  with drain_flag [OF d] drain_reached [of POST_ERROR_DRAIN_CAP c c1] d show ?thesis
    by (cases ok') auto
qed

lemma read_or_desync:
  "read_message c = (Inr m, c1) \<Longrightarrow> read_message_or_desync c = (Inr m, c1)"
  "read_message c = (Inl e, c1) \<Longrightarrow> read_message_or_desync c = (Inl e, mark_desynchronized c1)"
  by (simp_all add: read_message_or_desync_def)

lemma finish_loop_reached:
  "finish_copy_loop n k c = (r, c') \<Longrightarrow> \<not> desynchronized c' \<Longrightarrow> reached_ready c c'"
proof (induction n arbitrary: k c)
  case 0
  then show ?case
    by (auto simp: finish_copy_loop.simps mark_desynchronized_def)
next
  case (Suc n)
  show ?case
  proof (cases rule: read_cases [of c])
    case (failed e c1)
    with Suc.prems show ?thesis
      by (auto simp: finish_copy_loop.simps [of "Suc n"] read_or_desync mark_desynchronized_def)
  next
    case (ready s c1)
    with Suc.prems show ?thesis
      by (auto simp: finish_copy_loop.simps [of "Suc n"] read_or_desync reached_ready_now)
  next
    case (error x c1)
    with Suc.prems have "server_error x c1 = (r, c')"
      by (simp add: finish_copy_loop.simps [of "Suc n"] read_or_desync)
    from server_error_reached [OF this] Suc.prems(2) error show ?thesis
      by (blast intro: reached_ready_step)
  next
    case (other m c1)
    then have "\<exists>k'. finish_copy_loop n k' c1 = (r, c')"
      using Suc.prems(1) by (cases m) (auto simp: finish_copy_loop.simps [of "Suc n"] read_or_desync)
    with Suc.IH Suc.prems(2) other(1) show ?thesis
      by (blast intro: reached_ready_step)
  qed
qed

lemma cancel_loop_reached:
  "cancel_copy_loop n c = (r, c') \<Longrightarrow> \<not> desynchronized c \<Longrightarrow>
     (\<not> desynchronized c' \<longleftrightarrow> r = Inr ()) \<and> (r = Inr () \<longrightarrow> reached_ready c c')"
proof (induction n arbitrary: c)
  case 0
  then show ?case
    by (auto simp: cancel_copy_loop.simps mark_desynchronized_def)
next
  case (Suc n)
  have step: ?case if "read_message c = (Inr m, c1)" "not_ready m" for m c1
  proof -
    have "cancel_copy_loop n c1 = (r, c')"
      using Suc.prems(1) that by (cases m) (auto simp: cancel_copy_loop.simps [of "Suc n"] read_or_desync)
    with Suc.IH [of c1] Suc.prems(2) read_message_frame [OF that(1)] that(1) show ?case
      by (auto intro: reached_ready_step)
  qed
  show ?case
  proof (cases rule: read_cases [of c])
    case (failed e c1)
    with Suc.prems show ?thesis
      by (auto simp: cancel_copy_loop.simps [of "Suc n"] read_or_desync mark_desynchronized_def)
  next
    case (ready s c1)
    with Suc.prems read_message_frame [OF ready] show ?thesis
      by (auto simp: cancel_copy_loop.simps [of "Suc n"] read_or_desync reached_ready_now)
  qed (use step in auto)
qed

end
