(* ===== verification/Connection_Properties.thy ===== *)
theory Connection_Properties
  imports Connection_Laws
begin

text \<open>
  What the connection promises: every request gets its own answer, on every cut of the stream; a
  connection that lost its place is never used again; the ends of a COPY; start-up. Two of the
  properties show where the code does less than it means to.
\<close>

section \<open>A connection for the witnesses\<close>

text \<open>A fresh connection whose server will send the given bytes, cut into two reads.\<close>

definition demo_connection :: "bytes \<Rightarrow> RawConnection" where
  "demo_connection bs = RawConnection_new \<lparr>incoming = [RdData (take 3 bs), RdData (drop 3 bs)], sent = [], outcomes = []\<rparr>"

lemma demo_connection_in_sync:
  "length bs > 3 \<Longrightarrow> in_sync (demo_connection bs) \<and> unread (demo_connection bs) = bs"
  by (cases bs) (simp_all add: demo_connection_def RawConnection_new_def in_sync_def is_healthy_def quiet_def unread_def)

lemma length_server_encode: "length (server_encode m) \<ge> 5"
  by (simp add: server_encode_def)

text \<open>A session: queries run one after the other on one connection.\<close>

fun run_queries :: "string list \<Rightarrow> RawConnection \<Rightarrow> ((Error + Message list) list \<times> RawConnection) option" where
  "run_queries [] c = Some ([], c)"
| "run_queries (q # qs) c =
     (case simple_query q c of
        None \<Rightarrow> None
      | Some (r, c') \<Rightarrow> map_option (\<lambda>(rs, d). (r # rs, d)) (run_queries qs c'))"

section \<open>Requests\<close>

text \<open>A simple query gets its answer. On a connection in step with its server, whatever way the
  network cuts the answer into reads, \<open>simple_query\<close> sends exactly the \<open>Query\<close> message and returns
  exactly the messages up to and including \<open>ReadyForQuery\<close>; or, when the server reported an
  error, the error of its first \<open>ErrorResponse\<close>, with everything up to \<open>ReadyForQuery\<close> drained.
  In both cases the connection is in step again: what follows on the wire is untouched.\<close>

theorem simple_query_exchange:
  assumes "in_sync c" "answers ms" "unread c = wire (ms @ [ReadyForQuery t]) @ rest" "length q + 5 < 2 ^ 31"
  shows "\<exists>c'. simple_query q c = Some (answer ms t, c') \<and> in_sync c' \<and> unread c' = rest \<and>
    sent (conn_stream c') = sent (conn_stream c) @ query_frame q"
  using assms by (rule simple_query_answer)

lemma demo_answers: "answers [CommandComplete (as_bytes ''SELECT 1'')]"
  by (simp add: answers_def sendable_def nul_free_bytes_def as_bytes_def byte_of_def POST_ERROR_DRAIN_CAP_def)

theorem simple_query_exchange_witness:
  "\<exists>c'. simple_query ''SELECT 1''
      (demo_connection (wire ([CommandComplete (as_bytes ''SELECT 1'')] @ [ReadyForQuery 73]) @ [9]))
    = Some (Inr [CommandComplete (as_bytes ''SELECT 1''), ReadyForQuery 73], c') \<and> unread c' = [9]"
proof -
  let ?bs = "wire ([CommandComplete (as_bytes ''SELECT 1'')] @ [ReadyForQuery 73]) @ [9]"
  have "length ?bs > 3"
    using length_server_encode [of "CommandComplete (as_bytes ''SELECT 1'')"] by simp
  note demo = demo_connection_in_sync [OF this]
  from simple_query_exchange [OF demo [THEN conjunct1] demo_answers demo [THEN conjunct2], of "''SELECT 1''"]
  show ?thesis
    by (auto simp: answer_def)
qed

text \<open>C1. A session is the sequence of its exchanges. For any list of queries, when the server
  answers them one after the other on the wire, each query of the session returns its own answer,
  errors included: an error in one exchange never shifts the answer of another.\<close>

theorem session_answers_in_order:
  assumes "in_sync c" "list_all (\<lambda>(q, ms, t). answers ms \<and> length q + 5 < 2 ^ 31) xs"
    and "unread c = concat (map (\<lambda>(q, ms, t). wire (ms @ [ReadyForQuery t])) xs) @ rest"
  shows "\<exists>c'. run_queries (map fst xs) c = Some (map (\<lambda>(q, ms, t). answer ms t) xs, c') \<and>
    in_sync c' \<and> unread c' = rest"
  using assms
proof (induction xs arbitrary: c)
  case (Cons x xs)
  obtain q ms t where x: "x = (q, ms, t)"
    by (cases x)
  let ?rest = "concat (map (\<lambda>(q, ms, t). wire (ms @ [ReadyForQuery t])) xs) @ rest"
  obtain c1 where "simple_query q c = Some (answer ms t, c1)" "in_sync c1" "unread c1 = ?rest"
    using simple_query_answer [of c ms t ?rest q] Cons.prems x by auto
  moreover from Cons.IH [OF this(2) _ this(3)] Cons.prems(2) x obtain c2 where
    "run_queries (map fst xs) c1 = Some (map (\<lambda>(q, ms, t). answer ms t) xs, c2)" "in_sync c2" "unread c2 = rest"
    by auto
  ultimately show ?case
    by (simp add: x)
qed simp

theorem session_answers_in_order_witness:
  "\<exists>c'. run_queries [''A'', ''B''] (demo_connection
      (wire [ErrorResponse [], ReadyForQuery 69, ReadyForQuery 73] @ [])) =
    Some ([Inl (parse_error_response []), Inr [ReadyForQuery 73]], c') \<and> unread c' = []"
proof -
  let ?xs = "[(''A'', [ErrorResponse []], 69), (''B'', [], 73)]"
  let ?bs = "wire [ErrorResponse [], ReadyForQuery 69, ReadyForQuery 73] @ []"
  have "length ?bs > 3"
    using length_server_encode [of "ErrorResponse []"] by simp
  note demo = demo_connection_in_sync [OF this]
  have "list_all (\<lambda>(q, ms, t). answers ms \<and> length q + 5 < 2 ^ 31) ?xs"
    by (simp add: answers_def sendable_def POST_ERROR_DRAIN_CAP_def)
  moreover have "unread (demo_connection ?bs) = concat (map (\<lambda>(q, ms, t). wire (ms @ [ReadyForQuery t])) ?xs) @ []"
    using demo by simp
  ultimately show ?thesis
    using session_answers_in_order [of "demo_connection ?bs" ?xs "[]"] demo by (auto simp: answer_def)
qed

text \<open>The extended query does the same: \<open>query_binary\<close> sends exactly the five messages \<open>Parse\<close>,
  \<open>Bind\<close> (all results in HyperBinary), \<open>Describe\<close>, \<open>Execute\<close> and \<open>Sync\<close>, and returns the answer
  of the server as \<open>simple_query\<close> does.\<close>

theorem query_binary_exchange:
  assumes "in_sync c" "answers ms" "unread c = wire (ms @ [ReadyForQuery t]) @ rest" "length q + 8 < 2 ^ 31"
  shows "\<exists>c'. query_binary q c = Some (answer ms t, c') \<and> in_sync c' \<and> unread c' = rest \<and>
    sent (conn_stream c') = sent (conn_stream c) @ binary_query_frames q"
proof -
  have c: "is_healthy c" "write_buf c = []"
    using assms(1) by (simp_all add: in_sync_def)
  obtain c1 where c1: "flush (c\<lparr>write_buf := binary_query_frames q\<rparr>) = (Inr (), c1)" "in_sync c1"
      "unread c1 = wire (ms @ [ReadyForQuery t]) @ rest"
      "sent (conn_stream c1) = sent (conn_stream c) @ binary_query_frames q"
    using flush_request [OF assms(1)] assms(3) by metis
  from collect_answer [OF assms(2) c1(2,3)] c1(4) obtain c2 where
    "collect_messages [] c1 = (answer ms t, c2)" "in_sync c2" "unread c2 = rest"
    "sent (conn_stream c2) = sent (conn_stream c) @ binary_query_frames q"
    by metis
  with c c1(1) show ?thesis
    by (simp add: emit_binary_query(2) [OF assms(4)])
qed

theorem query_binary_exchange_witness:
  "\<exists>c'. query_binary ''SELECT 1''
      (demo_connection (wire ([CommandComplete (as_bytes ''SELECT 1'')] @ [ReadyForQuery 73]) @ [])) =
    Some (Inr [CommandComplete (as_bytes ''SELECT 1''), ReadyForQuery 73], c') \<and>
    sent (conn_stream c') = binary_query_frames ''SELECT 1''"
proof -
  let ?bs = "wire ([CommandComplete (as_bytes ''SELECT 1'')] @ [ReadyForQuery 73]) @ []"
  have "length ?bs > 3"
    using length_server_encode [of "CommandComplete (as_bytes ''SELECT 1'')"] by simp
  note demo = demo_connection_in_sync [OF this]
  have "sent (conn_stream (demo_connection ?bs)) = []"
    by (simp add: demo_connection_def RawConnection_new_def)
  with query_binary_exchange [OF demo [THEN conjunct1] demo_answers demo [THEN conjunct2], of "''SELECT 1''"]
  show ?thesis
    by (auto simp: answer_def)
qed

text \<open>COPY OUT returns the data of the copy: on a connection in step, \<open>copy_out\<close> returns the
  contents of the \<open>CopyData\<close> messages between \<open>CopyOutResponse\<close> and \<open>CopyDone\<close>, in order and
  nothing else, for every answer without an error; with an error it returns that error, drained.\<close>

theorem copy_out_exchange:
  assumes "in_sync c" "answers ms" "unread c = wire (ms @ [ReadyForQuery t]) @ rest" "length q + 5 < 2 ^ 31"
  shows "\<exists>c'. copy_out q c = Some (case first_error ms of
        None \<Rightarrow> Inr (fst (foldl copy_out_step ([], False) ms))
      | Some b \<Rightarrow> Inl (parse_error_response b), c') \<and> in_sync c' \<and> unread c' = rest"
proof -
  have c: "is_healthy c" "write_buf c = []"
    using assms(1) by (simp_all add: in_sync_def)
  obtain c1 where c1: "flush (c\<lparr>write_buf := query_frame q\<rparr>) = (Inr (), c1)" "in_sync c1"
      "unread c1 = wire (ms @ [ReadyForQuery t]) @ rest"
    using flush_request [OF assms(1)] assms(3) by metis
  then have "quiet c1"
    by (simp add: in_sync_def)
  from copy_out.loop_stream [OF assms(2) this c1(3), of "([], False)"] obtain c2 where
    "copy_out_loop [] False c1 = (case first_error ms of
        None \<Rightarrow> Inr (fst (foldl copy_out_step ([], False) ms))
      | Some b \<Rightarrow> Inl (parse_error_response b), c2)" "advanced c1 rest c2"
    by auto
  with advanced_in_sync [OF c1(2)] c c1(1) show ?thesis
    by (simp add: copy_out_def guard_healthy emit_query [OF assms(4)])
qed

theorem copy_out_exchange_witness:
  "\<exists>c'. copy_out ''COPY'' (demo_connection (wire ([CopyOutResponse \<lparr>cr_format = 0, cr_len = 0, cr_storage = []\<rparr>,
      Message.CopyData [1], Message.CopyData [2, 3], Message.CopyDone] @ [ReadyForQuery 73]) @ [])) =
    Some (Inr [1, 2, 3], c') \<and> unread c' = []"
proof -
  let ?ms = "[CopyOutResponse \<lparr>cr_format = 0, cr_len = 0, cr_storage = []\<rparr>,
      Message.CopyData [1], Message.CopyData [2, 3], Message.CopyDone]"
  let ?bs = "wire (?ms @ [ReadyForQuery 73]) @ []"
  have "length ?bs > 3"
    using length_server_encode [of "hd ?ms"] by simp
  note demo = demo_connection_in_sync [OF this]
  have "answers ?ms"
    by (simp add: answers_def sendable_def POST_ERROR_DRAIN_CAP_def)
  from copy_out_exchange [OF demo [THEN conjunct1] this demo [THEN conjunct2], of "''COPY''"] show ?thesis
    by auto
qed

section \<open>Losing step\<close>



text \<open>A drain tells the truth: on a healthy connection the bounded drain returns \<open>true\<close> exactly
  when it leaves the connection healthy, and then it has read up to and including a
  \<open>ReadyForQuery\<close>. The drain of an abandoned stream sets the flag in the same way.\<close>

theorem drain_is_truthful:
  assumes "is_healthy c"
  shows "(case drain_until_ready_bounded n c of (b, c') \<Rightarrow>
      (b \<longleftrightarrow> is_healthy c') \<and> (is_healthy c' \<longrightarrow> reached_ready c c')) \<and>
    (case drain_abandoned_stream k l c of (b, c') \<Rightarrow> b \<longleftrightarrow> is_healthy c')"
proof -
  obtain b c' where d: "drain_until_ready_bounded n c = (b, c')"
    by (cases "drain_until_ready_bounded n c")
  obtain b2 c2 where d2: "drain_abandoned_stream k l c = (b2, c2)"
    by (cases "drain_abandoned_stream k l c")
  show ?thesis
    using assms drain_flag [OF d] drain_reached [of n c c'] d drain_abandoned_flag d2
    by (auto simp: is_healthy_def drain_abandoned_stream_def)
qed

theorem drain_is_truthful_witness:
  "case drain_until_ready_bounded 0 (demo_connection []) of (b, c') \<Rightarrow> b \<longleftrightarrow> is_healthy c'"
proof -
  have "is_healthy (demo_connection [])"
    by (simp add: demo_connection_def RawConnection_new_def is_healthy_def)
  from drain_is_truthful [OF this, of 0] show ?thesis
    by (auto split: prod.splits)
qed

lemma flush_or_desync_cases:
  assumes "flush_or_desync c = (r, c')" "\<not> desynchronized c"
  shows "(\<exists>e. r = Inl e) \<and> desynchronized c' \<or> r = Inr () \<and> \<not> desynchronized c' \<and>
    read_buf c' = read_buf c \<and> incoming (conn_stream c') = incoming (conn_stream c)"
proof -
  obtain x c1 where x: "flush c = (x, c1)"
    by (cases "flush c")
  have "read_buf c1 = read_buf c \<and> incoming (conn_stream c1) = incoming (conn_stream c)"
    using x by (auto simp: flush_def stream_write_all_def stream_flush_def
        split: if_splits list.splits write_event.splits)
  with assms x flush_flag [OF x] show ?thesis
    by (cases x) (auto simp: flush_or_desync_def mark_desynchronized_def)
qed

text \<open>Two connections with the same input still to read.\<close>

definition same_input :: "RawConnection \<Rightarrow> RawConnection \<Rightarrow> bool" where
  "same_input c c' \<longleftrightarrow> read_buf c' = read_buf c \<and> incoming (conn_stream c') = incoming (conn_stream c)"

lemma start_copy_end:
  assumes "is_healthy c"
    and "andthen (guard c) (\<lambda>_ c. andthen (Some (flush_or_desync c)) (\<lambda>_ c. andthen (emit w c) (\<lambda>_ c.
      andthen (Some (flush_or_desync c)) (\<lambda>_ c. Some (loop c))))) = Some (r, c')"
  shows "(\<exists>e. r = Inl e) \<and> desynchronized c' \<or> (\<exists>c1. same_input c c1 \<and> \<not> desynchronized c1 \<and> loop c1 = (r, c'))"
proof -
  have healthy: "\<not> desynchronized c"
    using assms(1) by (simp add: is_healthy_def)
  obtain x1 c1 where f1: "flush_or_desync c = (x1, c1)"
    by (cases "flush_or_desync c")
  note cases1 = flush_or_desync_cases [OF f1 healthy]
  show ?thesis
  proof (cases x1)
    case (Inl e)
    with assms(2) f1 cases1 show ?thesis
      by (auto simp: guard_healthy [OF assms(1)])
  next
    case (Inr u)
    with assms(2) f1 obtain b where b: "w (write_buf c1) = Some b"
      by (cases "w (write_buf c1)") (auto simp: guard_healthy [OF assms(1)] emit_def)
    obtain x2 c2 where f2: "flush_or_desync (c1\<lparr>write_buf := b\<rparr>) = (x2, c2)"
      by (cases "flush_or_desync (c1\<lparr>write_buf := b\<rparr>)")
    have "\<not> desynchronized (c1\<lparr>write_buf := b\<rparr>)"
      using cases1 Inr by simp
    note cases2 = flush_or_desync_cases [OF f2 this]
    show ?thesis
    proof (cases x2)
      case (Inl e)
      with assms(2) f1 f2 Inr b cases2 show ?thesis
        by (auto simp: guard_healthy [OF assms(1)] emit_def)
    next
      case inr2: (Inr v)
      then have "loop c2 = (r, c')"
        using assms(2) f1 f2 Inr b by (auto simp: guard_healthy [OF assms(1)] emit_def)
      with cases1 cases2 Inr inr2 show ?thesis
        by (auto simp: same_input_def)
    qed
  qed
qed

lemma finish_loop_marked:
  "finish_copy_loop n k c = (Inr x, c') \<Longrightarrow> \<not> desynchronized c \<Longrightarrow> \<not> desynchronized c'"
proof (induction n arbitrary: k c)
  case 0
  then show ?case
    by (simp add: finish_copy_loop.simps)
next
  case (Suc n)
  show ?case
  proof (cases rule: read_cases [of c])
    case (failed e c1)
    with Suc.prems show ?thesis
      by (simp add: finish_copy_loop.simps [of "Suc n"] read_or_desync)
  next
    case (ready s c1)
    with Suc.prems read_message_frame [OF ready] show ?thesis
      by (simp add: finish_copy_loop.simps [of "Suc n"] read_or_desync)
  next
    case (error b c1)
    with Suc.prems server_error_reached [of b c1 "Inr x" c'] show ?thesis
      by (simp add: finish_copy_loop.simps [of "Suc n"] read_or_desync)
  next
    case (other m c1)
    then have "\<exists>k'. finish_copy_loop n k' c1 = (Inr x, c')"
      using Suc.prems(1) by (cases m) (auto simp: finish_copy_loop.simps [of "Suc n"] read_or_desync)
    with Suc.IH [of _ c1] Suc.prems(2) read_message_frame [OF other(1)] show ?thesis
      by auto
  qed
qed

text \<open>C4. After \<open>finish_copy\<close> or \<open>cancel_copy\<close> on a healthy connection, whatever the stream did
  (failed writes, failed or short reads, a server that never answers), the connection is either marked
  or has read up to and including a \<open>ReadyForQuery\<close>. \<open>cancel_copy\<close> succeeds exactly when the connection
  stays healthy, and \<open>finish_copy\<close> never succeeds on a connection it marked.\<close>

theorem copy_end_in_step:
  assumes "is_healthy c"
  shows "(case finish_copy c of
      Some (r, c') \<Rightarrow> (is_healthy c' \<longrightarrow> (\<exists>c1. same_input c c1 \<and> reached_ready c1 c')) \<and>
        (\<forall>n. r = Inr n \<longrightarrow> is_healthy c')
    | None \<Rightarrow> True) \<and>
   (case cancel_copy reason c of
      Some (r, c') \<Rightarrow> (is_healthy c' \<longleftrightarrow> r = Inr ()) \<and>
        (r = Inr () \<longrightarrow> (\<exists>c1. same_input c c1 \<and> reached_ready c1 c'))
    | None \<Rightarrow> True)"
proof
  show "case finish_copy c of
      Some (r, c') \<Rightarrow> (is_healthy c' \<longrightarrow> (\<exists>c1. same_input c c1 \<and> reached_ready c1 c')) \<and>
        (\<forall>n. r = Inr n \<longrightarrow> is_healthy c')
    | None \<Rightarrow> True"
  proof (cases "finish_copy c")
    case (Some rc)
    obtain r c' where rc: "rc = (r, c')"
      by (cases rc)
    from start_copy_end [OF assms Some [unfolded finish_copy_def rc]] show ?thesis
      using Some rc finish_loop_reached finish_loop_marked by (fastforce simp: is_healthy_def)
  qed simp
next
  show "case cancel_copy reason c of
      Some (r, c') \<Rightarrow> (is_healthy c' \<longleftrightarrow> r = Inr ()) \<and>
        (r = Inr () \<longrightarrow> (\<exists>c1. same_input c c1 \<and> reached_ready c1 c'))
    | None \<Rightarrow> True"
  proof (cases "cancel_copy reason c")
    case (Some rc)
    obtain r c' where rc: "rc = (r, c')"
      by (cases rc)
    from start_copy_end [OF assms Some [unfolded cancel_copy_def rc]] show ?thesis
      using Some rc cancel_loop_reached by (fastforce simp: is_healthy_def)
  qed simp
qed

theorem copy_end_in_step_witness:
  "case cancel_copy ''stop'' (demo_connection []) of
      Some (r, c') \<Rightarrow> is_healthy c' \<longleftrightarrow> r = Inr ()
    | None \<Rightarrow> True"
proof -
  have "is_healthy (demo_connection [])"
    by (simp add: demo_connection_def RawConnection_new_def is_healthy_def)
  from copy_end_in_step [OF this, of "''stop''"] show ?thesis
    by (auto split: option.splits prod.splits)
qed

section \<open>COPY data\<close>

text \<open>The direct path for COPY data is equivalent to the buffered one: \<open>send_copy_data_direct\<close> puts
  on the wire exactly the bytes that \<open>send_copy_data\<close> followed by \<open>flush\<close> puts there, with data that
  was buffered earlier kept in front, and both leave an empty buffer.\<close>

theorem direct_copy_equals_buffered:
  assumes "outcomes (conn_stream c) = []" "length data + 4 < 2 ^ 31"
  shows "\<exists>c1 c2. send_copy_data_direct data c = Some (Inr (), c1) \<and>
    andthen (send_copy_data data c) (\<lambda>_ c. Some (flush c)) = Some (Inr (), c2) \<and>
    sent (conn_stream c1) = sent (conn_stream c2) \<and>
    sent (conn_stream c2) = sent (conn_stream c) @ write_buf c @ frame CHR ''d'' data \<and>
    write_buf c1 = [] \<and> write_buf c2 = []"
proof -
  have put: "\<exists>d. stream_put bs c = (Inr (), d) \<and> sent (conn_stream d) = sent (conn_stream c) @ bs \<and>
      outcomes (conn_stream d) = [] \<and> write_buf d = write_buf c"
    if "outcomes (conn_stream c) = []" for bs c
    using that by (auto simp: stream_put_def stream_write_all_def)
  obtain c0 where c0: "(if write_buf c \<noteq> [] then
         (case stream_put (write_buf c) c of
            (Inl e, c') \<Rightarrow> (Inl e, c')
          | (Inr _, c') \<Rightarrow> (Inr (), c'\<lparr>write_buf := []\<rparr>))
       else (Inr (), c)) = (Inr (), c0)" "outcomes (conn_stream c0) = []" "write_buf c0 = []"
      "sent (conn_stream c0) = sent (conn_stream c) @ write_buf c"
    using put [OF assms(1), of "write_buf c"] assms(1) by (cases "write_buf c = []") auto
  let ?h = "byte_of CHR ''d'' # to_be_bytes (word_of_nat (4 + length data) :: u32)"
  obtain d1 where d1: "stream_put ?h c0 = (Inr (), d1)" "sent (conn_stream d1) = sent (conn_stream c0) @ ?h"
      "outcomes (conn_stream d1) = []" "write_buf d1 = write_buf c0"
    using put [OF c0(2), of ?h] by blast
  obtain d2 where d2: "stream_put data d1 = (Inr (), d2)" "sent (conn_stream d2) = sent (conn_stream d1) @ data"
      "write_buf d2 = write_buf d1"
    using put [OF d1(3), of data] by blast
  have direct: "send_copy_data_direct data c = Some (Inr (), d2)"
    unfolding send_copy_data_direct_def c0(1) andthen_simps d1(1) d2(1) using assms(2) by simp
  have "send_copy_data data c = Some (Inr (), c\<lparr>write_buf := write_buf c @ frame CHR ''d'' data\<rparr>)"
    using assms(2) unfolding send_copy_data_def by (intro emit_Some) (simp add: copy_data_framed framed_def)
  moreover obtain c2 where "flush (c\<lparr>write_buf := write_buf c @ frame CHR ''d'' data\<rparr>) = (Inr (), c2)" "write_buf c2 = []"
      "sent (conn_stream c2) = sent (conn_stream c) @ write_buf c @ frame CHR ''d'' data"
    using flush_ok [of "c\<lparr>write_buf := write_buf c @ frame CHR ''d'' data\<rparr>"] assms(1) by auto
  moreover have "?h @ data = frame CHR ''d'' data"
    by (simp add: frame_def put_i32_nat [of "4 + length data", simplified])
  ultimately show ?thesis
    using direct d1 d2 c0 by auto
qed

theorem direct_copy_equals_buffered_witness:
  "\<exists>c1 c2. send_copy_data_direct [1, 2, 3] (demo_connection []) = Some (Inr (), c1) \<and>
    andthen (send_copy_data [1, 2, 3] (demo_connection [])) (\<lambda>_ c. Some (flush c)) = Some (Inr (), c2) \<and>
    sent (conn_stream c1) = sent (conn_stream c2)"
proof -
  have "outcomes (conn_stream (demo_connection [])) = []"
    by (simp add: demo_connection_def RawConnection_new_def)
  from direct_copy_equals_buffered [OF this, of "[1, 2, 3]"] show ?thesis
    by auto
qed

section \<open>Where the code falls short\<close>

lemma wire_len_zeros: "n \<ge> 5 \<Longrightarrow> wire_len (replicate n 0) = 0"
  by (simp add: wire_len_def from_be_bytes_def from_le_bytes_def numeral_eq_Suc)

lemma read_zeros:
  assumes "read_buf c = replicate n 0" "n \<ge> 5"
  shows "read_message c = (Inl (IoError ''invalid message length: parsing u32''), c)"
  using assms wire_len_zeros [of n]
  by (subst read_message.simps) (simp add: Message_parse_cases)

lemma simple_query_zeros:
  assumes "read_buf c = replicate n 0" "n \<ge> 5" "is_healthy c" "write_buf c = []" "outcomes (conn_stream c) = []"
    and "length q + 5 < 2 ^ 31"
  shows "\<exists>c'. simple_query q c = Some (Inl (IoError ''invalid message length: parsing u32''), c') \<and>
    read_buf c' = read_buf c \<and> is_healthy c' \<and> write_buf c' = [] \<and> outcomes (conn_stream c') = []"
proof -
  obtain c1 where c1: "flush (c\<lparr>write_buf := query_frame q\<rparr>) = (Inr (), c1)" "write_buf c1 = []"
      "outcomes (conn_stream c1) = []" "is_healthy c1" "read_buf c1 = read_buf c"
    using assms by (auto simp: flush_def stream_write_all_def stream_flush_def is_healthy_def query_frame_def frame_def)
  then have "collect_messages [] c1 = (Inl (IoError ''invalid message length: parsing u32''), c1)"
    using read_zeros [of c1 n] assms by (simp add: collect_messages.simps)
  with c1 assms show ?thesis
    by (simp add: simple_query_def guard_healthy emit_query)
qed



text \<open>C37. Start-up accepts a server whose signature it never checked: in the middle of a SCRAM exchange,
  with the client's proof already sent and the server's signature still owed, a server that sends
  \<open>AuthenticationOk\<close> and \<open>ReadyForQuery\<close> instead of \<open>AuthenticationSASLFinal\<close> is accepted.\<close>

theorem startup_skips_server_verification:
  assumes "quiet c" "unread c = wire [AuthenticationOk, ReadyForQuery t] @ rest"
  shows "\<exists>c'. startup_loop k rnd params password (n, Some unverified) c = Some (Inr (), c') \<and>
    unread c' = rest \<and> desynchronized c' = desynchronized c"
proof -
  have "sendable AuthenticationOk"
    by (simp add: sendable_def)
  with assms obtain c1 where c1: "read_message c = (Inr AuthenticationOk, c1)" "advanced c (server_encode (ReadyForQuery t) @ rest) c1"
    using read_advances [of c AuthenticationOk "server_encode (ReadyForQuery t) @ rest"] by auto
  then obtain c2 where c2: "read_message c1 = (Inr (ReadyForQuery t), c2)" "advanced c1 rest c2"
    using read_advances [of c1 "ReadyForQuery t" rest] by (auto simp: advanced_def)
  have "startup_loop k rnd params password (n, Some unverified) c = Some (Inr (), c2)"
    using c1(1) c2(1) by (simp add: startup_loop.simps [of _ _ _ _ _ c] startup_loop.simps [of _ _ _ _ _ c1] startup_step_def)
  with c1(2) c2(2) show ?thesis
    by (auto simp: advanced_def)
qed

theorem startup_skips_server_verification_witness:
  "\<exists>c'. startup_loop demo_crypto (\<lambda>_. [1]) [] (Some ''pw'')
      (1, Some (fst (scram_client_first demo_crypto [1] ''pw'')))
      (demo_connection (wire [AuthenticationOk, ReadyForQuery 73] @ [])) = Some (Inr (), c') \<and>
    unread c' = []"
proof -
  let ?bs = "wire [AuthenticationOk, ReadyForQuery 73] @ []"
  have "length ?bs > 3"
    using length_server_encode [of AuthenticationOk] by simp
  note demo = demo_connection_in_sync [OF this]
  then have "quiet (demo_connection ?bs)"
    by (simp add: in_sync_def)
  from startup_skips_server_verification [OF this demo [THEN conjunct2]] show ?thesis
    by blast
qed

end
