(* ===== verification/Prepared_Statements.thy ===== *)
theory Prepared_Statements
  imports Connection_Properties
begin

text \<open>
  Prepared statements, \<open>hyperdb-api-core/src/client/prepare.rs\<close>: the parameter encodings, the names of
  statements, and the exchanges that prepare, execute and close a statement on a connection behind a
  mutex.

  A mutex guards the connection. A call that finds it held waits (\<open>Blocks\<close>: the holder is a stream or
  a writer of the same client that is still open); a call that panics while it holds the guard
  poisons it, and what is inside is never seen again.
\<close>

section \<open>The connection behind its mutex\<close>

record Mutex =
  held :: bool
  poisoned :: bool
  guarded :: RawConnection

datatype 'a reply = Blocks | Panics | Returns "Error + 'a"

definition poison_error :: Error where
  "poison_error = connection_error ''connection mutex poisoned''"

text \<open>\<open>let mut conn = connection.lock()?; ...\<close>: the rest of the function runs on the guard, which is
  dropped at its end.\<close>

definition with_lock :: "(RawConnection \<Rightarrow> 'a outcome) \<Rightarrow> Mutex \<Rightarrow> 'a reply \<times> Mutex" where
  "with_lock body m =
     (if held m then (Blocks, m)
      else if poisoned m then (Returns (Inl poison_error), m)
      else
        (case body (guarded m) of
           None \<Rightarrow> (Panics, m\<lparr>poisoned := True\<rparr>)
         | Some (r, c) \<Rightarrow> (Returns r, m\<lparr>guarded := c\<rparr>)))"

section \<open>\<open>SqlParam\<close>\<close>

definition encode_i16 :: "i16 \<Rightarrow> bytes" where "encode_i16 x = to_le_bytes x"
definition encode_i32 :: "i32 \<Rightarrow> bytes" where "encode_i32 x = to_le_bytes x"
definition encode_i64 :: "i64 \<Rightarrow> bytes" where "encode_i64 x = to_le_bytes x"
definition encode_f32 :: "f32 \<Rightarrow> bytes" where "encode_f32 x = to_le_bytes x"
definition encode_f64 :: "f64 \<Rightarrow> bytes" where "encode_f64 x = to_le_bytes x"
definition encode_bool :: "bool \<Rightarrow> bytes" where "encode_bool b = [if b then 1 else 0]"
definition encode_str :: "string \<Rightarrow> bytes" where "encode_str s = as_bytes s"
definition encode_bytes :: "bytes \<Rightarrow> bytes" where "encode_bytes b = b"

section \<open>Statements\<close>

text \<open>\<open>STATEMENT_COUNTER.fetch_add(1)\<close>, which wraps, and the name made of its old value.\<close>

definition generate_statement_name :: "u64 \<Rightarrow> string \<times> u64" where
  "generate_statement_name counter = (''__hyper_stmt_'' @ show_nat (unat counter), counter + 1)"

record PreparedStatement =
  stmt_name :: string
  stmt_query :: string
  stmt_param_types :: "u32 list"
  stmt_columns :: "Column list"

definition param_count :: "PreparedStatement \<Rightarrow> nat" where
  "param_count s = length (stmt_param_types s)"

definition stmt_column_count :: "PreparedStatement \<Rightarrow> nat" where
  "stmt_column_count s = length (stmt_columns s)"

text \<open>The loops over \<open>desc.parameters()\<close> and \<open>desc.fields()\<close>, which drop the items that are errors.\<close>

definition parameters_ok :: "bytes \<Rightarrow> u16 \<Rightarrow> u32 list" where
  "parameters_ok buf n =
     the (collect_ok (unat n + 1) Parameters_next \<lparr>param_buf = buf, param_remaining = n\<rparr>)"

definition fields_ok :: "bytes \<Rightarrow> u16 \<Rightarrow> Field list" where
  "fields_ok buf n = the (collect_ok (unat n + 1) Fields_next \<lparr>fields_buf = buf, fields_remaining = n\<rparr>)"

definition column_of_field :: "Field \<Rightarrow> Column" where
  "column_of_field f =
     \<lparr>col_name = field_name f, col_type_oid = field_type_oid f, col_type_modifier = field_type_modifier f,
      col_format = ColumnFormat_from_code (field_format f)\<rparr>"

definition description_columns :: "bytes \<Rightarrow> u16 \<Rightarrow> Column list" where
  "description_columns buf n = map column_of_field (fields_ok buf n)"

subsection \<open>Prepare\<close>

function prepare_loop ::
  "u32 list \<times> Column list \<Rightarrow> RawConnection \<Rightarrow> (Error + u32 list \<times> Column list) \<times> RawConnection" where
  "prepare_loop acc c =
     (case read_message c of
        (Inl e, c') \<Rightarrow> (Inl e, c')
      | (Inr (ParameterDescription d n), c') \<Rightarrow> prepare_loop (fst acc @ parameters_ok d n, snd acc) c'
      | (Inr (RowDescription d n), c') \<Rightarrow> prepare_loop (fst acc, snd acc @ description_columns d n) c'
      | (Inr (ReadyForQuery _), c') \<Rightarrow> (Inr acc, c')
      | (Inr (ErrorResponse body), c') \<Rightarrow> server_error body c'
      | (Inr _, c') \<Rightarrow> prepare_loop acc c')"
  by pat_completeness auto
termination
  by (relation "measure (\<lambda>(_, c). pending c)") (auto dest: read_message_pending [OF sym])

declare prepare_loop.simps [simp del]

text \<open>The body of \<open>prepare\<close> once the lock is held.\<close>

definition prepare_locked :: "string \<Rightarrow> string \<Rightarrow> u32 list \<Rightarrow> RawConnection \<Rightarrow> PreparedStatement outcome" where
  "prepare_locked name q param_types c =
     andthen (emit (parse name q param_types) c) (\<lambda>_ c.
     andthen (emit (describe (byte_of CHR ''S'') name) c) (\<lambda>_ c.
     andthen (emit (\<lambda>b. Some (sync b)) c) (\<lambda>_ c.
     andthen (Some (flush c)) (\<lambda>_ c.
     andthen (Some (prepare_loop ([], []) c)) (\<lambda>(parsed_params, parsed_columns) c.
       Some (Inr \<lparr>stmt_name = name, stmt_query = q, stmt_param_types = parsed_params,
                  stmt_columns = parsed_columns\<rparr>, c))))))"

definition prepare ::
  "string \<Rightarrow> u32 list \<Rightarrow> u64 \<Rightarrow> Mutex \<Rightarrow> PreparedStatement reply \<times> u64 \<times> Mutex" where
  "prepare q param_types counter m =
     (case generate_statement_name counter of
        (name, counter') \<Rightarrow>
          (case with_lock (prepare_locked name q param_types) m of (r, m') \<Rightarrow> (r, counter', m')))"

subsection \<open>Execute\<close>

function execute_loop ::
  "Column list \<Rightarrow> Row list \<Rightarrow> RawConnection \<Rightarrow> (Error + Row list) \<times> RawConnection" where
  "execute_loop columns rows c =
     (case read_message c of
        (Inl e, c') \<Rightarrow> (Inl e, c')
      | (Inr (DataRow d), c') \<Rightarrow>
          (case Row_new columns d of
             Inl e \<Rightarrow> (Inl e, c')
           | Inr row \<Rightarrow> execute_loop columns (rows @ [row]) c')
      | (Inr (ReadyForQuery _), c') \<Rightarrow> (Inr rows, c')
      | (Inr (ErrorResponse body), c') \<Rightarrow> server_error body c'
      | (Inr _, c') \<Rightarrow> execute_loop columns rows c')"
  by pat_completeness auto
termination
  by (relation "measure (\<lambda>(_, _, c). pending c)") (auto dest: read_message_pending [OF sym])

declare execute_loop.simps [simp del]

definition execute_prepared_locked ::
  "PreparedStatement \<Rightarrow> bytes option list \<Rightarrow> i16 list \<Rightarrow> RawConnection \<Rightarrow> Row list outcome" where
  "execute_prepared_locked statement params param_formats c =
     andthen (emit (bind_msg '''' (stmt_name statement) param_formats params
       (replicate (length (stmt_columns statement)) 1)) c) (\<lambda>_ c.
     andthen (emit (execute '''' 0) c) (\<lambda>_ c.
     andthen (emit (\<lambda>b. Some (sync b)) c) (\<lambda>_ c.
     andthen (Some (flush c)) (\<lambda>_ c.
       Some (execute_loop (stmt_columns statement) [] c)))))"

definition execute_prepared ::
  "PreparedStatement \<Rightarrow> bytes option list \<Rightarrow> Mutex \<Rightarrow> Row list reply \<times> Mutex" where
  "execute_prepared statement params m =
     (case bind_format_codes [] (length params) of
        Inl e \<Rightarrow> (Returns (Inl e), m)
      | Inr param_formats \<Rightarrow> with_lock (execute_prepared_locked statement params param_formats) m)"

text \<open>\<open>parse_affected_rows\<close> of \<open>prepare.rs\<close>, where an unknown tag counts as zero.\<close>

definition count_at :: "nat \<Rightarrow> string list \<Rightarrow> nat option" where
  "count_at i parts = (if i < length parts then parse_unsigned (2 ^ 64 - 1) (parts ! i) else None)"

definition prepared_affected_rows :: "string \<Rightarrow> nat" where
  "prepared_affected_rows tag =
     (let parts = split_whitespace tag
      in case parts of
           [] \<Rightarrow> 0
         | verb # _ \<Rightarrow>
             if verb = ''INSERT'' then (case count_at 2 parts of Some n \<Rightarrow> n | None \<Rightarrow> 0)
             else if verb \<in> {''UPDATE'', ''DELETE'', ''SELECT'', ''COPY''} then
               (case count_at 1 parts of Some n \<Rightarrow> n | None \<Rightarrow> 0)
             else 0)"

function no_result_loop :: "nat \<Rightarrow> RawConnection \<Rightarrow> (Error + nat) \<times> RawConnection" where
  "no_result_loop affected c =
     (case read_message c of
        (Inl e, c') \<Rightarrow> (Inl e, c')
      | (Inr (CommandComplete body), c') \<Rightarrow>
          no_result_loop
            (case CommandComplete_tag body of Inl _ \<Rightarrow> affected | Inr tag \<Rightarrow> prepared_affected_rows tag) c'
      | (Inr (ReadyForQuery _), c') \<Rightarrow> (Inr affected, c')
      | (Inr (ErrorResponse body), c') \<Rightarrow> server_error body c'
      | (Inr _, c') \<Rightarrow> no_result_loop affected c')"
  by pat_completeness auto
termination
  by (relation "measure (\<lambda>(_, c). pending c)") (auto dest: read_message_pending [OF sym])

declare no_result_loop.simps [simp del]

definition no_result_locked ::
  "PreparedStatement \<Rightarrow> bytes option list \<Rightarrow> i16 list \<Rightarrow> RawConnection \<Rightarrow> nat outcome" where
  "no_result_locked statement params param_format_codes c =
     andthen (emit (bind_msg '''' (stmt_name statement) param_format_codes params []) c) (\<lambda>_ c.
     andthen (emit (execute '''' 0) c) (\<lambda>_ c.
     andthen (emit (\<lambda>b. Some (sync b)) c) (\<lambda>_ c.
     andthen (Some (flush c)) (\<lambda>_ c.
       Some (no_result_loop 0 c)))))"

definition execute_prepared_no_result_with_formats ::
  "PreparedStatement \<Rightarrow> bytes option list \<Rightarrow> ParamFormat list \<Rightarrow> Mutex \<Rightarrow> nat reply \<times> Mutex" where
  "execute_prepared_no_result_with_formats statement params param_formats m =
     (case bind_format_codes param_formats (length params) of
        Inl e \<Rightarrow> (Returns (Inl e), m)
      | Inr param_format_codes \<Rightarrow> with_lock (no_result_locked statement params param_format_codes) m)"

definition execute_prepared_no_result ::
  "PreparedStatement \<Rightarrow> bytes option list \<Rightarrow> Mutex \<Rightarrow> nat reply \<times> Mutex" where
  "execute_prepared_no_result statement params m =
     execute_prepared_no_result_with_formats statement params [] m"

subsection \<open>Close\<close>

function close_loop :: "RawConnection \<Rightarrow> (Error + unit) \<times> RawConnection" where
  "close_loop c =
     (case read_message c of
        (Inl e, c') \<Rightarrow> (Inl e, c')
      | (Inr (ReadyForQuery _), c') \<Rightarrow> (Inr (), c')
      | (Inr (ErrorResponse body), c') \<Rightarrow> server_error body c'
      | (Inr _, c') \<Rightarrow> close_loop c')"
  by pat_completeness auto
termination
  by (relation "measure pending") (auto dest: read_message_pending [OF sym])

declare close_loop.simps [simp del]

definition close_locked :: "PreparedStatement \<Rightarrow> RawConnection \<Rightarrow> unit outcome" where
  "close_locked statement c =
     andthen (emit (close (byte_of CHR ''S'') (stmt_name statement)) c) (\<lambda>_ c.
     andthen (emit (\<lambda>b. Some (sync b)) c) (\<lambda>_ c.
     andthen (Some (flush c)) (\<lambda>_ c.
       Some (close_loop c))))"

definition close_statement :: "PreparedStatement \<Rightarrow> Mutex \<Rightarrow> unit reply \<times> Mutex" where
  "close_statement statement m = with_lock (close_locked statement) m"

text \<open>\<open>OwnedPreparedStatement\<close>: the weak reference is \<open>None\<close> when the connection is gone. \<open>close\<close> runs no
  destructor after a success; when it fails, the statement is dropped by the \<open>?\<close>, which closes it
  once more. Dropping ignores every error.\<close>

definition drop_statement :: "PreparedStatement \<Rightarrow> Mutex option \<Rightarrow> Mutex option" where
  "drop_statement statement conn = map_option (\<lambda>m. snd (close_statement statement m)) conn"

definition close_owned :: "PreparedStatement \<Rightarrow> Mutex option \<Rightarrow> unit reply \<times> Mutex option" where
  "close_owned statement conn =
     (case conn of
        None \<Rightarrow> (Returns (Inr ()), None)
      | Some m \<Rightarrow>
          (case close_statement statement m of
             (Returns (Inl e), m') \<Rightarrow> (Returns (Inl e), drop_statement statement (Some m'))
           | (r, m') \<Rightarrow> (r, Some m')))"

section \<open>Laws\<close>

subsection \<open>Requests as batches of messages\<close>

definition fits :: "frontend_message \<Rightarrow> bool" where
  "fits m \<longleftrightarrow> counts_ok m \<and> 4 + length (message_body m) < 2 ^ 31"

definition request_frames :: "frontend_message list \<Rightarrow> bytes" where
  "request_frames ms = concat (map (\<lambda>m. frame (message_tag m) (message_body m)) ms)"

lemma request_frames_simps [simp]:
  "request_frames [] = []"
  "request_frames (m # ms) = frame (message_tag m) (message_body m) @ request_frames ms"
  by (simp_all add: request_frames_def)

lemma emit_message:
  "fits m \<Longrightarrow> emit (encode m) c = Some (Inr (), c\<lparr>write_buf := write_buf c @ request_frames [m]\<rparr>)"
  by (simp add: emit_def encode_framed framed_def fits_def)

text \<open>The writers, as they appear in the requests.\<close>

lemma emit_writers:
  "fits (Parse n q ts) \<Longrightarrow>
     emit (parse n q ts) c = Some (Inr (), c\<lparr>write_buf := write_buf c @ request_frames [Parse n q ts]\<rparr>)"
  "fits (Bind p s fs ps rs) \<Longrightarrow>
     emit (bind_msg p s fs ps rs) c = Some (Inr (), c\<lparr>write_buf := write_buf c @ request_frames [Bind p s fs ps rs]\<rparr>)"
  "fits (Describe k n) \<Longrightarrow>
     emit (describe k n) c = Some (Inr (), c\<lparr>write_buf := write_buf c @ request_frames [Describe k n]\<rparr>)"
  "fits (Execute p i) \<Longrightarrow>
     emit (execute p i) c = Some (Inr (), c\<lparr>write_buf := write_buf c @ request_frames [Execute p i]\<rparr>)"
  "fits (Close k n) \<Longrightarrow>
     emit (close k n) c = Some (Inr (), c\<lparr>write_buf := write_buf c @ request_frames [Close k n]\<rparr>)"
  "emit (\<lambda>b. Some (sync b)) c = Some (Inr (), c\<lparr>write_buf := write_buf c @ request_frames [Sync]\<rparr>)"
  using emit_message [of "Parse n q ts" c] emit_message [of "Bind p s fs ps rs" c]
    emit_message [of "Describe k n" c] emit_message [of "Execute p i" c] emit_message [of "Close k n" c]
  by (simp_all add: fixed_framed emit_def encode.simps)

lemma fits_execute [simp]: "fits (Execute '''' 0)"
  by (simp add: fits_def)

context partial_message_loop
begin

text \<open>A request and its answer, for every loop of this shape.\<close>

lemma request_stream:
  assumes "in_sync c" "answers ms" "list_all accepts ms" "unread c = wire (ms @ [ReadyForQuery t]) @ rest"
  shows "\<exists>c'. andthen (Some (flush (c\<lparr>write_buf := b\<rparr>))) (\<lambda>_ c. Some (run_loop x c)) =
      Some (case first_error ms of
        None \<Rightarrow> Inr (result (foldl step x ms) t)
      | Some e \<Rightarrow> Inl (parse_error_response e), c') \<and>
    in_sync c' \<and> unread c' = rest \<and> sent (conn_stream c') = sent (conn_stream c) @ b"
proof -
  obtain c1 where c1: "flush (c\<lparr>write_buf := b\<rparr>) = (Inr (), c1)" "in_sync c1" "unread c1 = unread c"
      "sent (conn_stream c1) = sent (conn_stream c) @ b"
    using flush_request [OF assms(1)] by metis
  have "quiet c1" "unread c1 = wire (ms @ [ReadyForQuery t]) @ rest"
    using c1(2,3) assms(4) by (simp_all add: in_sync_def)
  from partial_loop_stream [OF assms(2,3) this, of x] obtain c2 where
    "run_loop x c1 = (case first_error ms of
        None \<Rightarrow> Inr (result (foldl step x ms) t) | Some e \<Rightarrow> Inl (parse_error_response e), c2)"
    "advanced c1 rest c2"
    by blast
  with advanced_in_sync [OF c1(2)] c1 show ?thesis
    by auto
qed

end

subsection \<open>The loops\<close>

fun prepare_step :: "u32 list \<times> Column list \<Rightarrow> Message \<Rightarrow> u32 list \<times> Column list" where
  "prepare_step acc (ParameterDescription d n) = (fst acc @ parameters_ok d n, snd acc)"
| "prepare_step acc (RowDescription d n) = (fst acc, snd acc @ description_columns d n)"
| "prepare_step acc _ = acc"

interpretation prepare: message_loop prepare_loop prepare_step "\<lambda>acc _. acc"
proof
  fix c m c' acc
  assume "read_message c = (Inr m, c')" "not_ready m" "\<forall>b. m \<noteq> ErrorResponse b"
  then show "prepare_loop acc c = prepare_loop (prepare_step acc m) c'"
    by (subst prepare_loop.simps) (cases m; simp)
qed (simp_all add: prepare_loop.simps)

fun readable_row :: "Message \<Rightarrow> bool" where
  "readable_row (DataRow d) \<longleftrightarrow> (\<exists>rs. ranges_all d = Inr rs)"
| "readable_row _ \<longleftrightarrow> True"

fun execute_step :: "Column list \<Rightarrow> Row list \<Rightarrow> Message \<Rightarrow> Row list" where
  "execute_step columns rows (DataRow d) = rows @ [projr (Row_new columns d)]"
| "execute_step columns rows _ = rows"

interpretation execute: partial_message_loop "execute_loop columns" "execute_step columns" "\<lambda>rows _. rows" readable_row
  for columns
proof
  fix c m c' rows
  assume "read_message c = (Inr m, c')" "not_ready m" "\<forall>b. m \<noteq> ErrorResponse b" "readable_row m"
  then show "execute_loop columns rows c = execute_loop columns (execute_step columns rows m) c'"
    by (subst execute_loop.simps) (cases m; auto simp: Row_new_def)
qed (simp_all add: execute_loop.simps)

fun affected_step :: "nat \<Rightarrow> Message \<Rightarrow> nat" where
  "affected_step affected (CommandComplete body) =
     (case CommandComplete_tag body of Inl _ \<Rightarrow> affected | Inr tag \<Rightarrow> prepared_affected_rows tag)"
| "affected_step affected _ = affected"

interpretation no_result: message_loop no_result_loop affected_step "\<lambda>n _. n"
proof
  fix c m c' n
  assume "read_message c = (Inr m, c')" "not_ready m" "\<forall>b. m \<noteq> ErrorResponse b"
  then show "no_result_loop n c = no_result_loop (affected_step n m) c'"
    by (subst no_result_loop.simps) (cases m; simp)
qed (simp_all add: no_result_loop.simps)

interpretation close: message_loop "\<lambda>_ :: unit. close_loop" "\<lambda>_ _. ()" "\<lambda>_ _. ()"
proof
  fix c m c'
  assume "read_message c = (Inr m, c')" "not_ready m" "\<forall>b. m \<noteq> ErrorResponse b"
  then show "close_loop c = close_loop c'"
    by (subst close_loop.simps) (cases m; simp)
qed (simp_all add: close_loop.simps)

subsection \<open>What a server describes, the client reads\<close>

lemma collect_ok_of_results: "collect_results n nxt s = Some (Inr xs) \<Longrightarrow> collect_ok n nxt s = Some xs"
proof (induction n arbitrary: s xs)
  case (Suc n)
  obtain y s' where "nxt s = (y, s')"
    by (cases "nxt s")
  with Suc show ?case
    by (auto split: option.splits sum.splits)
qed simp

lemma fields_ok_put:
  assumes "list_all field_wf fs" "length fs < 2 ^ 16"
  shows "fields_ok (concat (map put_field fs)) (word_of_nat (length fs)) = fs"
proof -
  have "unat (word_of_nat (length fs) :: u16) = length fs"
    using assms(2) by (simp add: unat_of_nat)
  with collect_ok_of_results [OF collect_fields [OF assms, of "length fs + 1" "[]"]] show ?thesis
    by (simp add: fields_ok_def del: collect_ok.simps)
qed

lemma collect_parameters:
  "length ts < 2 ^ 16 \<Longrightarrow> length ts < n \<Longrightarrow>
   collect_ok n Parameters_next \<lparr>param_buf = concat (map to_be_bytes ts), param_remaining = word_of_nat (length ts)\<rparr>
   = Some ts"
proof (induction ts arbitrary: n)
  case Nil
  then obtain k where "n = Suc k"
    by (cases n) auto
  then show ?case
    by (simp add: Parameters_next_def)
next
  case (Cons x ts)
  then obtain k where "n = Suc k" "length ts < k"
    by (cases n) auto
  moreover have "unat (word_of_nat (length (x # ts)) :: u16) = length (x # ts)"
    using Cons.prems(1) by (simp only: unat_of_nat) simp
  then have "(word_of_nat (length (x # ts)) :: u16) \<noteq> 0"
    by (metis length_0_conv list.distinct(1) unsigned_0)
  ultimately show ?case
    using Cons by (simp add: Parameters_next_def Let_def)
qed

lemma parameters_ok_put:
  assumes "length ts < 2 ^ 16"
  shows "parameters_ok (concat (map to_be_bytes ts)) (word_of_nat (length ts)) = ts"
proof -
  have "unat (word_of_nat (length ts) :: u16) = length ts"
    using assms by (simp add: unat_of_nat)
  with collect_parameters [OF assms, of "length ts + 1"] show ?thesis
    by (simp add: parameters_ok_def del: collect_ok.simps)
qed

subsection \<open>Exchanges on the mutex\<close>

definition usable :: "Mutex \<Rightarrow> bool" where
  "usable m \<longleftrightarrow> \<not> held m \<and> \<not> poisoned m"

lemma with_lock_usable:
  "usable m \<Longrightarrow> body (guarded m) = Some (r, c) \<Longrightarrow> with_lock body m = (Returns r, m\<lparr>guarded := c\<rparr>)"
  by (simp add: with_lock_def usable_def)

lemma usable_guarded [simp]: "usable (m\<lparr>guarded := c\<rparr>) = usable m"
  by (simp add: usable_def)

text \<open>After an exchange: the mutex is free, the connection in step, the request on the wire.\<close>

definition served :: "Mutex \<Rightarrow> bytes \<Rightarrow> bytes \<Rightarrow> Mutex \<Rightarrow> bool" where
  "served m request rest m' \<longleftrightarrow> usable m' \<and> in_sync (guarded m') \<and> unread (guarded m') = rest \<and>
     sent (conn_stream (guarded m')) = sent (conn_stream (guarded m)) @ request"

lemma with_lock_served:
  assumes "usable m" "body (guarded m) = Some (r, c)" "in_sync c" "unread c = rest"
    "sent (conn_stream c) = sent (conn_stream (guarded m)) @ request"
  shows "\<exists>m'. with_lock body m = (Returns r, m') \<and> served m request rest m'"
  using with_lock_usable [of m body, OF assms(1,2)] assms by (simp add: served_def)

abbreviation error_or :: "Message list \<Rightarrow> 'a \<Rightarrow> 'a reply" where
  "error_or ms x \<equiv> Returns (case first_error ms of None \<Rightarrow> Inr x | Some e \<Rightarrow> Inl (parse_error_response e))"

lemma prepare_served:
  assumes "usable m" "in_sync (guarded m)" "answers ms" "unread (guarded m) = wire (ms @ [ReadyForQuery t]) @ rest"
    and "fits (Parse name q ts)" "fits (Describe (byte_of CHR ''S'') name)"
  shows "\<exists>m'. with_lock (prepare_locked name q ts) m =
      (error_or ms (let (ps, cs) = foldl prepare_step ([], []) ms
        in \<lparr>stmt_name = name, stmt_query = q, stmt_param_types = ps, stmt_columns = cs\<rparr>), m') \<and>
    served m (request_frames [Parse name q ts, Describe (byte_of CHR ''S'') name, Sync]) rest m'"
proof -
  let ?b = "request_frames [Parse name q ts, Describe (byte_of CHR ''S'') name, Sync]"
  let ?c = "guarded m"
  have "write_buf ?c = []"
    using assms(2) by (simp add: in_sync_def)
  from prepare.every.request_stream [OF assms(2,3) _ assms(4), of ?b "([], [])"] obtain c' where
    c': "andthen (Some (flush (?c\<lparr>write_buf := ?b\<rparr>))) (\<lambda>_ c. Some (prepare_loop ([], []) c)) =
      Some (case first_error ms of None \<Rightarrow> Inr (foldl prepare_step ([], []) ms)
        | Some e \<Rightarrow> Inl (parse_error_response e), c')"
      "in_sync c'" "unread c' = rest" "sent (conn_stream c') = sent (conn_stream ?c) @ ?b"
    by (auto simp: list_all_iff)
  have "prepare_locked name q ts ?c =
      andthen (andthen (Some (flush (?c\<lparr>write_buf := ?b\<rparr>))) (\<lambda>_ c. Some (prepare_loop ([], []) c)))
        (\<lambda>(ps, cs) c. Some (Inr \<lparr>stmt_name = name, stmt_query = q, stmt_param_types = ps, stmt_columns = cs\<rparr>, c))"
    using assms(5,6) \<open>write_buf ?c = []\<close>
    by (simp add: prepare_locked_def emit_writers) (auto simp: andthen_def split: prod.split sum.split)
  then have "prepare_locked name q ts ?c = Some (case first_error ms of
        None \<Rightarrow> Inr (let (ps, cs) = foldl prepare_step ([], []) ms
          in \<lparr>stmt_name = name, stmt_query = q, stmt_param_types = ps, stmt_columns = cs\<rparr>)
      | Some e \<Rightarrow> Inl (parse_error_response e), c')"
    unfolding c'(1) by (cases "first_error ms") (simp_all split: prod.split)
  from with_lock_served [of m "prepare_locked name q ts", OF assms(1) this c'(2-4)] show ?thesis .
qed

text \<open>The format codes of an all-binary \<open>Bind\<close>.\<close>

definition binary_formats :: "'a list \<Rightarrow> i16 list" where
  "binary_formats ps = (if ps = [] then [] else BROADCAST_BINARY)"

lemma bind_format_codes_binary: "bind_format_codes [] (length ps) = Inr (binary_formats ps)"
  by (simp add: bind_format_codes_def binary_formats_def)

lemma execute_served:
  assumes "usable m" "in_sync (guarded m)" "answers ms" "list_all readable_row ms"
    "unread (guarded m) = wire (ms @ [ReadyForQuery t]) @ rest"
    and "fits (Bind '''' (stmt_name s) (binary_formats ps) ps (replicate (length (stmt_columns s)) 1))"
  shows "\<exists>m'. execute_prepared s ps m =
      (error_or ms (foldl (execute_step (stmt_columns s)) [] ms), m') \<and>
    served m (request_frames [Bind '''' (stmt_name s) (binary_formats ps) ps (replicate (length (stmt_columns s)) 1),
      Execute '''' 0, Sync]) rest m'"
proof -
  let ?b = "request_frames [Bind '''' (stmt_name s) (binary_formats ps) ps (replicate (length (stmt_columns s)) 1),
      Execute '''' 0, Sync]"
  let ?c = "guarded m"
  have "write_buf ?c = []"
    using assms(2) by (simp add: in_sync_def)
  with assms(6) have "execute_prepared_locked s ps (binary_formats ps) ?c =
      andthen (Some (flush (?c\<lparr>write_buf := ?b\<rparr>))) (\<lambda>_ c. Some (execute_loop (stmt_columns s) [] c))"
    by (simp add: execute_prepared_locked_def emit_writers)
  with execute.request_stream [OF assms(2-5), of ?b "stmt_columns s" "[]"] obtain c' where
    "execute_prepared_locked s ps (binary_formats ps) ?c = Some (case first_error ms of
        None \<Rightarrow> Inr (foldl (execute_step (stmt_columns s)) [] ms) | Some e \<Rightarrow> Inl (parse_error_response e), c')"
      "in_sync c'" "unread c' = rest" "sent (conn_stream c') = sent (conn_stream ?c) @ ?b"
    by auto
  from with_lock_served [of m "execute_prepared_locked s ps (binary_formats ps)", OF assms(1) this] show ?thesis
    by (simp add: execute_prepared_def bind_format_codes_binary)
qed

lemma close_served:
  assumes "usable m" "in_sync (guarded m)" "answers ms" "unread (guarded m) = wire (ms @ [ReadyForQuery t]) @ rest"
    and "fits (Close (byte_of CHR ''S'') (stmt_name s))"
  shows "\<exists>m'. close_statement s m = (error_or ms (), m') \<and>
    served m (request_frames [Close (byte_of CHR ''S'') (stmt_name s), Sync]) rest m'"
proof -
  let ?b = "request_frames [Close (byte_of CHR ''S'') (stmt_name s), Sync]"
  let ?c = "guarded m"
  have "write_buf ?c = []"
    using assms(2) by (simp add: in_sync_def)
  with assms(5) have "close_locked s ?c = andthen (Some (flush (?c\<lparr>write_buf := ?b\<rparr>))) (\<lambda>_ c. Some (close_loop c))"
    by (simp add: close_locked_def emit_writers)
  with close.every.request_stream [OF assms(2,3) _ assms(4), of ?b] obtain c' where
    "close_locked s ?c = Some (case first_error ms of None \<Rightarrow> Inr () | Some e \<Rightarrow> Inl (parse_error_response e), c')"
      "in_sync c'" "unread c' = rest" "sent (conn_stream c') = sent (conn_stream ?c) @ ?b"
    by (auto simp: list_all_iff)
  from with_lock_served [of m "close_locked s", OF assms(1) this] show ?thesis
    by (simp add: close_statement_def)
qed

lemma answers_no_error:
  "list_all sendable ms \<Longrightarrow> list_all not_ready ms \<Longrightarrow> list_all (\<lambda>m. \<forall>b. m \<noteq> ErrorResponse b) ms \<Longrightarrow>
     answers ms \<and> first_error ms = None"
proof -
  have "list_all (\<lambda>m. \<forall>b. m \<noteq> ErrorResponse b) ms \<Longrightarrow> after_error ms = 0 \<and> first_error ms = None"
  proof (induction ms)
    case (Cons m ms)
    then show ?case
      by (cases m) simp_all
  qed simp
  then show "list_all sendable ms \<Longrightarrow> list_all not_ready ms \<Longrightarrow>
      list_all (\<lambda>m. \<forall>b. m \<noteq> ErrorResponse b) ms \<Longrightarrow> answers ms \<and> first_error ms = None"
    by (simp add: answers_def POST_ERROR_DRAIN_CAP_def)
qed

lemma execute_rows:
  "foldl (execute_step cs) acc (map (\<lambda>vs. DataRow (put_row vs)) vss) =
     acc @ map (\<lambda>vs. projr (Row_new cs (put_row vs))) vss"
  by (induction vss arbitrary: acc) simp_all

lemma projr_Row_new_put:
  assumes "row_fits vs"
  shows "Row_get_bytes (projr (Row_new cs (put_row vs))) j = Some (if j < length vs then vs ! j else None)"
proof -
  obtain row where row: "Row_new cs (put_row vs) = Inr row"
    using ranges_all_put [OF assms] by (auto simp: Row_new_def)
  from Row_new_valid [OF row] row_reader.read_put_row [OF _ _ assms] show ?thesis
    by (simp add: row)
qed

section \<open>Properties\<close>

text \<open>The answers of a server that accepts a statement with the parameter types \<open>oids\<close> and
  the result fields \<open>fs\<close>, runs it and closes it.\<close>

definition described :: "u32 list \<Rightarrow> Field list \<Rightarrow> Message list" where
  "described oids fs =
     [ParseComplete, ParameterDescription (concat (map to_be_bytes oids)) (word_of_nat (length oids)),
      RowDescription (concat (map put_field fs)) (word_of_nat (length fs))]"

definition executed :: "bytes option list list \<Rightarrow> bytes \<Rightarrow> Message list" where
  "executed vss tag = BindComplete # map (\<lambda>vs. DataRow (put_row vs)) vss @ [CommandComplete tag]"

lemma described_steps:
  assumes "length oids < 2 ^ 16" "list_all field_wf fs" "length fs < 2 ^ 16"
  shows "foldl prepare_step ([], []) (described oids fs) = (oids, map column_of_field fs)"
  using assms by (simp add: described_def parameters_ok_put description_columns_def fields_ok_put)

lemma executed_steps:
  "foldl (execute_step cs) [] (executed vss tag) = map (\<lambda>vs. projr (Row_new cs (put_row vs))) vss"
  by (simp add: executed_def execute_rows)

lemma served_trans:
  "served m r1 x m1 \<Longrightarrow> served m1 r2 y m2 \<Longrightarrow> served m (r1 @ r2) y m2"
  by (simp add: served_def)

text \<open>C26. The life of a prepared statement. Against a server that describes the statement, runs it
  and closes it, in any cut of the stream: \<open>prepare\<close> returns the parameter types and
  the columns the server described, under a fresh name; \<open>execute_prepared\<close> returns one row
  per row of the server and every column of it as sent, NULLs included; \<open>close_statement\<close> succeeds;
  and the mutex is free with the connection in step, the three requests on the wire in this order.\<close>

theorem prepared_statement_lifecycle:
  fixes q ts counter oids fs ps vss tag m
  defines "name \<equiv> fst (generate_statement_name counter)"
  assumes "usable m" "in_sync (guarded m)"
    and "length oids < 2 ^ 16" "list_all field_wf fs" "length fs < 2 ^ 16" "list_all row_fits vss"
    and "list_all sendable (described oids fs @ executed vss tag)"
    and "fits (Parse name q ts)" "fits (Bind '''' name (binary_formats ps) ps (replicate (length fs) 1))"
    and "unread (guarded m) = wire (described oids fs @ [ReadyForQuery t1]) @ wire (executed vss tag @ [ReadyForQuery t2])
      @ wire ([CloseComplete] @ [ReadyForQuery t3]) @ rest"
  shows "\<exists>s m1 rows m2 m3. prepare q ts counter m = (Returns (Inr s), counter + 1, m1) \<and>
    s = \<lparr>stmt_name = name, stmt_query = q, stmt_param_types = oids, stmt_columns = map column_of_field fs\<rparr> \<and>
    execute_prepared s ps m1 = (Returns (Inr rows), m2) \<and>
    length rows = length vss \<and>
    (\<forall>i < length vss. \<forall>j. Row_get_bytes (rows ! i) j = Some (if j < length (vss ! i) then vss ! i ! j else None)) \<and>
    close_statement s m2 = (Returns (Inr ()), m3) \<and>
    served m (request_frames [Parse name q ts, Describe (byte_of CHR ''S'') name, Sync,
      Bind '''' name (binary_formats ps) ps (replicate (length fs) 1), Execute '''' 0, Sync,
      Close (byte_of CHR ''S'') name, Sync]) rest m3"
proof -
  let ?s = "\<lparr>stmt_name = name, stmt_query = q, stmt_param_types = oids, stmt_columns = map column_of_field fs\<rparr>"
  let ?rest2 = "wire ([CloseComplete] @ [ReadyForQuery t3]) @ rest"
  let ?rest1 = "wire (executed vss tag @ [ReadyForQuery t2]) @ ?rest2"
  have a1: "answers (described oids fs)" "first_error (described oids fs) = None"
    using assms(8) answers_no_error [of "described oids fs"] by (simp_all add: described_def)
  have a2: "answers (executed vss tag)" "first_error (executed vss tag) = None"
    using assms(8) answers_no_error [of "executed vss tag"] by (simp_all add: executed_def list_all_iff)
  have a3: "answers [CloseComplete]" "first_error [CloseComplete] = None"
    by (simp_all add: answers_def sendable_def POST_ERROR_DRAIN_CAP_def)
  have name: "fits (Describe (byte_of CHR ''S'') name)" "fits (Close (byte_of CHR ''S'') name)"
    using assms(9) by (simp_all add: fits_def)
  from prepare_served [OF assms(2,3) a1(1) assms(11) assms(9) name(1)] a1(2)
    described_steps [OF assms(4-6)] obtain m1 where
    m1: "with_lock (prepare_locked name q ts) m = (Returns (Inr ?s), m1)"
      "served m (request_frames [Parse name q ts, Describe (byte_of CHR ''S'') name, Sync]) ?rest1 m1"
    by auto
  have "list_all readable_row (executed vss tag)"
    using assms(7) ranges_all_put by (auto simp: executed_def list_all_iff)
  with m1(2) execute_served [of m1 "executed vss tag" t2 ?rest2 ?s ps] a2 executed_steps assms(10) obtain m2 where
    m2: "execute_prepared ?s ps m1 = (Returns (Inr (map (\<lambda>vs. projr (Row_new (map column_of_field fs) (put_row vs))) vss)), m2)"
      "served m1 (request_frames [Bind '''' name (binary_formats ps) ps (replicate (length fs) 1), Execute '''' 0, Sync]) ?rest2 m2"
    by (auto simp: served_def)
  from m2(2) close_served [of m2 "[CloseComplete]" t3 rest ?s] a3 name(2) obtain m3 where
    m3: "close_statement ?s m2 = (Returns (Inr ()), m3)"
      "served m2 (request_frames [Close (byte_of CHR ''S'') name, Sync]) rest m3"
    by (auto simp: served_def)
  have "prepare q ts counter m = (Returns (Inr ?s), counter + 1, m1)"
    using m1(1) by (simp add: prepare_def generate_statement_name_def name_def)
  moreover have "\<forall>i < length vss. \<forall>j. Row_get_bytes (projr (Row_new (map column_of_field fs) (put_row (vss ! i)))) j =
      Some (if j < length (vss ! i) then vss ! i ! j else None)"
    using assms(7) by (intro allI impI projr_Row_new_put) (simp add: list_all_length)
  ultimately show ?thesis
    using m2(1) m3(1) served_trans [OF served_trans [OF m1(2) m2(2)] m3(2)]
    by (intro exI [of _ ?s] exI [of _ m1] exI [of _ m2] exI [of _ m3]
        exI [of _ "map (\<lambda>vs. projr (Row_new (map column_of_field fs) (put_row vs))) vss"]) simp
qed

definition demo_mutex :: "bytes \<Rightarrow> Mutex" where
  "demo_mutex bs = \<lparr>held = False, poisoned = False, guarded = demo_connection bs\<rparr>"

lemma demo_mutex_usable:
  "length bs > 3 \<Longrightarrow> usable (demo_mutex bs) \<and> in_sync (guarded (demo_mutex bs)) \<and> unread (guarded (demo_mutex bs)) = bs"
  using demo_connection_in_sync by (simp add: demo_mutex_def usable_def)

definition demo_field :: Field where
  "demo_field = \<lparr>field_name = ''x'', table_oid = 0, column_id = 0, field_type_oid = 23, type_size = 4,
     field_type_modifier = - 1, field_format = 1\<rparr>"

theorem prepared_statement_lifecycle_witness:
  "\<exists>s m1 rows m2. prepare ''SELECT $1'' [] 7
      (demo_mutex (wire (described [23] [demo_field] @ [ReadyForQuery 73]) @
        wire (executed [[Some [1, 0, 0, 0]], [None]] [] @ [ReadyForQuery 73]) @
        wire ([CloseComplete] @ [ReadyForQuery 73]) @ [])) = (Returns (Inr s), 8, m1) \<and>
    stmt_param_types s = [23] \<and>
    execute_prepared s [Some [5]] m1 = (Returns (Inr rows), m2) \<and>
    Row_get_bytes (rows ! 0) 0 = Some (Some [1, 0, 0, 0]) \<and> Row_get_bytes (rows ! 1) 0 = Some None"
proof -
  let ?bs = "wire (described [23] [demo_field] @ [ReadyForQuery 73]) @
        wire (executed [[Some [1, 0, 0, 0]], [None]] [] @ [ReadyForQuery 73]) @
        wire ([CloseComplete] @ [ReadyForQuery 73]) @ []"
  have "length ?bs > 3"
    using length_server_encode [of ParseComplete] by (simp add: described_def)
  note demo = demo_mutex_usable [OF this]
  have wf: "list_all field_wf [demo_field]" "list_all row_fits [[Some [1, 0, 0, 0]], [None]]"
    by (simp_all add: demo_field_def field_wf_def as_bytes_def byte_of_def nul_free_bytes_def row_fits_def)
  have send: "list_all sendable (described [23] [demo_field] @ executed [[Some [1, 0, 0, 0]], [None]] [])"
    by (simp add: described_def executed_def sendable_def demo_field_def put_field_def put_row_def put_column_def
        nul_free_bytes_def)
  have name: "length (fst (generate_statement_name 7)) = 14"
    by (simp add: generate_statement_name_def show_nat.simps)
  have fit: "fits (Parse (fst (generate_statement_name 7)) ''SELECT $1'' [])"
    "fits (Bind '''' (fst (generate_statement_name 7)) (binary_formats [Some [5 :: u8]]) [Some [5]]
      (replicate (length [demo_field]) 1))"
    by (simp_all add: fits_def name binary_formats_def BROADCAST_BINARY_def)
  have small: "length [23 :: u32] < 2 ^ 16" "length [demo_field] < 2 ^ 16"
    by simp_all
  from prepared_statement_lifecycle [OF demo [THEN conjunct1] demo [THEN conjunct2, THEN conjunct1] small(1) wf(1)
      small(2) wf(2) send fit demo [THEN conjunct2, THEN conjunct2]]
  obtain s m1 rows m2 where r: "prepare ''SELECT $1'' [] 7 (demo_mutex ?bs) = (Returns (Inr s), 7 + 1, m1)"
    "s = \<lparr>stmt_name = fst (generate_statement_name 7), stmt_query = ''SELECT $1'', stmt_param_types = [23],
       stmt_columns = map column_of_field [demo_field]\<rparr>"
    "execute_prepared s [Some [5]] m1 = (Returns (Inr rows), m2)"
    "\<forall>i < length [[Some [1, 0, 0, 0]], [None :: bytes option]]. \<forall>j. Row_get_bytes (rows ! i) j =
      Some (if j < length ([[Some [1, 0, 0, 0]], [None :: bytes option]] ! i)
        then [[Some [1, 0, 0, 0]], [None]] ! i ! j else None)"
    by blast
  have "Row_get_bytes (rows ! 0) 0 = Some (Some [1, 0, 0, 0])" "Row_get_bytes (rows ! 1) 0 = Some None"
    using r(4) [rule_format, of 0 0] r(4) [rule_format, of 1 0] by simp_all
  moreover have "stmt_param_types s = [23]"
    by (simp add: r(2))
  moreover have "(7 :: u64) + 1 = 8"
    by simp
  ultimately show ?thesis
    using r(1,3) by metis
qed

context partial_message_loop
begin

lemma loop_prefix:
  assumes "list_all (\<lambda>m. sendable m \<and> not_ready m \<and> (\<forall>b. m \<noteq> ErrorResponse b) \<and> accepts m) ms"
    and "quiet c" "unread c = wire ms @ rest"
  shows "\<exists>c'. run_loop x c = run_loop (foldl step x ms) c' \<and> advanced c rest c'"
  using assms
proof (induction ms arbitrary: x c)
  case Nil
  then show ?case
    by (auto simp: advanced_def)
next
  case (Cons m ms)
  then obtain c1 where c1: "read_message c = (Inr m, c1)" "advanced c (wire ms @ rest) c1"
    using read_advances [of c m "wire ms @ rest"] by auto
  with Cons.prems(1) have "run_loop x c = run_loop (step x m) c1"
    by (auto intro: on_other)
  with Cons.IH [of c1 "step x m"] Cons.prems(1) c1(2) advanced_trans show ?case
    by (fastforce simp: advanced_def)
qed

end

lemma execute_bad_row:
  assumes "list_all (\<lambda>m. sendable m \<and> not_ready m \<and> (\<forall>b. m \<noteq> ErrorResponse b) \<and> readable_row m) ms"
    and "sendable (DataRow d)" "ranges_all d = Inl e" "quiet c" "unread c = wire (ms @ [DataRow d]) @ rest"
  shows "\<exists>c'. execute_loop cs rows c = (Inl (ProtocolError (''invalid data row: '' @ io_error_message e)), c') \<and>
    advanced c rest c'"
proof -
  from execute.loop_prefix [OF assms(1,4), of "server_encode (DataRow d) @ rest" cs rows] assms(5) obtain rows' c1 where
    c1: "execute_loop cs rows c = execute_loop cs rows' c1" "advanced c (server_encode (DataRow d) @ rest) c1"
    by auto
  then have "quiet c1" "unread c1 = server_encode (DataRow d) @ rest"
    by (simp_all add: advanced_def)
  then obtain c2 where "read_message c1 = (Inr (DataRow d), c2)" "advanced c1 rest c2"
    using read_advances [OF _ assms(2)] by blast
  with c1 advanced_trans [OF c1(2)] assms(3) show ?thesis
    by (auto simp: execute_loop.simps [of cs rows' c1] Row_new_def)
qed

text \<open>C39. A row that cannot be read loses the place. When a \<open>DataRow\<close> is malformed (its column
  lengths do not cover its storage), \<open>execute_prepared\<close> returns the error at once: the rest of the answer stays
  unread and the connection is not marked. The next query on it then receives the rest of this answer
  as its own, and its own answer stays on the wire.\<close>

theorem bad_row_shifts_next_answer:
  assumes "usable m" "in_sync (guarded m)"
    and "list_all (\<lambda>m. sendable m \<and> not_ready m \<and> (\<forall>b. m \<noteq> ErrorResponse b) \<and> readable_row m) ms"
    and "sendable (DataRow d)" "ranges_all d = Inl e" "answers ms'"
    and "unread (guarded m) = wire (ms @ [DataRow d]) @ wire (ms' @ [ReadyForQuery t]) @ rest"
    and "fits (Bind '''' (stmt_name s) (binary_formats ps) ps (replicate (length (stmt_columns s)) 1))"
    and "length q + 5 < 2 ^ 31"
  shows "\<exists>m' c. execute_prepared s ps m = (Returns (Inl (ProtocolError (''invalid data row: '' @ io_error_message e))), m') \<and>
    is_healthy (guarded m') \<and> simple_query q (guarded m') = Some (answer ms' t, c) \<and> unread c = rest"
proof -
  let ?b = "request_frames [Bind '''' (stmt_name s) (binary_formats ps) ps (replicate (length (stmt_columns s)) 1),
      Execute '''' 0, Sync]"
  let ?c = "guarded m"
  have "write_buf ?c = []"
    using assms(2) by (simp add: in_sync_def)
  with assms(8) have eq: "execute_prepared_locked s ps (binary_formats ps) ?c =
      andthen (Some (flush (?c\<lparr>write_buf := ?b\<rparr>))) (\<lambda>_ c. Some (execute_loop (stmt_columns s) [] c))"
    by (simp add: execute_prepared_locked_def emit_writers)
  obtain c1 where c1: "flush (?c\<lparr>write_buf := ?b\<rparr>) = (Inr (), c1)" "in_sync c1" "unread c1 = unread ?c"
    using flush_request [OF assms(2)] by metis
  then have "quiet c1" "unread c1 = wire (ms @ [DataRow d]) @ wire (ms' @ [ReadyForQuery t]) @ rest"
    using assms(7) by (simp_all add: in_sync_def)
  from execute_bad_row [OF assms(3-5) this] obtain c2 where
    c2: "execute_loop (stmt_columns s) [] c1 = (Inl (ProtocolError (''invalid data row: '' @ io_error_message e)), c2)"
      "advanced c1 (wire (ms' @ [ReadyForQuery t]) @ rest) c2"
    by blast
  have "in_sync c2" "unread c2 = wire (ms' @ [ReadyForQuery t]) @ rest"
    using advanced_in_sync [OF c1(2) c2(2)] by simp_all
  with simple_query_answer [OF _ assms(6) _ assms(9)] obtain c where
    "simple_query q c2 = Some (answer ms' t, c)" "unread c = rest"
    by blast
  with eq c1(1) c2(1) \<open>in_sync c2\<close> with_lock_usable [of m "execute_prepared_locked s ps (binary_formats ps)", OF assms(1)]
  show ?thesis
    by (simp add: execute_prepared_def bind_format_codes_binary in_sync_def)
qed

theorem bad_row_shifts_next_answer_witness:
  "\<exists>e m' c. execute_prepared \<lparr>stmt_name = ''s'', stmt_query = ''q'', stmt_param_types = [], stmt_columns = []\<rparr> []
      (demo_mutex (wire ([] @ [DataRow \<lparr>row_storage = [7], row_len = 0\<rparr>]) @
        wire ([CommandComplete (as_bytes ''SELECT 1'')] @ [ReadyForQuery 73]) @ [])) = (Returns (Inl e), m') \<and>
    is_healthy (guarded m') \<and>
    simple_query ''SELECT 2'' (guarded m') =
      Some (Inr [CommandComplete (as_bytes ''SELECT 1''), ReadyForQuery 73], c)"
proof -
  let ?d = "\<lparr>row_storage = [7 :: u8], row_len = 0\<rparr>"
  let ?s = "\<lparr>stmt_name = ''s'', stmt_query = ''q'', stmt_param_types = [], stmt_columns = []\<rparr>"
  let ?bs = "wire ([] @ [DataRow ?d]) @ wire ([CommandComplete (as_bytes ''SELECT 1'')] @ [ReadyForQuery 73]) @ []"
  have "length ?bs > 3"
    using length_server_encode [of "DataRow ?d"] by simp
  note demo = demo_mutex_usable [OF this]
  have "\<exists>e. ranges_all ?d = Inl e" "sendable (DataRow ?d)"
    by (simp_all add: ranges_all_def ranges_def DataRowRanges_next_def sendable_def)
  then obtain e where d: "ranges_all ?d = Inl e" "sendable (DataRow ?d)"
    by blast
  have "fits (Bind '''' (stmt_name ?s) (binary_formats []) [] (replicate (length (stmt_columns ?s)) 1))"
    by (simp add: fits_def binary_formats_def)
  with bad_row_shifts_next_answer [OF demo [THEN conjunct1] demo [THEN conjunct2, THEN conjunct1] _ d(2,1)
      demo_answers demo [THEN conjunct2, THEN conjunct2], of ?s "[]" "''SELECT 2''"]
  show ?thesis
    by (auto simp: answer_def)
qed

text \<open>Closing a statement does not look at the flag. On a connection marked desynchronized, on which
  every query fails without touching the wire, \<open>close_statement\<close> still sends its request and takes
  whatever it reads for its answer.\<close>

theorem close_skips_health_check:
  assumes "usable m" "desynchronized (guarded m)" "quiet (guarded m)" "write_buf (guarded m) = []"
    "outcomes (conn_stream (guarded m)) = []"
    and "unread (guarded m) = wire ([CloseComplete] @ [ReadyForQuery t]) @ rest"
    and "fits (Close (byte_of CHR ''S'') (stmt_name s))"
  shows "\<exists>m' e. close_statement s m = (Returns (Inr ()), m') \<and>
    sent (conn_stream (guarded m')) = sent (conn_stream (guarded m)) @
      request_frames [Close (byte_of CHR ''S'') (stmt_name s), Sync] \<and>
    simple_query q (guarded m) = Some (Inl e, guarded m)"
proof -
  let ?c = "guarded m"
  let ?b = "request_frames [Close (byte_of CHR ''S'') (stmt_name s), Sync]"
  obtain c1 where c1: "flush (?c\<lparr>write_buf := ?b\<rparr>) = (Inr (), c1)" "quiet c1" "unread c1 = unread ?c"
      "sent (conn_stream c1) = sent (conn_stream ?c) @ ?b"
    using flush_ok [of "?c\<lparr>write_buf := ?b\<rparr>"] assms(3,5) by (auto simp: quiet_def unread_def)
  have "answers [CloseComplete]"
    by (simp add: answers_def sendable_def POST_ERROR_DRAIN_CAP_def)
  from close.loop_stream [OF this c1(2)] c1(3) assms(6) obtain c2 where
    c2: "close_loop c1 = (Inr (), c2)" "advanced c1 rest c2"
    by auto
  have "close_locked s ?c = Some (Inr (), c2)"
    using assms(4,7) c1(1) c2(1) by (simp add: close_locked_def emit_writers)
  moreover have "sent (conn_stream c2) = sent (conn_stream ?c) @ ?b"
    using c2(2) c1(4) by (simp add: advanced_def write_side_def)
  moreover obtain e where "simple_query q ?c = Some (Inl e, ?c)"
    using guard_desync [OF assms(2)] by (auto simp: simple_query_def)
  ultimately show ?thesis
    using with_lock_usable [of m "close_locked s", OF assms(1)] by (auto simp: close_statement_def)
qed

text \<open>Names are fresh: within one wrap of the counter no two statements share a name.\<close>

lemma statement_names_distinct:
  "fst (generate_statement_name a) = fst (generate_statement_name b) \<longleftrightarrow> a = b"
  by (auto simp: generate_statement_name_def word_unat_eq_iff dest: show_nat_inj)

end
