(* ===== verification/Query_Streams.thy ===== *)
theory Query_Streams
  imports Prepared_Statements
begin

text \<open>
  Row streams, \<open>QueryStream\<close> of \<open>hyperdb-api-core/src/client/client.rs\<close> and \<open>PreparedQueryStream\<close> of
  \<open>prepared_stream.rs\<close>: they hold the connection's guard, hand out rows in chunks, and drain the
  connection when they are dropped early.

  The connection a stream holds is passed next to it; \<open>qs_conn\<close> says whether the stream still holds
  the guard. Cancelling a query goes over a connection of its own; what it makes the server send on
  this one is part of what the stream will read.
\<close>

section \<open>\<open>QueryStream\<close>\<close>

record QueryStream =
  qs_conn :: bool
  finished :: bool
  chunk_size :: nat
  schema :: "Column list option"
  schema_read :: bool

definition QueryStream_new :: "nat \<Rightarrow> QueryStream" where
  "QueryStream_new n = \<lparr>qs_conn = True, finished = False, chunk_size = max n 1, schema = None, schema_read = False\<rparr>"

text \<open>\<open>self.finished = true; self.conn = None\<close>\<close>

definition release :: "QueryStream \<Rightarrow> QueryStream" where
  "release s = s\<lparr>finished := True, qs_conn := False\<rparr>"

function chunk_loop ::
  "StreamRow list \<Rightarrow> QueryStream \<Rightarrow> RawConnection
     \<Rightarrow> (Error + StreamRow list option) \<times> QueryStream \<times> RawConnection" where
  "chunk_loop rows s c =
     (if length rows < chunk_size s then
        (case read_message c of
           (Inl e, c') \<Rightarrow> (Inl e, s, c')
         | (Inr (RowDescription d n), c') \<Rightarrow>
             if \<not> schema_read s then
               chunk_loop rows (s\<lparr>schema := Some (description_columns d n), schema_read := True\<rparr>) c'
             else chunk_loop rows s c'
         | (Inr (DataRow d), c') \<Rightarrow>
             let rows' = rows @ [\<lparr>stream_data = d\<rparr>]
             in if length rows' \<ge> chunk_size s then (Inr (Some rows'), s, c') else chunk_loop rows' s c'
         | (Inr (ReadyForQuery _), c') \<Rightarrow> (Inr (if rows = [] then None else Some rows), release s, c')
         | (Inr (ErrorResponse body), c') \<Rightarrow>
             (case consume_error body c' of (e, c'') \<Rightarrow> (Inl e, release s, c''))
         | (Inr _, c') \<Rightarrow> chunk_loop rows s c')
      else (Inr (Some rows), s, c))"
  by pat_completeness auto
termination
  by (relation "measure (\<lambda>(_, _, c). pending c)") (auto dest: read_message_pending [OF sym])

declare chunk_loop.simps [simp del]

definition next_chunk ::
  "QueryStream \<Rightarrow> RawConnection \<Rightarrow> (Error + StreamRow list option) \<times> QueryStream \<times> RawConnection" where
  "next_chunk s c =
     (if finished s then (Inr None, s, c)
      else if \<not> qs_conn s then (Inr None, s, c)
      else chunk_loop [] s c)"

function drain_loop :: "QueryStream \<Rightarrow> RawConnection \<Rightarrow> (Error + unit) \<times> QueryStream \<times> RawConnection" where
  "drain_loop s c =
     (case read_message c of
        (Inl e, c') \<Rightarrow> (Inl e, s, c')
      | (Inr (ReadyForQuery _), c') \<Rightarrow> (Inr (), release s, c')
      | (Inr (ErrorResponse body), c') \<Rightarrow> (case consume_error body c' of (e, c'') \<Rightarrow> (Inl e, release s, c''))
      | (Inr _, c') \<Rightarrow> drain_loop s c')"
  by pat_completeness auto
termination
  by (relation "measure (\<lambda>(_, c). pending c)") (auto dest: read_message_pending [OF sym])

declare drain_loop.simps [simp del]

definition drain_to_ready :: "QueryStream \<Rightarrow> RawConnection \<Rightarrow> (Error + unit) \<times> QueryStream \<times> RawConnection" where
  "drain_to_ready s c =
     (if finished s then (Inr (), s, c)
      else if \<not> qs_conn s then (Inr (), s, c)
      else drain_loop s c)"

definition POST_CANCEL_DRAIN_CAP :: nat where "POST_CANCEL_DRAIN_CAP = 1024"

definition drop_stream :: "QueryStream \<Rightarrow> RawConnection \<Rightarrow> RawConnection" where
  "drop_stream s c =
     (if finished s then c
      else if qs_conn s then snd (drain_abandoned_stream POST_CANCEL_DRAIN_CAP ABANDONED_STREAM_MAX_DATA_ROWS c)
      else c)"

section \<open>\<open>PreparedQueryStream\<close>\<close>

record PreparedQueryStream =
  ps_conn :: bool
  ps_finished :: bool
  ps_chunk_size :: nat
  ps_columns :: "Column list"

definition PreparedQueryStream_new :: "nat \<Rightarrow> Column list \<Rightarrow> PreparedQueryStream" where
  "PreparedQueryStream_new n columns =
     \<lparr>ps_conn = True, ps_finished = False, ps_chunk_size = max n 1, ps_columns = columns\<rparr>"

definition ps_schema :: "PreparedQueryStream \<Rightarrow> Column list" where
  "ps_schema s = ps_columns s"

definition ps_release :: "PreparedQueryStream \<Rightarrow> PreparedQueryStream" where
  "ps_release s = s\<lparr>ps_finished := True, ps_conn := False\<rparr>"

function ps_chunk_loop ::
  "StreamRow list \<Rightarrow> PreparedQueryStream \<Rightarrow> RawConnection
     \<Rightarrow> (Error + StreamRow list option) \<times> PreparedQueryStream \<times> RawConnection" where
  "ps_chunk_loop rows s c =
     (if length rows < ps_chunk_size s then
        (case read_message c of
           (Inl e, c') \<Rightarrow> (Inl e, s, c')
         | (Inr (DataRow d), c') \<Rightarrow>
             let rows' = rows @ [\<lparr>stream_data = d\<rparr>]
             in if length rows' \<ge> ps_chunk_size s then (Inr (Some rows'), s, c') else ps_chunk_loop rows' s c'
         | (Inr (ReadyForQuery _), c') \<Rightarrow> (Inr (if rows = [] then None else Some rows), ps_release s, c')
         | (Inr (ErrorResponse body), c') \<Rightarrow>
             (case consume_error body c' of (e, c'') \<Rightarrow> (Inl e, ps_release s, c''))
         | (Inr _, c') \<Rightarrow> ps_chunk_loop rows s c')
      else (Inr (Some rows), s, c))"
  by pat_completeness auto
termination
  by (relation "measure (\<lambda>(_, _, c). pending c)") (auto dest: read_message_pending [OF sym])

declare ps_chunk_loop.simps [simp del]

definition ps_next_chunk ::
  "PreparedQueryStream \<Rightarrow> RawConnection
     \<Rightarrow> (Error + StreamRow list option) \<times> PreparedQueryStream \<times> RawConnection" where
  "ps_next_chunk s c =
     (if ps_finished s then (Inr None, s, c)
      else if \<not> ps_conn s then (Inr None, s, c)
      else ps_chunk_loop [] s c)"

function ps_drain_loop ::
  "PreparedQueryStream \<Rightarrow> RawConnection \<Rightarrow> (Error + unit) \<times> PreparedQueryStream \<times> RawConnection" where
  "ps_drain_loop s c =
     (case read_message c of
        (Inl e, c') \<Rightarrow> (Inl e, s, c')
      | (Inr (ReadyForQuery _), c') \<Rightarrow> (Inr (), ps_release s, c')
      | (Inr (ErrorResponse body), c') \<Rightarrow> (case consume_error body c' of (e, c'') \<Rightarrow> (Inl e, ps_release s, c''))
      | (Inr _, c') \<Rightarrow> ps_drain_loop s c')"
  by pat_completeness auto
termination
  by (relation "measure (\<lambda>(_, c). pending c)") (auto dest: read_message_pending [OF sym])

declare ps_drain_loop.simps [simp del]

definition ps_drain_to_ready ::
  "PreparedQueryStream \<Rightarrow> RawConnection \<Rightarrow> (Error + unit) \<times> PreparedQueryStream \<times> RawConnection" where
  "ps_drain_to_ready s c =
     (if ps_finished s then (Inr (), s, c)
      else if \<not> ps_conn s then (Inr (), s, c)
      else ps_drain_loop s c)"

definition ps_drop :: "PreparedQueryStream \<Rightarrow> RawConnection \<Rightarrow> RawConnection" where
  "ps_drop s c =
     (if ps_finished s then c
      else if ps_conn s then snd (drain_abandoned_stream POST_CANCEL_DRAIN_CAP ABANDONED_STREAM_MAX_DATA_ROWS c)
      else c)"

section \<open>Reading one's own answer\<close>

text \<open>A sequence of reads with their results, and the reads of exactly one answer: nothing up to a
  first \<open>ReadyForQuery\<close> is one, and nothing is read after it.\<close>

inductive reading :: "RawConnection \<Rightarrow> (Error + Message) list \<Rightarrow> RawConnection \<Rightarrow> bool" where
  reading_Nil: "reading c [] c"
| reading_Cons: "read_message c = (r, c1) \<Longrightarrow> reading c1 rs c2 \<Longrightarrow> reading c (r # rs) c2"

inductive_cases reading_ConsE: "reading c (r # rs) c'"

inductive_simps reading_Nil_iff [simp]: "reading c [] c'"

fun before_ready :: "Error + Message \<Rightarrow> bool" where
  "before_ready (Inr m) \<longleftrightarrow> not_ready m"
| "before_ready (Inl _) \<longleftrightarrow> True"

definition own_part :: "RawConnection \<Rightarrow> RawConnection \<Rightarrow> bool" where
  "own_part c c' \<longleftrightarrow> (\<exists>rs. list_all before_ready rs \<and> reading c rs c')"

definition own_answer :: "RawConnection \<Rightarrow> RawConnection \<Rightarrow> bool" where
  "own_answer c c' \<longleftrightarrow> (\<exists>rs t. list_all before_ready rs \<and> reading c (rs @ [Inr (ReadyForQuery t)]) c')"

lemma reading_append: "reading c rs c1 \<Longrightarrow> reading c1 ss c2 \<Longrightarrow> reading c (rs @ ss) c2"
  by (induction rule: reading.induct) (auto intro: reading.intros)

lemma own_part_refl [simp]: "own_part c c"
  by (auto simp: own_part_def intro!: exI [of _ "[]"])

lemma own_part_step: "read_message c = (r, c1) \<Longrightarrow> before_ready r \<Longrightarrow> own_part c1 c' \<Longrightarrow> own_part c c'"
  unfolding own_part_def by (metis list.pred_inject(2) reading_Cons)

lemma own_part_read: "read_message c = (r, c') \<Longrightarrow> before_ready r \<Longrightarrow> own_part c c'"
  by (rule own_part_step) auto

lemma own_answer_now: "read_message c = (Inr (ReadyForQuery t), c') \<Longrightarrow> own_answer c c'"
  unfolding own_answer_def
  by (intro exI [of _ "[]"] exI [of _ t]) (auto intro: reading.intros)

lemma own_part_answer: "own_part c c1 \<Longrightarrow> own_answer c1 c' \<Longrightarrow> own_answer c c'"
  unfolding own_part_def own_answer_def by (metis append_assoc list_all_append reading_append)

lemma own_part_trans: "own_part c c1 \<Longrightarrow> own_part c1 c' \<Longrightarrow> own_part c c'"
  unfolding own_part_def by (metis list_all_append reading_append)

lemma own_answer_step:
  "read_message c = (r, c1) \<Longrightarrow> before_ready r \<Longrightarrow> own_answer c1 c' \<Longrightarrow> own_answer c c'"
  using own_part_answer own_part_read by blast

lemma drain_own: "drain_until_ready_bounded n c = (True, c') \<Longrightarrow> own_answer c c'"
proof (induction n arbitrary: c)
  case 0
  then show ?case
    by (simp add: drain_until_ready_bounded.simps)
next
  case (Suc n)
  show ?case
  proof (cases rule: read_cases [of c])
    case (failed e c1)
    with Suc.prems show ?thesis
      by (simp add: drain_until_ready_bounded.simps)
  next
    case (ready s c1)
    with Suc.prems show ?thesis
      by (auto simp: drain_until_ready_bounded.simps intro: own_answer_now)
  next
    case (error x c1)
    with Suc drain_step [OF _ error, of "Suc n"] show ?thesis
      by (auto intro: own_answer_step)
  next
    case (other m c1)
    with Suc drain_step [OF _ other(1,2), of "Suc n"] show ?thesis
      by (auto intro: own_answer_step)
  qed
qed

lemma consume_error_own: "consume_error b c = (e, c') \<Longrightarrow> desynchronized c' \<or> own_answer c c'"
  using drain_flag [of POST_ERROR_DRAIN_CAP c] drain_own [of POST_ERROR_DRAIN_CAP c]
  by (cases "drain_until_ready_bounded POST_ERROR_DRAIN_CAP c") (auto simp: consume_error_def)

lemma abandoned_own: "drain_abandoned_loop n k i j c = (True, c') \<Longrightarrow> own_answer c c'"
proof (induction "pending c" arbitrary: i j c rule: less_induct)
  case less
  obtain r c1 where r: "read_message c = (r, c1)"
    by (cases "read_message c")
  note loop = less.prems [unfolded drain_abandoned_loop.simps [of n k i j c] r prod.case]
  show ?case
  proof (cases r)
    case (Inl e)
    with loop show ?thesis
      by simp
  next
    case (Inr m)
    with r have "pending c1 < pending c"
      by (simp add: read_message_pending)
    then have IH: "own_answer c1 c'" if "drain_abandoned_loop n k i' j' c1 = (True, c')" for i' j'
      using less.hyps that by blast
    show ?thesis
    proof (cases "not_ready m")
      case True
      with Inr loop have "\<exists>i' j'. drain_abandoned_loop n k i' j' c1 = (True, c')"
        by (cases m) (auto split: if_splits)
      with IH own_answer_step [OF r] True Inr show ?thesis
        by auto
    next
      case False
      with Inr loop r show ?thesis
        by (cases m) (auto intro: own_answer_now)
    qed
  qed
qed

lemma abandoned_stream_own:
  "snd (drain_abandoned_stream n k c) = c' \<Longrightarrow> desynchronized c' \<or> own_answer c c'"
  using drain_abandoned_flag [of n k 0 0 c] abandoned_own [of n k 0 0 c]
  by (cases "drain_abandoned_loop n k 0 0 c") (auto simp: drain_abandoned_stream_def)

section \<open>The interface of the row streams\<close>

text \<open>What the two streams share: once finished they change nothing; until then a call reads a part
  of the answer, and when it finishes it has read all of it or the connection is marked.\<close>

locale row_stream =
  fixes fetch :: "'s \<Rightarrow> RawConnection \<Rightarrow> (Error + StreamRow list option) \<times> 's \<times> RawConnection"
    and drain :: "'s \<Rightarrow> RawConnection \<Rightarrow> (Error + unit) \<times> 's \<times> RawConnection"
    and close :: "'s \<Rightarrow> RawConnection \<Rightarrow> RawConnection"
    and over :: "'s \<Rightarrow> bool"
    and holds :: "'s \<Rightarrow> bool"
  assumes fetch_over: "over s \<Longrightarrow> fetch s c = (Inr None, s, c)"
    and drain_over: "over s \<Longrightarrow> drain s c = (Inr (), s, c)"
    and close_over: "over s \<Longrightarrow> close s c = c"
    and fetch_reads: "\<not> over s \<Longrightarrow> holds s \<Longrightarrow> fetch s c = (r, s', c') \<Longrightarrow>
      if over s' then \<not> holds s' \<and> (desynchronized c' \<or> own_answer c c') else holds s' \<and> own_part c c'"
    and drain_reads: "\<not> over s \<Longrightarrow> holds s \<Longrightarrow> drain s c = (u, s', c') \<Longrightarrow>
      if over s' then \<not> holds s' \<and> (desynchronized c' \<or> own_answer c c') else holds s' \<and> own_part c c'"
    and close_reads: "\<not> over s \<Longrightarrow> holds s \<Longrightarrow> desynchronized (close s c) \<or> own_answer c (close s c)"

datatype stream_call = NextChunk | DrainToReady

text \<open>Any sequence of calls on a stream.\<close>

fun use_stream ::
  "('s \<Rightarrow> RawConnection \<Rightarrow> (Error + StreamRow list option) \<times> 's \<times> RawConnection)
     \<Rightarrow> ('s \<Rightarrow> RawConnection \<Rightarrow> (Error + unit) \<times> 's \<times> RawConnection)
     \<Rightarrow> stream_call list \<Rightarrow> 's \<Rightarrow> RawConnection \<Rightarrow> 's \<times> RawConnection" where
  "use_stream fetch drain [] s c = (s, c)"
| "use_stream fetch drain (NextChunk # calls) s c =
     (case fetch s c of (_, s', c') \<Rightarrow> use_stream fetch drain calls s' c')"
| "use_stream fetch drain (DrainToReady # calls) s c =
     (case drain s c of (_, s', c') \<Rightarrow> use_stream fetch drain calls s' c')"

context row_stream
begin

lemma use_over: "over s \<Longrightarrow> use_stream fetch drain calls s c = (s, c)"
proof (induction calls)
  case (Cons x calls)
  then show ?case
    by (cases x) (simp_all add: fetch_over drain_over)
qed simp

lemma use_reads:
  assumes "\<not> over s" "holds s" "use_stream fetch drain calls s c = (s', c')"
  shows "if over s' then \<not> holds s' \<and> (desynchronized c' \<or> own_answer c c') else holds s' \<and> own_part c c'"
  using assms
proof (induction calls arbitrary: s c)
  case (Cons x calls)
  obtain s1 c1 where step: "use_stream fetch drain [x] s c = (s1, c1)"
    by (cases "use_stream fetch drain [x] s c")
  have rest: "use_stream fetch drain calls s1 c1 = (s', c')"
    using Cons.prems(3) step by (cases x) (auto split: prod.splits)
  have one: "if over s1 then \<not> holds s1 \<and> (desynchronized c1 \<or> own_answer c c1) else holds s1 \<and> own_part c c1"
    using step fetch_reads [OF Cons.prems(1,2)] drain_reads [OF Cons.prems(1,2)]
    by (cases x) (auto split: prod.splits)
  show ?case
  proof (cases "over s1")
    case True
    with use_over [OF True, of calls c1] rest one show ?thesis
      by auto
  next
    case False
    with Cons.IH [OF False _ rest] one own_part_answer own_part_trans show ?thesis
      by (auto split: if_splits)
  qed
qed simp

lemma use_then_close:
  assumes "\<not> over s" "holds s" "use_stream fetch drain calls s c = (s', c')"
  shows "desynchronized (close s' c') \<or> own_answer c (close s' c')"
proof (cases "over s'")
  case True
  with use_reads [OF assms] close_over [OF True, of c'] show ?thesis
    by auto
next
  case False
  with use_reads [OF assms] close_reads [OF False, of c'] own_part_answer show ?thesis
    by auto
qed

end

section \<open>The two streams\<close>

text \<open>What a message other than a row, an error or \<open>ReadyForQuery\<close> does to the stream.\<close>

fun seen :: "QueryStream \<Rightarrow> Message \<Rightarrow> QueryStream" where
  "seen s (RowDescription d n) =
     (if schema_read s then s else s\<lparr>schema := Some (description_columns d n), schema_read := True\<rparr>)"
| "seen s _ = s"

lemma seen_keeps [simp]:
  "finished (seen s m) = finished s" "qs_conn (seen s m) = qs_conn s" "chunk_size (seen s m) = chunk_size s"
  by (cases m; simp)+

lemma chunk_loop_row:
  assumes "length rows < chunk_size s" "read_message c = (Inr (DataRow d), c1)"
  shows "chunk_loop rows s c =
    (if Suc (length rows) \<ge> chunk_size s then (Inr (Some (rows @ [\<lparr>stream_data = d\<rparr>])), s, c1)
     else chunk_loop (rows @ [\<lparr>stream_data = d\<rparr>]) s c1)"
  using assms by (simp add: chunk_loop.simps [of rows s c])

lemma chunk_loop_other:
  assumes "length rows < chunk_size s" "read_message c = (Inr m, c1)" "not_ready m"
    "\<forall>b. m \<noteq> ErrorResponse b" "\<forall>d. m \<noteq> DataRow d"
  shows "chunk_loop rows s c = chunk_loop rows (seen s m) c1"
  using assms by (cases m) (simp_all add: chunk_loop.simps [of rows s c])

lemma chunk_loop_step:
  assumes "length rows < chunk_size s" "read_message c = (Inr m, c1)" "not_ready m" "\<forall>b. m \<noteq> ErrorResponse b"
  shows "(\<exists>rows'. chunk_loop rows s c = (Inr (Some rows'), s, c1)) \<or>
    (\<exists>rows' s'. chunk_loop rows s c = chunk_loop rows' s' c1 \<and> finished s' = finished s \<and> qs_conn s' = qs_conn s)"
proof (cases "\<exists>d. m = DataRow d")
  case True
  with chunk_loop_row [OF assms(1)] assms(2) show ?thesis
    by (cases "Suc (length rows) \<ge> chunk_size s") (simp, metis)+
next
  case False
  with chunk_loop_other [OF assms] seen_keeps [of s m] show ?thesis
    by metis
qed

lemma chunk_loop_reads:
  "chunk_loop rows s c = (r, s', c') \<Longrightarrow> \<not> finished s \<Longrightarrow> qs_conn s \<Longrightarrow>
     if finished s' then \<not> qs_conn s' \<and> (desynchronized c' \<or> own_answer c c') else qs_conn s' \<and> own_part c c'"
proof (induction "pending c" arbitrary: rows s c rule: less_induct)
  case less
  show ?case
  proof (cases "length rows < chunk_size s")
    case False
    with less.prems show ?thesis
      by (simp add: chunk_loop.simps)
  next
    case True
    show ?thesis
    proof (cases rule: read_cases [of c])
      case (failed e c1)
      with less.prems True own_part_read [OF failed] show ?thesis
        by (simp add: chunk_loop.simps)
    next
      case (ready t c1)
      with less.prems True own_answer_now [OF ready] show ?thesis
        by (auto simp: chunk_loop.simps release_def)
    next
      case (error b c1)
      with less.prems(1) True obtain e where e: "consume_error b c1 = (e, c')" "s' = release s"
        by (auto simp: chunk_loop.simps split: prod.splits)
      from consume_error_own [OF e(1)] own_answer_step [OF error] have "desynchronized c' \<or> own_answer c c'"
        by auto
      with e(2) show ?thesis
        by (simp add: release_def)
    next
      case (other m c1)
      note part = own_part_read [OF other(1)] and step = own_answer_step [OF other(1)]
      have "pending c1 < pending c"
        using other(1) by (rule read_message_pending)
      note IH = less.hyps [OF this]
      from chunk_loop_step [OF True other] show ?thesis
      proof (elim disjE exE conjE)
        fix rows'
        assume "chunk_loop rows s c = (Inr (Some rows'), s, c1)"
        with less.prems part other(2) show ?thesis
          by simp
      next
        fix rows' s1
        assume "chunk_loop rows s c = chunk_loop rows' s1 c1" "finished s1 = finished s" "qs_conn s1 = qs_conn s"
        with IH [of rows' s1] less.prems step part own_part_trans other(2) show ?thesis
          by (auto split: if_splits)
      qed
    qed
  qed
qed

lemma drain_loop_reads:
  "drain_loop s c = (r, s', c') \<Longrightarrow> \<not> finished s \<Longrightarrow> qs_conn s \<Longrightarrow>
     if finished s' then \<not> qs_conn s' \<and> (desynchronized c' \<or> own_answer c c') else qs_conn s' \<and> own_part c c'"
proof (induction "pending c" arbitrary: c rule: less_induct)
  case less
  show ?case
  proof (cases rule: read_cases [of c])
    case (failed e c1)
    with less.prems own_part_read [OF failed] show ?thesis
      by (simp add: drain_loop.simps)
  next
    case (ready t c1)
    with less.prems own_answer_now [OF ready] show ?thesis
      by (auto simp: drain_loop.simps release_def)
  next
    case (error b c1)
    with less.prems(1) obtain e where e: "consume_error b c1 = (e, c')" "s' = release s"
      by (auto simp: drain_loop.simps split: prod.splits)
    from consume_error_own [OF e(1)] own_answer_step [OF error] e(2) show ?thesis
      by (auto simp: release_def)
  next
    case (other m c1)
    then have "drain_loop s c = drain_loop s c1"
      by (cases m) (simp_all add: drain_loop.simps [of s c])
    moreover note read_message_pending [OF other(1)]
    ultimately show ?thesis
      using less.hyps [of c1] less.prems own_answer_step [OF other(1)] own_part_read [OF other(1)] own_part_trans other(2)
      by (auto split: if_splits)
  qed
qed

interpretation query_stream: row_stream next_chunk drain_to_ready drop_stream finished qs_conn
proof
  fix s c r s' c'
  assume "\<not> finished s" "qs_conn s" "next_chunk s c = (r, s', c')"
  then show "if finished s' then \<not> qs_conn s' \<and> (desynchronized c' \<or> own_answer c c') else qs_conn s' \<and> own_part c c'"
    using chunk_loop_reads [of "[]" s c r s' c'] by (simp add: next_chunk_def)
next
  fix s c u s' c'
  assume "\<not> finished s" "qs_conn s" "drain_to_ready s c = (u, s', c')"
  then show "if finished s' then \<not> qs_conn s' \<and> (desynchronized c' \<or> own_answer c c') else qs_conn s' \<and> own_part c c'"
    using drain_loop_reads [of s c u s' c'] by (simp add: drain_to_ready_def)
next
  fix s :: QueryStream and c
  assume "\<not> finished s" "qs_conn s"
  then show "desynchronized (drop_stream s c) \<or> own_answer c (drop_stream s c)"
    using abandoned_stream_own [OF refl] by (simp add: drop_stream_def)
qed (simp_all add: next_chunk_def drain_to_ready_def drop_stream_def)

text \<open>A prepared stream behaves as a query stream whose schema is already known.\<close>

definition as_query_stream :: "PreparedQueryStream \<Rightarrow> QueryStream" where
  "as_query_stream s = \<lparr>qs_conn = ps_conn s, finished = ps_finished s, chunk_size = ps_chunk_size s,
     schema = Some (ps_columns s), schema_read = True\<rparr>"

lemma as_query_stream_simps [simp]:
  "finished (as_query_stream s) = ps_finished s" "qs_conn (as_query_stream s) = ps_conn s"
  "chunk_size (as_query_stream s) = ps_chunk_size s" "schema_read (as_query_stream s)"
  "schema (as_query_stream s) = Some (ps_columns s)"
  "as_query_stream (ps_release s) = release (as_query_stream s)"
  by (simp_all add: as_query_stream_def ps_release_def release_def)

abbreviation as_query_result :: "'a \<times> PreparedQueryStream \<times> RawConnection \<Rightarrow> 'a \<times> QueryStream \<times> RawConnection" where
  "as_query_result r \<equiv> (case r of (x, s, c) \<Rightarrow> (x, as_query_stream s, c))"

lemma ps_chunk_loop_refines: "as_query_result (ps_chunk_loop rows s c) = chunk_loop rows (as_query_stream s) c"
proof (induction "pending c" arbitrary: rows c rule: less_induct)
  case less
  show ?case
  proof (cases "length rows < ps_chunk_size s")
    case False
    then show ?thesis
      by (simp add: chunk_loop.simps [of rows "as_query_stream s"] ps_chunk_loop.simps [of rows s])
  next
    case True
    obtain r c1 where r: "read_message c = (r, c1)"
      by (cases "read_message c")
    show ?thesis
    proof (cases r)
      case (Inl e)
      with r True show ?thesis
        by (simp add: chunk_loop.simps [of rows "as_query_stream s" c] ps_chunk_loop.simps [of rows s c])
    next
      case (Inr m)
      with r have "pending c1 < pending c"
        by (simp add: read_message_pending)
      note IH = less.hyps [OF this]
      from Inr r True show ?thesis
        by (cases m)
          (simp_all add: chunk_loop.simps [of rows "as_query_stream s" c] ps_chunk_loop.simps [of rows s c] IH Let_def
            split: prod.split)
    qed
  qed
qed

lemma ps_drain_loop_refines: "as_query_result (ps_drain_loop s c) = drain_loop (as_query_stream s) c"
proof (induction "pending c" arbitrary: c rule: less_induct)
  case less
  obtain r c1 where r: "read_message c = (r, c1)"
    by (cases "read_message c")
  show ?case
  proof (cases r)
    case (Inl e)
    with r show ?thesis
      by (simp add: drain_loop.simps [of "as_query_stream s" c] ps_drain_loop.simps [of s c])
  next
    case (Inr m)
    with r have "pending c1 < pending c"
      by (simp add: read_message_pending)
    note IH = less.hyps [OF this]
    from Inr r show ?thesis
      by (cases m)
        (simp_all add: drain_loop.simps [of "as_query_stream s" c] ps_drain_loop.simps [of s c] IH split: prod.split)
  qed
qed

lemma ps_refines:
  "as_query_result (ps_next_chunk s c) = next_chunk (as_query_stream s) c"
  "as_query_result (ps_drain_to_ready s c) = drain_to_ready (as_query_stream s) c"
  "ps_drop s c = drop_stream (as_query_stream s) c"
  by (simp_all add: ps_next_chunk_def next_chunk_def ps_drain_to_ready_def drain_to_ready_def ps_drop_def drop_stream_def
      ps_chunk_loop_refines ps_drain_loop_refines)

interpretation prepared_stream: row_stream ps_next_chunk ps_drain_to_ready ps_drop ps_finished ps_conn
proof
  fix s c r s' c'
  assume *: "\<not> ps_finished s" "ps_conn s" "ps_next_chunk s c = (r, s', c')"
  then have "next_chunk (as_query_stream s) c = (r, as_query_stream s', c')"
    using ps_refines(1) [of s c] by simp
  with query_stream.fetch_reads [of "as_query_stream s" c r "as_query_stream s'" c'] *
  show "if ps_finished s' then \<not> ps_conn s' \<and> (desynchronized c' \<or> own_answer c c') else ps_conn s' \<and> own_part c c'"
    by (auto split: if_splits)
next
  fix s c u s' c'
  assume *: "\<not> ps_finished s" "ps_conn s" "ps_drain_to_ready s c = (u, s', c')"
  then have "drain_to_ready (as_query_stream s) c = (u, as_query_stream s', c')"
    using ps_refines(2) [of s c] by simp
  with query_stream.drain_reads [of "as_query_stream s" c u "as_query_stream s'" c'] *
  show "if ps_finished s' then \<not> ps_conn s' \<and> (desynchronized c' \<or> own_answer c c') else ps_conn s' \<and> own_part c c'"
    by (auto split: if_splits)
next
  fix s :: PreparedQueryStream and c
  assume "\<not> ps_finished s" "ps_conn s"
  then show "desynchronized (ps_drop s c) \<or> own_answer c (ps_drop s c)"
    using query_stream.close_reads [of "as_query_stream s" c] by (simp add: ps_refines(3))
qed (simp_all add: ps_next_chunk_def ps_drain_to_ready_def ps_drop_def)

section \<open>Chunks of an answer\<close>

text \<open>The specification: the rows of an answer, cut into groups. \<open>take_rows k\<close> takes rows until there are
  \<open>k\<close> of them, the answer ends or it reports an error.\<close>

datatype stop = Full "Message list" | Ended | Failed bytes

fun take_rows :: "nat \<Rightarrow> Message list \<Rightarrow> StreamRow list \<times> stop" where
  "take_rows k [] = ([], Ended)"
| "take_rows k (DataRow d # ms) =
     (if k \<le> 1 then ([\<lparr>stream_data = d\<rparr>], Full ms)
      else (case take_rows (k - 1) ms of (rs, st) \<Rightarrow> (\<lparr>stream_data = d\<rparr> # rs, st)))"
| "take_rows k (ErrorResponse b # ms) = ([], Failed b)"
| "take_rows k (m # ms) = take_rows k ms"

fun rows_of :: "Message list \<Rightarrow> StreamRow list" where
  "rows_of [] = []"
| "rows_of (DataRow d # ms) = \<lparr>stream_data = d\<rparr> # rows_of ms"
| "rows_of (m # ms) = rows_of ms"

lemma take_rows_other:
  "\<forall>d. m \<noteq> DataRow d \<Longrightarrow> \<forall>b. m \<noteq> ErrorResponse b \<Longrightarrow>
     take_rows k (m # ms) = take_rows k ms \<and> rows_of (m # ms) = rows_of ms \<and> first_error (m # ms) = first_error ms"
  by (cases m) simp_all

lemma message_cases:
  obtains (row) d where "m = DataRow d" | (error) b where "m = ErrorResponse b"
  | (other) "\<forall>d. m \<noteq> DataRow d" "\<forall>b. m \<noteq> ErrorResponse b"
  by blast

lemma take_rows_shorter: "take_rows k ms = (rs, Full ms') \<Longrightarrow> length ms' < length ms"
proof (induction ms arbitrary: k rs)
  case (Cons m ms)
  show ?case
  proof (cases m rule: message_cases)
    case (row d)
    with Cons show ?thesis
      by (auto split: if_splits prod.splits) fastforce
  next
    case (error b)
    with Cons.prems show ?thesis
      by simp
  next
    case other
    with Cons take_rows_other [OF other, of k ms] show ?thesis
      by fastforce
  qed
qed simp

function chunked :: "nat \<Rightarrow> Message list \<Rightarrow> StreamRow list list" where
  "chunked k ms =
     (case take_rows k ms of
        (rs, Full ms') \<Rightarrow> rs # chunked k ms'
      | (rs, Ended) \<Rightarrow> if rs = [] then [] else [rs]
      | (rs, Failed b) \<Rightarrow> [])"
  by pat_completeness auto
termination
  by (relation "measure (\<lambda>(_, ms). length ms)") (auto dest: take_rows_shorter [OF sym])

declare chunked.simps [simp del]

text \<open>What a call takes: the rows in order, at most \<open>k\<close>, and exactly \<open>k\<close> when it stops full.\<close>

lemma take_rows_spec:
  assumes "take_rows k ms = (rs, st)" "0 < k"
  shows "case st of
      Full ms' \<Rightarrow> length rs = k \<and> rows_of ms = rs @ rows_of ms' \<and> first_error ms = first_error ms'
    | Ended \<Rightarrow> length rs < k \<and> rows_of ms = rs \<and> first_error ms = None
    | Failed b \<Rightarrow> length rs < k \<and> first_error ms = Some b"
  using assms
proof (induction ms arbitrary: k rs)
  case (Cons m ms)
  show ?case
  proof (cases m rule: message_cases)
    case (row d)
    show ?thesis
    proof (cases "k \<le> 1")
      case True
      with Cons.prems row show ?thesis
        by auto
    next
      case False
      obtain rs' where "take_rows (k - 1) ms = (rs', st)" "rs = \<lparr>stream_data = d\<rparr> # rs'"
        using Cons.prems(1) row False by (auto split: prod.splits)
      with Cons.IH [of "k - 1" rs'] False row show ?thesis
        by (auto split: stop.splits)
    qed
  next
    case (error b)
    with Cons.prems show ?thesis
      by auto
  next
    case other
    with Cons.IH [of k rs] Cons.prems take_rows_other [OF other, of k ms] show ?thesis
      by (auto split: stop.splits)
  qed
qed auto

lemma chunked_rows: "0 < k \<Longrightarrow> first_error ms = None \<Longrightarrow> concat (chunked k ms) = rows_of ms"
proof (induction k ms rule: chunked.induct)
  case (1 k ms)
  obtain rs st where t: "take_rows k ms = (rs, st)"
    by (cases "take_rows k ms")
  note spec = take_rows_spec [OF t "1.prems"(1)]
  show ?case
  proof (cases st)
    case (Full ms')
    with 1(1) [OF t [symmetric] Full] spec "1.prems" t show ?thesis
      by (simp add: chunked.simps [of k ms])
  qed (use t spec "1.prems" in \<open>auto simp: chunked.simps [of k ms]\<close>)
qed

lemma chunked_sizes:
  "0 < k \<Longrightarrow> list_all (\<lambda>rs. 0 < length rs \<and> length rs \<le> k) (chunked k ms) \<and>
     list_all (\<lambda>rs. length rs = k) (butlast (chunked k ms))"
proof (induction k ms rule: chunked.induct)
  case (1 k ms)
  obtain rs st where t: "take_rows k ms = (rs, st)"
    by (cases "take_rows k ms")
  note spec = take_rows_spec [OF t "1.prems"(1)]
  show ?case
  proof (cases st)
    case (Full ms')
    with 1(1) [OF t [symmetric] Full] spec "1.prems" t show ?thesis
      by (auto simp: chunked.simps [of k ms])
  qed (use t spec "1.prems" in \<open>auto simp: chunked.simps [of k ms]\<close>)
qed

text \<open>One call on a stream that carries the answer does what \<open>take_rows\<close> says.\<close>

lemma chunk_loop_stream:
  assumes "answers ms" "quiet c" "unread c = wire (ms @ [ReadyForQuery t]) @ rest" "length rows < chunk_size s"
    and "take_rows (chunk_size s - length rows) ms = (rs, st)"
  shows "\<exists>s' c'. case st of
      Full ms' \<Rightarrow> chunk_loop rows s c = (Inr (Some (rows @ rs)), s', c') \<and> answers ms' \<and>
        advanced c (wire (ms' @ [ReadyForQuery t]) @ rest) c' \<and> foldl seen s' ms' = foldl seen s ms \<and>
        chunk_size s' = chunk_size s \<and> finished s' = finished s \<and> qs_conn s' = qs_conn s \<and>
        (\<exists>pre. ms = pre @ ms' \<and> s' = foldl seen s pre)
    | Ended \<Rightarrow> chunk_loop rows s c = (Inr (if rows @ rs = [] then None else Some (rows @ rs)), release (foldl seen s ms), c') \<and>
        advanced c rest c'
    | Failed b \<Rightarrow> chunk_loop rows s c = (Inl (parse_error_response b), release s', c') \<and> advanced c rest c'"
  using assms
proof (induction ms arbitrary: rows s c rs)
  case Nil
  then obtain c' where "read_message c = (Inr (ReadyForQuery t), c')" "advanced c rest c'"
    using read_advances [of c "ReadyForQuery t" rest] by auto
  with Nil.prems show ?case
    by (auto simp: chunk_loop.simps [of rows s c])
next
  case (Cons m ms)
  have m: "sendable m" "not_ready m"
    using Cons.prems(1) by (simp_all add: answers_def)
  then obtain c1 where c1: "read_message c = (Inr m, c1)" "advanced c (wire (ms @ [ReadyForQuery t]) @ rest) c1"
    using read_advances [of c m "wire (ms @ [ReadyForQuery t]) @ rest"] Cons.prems by auto
  then have q1: "quiet c1" "unread c1 = wire (ms @ [ReadyForQuery t]) @ rest"
    by (simp_all add: advanced_def)
  note adv = advanced_trans [OF c1(2)]
  show ?case
  proof (cases m rule: message_cases)
    case (error b)
    from server_error_stream [of b ms c1 t rest] Cons.prems(1) error q1 obtain c2 where
      "consume_error b c1 = (parse_error_response b, c2)" "advanced c1 rest c2"
      by (auto simp: server_error_def split: prod.splits)
    moreover from this have "chunk_loop rows s c = (Inl (parse_error_response b), release s, c2)"
      using Cons.prems(4) c1(1) error by (simp add: chunk_loop.simps [of rows s c])
    ultimately show ?thesis
      using Cons.prems(5) error adv by auto
  next
    case (row d)
    have ms: "answers ms"
      using answers_Cons [OF Cons.prems(1)] row by simp
    note loop = chunk_loop_row [OF Cons.prems(4) c1(1) [unfolded row]]
    show ?thesis
    proof (cases "Suc (length rows) \<ge> chunk_size s")
      case True
      then have "chunk_size s - length rows \<le> 1"
        by simp
      then have "rs = [\<lparr>stream_data = d\<rparr>]" "st = Full ms"
        using Cons.prems(5) row by simp_all
      moreover have "m # ms = [m] @ ms \<and> s = foldl seen s [m]"
        using row by simp
      ultimately show ?thesis
        using True row loop ms c1(2) by (auto intro!: exI [of _ s] exI [of _ "[m]"])
    next
      case False
      then have "\<not> chunk_size s - length rows \<le> 1"
        by simp
      then obtain rs' where rs': "take_rows (chunk_size s - length (rows @ [\<lparr>stream_data = d\<rparr>])) ms = (rs', st)"
          "rs = \<lparr>stream_data = d\<rparr> # rs'"
        using Cons.prems(5) row by (auto split: prod.splits)
      have "length (rows @ [\<lparr>stream_data = d\<rparr>]) < chunk_size s"
        using False by simp
      note IH = Cons.IH [OF ms q1 this rs'(1)]
      show ?thesis
      proof (cases st)
        case (Full ms')
        with IH loop False rs'(2) row adv show ?thesis
          by (auto intro!: exI [of _ "m # _"])
      qed (use IH loop False rs'(2) row adv in fastforce)+
    qed
  next
    case other
    have ms: "answers ms"
      using answers_Cons [OF Cons.prems(1)] other by simp
    have "length rows < chunk_size (seen s m)"
      using Cons.prems(4) by simp
    note IH = Cons.IH [OF ms q1 this] Cons.prems(5) take_rows_other [OF other]
      chunk_loop_other [OF Cons.prems(4) c1(1) m(2)] other adv
    show ?thesis
    proof (cases st)
      case (Full ms')
      with IH show ?thesis
        by (auto intro!: exI [of _ "m # _"])
    qed (use IH in fastforce)+
  qed
qed

text \<open>A consumer that calls \<open>next_chunk\<close> until the stream ends: the chunks it got and the error it
  ended with, if any. It is out of fuel when it is \<open>None\<close>.\<close>

fun fetch_all ::
  "nat \<Rightarrow> QueryStream \<Rightarrow> RawConnection \<Rightarrow> (StreamRow list list \<times> Error option \<times> QueryStream \<times> RawConnection) option" where
  "fetch_all 0 s c = None"
| "fetch_all (Suc n) s c =
     (case next_chunk s c of
        (Inl e, s', c') \<Rightarrow> Some ([], Some e, s', c')
      | (Inr None, s', c') \<Rightarrow> Some ([], None, s', c')
      | (Inr (Some rows), s', c') \<Rightarrow>
          map_option (\<lambda>(chunks, r). (rows # chunks, r)) (fetch_all n s' c'))"

lemma next_chunk_over: "finished s \<Longrightarrow> next_chunk s c = (Inr None, s, c)"
  by (simp add: next_chunk_def)

lemma fetch_all_stream:
  assumes "answers ms" "quiet c" "unread c = wire (ms @ [ReadyForQuery t]) @ rest" "0 < chunk_size s"
    and "\<not> finished s" "qs_conn s" "length ms + 1 < n"
  shows "\<exists>s' c'. fetch_all n s c =
      Some (chunked (chunk_size s) ms, map_option parse_error_response (first_error ms), s', c') \<and>
    advanced c rest c' \<and> finished s' \<and> \<not> qs_conn s' \<and>
    (first_error ms = None \<longrightarrow> s' = release (foldl seen s ms))"
  using assms
proof (induction "length ms" arbitrary: ms c s n rule: less_induct)
  case less
  obtain k where n: "n = Suc (Suc k)"
    using less.prems(7) by (cases n; cases "n - 1") auto
  obtain rs st where tk: "take_rows (chunk_size s) ms = (rs, st)"
    by (cases "take_rows (chunk_size s) ms")
  note spec = take_rows_spec [OF tk less.prems(4)]
  have nc: "next_chunk s c = chunk_loop [] s c"
    using less.prems(5,6) by (simp add: next_chunk_def)
  note call = chunk_loop_stream [of ms c t rest "[]" s rs st, OF less.prems(1-3)]
  show ?case
  proof (cases st)
    case (Full ms')
    with call less.prems(4) tk obtain s' c' where s': "next_chunk s c = (Inr (Some rs), s', c')" "answers ms'"
        "advanced c (wire (ms' @ [ReadyForQuery t]) @ rest) c'" "foldl seen s' ms' = foldl seen s ms"
        "chunk_size s' = chunk_size s" "finished s' = finished s" "qs_conn s' = qs_conn s"
      by (auto simp: nc)
    then have c': "quiet c'" "unread c' = wire (ms' @ [ReadyForQuery t]) @ rest"
      by (simp_all add: advanced_def)
    have len: "length ms' < length ms"
      using take_rows_shorter tk Full by blast
    then have "length ms' + 1 < Suc k"
      using less.prems(7) n by simp
    from less.hyps [OF len s'(2) c', of s' "Suc k"] this s'(4-7) less.prems(4-6) obtain s2 c2 where
      "fetch_all (Suc k) s' c' =
        Some (chunked (chunk_size s) ms', map_option parse_error_response (first_error ms'), s2, c2)"
      "advanced c' rest c2" "finished s2" "\<not> qs_conn s2" "first_error ms' = None \<longrightarrow> s2 = release (foldl seen s ms)"
      by auto
    moreover have "chunked (chunk_size s) ms = rs # chunked (chunk_size s) ms'" "first_error ms = first_error ms'"
      using tk Full spec by (simp_all add: chunked.simps [of "chunk_size s" ms])
    ultimately show ?thesis
      using advanced_trans [OF s'(3)] by (simp add: n s'(1) del: fetch_all.simps(2)) (simp add: s'(1) fetch_all.simps(2) [of "Suc k"])
  next
    case Ended
    with call less.prems(4) tk obtain c' where c': "next_chunk s c =
        (Inr (if rs = [] then None else Some rs), release (foldl seen s ms), c')" "advanced c rest c'"
      by (auto simp: nc)
    moreover have "finished (release (foldl seen s ms))" "\<not> qs_conn (release (foldl seen s ms))"
      by (simp_all add: release_def)
    ultimately show ?thesis
      using tk Ended spec by (auto simp: n chunked.simps [of "chunk_size s" ms] next_chunk_over)
  next
    case (Failed b)
    with call less.prems(4) tk obtain s' c' where
      "next_chunk s c = (Inl (parse_error_response b), release s', c')" "advanced c rest c'"
      by (auto simp: nc)
    then show ?thesis
      using tk Failed spec by (auto simp: n chunked.simps [of "chunk_size s" ms] release_def)
  qed
qed

section \<open>Properties\<close>

text \<open>C25. A stream takes exactly its own answer. Whatever the network does and whatever sequence of
  \<open>next_chunk\<close> and \<open>drain_to_ready\<close> calls a consumer makes, after the stream is dropped the
  connection is either marked desynchronized or has read from the stream's start up to the first
  \<open>ReadyForQuery\<close> and nothing beyond it: no early drop, error or repeated call leaves rows of this query
  for the next one, and none reads into the answer of the next one. The same holds of prepared streams.\<close>

theorem stream_takes_its_own_answer:
  "(case use_stream next_chunk drain_to_ready calls (QueryStream_new n) c of
      (s, c') \<Rightarrow> desynchronized (drop_stream s c') \<or> own_answer c (drop_stream s c')) \<and>
   (case use_stream ps_next_chunk ps_drain_to_ready calls (PreparedQueryStream_new n columns) c of
      (s, c') \<Rightarrow> desynchronized (ps_drop s c') \<or> own_answer c (ps_drop s c'))"
  using query_stream.use_then_close [of "QueryStream_new n" calls c]
    prepared_stream.use_then_close [of "PreparedQueryStream_new n columns" calls c]
  by (auto simp: QueryStream_new_def PreparedQueryStream_new_def split: prod.split)

end
