(* ===== verification/Sync_Client.thy ===== *)
theory Sync_Client
  imports Query_Streams Rust_Strings
begin

text \<open>
  The synchronous client, \<open>hyperdb-api-core/src/client/client.rs\<close>: requests on the connection behind
  its mutex, notices handed to a receiver, streams and COPY writers that keep the guard while
  they are open. Opening a connection and the separate connection of \<open>cancel\<close> are in \<open>Tls_Session\<close>.
\<close>

section \<open>The client\<close>

text \<open>The receiver is a closure of the caller; \<open>delivered\<close> is what it was called with, in order. Without
  a receiver notices are only logged.\<close>

record Client =
  connection :: Mutex
  notice_receiver :: bool
  delivered :: "Notice list"

definition set_notice_receiver :: "bool \<Rightarrow> Client \<Rightarrow> Client" where
  "set_notice_receiver receiver cl = cl\<lparr>notice_receiver := receiver\<rparr>"

fun notices_of :: "Message list \<Rightarrow> Notice list" where
  "notices_of [] = []"
| "notices_of (NoticeResponse body # ms) = from_response_body body # notices_of ms"
| "notices_of (m # ms) = notices_of ms"

definition process_notices :: "Message list \<Rightarrow> Client \<Rightarrow> Client" where
  "process_notices messages cl =
     (if notice_receiver cl then cl\<lparr>delivered := delivered cl @ notices_of messages\<rparr> else cl)"

definition Client_parameter_status :: "string \<Rightarrow> Client \<Rightarrow> string option reply" where
  "Client_parameter_status name cl =
     (if held (connection cl) then Blocks
      else if poisoned (connection cl) then Returns (Inr None)
      else Returns (Inr (parameter_status name (guarded (connection cl)))))"

definition is_alive :: "Client \<Rightarrow> bool reply" where
  "is_alive cl = (if held (connection cl) then Blocks else Returns (Inr (\<not> poisoned (connection cl))))"

text \<open>\<open>let messages = conn.request(..)?; drop(conn); self.process_notices(&messages); ...\<close>, the shape of every
  collecting request.\<close>

definition collecting ::
  "(RawConnection \<Rightarrow> Message list outcome) \<Rightarrow> (Message list \<Rightarrow> Error + 'a) \<Rightarrow> Client \<Rightarrow> 'a reply \<times> Client" where
  "collecting request produce cl =
     (case with_lock request (connection cl) of
        (Blocks, m) \<Rightarrow> (Blocks, cl\<lparr>connection := m\<rparr>)
      | (Panics, m) \<Rightarrow> (Panics, cl\<lparr>connection := m\<rparr>)
      | (Returns (Inl e), m) \<Rightarrow> (Returns (Inl e), cl\<lparr>connection := m\<rparr>)
      | (Returns (Inr messages), m) \<Rightarrow>
          (Returns (produce messages), process_notices messages (cl\<lparr>connection := m\<rparr>)))"

fun row_loop :: "Column list option \<Rightarrow> Row list \<Rightarrow> Message list \<Rightarrow> Error + Row list" where
  "row_loop columns rows [] = Inr rows"
| "row_loop columns rows (RowDescription d n # ms) = row_loop (Some (description_columns d n)) rows ms"
| "row_loop columns rows (DataRow d # ms) =
     (case columns of
        None \<Rightarrow> row_loop columns rows ms
      | Some cols \<Rightarrow> try_bind (Row_new cols d) (\<lambda>row. row_loop columns (rows @ [row]) ms))"
| "row_loop columns rows (m # ms) = row_loop columns rows ms"

definition Client_query :: "string \<Rightarrow> Client \<Rightarrow> Row list reply \<times> Client" where
  "Client_query q cl = collecting (simple_query q) (row_loop None []) cl"

definition query_fast :: "string \<Rightarrow> Client \<Rightarrow> StreamRow list reply \<times> Client" where
  "query_fast q cl = collecting (query_binary q) (\<lambda>messages. Inr (rows_of messages)) cl"

text \<open>\<open>parse_affected_rows\<close> of \<open>client.rs\<close>, where an unknown tag or a bad count is \<open>None\<close>.\<close>

definition parse_affected_rows :: "string \<Rightarrow> nat option" where
  "parse_affected_rows tag =
     (let parts = split_whitespace tag
      in case parts of
           [] \<Rightarrow> None
         | verb # _ \<Rightarrow>
             if verb = ''INSERT'' then count_at 2 parts
             else if verb \<in> {''UPDATE'', ''DELETE'', ''SELECT'', ''COPY''} then count_at 1 parts
             else None)"

fun affected_loop :: "nat \<Rightarrow> Message list \<Rightarrow> nat" where
  "affected_loop affected [] = affected"
| "affected_loop affected (CommandComplete body # ms) =
     (case CommandComplete_tag body of
        Inl _ \<Rightarrow> affected_loop affected ms
      | Inr tag \<Rightarrow>
          (case parse_affected_rows tag of
             None \<Rightarrow> affected_loop affected ms
           | Some count \<Rightarrow> affected_loop count ms))"
| "affected_loop affected (m # ms) = affected_loop affected ms"

definition exec :: "string \<Rightarrow> Client \<Rightarrow> nat reply \<times> Client" where
  "exec q cl = collecting (simple_query q) (\<lambda>messages. Inr (affected_loop 0 messages)) cl"

fun map_reply :: "('a \<Rightarrow> 'b) \<Rightarrow> 'a reply \<Rightarrow> 'b reply" where
  "map_reply f Blocks = Blocks"
| "map_reply f Panics = Panics"
| "map_reply f (Returns r) = Returns (map_sum id f r)"

definition try_exec :: "string \<Rightarrow> Client \<Rightarrow> nat option reply \<times> Client" where
  "try_exec q cl =
     (if held (connection cl) then (Returns (Inr None), cl)
      else (case exec q cl of (r, cl') \<Rightarrow> (map_reply Some r, cl')))"

definition batch_execute :: "string \<Rightarrow> Client \<Rightarrow> unit reply \<times> Client" where
  "batch_execute q cl = collecting (simple_query q) (\<lambda>_. Inr ()) cl"

definition on_connection :: "(Mutex \<Rightarrow> 'a reply \<times> Mutex) \<Rightarrow> Client \<Rightarrow> 'a reply \<times> Client" where
  "on_connection f cl = (case f (connection cl) of (r, m) \<Rightarrow> (r, cl\<lparr>connection := m\<rparr>))"

definition Client_prepare_typed ::
  "string \<Rightarrow> u32 list \<Rightarrow> u64 \<Rightarrow> Client \<Rightarrow> PreparedStatement reply \<times> u64 \<times> Client" where
  "Client_prepare_typed q param_types counter cl =
     (case prepare q param_types counter (connection cl) of
        (r, counter', m) \<Rightarrow> (r, counter', cl\<lparr>connection := m\<rparr>))"

definition Client_prepare :: "string \<Rightarrow> u64 \<Rightarrow> Client \<Rightarrow> PreparedStatement reply \<times> u64 \<times> Client" where
  "Client_prepare q counter cl = Client_prepare_typed q [] counter cl"

definition Client_execute :: "PreparedStatement \<Rightarrow> bytes option list \<Rightarrow> Client \<Rightarrow> Row list reply \<times> Client" where
  "Client_execute statement params cl = on_connection (execute_prepared statement params) cl"

definition Client_execute_no_result ::
  "PreparedStatement \<Rightarrow> bytes option list \<Rightarrow> ParamFormat list \<Rightarrow> Client \<Rightarrow> nat reply \<times> Client" where
  "Client_execute_no_result statement params param_formats cl =
     on_connection (execute_prepared_no_result_with_formats statement params param_formats) cl"

definition Client_close :: "Client \<Rightarrow> unit reply \<times> Client" where
  "Client_close cl = on_connection (with_lock (\<lambda>c. Some (terminate c))) cl"

definition Client_copy_out :: "string \<Rightarrow> Client \<Rightarrow> bytes reply \<times> Client" where
  "Client_copy_out q cl = on_connection (with_lock (copy_out q)) cl"

section \<open>Streams and writers\<close>

text \<open>A request whose success moves the guard into the returned value: the mutex stays held.\<close>

definition with_guard :: "(RawConnection \<Rightarrow> unit outcome) \<Rightarrow> 'a \<Rightarrow> Mutex \<Rightarrow> 'a reply \<times> Mutex" where
  "with_guard start v m =
     (case with_lock start m of
        (Returns (Inr _), m') \<Rightarrow> (Returns (Inr v), m'\<lparr>held := True\<rparr>)
      | (Returns (Inl e), m') \<Rightarrow> (Returns (Inl e), m')
      | (Panics, m') \<Rightarrow> (Panics, m')
      | (Blocks, m') \<Rightarrow> (Blocks, m'))"

definition query_streaming :: "string \<Rightarrow> nat \<Rightarrow> Client \<Rightarrow> QueryStream reply \<times> Client" where
  "query_streaming q n cl = on_connection (with_guard (start_query_binary q) (QueryStream_new n)) cl"

definition execute_streaming_with_formats ::
  "PreparedStatement \<Rightarrow> bytes option list \<Rightarrow> ParamFormat list \<Rightarrow> nat \<Rightarrow> Client \<Rightarrow> PreparedQueryStream reply \<times> Client" where
  "execute_streaming_with_formats statement params param_formats n cl =
     on_connection (with_guard
       (\<lambda>c. if param_formats = [] then
              start_execute_prepared (stmt_name statement) params (length (stmt_columns statement)) c
            else start_execute_prepared_with_formats (stmt_name statement) params param_formats
              (length (stmt_columns statement)) c)
       (PreparedQueryStream_new n (stmt_columns statement))) cl"

definition execute_streaming ::
  "PreparedStatement \<Rightarrow> bytes option list \<Rightarrow> nat \<Rightarrow> Client \<Rightarrow> PreparedQueryStream reply \<times> Client" where
  "execute_streaming statement params n cl = execute_streaming_with_formats statement params [] n cl"

text \<open>A stream's call, on the client it holds: the guard is released when the stream gives it up.\<close>

definition stream_fetch ::
  "QueryStream \<Rightarrow> Client \<Rightarrow> (Error + StreamRow list option) \<times> QueryStream \<times> Client" where
  "stream_fetch s cl =
     (case next_chunk s (guarded (connection cl)) of
        (r, s', c) \<Rightarrow> (r, s', cl\<lparr>connection := (connection cl)\<lparr>guarded := c, held := qs_conn s'\<rparr>\<rparr>))"

definition stream_drop :: "QueryStream \<Rightarrow> Client \<Rightarrow> Client" where
  "stream_drop s cl =
     (let c = drop_stream s (guarded (connection cl))
      in cl\<lparr>connection := (connection cl)\<lparr>guarded := c, held := False\<rparr>\<rparr>)"

subsection \<open>\<open>CopyInWriter\<close>\<close>

record CopyInWriter =
  completed :: bool

definition copy_in_with_format :: "string \<Rightarrow> string list \<Rightarrow> string \<Rightarrow> Client \<Rightarrow> CopyInWriter reply \<times> Client" where
  "copy_in_with_format table_name columns format cl =
     on_connection (with_guard (start_copy_in_with_format table_name columns format) \<lparr>completed = False\<rparr>) cl"

definition copy_in :: "string \<Rightarrow> string list \<Rightarrow> Client \<Rightarrow> CopyInWriter reply \<times> Client" where
  "copy_in table_name columns cl = copy_in_with_format table_name columns ''HYPERBINARY'' cl"

definition copy_in_raw :: "string \<Rightarrow> Client \<Rightarrow> CopyInWriter reply \<times> Client" where
  "copy_in_raw q cl =
     (if \<not> starts_with (to_ascii_uppercase (trim_start q)) ''COPY'' then
        (Returns (Inl (query_error (''copy_in_raw() requires a COPY statement. '' @
           ''The query must start with '' @ [CHR 0x27] @ ''COPY'' @ [CHR 0x27] @ ''.''))), cl)
      else on_connection (with_guard (start_copy_in_raw q) \<lparr>completed = False\<rparr>) cl)"

text \<open>The methods of the writer, on the connection it holds. \<open>finish\<close> and \<open>cancel\<close> consume the writer:
  they set \<open>completed\<close>, so that dropping it afterwards does nothing.\<close>

definition Writer_send :: "bytes \<Rightarrow> RawConnection \<Rightarrow> unit outcome" where
  "Writer_send data c = send_copy_data data c"

definition Writer_flush :: "RawConnection \<Rightarrow> unit outcome" where
  "Writer_flush c = Some (flush c)"

definition Writer_send_direct :: "bytes \<Rightarrow> RawConnection \<Rightarrow> unit outcome" where
  "Writer_send_direct data c = send_copy_data_direct data c"

definition Writer_flush_stream :: "RawConnection \<Rightarrow> unit outcome" where
  "Writer_flush_stream c = Some (flush_stream c)"

text \<open>\<open>Drop\<close>; the flag says whether the thread is unwinding from a panic. A panic inside \<open>cancel_copy\<close>
  itself is \<open>None\<close>.\<close>

definition Writer_drop :: "bool \<Rightarrow> CopyInWriter \<Rightarrow> RawConnection \<Rightarrow> RawConnection option" where
  "Writer_drop panicking w c =
     (if completed w then Some c
      else if panicking then Some (mark_desynchronized c)
      else
        (case cancel_copy ''CopyInWriter dropped without finish() or cancel()'' c of
           None \<Rightarrow> None
         | Some (Inl _, c') \<Rightarrow> Some (mark_desynchronized c')
         | Some (Inr _, c') \<Rightarrow> Some c'))"

definition Writer_finish :: "CopyInWriter \<Rightarrow> RawConnection \<Rightarrow> nat outcome" where
  "Writer_finish w c =
     (case finish_copy c of
        None \<Rightarrow> None
      | Some (r, c') \<Rightarrow> map_option (Pair r) (Writer_drop False (w\<lparr>completed := True\<rparr>) c'))"

definition Writer_cancel :: "string \<Rightarrow> CopyInWriter \<Rightarrow> RawConnection \<Rightarrow> unit outcome" where
  "Writer_cancel reason w c =
     (case cancel_copy reason c of
        None \<Rightarrow> None
      | Some (r, c') \<Rightarrow> map_option (Pair r) (Writer_drop False (w\<lparr>completed := True\<rparr>) c'))"

section \<open>Properties\<close>

lemma rows_of_append: "rows_of (xs @ ys) = rows_of xs @ rows_of ys"
proof (induction xs)
  case (Cons m xs)
  then show ?case
    by (cases m) simp_all
qed simp

fun first_description :: "Message list \<Rightarrow> Column list option" where
  "first_description [] = None"
| "first_description (RowDescription d n # ms) = Some (description_columns d n)"
| "first_description (m # ms) = first_description ms"

lemma schema_seen:
  "schema (foldl seen s ms) = (if schema_read s then schema s else
     case first_description ms of None \<Rightarrow> schema s | Some cols \<Rightarrow> Some cols)"
proof (induction ms arbitrary: s)
  case (Cons m ms)
  then show ?case
    by (cases m) simp_all
qed simp

lemma schema_release [simp]: "schema (release s) = schema s"
  by (simp add: release_def)

lemma with_guard_usable:
  "usable m \<Longrightarrow> start (guarded m) = Some (Inr (), c) \<Longrightarrow>
     with_guard start v m = (Returns (Inr v), m\<lparr>guarded := c, held := True\<rparr>)"
  by (simp add: with_guard_def with_lock_usable)

lemma collecting_usable:
  assumes "usable (connection cl)" "request (guarded (connection cl)) = Some (r, c)"
  shows "\<exists>cl'. collecting request produce cl = (Returns (try_bind r produce), cl') \<and>
    connection cl' = (connection cl)\<lparr>guarded := c\<rparr>"
  using with_lock_usable [of "connection cl" request, OF assms]
  by (cases r) (simp_all add: collecting_def process_notices_def)

text \<open>C22. Streaming and collecting are the same query. On a connection in step with a server that
  answers the query, a consumer that takes chunks from \<open>query_streaming\<close> until the end gets, in order,
  exactly the rows \<open>query_fast\<close> returns, or fails with the same error. Every chunk is non-empty and
  every chunk but the last is full; the stream then has given up the guard, the schema is the first
  row description, and both ways leave the connection in step with the same bytes sent and unread.\<close>

theorem streaming_equals_collecting:
  assumes "usable (connection cl)" "in_sync (guarded (connection cl))" "answers ms"
    and "unread (guarded (connection cl)) = wire (ms @ [ReadyForQuery t]) @ rest" "length q + 8 < 2 ^ 31"
  shows "\<exists>s cl1 chunks err s' c cl2.
    query_streaming q n cl = (Returns (Inr s), cl1) \<and> held (connection cl1) \<and>
    fetch_all (length ms + 2) s (guarded (connection cl1)) = Some (chunks, err, s', c) \<and>
    query_fast q cl = (Returns (case err of None \<Rightarrow> Inr (concat chunks) | Some e \<Rightarrow> Inl e), cl2) \<and>
    list_all (\<lambda>rs. 0 < length rs \<and> length rs \<le> max n 1) chunks \<and>
    list_all (\<lambda>rs. length rs = max n 1) (butlast chunks) \<and>
    finished s' \<and> \<not> qs_conn s' \<and> (err = None \<longrightarrow> schema s' = first_description ms) \<and>
    in_sync c \<and> unread c = rest \<and>
    in_sync (guarded (connection cl2)) \<and> unread (guarded (connection cl2)) = rest \<and>
    sent (conn_stream c) = sent (conn_stream (guarded (connection cl2)))"
proof -
  let ?c = "guarded (connection cl)" and ?b = "binary_query_frames q" and ?s = "QueryStream_new n"
  have c: "is_healthy ?c" "write_buf ?c = []"
    using assms(2) by (simp_all add: in_sync_def)
  obtain c1 where c1: "flush (?c\<lparr>write_buf := ?b\<rparr>) = (Inr (), c1)" "in_sync c1" "unread c1 = unread ?c"
      "sent (conn_stream c1) = sent (conn_stream ?c) @ ?b"
    using flush_request [OF assms(2)] by metis
  let ?cl1 = "cl\<lparr>connection := (connection cl)\<lparr>guarded := c1, held := True\<rparr>\<rparr>"
  have stream: "query_streaming q n cl = (Returns (Inr ?s), ?cl1)"
    using with_guard_usable [of "connection cl" "start_query_binary q" c1 ?s] assms(1) c c1(1) emit_binary_query(1) [OF assms(5) c(1)]
    by (simp add: query_streaming_def on_connection_def)
  have q1: "quiet c1" "unread c1 = wire (ms @ [ReadyForQuery t]) @ rest"
    using c1(2,3) assms(4) by (simp_all add: in_sync_def)
  have new: "0 < chunk_size ?s" "\<not> finished ?s" "qs_conn ?s" "chunk_size ?s = max n 1"
    by (simp_all add: QueryStream_new_def)
  have fuel: "length ms + 1 < length ms + 2"
    by simp
  obtain s' c2 where fetch: "fetch_all (length ms + 2) ?s c1 =
      Some (chunked (max n 1) ms, map_option parse_error_response (first_error ms), s', c2)"
    "advanced c1 rest c2" "finished s'" "\<not> qs_conn s'" "first_error ms = None \<longrightarrow> s' = release (foldl seen ?s ms)"
    using fetch_all_stream [OF assms(3) q1 new(1-3) fuel] unfolding new(4) by metis
  from collect.every.request_stream [OF assms(2,3) _ assms(4), of ?b "[]", unfolded foldl_snoc append_Nil] obtain c3 where
    "query_binary q ?c = Some (case first_error ms of None \<Rightarrow> Inr (ms @ [ReadyForQuery t])
      | Some e \<Rightarrow> Inl (parse_error_response e), c3)"
    and c3: "in_sync c3" "unread c3 = rest" "sent (conn_stream c3) = sent (conn_stream ?c) @ ?b"
    using emit_binary_query(2) [OF assms(5) c(1)] c(2) by (auto simp: list_all_iff)
  from collecting_usable [of cl "query_binary q", OF assms(1) this(1), of "\<lambda>messages. Inr (rows_of messages)"]
  obtain cl2 where
    "query_fast q cl = (Returns (case first_error ms of None \<Rightarrow> Inr (rows_of ms) | Some e \<Rightarrow> Inl (parse_error_response e)), cl2)"
    "guarded (connection cl2) = c3"
    by (cases "first_error ms") (auto simp: query_fast_def rows_of_append)
  moreover have "first_error ms = None \<longrightarrow> concat (chunked (max n 1) ms) = rows_of ms"
    using chunked_rows [of "max n 1" ms] by simp
  moreover have "first_error ms = None \<longrightarrow> schema s' = first_description ms"
    using fetch(5) schema_seen [of ?s ms] by (auto simp: QueryStream_new_def split: option.splits)
  ultimately show ?thesis
    using stream fetch chunked_sizes [of "max n 1" ms] advanced_in_sync [OF c1(2) fetch(2)] c1(4) c3
    by (intro exI [of _ ?s] exI [of _ ?cl1] exI [of _ "chunked (max n 1) ms"]
        exI [of _ "map_option parse_error_response (first_error ms)"] exI [of _ s'] exI [of _ c2] exI [of _ cl2])
      (auto split: option.splits)
qed

definition demo_client :: "bytes \<Rightarrow> Client" where
  "demo_client bs = \<lparr>connection = demo_mutex bs, notice_receiver = False, delivered = []\<rparr>"

theorem streaming_equals_collecting_witness:
  "\<exists>s cl1 chunks err s' c cl2.
    query_streaming ''SELECT 1'' 2 (demo_client (wire (executed [[Some [1]], [Some [2]], [None]] [] @ [ReadyForQuery 73]) @ [9]))
      = (Returns (Inr s), cl1) \<and>
    fetch_all 7 s (guarded (connection cl1)) = Some (chunks, err, s', c) \<and>
    query_fast ''SELECT 1'' (demo_client (wire (executed [[Some [1]], [Some [2]], [None]] [] @ [ReadyForQuery 73]) @ [9]))
      = (Returns (case err of None \<Rightarrow> Inr (concat chunks) | Some e \<Rightarrow> Inl e), cl2) \<and>
    list_all (\<lambda>rs. length rs = 2) (butlast chunks) \<and> unread c = [9]"
proof -
  let ?ms = "executed [[Some [1]], [Some [2]], [None]] []"
  let ?bs = "wire (?ms @ [ReadyForQuery 73]) @ [9]"
  have "length ?bs > 3"
    using length_server_encode [of BindComplete] by (simp add: executed_def)
  note demo = demo_mutex_usable [OF this]
  have "answers ?ms"
    using answers_no_error [of ?ms]
    by (simp add: executed_def sendable_def put_row_def put_column_def nul_free_bytes_def)
  moreover have "length ?ms + 2 = 7" "max 2 1 = (2 :: nat)"
    by (simp_all add: executed_def)
  ultimately show ?thesis
    using streaming_equals_collecting [of "demo_client ?bs" ?ms 73 "[9]" "''SELECT 1''" 2] demo
    unfolding demo_client_def by (simp only: Client.simps) (simp, metis)
qed

lemma flush_or_desync_Inr: "flush_or_desync c = (Inr u, c') \<longleftrightarrow> flush c = (Inr u, c')"
  by (auto simp: flush_or_desync_def split: prod.splits sum.splits)

text \<open>A writer that is dropped leaves no half-open COPY: unless the connection is marked, the COPY was
  cancelled and the connection has read up to \<open>ReadyForQuery\<close>.\<close>

theorem writer_drop_in_step:
  assumes "\<not> desynchronized c" "Writer_drop panicking \<lparr>completed = False\<rparr> c = Some c'"
  shows "desynchronized c' \<or> (\<exists>c1. reached_ready c1 c' \<and> \<not> panicking)"
proof (cases panicking)
  case True
  with assms(2) show ?thesis
    by (auto simp: Writer_drop_def mark_desynchronized_def)
next
  case False
  note drop = assms(2) [unfolded Writer_drop_def CopyInWriter.simps, simplified False, simplified]
  then obtain r c1 where r: "cancel_copy ''CopyInWriter dropped without finish() or cancel()'' c = Some (r, c1)"
    by (auto split: option.splits)
  show ?thesis
  proof (cases r)
    case (Inl e)
    with r drop show ?thesis
      by (auto simp: mark_desynchronized_def)
  next
    case (Inr u)
    with r drop have "c' = c1"
      by simp
    from r [unfolded cancel_copy_def] Inr obtain c2 where
      "cancel_copy_loop POST_ERROR_DRAIN_CAP c2 = (Inr (), c1)" "\<not> desynchronized c2"
      using assms(1)
      by (auto simp: andthen_Inr flush_or_desync_Inr guard_def emit_def dest!: flush_flag)
    with cancel_loop_reached [of POST_ERROR_DRAIN_CAP c2 "Inr ()" c1] \<open>c' = c1\<close> False show ?thesis
      by auto
  qed
qed

text \<open>While a stream or a writer holds the guard, \<open>try_exec\<close> returns \<open>None\<close> without touching anything;
  once the mutex is poisoned, every request fails the same way.\<close>

lemma try_exec_while_held: "held (connection cl) \<Longrightarrow> try_exec q cl = (Returns (Inr None), cl)"
  by (simp add: try_exec_def)

lemma poisoned_requests_fail:
  assumes "poisoned (connection cl)" "\<not> held (connection cl)"
  shows "Client_query q cl = (Returns (Inl poison_error), cl)" "query_fast q cl = (Returns (Inl poison_error), cl)"
    "exec q cl = (Returns (Inl poison_error), cl)" "batch_execute q cl = (Returns (Inl poison_error), cl)"
    "query_streaming q n cl = (Returns (Inl poison_error), cl)"
    "copy_in table cols cl = (Returns (Inl poison_error), cl)"
  using assms
  by (simp_all add: Client_query_def query_fast_def exec_def batch_execute_def query_streaming_def copy_in_def
      copy_in_with_format_def collecting_def on_connection_def with_guard_def with_lock_def)

end
