(* ===== verification/Bulk_Insert.thy ===== *)
theory Bulk_Insert
  imports Insert_Chunk Sync_Client
begin

text \<open>
  Bulk insertion, \<open>hyperdb-api/src/inserter.rs\<close>: \<open>Inserter\<close>, which streams rows through a COPY session opened
  on the first flush, \<open>ChunkSender\<close>, which sends chunks encoded elsewhere through one session, and
  \<open>MappedInserter\<close>, which goes through a staging table. The transport is that of \<open>transport.rs\<close>: a TCP client
  or gRPC, which refuses writes.

  A call returns its answer with the new state. Query statistics, timing and logging are left out. A
  sender is called from many threads, but the lock around its writer makes each call one step; an
  interleaving is a sequence of calls.
\<close>

section \<open>Answers\<close>

datatype Transport = Tcp Client | Grpc

datatype 'a answer = Blocked | Panicked | Answered "ApiError + 'a"

fun lift_reply :: "'a reply \<Rightarrow> 'a answer" where
  "lift_reply Blocks = Blocked"
| "lift_reply Panics = Panicked"
| "lift_reply (Returns r) = Answered (map_sum from_client_error id r)"

text \<open>The \<open>?\<close> operator.\<close>

definition continue :: "'a answer \<times> 's \<Rightarrow> ('a \<Rightarrow> 's \<Rightarrow> 'b answer \<times> 's) \<Rightarrow> 'b answer \<times> 's" where
  "continue r f =
     (case r of
        (Answered (Inr a), s) \<Rightarrow> f a s
      | (Answered (Inl e), s) \<Rightarrow> (Answered (Inl e), s)
      | (Blocked, s) \<Rightarrow> (Blocked, s)
      | (Panicked, s) \<Rightarrow> (Panicked, s))"

definition execute_command :: "string \<Rightarrow> Transport \<Rightarrow> nat answer \<times> Transport" where
  "execute_command sql t =
     (case t of
        Tcp cl \<Rightarrow> (case exec sql cl of (r, cl') \<Rightarrow> (lift_reply r, Tcp cl'))
      | Grpc \<Rightarrow> (Answered (Inl (Api_FeatureNotSupported
          (''gRPC transport is read-only. Write operations (INSERT, UPDATE, DELETE, DDL) '' @
           ''are not yet supported over gRPC. Use a TCP connection for write operations.''))), t))"

definition try_execute_command :: "string \<Rightarrow> Transport \<Rightarrow> nat option answer \<times> Transport" where
  "try_execute_command sql t =
     (case t of
        Tcp cl \<Rightarrow> (case try_exec sql cl of (r, cl') \<Rightarrow> (lift_reply r, Tcp cl'))
      | Grpc \<Rightarrow> (Answered (Inl (Api_FeatureNotSupported
          ''gRPC transport is read-only. Write operations are not supported over gRPC.'')), t))"

fun supports_writes :: "Transport \<Rightarrow> bool" where
  "supports_writes (Tcp _) = True"
| "supports_writes Grpc = False"

text \<open>A call of the COPY writer, on the connection its guard holds. A writer only exists on a TCP client.\<close>

fun writer_call :: "(RawConnection \<Rightarrow> 'a outcome) \<Rightarrow> Transport \<Rightarrow> 'a answer \<times> Transport" where
  "writer_call f (Tcp cl) =
     (case f (guarded (connection cl)) of
        None \<Rightarrow> (Panicked, Tcp cl)
      | Some (r, c) \<Rightarrow>
          (Answered (map_sum from_client_error id r), Tcp (cl\<lparr>connection := (connection cl)\<lparr>guarded := c\<rparr>\<rparr>)))"
| "writer_call f Grpc = (Panicked, Grpc)"

text \<open>The writer gives up the guard.\<close>

fun unlock :: "Transport \<Rightarrow> Transport" where
  "unlock (Tcp cl) = Tcp (cl\<lparr>connection := (connection cl)\<lparr>held := False\<rparr>\<rparr>)"
| "unlock Grpc = Grpc"

text \<open>Opening the COPY session on first use, as \<open>Inserter\<close> and \<open>ChunkSender\<close> do.\<close>

definition open_copy ::
  "string \<Rightarrow> string \<Rightarrow> string list \<Rightarrow> Transport \<Rightarrow> CopyInWriter answer \<times> Transport" where
  "open_copy who table columns t =
     (case t of
        Tcp cl \<Rightarrow> (case copy_in table columns cl of (r, cl') \<Rightarrow> (lift_reply r, Tcp cl'))
      | Grpc \<Rightarrow> (Answered (Inl (Api_FeatureNotSupported
          (who @ '' requires a TCP connection. gRPC connections do not support COPY operations.''))), t))"

text \<open>Dropping a writer that may be there; the flag says whether the thread is unwinding.\<close>

definition drop_writer :: "bool \<Rightarrow> CopyInWriter option \<Rightarrow> Transport \<Rightarrow> Transport" where
  "drop_writer panicking w t =
     (case (w, t) of
        (Some w, Tcp cl) \<Rightarrow>
          (case Writer_drop panicking w (guarded (connection cl)) of
             None \<Rightarrow> unlock t
           | Some c \<Rightarrow> unlock (Tcp (cl\<lparr>connection := (connection cl)\<lparr>guarded := c\<rparr>\<rparr>)))
      | _ \<Rightarrow> t)"

section \<open>\<open>Inserter\<close>\<close>

record Inserter =
  table_def :: TableDefinition
  chunk :: InsertChunk
  ins_row_count :: nat
  chunk_count :: nat
  ins_writer :: "CopyInWriter option"

definition Inserter_new :: "TableDefinition \<Rightarrow> Transport \<Rightarrow> ApiError + Inserter" where
  "Inserter_new td t =
     (if column_count td = 0 then
        Inl (InvalidTableDefinition ''Table definition must have at least one column'')
      else if \<not> supports_writes t then
        Inl (Api_FeatureNotSupported
          ''Inserter requires a TCP connection. gRPC connections do not support COPY operations.'')
      else Inr \<lparr>table_def = td, chunk = from_table_definition td, ins_row_count = 0, chunk_count = 0,
                ins_writer = None\<rparr>)"

text \<open>The types with an \<open>IntoValue\<close> implementation; references and owned forms are their targets.\<close>

datatype insert_value =
    VNull \<comment> \<open>\<open>Option::None\<close>\<close>
  | VBool bool | VI16 i16 | VI32 i32 | VI64 i64 | VF32 f32 | VF64 f64
  | VStr string | VBytes bytes
  | VDate Date | VTime Time | VTimestamp Timestamp | VOffsetTimestamp OffsetTimestamp
  | VInterval Interval | VNumeric Numeric | VGeography Geography

text \<open>\<open>Inserter::add_numeric\<close>. The other \<open>add_*\<close> of \<open>Inserter\<close> are those of its chunk.\<close>

definition chunk_add_numeric :: "TableDefinition \<Rightarrow> Numeric \<Rightarrow> InsertChunk \<Rightarrow> chunk_result" where
  "chunk_add_numeric td v k =
     (case numeric_for_column td (ic_column_index k) v of
        Inl e \<Rightarrow> Some (Inl e, k)
      | Inr (p, unscaled) \<Rightarrow>
          if unat p \<le> SMALL_NUMERIC_MAX_PRECISION then
            (if in_i64 (sint unscaled) then chunk_add_i64 (word_of_int (sint unscaled)) k
             else Some (Inl (Api_Conversion
               (''Numeric value '' @ show_int (sint unscaled) @ '' is out of range for i64 storage (precision '' @
                show_nat (unat p) @ '')'')), k))
          else chunk_add_data128 (to_le_bytes unscaled) k)"

fun add_value :: "TableDefinition \<Rightarrow> insert_value \<Rightarrow> InsertChunk \<Rightarrow> chunk_result" where
  "add_value td VNull k = chunk_add_null k"
| "add_value td (VBool v) k = chunk_add_bool v k"
| "add_value td (VI16 v) k = chunk_add_i16 v k"
| "add_value td (VI32 v) k = chunk_add_i32 v k"
| "add_value td (VI64 v) k = chunk_add_i64 v k"
| "add_value td (VF32 v) k = chunk_add_f32 v k"
| "add_value td (VF64 v) k = chunk_add_f64 v k"
| "add_value td (VStr v) k = chunk_add_str v k"
| "add_value td (VBytes v) k = chunk_add_bytes v k"
| "add_value td (VDate v) k = chunk_add_date v k"
| "add_value td (VTime v) k = chunk_add_time v k"
| "add_value td (VTimestamp v) k = chunk_add_timestamp v k"
| "add_value td (VOffsetTimestamp v) k = chunk_add_offset_timestamp v k"
| "add_value td (VInterval v) k = chunk_add_interval v k"
| "add_value td (VNumeric v) k = chunk_add_numeric td v k"
| "add_value td (VGeography v) k = chunk_add_geography v k"

definition add_to_inserter ::
  "insert_value \<Rightarrow> Inserter \<times> Transport \<Rightarrow> unit answer \<times> Inserter \<times> Transport" where
  "add_to_inserter v s =
     (case s of (ins, t) \<Rightarrow>
        (case add_value (table_def ins) v (chunk ins) of
           None \<Rightarrow> (Panicked, ins, t)
         | Some (r, k) \<Rightarrow> (Answered r, ins\<lparr>chunk := k\<rparr>, t)))"

definition ensure_writer :: "Inserter \<times> Transport \<Rightarrow> unit answer \<times> Inserter \<times> Transport" where
  "ensure_writer s =
     (case s of (ins, t) \<Rightarrow>
        (if ins_writer ins \<noteq> None then (Answered (Inr ()), ins, t)
         else
           (case open_copy ''Inserter'' (qualified_name (table_def ins)) (map col_name (td_columns (table_def ins))) t of
              (Answered (Inr w), t') \<Rightarrow> (Answered (Inr ()), ins\<lparr>ins_writer := Some w\<rparr>, t')
            | (Answered (Inl e), t') \<Rightarrow> (Answered (Inl e), ins, t')
            | (Blocked, t') \<Rightarrow> (Blocked, ins, t')
            | (Panicked, t') \<Rightarrow> (Panicked, ins, t'))))"

definition on_writer ::
  "(RawConnection \<Rightarrow> 'a outcome) \<Rightarrow> Inserter \<times> Transport \<Rightarrow> 'a answer \<times> Inserter \<times> Transport" where
  "on_writer f s = (case s of (ins, t) \<Rightarrow> (case writer_call f t of (r, t') \<Rightarrow> (r, ins, t')))"

definition Inserter_flush :: "Inserter \<times> Transport \<Rightarrow> unit answer \<times> Inserter \<times> Transport" where
  "Inserter_flush s =
     (case s of (ins, t) \<Rightarrow>
        (if chunk_is_empty (chunk ins) then (Answered (Inr ()), ins, t)
         else
           (case chunk_take (chunk ins) of
              (None, k) \<Rightarrow> (Answered (Inr ()), ins\<lparr>chunk := k\<rparr>, t)
            | (Some buf, k) \<Rightarrow>
                continue (ensure_writer (ins\<lparr>chunk := k\<rparr>, t)) (\<lambda>_ s.
                continue (on_writer (Writer_send_direct buf) s) (\<lambda>_ s.
                continue (on_writer Writer_flush_stream s) (\<lambda>_ s.
                  case s of (ins, t) \<Rightarrow> (Answered (Inr ()), ins\<lparr>chunk_count := chunk_count ins + 1\<rparr>, t)))))))"

definition Inserter_end_row :: "Inserter \<times> Transport \<Rightarrow> unit answer \<times> Inserter \<times> Transport" where
  "Inserter_end_row s =
     (case s of (ins, t) \<Rightarrow>
        (case chunk_end_row (chunk ins) of
           (Inl e, k) \<Rightarrow> (Answered (Inl e), ins\<lparr>chunk := k\<rparr>, t)
         | (Inr _, k) \<Rightarrow>
             let ins = ins\<lparr>chunk := k, ins_row_count := ins_row_count ins + 1\<rparr>
             in if should_flush (chunk ins) then Inserter_flush (ins, t) else (Answered (Inr ()), ins, t)))"

fun add_values :: "insert_value list \<Rightarrow> Inserter \<times> Transport \<Rightarrow> unit answer \<times> Inserter \<times> Transport" where
  "add_values [] s = (Answered (Inr ()), s)"
| "add_values (v # vs) s = continue (add_to_inserter v s) (\<lambda>_ s. add_values vs s)"

definition add_row :: "insert_value list \<Rightarrow> Inserter \<times> Transport \<Rightarrow> unit answer \<times> Inserter \<times> Transport" where
  "add_row values s =
     (let n = column_count (table_def (fst s))
      in if length values \<noteq> n then
           (Answered (Inl (InvalidTableDefinition (''Column count mismatch: expected '' @ show_nat n @
              '' columns but got '' @ show_nat (length values)))), s)
         else continue (add_values values s) (\<lambda>_ s. Inserter_end_row s))"

text \<open>\<open>execute\<close> up to the point where it returns; \<open>finish\<close> takes the writer and releases the guard.\<close>

definition finish_writer :: "Inserter \<times> Transport \<Rightarrow> nat answer \<times> Inserter \<times> Transport" where
  "finish_writer s =
     (case s of (ins, t) \<Rightarrow>
        (case ins_writer ins of
           None \<Rightarrow> (Answered (Inr 0), ins, t)
         | Some w \<Rightarrow>
             (case writer_call (Writer_finish w) t of
                (r, t') \<Rightarrow> (r, ins\<lparr>ins_writer := None\<rparr>, unlock t'))))"

definition execute_body :: "Inserter \<times> Transport \<Rightarrow> nat answer \<times> Inserter \<times> Transport" where
  "execute_body s =
     (if ic_column_index (chunk (fst s)) \<noteq> 0 then
        (Answered (Inl (InvalidTableDefinition ''Incomplete row at execute time'')), s)
      else if ins_row_count (fst s) = 0 then (Answered (Inr 0), s)
      else
        continue (ensure_writer s) (\<lambda>_ s.
        continue (if \<not> chunk_is_empty (chunk (fst s))
                  then on_writer (Writer_send (ic_buffer (chunk (fst s)))) s
                  else (Answered (Inr ()), s)) (\<lambda>_ s.
        continue (on_writer (Writer_send (write_trailer [])) s) (\<lambda>_ s.
          finish_writer s))))"

text \<open>\<open>execute\<close> consumes the inserter: what is left of it is dropped, and an open COPY is aborted.\<close>

definition Inserter_execute :: "Inserter \<times> Transport \<Rightarrow> nat answer \<times> Transport" where
  "Inserter_execute s =
     (case execute_body s of (r, ins, t) \<Rightarrow> (r, drop_writer (r = Panicked) (ins_writer ins) t))"

definition cancel_in_place :: "Inserter \<times> Transport \<Rightarrow> Inserter \<times> Transport" where
  "cancel_in_place s =
     (case s of (ins, t) \<Rightarrow>
        (case ins_writer ins of
           None \<Rightarrow> s
         | Some w \<Rightarrow>
             (ins\<lparr>ins_writer := None\<rparr>, unlock (snd (writer_call (Writer_cancel ''Inserter cancelled'' w) t)))))"

definition Inserter_cancel :: "Inserter \<times> Transport \<Rightarrow> Transport" where
  "Inserter_cancel s = (case cancel_in_place s of (ins, t) \<Rightarrow> drop_writer False (ins_writer ins) t)"

section \<open>\<open>ChunkSender\<close>\<close>

record ChunkSender =
  cs_table_name :: string
  cs_columns :: "string list"
  cs_poisoned :: bool
  cs_writer :: "CopyInWriter option"
  header_sent :: bool
  total_rows :: nat
  chunks_sent :: nat

definition ChunkSender_new :: "TableDefinition \<Rightarrow> ApiError + ChunkSender" where
  "ChunkSender_new td =
     (if column_count td = 0 then
        Inl (InvalidTableDefinition ''Table definition must have at least one column'')
      else Inr \<lparr>cs_table_name = qualified_name td, cs_columns = map col_name (td_columns td),
                cs_poisoned = False, cs_writer = None, header_sent = False, total_rows = 0, chunks_sent = 0\<rparr>)"

definition sender_poison :: ApiError where
  "sender_poison = Api_Internal ''ChunkSender mutex poisoned''"

text \<open>The payload of one chunk: the header stays on the first, and is cut off any other that has one.\<close>

definition data_to_send :: "bool \<Rightarrow> bytes \<Rightarrow> bytes" where
  "data_to_send is_first buf =
     (if is_first then buf
      else if length buf > HYPER_BINARY_HEADER_SIZE \<and> take (length HYPER_BINARY_HEADER) buf = HYPER_BINARY_HEADER
        then drop HYPER_BINARY_HEADER_SIZE buf
      else buf)"

definition sender_open :: "ChunkSender \<times> Transport \<Rightarrow> unit answer \<times> ChunkSender \<times> Transport" where
  "sender_open s =
     (case s of (cs, t) \<Rightarrow>
        (if cs_writer cs \<noteq> None then (Answered (Inr ()), cs, t)
         else
           (case open_copy ''ChunkSender'' (cs_table_name cs) (cs_columns cs) t of
              (Answered (Inr w), t') \<Rightarrow> (Answered (Inr ()), cs\<lparr>cs_writer := Some w\<rparr>, t')
            | (Answered (Inl e), t') \<Rightarrow> (Answered (Inl e), cs, t')
            | (Blocked, t') \<Rightarrow> (Blocked, cs, t')
            | (Panicked, t') \<Rightarrow> (Panicked, cs\<lparr>cs_poisoned := True\<rparr>, t'))))"

definition sender_call ::
  "(RawConnection \<Rightarrow> 'a outcome) \<Rightarrow> ChunkSender \<times> Transport \<Rightarrow> 'a answer \<times> ChunkSender \<times> Transport" where
  "sender_call f s =
     (case s of (cs, t) \<Rightarrow>
        (case writer_call f t of
           (Panicked, t') \<Rightarrow> (Panicked, cs\<lparr>cs_poisoned := True\<rparr>, t')
         | (r, t') \<Rightarrow> (r, cs, t')))"

definition send_chunk :: "InsertChunk \<Rightarrow> ChunkSender \<times> Transport \<Rightarrow> unit answer \<times> ChunkSender \<times> Transport" where
  "send_chunk k s =
     (let rows = ic_row_count k
      in case chunk_take k of
           (None, _) \<Rightarrow> (Answered (Inr ()), s)
         | (Some buf, _) \<Rightarrow>
             if cs_poisoned (fst s) then (Answered (Inl sender_poison), s)
             else
               continue (sender_open s) (\<lambda>_ s.
               case s of (cs, t) \<Rightarrow>
                 let is_first = \<not> header_sent cs; data = data_to_send is_first buf
                 in continue (sender_call (Writer_send_direct data) (cs\<lparr>header_sent := True\<rparr>, t)) (\<lambda>_ s.
                    continue (sender_call Writer_flush_stream s) (\<lambda>_ s.
                    case s of (cs, t) \<Rightarrow>
                      (Answered (Inr ()), cs\<lparr>total_rows := total_rows cs + rows, chunks_sent := chunks_sent cs + 1\<rparr>, t)))))"

definition sender_finish :: "ChunkSender \<times> Transport \<Rightarrow> nat answer \<times> Transport" where
  "sender_finish s =
     (case s of (cs, t) \<Rightarrow>
        (if cs_poisoned cs then (Answered (Inl sender_poison), drop_writer False (cs_writer cs) t)
         else
           (case cs_writer cs of
              None \<Rightarrow> (Answered (Inr 0), t)
            | Some w \<Rightarrow>
                (case writer_call (Writer_send (write_trailer [])) t of
                   (Answered (Inr _), t') \<Rightarrow>
                     (case writer_call (Writer_finish w) t' of (r, t'') \<Rightarrow> (r, unlock t''))
                 | (Answered (Inl e), t') \<Rightarrow> (Answered (Inl e), drop_writer False (Some w) t')
                 | (Blocked, t') \<Rightarrow> (Blocked, t')
                 | (Panicked, t') \<Rightarrow> (Panicked, drop_writer True (Some w) t')))))"

section \<open>\<open>MappedInserter\<close>\<close>

record ColumnMapping =
  map_column_name :: string
  map_expression :: "string option"

definition ColumnMapping_new :: "string \<Rightarrow> ColumnMapping" where
  "ColumnMapping_new name = \<lparr>map_column_name = name, map_expression = None\<rparr>"

definition with_expression :: "string \<Rightarrow> string \<Rightarrow> ColumnMapping" where
  "with_expression name e = \<lparr>map_column_name = name, map_expression = Some e\<rparr>"

definition is_direct :: "ColumnMapping \<Rightarrow> bool" where
  "is_direct m \<longleftrightarrow> map_expression m = None"

definition to_select_item :: "ColumnMapping \<Rightarrow> string" where
  "to_select_item m =
     (let name = [CHR 0x22] @ replace_char (CHR 0x22) [CHR 0x22, CHR 0x22] (map_column_name m) @ [CHR 0x22]
      in case map_expression m of
           Some e \<Rightarrow> e @ '' AS '' @ name
         | None \<Rightarrow> name)"

record StagingTable =
  staging_name :: string
  dropped :: bool

definition staging_drop_sql :: "StagingTable \<Rightarrow> string" where
  "staging_drop_sql st = ''DROP TABLE IF EXISTS '' @ SqlIdentifier_fmt (staging_name st)"

definition drop_now :: "StagingTable \<times> Transport \<Rightarrow> unit answer \<times> StagingTable \<times> Transport" where
  "drop_now s =
     (case s of (st, t) \<Rightarrow>
        (if dropped st then (Answered (Inr ()), st, t)
         else
           (case execute_command (staging_drop_sql st) t of
              (Answered (Inr _), t') \<Rightarrow> (Answered (Inr ()), st\<lparr>dropped := True\<rparr>, t')
            | (Answered (Inl e), t') \<Rightarrow> (Answered (Inl e), st\<lparr>dropped := True\<rparr>, t')
            | (Blocked, t') \<Rightarrow> (Blocked, st\<lparr>dropped := True\<rparr>, t')
            | (Panicked, t') \<Rightarrow> (Panicked, st\<lparr>dropped := True\<rparr>, t'))))"

text \<open>\<open>Drop for StagingTable\<close>\<close>

definition drop_staging :: "bool \<Rightarrow> StagingTable \<times> Transport \<Rightarrow> Transport" where
  "drop_staging panicking s =
     (case s of (st, t) \<Rightarrow>
        (if dropped st \<or> panicking then t else snd (try_execute_command (staging_drop_sql st) t)))"

record MappedInserter =
  inner :: Inserter
  target_table :: TableName
  mappings :: "ColumnMapping list"
  staging :: StagingTable

definition staging_table_name :: "nat \<Rightarrow> u64 \<Rightarrow> string" where
  "staging_table_name pid counter =
     ''_hyper_staging_'' @ show_nat pid @ ''_'' @ show_nat (unat counter)"

definition staging_definition :: "TableDefinition \<Rightarrow> string \<Rightarrow> TableDefinition" where
  "staging_definition inserter_def name = set_persistence Temporary (inserter_def\<lparr>td_name := name\<rparr>)"

text \<open>\<open>MappedInserter::new\<close>; the counter is the process-wide one and \<open>fetch_add\<close> advances it once the target
  has been converted.\<close>

definition MappedInserter_new ::
  "nat \<Rightarrow> u64 \<Rightarrow> TableDefinition \<Rightarrow> ApiError + TableName \<Rightarrow> ColumnMapping list \<Rightarrow> Transport
     \<Rightarrow> MappedInserter answer \<times> u64 \<times> Transport" where
  "MappedInserter_new pid counter inserter_def target ms t =
     (case target of
        Inl e \<Rightarrow> (Answered (Inl e), counter, t)
      | Inr target \<Rightarrow>
          let name = staging_table_name pid counter; counter = counter + 1;
              staging_def = staging_definition inserter_def name
          in case to_create_sql staging_def True of
               Inl e \<Rightarrow> (Answered (Inl e), counter, t)
             | Inr sql \<Rightarrow>
                 (case execute_command sql t of
                    (Answered (Inr _), t') \<Rightarrow>
                      let st = \<lparr>staging_name = name, dropped = False\<rparr>
                      in (case Inserter_new staging_def t' of
                            Inl e \<Rightarrow> (Answered (Inl e), counter, drop_staging False (st, t'))
                          | Inr ins \<Rightarrow>
                              (Answered (Inr \<lparr>inner = ins, target_table = target, mappings = ms, staging = st\<rparr>),
                               counter, t'))
                  | (Answered (Inl e), t') \<Rightarrow> (Answered (Inl e), counter, t')
                  | (Blocked, t') \<Rightarrow> (Blocked, counter, t')
                  | (Panicked, t') \<Rightarrow> (Panicked, counter, t')))"

definition insert_select_sql :: "TableName \<Rightarrow> ColumnMapping list \<Rightarrow> StagingTable \<Rightarrow> string" where
  "insert_select_sql target ms st =
     ''INSERT INTO '' @ TableName_fmt target @ '' ('' @
       join '', '' (map (\<lambda>m. SqlIdentifier_fmt (map_column_name m)) ms) @ '') SELECT '' @
       join '', '' (map to_select_item ms) @ '' FROM '' @ SqlIdentifier_fmt (staging_name st)"

definition Mapped_execute :: "MappedInserter \<times> Transport \<Rightarrow> nat answer \<times> Transport" where
  "Mapped_execute s =
     (case s of (mi, t) \<Rightarrow>
        (case Inserter_execute (inner mi, t) of
           (Answered (Inr _), t1) \<Rightarrow>
             (case execute_command (insert_select_sql (target_table mi) (mappings mi) (staging mi)) t1 of
                (Answered (Inr rows), t2) \<Rightarrow>
                  (case drop_now (staging mi, t2) of
                     (Answered (Inr _), st, t3) \<Rightarrow> (Answered (Inr rows), drop_staging False (st, t3))
                   | (Answered (Inl e), st, t3) \<Rightarrow> (Answered (Inl e), drop_staging False (st, t3))
                   | (Blocked, st, t3) \<Rightarrow> (Blocked, t3)
                   | (Panicked, st, t3) \<Rightarrow> (Panicked, drop_staging True (st, t3)))
              | (Answered (Inl e), t2) \<Rightarrow> (Answered (Inl e), drop_staging False (staging mi, t2))
              | (Blocked, t2) \<Rightarrow> (Blocked, t2)
              | (Panicked, t2) \<Rightarrow> (Panicked, drop_staging True (staging mi, t2)))
         | (Answered (Inl e), t1) \<Rightarrow> (Answered (Inl e), drop_staging False (staging mi, t1))
         | (Blocked, t1) \<Rightarrow> (Blocked, t1)
         | (Panicked, t1) \<Rightarrow> (Panicked, drop_staging True (staging mi, t1))))"

definition Mapped_cancel :: "MappedInserter \<times> Transport \<Rightarrow> Transport" where
  "Mapped_cancel s =
     (case s of (mi, t) \<Rightarrow>
        (case cancel_in_place (inner mi, t) of (ins, t1) \<Rightarrow>
          (case drop_now (staging mi, t1) of (_, st, t2) \<Rightarrow> drop_staging False (st, drop_writer False (ins_writer ins) t2))))"

end
