(* ===== verification/Bulk_Insert_Laws.thy ===== *)
theory Bulk_Insert_Laws
  imports Bulk_Insert
begin

text \<open>
  What bulk insertion puts on the wire. A row is a list of cells of the COPY layout (\<open>stored_row\<close>); the
  laws of \<open>InsertChunk\<close> say that adding its values appends exactly their bytes. The locale
  \<open>copy_owner\<close> states what \<open>Inserter\<close> and \<open>ChunkSender\<close> have in common, a COPY session that is opened on first
  use, and carries the invariant of that session.
\<close>

lemma continue_ok [simp]: "continue (Answered (Inr a), s) f = f a s"
  by (simp add: continue_def)

section \<open>Values and cells\<close>

definition var_cell :: "bytes \<Rightarrow> copy_cell option" where
  "var_cell b = (if length b < 2 ^ 32 then Some (Some (CVar b)) else None)"

text \<open>The cell a value is stored as in a column, if it can be.\<close>

fun stored :: "TableDefinition \<Rightarrow> nat \<Rightarrow> insert_value \<Rightarrow> copy_cell option" where
  "stored td i VNull = Some None"
| "stored td i (VBool v) = Some (Some (CBool v))"
| "stored td i (VI16 v) = Some (Some (CI16 v))"
| "stored td i (VI32 v) = Some (Some (CI32 v))"
| "stored td i (VI64 v) = Some (Some (CI64 v))"
| "stored td i (VF32 v) = Some (Some (CI32 v))"
| "stored td i (VF64 v) = Some (Some (CI64 v))"
| "stored td i (VStr v) = var_cell (as_bytes v)"
| "stored td i (VBytes v) = var_cell v"
| "stored td i (VDate v) = Some (Some (CI32 (to_julian_day v)))"
| "stored td i (VTime v) = Some (Some (CI64 (Time_to_microseconds v)))"
| "stored td i (VTimestamp v) = map_option (\<lambda>us. Some (CI64 us)) (Timestamp_to_microseconds v)"
| "stored td i (VOffsetTimestamp v) = map_option (\<lambda>us. Some (CI64 us)) (to_microseconds_utc v)"
| "stored td i (VInterval v) = Some (Some (CData128 (Interval_encode v)))"
| "stored td i (VNumeric v) =
     (case numeric_for_column td i v of
        Inl _ \<Rightarrow> None
      | Inr (p, unscaled) \<Rightarrow>
          if unat p \<le> SMALL_NUMERIC_MAX_PRECISION then
            (if in_i64 (sint unscaled) then Some (Some (CI64 (word_of_int (sint unscaled)))) else None)
          else Some (Some (CData128 (to_le_bytes unscaled))))"
| "stored td i (VGeography v) = var_cell (geo_data v)"

text \<open>The state after a cell: header first, then its bytes.\<close>

definition pushed :: "bytes \<Rightarrow> InsertChunk \<Rightarrow> InsertChunk" where
  "pushed bs k = (let k' = chunk_ensure_header k
     in k'\<lparr>ic_buffer := ic_buffer k' @ bs, ic_column_index := ic_column_index k' + 1\<rparr>)"

lemma ensure_header_fields [simp]:
  "ic_column_index (chunk_ensure_header k) = ic_column_index k"
  "ic_column_count (chunk_ensure_header k) = ic_column_count k"
  "ic_row_count (chunk_ensure_header k) = ic_row_count k"
  "ic_column_nullable (chunk_ensure_header k) = ic_column_nullable k"
  "ic_header_written (chunk_ensure_header k)"
  "current_column_nullable (chunk_ensure_header k) = current_column_nullable k"
  by (simp_all add: chunk_ensure_header_def current_column_nullable_def)

lemma add_with_pushed:
  assumes "ic_column_index k < ic_column_count k"
    and "\<And>b. write b = Some (b @ [0] @ bs)" "\<And>b. write_not_null b = Some (b @ bs)"
  shows "add_with write write_not_null k
    = Some (Inr (), pushed ((if current_column_nullable k then [0] else []) @ bs) k)"
  using assms by (simp add: add_with_def pushed_def Let_def)

lemma add_with_bytes:
  "ic_column_index k < ic_column_count k \<Longrightarrow>
   add_with (\<lambda>b. Some (b @ 0 # bs)) (\<lambda>b. Some (b @ bs)) k
     = Some (Inr (), pushed (if current_column_nullable k then 0 # bs else bs) k)"
  by (subst add_with_pushed [where bs = bs]) simp_all

lemmas chunk_add_defs =
  chunk_add_bool_def chunk_add_i16_def chunk_add_i32_def chunk_add_i64_def chunk_add_f32_def chunk_add_f64_def
  chunk_add_data128_def chunk_add_date_def chunk_add_time_def chunk_add_interval_def add_micros_def
  chunk_add_timestamp_def chunk_add_offset_timestamp_def

lemmas float_write_defs = write_f32_def write_f32_not_null_def write_f64_def write_f64_not_null_def

lemma chunk_add_bytes_pushed:
  assumes "ic_column_index k < ic_column_count k" "length v < 2 ^ 32"
  shows "chunk_add_bytes v k = Some (Inr (), pushed (cell_bytes (TVar, current_column_nullable k) (Some (CVar v))) k)"
proof -
  have "\<not> length v > 2 ^ 32 - 1"
    using assms(2) by simp
  then have "chunk_add_bytes v k = add_with (\<lambda>b. write_varbinary b v) (\<lambda>b. write_varbinary_not_null b v) k"
    using assms(1) by (simp add: chunk_add_bytes_def)
  also have "\<dots> = Some (Inr (), pushed ((if current_column_nullable k then [0] else []) @
      to_le_bytes (word_of_nat (length v) :: u32) @ v) k)"
    using assms by (intro add_with_pushed) (simp_all add: write_varbinary_def write_varbinary_not_null_def copy_len_def)
  finally show ?thesis by simp
qed

text \<open>Adding a value that its column can store pushes the bytes of its cell.\<close>

lemma cell_bytes_type: "cell_bytes (ty, n) c = cell_bytes (ty', n) c"
  by (cases c) simp_all

lemma add_value_pushed:
  assumes "ic_column_index k < ic_column_count k"
    and "stored td (ic_column_index k) v = Some c" "c = None \<longrightarrow> current_column_nullable k"
  shows "add_value td v k = Some (Inr (), pushed (cell_bytes (ty, current_column_nullable k) c) k)"
proof -
  note adds = chunk_add_defs copy_write_defs float_write_defs add_with_bytes [OF assms(1)] Let_def
  show ?thesis
  proof (cases v)
    case VNull
    then show ?thesis
      using assms by (auto simp: chunk_add_null_def pushed_def write_null_def Let_def)
  next
    case (VNumeric n)
    then show ?thesis
      using assms(2)
      by (auto simp: chunk_add_numeric_def adds split: sum.splits prod.splits if_splits)
  next
    case (VStr x)
    then show ?thesis
      using assms(2) chunk_add_bytes_pushed [OF assms(1), of "as_bytes x"]
      by (auto simp: chunk_add_str_def var_cell_def split: if_splits)
  next
    case (VBytes x)
    then show ?thesis
      using assms(2) chunk_add_bytes_pushed [OF assms(1), of x] by (auto simp: var_cell_def split: if_splits)
  next
    case (VGeography x)
    then show ?thesis
      using assms(2) chunk_add_bytes_pushed [OF assms(1), of "geo_data x"]
      by (auto simp: chunk_add_geography_def var_cell_def split: if_splits)
  qed (use assms(2) in \<open>auto simp: adds\<close>)
qed

section \<open>Rows\<close>

text \<open>The cells of a row, column by column; a column is its type and whether it is nullable.\<close>

fun stored_from :: "TableDefinition \<Rightarrow> nat \<Rightarrow> copy_column list \<Rightarrow> insert_value list \<Rightarrow> copy_cell list option" where
  "stored_from td i [] [] = Some []"
| "stored_from td i (col # cols) (v # vs) =
     do { c \<leftarrow> stored td i v;
          if cell_ok col c then map_option ((#) c) (stored_from td (i + 1) cols vs) else None }"
| "stored_from td i _ _ = None"

definition copy_columns :: "TableDefinition \<Rightarrow> copy_type list \<Rightarrow> copy_column list" where
  "copy_columns td tys = zip tys (map col_nullable (td_columns td))"

definition stored_row :: "TableDefinition \<Rightarrow> copy_type list \<Rightarrow> insert_value list \<Rightarrow> copy_cell list option" where
  "stored_row td tys row = stored_from td 0 (copy_columns td tys) row"

definition row_bytes :: "copy_column list \<Rightarrow> copy_cell list \<Rightarrow> bytes" where
  "row_bytes cols cs = concat (map2 cell_bytes cols cs)"

text \<open>The server's reading of COPY data: rows of the table's columns, one after the other.\<close>

fun read_rows :: "copy_column list \<Rightarrow> nat \<Rightarrow> bytes \<Rightarrow> (copy_cell list list \<times> bytes) option" where
  "read_rows cols 0 buf = Some ([], buf)"
| "read_rows cols (Suc n) buf =
     do { (row, r) \<leftarrow> read_cells cols buf; (rows, r') \<leftarrow> read_rows cols n r; Some (row # rows, r') }"

lemma stored_from_facts:
  "stored_from td i cols vs = Some cs \<Longrightarrow>
   length vs = length cols \<and> length cs = length cols \<and> list_all (\<lambda>(col, c). cell_ok col c) (zip cols cs)"
  by (induction td i cols vs arbitrary: cs rule: stored_from.induct) (auto split: bind_splits if_splits)

lemma read_row_bytes:
  assumes "length cs = length cols" "list_all (\<lambda>(col, c). cell_ok col c) (zip cols cs)"
  shows "read_cells cols (row_bytes cols cs @ rest) = Some (cs, rest)"
  using read_cells_bytes [OF assms(2), of rest] assms(1) by (simp add: row_bytes_def)

lemma read_rows_bytes:
  "list_all (\<lambda>cs. length cs = length cols \<and> list_all (\<lambda>(col, c). cell_ok col c) (zip cols cs)) rows \<Longrightarrow>
   read_rows cols (length rows) (concat (map (row_bytes cols) rows) @ rest) = Some (rows, rest)"
  by (induction rows) (simp_all add: read_row_bytes)

text \<open>A chunk between two columns of a row.\<close>

definition chunk_of :: "TableDefinition \<Rightarrow> InsertChunk \<Rightarrow> bool" where
  "chunk_of td k \<longleftrightarrow> ic_column_count k = column_count td \<and> ic_column_nullable k = map col_nullable (td_columns td)"

definition header_of :: "InsertChunk \<Rightarrow> bytes" where
  "header_of k = (if ic_header_written k then [] else HYPER_BINARY_HEADER)"

definition filled :: "bytes \<Rightarrow> nat \<Rightarrow> InsertChunk \<Rightarrow> InsertChunk" where
  "filled bs n k = k\<lparr>ic_buffer := ic_buffer k @ header_of k @ bs, ic_header_written := True,
     ic_column_index := ic_column_index k + n\<rparr>"

lemma pushed_filled: "pushed bs k = filled bs 1 k"
  by (simp add: pushed_def filled_def header_of_def chunk_ensure_header_def write_header_def Let_def)

lemma filled_filled: "filled bs2 m (filled bs1 n k) = filled (bs1 @ bs2) (n + m) k"
  by (simp add: filled_def header_of_def)

lemma filled_fields [simp]:
  "ic_column_count (filled bs n k) = ic_column_count k" "ic_column_nullable (filled bs n k) = ic_column_nullable k"
  "ic_column_index (filled bs n k) = ic_column_index k + n" "ic_row_count (filled bs n k) = ic_row_count k"
  "ic_header_written (filled bs n k)" "chunk_of td (filled bs n k) = chunk_of td k"
  by (simp_all add: filled_def chunk_of_def)

lemma add_value_filled:
  assumes "stored td (ic_column_index k) v = Some c" "cell_ok (ty, n) c"
    and "ic_column_index k < ic_column_count k" "current_column_nullable k = n"
  shows "add_value td v k = Some (Inr (), filled (cell_bytes (ty, n) c) 1 k)"
  using add_value_pushed [OF assms(3,1), of ty] assms(2,4) by (cases c) (simp_all add: pushed_filled)

text \<open>Adding the values of one row to a chunk, one after the other.\<close>

fun add_all :: "TableDefinition \<Rightarrow> insert_value list \<Rightarrow> InsertChunk \<Rightarrow> chunk_result" where
  "add_all td [] k = Some (Inr (), k)"
| "add_all td (v # vs) k =
     (case add_value td v k of
        None \<Rightarrow> None
      | Some (Inl e, k') \<Rightarrow> Some (Inl e, k')
      | Some (Inr _, k') \<Rightarrow> add_all td vs k')"

lemma add_all_filled:
  assumes "stored_from td (ic_column_index k) cols vs = Some cs" "cs \<noteq> []"
    and "drop (ic_column_index k) (ic_column_nullable k) = map snd cols"
    and "ic_column_count k = length (ic_column_nullable k)"
  shows "add_all td vs k = Some (Inr (), filled (row_bytes cols cs) (length cs) k)"
  using assms
proof (induction vs arbitrary: cols cs k)
  case Nil
  then show ?case by (cases cols) auto
next
  case (Cons v vs)
  obtain ty n cols' where cols: "cols = (ty, n) # cols'"
    using Cons.prems(1) by (cases cols) auto
  obtain c cs' where c: "stored td (ic_column_index k) v = Some c" "cell_ok (ty, n) c"
      "stored_from td (ic_column_index k + 1) cols' vs = Some cs'" "cs = c # cs'"
    using Cons.prems(1) cols by (auto split: bind_splits if_splits)
  have lt: "ic_column_index k < length (ic_column_nullable k)"
    using Cons.prems(3) cols by (metis drop_all leI list.distinct(1) list.simps(9))
  have nul: "current_column_nullable k = n" "drop (ic_column_index k + 1) (ic_column_nullable k) = map snd cols'"
    using Cons.prems(3) cols Cons_nth_drop_Suc [OF lt] lt by (auto simp: current_column_nullable_def)
  let ?k = "filled (cell_bytes (ty, n) c) 1 k"
  have "add_value td v k = Some (Inr (), ?k)"
    using add_value_filled [OF c(1,2) _ nul(1)] lt Cons.prems(4) by simp
  then have first: "add_all td (v # vs) k = add_all td vs ?k"
    by simp
  show ?case
  proof (cases "cs' = []")
    case True
    then have "vs = []"
      using stored_from_facts [OF c(3)] by auto
    with True show ?thesis
      unfolding first by (simp add: c(4) cols row_bytes_def)
  next
    case False
    have "add_all td vs ?k = Some (Inr (), filled (row_bytes cols' cs') (length cs') ?k)"
      using c(3) nul(2) Cons.prems(4) False by (intro Cons.IH) simp_all
    then show ?thesis
      unfolding first by (simp add: c(4) cols filled_filled row_bytes_def)
  qed
qed

lemma add_values_add_all:
  "add_all (table_def ins) vs (chunk ins) = Some (Inr (), k) \<Longrightarrow>
   add_values vs (ins, t) = (Answered (Inr ()), ins\<lparr>chunk := k\<rparr>, t)"
  by (induction vs arbitrary: ins)
    (auto simp: add_to_inserter_def continue_def split: option.splits prod.splits sum.splits)

text \<open>A row that its table can store, added to a chunk between two rows.\<close>

lemma add_row_filled:
  assumes "stored_row td tys row = Some cs" "length tys = length (td_columns td)" "td_columns td \<noteq> []"
    and "chunk_of td k" "ic_column_index k = 0"
  shows "add_all td row k = Some (Inr (), filled (row_bytes (copy_columns td tys) cs) (column_count td) k)"
    and "length row = column_count td"
proof -
  let ?cols = "copy_columns td tys"
  have cols: "length ?cols = column_count td" "map snd ?cols = map col_nullable (td_columns td)"
    using assms(2) by (simp_all add: copy_columns_def column_count_def)
  have lens: "length row = column_count td" "length cs = column_count td" "cs \<noteq> []"
    using stored_from_facts [OF assms(1) [unfolded stored_row_def]] cols(1) assms(3) by (auto simp: column_count_def)
  then show "add_all td row k = Some (Inr (), filled (row_bytes ?cols cs) (column_count td) k)"
    using add_all_filled [of td k ?cols row cs] assms(1,4,5) cols(2)
    by (simp add: stored_row_def chunk_of_def column_count_def)
  show "length row = column_count td"
    by (rule lens(1))
qed

section \<open>The COPY session on the connection\<close>

abbreviation data_frames :: "bytes list \<Rightarrow> bytes" where
  "data_frames ds \<equiv> concat (map (frame CHR ''d'') ds)"

text \<open>A connection that copies: healthy, nothing unexpected to read, and these bytes sent or
  buffered.\<close>

definition copying :: "bytes \<Rightarrow> bytes \<Rightarrow> RawConnection \<Rightarrow> bool" where
  "copying out after c \<longleftrightarrow> is_healthy c \<and> quiet c \<and> outcomes (conn_stream c) = [] \<and> unread c = after \<and>
     sent (conn_stream c) @ write_buf c = out"

lemma stream_put_copying:
  "outcomes (conn_stream c) = [] \<Longrightarrow>
   stream_put bs c = (Inr (), c\<lparr>conn_stream := (conn_stream c)\<lparr>sent := sent (conn_stream c) @ bs\<rparr>\<rparr>)"
  by (cases "bs = []") (simp_all add: stream_put_def stream_write_all_def)

lemma direct_frame: "byte_of CHR ''d'' # to_be_bytes (word_of_nat (4 + length data) :: u32) @ data = frame CHR ''d'' data"
  by (simp add: frame_def put_i32_nat [of "4 + length data", simplified])

lemma send_direct_copying:
  assumes "copying out after c" "length data + 4 < 2 ^ 31"
  shows "\<exists>c'. Writer_send_direct data c = Some (Inr (), c') \<and> copying (out @ frame CHR ''d'' data) after c'"
proof -
  have out: "outcomes (conn_stream c) = []"
    using assms(1) by (simp add: copying_def)
  let ?s = "conn_stream c"
  let ?h = "byte_of CHR ''d'' # to_be_bytes (word_of_nat (4 + length data) :: u32)"
  have "Writer_send_direct data c = Some (Inr (), c\<lparr>conn_stream := ?s\<lparr>sent := sent ?s @ write_buf c @ ?h @ data\<rparr>,
      write_buf := []\<rparr>)"
    using assms(2) out
    by (cases "write_buf c = []")
      (simp_all add: Writer_send_direct_def send_copy_data_direct_def stream_put_copying)
  moreover have "copying (out @ ?h @ data) after (c\<lparr>conn_stream := ?s\<lparr>sent := sent ?s @ write_buf c @ ?h @ data\<rparr>,
      write_buf := []\<rparr>)"
    using assms(1) by (auto simp: copying_def is_healthy_def quiet_def unread_def)
  ultimately show ?thesis
    unfolding append_Cons direct_frame by blast
qed

lemma flush_stream_copying:
  assumes "copying out after c"
  shows "\<exists>c'. Writer_flush_stream c = Some (Inr (), c') \<and> copying out after c'"
  using assms by (simp add: Writer_flush_stream_def flush_stream_def stream_flush_def copying_def is_healthy_def
      quiet_def unread_def)

lemma send_copying:
  assumes "copying out after c" "length data + 4 < 2 ^ 31"
  shows "\<exists>c'. Writer_send data c = Some (Inr (), c') \<and> copying (out @ frame CHR ''d'' data) after c'"
proof -
  have "Writer_send data c = Some (Inr (), c\<lparr>write_buf := write_buf c @ frame CHR ''d'' data\<rparr>)"
    using assms(2) unfolding Writer_send_def send_copy_data_def
    by (intro emit_Some) (simp add: copy_data_framed framed_def)
  moreover have "copying (out @ frame CHR ''d'' data) after (c\<lparr>write_buf := write_buf c @ frame CHR ''d'' data\<rparr>)"
    using assms(1) by (auto simp: copying_def is_healthy_def quiet_def unread_def)
  ultimately show ?thesis by blast
qed

lemma flush_copying:
  assumes "copying out after c"
  shows "\<exists>c'. flush_or_desync c = (Inr (), c') \<and> copying out after c' \<and> write_buf c' = []"
  using assms flush_ok [of c] by (auto simp: copying_def flush_or_desync_def is_healthy_def)

text \<open>How a server ends a COPY: the count of the last readable \<open>COPY n\<close> tag, or its first error.\<close>

fun count_step :: "nat \<Rightarrow> Message \<Rightarrow> nat" where
  "count_step n (CommandComplete body) = (case copy_count body of Some m \<Rightarrow> m | None \<Rightarrow> n)"
| "count_step n _ = n"

definition copy_result :: "Message list \<Rightarrow> Error + nat" where
  "copy_result ms = (case first_error ms of None \<Rightarrow> Inr (foldl count_step 0 ms) | Some b \<Rightarrow> Inl (parse_error_response b))"

lemma finish_loop_stream:
  assumes "answers ms" "length ms < n" "quiet c" "unread c = wire (ms @ [ReadyForQuery t]) @ rest"
  shows "\<exists>c'. finish_copy_loop n k c = (case first_error ms of
      None \<Rightarrow> Inr (foldl count_step k ms) | Some b \<Rightarrow> Inl (parse_error_response b), c') \<and> advanced c rest c'"
  using assms
proof (induction ms arbitrary: n k c)
  case Nil
  then obtain c' where "read_message c = (Inr (ReadyForQuery t), c')" "advanced c rest c'"
    using read_advances [of c "ReadyForQuery t" rest] by auto
  with Nil.prems show ?case
    by (subst finish_copy_loop.simps) (simp add: read_or_desync)
next
  case (Cons m ms)
  have m: "sendable m" "not_ready m"
    using Cons.prems(1) by (simp_all add: answers_def)
  then obtain c1 where c1: "read_message c = (Inr m, c1)" "advanced c (wire (ms @ [ReadyForQuery t]) @ rest) c1"
    using read_advances [of c m "wire (ms @ [ReadyForQuery t]) @ rest"] Cons.prems by auto
  show ?case
  proof (cases "\<exists>b. m = ErrorResponse b")
    case True
    then obtain b where b: "m = ErrorResponse b" by blast
    have "finish_copy_loop n k c = server_error b c1"
      using c1(1) Cons.prems(2) b by (subst finish_copy_loop.simps) (simp add: read_or_desync)
    moreover obtain c2 where "server_error b c1 = ((Inl (parse_error_response b), c2) :: (Error + nat) \<times> RawConnection)"
        "advanced c1 rest c2"
      using server_error_stream [of b ms c1 t rest, where ?'a = nat] Cons.prems(1) c1(2) b by (auto simp: advanced_def)
    ultimately show ?thesis
      using b advanced_trans [OF c1(2)] by auto
  next
    case False
    have "finish_copy_loop n k c = finish_copy_loop (n - 1) (count_step k m) c1"
      using c1(1) Cons.prems(2) m(2) False by (subst finish_copy_loop.simps) (cases m; simp add: read_or_desync)
    moreover have "\<exists>c2. finish_copy_loop (n - 1) (count_step k m) c1 = (case first_error ms of
        None \<Rightarrow> Inr (foldl count_step (count_step k m) ms) | Some b \<Rightarrow> Inl (parse_error_response b), c2) \<and> advanced c1 rest c2"
      using answers_Cons [OF Cons.prems(1)] Cons.prems(2) False c1(2)
      by (intro Cons.IH) (auto simp: advanced_def)
    moreover have "first_error (m # ms) = first_error ms"
      using False by (cases m) simp_all
    ultimately show ?thesis
      using advanced_trans [OF c1(2)] by (metis foldl_Cons)
  qed
qed

lemma finish_copying:
  assumes "copying out (wire (ms @ [ReadyForQuery t]) @ rest) c" "answers ms" "length ms < POST_ERROR_DRAIN_CAP"
  shows "\<exists>c'. Writer_finish w c = Some (copy_result ms, c') \<and> in_sync c' \<and> unread c' = rest \<and>
    sent (conn_stream c') = out @ frame CHR ''c'' []"
proof -
  obtain c1 where c1: "flush_or_desync c = (Inr (), c1)" "copying out (wire (ms @ [ReadyForQuery t]) @ rest) c1"
      "write_buf c1 = []"
    using flush_copying [OF assms(1)] by blast
  let ?c2 = "c1\<lparr>write_buf := frame CHR ''c'' []\<rparr>"
  have emit: "emit (\<lambda>b. Some (copy_done b)) c1 = Some (Inr (), ?c2)"
    using c1(3) by (intro emit_Some) (simp add: copy_done_def frame_def)
  have "copying (out @ frame CHR ''c'' []) (wire (ms @ [ReadyForQuery t]) @ rest) ?c2"
    using c1(2,3) by (auto simp: copying_def is_healthy_def quiet_def unread_def)
  from flush_copying [OF this] obtain c3 where c3: "flush_or_desync ?c2 = (Inr (), c3)" "write_buf c3 = []"
      "copying (out @ frame CHR ''c'' []) (wire (ms @ [ReadyForQuery t]) @ rest) c3"
    by blast
  then have sync: "in_sync c3" "sent (conn_stream c3) = out @ frame CHR ''c'' []"
    by (simp_all add: copying_def in_sync_def)
  obtain c4 where c4: "finish_copy_loop POST_ERROR_DRAIN_CAP 0 c3 = (copy_result ms, c4)" "advanced c3 rest c4"
    using finish_loop_stream [OF assms(2,3), of c3 t rest 0] c3(3) by (auto simp: copying_def copy_result_def)
  have "finish_copy c = Some (copy_result ms, c4)"
    using assms(1) c1(1) emit c3(1) c4(1)
    by (simp add: finish_copy_def guard_healthy copying_def)
  then show ?thesis
    using advanced_in_sync [OF sync(1) c4(2)] sync(2) by (simp add: Writer_finish_def Writer_drop_def)
qed


text \<open>A client whose server accepts the COPY command and then sends \<open>after\<close>.\<close>

definition accepting :: "Client \<Rightarrow> string \<Rightarrow> bytes \<Rightarrow> bool" where
  "accepting cl q after \<longleftrightarrow> usable (connection cl) \<and> in_sync (guarded (connection cl)) \<and> length q + 5 < 2 ^ 31 \<and>
     (\<exists>r. sendable (CopyInResponse r) \<and> unread (guarded (connection cl)) = server_encode (CopyInResponse r) @ after)"

lemma start_copy_copying:
  assumes "in_sync c" "sendable (CopyInResponse r)" "unread c = server_encode (CopyInResponse r) @ after"
    and "q = copy_in_command table columns fmt" "length q + 5 < 2 ^ 31"
  shows "\<exists>c'. start_copy_in_with_format table columns fmt c = Some (Inr (), c') \<and>
    copying (sent (conn_stream c) @ query_frame q) after c'"
proof -
  have c: "is_healthy c" "write_buf c = []"
    using assms(1) by (simp_all add: in_sync_def)
  obtain c1 where c1: "flush (c\<lparr>write_buf := query_frame q\<rparr>) = (Inr (), c1)" "in_sync c1"
      "unread c1 = server_encode (CopyInResponse r) @ after" "sent (conn_stream c1) = sent (conn_stream c) @ query_frame q"
    using flush_request [OF assms(1)] assms(3) by metis
  then have "quiet c1"
    by (simp add: in_sync_def)
  with read_advances [OF _ assms(2) c1(3)] obtain c2 where c2: "read_message c1 = (Inr (CopyInResponse r), c2)"
      "advanced c1 after c2"
    by blast
  then have "await_copy_in c1 = (Inr (), c2)"
    by (subst await_copy_in.simps) simp
  then have "start_copy_in_with_format table columns fmt c = Some (Inr (), c2)"
    using c c1(1) emit_query [OF assms(5), of c] assms(4)
    by (simp add: start_copy_in_with_format_def guard_healthy)
  moreover have "copying (sent (conn_stream c) @ query_frame q) after c2"
    using advanced_in_sync [OF c1(2) c2(2)] c1(4) by (simp add: in_sync_def copying_def)
  ultimately show ?thesis by blast
qed

text \<open>The session between its opening and its end: the payloads \<open>ds\<close> have been written.\<close>

definition session :: "Client \<Rightarrow> string \<Rightarrow> bytes \<Rightarrow> bytes list \<Rightarrow> CopyInWriter option \<Rightarrow> Transport \<Rightarrow> bool" where
  "session cl q after ds w t \<longleftrightarrow>
     (case w of
        None \<Rightarrow> t = Tcp cl \<and> ds = []
      | Some w \<Rightarrow> \<not> completed w \<and> (\<exists>cl'. t = Tcp cl' \<and> held (connection cl') \<and> \<not> poisoned (connection cl') \<and>
          copying (sent (conn_stream (guarded (connection cl))) @ query_frame q @ data_frames ds) after
            (guarded (connection cl'))))"

lemma open_copy_session:
  assumes "accepting cl q after" "q = copy_in_command table columns ''HYPERBINARY''"
  shows "\<exists>w t. open_copy who table columns (Tcp cl) = (Answered (Inr w), t) \<and> session cl q after [] (Some w) t"
proof -
  obtain r where r: "sendable (CopyInResponse r)"
      "unread (guarded (connection cl)) = server_encode (CopyInResponse r) @ after"
    and cl: "usable (connection cl)" "in_sync (guarded (connection cl))" "length q + 5 < 2 ^ 31"
    using assms(1) by (auto simp: accepting_def)
  from start_copy_copying [OF cl(2) r assms(2) cl(3)] obtain c' where
    "start_copy_in_with_format table columns ''HYPERBINARY'' (guarded (connection cl)) = Some (Inr (), c')"
    "copying (sent (conn_stream (guarded (connection cl))) @ query_frame q) after c'"
    by blast
  then show ?thesis
    using with_guard_usable [OF cl(1), of "start_copy_in_with_format table columns ''HYPERBINARY''" c'
        "\<lparr>completed = False\<rparr>"] cl(1)
    by (simp add: open_copy_def copy_in_def copy_in_with_format_def on_connection_def session_def usable_def)
qed

lemma writer_call_session:
  assumes "session cl q after ds (Some w) t"
    and "\<And>out c. copying out after c \<Longrightarrow> \<exists>c'. f c = Some (Inr (), c') \<and> copying (out @ data_frames ds') after c'"
  shows "\<exists>t'. writer_call f t = (Answered (Inr ()), t') \<and> session cl q after (ds @ ds') (Some w) t'"
proof -
  obtain cl' where cl': "t = Tcp cl'" "held (connection cl')" "\<not> poisoned (connection cl')" "\<not> completed w"
      "copying (sent (conn_stream (guarded (connection cl))) @ query_frame q @ data_frames ds) after (guarded (connection cl'))"
    using assms(1) by (auto simp: session_def)
  from assms(2) [OF cl'(5)] obtain c' where "f (guarded (connection cl')) = Some (Inr (), c')"
      "copying ((sent (conn_stream (guarded (connection cl))) @ query_frame q @ data_frames ds) @ data_frames ds') after c'"
    by blast
  then show ?thesis
    using cl' by (simp add: session_def)
qed

lemma send_direct_session:
  "session cl q after ds (Some w) t \<Longrightarrow> length data + 4 < 2 ^ 31 \<Longrightarrow>
   \<exists>t'. writer_call (Writer_send_direct data) t = (Answered (Inr ()), t') \<and> session cl q after (ds @ [data]) (Some w) t'"
  by (rule writer_call_session) (auto dest: send_direct_copying)

lemma send_session:
  "session cl q after ds (Some w) t \<Longrightarrow> length data + 4 < 2 ^ 31 \<Longrightarrow>
   \<exists>t'. writer_call (Writer_send data) t = (Answered (Inr ()), t') \<and> session cl q after (ds @ [data]) (Some w) t'"
  by (rule writer_call_session) (auto dest: send_copying)

lemma flush_stream_session:
  "session cl q after ds (Some w) t \<Longrightarrow>
   \<exists>t'. writer_call Writer_flush_stream t = (Answered (Inr ()), t') \<and> session cl q after ds (Some w) t'"
  using writer_call_session [of cl q after ds w t Writer_flush_stream "[]"] flush_stream_copying by simp

text \<open>The end of a session: the writer's last call releases the guard.\<close>

definition session_over :: "Client \<Rightarrow> string \<Rightarrow> bytes list \<Rightarrow> bytes \<Rightarrow> Transport \<Rightarrow> bool" where
  "session_over cl q ds rest t \<longleftrightarrow> (\<exists>cl'. t = Tcp cl' \<and> usable (connection cl') \<and> in_sync (guarded (connection cl')) \<and>
     unread (guarded (connection cl')) = rest \<and>
     sent (conn_stream (guarded (connection cl'))) =
       sent (conn_stream (guarded (connection cl))) @ query_frame q @ data_frames ds @ frame CHR ''c'' [])"

lemma finish_session:
  assumes "session cl q (wire (ms @ [ReadyForQuery t0]) @ rest) ds (Some w) t" "answers ms"
    and "length ms < POST_ERROR_DRAIN_CAP"
  shows "\<exists>t'. writer_call (Writer_finish w) t = (Answered (map_sum from_client_error id (copy_result ms)), t') \<and>
    session_over cl q ds rest (unlock t')"
proof -
  let ?out = "sent (conn_stream (guarded (connection cl))) @ query_frame q @ data_frames ds"
  obtain cl' where cl': "t = Tcp cl'" "\<not> poisoned (connection cl')"
      "copying ?out (wire (ms @ [ReadyForQuery t0]) @ rest) (guarded (connection cl'))"
    using assms(1) by (auto simp: session_def)
  from finish_copying [OF cl'(3) assms(2,3), of w] obtain c' where
    "Writer_finish w (guarded (connection cl')) = Some (copy_result ms, c')" "in_sync c'" "unread c' = rest"
    "sent (conn_stream c') = ?out @ frame CHR ''c'' []"
    by blast
  then show ?thesis
    using cl' by (simp add: session_over_def usable_def)
qed

section \<open>Owners of a COPY session\<close>

text \<open>\<open>Inserter\<close> and \<open>ChunkSender\<close> own a writer that is opened on first use and called through them.\<close>

locale copy_owner =
  fixes open_writer :: "'o \<times> Transport \<Rightarrow> unit answer \<times> 'o \<times> Transport"
    and call :: "(RawConnection \<Rightarrow> unit outcome) \<Rightarrow> 'o \<times> Transport \<Rightarrow> unit answer \<times> 'o \<times> Transport"
    and writer_of :: "'o \<Rightarrow> CopyInWriter option"
    and put_writer :: "CopyInWriter \<Rightarrow> 'o \<Rightarrow> 'o"
    and table_of :: "'o \<Rightarrow> string"
    and columns_of :: "'o \<Rightarrow> string list"
    and who :: string
  assumes open_again: "writer_of x = Some w \<Longrightarrow> open_writer (x, t) = (Answered (Inr ()), x, t)"
    and open_first: "writer_of x = None \<Longrightarrow> open_copy who (table_of x) (columns_of x) t = (Answered (Inr w), t') \<Longrightarrow>
      open_writer (x, t) = (Answered (Inr ()), put_writer w x, t')"
    and call_writer: "writer_call f t = (Answered (Inr ()), t') \<Longrightarrow> call f (x, t) = (Answered (Inr ()), x, t')"
    and writer_put: "writer_of (put_writer w x) = Some w"
    and put_same: "writer_of x = Some w \<Longrightarrow> put_writer w x = x"
begin

lemma open_session:
  assumes "session cl q after ds (writer_of x) t" "accepting cl q after"
    and "q = copy_in_command (table_of x) (columns_of x) ''HYPERBINARY''"
  shows "\<exists>w t'. open_writer (x, t) = (Answered (Inr ()), put_writer w x, t') \<and> session cl q after ds (Some w) t'"
proof (cases "writer_of x")
  case None
  then have t: "t = Tcp cl" "ds = []"
    using assms(1) by (simp_all add: session_def)
  from open_copy_session [OF assms(2,3), of who] obtain w t' where
    "open_copy who (table_of x) (columns_of x) (Tcp cl) = (Answered (Inr w), t')" "session cl q after [] (Some w) t'"
    by blast
  then show ?thesis
    using open_first [OF None] t by blast
next
  case (Some w)
  then show ?thesis
    using open_again [OF Some] assms(1) put_same [OF Some] by (intro exI [of _ w] exI [of _ t]) simp
qed

lemma send_payload:
  assumes "session cl q after ds (Some w) t" "length data + 4 < 2 ^ 31"
  shows "\<exists>t'. continue (call (Writer_send_direct data) (x, t)) (\<lambda>_ s. continue (call Writer_flush_stream s) g)
    = g () (x, t') \<and> session cl q after (ds @ [data]) (Some w) t'"
proof -
  obtain t1 where t1: "writer_call (Writer_send_direct data) t = (Answered (Inr ()), t1)"
      "session cl q after (ds @ [data]) (Some w) t1"
    using send_direct_session [OF assms] by blast
  from flush_stream_session [OF t1(2)] obtain t2 where
    "writer_call Writer_flush_stream t1 = (Answered (Inr ()), t2)" "session cl q after (ds @ [data]) (Some w) t2"
    by blast
  then show ?thesis
    using call_writer [OF t1(1)] call_writer [of Writer_flush_stream t1 t2]
    by (intro exI [of _ t2]) (simp add: continue_def)
qed

end

interpretation inserter: copy_owner ensure_writer on_writer ins_writer "\<lambda>w ins. ins\<lparr>ins_writer := Some w\<rparr>"
    "\<lambda>ins. qualified_name (table_def ins)" "\<lambda>ins. map col_name (td_columns (table_def ins))" "''Inserter''"
  by unfold_locales (simp_all add: ensure_writer_def on_writer_def)

interpretation sender: copy_owner sender_open sender_call cs_writer "\<lambda>w cs. cs\<lparr>cs_writer := Some w\<rparr>"
    cs_table_name cs_columns "''ChunkSender''"
  by unfold_locales (simp_all add: sender_open_def sender_call_def)

section \<open>The inserter\<close>

fun insert_rows :: "insert_value list list \<Rightarrow> Inserter \<times> Transport \<Rightarrow> unit answer \<times> Inserter \<times> Transport" where
  "insert_rows [] s = (Answered (Inr ()), s)"
| "insert_rows (row # rows) s = continue (add_row row s) (\<lambda>_ s. insert_rows rows s)"

text \<open>The COPY stream of some rows.\<close>

definition copy_stream :: "copy_column list \<Rightarrow> copy_cell list list \<Rightarrow> bytes" where
  "copy_stream cols rows = (if rows = [] then [] else HYPER_BINARY_HEADER @ concat (map (row_bytes cols) rows))"

definition inserting ::
  "Client \<Rightarrow> string \<Rightarrow> bytes \<Rightarrow> copy_column list \<Rightarrow> TableDefinition \<Rightarrow> copy_cell list list \<Rightarrow> Inserter \<times> Transport \<Rightarrow> bool" where
  "inserting cl q after cols td rows s \<longleftrightarrow> (case s of (ins, t) \<Rightarrow>
     table_def ins = td \<and> chunk_of td (chunk ins) \<and> ic_column_index (chunk ins) = 0 \<and> ins_row_count ins = length rows \<and>
     ic_header_written (chunk ins) = (rows \<noteq> []) \<and>
     (ic_row_count (chunk ins) = 0 \<longrightarrow> ic_buffer (chunk ins) = []) \<and> length (ic_buffer (chunk ins)) < CHUNK_SIZE_LIMIT \<and>
     (\<exists>ds. session cl q after ds (ins_writer ins) t \<and> concat ds @ ic_buffer (chunk ins) = copy_stream cols rows))"

definition copy_target :: "TableDefinition \<Rightarrow> string" where
  "copy_target td = copy_in_command (qualified_name td) (map col_name (td_columns td)) ''HYPERBINARY''"

lemma Inserter_flush_session:
  assumes "ic_row_count (chunk ins) \<noteq> 0" "length (ic_buffer (chunk ins)) + 4 < 2 ^ 31"
    and "session cl q after ds (ins_writer ins) t" "accepting cl q after" "q = copy_target (table_def ins)"
  shows "\<exists>w t'. Inserter_flush (ins, t) = (Answered (Inr ()), ins\<lparr>chunk := (chunk ins)\<lparr>ic_row_count := 0, ic_buffer := []\<rparr>,
      ins_writer := Some w, chunk_count := chunk_count ins + 1\<rparr>, t') \<and>
    session cl q after (ds @ [ic_buffer (chunk ins)]) (Some w) t'"
proof -
  let ?ins = "ins\<lparr>chunk := (chunk ins)\<lparr>ic_row_count := 0, ic_buffer := []\<rparr>\<rparr>"
  let ?done = "\<lambda>_ s. case s of (ins, t) \<Rightarrow> (Answered (Inr ()), ins\<lparr>chunk_count := chunk_count ins + 1\<rparr>, t)"
  obtain w t1 where w: "ensure_writer (?ins, t) = (Answered (Inr ()), ?ins\<lparr>ins_writer := Some w\<rparr>, t1)"
      "session cl q after ds (Some w) t1"
    using inserter.open_session [of cl q after ds ?ins t] assms(3-5) by (auto simp: copy_target_def)
  from inserter.send_payload [OF w(2) assms(2), of "?ins\<lparr>ins_writer := Some w\<rparr>" ?done] obtain t2 where
    "continue (on_writer (Writer_send_direct (ic_buffer (chunk ins))) (?ins\<lparr>ins_writer := Some w\<rparr>, t1))
      (\<lambda>_ s. continue (on_writer Writer_flush_stream s) ?done) = ?done () (?ins\<lparr>ins_writer := Some w\<rparr>, t2)"
    "session cl q after (ds @ [ic_buffer (chunk ins)]) (Some w) t2"
    by blast
  then show ?thesis
    using assms(1) w(1)
    by (intro exI [of _ w] exI [of _ t2])
      (simp add: Inserter_flush_def chunk_is_empty_def chunk_take_def)
qed

lemma copy_stream_snoc:
  "copy_stream cols (rows @ [cs]) = copy_stream cols rows @
     (if rows = [] then HYPER_BINARY_HEADER else []) @ row_bytes cols cs"
  by (simp add: copy_stream_def)

lemma add_row_inserting:
  assumes inv: "inserting cl q after (copy_columns td tys) td rows (ins, t)" and acc: "accepting cl q after" "q = copy_target td"
    and td: "td_columns td \<noteq> []" "length tys = length (td_columns td)"
    and row: "stored_row td tys row = Some cs" "length (row_bytes (copy_columns td tys) cs) < 2 ^ 30"
  shows "\<exists>s'. add_row row (ins, t) = (Answered (Inr ()), s') \<and> inserting cl q after (copy_columns td tys) td (rows @ [cs]) s'"
proof -
  let ?cols = "copy_columns td tys" and ?k = "chunk ins"
  have k: "table_def ins = td" "chunk_of td ?k" "ic_column_index ?k = 0" "ins_row_count ins = length rows"
      "ic_header_written ?k = (rows \<noteq> [])" "length (ic_buffer ?k) < CHUNK_SIZE_LIMIT"
    using inv by (simp_all add: inserting_def)
  obtain ds where ds: "session cl q after ds (ins_writer ins) t" "concat ds @ ic_buffer ?k = copy_stream ?cols rows"
    using inv by (auto simp: inserting_def)
  note filled = add_row_filled [OF row(1) td(2,1) k(2,3)]
  let ?f = "filled (row_bytes ?cols cs) (column_count td) ?k"
  let ?e = "?f\<lparr>ic_column_index := 0, ic_row_count := ic_row_count ?k + 1\<rparr>"
  let ?ins = "ins\<lparr>chunk := ?e, ins_row_count := length rows + 1\<rparr>"
  have buf: "ic_buffer ?f = ic_buffer ?k @ (if rows = [] then HYPER_BINARY_HEADER else []) @ row_bytes ?cols cs"
    using k(5) by (simp add: filled_def header_of_def)
  then have stream: "concat ds @ ic_buffer ?f = copy_stream ?cols (rows @ [cs])"
    using ds(2) by (simp add: copy_stream_snoc)
  have size: "length (ic_buffer ?f) + 4 < 2 ^ 31"
    using k(6) row(2) by (simp add: buf CHUNK_SIZE_LIMIT_def)
  have "add_values row (ins, t) = (Answered (Inr ()), ins\<lparr>chunk := ?f\<rparr>, t)"
    using add_values_add_all [of ins row ?f t] filled(1) k(1) by simp
  moreover have "chunk_end_row ?f = (Inr (), ?e)"
    using k(2,3) by (simp add: chunk_end_row_def chunk_of_def)
  ultimately have add: "add_row row (ins, t) = (if should_flush ?e then Inserter_flush (?ins, t) else (Answered (Inr ()), ?ins, t))"
    using k(1,4) filled(2) by (simp add: add_row_def continue_def Inserter_end_row_def Let_def)
  show ?thesis
  proof (cases "should_flush ?e")
    case True
    obtain w t' where "Inserter_flush (?ins, t) = (Answered (Inr ()), ?ins\<lparr>chunk := ?e\<lparr>ic_row_count := 0, ic_buffer := []\<rparr>,
        ins_writer := Some w, chunk_count := chunk_count ins + 1\<rparr>, t')" "session cl q after (ds @ [ic_buffer ?f]) (Some w) t'"
      using Inserter_flush_session [of ?ins cl q after ds t] size ds(1) acc k(1) by auto
    then show ?thesis
      using True add k(1,2) stream
      by (intro exI conjI) (simp, auto simp: inserting_def chunk_of_def CHUNK_SIZE_LIMIT_def intro!: exI [of _ "ds @ [ic_buffer ?f]"])
  next
    case False
    then show ?thesis
      using add k(1,2) ds(1) stream
      by (intro exI conjI) (simp, auto simp: inserting_def chunk_of_def should_flush_def intro!: exI [of _ ds])
  qed
qed

lemma insert_rows_inserting:
  assumes "inserting cl q after (copy_columns td tys) td done s" "accepting cl q after" "q = copy_target td"
    and "td_columns td \<noteq> []" "length tys = length (td_columns td)"
    and "list_all2 (\<lambda>row cs. stored_row td tys row = Some cs \<and> length (row_bytes (copy_columns td tys) cs) < 2 ^ 30) rows cells"
  shows "\<exists>s'. insert_rows rows s = (Answered (Inr ()), s') \<and> inserting cl q after (copy_columns td tys) td (done @ cells) s'"
  using assms(6,1)
proof (induction rows cells arbitrary: s "done" rule: list_all2_induct)
  case (Cons row rows cs cells)
  obtain ins t where s: "s = (ins, t)" by (cases s)
  from add_row_inserting [OF Cons.prems [unfolded s] assms(2-5)] Cons.hyps(1) obtain s1 where
    s1: "add_row row s = (Answered (Inr ()), s1)" "inserting cl q after (copy_columns td tys) td (done @ [cs]) s1"
    unfolding s by blast
  from Cons.IH [OF s1(2)] obtain s' where "insert_rows rows s1 = (Answered (Inr ()), s')"
      "inserting cl q after (copy_columns td tys) td (done @ cs # cells) s'"
    by auto
  then show ?case
    using s1(1) by (intro exI [of _ s']) (simp add: continue_def)
qed simp

lemma Inserter_new_inserting:
  assumes "td_columns td \<noteq> []"
  shows "\<exists>ins. Inserter_new td (Tcp cl) = Inr ins \<and> inserting cl q after (copy_columns td tys) td [] (ins, Tcp cl)"
  using assms
  by (simp add: Inserter_new_def inserting_def column_count_def from_table_definition_def InsertChunk_new_def
      chunk_of_def session_def copy_stream_def CHUNK_SIZE_LIMIT_def)

lemma execute_session:
  assumes k: "ic_column_index (chunk ins) = 0" "ins_row_count ins \<noteq> 0"
      "ic_row_count (chunk ins) = 0 \<longrightarrow> ic_buffer (chunk ins) = []" "length (ic_buffer (chunk ins)) + 4 < 2 ^ 31"
    and ds: "session cl q (wire (ms @ [ReadyForQuery t0]) @ rest) ds (ins_writer ins) t"
    and acc: "accepting cl q (wire (ms @ [ReadyForQuery t0]) @ rest)" "q = copy_target (table_def ins)"
    and ms: "answers ms" "length ms < POST_ERROR_DRAIN_CAP"
  shows "\<exists>ds' t'. Inserter_execute (ins, t) = (Answered (map_sum from_client_error id (copy_result ms)), t') \<and>
    session_over cl q ds' rest t' \<and> concat ds' = concat ds @ ic_buffer (chunk ins)"
proof -
  let ?after = "wire (ms @ [ReadyForQuery t0]) @ rest" and ?buf = "ic_buffer (chunk ins)"
  obtain w t1 where w: "ensure_writer (ins, t) = (Answered (Inr ()), ins\<lparr>ins_writer := Some w\<rparr>, t1)"
      "session cl q ?after ds (Some w) t1"
    using inserter.open_session [OF ds acc(1)] acc(2) by (auto simp: copy_target_def)
  define sends where "sends = (if ic_row_count (chunk ins) = 0 then [] else [?buf])"
  obtain t2 where t2: "(if \<not> chunk_is_empty (chunk ins) then on_writer (Writer_send ?buf) (ins\<lparr>ins_writer := Some w\<rparr>, t1)
        else (Answered (Inr ()), ins\<lparr>ins_writer := Some w\<rparr>, t1)) = (Answered (Inr ()), ins\<lparr>ins_writer := Some w\<rparr>, t2)"
      "session cl q ?after (ds @ sends) (Some w) t2"
  proof (cases "ic_row_count (chunk ins) = 0")
    case True
    then show ?thesis
      using that [of t1] w(2) by (simp add: chunk_is_empty_def sends_def)
  next
    case False
    then show ?thesis
      using that send_session [OF w(2) k(4)] by (auto simp: chunk_is_empty_def sends_def on_writer_def)
  qed
  obtain t3 where t3: "on_writer (Writer_send (write_trailer [])) (ins\<lparr>ins_writer := Some w\<rparr>, t2)
        = (Answered (Inr ()), ins\<lparr>ins_writer := Some w\<rparr>, t3)" "session cl q ?after ((ds @ sends) @ [[]]) (Some w) t3"
    using send_session [OF t2(2), of "[]"] by (auto simp: on_writer_def write_trailer_def)
  obtain t4 where t4: "writer_call (Writer_finish w) t3 = (Answered (map_sum from_client_error id (copy_result ms)), t4)"
      "session_over cl q ((ds @ sends) @ [[]]) rest (unlock t4)"
    using finish_session [OF t3(2) ms] by blast
  have "execute_body (ins, t) = (Answered (map_sum from_client_error id (copy_result ms)), ins\<lparr>ins_writer := None\<rparr>, unlock t4)"
    using k(1,2) w(1) t2(1) t3(1) t4(1)
    by (cases "chunk_is_empty (chunk ins)") (simp_all add: execute_body_def finish_writer_def)
  moreover have "concat ((ds @ sends) @ [[]]) = concat ds @ ?buf"
    using k(3) by (auto simp: sends_def)
  ultimately show ?thesis
    using t4(2) by (intro exI [of _ "(ds @ sends) @ [[]]"]) (simp add: Inserter_execute_def drop_writer_def)
qed

lemma execute_inserting:
  assumes inv: "inserting cl q (wire (ms @ [ReadyForQuery t0]) @ rest) cols td rows (ins, t)" and "rows \<noteq> []"
    and acc: "accepting cl q (wire (ms @ [ReadyForQuery t0]) @ rest)" "q = copy_target td"
    and ms: "answers ms" "length ms < POST_ERROR_DRAIN_CAP"
  shows "\<exists>ds t'. Inserter_execute (ins, t) = (Answered (map_sum from_client_error id (copy_result ms)), t') \<and>
    session_over cl q ds rest t' \<and> concat ds = copy_stream cols rows"
proof -
  have k: "ic_column_index (chunk ins) = 0" "ins_row_count ins \<noteq> 0"
      "ic_row_count (chunk ins) = 0 \<longrightarrow> ic_buffer (chunk ins) = []" "length (ic_buffer (chunk ins)) + 4 < 2 ^ 31"
    using inv assms(2) by (auto simp: inserting_def CHUNK_SIZE_LIMIT_def)
  obtain ds where ds: "session cl q (wire (ms @ [ReadyForQuery t0]) @ rest) ds (ins_writer ins) t"
      "concat ds @ ic_buffer (chunk ins) = copy_stream cols rows" "table_def ins = td"
    using inv by (auto simp: inserting_def)
  from execute_session [OF k ds(1) acc(1) _ ms] acc(2) ds(2,3) show ?thesis
    by simp
qed

lemma stored_row_ok:
  "stored_row td tys row = Some cs \<Longrightarrow> length cs = length (copy_columns td tys) \<and>
     list_all (\<lambda>(col, c). cell_ok col c) (zip (copy_columns td tys) cs)"
  using stored_from_facts [of td 0 "copy_columns td tys" row cs] by (simp add: stored_row_def)

lemma stored_rows_read:
  assumes "list_all2 (\<lambda>row cs. stored_row td tys row = Some cs \<and> P row cs) rows cells"
  shows "read_rows (copy_columns td tys) (length rows)
    (concat (map (row_bytes (copy_columns td tys)) cells)) = Some (cells, [])"
proof -
  have "list_all (\<lambda>cs. length cs = length (copy_columns td tys) \<and>
      list_all (\<lambda>(col, c). cell_ok col c) (zip (copy_columns td tys) cs)) cells"
    using assms by (induction rule: list_all2_induct) (auto dest: stored_row_ok)
  from read_rows_bytes [OF this, of "[]"] show ?thesis
    using list_all2_lengthD [OF assms] by simp
qed

text \<open>C2. Bulk insertion delivers the rows. On a client in step with a server that accepts the COPY, an
  inserter takes any non-empty list of rows that the table can store, flushing whenever a limit is
  reached, and \<open>execute\<close> returns the server's row count, or its error. The wire then has the COPY
  command, a sequence of \<open>CopyData\<close> frames and \<open>CopyDone\<close>, nothing else; the payloads of the frames, joined,
  are one HyperBinary header and data that the readers of the format decode into exactly the
  rows that were added, in order, wherever the chunks were cut. The connection is free and in step.\<close>

theorem bulk_insert_delivers_rows:
  assumes "td_columns td \<noteq> []" "length tys = length (td_columns td)" "rows \<noteq> []"
    and "list_all2 (\<lambda>row cs. stored_row td tys row = Some cs \<and> length (row_bytes (copy_columns td tys) cs) < 2 ^ 30) rows cells"
    and "accepting cl (copy_target td) (wire (ms @ [ReadyForQuery t0]) @ rest)" "answers ms" "length ms < POST_ERROR_DRAIN_CAP"
  shows "\<exists>ins s ds payload cl'. Inserter_new td (Tcp cl) = Inr ins \<and>
    insert_rows rows (ins, Tcp cl) = (Answered (Inr ()), s) \<and>
    Inserter_execute s = (Answered (map_sum from_client_error id (copy_result ms)), Tcp cl') \<and>
    sent (conn_stream (guarded (connection cl'))) = sent (conn_stream (guarded (connection cl))) @
      query_frame (copy_target td) @ data_frames ds @ frame CHR ''c'' [] \<and>
    concat ds = HYPER_BINARY_HEADER @ payload \<and>
    read_rows (copy_columns td tys) (length rows) payload = Some (cells, []) \<and>
    usable (connection cl') \<and> in_sync (guarded (connection cl')) \<and> unread (guarded (connection cl')) = rest"
proof -
  obtain ins where ins: "Inserter_new td (Tcp cl) = Inr ins"
      "inserting cl (copy_target td) (wire (ms @ [ReadyForQuery t0]) @ rest) (copy_columns td tys) td [] (ins, Tcp cl)"
    using Inserter_new_inserting [OF assms(1)] by blast
  from insert_rows_inserting [OF ins(2) assms(5) refl assms(1,2,4)] obtain ins' t where
    s: "insert_rows rows (ins, Tcp cl) = (Answered (Inr ()), ins', t)"
      "inserting cl (copy_target td) (wire (ms @ [ReadyForQuery t0]) @ rest) (copy_columns td tys) td cells (ins', t)"
    by (metis append_Nil surj_pair)
  have ne: "cells \<noteq> []"
    using assms(3,4) by auto
  from execute_inserting [OF s(2) ne assms(5) refl assms(6,7)] obtain ds t' where
    ex: "Inserter_execute (ins', t) = (Answered (map_sum from_client_error id (copy_result ms)), t')"
      "session_over cl (copy_target td) ds rest t'" "concat ds = copy_stream (copy_columns td tys) cells"
    by blast
  have "concat ds = HYPER_BINARY_HEADER @ concat (map (row_bytes (copy_columns td tys)) cells)"
    using ex(3) ne by (simp add: copy_stream_def)
  with ins(1) s(1) ex(1,2) stored_rows_read [OF assms(4)] show ?thesis
    unfolding session_over_def by blast
qed

text \<open>An inserter without rows sends nothing.\<close>

lemma empty_insert_sends_nothing:
  "Inserter_new td t = Inr ins \<Longrightarrow> Inserter_execute (ins, t) = (Answered (Inr 0), t)"
  by (auto simp: Inserter_new_def Inserter_execute_def execute_body_def from_table_definition_def InsertChunk_new_def
      drop_writer_def split: if_splits)

definition demo_table :: TableDefinition where
  "demo_table = add_required_column ''name'' SqlText (add_nullable_column ''id'' SqlInt (TableDefinition_new ''t''))"

definition demo_copy_in :: Message where
  "demo_copy_in = CopyInResponse \<lparr>cr_format = 0, cr_len = 0, cr_storage = []\<rparr>"

lemma demo_accepting:
  "accepting (demo_client (server_encode demo_copy_in @ after)) (copy_target demo_table) after"
proof -
  have len: "length (server_encode demo_copy_in @ after) > 3"
    using length_server_encode [of demo_copy_in] by simp
  have "length (copy_target demo_table) = 60"
    by (simp add: copy_target_def demo_table_def add_required_column_def add_nullable_column_def TableDefinition_new_def
        with_sql_type_def copy_in_command_def qualified_name_def SqlIdentifier_fmt_def QuotedIdentifier_fmt_def Let_def)
  moreover have "sendable demo_copy_in"
    by (simp add: demo_copy_in_def sendable_def)
  ultimately show ?thesis
    using demo_mutex_usable [OF len] unfolding accepting_def demo_copy_in_def by (auto simp: demo_client_def)
qed

theorem bulk_insert_delivers_rows_witness:
  "\<exists>ins s ds payload cl'.
    Inserter_new demo_table (Tcp (demo_client (server_encode demo_copy_in @
      wire ([CommandComplete (as_bytes ''COPY 2'')] @ [ReadyForQuery 73]) @ [9]))) = Inr ins \<and>
    insert_rows [[VI32 7, VStr ''x''], [VNull, VStr '''']] (ins, Tcp (demo_client (server_encode demo_copy_in @
      wire ([CommandComplete (as_bytes ''COPY 2'')] @ [ReadyForQuery 73]) @ [9]))) = (Answered (Inr ()), s) \<and>
    (\<exists>r. Inserter_execute s = (Answered r, Tcp cl')) \<and> concat ds = HYPER_BINARY_HEADER @ payload \<and>
    read_rows [(TI32, True), (TVar, False)] 2 payload =
      Some ([[Some (CI32 7), Some (CVar [120])], [None, Some (CVar [])]], [])"
proof -
  let ?ms = "[CommandComplete (as_bytes ''COPY 2'')]"
  let ?rows = "[[VI32 7, VStr ''x''], [VNull, VStr '''']]"
  let ?cells = "[[Some (CI32 7), Some (CVar [120])], [None, Some (CVar [])]]"
  have tab: "td_columns demo_table = [with_sql_type ''id'' SqlInt Nullable, with_sql_type ''name'' SqlText NotNullable]"
    by (simp add: demo_table_def add_required_column_def add_nullable_column_def TableDefinition_new_def)
  have cols: "copy_columns demo_table [TI32, TVar] = [(TI32, True), (TVar, False)]"
    by (simp add: copy_columns_def tab with_sql_type_def is_nullable_def)
  have rows: "list_all2 (\<lambda>row cs. stored_row demo_table [TI32, TVar] row = Some cs \<and>
      length (row_bytes (copy_columns demo_table [TI32, TVar]) cs) < 2 ^ 30) ?rows ?cells"
    by (simp add: stored_row_def cols var_cell_def row_bytes_def as_bytes_def byte_of_def)
  have ms: "answers ?ms" "length ?ms < POST_ERROR_DRAIN_CAP"
    by (simp_all add: answers_def sendable_def POST_ERROR_DRAIN_CAP_def nul_free_bytes_def as_bytes_def byte_of_def)
  have acc: "accepting (demo_client (server_encode demo_copy_in @ wire (?ms @ [ReadyForQuery 73]) @ [9])) (copy_target demo_table)
      (wire (?ms @ [ReadyForQuery 73]) @ [9])"
    by (rule demo_accepting)
  have "td_columns demo_table \<noteq> []" "length [TI32, TVar] = length (td_columns demo_table)" "?rows \<noteq> []"
    by (simp_all add: tab)
  note facts = bulk_insert_delivers_rows [OF this rows acc ms, unfolded cols]
  have "length ?rows = 2" by simp
  with facts show ?thesis
    by (elim exE conjE, intro exI conjI) (assumption | simp only:)+
qed

section \<open>The chunk sender\<close>

text \<open>Rows added to a chunk by its own methods.\<close>

fun chunk_rows :: "TableDefinition \<Rightarrow> insert_value list list \<Rightarrow> InsertChunk \<Rightarrow> InsertChunk option" where
  "chunk_rows td [] k = Some k"
| "chunk_rows td (row # rows) k =
     (case add_all td row k of
        Some (Inr _, k1) \<Rightarrow> (case chunk_end_row k1 of (Inr _, k2) \<Rightarrow> chunk_rows td rows k2 | _ \<Rightarrow> None)
      | _ \<Rightarrow> None)"

definition encodes :: "copy_column list \<Rightarrow> copy_cell list list \<Rightarrow> InsertChunk \<Rightarrow> bool" where
  "encodes cols rows k \<longleftrightarrow> ic_buffer k = copy_stream cols rows \<and> ic_row_count k = length rows \<and>
     (rows \<noteq> [] \<longrightarrow> concat (map (row_bytes cols) rows) \<noteq> [])"

lemma cell_bytes_nonempty: "cell_ok col c \<Longrightarrow> cell_bytes col c \<noteq> []"
  by (cases "(col, c)" rule: cell_bytes.cases) (auto split: copy_value.splits simp: to_le_bytes_def simp flip: length_greater_0_conv)

lemma row_bytes_nonempty:
  "stored_row td tys row = Some cs \<Longrightarrow> copy_columns td tys \<noteq> [] \<Longrightarrow> row_bytes (copy_columns td tys) cs \<noteq> []"
  using stored_row_ok [of td tys row cs] cell_bytes_nonempty [of "hd (copy_columns td tys)" "hd cs"]
  by (cases "copy_columns td tys"; cases cs) (auto simp: row_bytes_def)

lemma chunk_rows_encodes:
  assumes "list_all2 (\<lambda>row cs. stored_row td tys row = Some cs) rows cells"
    and "td_columns td \<noteq> []" "length tys = length (td_columns td)"
    and "chunk_of td k" "ic_column_index k = 0" "encodes (copy_columns td tys) done k" "ic_header_written k = (done \<noteq> [])"
  shows "\<exists>k'. chunk_rows td rows k = Some k' \<and> encodes (copy_columns td tys) (done @ cells) k'"
  using assms(1,4-7)
proof (induction rows cells arbitrary: k "done" rule: list_all2_induct)
  case (Cons row rows cs cells)
  let ?cols = "copy_columns td tys"
  let ?f = "filled (row_bytes ?cols cs) (column_count td) k"
  let ?e = "?f\<lparr>ic_column_index := 0, ic_row_count := ic_row_count k + 1\<rparr>"
  have add: "add_all td row k = Some (Inr (), ?f)"
    using add_row_filled(1) [OF Cons.hyps(1) assms(3,2) Cons.prems(1,2)] .
  have row: "chunk_end_row ?f = (Inr (), ?e)"
    using Cons.prems(1,2) by (simp add: chunk_end_row_def chunk_of_def)
  have "?cols \<noteq> []"
    using assms(2,3) by (auto simp: copy_columns_def zip_eq_Nil_iff)
  then have enc: "encodes ?cols (done @ [cs]) ?e"
    using Cons.prems(3,4) row_bytes_nonempty [OF Cons.hyps(1)]
    by (simp add: encodes_def copy_stream_snoc filled_def header_of_def)
  have "\<exists>k'. chunk_rows td rows ?e = Some k' \<and> encodes ?cols ((done @ [cs]) @ cells) k'"
    using Cons.prems(1) by (intro Cons.IH enc) (simp_all add: chunk_of_def)
  then show ?case
    using add row by (simp add: id_def)
qed simp

text \<open>The state of a sender after the rows of some chunks.\<close>

definition sending ::
  "Client \<Rightarrow> string \<Rightarrow> bytes \<Rightarrow> copy_column list \<Rightarrow> copy_cell list list \<Rightarrow> ChunkSender \<times> Transport \<Rightarrow> bool" where
  "sending cl q after cols rows s \<longleftrightarrow> (case s of (cs, t) \<Rightarrow>
     \<not> cs_poisoned cs \<and> q = copy_in_command (cs_table_name cs) (cs_columns cs) ''HYPERBINARY'' \<and>
     header_sent cs = (rows \<noteq> []) \<and> total_rows cs = length rows \<and> (cs_writer cs = None \<longleftrightarrow> rows = []) \<and>
     (\<exists>ds. session cl q after ds (cs_writer cs) t \<and> concat ds = copy_stream cols rows))"

lemma data_to_send_stream:
  assumes "concat (map (row_bytes cols) cells) \<noteq> []" "cells \<noteq> []"
  shows "copy_stream cols rows @ data_to_send (rows = []) (copy_stream cols cells) = copy_stream cols (rows @ cells)"
  using assms by (simp add: data_to_send_def copy_stream_def HYPER_BINARY_HEADER_SIZE_def)

lemma send_chunk_sending:
  assumes "sending cl q after cols rows (cs, t)" "accepting cl q after" "encodes cols cells k" "length (ic_buffer k) + 4 < 2 ^ 31"
  shows "\<exists>s'. send_chunk k (cs, t) = (Answered (Inr ()), s') \<and> sending cl q after cols (rows @ cells) s'"
proof (cases "cells = []")
  case True
  then show ?thesis
    using assms(1,3) by (auto simp: send_chunk_def chunk_take_def encodes_def Let_def)
next
  case False
  let ?data = "data_to_send (rows = []) (ic_buffer k)"
  obtain ds where cs: "\<not> cs_poisoned cs" "q = copy_in_command (cs_table_name cs) (cs_columns cs) ''HYPERBINARY''"
      "header_sent cs = (rows \<noteq> [])" "total_rows cs = length rows"
      "session cl q after ds (cs_writer cs) t" "concat ds = copy_stream cols rows"
    using assms(1) by (auto simp: sending_def)
  have k: "chunk_take k = (Some (ic_buffer k), k\<lparr>ic_row_count := 0, ic_buffer := []\<rparr>)" "ic_row_count k = length cells"
    using assms(3) False by (simp_all add: encodes_def chunk_take_def)
  have stream: "concat (ds @ [?data]) = copy_stream cols (rows @ cells)"
    using data_to_send_stream [of cols cells rows] assms(3) False cs(6) by (simp add: encodes_def)
  have size: "length ?data + 4 < 2 ^ 31"
    using assms(4) by (auto simp: data_to_send_def)
  obtain w t1 where w: "sender_open (cs, t) = (Answered (Inr ()), cs\<lparr>cs_writer := Some w\<rparr>, t1)" "session cl q after ds (Some w) t1"
    using sender.open_session [OF cs(5) assms(2) cs(2)] by blast
  let ?cs = "cs\<lparr>cs_writer := Some w, header_sent := True\<rparr>"
  let ?done = "\<lambda>_ s. case s of (cs, t) \<Rightarrow>
    (Answered (Inr ()), cs\<lparr>total_rows := total_rows cs + length cells, chunks_sent := chunks_sent cs + 1\<rparr>, t)"
  from sender.send_payload [OF w(2) size, of ?cs ?done] obtain t2 where
    t2: "continue (sender_call (Writer_send_direct ?data) (?cs, t1)) (\<lambda>_ s. continue (sender_call Writer_flush_stream s) ?done)
      = ?done () (?cs, t2)" "session cl q after (ds @ [?data]) (Some w) t2"
    by blast
  have "send_chunk k (cs, t) = ?done () (?cs, t2)"
    using cs(1,3) k w(1) t2(1) by (simp add: send_chunk_def Let_def)
  moreover have "sending cl q after cols (rows @ cells) (snd (?done () (?cs, t2)))"
    using cs(1,2,4) t2(2) stream False
    unfolding sending_def by (simp, intro exI [of _ "ds @ [?data]"]) simp
  ultimately show ?thesis
    by (intro exI [of _ "snd (?done () (?cs, t2))"]) simp
qed

fun send_chunks :: "InsertChunk list \<Rightarrow> ChunkSender \<times> Transport \<Rightarrow> unit answer \<times> ChunkSender \<times> Transport" where
  "send_chunks [] s = (Answered (Inr ()), s)"
| "send_chunks (k # ks) s = continue (send_chunk k s) (\<lambda>_ s. send_chunks ks s)"

lemma send_chunks_sending:
  assumes "list_all2 (\<lambda>k cells. encodes cols cells k \<and> length (ic_buffer k) + 4 < 2 ^ 31) ks cellss"
    and "sending cl q after cols rows s" "accepting cl q after"
  shows "\<exists>s'. send_chunks ks s = (Answered (Inr ()), s') \<and> sending cl q after cols (rows @ concat cellss) s'"
  using assms(1,2)
proof (induction ks cellss arbitrary: s rows rule: list_all2_induct)
  case (Cons k ks cells cellss)
  obtain cs t where s: "s = (cs, t)" by (cases s)
  from send_chunk_sending [OF Cons.prems [unfolded s] assms(3)] Cons.hyps(1) obtain s1 where
    s1: "send_chunk k s = (Answered (Inr ()), s1)" "sending cl q after cols (rows @ cells) s1"
    unfolding s by blast
  from Cons.IH [OF s1(2)] obtain s2 where "send_chunks ks s1 = (Answered (Inr ()), s2)"
      "sending cl q after cols ((rows @ cells) @ concat cellss) s2"
    by blast
  then show ?case
    using s1(1) by (intro exI [of _ s2]) (simp add: continue_def)
qed simp

lemma sender_finish_sending:
  assumes "sending cl q (wire (ms @ [ReadyForQuery t0]) @ rest) cols rows (cs, t)" "rows \<noteq> []"
    and "answers ms" "length ms < POST_ERROR_DRAIN_CAP"
  shows "\<exists>ds t'. sender_finish (cs, t) = (Answered (map_sum from_client_error id (copy_result ms)), t') \<and>
    session_over cl q ds rest t' \<and> concat ds = copy_stream cols rows"
proof -
  obtain ds w where w: "cs_writer cs = Some w" "\<not> cs_poisoned cs"
      "session cl q (wire (ms @ [ReadyForQuery t0]) @ rest) ds (Some w) t" "concat ds = copy_stream cols rows"
    using assms(1,2) by (auto simp: sending_def)
  from send_session [OF w(3), of "[]"] obtain t1 where
    t1: "writer_call (Writer_send (write_trailer [])) t = (Answered (Inr ()), t1)"
      "session cl q (wire (ms @ [ReadyForQuery t0]) @ rest) (ds @ [[]]) (Some w) t1"
    by (auto simp: write_trailer_def)
  from finish_session [OF t1(2) assms(3,4)] obtain t2 where
    "writer_call (Writer_finish w) t1 = (Answered (map_sum from_client_error id (copy_result ms)), t2)"
    "session_over cl q (ds @ [[]]) rest (unlock t2)"
    by blast
  then show ?thesis
    using w t1(1) by (intro exI [of _ "ds @ [[]]"]) (simp add: sender_finish_def)
qed

text \<open>C5. Chunks may be sent by many threads in any order. Let each thread encode rows into chunks of its
  own; whatever order the calls of \<open>send_chunk\<close> take the lock in, \<open>finish\<close> returns the server's count, and the
  COPY stream on the wire is one header and then the rows of the chunks in that order, which the
  readers of the format decode exactly: the headers of the later chunks are gone and no row is cut,
  lost or doubled. Chunks without rows send nothing, and \<open>total_rows\<close> counts the rows.\<close>

theorem chunk_sender_delivers_rows:
  assumes "td_columns td \<noteq> []" "length tys = length (td_columns td)" "concat cellss \<noteq> []"
    and "list_all2 (\<lambda>rows cells. list_all2 (\<lambda>row cs. stored_row td tys row = Some cs) rows cells \<and>
      length (copy_stream (copy_columns td tys) cells) + 4 < 2 ^ 31) rowss cellss"
    and "accepting cl (copy_target td) (wire (ms @ [ReadyForQuery t0]) @ rest)" "answers ms" "length ms < POST_ERROR_DRAIN_CAP"
  shows "\<exists>cs chunks cs' t ds payload cl'. ChunkSender_new td = Inr cs \<and>
    map (\<lambda>rows. chunk_rows td rows (from_table_definition td)) rowss = map Some chunks \<and>
    send_chunks chunks (cs, Tcp cl) = (Answered (Inr ()), cs', t) \<and> total_rows cs' = length (concat rowss) \<and>
    sender_finish (cs', t) = (Answered (map_sum from_client_error id (copy_result ms)), Tcp cl') \<and>
    sent (conn_stream (guarded (connection cl'))) = sent (conn_stream (guarded (connection cl))) @
      query_frame (copy_target td) @ data_frames ds @ frame CHR ''c'' [] \<and>
    concat ds = HYPER_BINARY_HEADER @ payload \<and>
    read_rows (copy_columns td tys) (length (concat rowss)) payload = Some (concat cellss, []) \<and>
    usable (connection cl') \<and> in_sync (guarded (connection cl')) \<and> unread (guarded (connection cl')) = rest"
proof -
  let ?cols = "copy_columns td tys" and ?after = "wire (ms @ [ReadyForQuery t0]) @ rest"
  have new: "chunk_of td (from_table_definition td)" "ic_column_index (from_table_definition td) = 0"
      "encodes ?cols [] (from_table_definition td)" "\<not> ic_header_written (from_table_definition td)"
    by (simp_all add: from_table_definition_def InsertChunk_new_def chunk_of_def encodes_def copy_stream_def)
  have "\<exists>chunks. map (\<lambda>rows. chunk_rows td rows (from_table_definition td)) rowss = map Some chunks \<and>
      list_all2 (\<lambda>k cells. encodes ?cols cells k \<and> length (ic_buffer k) + 4 < 2 ^ 31) chunks cellss"
    using assms(4)
  proof (induction rowss cellss rule: list_all2_induct)
    case (Cons rows rowss cells cellss)
    from chunk_rows_encodes [OF conjunct1 [OF Cons.hyps(1)] assms(1,2) new(1-3)] new(4) obtain k where
      "chunk_rows td rows (from_table_definition td) = Some k" "encodes ?cols cells k"
      by auto
    with Cons.IH Cons.hyps(1) show ?case
      by (elim exE, intro exI [of _ "k # _"]) (auto simp: encodes_def)
  qed simp
  then obtain chunks where ks: "map (\<lambda>rows. chunk_rows td rows (from_table_definition td)) rowss = map Some chunks"
      "list_all2 (\<lambda>k cells. encodes ?cols cells k \<and> length (ic_buffer k) + 4 < 2 ^ 31) chunks cellss"
    by blast
  obtain cs where cs: "ChunkSender_new td = Inr cs" "sending cl (copy_target td) ?after ?cols [] (cs, Tcp cl)"
    using assms(1) by (simp add: ChunkSender_new_def column_count_def sending_def copy_target_def session_def copy_stream_def)
  from send_chunks_sending [OF ks(2) cs(2) assms(5)] obtain cs' t where
    s: "send_chunks chunks (cs, Tcp cl) = (Answered (Inr ()), cs', t)" "sending cl (copy_target td) ?after ?cols (concat cellss) (cs', t)"
    by (metis append_Nil surj_pair)
  from sender_finish_sending [OF s(2) assms(3,6,7)] obtain ds t' where
    fin: "sender_finish (cs', t) = (Answered (map_sum from_client_error id (copy_result ms)), t')"
      "session_over cl (copy_target td) ds rest t'" "concat ds = copy_stream ?cols (concat cellss)"
    by blast
  have all: "list_all2 (\<lambda>row cs. stored_row td tys row = Some cs \<and> True) (concat rowss) (concat cellss)"
    using assms(4) by (induction rowss cellss rule: list_all2_induct) (auto intro: list_all2_appendI)
  have rows: "total_rows cs' = length (concat rowss)"
    using s(2) list_all2_lengthD [OF all] by (simp add: sending_def)
  have "concat ds = HYPER_BINARY_HEADER @ concat (map (row_bytes ?cols) (concat cellss))"
    using fin(3) assms(3) by (simp only: copy_stream_def if_False)
  with cs(1) ks(1) s(1) rows fin(1,2) stored_rows_read [OF all] show ?thesis
    unfolding session_over_def by blast
qed

theorem chunk_sender_delivers_rows_witness:
  "\<exists>cs chunks cs' t cl'. ChunkSender_new demo_table = Inr cs \<and>
    map (\<lambda>rows. chunk_rows demo_table rows (from_table_definition demo_table))
      [[[VI32 7, VStr ''x'']], [], [[VNull, VStr '''']]] = map Some chunks \<and>
    send_chunks chunks (cs, Tcp (demo_client (server_encode demo_copy_in @
      wire ([CommandComplete (as_bytes ''COPY 2'')] @ [ReadyForQuery 73]) @ [9]))) = (Answered (Inr ()), cs', t) \<and>
    total_rows cs' = 2 \<and> (\<exists>r. sender_finish (cs', t) = (Answered r, Tcp cl'))"
proof -
  let ?ms = "[CommandComplete (as_bytes ''COPY 2'')]"
  let ?rowss = "[[[VI32 7, VStr ''x'']], [], [[VNull, VStr '''']]]"
  let ?cellss = "[[[Some (CI32 7), Some (CVar [120])]], [], [[None, Some (CVar [])]]]"
  have tab: "td_columns demo_table = [with_sql_type ''id'' SqlInt Nullable, with_sql_type ''name'' SqlText NotNullable]"
    by (simp add: demo_table_def add_required_column_def add_nullable_column_def TableDefinition_new_def)
  have cols: "copy_columns demo_table [TI32, TVar] = [(TI32, True), (TVar, False)]"
    by (simp add: copy_columns_def tab with_sql_type_def is_nullable_def)
  have rows: "list_all2 (\<lambda>rows cells. list_all2 (\<lambda>row cs. stored_row demo_table [TI32, TVar] row = Some cs) rows cells \<and>
      length (copy_stream (copy_columns demo_table [TI32, TVar]) cells) + 4 < 2 ^ 31) ?rowss ?cellss"
    by (simp add: stored_row_def cols var_cell_def row_bytes_def copy_stream_def as_bytes_def byte_of_def)
  have ms: "answers ?ms" "length ?ms < POST_ERROR_DRAIN_CAP"
    by (simp_all add: answers_def sendable_def POST_ERROR_DRAIN_CAP_def nul_free_bytes_def as_bytes_def byte_of_def)
  have acc: "accepting (demo_client (server_encode demo_copy_in @ wire (?ms @ [ReadyForQuery 73]) @ [9])) (copy_target demo_table)
      (wire (?ms @ [ReadyForQuery 73]) @ [9])"
    by (rule demo_accepting)
  have "td_columns demo_table \<noteq> []" "length [TI32, TVar] = length (td_columns demo_table)" "concat ?cellss \<noteq> []"
    by (simp_all add: tab)
  note facts = chunk_sender_delivers_rows [OF this rows acc ms]
  have "length (concat ?rowss) = 2" by simp
  with facts show ?thesis
    by (elim exE conjE, intro exI conjI) (assumption | simp only:)+
qed

section \<open>Where the code falls short\<close>

text \<open>The server rejects the COPY command with an error.\<close>

lemma start_copy_rejected:
  assumes "in_sync c" "answers [ErrorResponse b]" "unread c = wire ([ErrorResponse b] @ [ReadyForQuery t]) @ rest"
    and "length (copy_in_command table columns fmt) + 5 < 2 ^ 31"
  shows "\<exists>c'. start_copy_in_with_format table columns fmt c = Some (Inl (parse_error_response b), c') \<and>
    in_sync c' \<and> unread c' = rest"
proof -
  let ?q = "copy_in_command table columns fmt"
  have c: "is_healthy c" "write_buf c = []" "sendable (ErrorResponse b)"
    using assms(1,2) by (simp_all add: in_sync_def answers_def)
  obtain c1 where c1: "flush (c\<lparr>write_buf := query_frame ?q\<rparr>) = (Inr (), c1)" "in_sync c1"
      "unread c1 = server_encode (ErrorResponse b) @ wire ([] @ [ReadyForQuery t]) @ rest"
    using flush_request [OF assms(1)] assms(3) by (metis append.assoc append_Cons append_Nil wire_simps(2))
  then have "quiet c1"
    by (simp add: in_sync_def)
  with read_advances [OF _ c(3) c1(3)] obtain c2 where c2: "read_message c1 = (Inr (ErrorResponse b), c2)"
      "advanced c1 (wire ([] @ [ReadyForQuery t]) @ rest) c2"
    by blast
  obtain c3 where c3: "server_error b c2 = ((Inl (parse_error_response b), c3) :: (Error + unit) \<times> RawConnection)"
      "advanced c2 rest c3"
    using server_error_stream [OF assms(2), of c2 t rest, where ?'a = unit] c2(2) by (auto simp: advanced_def)
  have "await_copy_in c1 = (Inl (parse_error_response b), c3)"
    using c2(1) c3(1) by (subst await_copy_in.simps) simp
  then have "start_copy_in_with_format table columns fmt c = Some (Inl (parse_error_response b), c3)"
    using c c1(1) emit_query [OF assms(4), of c]
    by (simp add: start_copy_in_with_format_def guard_healthy)
  then show ?thesis
    using advanced_in_sync [OF c1(2) advanced_trans [OF c2(2) c3(2)]] by blast
qed

text \<open>C40. A failed flush loses its rows. \<open>flush\<close> empties the chunk before it opens the COPY session: when the
  server rejects the session, the error is reported but the buffered rows and the stream header are
  gone while the inserter still counts them. A caller that goes on to \<open>execute\<close> (the server now accepting)
  gets the server's success for a COPY stream that has no byte in it, not even the header.\<close>

theorem failed_flush_loses_rows:
  assumes "ic_row_count (chunk ins) \<noteq> 0" "ic_column_index (chunk ins) = 0" "ins_row_count ins \<noteq> 0" "ins_writer ins = None"
    and "usable (connection cl)" "in_sync (guarded (connection cl))" "length (copy_target (table_def ins)) + 5 < 2 ^ 31"
    and "answers [ErrorResponse b]" "sendable (CopyInResponse r)" "answers ms" "length ms < POST_ERROR_DRAIN_CAP"
    and "unread (guarded (connection cl)) = wire ([ErrorResponse b] @ [ReadyForQuery t1]) @
      server_encode (CopyInResponse r) @ wire (ms @ [ReadyForQuery t0]) @ rest"
  shows "\<exists>ins' cl' t' ds. Inserter_flush (ins, Tcp cl) = (Answered (Inl (from_client_error (parse_error_response b))), ins', Tcp cl') \<and>
    ins_row_count ins' = ins_row_count ins \<and>
    Inserter_execute (ins', Tcp cl') = (Answered (map_sum from_client_error id (copy_result ms)), t') \<and>
    session_over cl' (copy_target (table_def ins)) ds rest t' \<and> concat ds = []"
proof -
  let ?q = "copy_target (table_def ins)"
  let ?ins = "ins\<lparr>chunk := (chunk ins)\<lparr>ic_row_count := 0, ic_buffer := []\<rparr>\<rparr>"
  obtain c' where c': "start_copy_in_with_format (qualified_name (table_def ins)) (map col_name (td_columns (table_def ins)))
        ''HYPERBINARY'' (guarded (connection cl)) = Some (Inl (parse_error_response b), c')" "in_sync c'"
      "unread c' = server_encode (CopyInResponse r) @ wire (ms @ [ReadyForQuery t0]) @ rest"
    using start_copy_rejected [OF assms(6,8,12), of "qualified_name (table_def ins)"
        "map col_name (td_columns (table_def ins))" "''HYPERBINARY''"] assms(7)
    unfolding copy_target_def by blast
  let ?cl = "cl\<lparr>connection := (connection cl)\<lparr>guarded := c'\<rparr>\<rparr>"
  have fl: "Inserter_flush (ins, Tcp cl) = (Answered (Inl (from_client_error (parse_error_response b))), ?ins, Tcp ?cl)"
    using assms(1,4,5) c'(1)
    by (simp add: Inserter_flush_def chunk_is_empty_def chunk_take_def ensure_writer_def open_copy_def copy_in_def
        copy_in_with_format_def on_connection_def with_guard_def with_lock_def usable_def continue_def)
  have acc: "accepting ?cl ?q (wire (ms @ [ReadyForQuery t0]) @ rest)"
    using assms(5,7,9) c'(2,3) by (auto simp: accepting_def)
  have "\<exists>ds t'. Inserter_execute (?ins, Tcp ?cl) = (Answered (map_sum from_client_error id (copy_result ms)), t') \<and>
      session_over ?cl ?q ds rest t' \<and> concat ds = concat [] @ ic_buffer (chunk ?ins)"
    using assms(2-4) by (intro execute_session [OF _ _ _ _ _ acc _ assms(10,11)]) (simp_all add: session_def)
  with fl show ?thesis
    by (elim exE conjE, intro exI [of _ ?ins] exI [of _ ?cl]) auto
qed

theorem failed_flush_loses_rows_witness:
  "\<exists>ins' cl' t' ds. Inserter_flush (\<lparr>table_def = demo_table, chunk = \<lparr>ic_buffer = HYPER_BINARY_HEADER @ [1, 0, 0, 0, 0],
      ic_header_written = True, ic_column_index = 0, ic_column_count = 2, ic_row_count = 1, ic_column_nullable = [True, False]\<rparr>,
      ins_row_count = 1, chunk_count = 0, ins_writer = None\<rparr>,
      Tcp (demo_client (wire ([ErrorResponse []] @ [ReadyForQuery 73]) @ server_encode demo_copy_in @
        wire ([CommandComplete (as_bytes ''COPY 0'')] @ [ReadyForQuery 73]) @ []))) =
      (Answered (Inl (from_client_error (parse_error_response []))), ins', Tcp cl') \<and>
    (\<exists>r. Inserter_execute (ins', Tcp cl') = (Answered r, t')) \<and> session_over cl' (copy_target demo_table) ds [] t' \<and> concat ds = []"
proof -
  let ?ms = "[CommandComplete (as_bytes ''COPY 0'')]"
  let ?ins = "\<lparr>table_def = demo_table, chunk = \<lparr>ic_buffer = HYPER_BINARY_HEADER @ [1, 0, 0, 0, 0],
      ic_header_written = True, ic_column_index = 0, ic_column_count = 2, ic_row_count = 1, ic_column_nullable = [True, False]\<rparr>,
      ins_row_count = 1, chunk_count = 0, ins_writer = None\<rparr>"
  let ?bs = "wire ([ErrorResponse []] @ [ReadyForQuery 73]) @ server_encode demo_copy_in @ wire (?ms @ [ReadyForQuery 73]) @ []"
  have "length ?bs > 3"
    using length_server_encode [of demo_copy_in] by simp
  note demo = demo_mutex_usable [OF this]
  have cl: "usable (connection (demo_client ?bs))" "in_sync (guarded (connection (demo_client ?bs)))"
      "unread (guarded (connection (demo_client ?bs))) = ?bs"
    using demo by (simp_all add: demo_client_def)
  have len: "length (copy_target (table_def ?ins)) + 5 < 2 ^ 31"
    using demo_accepting [of "[]"] by (simp add: accepting_def)
  have ms: "answers [ErrorResponse []]" "answers ?ms" "length ?ms < POST_ERROR_DRAIN_CAP"
    by (simp_all add: answers_def sendable_def POST_ERROR_DRAIN_CAP_def nul_free_bytes_def as_bytes_def byte_of_def)
  have "sendable (CopyInResponse \<lparr>cr_format = 0, cr_len = 0, cr_storage = []\<rparr>)"
    by (simp add: sendable_def)
  from failed_flush_loses_rows [OF _ _ _ _ cl(1,2) len ms(1) this ms(2,3), of 73 73 "[]"] cl(3) show ?thesis
    by (simp add: demo_copy_in_def) blast
qed

text \<open>The staging table of a mapped inserter is created under the schema and database of the caller's
  definition, but dropped and read by its bare name: with a qualified definition these are
  different names.\<close>

theorem staging_names_differ:
  "td_schema d = Some s \<Longrightarrow>
   (\<exists>pre. scan_name 3 (qualified_name (staging_definition d name)) = Some (pre @ [s, name])) \<and>
   staging_drop_sql \<lparr>staging_name = name, dropped = False\<rparr> = ''DROP TABLE IF EXISTS '' @ SqlIdentifier_fmt name \<and>
   scan_name 3 (SqlIdentifier_fmt name) = Some [name]"
proof -
  assume s: "td_schema d = Some s"
  let ?pre = "case td_database d of None \<Rightarrow> [] | Some x \<Rightarrow> [x]"
  have "scan_name 3 (qualified_name (staging_definition d name)) = Some (?pre @ [s, name])"
    using s by (cases "td_database d")
      (simp_all add: staging_definition_def set_persistence_def qualified_name_def eval_nat_numeral
        scan_name_last scan_name_dot del: scan_name.simps)
  moreover have "scan_name 3 (SqlIdentifier_fmt name) = Some [name]"
    by (simp add: eval_nat_numeral scan_name_last del: scan_name.simps)
  ultimately show ?thesis
    by (auto simp: staging_drop_sql_def)
qed

text \<open>The direct path accepts payloads up to \<open>u32::MAX\<close>, but the length of a message is a signed 32-bit
  number: where the buffered writer panics, the direct one sends a negative length.\<close>

theorem direct_length_wraps:
  assumes "2 ^ 31 \<le> length data + 4" "length data + 4 < 2 ^ 32" "outcomes (conn_stream c) = []"
  shows "Writer_send data c = None \<and>
    (\<exists>c' w. Writer_send_direct data c = Some (Inr (), c') \<and> sint (w :: i32) < 0 \<and>
      sent (conn_stream c') = sent (conn_stream c) @ write_buf c @ byte_of CHR ''d'' # to_be_bytes w @ data)"
proof -
  let ?w = "word_of_nat (4 + length data) :: i32"
  have "unat ?w = 4 + length data"
    using assms(2) by (simp add: unat_of_nat del: of_nat_add)
  then have big: "2 ^ 31 \<le> uint ?w"
    using assms(1) unfolding uint_nat by simp
  have "sint ?w < 0"
  proof (rule ccontr)
    assume "\<not> sint ?w < 0"
    then have "uint (word_of_int (sint ?w) :: u32) = sint ?w"
      using sint_i32_bounds [of ?w] by (intro uint_word_of_int_u32) simp
    then show False
      using big sint_i32_bounds [of ?w] by (simp del: of_nat_add)
  qed
  moreover have "Writer_send data c = None"
    using assms(1) by (simp add: Writer_send_def send_copy_data_def emit_def copy_data_framed framed_def)
  moreover have "\<exists>c'. Writer_send_direct data c = Some (Inr (), c') \<and>
      sent (conn_stream c') = sent (conn_stream c) @ write_buf c @ byte_of CHR ''d'' # to_be_bytes ?w @ data"
    using assms(2,3)
    by (cases "write_buf c = []") (simp_all add: Writer_send_direct_def send_copy_data_direct_def stream_put_copying)
  ultimately show ?thesis
    by blast
qed

end
