(* ===== verification/Sql_Classify.thy ===== *)
theory Sql_Classify
  imports Rust_Strings Sql_Escape
begin

text \<open>
  Classification of SQL text, \<open>hyperdb-mcp/src/sql_classify.rs\<close>: the tokenizer that mirrors Hyper's lexer,
  the nesting of parentheses and the rules that decide whether a statement only reads. The
  read-only tools of the server rely on this alone.

  An offset into the text is the text from there on. A text is the UTF-8 bytes of a string.
\<close>

section \<open>The code\<close>

datatype StatementKind = ReadOnly | Ddl | Dml | TransactionControl | OtherKind

datatype Item =
    Word string \<comment> \<open>an unquoted identifier or keyword, in upper case\<close>
  | Group "Item list" \<comment> \<open>the items between a parenthesis and its partner\<close>
  | Semicolon
  | OtherItem

definition MAX_GROUP_DEPTH :: nat where
  "MAX_GROUP_DEPTH = 256"

definition READ_ONLY_KEYWORDS :: "string list" where
  "READ_ONLY_KEYWORDS = [''SELECT'', ''VALUES'', ''TABLE'']"

definition DML_KEYWORDS :: "string list" where
  "DML_KEYWORDS = [''INSERT'', ''UPDATE'', ''DELETE'', ''MERGE'', ''COPY'']"

subsection \<open>Tokens\<close>

text \<open>\<open>chars().next()\<close> on valid UTF-8: the code point of the first character and its length in bytes.\<close>

definition first_char :: "bytes \<Rightarrow> nat \<times> nat" where
  "first_char bs =
     (case map unat bs of
        a # b # c # d # _ \<Rightarrow>
          if a < 0x80 then (a, 1)
          else if a < 0xE0 then ((a mod 0x20) * 0x40 + b mod 0x40, 2)
          else if a < 0xF0 then (((a mod 0x10) * 0x40 + b mod 0x40) * 0x40 + c mod 0x40, 3)
          else ((((a mod 0x08) * 0x40 + b mod 0x40) * 0x40 + c mod 0x40) * 0x40 + d mod 0x40, 4)
      | [a, b, c] \<Rightarrow>
          if a < 0x80 then (a, 1)
          else if a < 0xE0 then ((a mod 0x20) * 0x40 + b mod 0x40, 2)
          else (((a mod 0x10) * 0x40 + b mod 0x40) * 0x40 + c mod 0x40, 3)
      | [a, b] \<Rightarrow> if a < 0x80 then (a, 1) else ((a mod 0x20) * 0x40 + b mod 0x40, 2)
      | [a] \<Rightarrow> (a, 1)
      | [] \<Rightarrow> (0, 1))"

definition is_unicode_whitespace :: "nat \<Rightarrow> bool" where
  "is_unicode_whitespace c \<longleftrightarrow>
     c = 0xA0 \<or> 0x2000 \<le> c \<and> c \<le> 0x200F \<or> c = 0x2028 \<or> c = 0x2029 \<or> c = 0x3000 \<or> c = 0xFEFF"

definition byte_is_digit :: "u8 \<Rightarrow> bool" where
  "byte_is_digit b \<longleftrightarrow> 48 \<le> b \<and> b \<le> 57"

definition byte_is_alphabetic :: "u8 \<Rightarrow> bool" where
  "byte_is_alphabetic b \<longleftrightarrow> 65 \<le> b \<and> b \<le> 90 \<or> 97 \<le> b \<and> b \<le> 122"

definition byte_is_alphanumeric :: "u8 \<Rightarrow> bool" where
  "byte_is_alphanumeric b \<longleftrightarrow> byte_is_digit b \<or> byte_is_alphabetic b"

lemma first_char_pos [simp]: "0 < snd (first_char bs)"
  by (auto simp: first_char_def split: list.splits)

function skip_identifier :: "bytes \<Rightarrow> bytes" where
  "skip_identifier bs =
     (case bs of
        [] \<Rightarrow> []
      | b # r \<Rightarrow>
          if byte_is_alphanumeric b \<or> b = 0x5F then skip_identifier r
          else if b < 0x80 then bs
          else
            (case first_char bs of (c, n) \<Rightarrow>
               if \<not> is_unicode_whitespace c then skip_identifier (drop n bs) else bs))"
  by pat_completeness auto
termination
  by (relation "measure length") (auto, metis first_char_pos diff_less length_Cons snd_conv zero_less_Suc)

declare skip_identifier.simps [simp del]

fun find :: "bytes \<Rightarrow> bytes \<Rightarrow> nat option" where
  "find [] needle = None"
| "find (b # r) needle =
     (if take (length needle) (b # r) = needle then Some 0 else map_option Suc (find r needle))"

definition newline :: "u8 \<Rightarrow> bool" where
  "newline b \<longleftrightarrow> b = 10 \<or> b = 13"

text \<open>Past a block comment whose body is given: \<open>0x2A\<close>, \<open>0x2F\<close> are star and slash.\<close>

definition skip_block :: "bytes \<Rightarrow> bytes option" where
  "skip_block r = map_option (\<lambda>pos. drop (pos + 2) r) (find r [0x2A, 0x2F])"

text \<open>To the end of a line comment.\<close>

definition skip_line :: "bytes \<Rightarrow> bytes" where
  "skip_line r = dropWhile (\<lambda>b. \<not> newline b) r"

lemma skip_block_length: "skip_block r = Some r' \<Longrightarrow> length r' \<le> length r"
  by (auto simp: skip_block_def)

lemma skip_line_length: "length (skip_line r) \<le> length r"
  by (simp add: skip_line_def length_dropWhile_le)

function string_continuation :: "bool \<Rightarrow> bytes \<Rightarrow> bytes option" where
  "string_continuation had_newline bs =
     (case bs of
        [] \<Rightarrow> None
      | b # r \<Rightarrow>
          if b = 0x20 \<or> b = 0x09 \<or> b = 0x0C then string_continuation had_newline r
          else if newline b then string_continuation True r
          else if b = 0x27 then (if had_newline then Some r else None)
          else if b = 0x2D \<and> r \<noteq> [] \<and> hd r = 0x2D then string_continuation True (skip_line (tl r))
          else if b = 0x2F \<and> r \<noteq> [] \<and> hd r = 0x2A then
            (case skip_block (tl r) of None \<Rightarrow> None | Some r' \<Rightarrow> string_continuation True r')
          else None)"
  by pat_completeness auto
termination
  by (relation "measure (\<lambda>(_, bs). length bs)")
    (auto intro: le_less_trans [OF skip_line_length] le_less_trans [OF skip_block_length])

declare string_continuation.simps [simp del]

lemma string_continuation_length: "string_continuation nl bs = Some r \<Longrightarrow> length r < length bs"
proof (induction "length bs" arbitrary: nl bs rule: less_induct)
  case less
  then obtain b r0 where bs: "bs = b # r0"
    by (cases bs) (auto simp: string_continuation.simps)
  have IH: "length r \<le> length r0" if "string_continuation nl' r' = Some r" "length r' \<le> length r0" for nl' r'
    using less.hyps [of r' nl'] that bs by simp
  have line: "length (skip_line (tl r0)) \<le> length r0"
    by (rule le_trans [OF skip_line_length]) simp
  have block: "length r' \<le> length r0" if "skip_block (tl r0) = Some r'" for r'
    using skip_block_length [OF that] by simp
  note shorter = IH [of _ r0] IH [OF _ line] IH [OF _ block]
  show ?case
    using less.prems unfolding string_continuation.simps [of nl bs] unfolding bs list.case
    by (auto split: if_splits option.splits dest: shorter)
qed

function skip_string :: "bool \<Rightarrow> bytes \<Rightarrow> bytes option" where
  "skip_string escapes bs =
     (case bs of
        [] \<Rightarrow> None
      | b # r \<Rightarrow>
          if b = 0x27 then
            (if r \<noteq> [] \<and> hd r = 0x27 then skip_string escapes (tl r)
             else
               (case string_continuation False r of
                  Some r' \<Rightarrow> skip_string escapes r'
                | None \<Rightarrow> Some r))
          else if escapes \<and> b = 0x5C \<and> r \<noteq> [] then skip_string escapes (tl r)
          else skip_string escapes r)"
  by pat_completeness auto
termination
  by (relation "measure (\<lambda>(_, bs). length bs)") (auto dest: string_continuation_length)

declare skip_string.simps [simp del]

lemma skip_string_length: "skip_string escapes bs = Some r \<Longrightarrow> length r < length bs"
proof (induction "length bs" arbitrary: escapes bs rule: less_induct)
  case less
  then obtain b r0 where bs: "bs = b # r0"
    by (cases bs) (auto simp: skip_string.simps)
  have IH: "length r \<le> length r0" if "skip_string e r' = Some r" "length r' \<le> length r0" for e r'
    using less.hyps [of r' e] that bs by simp
  have tl: "length (tl r0) \<le> length r0" by simp
  have cont: "length r' \<le> length r0" if "string_continuation False r0 = Some r'" for r'
    using string_continuation_length [OF that] by simp
  have empty: "skip_string e [] = None" for e
    by (simp add: skip_string.simps)
  note shorter = IH [of _ r0] IH [OF _ tl] IH [OF _ cont]
  show ?case
    using less.prems unfolding skip_string.simps [of escapes bs] unfolding bs list.case
    by (auto simp: empty split: if_splits option.splits dest: shorter)
qed

fun skip_quoted_identifier :: "bytes \<Rightarrow> bytes option" where
  "skip_quoted_identifier [] = None"
| "skip_quoted_identifier (b # r) =
     (if b = 0x22 then
        (case r of
           c # r' \<Rightarrow> if c = 0x22 then skip_quoted_identifier r' else Some r
         | [] \<Rightarrow> Some r)
      else skip_quoted_identifier r)"

lemma skip_quoted_identifier_length: "skip_quoted_identifier bs = Some r \<Longrightarrow> length r < length bs"
  by (induction bs rule: skip_quoted_identifier.induct) (auto split: if_splits list.splits)

text \<open>The argument starts at the first dollar sign (\<open>0x24\<close>).\<close>

definition skip_dollar_quote :: "bytes \<Rightarrow> bytes option" where
  "skip_dollar_quote bs =
     do { pos \<leftarrow> find (tl bs) [0x24];
          let marker = take (pos + 2) bs;
          let body = drop (pos + 2) bs;
          p \<leftarrow> find body marker;
          Some (drop (p + length marker) body) }"

lemma skip_dollar_quote_length: "skip_dollar_quote bs = Some r \<Longrightarrow> bs \<noteq> [] \<Longrightarrow> length r < length bs"
  by (auto simp: skip_dollar_quote_def Let_def split: bind_splits)

lemma skip_identifier_length: "length (skip_identifier bs) \<le> length bs"
proof (induction "length bs" arbitrary: bs rule: less_induct)
  case less
  show ?case
  proof (cases bs)
    case Nil
    then show ?thesis by (simp add: skip_identifier.simps)
  next
    case (Cons b r)
    let ?d = "drop (snd (first_char bs)) bs"
    have "length ?d < length bs"
      using Cons first_char_pos [of bs] by simp
    with less.hyps [of ?d] less.hyps [of r] Cons show ?thesis
      by (subst skip_identifier.simps) (auto split: prod.splits)
  qed
qed

text \<open>A word starts with a letter, an underscore or a character that is not ASCII and not whitespace, and
  takes at least that character.\<close>

lemma skip_identifier_shorter:
  assumes "bs = b # r" "byte_is_alphanumeric b \<or> b = 0x5F \<or> b \<ge> 0x80 \<and> \<not> is_unicode_whitespace (fst (first_char bs))"
  shows "length (skip_identifier bs) < length bs"
proof -
  let ?d = "drop (snd (first_char bs)) bs"
  have "length ?d < length bs"
    using assms(1) first_char_pos [of bs] by simp
  moreover have "skip_identifier bs = skip_identifier r \<or> skip_identifier bs = skip_identifier ?d"
    using assms by (subst (1 2) skip_identifier.simps [of bs]) (auto split: prod.splits)
  ultimately show ?thesis
    using skip_identifier_length [of r] skip_identifier_length [of ?d] assms(1)
    by (metis le_less_trans length_Cons lessI)
qed


subsection \<open>Nesting\<close>

datatype Lexeme = Blank | Opening | Closing | Token Item

definition to_word :: "bytes \<Rightarrow> Item" where
  "to_word bs = Word (to_ascii_uppercase (map char_of_byte bs))"

definition scan_word :: "bytes \<Rightarrow> Lexeme \<times> bytes" where
  "scan_word bs =
     (let r = skip_identifier bs in (Token (to_word (take (length bs - length r) bs)), r))"

text \<open>One round of the loop of \<open>parse\<close> up to the stack: what starts here and where it ends.\<close>

definition scan :: "u8 \<Rightarrow> bytes \<Rightarrow> (Lexeme \<times> bytes) option" where
  "scan b r =
     (if b \<in> {0x09, 0x0A, 0x0B, 0x0C, 0x0D, 0x20} then Some (Blank, r)
      else if b = 0x2D \<and> take 1 r = [0x2D] then Some (Blank, skip_line (tl r))
      else if b = 0x2F \<and> take 1 r = [0x2A] then map_option (Pair Blank) (skip_block (tl r))
      else if b = 0x28 then Some (Opening, r)
      else if b = 0x29 then Some (Closing, r)
      else if b = 0x3B then Some (Token Semicolon, r)
      else if b = 0x27 then map_option (Pair (Token OtherItem)) (skip_string False r)
      else if b = 0x22 then map_option (Pair (Token OtherItem)) (skip_quoted_identifier r)
      else if b = 0x24 \<and> r \<noteq> [] \<and> byte_is_digit (hd r) then
        Some (Token OtherItem, dropWhile byte_is_digit r)
      else if b = 0x24 then map_option (Pair (Token OtherItem)) (skip_dollar_quote (b # r))
      else if b = 0x5C then
        Some (Token OtherItem,
          if r \<noteq> [] \<and> (byte_is_alphanumeric (hd r) \<or> hd r = 0x3F) then dropWhile byte_is_alphanumeric (tl r)
          else r)
      else if (b = 0x65 \<or> b = 0x45) \<and> take 1 r = [0x27] then
        map_option (Pair (Token OtherItem)) (skip_string True (tl r))
      else if byte_is_alphabetic b \<or> b = 0x5F then Some (scan_word (b # r))
      else if b < 0x80 then Some (Token OtherItem, r)
      else
        (case first_char (b # r) of (c, n) \<Rightarrow>
           if is_unicode_whitespace c then Some (Blank, drop n (b # r)) else Some (scan_word (b # r))))"

lemma dropWhile_tl_length:
  "length (dropWhile P xs) \<le> length xs" "length (dropWhile P (tl xs)) \<le> length xs"
  by (rule length_dropWhile_le) (rule le_trans [OF length_dropWhile_le], simp)

lemma scan_word_shorter:
  assumes "scan_word (b # r) = (x, r')"
    and "byte_is_alphabetic b \<or> b = 0x5F \<or> b \<ge> 0x80 \<and> \<not> is_unicode_whitespace (fst (first_char (b # r)))"
  shows "length r' \<le> length r"
  using skip_identifier_shorter [of "b # r" b r] assms
  by (auto simp: scan_word_def Let_def byte_is_alphanumeric_def less_Suc_eq_le)

lemma scan_shorter:
  assumes "scan b r = Some (x, r')"
  shows "length r' \<le> length r"
proof -
  have line: "length (skip_line (tl r)) \<le> length r"
    by (rule le_trans [OF skip_line_length]) simp
  have tl: "length t \<le> length r" if "length t \<le> length (tl r)" for t :: bytes
    using that by simp
  have char: "Suc (length r) - snd (first_char (b # r)) \<le> length r"
    using first_char_pos [of "b # r"] by linarith
  have dollar: "length t \<le> length u" if "skip_dollar_quote (a # u) = Some t" for t u and a :: u8
    using skip_dollar_quote_length [OF that] by simp
  note shorter = tl [OF skip_block_length] skip_string_length skip_quoted_identifier_length dollar
    tl [OF less_imp_le [OF skip_string_length]] scan_word_shorter
  show ?thesis
    using assms unfolding scan_def
    by (auto simp: case_prod_beta line char dropWhile_tl_length split: if_splits
        dest: shorter intro: less_imp_le)
qed

text \<open>The stack has its top, the group that is being filled, first.\<close>

function parse_loop :: "Item list list \<Rightarrow> bytes \<Rightarrow> Item list option" where
  "parse_loop stack bs =
     (case bs of
        [] \<Rightarrow> (case stack of [root] \<Rightarrow> Some root | _ \<Rightarrow> None)
      | b # r \<Rightarrow>
          (case scan b r of
             None \<Rightarrow> None
           | Some (Blank, r') \<Rightarrow> parse_loop stack r'
           | Some (Opening, r') \<Rightarrow>
               if length stack > MAX_GROUP_DEPTH then None else parse_loop ([] # stack) r'
           | Some (Closing, r') \<Rightarrow>
               (case stack of
                  inner # below # st \<Rightarrow> parse_loop ((below @ [Group inner]) # st) r'
                | _ \<Rightarrow> None)
           | Some (Token t, r') \<Rightarrow>
               (case stack of current # st \<Rightarrow> parse_loop ((current @ [t]) # st) r' | [] \<Rightarrow> None)))"
  by pat_completeness auto
termination
  by (relation "measure (\<lambda>(_, bs). length bs)") (auto dest!: scan_shorter)

declare parse_loop.simps [simp del]

definition parse :: "string \<Rightarrow> Item list option" where
  "parse sql = parse_loop [[]] (as_bytes sql)"


subsection \<open>Classification\<close>

definition is_bare_explain_option :: "Item \<Rightarrow> bool" where
  "is_bare_explain_option i \<longleftrightarrow> i \<in> {Word ''ANALYZE'', Word ''ANALYSE'', Word ''VERBOSE''}"

definition classify_query :: "Item list \<Rightarrow> StatementKind" where
  "classify_query items = (if Word ''INTO'' \<in> set items then Dml else ReadOnly)"

lemma size_takeWhile_items: "size_list size (takeWhile P xs) \<le> size_list size (xs :: Item list)"
  by (induction xs) auto

lemma size_dropWhile_items: "size_list size (dropWhile P xs) \<le> size_list size (xs :: Item list)"
  by (induction xs) auto

function (sequential) classify_items :: "Item list \<Rightarrow> StatementKind"
  and classify_single :: "Item list \<Rightarrow> StatementKind"
  and classify_with :: "bool \<Rightarrow> Item list \<Rightarrow> StatementKind"
  and classify_explain :: "Item list \<Rightarrow> StatementKind" where
  "classify_items items =
     (if tl (dropWhile (\<lambda>i. i \<noteq> Semicolon) items) \<noteq> [] then OtherKind
      else classify_single (takeWhile (\<lambda>i. i \<noteq> Semicolon) items))"
| "classify_single (Group inner # rest) = classify_items inner"
| "classify_single (Word w # rest) =
     (if w \<in> {''SELECT'', ''VALUES'', ''TABLE''} then classify_query rest
      else if w = ''SHOW'' then ReadOnly
      else if w = ''WITH'' then classify_with False rest
      else if w = ''EXPLAIN'' then classify_explain rest
      else if w \<in> {''CREATE'', ''DROP'', ''ALTER'', ''TRUNCATE'', ''RENAME''} then Ddl
      else if w \<in> {''INSERT'', ''UPDATE'', ''DELETE'', ''COPY'', ''MERGE''} then Dml
      else if w \<in> {''BEGIN'', ''START'', ''COMMIT'', ''END'', ''ROLLBACK'', ''ABORT'', ''SAVEPOINT'', ''RELEASE''}
        then TransactionControl
      else OtherKind)"
| "classify_single _ = OtherKind"
| "classify_with saw_read_only_group [] = (if saw_read_only_group then ReadOnly else OtherKind)"
| "classify_with saw_read_only_group (Word w # rest) =
     (if w \<in> set READ_ONLY_KEYWORDS then classify_query rest
      else if w \<in> set DML_KEYWORDS then Dml
      else classify_with saw_read_only_group rest)"
| "classify_with saw_read_only_group (Group inner # rest) =
     (case classify_items inner of
        ReadOnly \<Rightarrow> classify_with True rest
      | OtherKind \<Rightarrow> classify_with saw_read_only_group rest
      | kind \<Rightarrow> kind)"
| "classify_with saw_read_only_group (_ # rest) = classify_with saw_read_only_group rest"
| "classify_explain [] = OtherKind"
| "classify_explain (Group _ # rest) = classify_single rest"
| "classify_explain (first # rest) =
     (if is_bare_explain_option first
      then classify_single (dropWhile is_bare_explain_option (first # rest))
      else ReadOnly)"
  by pat_completeness auto
termination
  by (relation "measure (\<lambda>x. case x of
        Inl (Inl items) \<Rightarrow> 2 * size_list size items + 1
      | Inl (Inr items) \<Rightarrow> 2 * size_list size items
      | Inr (Inl (_, items)) \<Rightarrow> 2 * size_list size items
      | Inr (Inr items) \<Rightarrow> 2 * size_list size items)")
    (auto simp: less_Suc_eq_le size_takeWhile_items intro: le_SucI mult_le_mono2 size_dropWhile_items)

declare classify_items.simps [simp del]

definition classify_statement :: "string \<Rightarrow> StatementKind" where
  "classify_statement sql = (case parse sql of None \<Rightarrow> OtherKind | Some items \<Rightarrow> classify_items items)"

definition is_read_only_sql :: "string \<Rightarrow> bool" where
  "is_read_only_sql sql \<longleftrightarrow> classify_statement sql = ReadOnly"

lemma trim_start_length: "length (trim_start s) \<le> length s"
proof (induction s rule: trim_start.induct)
  case (1 s)
  then show ?case by (subst trim_start.simps) auto
qed

function strip_leading_sql_comments :: "string \<Rightarrow> string" where
  "strip_leading_sql_comments sql =
     (let s = trim_start sql in
      if starts_with s ''--'' then
        (let r = dropWhile (\<lambda>c. c \<noteq> CHR 0x0A \<and> c \<noteq> CHR 0x0D) (drop 2 s)
         in if r = [] then [] else strip_leading_sql_comments r)
      else if starts_with s ''/*'' then
        (case find (as_bytes (drop 2 s)) [0x2A, 0x2F] of
           Some pos \<Rightarrow> strip_leading_sql_comments (drop (pos + 2) (drop 2 s))
         | None \<Rightarrow> [])
      else s)"
  by pat_completeness auto
termination
proof (relation "measure length", goal_cases)
  case (2 sql s r)
  have "length r \<le> length (drop 2 s)" "length s \<le> length sql" "s \<noteq> []"
    using 2 trim_start_length [of sql]
    by (simp_all only: length_dropWhile_le starts_with_def) auto
  then show ?case by (cases s) auto
next
  case (3 sql s pos)
  have "length s \<le> length sql" "s \<noteq> []"
    using 3 trim_start_length [of sql] by (auto simp: starts_with_def)
  then show ?case by (cases s) auto
qed simp

declare strip_leading_sql_comments.simps [simp del]


section \<open>Nesting is bounded\<close>

fun item_depth :: "Item \<Rightarrow> nat" where
  "item_depth (Group inner) = Suc (Max (insert 0 (set (map item_depth inner))))"
| "item_depth _ = 0"

definition nesting :: "Item list \<Rightarrow> nat" where
  "nesting items = Max (insert 0 (set (map item_depth items)))"

text \<open>The group at distance \<open>l\<close> from the bottom of the stack may only nest to \<open>MAX_GROUP_DEPTH - l\<close>.\<close>

fun stack_ok :: "Item list list \<Rightarrow> bool" where
  "stack_ok [] \<longleftrightarrow> True"
| "stack_ok (x # st) \<longleftrightarrow> length st + nesting x \<le> MAX_GROUP_DEPTH \<and> stack_ok st"

lemma nesting_Nil [simp]: "nesting [] = 0"
  by (simp add: nesting_def)

lemma nesting_snoc [simp]: "nesting (items @ [i]) = max (nesting items) (item_depth i)"
  using Max_insert [of "insert 0 (set (map item_depth items))" "item_depth i"]
  by (simp add: nesting_def insert_commute [of _ 0] max.commute)

lemma item_depth_Group [simp]: "item_depth (Group inner) = Suc (nesting inner)"
  by (simp add: nesting_def)

declare item_depth.simps(1) [simp del]

lemma scan_token_flat: "scan b r = Some (Token t, r') \<Longrightarrow> item_depth t = 0"
  by (auto simp: scan_def scan_word_def to_word_def Let_def split: if_splits prod.splits)

lemmas parse_loop_Nil = parse_loop.simps [of _ "[]", simplified]
lemmas parse_loop_Cons = parse_loop.simps [of _ "b # r" for b r, simplified]

lemma parse_loop_nesting:
  assumes "parse_loop stack bs = Some items" "stack_ok stack"
  shows "nesting items \<le> MAX_GROUP_DEPTH"
  using assms
proof (induction stack bs rule: parse_loop.induct)
  case (1 stack bs)
  show ?case
  proof (cases bs)
    case Nil
    then show ?thesis using 1(5,6) by (auto simp: parse_loop_Nil split: list.splits)
  next
    case (Cons b r)
    with 1(5) obtain x r' where s: "scan b r = Some (x, r')"
      by (auto simp: parse_loop_Cons split: option.splits)
    note step = 1(5) [unfolded Cons parse_loop_Cons s, simplified]
    show ?thesis
    proof (cases x)
      case Blank
      then show ?thesis using 1(1) [OF Cons s _ _] step 1(6) by auto
    next
      case Opening
      then show ?thesis using 1(2) [OF Cons s _ _] step 1(6) by (auto split: if_splits)
    next
      case Closing
      with step obtain inner below st where st: "stack = inner # below # st"
        by (auto split: list.splits)
      then show ?thesis using 1(3) [OF Cons s _ _ st] Closing step 1(6) by auto
    next
      case (Token t)
      with step obtain cur st where st: "stack = cur # st"
        by (auto split: list.splits)
      then show ?thesis using 1(4) [OF Cons s _ _ st] Token step 1(6) scan_token_flat s by auto
    qed
  qed
qed


lemma parse_loop_step:
  "parse_loop st (0x28 # r) = (if length st > MAX_GROUP_DEPTH then None else parse_loop ([] # st) r)"
  "parse_loop (inner # below # st) (0x29 # r) = parse_loop ((below @ [Group inner]) # st) r"
  by (simp_all add: parse_loop_Cons scan_def)

fun nested :: "nat \<Rightarrow> Item list" where
  "nested 0 = []"
| "nested (Suc n) = [Group (nested n)]"

lemma parse_loop_closings:
  "parse_loop (inner # replicate n [] @ [[]]) (replicate (Suc n) 0x29) = Some (((\<lambda>i. [Group i]) ^^ Suc n) inner)"
proof (induction n arbitrary: inner)
  case 0
  then show ?case by (simp add: parse_loop_step parse_loop_Nil)
next
  case (Suc n)
  have "parse_loop (inner # replicate (Suc n) [] @ [[]]) (replicate (Suc (Suc n)) 0x29)
      = parse_loop ([Group inner] # replicate n [] @ [[]]) (replicate (Suc n) 0x29)"
    by (simp add: parse_loop_step)
  with Suc [of "[Group inner]"] funpow_swap1 [of "\<lambda>i. [Group i]" n inner] show ?case
    by simp
qed

lemma parse_loop_openings:
  assumes "length st + n \<le> Suc MAX_GROUP_DEPTH"
  shows "parse_loop st (replicate n 0x28 @ r) = parse_loop (replicate n [] @ st) r"
  using assms
proof (induction n arbitrary: st)
  case (Suc n)
  then show ?case
    using Suc.IH [of "[] # st"] by (simp add: parse_loop_step replicate_app_Cons_same)
qed simp

lemma nested_funpow: "nested n = ((\<lambda>i. [Group i]) ^^ n) []"
  by (induction n) simp_all

lemma parse_nested:
  "parse (replicate n (CHR ''('') @ replicate n (CHR '')'')) =
     (if n \<le> MAX_GROUP_DEPTH then Some (nested n) else None)"
proof -
  have bytes: "as_bytes (replicate n (CHR ''('') @ replicate n (CHR '')'')) = replicate n 0x28 @ replicate n 0x29"
    by (simp add: as_bytes_def byte_of_def)
  show ?thesis
  proof (cases "n \<le> MAX_GROUP_DEPTH")
    case True
    have "parse_loop [[]] (replicate n 0x28 @ replicate n 0x29) = parse_loop (replicate n [] @ [[]]) (replicate n 0x29)"
      by (rule parse_loop_openings) (simp add: True)
    with True show ?thesis
      using parse_loop_closings [of "[]"] unfolding parse_def bytes
      by (cases n) (simp_all add: parse_loop_Nil nested_funpow)
  next
    case False
    then obtain m where n: "n = MAX_GROUP_DEPTH + Suc m"
      by (metis add_Suc_right less_iff_Suc_add not_le)
    have "parse_loop [[]] (replicate n 0x28 @ replicate n 0x29) =
        parse_loop (replicate MAX_GROUP_DEPTH [] @ [[]]) (0x28 # replicate m 0x28 @ replicate n 0x29)"
      using parse_loop_openings [of "[[]]" MAX_GROUP_DEPTH "replicate (Suc m) 0x28 @ replicate n 0x29"]
      by (simp add: n replicate_add replicate_app_Cons_same)
    also have "\<dots> = None"
      by (simp add: parse_loop_step)
    finally show ?thesis
      using False unfolding parse_def bytes by simp
  qed
qed

text \<open>C35. Nesting is bounded, and exactly: what parses nests its parentheses at most \<open>MAX_GROUP_DEPTH\<close> deep, so
  that the classification, which recurses once for every level, never descends further, and \<open>n\<close> pairs
  of parentheses parse if and only if \<open>n\<close> is at most that.\<close>

theorem parse_depth_bound:
  assumes "parse sql = Some items"
  shows "nesting items \<le> MAX_GROUP_DEPTH \<and>
    (parse (replicate n (CHR ''('') @ replicate n (CHR '')'')) \<noteq> None \<longleftrightarrow> n \<le> MAX_GROUP_DEPTH)"
  using parse_loop_nesting [of "[[]]" "as_bytes sql" items] assms parse_nested [of n]
  by (simp add: parse_def)


lemma parse_depth_bound_witness:
  "parse ''((()))'' = Some (nested 3) \<and> nesting (nested 3) \<le> MAX_GROUP_DEPTH \<and>
    (parse (replicate 257 (CHR ''('') @ replicate 257 (CHR '')'')) \<noteq> None \<longleftrightarrow> 257 \<le> MAX_GROUP_DEPTH)"
proof -
  have "replicate 3 (CHR ''('') @ replicate 3 (CHR '')'') = ''((()))''"
    by (simp add: numeral_3_eq_3)
  then have "parse ''((()))'' = Some (nested 3)"
    using parse_nested [of 3] by (simp add: MAX_GROUP_DEPTH_def)
  with parse_depth_bound [OF this, of 257] show ?thesis by blast
qed

section \<open>What a statement runs\<close>

text \<open>
  The grammar of the module's description, as a relation: the keywords whose statement executes when the
  items are run. A plain keyword runs itself; a query with \<open>INTO\<close> also runs the creation of a table; a
  parenthesised statement runs what is inside; \<open>WITH\<close> runs the bodies of its list and the main
  statement, the first of the keywords that can start one; \<open>EXPLAIN\<close> runs its statement only behind an
  option list or a bare option. A statement may end in a semicolon.
\<close>

datatype Action = Verb string | IntoTable

definition DDL_WORDS :: "string set" where
  "DDL_WORDS = {''CREATE'', ''DROP'', ''ALTER'', ''TRUNCATE'', ''RENAME''}"

definition DML_WORDS :: "string set" where
  "DML_WORDS = {''INSERT'', ''UPDATE'', ''DELETE'', ''COPY'', ''MERGE''}"

definition TRANSACTION_WORDS :: "string set" where
  "TRANSACTION_WORDS =
     {''BEGIN'', ''START'', ''COMMIT'', ''END'', ''ROLLBACK'', ''ABORT'', ''SAVEPOINT'', ''RELEASE''}"

definition WRITES :: "Action set" where
  "WRITES = Verb ` (DDL_WORDS \<union> DML_WORDS \<union> TRANSACTION_WORDS) \<union> {IntoTable}"

definition starts_main :: "Item \<Rightarrow> bool" where
  "starts_main i \<longleftrightarrow> (\<exists>w. i = Word w \<and> (w \<in> set READ_ONLY_KEYWORDS \<or> w \<in> set DML_KEYWORDS))"

inductive runs :: "Item list \<Rightarrow> Action \<Rightarrow> bool" and runs_one :: "Item list \<Rightarrow> Action \<Rightarrow> bool" where
  runs_word: "w \<notin> {''WITH'', ''EXPLAIN''} \<Longrightarrow> runs (Word w # rest) (Verb w)"
| runs_into: "w \<in> set READ_ONLY_KEYWORDS \<Longrightarrow> Word ''INTO'' \<in> set rest \<Longrightarrow> runs (Word w # rest) IntoTable"
| runs_paren: "runs_one inner w \<Longrightarrow> runs (Group inner # rest) w"
| runs_with_body: "runs_one inner w \<Longrightarrow> \<not> list_ex starts_main pre \<Longrightarrow>
    runs (Word ''WITH'' # pre @ Group inner # rest) w"
| runs_with_main: "runs (i # rest) w \<Longrightarrow> starts_main i \<Longrightarrow> \<not> list_ex starts_main pre \<Longrightarrow>
    runs (Word ''WITH'' # pre @ i # rest) w"
| runs_explain_list: "runs rest w \<Longrightarrow> runs (Word ''EXPLAIN'' # Group opts # rest) w"
| runs_explain_bare: "runs rest w \<Longrightarrow> opts \<noteq> [] \<Longrightarrow> list_all is_bare_explain_option opts \<Longrightarrow>
    \<not> list_ex is_bare_explain_option (take 1 rest) \<Longrightarrow> runs (Word ''EXPLAIN'' # opts @ rest) w"
| runs_last: "runs stmt w \<Longrightarrow> Semicolon \<notin> set stmt \<Longrightarrow> runs_one stmt w"
| runs_closed: "runs stmt w \<Longrightarrow> Semicolon \<notin> set stmt \<Longrightarrow> runs_one (stmt @ [Semicolon]) w"

inductive_cases runs_Nil_elim: "runs [] w"
inductive_cases runs_Word_elim [consumes 1, case_names word into body main listed bare]:
  "runs (Word v # rest) w"
inductive_cases runs_Group_elim: "runs (Group inner # rest) w"
inductive_cases runs_Semicolon_elim: "runs (Semicolon # rest) w"
inductive_cases runs_Other_elim: "runs (OtherItem # rest) w"
inductive_cases runs_one_elim: "runs_one items w"

lemma takeWhile_statement:
  assumes "Semicolon \<notin> set stmt"
  shows "takeWhile (\<lambda>i. i \<noteq> Semicolon) stmt = stmt" "dropWhile (\<lambda>i. i \<noteq> Semicolon) stmt = []"
    "takeWhile (\<lambda>i. i \<noteq> Semicolon) (stmt @ [Semicolon]) = stmt"
    "dropWhile (\<lambda>i. i \<noteq> Semicolon) (stmt @ [Semicolon]) = [Semicolon]"
proof -
  have "\<forall>i \<in> set stmt. i \<noteq> Semicolon" using assms by blast
  then show "takeWhile (\<lambda>i. i \<noteq> Semicolon) stmt = stmt" "dropWhile (\<lambda>i. i \<noteq> Semicolon) stmt = []"
    "takeWhile (\<lambda>i. i \<noteq> Semicolon) (stmt @ [Semicolon]) = stmt"
    "dropWhile (\<lambda>i. i \<noteq> Semicolon) (stmt @ [Semicolon]) = [Semicolon]"
    by (simp_all add: takeWhile_append2 dropWhile_append2)
qed

text \<open>A classified text is one statement, perhaps with a semicolon.\<close>

lemma classify_items_statement:
  "Semicolon \<notin> set stmt \<Longrightarrow> classify_items stmt = classify_single stmt"
  "Semicolon \<notin> set stmt \<Longrightarrow> classify_items (stmt @ [Semicolon]) = classify_single stmt"
  by (simp_all add: classify_items.simps takeWhile_statement)

lemma classify_items_one:
  assumes "classify_items items \<noteq> OtherKind"
  obtains stmt where "items = stmt \<or> items = stmt @ [Semicolon]" "Semicolon \<notin> set stmt"
    "classify_items items = classify_single stmt"
proof -
  let ?stmt = "takeWhile (\<lambda>i. i \<noteq> Semicolon) items" and ?rest = "dropWhile (\<lambda>i. i \<noteq> Semicolon) items"
  have eq: "items = ?stmt @ ?rest" by simp
  have one: "tl ?rest = []"
    using assms by (auto simp: classify_items.simps split: if_splits)
  have "?rest = [] \<or> ?rest = [Semicolon]"
  proof (cases ?rest)
    case (Cons i r)
    then have "i = Semicolon" using hd_dropWhile [of "\<lambda>i. i \<noteq> Semicolon" items] by auto
    with one Cons show ?thesis by simp
  qed simp
  then have "items = ?stmt \<or> items = ?stmt @ [Semicolon]"
    using eq by (metis append_Nil2)
  moreover have "Semicolon \<notin> set ?stmt"
    using set_takeWhileD by fastforce
  moreover have "classify_items items = classify_single ?stmt"
    using one by (simp add: classify_items.simps)
  ultimately show ?thesis by (rule that)
qed


text \<open>The relation, one item at a time.\<close>

lemma runs_Nil: "\<not> runs [] w"
  by (auto elim: runs_Nil_elim)

lemma runs_Group: "runs (Group inner # rest) w \<longleftrightarrow> runs_one inner w"
  by (auto elim: runs_Group_elim intro: runs_paren)

lemma runs_no_start: "\<not> runs (Semicolon # rest) w" "\<not> runs (OtherItem # rest) w"
  by (auto elim: runs_Semicolon_elim runs_Other_elim)

lemma runs_Word:
  assumes "v \<notin> {''WITH'', ''EXPLAIN''}"
  shows "runs (Word v # rest) w \<longleftrightarrow>
    w = Verb v \<or> v \<in> set READ_ONLY_KEYWORDS \<and> Word ''INTO'' \<in> set rest \<and> w = IntoTable"
  using assms by (auto elim!: runs_Word_elim intro: runs_word runs_into)

lemma not_keyword [simp]:
  "''WITH'' \<notin> set READ_ONLY_KEYWORDS" "''EXPLAIN'' \<notin> set READ_ONLY_KEYWORDS"
  by (simp_all add: READ_ONLY_KEYWORDS_def)

lemma runs_with_Nil: "\<not> runs [Word ''WITH''] w"
  by (auto elim: runs_Word_elim)

lemma starts_main_Group [simp]: "\<not> starts_main (Group inner)"
  by (simp add: starts_main_def)

lemma runs_with_Cons:
  "runs (Word ''WITH'' # x # rest) w \<longleftrightarrow>
     (if starts_main x then runs (x # rest) w
      else runs (Word ''WITH'' # rest) w \<or> (\<exists>inner. x = Group inner \<and> runs_one inner w))"
proof
  assume "runs (Word ''WITH'' # x # rest) w"
  then show "if starts_main x then runs (x # rest) w
      else runs (Word ''WITH'' # rest) w \<or> (\<exists>inner. x = Group inner \<and> runs_one inner w)"
  proof (cases rule: runs_Word_elim)
    case (body inner pre rest')
    then show ?thesis using runs_with_body [of inner w _ rest'] by (cases pre) auto
  next
    case (main i rest' pre)
    then show ?thesis using runs_with_main [of i rest' w] by (cases pre) auto
  qed simp_all
next
  assume r: "if starts_main x then runs (x # rest) w
      else runs (Word ''WITH'' # rest) w \<or> (\<exists>inner. x = Group inner \<and> runs_one inner w)"
  show "runs (Word ''WITH'' # x # rest) w"
  proof (cases "starts_main x \<or> (\<exists>inner. x = Group inner \<and> runs_one inner w)")
    case True
    with r show ?thesis
      using runs_with_main [of x rest w "[]"] runs_with_body [of _ w "[]" rest] by (auto split: if_splits)
  next
    case False
    with r have "runs (Word ''WITH'' # rest) w" by (auto split: if_splits)
    then show ?thesis
    proof (cases rule: runs_Word_elim)
      case (body inner pre rest')
      then show ?thesis using runs_with_body [of inner w "x # pre" rest'] False by simp
    next
      case (main i rest' pre)
      then show ?thesis using runs_with_main [of i rest' w "x # pre"] False by simp
    qed simp_all
  qed
qed


lemma not_bare_option [simp]: "\<not> is_bare_explain_option (Group inner)"
  by (simp add: is_bare_explain_option_def)

lemma bare_option_split:
  assumes "opts @ rest = items" "list_all is_bare_explain_option opts"
    "\<not> list_ex is_bare_explain_option (take 1 rest)"
  shows "rest = dropWhile is_bare_explain_option items"
  using assms
  by (cases rest) (auto simp: list_all_iff dropWhile_append2 dropWhile_eq_Nil_conv [THEN iffD2])

lemma runs_explain_Nil: "\<not> runs [Word ''EXPLAIN''] w"
  by (auto elim: runs_Word_elim)

lemma runs_explain_Group: "runs (Word ''EXPLAIN'' # Group opts # rest) w \<longleftrightarrow> runs rest w"
  by (auto elim!: runs_Word_elim simp: append_eq_Cons_conv Cons_eq_append_conv intro: runs_explain_list)

lemma runs_explain_Cons:
  assumes "\<forall>inner. first \<noteq> Group inner"
  shows "runs (Word ''EXPLAIN'' # first # rest) w \<longleftrightarrow>
    is_bare_explain_option first \<and> runs (dropWhile is_bare_explain_option (first # rest)) w"
proof
  assume "runs (Word ''EXPLAIN'' # first # rest) w"
  then show "is_bare_explain_option first \<and> runs (dropWhile is_bare_explain_option (first # rest)) w"
  proof (cases rule: runs_Word_elim)
    case (bare rest' opts)
    then show ?thesis
      using bare_option_split [of opts rest' "first # rest"] by (auto simp: Cons_eq_append_conv)
  qed (use assms in simp_all)
next
  let ?opts = "takeWhile is_bare_explain_option (first # rest)"
  let ?rest = "dropWhile is_bare_explain_option (first # rest)"
  assume "is_bare_explain_option first \<and> runs ?rest w"
  moreover have "list_all is_bare_explain_option ?opts"
    by (auto simp: list_all_iff dest: set_takeWhileD)
  moreover have "\<not> list_ex is_bare_explain_option (take 1 ?rest)"
    by (cases ?rest) (use hd_dropWhile [of is_bare_explain_option "first # rest"] in auto)
  ultimately have "runs (Word ''EXPLAIN'' # ?opts @ ?rest) w"
    by (intro runs_explain_bare) auto
  then show "runs (Word ''EXPLAIN'' # first # rest) w" by (simp only: takeWhile_dropWhile_id)
qed

text \<open>What a kind says of what runs.\<close>

fun kind_actions :: "StatementKind \<Rightarrow> Action set" where
  "kind_actions Ddl = Verb ` DDL_WORDS"
| "kind_actions Dml = Verb ` DML_WORDS \<union> {IntoTable}"
| "kind_actions TransactionControl = Verb ` TRANSACTION_WORDS"
| "kind_actions _ = {}"

definition agrees :: "StatementKind \<Rightarrow> (Action \<Rightarrow> bool) \<Rightarrow> bool" where
  "agrees kind R \<longleftrightarrow>
     (if kind \<in> {ReadOnly, OtherKind} then \<forall>w. R w \<longrightarrow> w \<notin> WRITES else \<exists>w \<in> kind_actions kind. R w)"

lemma agrees_none [simp]: "agrees ReadOnly (\<lambda>w. False)" "agrees OtherKind (\<lambda>w. False)"
  by (simp_all add: agrees_def)

lemma agrees_join:
  assumes "agrees k R" "agrees k' R'" "k' \<in> {ReadOnly, OtherKind}"
  shows "agrees k (\<lambda>w. R w \<or> R' w)"
  using assms by (auto simp: agrees_def split: if_splits)

lemma agrees_left: "agrees k R \<Longrightarrow> k \<notin> {ReadOnly, OtherKind} \<Longrightarrow> agrees k (\<lambda>w. R' w \<or> R w)"
  by (auto simp: agrees_def)

lemmas word_sets = DDL_WORDS_def DML_WORDS_def TRANSACTION_WORDS_def WRITES_def
  READ_ONLY_KEYWORDS_def DML_KEYWORDS_def

lemma agrees_query: "v \<in> set READ_ONLY_KEYWORDS \<Longrightarrow> agrees (classify_query rest) (runs (Word v # rest))"
  by (auto simp: agrees_def classify_query_def runs_Word word_sets)

lemma classify_single_word:
  assumes "v \<notin> {''WITH'', ''EXPLAIN''}" "v \<notin> set READ_ONLY_KEYWORDS"
  shows "classify_single (Word v # rest) =
    (if v = ''SHOW'' then ReadOnly else if v \<in> DDL_WORDS then Ddl else if v \<in> DML_WORDS then Dml
     else if v \<in> TRANSACTION_WORDS then TransactionControl else OtherKind)"
  using assms by (simp add: word_sets)

lemma agrees_word:
  assumes "v \<notin> {''WITH'', ''EXPLAIN''}"
  shows "agrees (classify_single (Word v # rest)) (runs (Word v # rest))"
proof (cases "v \<in> set READ_ONLY_KEYWORDS")
  case True
  with agrees_query [OF this, of rest] show ?thesis by (simp add: READ_ONLY_KEYWORDS_def)
next
  case False
  have no_write: "''SHOW'' \<notin> DDL_WORDS \<union> DML_WORDS \<union> TRANSACTION_WORDS"
    by (simp add: word_sets)
  show ?thesis
    unfolding classify_single_word [OF assms False]
    using assms False no_write by (auto simp: agrees_def runs_Word WRITES_def)
qed


lemma agrees_items:
  assumes "Semicolon \<notin> set (takeWhile (\<lambda>i. i \<noteq> Semicolon) items) \<Longrightarrow>
      tl (dropWhile (\<lambda>i. i \<noteq> Semicolon) items) = [] \<Longrightarrow>
      agrees (classify_single (takeWhile (\<lambda>i. i \<noteq> Semicolon) items)) (runs (takeWhile (\<lambda>i. i \<noteq> Semicolon) items))"
  shows "agrees (classify_items items) (runs_one items)"
proof (cases "\<exists>stmt. Semicolon \<notin> set stmt \<and> (items = stmt \<or> items = stmt @ [Semicolon])")
  case True
  then obtain stmt where stmt: "Semicolon \<notin> set stmt" "items = stmt \<or> items = stmt @ [Semicolon]" by blast
  then have "runs_one items = runs stmt"
    by (auto intro!: ext elim!: runs_one_elim intro: runs_last runs_closed)
  moreover have "classify_items items = classify_single stmt"
    using stmt classify_items_statement by blast
  moreover have "takeWhile (\<lambda>i. i \<noteq> Semicolon) items = stmt" "tl (dropWhile (\<lambda>i. i \<noteq> Semicolon) items) = []"
    using stmt(2) takeWhile_statement [OF stmt(1)] by (elim disjE; simp only: list.sel)+
  then have "agrees (classify_single stmt) (runs stmt)"
    using assms stmt(1) by simp
  ultimately show ?thesis by (simp only:)
next
  case False
  then have "runs_one items = (\<lambda>w. False)"
    by (auto intro!: ext elim!: runs_one_elim)
  moreover have "classify_items items = OtherKind"
    using False by (metis classify_items_one)
  ultimately show ?thesis by simp
qed

lemma agrees_with_Group:
  assumes "agrees (classify_items inner) (runs_one inner)"
    and "classify_items inner = ReadOnly \<Longrightarrow> agrees (classify_with True rest) (runs (Word ''WITH'' # rest))"
    and "classify_items inner = OtherKind \<Longrightarrow> agrees (classify_with saw rest) (runs (Word ''WITH'' # rest))"
  shows "agrees (classify_with saw (Group inner # rest)) (runs (Word ''WITH'' # Group inner # rest))"
proof -
  have runs: "runs (Word ''WITH'' # Group inner # rest) = (\<lambda>w. runs (Word ''WITH'' # rest) w \<or> runs_one inner w)"
    by (auto simp: runs_with_Cons)
  show ?thesis
    unfolding runs using assms
    by (cases "classify_items inner") (auto intro: agrees_join agrees_left)
qed

text \<open>The classification says what the statement runs.\<close>

lemma classification_agrees:
  "agrees (classify_items items) (runs_one items)"
  "agrees (classify_single stmt) (runs stmt)"
  "agrees (classify_with saw rest) (runs (Word ''WITH'' # rest))"
  "agrees (classify_explain opts) (runs (Word ''EXPLAIN'' # opts))"
proof (induction items and stmt and saw rest and opts
    rule: classify_items_classify_single_classify_with_classify_explain.induct)
  case (1 items)
  then show ?case by (intro agrees_items) blast
next
  case (2 inner rest)
  then show ?case by (simp add: runs_Group)
next
  case (3 w rest)
  consider "w = ''WITH''" | "w = ''EXPLAIN''" | "w \<notin> {''WITH'', ''EXPLAIN''}" by blast
  then show ?case
  proof cases
    case 1
    with 3(1) show ?thesis by simp
  next
    case 2
    with 3(2) show ?thesis by simp
  qed (rule agrees_word)
next
  case (6 saw w rest)
  have main: "starts_main (Word w) \<longleftrightarrow> w \<in> set READ_ONLY_KEYWORDS \<or> w \<in> set DML_KEYWORDS"
    by (simp add: starts_main_def)
  consider "w \<in> set READ_ONLY_KEYWORDS" | "w \<notin> set READ_ONLY_KEYWORDS" "w \<in> set DML_KEYWORDS"
    | "w \<notin> set READ_ONLY_KEYWORDS" "w \<notin> set DML_KEYWORDS" by blast
  then show ?case
  proof cases
    case 1
    then show ?thesis using agrees_query [OF 1] by (simp add: runs_with_Cons main)
  next
    case 2
    then have "w \<notin> {''WITH'', ''EXPLAIN''}" "w \<in> DML_WORDS"
      by (auto simp: DML_KEYWORDS_def DML_WORDS_def)
    with 2 show ?thesis by (auto simp: runs_with_Cons main agrees_def runs_Word)
  next
    case 3
    then show ?thesis using 6 by (simp add: runs_with_Cons main)
  qed
next
  case (7 saw inner rest)
  then show ?case by (intro agrees_with_Group) blast+
qed (simp_all add: runs_no_start runs_Nil runs_with_Nil runs_with_Cons runs_explain_Nil runs_explain_Group
    runs_explain_Cons starts_main_def)



text \<open>No statement is taken for a write that is none: when the classification answers schema change, data
  change or transaction control, the statement really runs one of that kind. The batch tool refuses
  statements and mixtures by these answers.\<close>

theorem write_kinds_are_real:
  assumes "classify_statement sql = kind" "kind \<in> {Ddl, Dml, TransactionControl}"
  shows "\<exists>items. parse sql = Some items \<and> (\<exists>w \<in> kind_actions kind. runs_one items w)"
proof -
  obtain items where p: "parse sql = Some items" and k: "classify_items items = kind"
    using assms by (auto simp: classify_statement_def split: option.splits)
  then show ?thesis
    using assms(2) classification_agrees(1) [of items] by (auto simp: agrees_def)
qed

section \<open>Literals and quoted names\<close>

text \<open>The text \<open>p\<close> ends where a token ends, with the given stack.\<close>

definition token_boundary :: "string \<Rightarrow> Item list list \<Rightarrow> bool" where
  "token_boundary p st \<longleftrightarrow> (\<forall>r. parse_loop [[]] (as_bytes p @ r) = parse_loop st r)"

lemma as_bytes_simps [simp]:
  "as_bytes [] = []" "as_bytes (c # s) = byte_of c # as_bytes s" "as_bytes (s @ t) = as_bytes s @ as_bytes t"
  by (simp_all add: as_bytes_def)

lemma quote_bytes: "byte_of (CHR 0x27) = 0x27" "byte_of (CHR 0x22) = 0x22"
  by (simp_all add: byte_of_def)

lemma byte_of_quote [simp]: "byte_of c = 0x27 \<longleftrightarrow> c = CHR 0x27" "byte_of c = 0x22 \<longleftrightarrow> c = CHR 0x22"
  using byte_of_eq_iff [of c] quote_bytes by metis+

lemma skip_string_doubled:
  assumes "r = [] \<or> hd r \<noteq> 0x27" "string_continuation False r = None"
  shows "skip_string False
    (as_bytes (concat (map (\<lambda>c. if c = CHR 0x27 then [CHR 0x27, CHR 0x27] else [c]) s)) @ 0x27 # r) = Some r"
proof (induction s)
  case Nil
  then show ?case using assms by (auto simp: skip_string.simps [of False "_ # _"])
next
  case (Cons c s)
  then show ?case by (simp add: skip_string.simps [of False "byte_of _ # _"])
qed


lemma skip_quoted_identifier_doubled:
  assumes "r = [] \<or> hd r \<noteq> 0x22"
  shows "skip_quoted_identifier
    (as_bytes (concat (map (\<lambda>c. if c = CHR 0x22 then [CHR 0x22, CHR 0x22] else [c]) s)) @ 0x22 # r) = Some r"
proof (induction s)
  case Nil
  then show ?case using assms by (cases r) auto
qed simp

lemma parse_loop_literal:
  assumes "r = [] \<or> hd r \<noteq> 0x27" "string_continuation False r = None"
  shows "parse_loop (cur # st) (as_bytes (SqlLiteral_fmt s) @ r) = parse_loop ((cur @ [OtherItem]) # st) r"
  using skip_string_doubled [OF assms, of s]
  by (simp add: SqlLiteral_fmt_def parse_loop_Cons scan_def quote_bytes)

lemma parse_loop_quoted_identifier:
  assumes "r = [] \<or> hd r \<noteq> 0x22"
  shows "parse_loop (cur # st) (as_bytes (QuotedIdentifier_fmt s) @ r) = parse_loop ((cur @ [OtherItem]) # st) r"
  using skip_quoted_identifier_doubled [OF assms, of s]
  by (simp add: QuotedIdentifier_fmt_def parse_loop_Cons scan_def quote_bytes)

text \<open>C21. What is quoted cannot change the classification: at a boundary between tokens, a literal or a quoted
  name rendered by the escaping functions counts as one token whatever it contains, comment marks,
  semicolons, quotes, keywords or line ends included. The text behind it must not extend the token: it
  does not start with the quote, and for a literal it is not a continuation of the string.\<close>

theorem quoted_text_is_opaque:
  assumes "token_boundary p (cur # st)"
    and "as_bytes q = [] \<or> hd (as_bytes q) \<noteq> 0x27 \<and> hd (as_bytes q) \<noteq> 0x22"
    and "string_continuation False (as_bytes q) = None"
  shows "classify_statement (p @ escape_literal s @ q) = classify_statement (p @ escape_literal t @ q) \<and>
    classify_statement (p @ escape_identifier s @ q) = classify_statement (p @ escape_literal t @ q)"
proof -
  have "parse (p @ escape_literal s @ q) = parse_loop ((cur @ [OtherItem]) # st) (as_bytes q)" for s
    using assms parse_loop_literal [of "as_bytes q" cur st s]
    by (auto simp: parse_def token_boundary_def escape_literal_def)
  moreover have "parse (p @ escape_identifier s @ q) = parse_loop ((cur @ [OtherItem]) # st) (as_bytes q)"
    using assms parse_loop_quoted_identifier [of "as_bytes q" cur st s]
    by (auto simp: parse_def token_boundary_def escape_identifier_def SqlIdentifier_fmt_def)
  ultimately show ?thesis
    by (simp add: classify_statement_def)
qed

text \<open>Evaluation of the tokenizer on given text.\<close>

lemmas scan_eval = parse_loop_Cons parse_loop_Nil scan_def scan_word_def Let_def skip_identifier.simps byte_of_def
  byte_is_alphabetic_def byte_is_alphanumeric_def byte_is_digit_def to_word_def char_of_byte_def
  to_ascii_uppercase_def ascii_upper_def char_of_def bit_0

lemma select_boundary: "token_boundary ''SELECT '' [[Word ''SELECT'']]"
  unfolding token_boundary_def by (simp add: scan_eval)

lemma quoted_text_is_opaque_witness:
  "classify_statement (''SELECT '' @ escape_literal ''x; DROP TABLE t --'' @ '';'') =
     classify_statement (''SELECT '' @ escape_literal ''y'' @ '';'') \<and>
   classify_statement (''SELECT '' @ escape_identifier ''x; DROP TABLE t --'' @ '';'') =
     classify_statement (''SELECT '' @ escape_literal ''y'' @ '';'')"
proof (rule quoted_text_is_opaque [OF select_boundary])
  have "as_bytes '';'' = [0x3B]" by (simp add: byte_of_def)
  then show "as_bytes '';'' = [] \<or> hd (as_bytes '';'') \<noteq> 0x27 \<and> hd (as_bytes '';'') \<noteq> 0x22"
    "string_continuation False (as_bytes '';'') = None"
    by (simp_all add: string_continuation.simps newline_def)
qed


lemma parse_select_one: "parse ''SELECT 1;'' = Some [Word ''SELECT'', OtherItem, Semicolon]"
  unfolding parse_def by (simp add: scan_eval)

lemma parse_drop: "parse ''DROP TABLE t'' = Some [Word ''DROP'', Word ''TABLE'', Word ''T'']"
  unfolding parse_def by (simp add: scan_eval)


lemma write_kinds_are_real_witness:
  "classify_statement ''DROP TABLE t'' = Ddl \<and>
   (\<exists>items. parse ''DROP TABLE t'' = Some items \<and> (\<exists>w \<in> kind_actions Ddl. runs_one items w))"
proof -
  have "classify_statement ''DROP TABLE t'' = Ddl"
    by (simp add: classify_statement_def parse_drop classify_items.simps)
  then show ?thesis using write_kinds_are_real [of "''DROP TABLE t''" Ddl] by blast
qed


section \<open>Leading comments\<close>

definition plain_byte :: "char \<Rightarrow> bool" where
  "plain_byte c \<longleftrightarrow> (of_char c :: nat) \<notin> {0xC2, 0xE1, 0xE2, 0xE3}"

definition blank_char :: "char \<Rightarrow> bool" where
  "blank_char c \<longleftrightarrow> 9 \<le> (of_char c :: nat) \<and> of_char c \<le> (13 :: nat) \<or> of_char c = (32 :: nat)"

lemma ws_prefix_plain:
  "plain_byte c \<Longrightarrow> ws_prefix (codes (c # s)) = (if blank_char c then 1 else 0)"
  by (auto simp: codes_def blank_char_def plain_byte_def split: list.splits)

lemma blank_char_byte: "blank_char c \<Longrightarrow> byte_of c \<in> {0x09, 0x0A, 0x0B, 0x0C, 0x0D, 0x20}"
proof -
  assume b: "blank_char c"
  have "(of_char c :: nat) \<in> {9, 10, 11, 12, 13, 32}"
    using b unfolding blank_char_def by auto
  then show ?thesis by (auto simp: byte_of_def)
qed

lemma parse_blank: "blank_char c \<Longrightarrow> parse (c # s) = parse s"
  using blank_char_byte [of c] by (auto simp: parse_def parse_loop_Cons scan_def)

lemma trim_start_plain:
  assumes "list_all plain_byte s"
  shows "trim_start s = dropWhile blank_char s"
  using assms
proof (induction s)
  case (Cons c s)
  then show ?case
    using ws_prefix_plain [of c s] by (subst trim_start.simps) auto
qed (simp add: trim_start.simps)

lemma parse_trim_start:
  assumes "list_all plain_byte s"
  shows "parse (trim_start s) = parse s"
  using assms unfolding trim_start_plain [OF assms]
  by (induction s) (auto simp: parse_blank)

lemma parse_line_comment:
  "parse (''--'' @ t) = parse (dropWhile (\<lambda>c. c \<noteq> CHR 0x0A \<and> c \<noteq> CHR 0x0D) t)"
proof -
  have nl: "newline (byte_of c) \<longleftrightarrow> c = CHR 0x0A \<or> c = CHR 0x0D" for c
  proof -
    have "byte_of (CHR 0x0A) = 10" "byte_of (CHR 0x0D) = 13" by (simp_all add: byte_of_def)
    then show ?thesis unfolding newline_def by (metis byte_of_eq_iff)
  qed
  have "byte_of (CHR ''-'') = 0x2D" by (simp add: byte_of_def)
  then have "parse (''--'' @ t) = parse_loop [[]] (skip_line (as_bytes t))"
    by (simp add: parse_def parse_loop_Cons scan_def)
  also have "skip_line (as_bytes t) = as_bytes (dropWhile (\<lambda>c. c \<noteq> CHR 0x0A \<and> c \<noteq> CHR 0x0D) t)"
    by (simp add: skip_line_def as_bytes_def dropWhile_map o_def nl)
  finally show ?thesis by (simp add: parse_def)
qed

lemma parse_block_comment:
  "parse (''/*'' @ t) = (case find (as_bytes t) [0x2A, 0x2F] of None \<Rightarrow> None | Some pos \<Rightarrow> parse (drop (pos + 2) t))"
proof -
  have "byte_of (CHR ''/'') = 0x2F" "byte_of (CHR ''*'') = 0x2A" by (simp_all add: byte_of_def)
  then show ?thesis
    by (simp add: parse_def parse_loop_Cons scan_def skip_block_def as_bytes_def drop_map split: option.splits)
qed

lemma classify_nothing: "classify_statement [] = OtherKind"
  by (simp add: classify_statement_def parse_def parse_loop_Nil classify_items.simps)

text \<open>Comments and blanks in front do not matter: stripping them leaves the classification as it is, so a
  statement cannot hide behind them. The text may hold any character but those whose first byte is
  one of a wide white space character, where Rust's notion and the lexer's differ.\<close>

theorem leading_comments_do_not_matter:
  assumes "list_all plain_byte sql"
  shows "classify_statement (strip_leading_sql_comments sql) = classify_statement sql"
  using assms
proof (induction sql rule: strip_leading_sql_comments.induct)
  case (1 sql)
  let ?s = "trim_start sql"
  have plain: "list_all plain_byte ?s"
    using "1.prems" by (auto simp: trim_start_plain list_all_iff dest: set_dropWhileD)
  have same: "classify_statement ?s = classify_statement sql"
    using parse_trim_start [OF "1.prems"] by (simp add: classify_statement_def)
  consider (line) "starts_with ?s ''--''" | (block) "\<not> starts_with ?s ''--''" "starts_with ?s ''/*''"
    | (neither) "\<not> starts_with ?s ''--''" "\<not> starts_with ?s ''/*''" by blast
  then show ?case
  proof cases
    case line
    let ?r = "dropWhile (\<lambda>c. c \<noteq> CHR 0x0A \<and> c \<noteq> CHR 0x0D) (drop 2 ?s)"
    obtain t where t: "?s = ''--'' @ t" using line by (auto simp: starts_with_iff)
    have r: "classify_statement ?r = classify_statement ?s"
      using parse_line_comment [of t] by (simp add: t classify_statement_def)
    have "list_all plain_byte ?r"
      using plain by (auto simp: list_all_iff dest!: set_dropWhileD in_set_dropD)
    then have "?r \<noteq> [] \<Longrightarrow> classify_statement (strip_leading_sql_comments ?r) = classify_statement ?r"
      using "1.IH"(1) [OF refl line refl] by blast
    moreover have "strip_leading_sql_comments sql = (if ?r = [] then [] else strip_leading_sql_comments ?r)"
      using line by (subst strip_leading_sql_comments.simps) (simp only: Let_def if_True)
    ultimately show ?thesis
      using r same classify_nothing by (cases "?r = []") (simp_all only: if_True if_False simp_thms)
  next
    case block
    obtain t where t: "?s = ''/*'' @ t" using block by (auto simp: starts_with_iff)
    have r: "classify_statement ?s = (case find (as_bytes t) [0x2A, 0x2F] of
        None \<Rightarrow> OtherKind | Some pos \<Rightarrow> classify_statement (drop (pos + 2) t))"
      using parse_block_comment [of t] by (simp add: t classify_statement_def split: option.splits)
    have "list_all plain_byte (drop n t)" for n
      using plain unfolding t by (auto simp: list_all_iff dest: in_set_dropD)
    then have "find (as_bytes t) [0x2A, 0x2F] = Some pos \<Longrightarrow>
        classify_statement (strip_leading_sql_comments (drop (pos + 2) t)) = classify_statement (drop (pos + 2) t)" for pos
      using "1.IH"(2) [OF refl block] by (simp add: t)
    moreover have "strip_leading_sql_comments sql = (case find (as_bytes t) [0x2A, 0x2F] of
        Some pos \<Rightarrow> strip_leading_sql_comments (drop (pos + 2) t) | None \<Rightarrow> [])"
      using block by (subst strip_leading_sql_comments.simps) (simp add: Let_def t split: option.splits)
    ultimately show ?thesis
      using r same classify_nothing by (simp split: option.splits)
  next
    case neither
    with same show ?thesis by (subst strip_leading_sql_comments.simps) (simp add: Let_def)
  qed
qed


lemma leading_comments_do_not_matter_witness:
  "classify_statement (strip_leading_sql_comments ''-- x*/DROP TABLE t'') = classify_statement ''-- x*/DROP TABLE t''"
  by (rule leading_comments_do_not_matter) (simp add: plain_byte_def)

end
