(* ===== verification/Mcp_Error.thy ===== *)
theory Mcp_Error
  imports Api_Error Sql_Classify
begin

text \<open>
  Errors of the MCP server, \<open>hyperdb-mcp/src/error.rs\<close>: the codes a tool answers with, their default
  suggestions and the conversion of the library's errors, which decides among other things whether the
  server throws its engine away and reconnects.

  \<open>to_lowercase\<close> is searched for ASCII words only. A character that is not ASCII lowers to text without
  ASCII letters, but for the Kelvin sign and the dotted capital I; lowering these and the ASCII letters
  therefore decides every search.
\<close>

section \<open>The code\<close>

fun to_lowercase :: "string \<Rightarrow> string" where
  "to_lowercase [] = []"
| "to_lowercase (a # s) =
     (if a = CHR 0xE2 \<and> take 2 s = [CHR 0x84, CHR 0xAA] then CHR ''k'' # to_lowercase (drop 2 s)
      else if a = CHR 0xC4 \<and> take 1 s = [CHR 0xB0] then [CHR ''i'', CHR 0xCC, CHR 0x87] @ to_lowercase (drop 1 s)
      else ascii_lower a # to_lowercase s)"

datatype ErrorCode =
    HyperdNotFound
  | FileNotFound
  | UnsupportedFormat
  | SchemaMismatch
  | SqlError
  | TableNotFound
  | EmptyData
  | DiskFull
  | PermissionDenied
  | ReadOnlyViolation
  | ConnectionLost
  | InvalidArgument
  | ResourceBusy
  | InternalError

record McpError =
  mcp_code :: ErrorCode
  mcp_message :: string
  mcp_suggestion :: "string option"

fun default_suggestion :: "ErrorCode \<Rightarrow> string \<Rightarrow> string option" where
  "default_suggestion HyperdNotFound _ = Some (''Set HYPERD_PATH to the hyperd executable (or its containing directory).'')"
| "default_suggestion FileNotFound _ = Some (''Verify the file path exists and is accessible'')"
| "default_suggestion UnsupportedFormat _ = Some (''Specify format explicitly: json, csv, parquet, or arrow_ipc'')"
| "default_suggestion SchemaMismatch _ = Some (''Retry with an explicit schema override'')"
| "default_suggestion SqlError _ = Some (''Check SQL syntax. Hyper uses the Data Cloud SQL dialect (PostgreSQL-compatible).'')"
| "default_suggestion TableNotFound _ = Some (''Use the describe tool to list available tables'')"
| "default_suggestion EmptyData _ = None"
| "default_suggestion DiskFull _ = Some (''Check disk space. Use the status tool to see workspace size.'')"
| "default_suggestion PermissionDenied _ = Some (''Check file permissions on the source or target path'')"
| "default_suggestion ReadOnlyViolation _ = Some (''Server is in read-only mode. Use query_data or query_file for one-shot ''
      @ ''analysis, or restart without --read-only.'')"
| "default_suggestion ConnectionLost _ = Some (''The hyperd connection was lost or fell out of wire-protocol sync. Retry '' @ ''the request ''
      @ [CHR 0xE2, CHR 0x80, CHR 0x94]
      @ '' the server will tear down the engine and reconnect automatically.'')"
| "default_suggestion InvalidArgument _ = Some (''Check the tool argument shape and allowed values. The message identifies ''
      @ ''the offending field.'')"
| "default_suggestion ResourceBusy _ = Some (''The .hyper file may be held by another process. Run `hyperdb-mcp doctor` ''
      @ ''to inspect the configuration and possible owner; then close that possible ''
      @ ''owner or copy the file before attaching the copy.'')"
| "default_suggestion InternalError _ = None"

definition McpError_new :: "ErrorCode \<Rightarrow> string \<Rightarrow> McpError" where
  "McpError_new c message =
     \<lparr>mcp_code = c, mcp_message = message, mcp_suggestion = default_suggestion c message\<rparr>"

definition with_suggestion :: "string \<Rightarrow> McpError \<Rightarrow> McpError" where
  "with_suggestion suggestion e = e\<lparr>mcp_suggestion := Some suggestion\<rparr>"

text \<open>The kinds of an \<open>io::Error\<close> that are told apart, and its text.\<close>

datatype IoErrorKind = KindPermissionDenied | KindNotFound | KindOther

definition from_io_error :: "IoErrorKind \<Rightarrow> string \<Rightarrow> string \<Rightarrow> McpError" where
  "from_io_error kind err context =
     McpError_new
       (case kind of
          KindPermissionDenied \<Rightarrow> PermissionDenied
        | KindNotFound \<Rightarrow> FileNotFound
        | KindOther \<Rightarrow> InternalError)
       (context @ '': '' @ err)"

definition is_connection_lost :: "string \<Rightarrow> bool" where
  "is_connection_lost msg =
     (let lower = to_lowercase msg
      in list_ex (str_contains lower)
           [''broken pipe'', ''connection reset'', ''connection refused'', ''connection closed'',
            ''unexpected eof'', ''end of file'', ''unexpectedly closed'', ''socket is not connected'',
            ''desynchronized''])"

definition is_resource_busy :: "string \<Rightarrow> bool" where
  "is_resource_busy msg =
     (let lower = to_lowercase msg
      in list_ex (str_contains lower)
           [''already attached'', ''database is in use'', ''could not lock'', ''already in use'',
            ''file is locked''])"

definition widen_suggestion :: string where
  "widen_suggestion =
      ''A numeric value exceeded its column'' @ [CHR 0x27]
      @ ''s range. Retry with a partial schema override that widens the offending ''
      @ ''column, e.g. schema: {'' @ [CHR 0x22] @ ''Population'' @ [CHR 0x22] @ '': '' @ [CHR 0x22]
      @ ''BIGINT'' @ [CHR 0x22] @ ''} or {'' @ [CHR 0x22] @ ''Amount'' @ [CHR 0x22] @ '': '' @ [CHR 0x22]
      @ ''NUMERIC(38,0)'' @ [CHR 0x22] @ ''}. The override is a partial dictionary keyed by column name ''
      @ [CHR 0xE2, CHR 0x80, CHR 0x94]
      @ '' unlisted columns keep their inferred type. Call inspect_file first if '' @ ''you don''
      @ [CHR 0x27] @ ''t know which column is too narrow.''"

definition force_text_suggestion :: string where
  "force_text_suggestion =
      ''A value could not be parsed into its column type. Retry with a partial ''
      @ ''schema override forcing TEXT for the offending column, e.g. schema: {'' @ [CHR 0x22] @ ''Id''
      @ [CHR 0x22] @ '': '' @ [CHR 0x22] @ ''TEXT'' @ [CHR 0x22] @ ''}, and cast in SQL as needed.''"

definition json_value_suggestion :: string where
  "json_value_suggestion =
      ''JSON_VALUE is not implemented in this engine. Cast the TEXT value to json ''
      @ ''first, then use -> / ->> / JSON_EACH, e.g. `SELECT value::json ->> '' @ [CHR 0x27] @ ''field''
      @ [CHR 0x27] @ '' FROM _hyperdb_kv_store WHERE store_name = '' @ [CHR 0x27] @ ''...'' @ [CHR 0x27]
      @ ''`.''"

definition one_statement_suggestion :: string where
  "one_statement_suggestion =
      ''Hyper only accepts one SQL statement per call. Split your query into separate ''
      @ ''execute/query calls '' @ [CHR 0xE2, CHR 0x80, CHR 0x94] @ '' one per statement.''"

definition structured_type_suggestion :: string where
  "structured_type_suggestion =
      ''The -> / ->> operators need a structured type. Cast the TEXT value to ''
      @ ''json first, e.g. `value::json ->> '' @ [CHR 0x27] @ ''field'' @ [CHR 0x27] @ ''`.''"

definition no_table_suggestion :: string where
  "no_table_suggestion =
      ''Referenced table does not exist. Run `describe` (with the same `database` ''
      @ ''you queried) to list available tables; unquoted names fold to lowercase. ''
      @ ''In query_data / query_file the loaded rows are exposed as `table_name` ''
      @ ''(default `data`), e.g. `SELECT * FROM data`.''"

text \<open>The first \<open>if let\<close>: SQLSTATEs with an answer of their own.\<close>

definition by_sqlstate :: "ApiError \<Rightarrow> McpError option" where
  "by_sqlstate err =
     (case err of
        Api_Server (Some state) _ _ _ \<Rightarrow>
          (let msg = ApiError_fmt err; lower = to_lowercase msg
           in if state = ''22003'' then
                Some (with_suggestion widen_suggestion (McpError_new SchemaMismatch msg))
              else if state = ''22P02'' then
                Some (with_suggestion force_text_suggestion (McpError_new SchemaMismatch msg))
              else if state = ''0A000'' then
                (if str_contains lower ''json''
                 then Some (with_suggestion json_value_suggestion (McpError_new SqlError msg))
                 else Some (with_suggestion one_statement_suggestion (McpError_new SqlError msg)))
              else if state = ''42601'' then
                (if str_contains lower ''structured data type'' \<or> str_contains lower ''json''
                 then Some (with_suggestion structured_type_suggestion (McpError_new SqlError msg))
                 else Some (McpError_new SqlError msg))
              else if state = ''42P01'' then
                Some (with_suggestion no_table_suggestion (McpError_new SqlError msg))
              else None)
      | _ \<Rightarrow> None)"

text \<open>The \<open>Server\<close> arm of the last \<open>match\<close>.\<close>

definition by_server_text :: "string \<Rightarrow> McpError" where
  "by_server_text msg =
     (let lower = to_lowercase msg
      in if str_contains msg ''22003'' \<or> str_contains lower ''numeric overflow'' \<or> str_contains lower ''out of range'' then
           with_suggestion widen_suggestion (McpError_new SchemaMismatch msg)
         else if str_contains msg ''22P02'' \<or> str_contains lower ''invalid input syntax'' then
           with_suggestion force_text_suggestion (McpError_new SchemaMismatch msg)
         else if str_contains msg ''syntax error'' \<or> str_contains msg ''does not exist'' \<and> str_contains msg ''column'' then
           McpError_new SqlError msg
         else if str_contains msg ''No such file'' \<or> str_contains msg ''not found'' then
           McpError_new FileNotFound msg
         else McpError_new SqlError msg)"

definition from_api_error :: "ApiError \<Rightarrow> McpError" where
  "from_api_error err =
     (case by_sqlstate err of
        Some e \<Rightarrow> e
      | None \<Rightarrow>
          (let msg = ApiError_fmt err
           in if is_connection_lost msg then McpError_new ConnectionLost msg
              else if ApiError_sqlstate err = None \<and> is_resource_busy msg then McpError_new ResourceBusy msg
              else
                (case err of
                   NotFound _ \<Rightarrow> McpError_new FileNotFound msg
                 | Api_Server _ _ _ _ \<Rightarrow> by_server_text msg
                 | Api_Conversion _ \<Rightarrow> McpError_new InternalError msg
                 | Api_Config _ \<Rightarrow> McpError_new InvalidArgument msg
                 | InvalidName _ \<Rightarrow> McpError_new InvalidArgument msg
                 | InvalidTableDefinition _ \<Rightarrow> McpError_new InvalidArgument msg
                 | Api_Connection _ _ _ \<Rightarrow> McpError_new ConnectionLost msg
                 | Api_Closed _ _ \<Rightarrow> McpError_new ConnectionLost msg
                 | Api_Timeout _ \<Rightarrow> McpError_new ConnectionLost msg
                 | Api_Cancelled _ _ \<Rightarrow> McpError_new ConnectionLost msg
                 | _ \<Rightarrow> McpError_new InternalError msg)))"

section \<open>Validation of an \<open>execute\<close> batch\<close>

definition at_index :: "nat \<Rightarrow> string \<Rightarrow> string" where
  "at_index i text = ''`sql['' @ show_nat i @ '']`'' @ text"

fun batch_loop :: "nat \<Rightarrow> bool \<Rightarrow> bool \<Rightarrow> string list \<Rightarrow> McpError + (bool \<times> bool)" where
  "batch_loop i has_schema_change has_data_mutation [] = Inr (has_schema_change, has_data_mutation)"
| "batch_loop i has_schema_change has_data_mutation (stmt # stmts) =
     (if trim (strip_leading_sql_comments stmt) = [] then
        Inl (with_suggestion (''Remove the empty element or replace it with a real statement.'')
          (McpError_new InvalidArgument (at_index i ('' is empty or contains only whitespace/comments.''))))
      else
        (case classify_statement stmt of
           ReadOnly \<Rightarrow>
             Inl (with_suggestion
               (''Use the `query` tool for SELECT/WITH/EXPLAIN/SHOW/VALUES. To read-then-write ''
                  @ ''atomically, fold the read into the write (e.g. `UPDATE '' @ [CHR 0xE2, CHR 0x80, CHR 0xA6]
                  @ '' FROM (SELECT '' @ [CHR 0xE2, CHR 0x80, CHR 0xA6] @ '')` or `INSERT ''
                  @ [CHR 0xE2, CHR 0x80, CHR 0xA6] @ '' SELECT '' @ [CHR 0xE2, CHR 0x80, CHR 0xA6] @ ''`).'')
               (McpError_new SqlError (at_index i ('' is a read-only statement; the `execute` tool is for DDL/DML.''))))
         | TransactionControl \<Rightarrow>
             Inl (with_suggestion
               (''The `execute` tool manages the transaction for you '' @ [CHR 0xE2, CHR 0x80, CHR 0x94]
                  @ '' multi-element arrays already run inside BEGIN/COMMIT. Just pass the DML ''
                  @ ''statements you want to run atomically.'')
               (McpError_new InvalidArgument (at_index i
                 ('' is a transaction-control statement (BEGIN / COMMIT / ROLLBACK / SAVEPOINT); ''
                  @ ''these are not allowed in `execute` batches.''))))
         | Ddl \<Rightarrow> batch_loop (Suc i) True has_data_mutation stmts
         | Dml \<Rightarrow> batch_loop (Suc i) has_schema_change True stmts
         | OtherKind \<Rightarrow> batch_loop (Suc i) has_schema_change has_data_mutation stmts))"

definition validate_execute_batch :: "string list \<Rightarrow> McpError + unit" where
  "validate_execute_batch stmts =
     (if stmts = [] then
        Inl (with_suggestion
          (''Pass at least one statement: `sql: ['' @ [CHR 0x22] @ ''INSERT INTO t VALUES (1)'' @ [CHR 0x22]
                  @ '']`.'')
          (McpError_new InvalidArgument (''`sql` must be a non-empty array of SQL statements.'')))
      else
        (case batch_loop 0 False False stmts of
           Inl e \<Rightarrow> Inl e
         | Inr (has_schema_change, has_data_mutation) \<Rightarrow>
             if has_schema_change \<and> has_data_mutation then
               Inl (with_suggestion
                 (''Hyper aborts such transactions with SQLSTATE 0A000. Issue DDL in a separate ''
                  @ ''`execute` call from DML '' @ [CHR 0xE2, CHR 0x80, CHR 0x94]
                  @ '' DDL singletons run as their own auto-commit unit.'')
                 (McpError_new InvalidArgument
                   (''Cannot mix DDL (CREATE/DROP/ALTER/TRUNCATE/RENAME) with DML (INSERT/UPDATE/DELETE/COPY/M''
                  @ ''ERGE) in one `execute` batch.'')))
             else if has_schema_change \<and> length stmts > 1 then
               Inl (with_suggestion
                 (''Hyper auto-commits CREATE/DROP/ALTER even inside a transaction, so wrapping ''
                  @ ''multiple DDL statements in one `execute` call cannot guarantee atomicity. ''
                  @ ''Issue each DDL as its own single-element `execute` call.'')
                 (McpError_new InvalidArgument (''Multi-statement DDL batches are not supported.'')))
             else Inr ()))"


section \<open>Properties\<close>

definition blank_statement :: "string \<Rightarrow> bool" where
  "blank_statement s \<longleftrightarrow> trim (strip_leading_sql_comments s) = []"

definition has_kind :: "StatementKind \<Rightarrow> string list \<Rightarrow> bool" where
  "has_kind k stmts \<longleftrightarrow> (\<exists>s \<in> set stmts. classify_statement s = k)"

lemma has_kind_simps [simp]:
  "\<not> has_kind k []" "has_kind k (s # stmts) \<longleftrightarrow> classify_statement s = k \<or> has_kind k stmts"
  by (auto simp: has_kind_def)

lemma batch_loop_ok:
  "batch_loop i d m stmts = Inr r \<longleftrightarrow>
     list_all (\<lambda>s. \<not> blank_statement s \<and> classify_statement s \<notin> {ReadOnly, TransactionControl}) stmts \<and>
     r = (d \<or> has_kind Ddl stmts, m \<or> has_kind Dml stmts)"
proof (induction stmts arbitrary: i d m)
  case (Cons s stmts)
  then show ?case
    by (cases "classify_statement s") (auto simp: blank_statement_def)
qed auto

text \<open>The batches \<open>execute\<close> accepts, exactly: there is a statement, every element holds more than comments,
  none only reads and none controls the transaction; schema changes and data changes do not mix, and a
  schema change stands alone.\<close>

theorem batch_accepted_iff:
  "validate_execute_batch stmts = Inr () \<longleftrightarrow>
     stmts \<noteq> [] \<and>
     (\<forall>s. s \<in> set stmts \<longrightarrow> \<not> blank_statement s \<and> classify_statement s \<notin> {ReadOnly, TransactionControl}) \<and>
     \<not> (has_kind Ddl stmts \<and> has_kind Dml stmts) \<and> (has_kind Ddl stmts \<longrightarrow> length stmts = 1)"
proof (cases "batch_loop 0 False False stmts")
  case (Inl e)
  then have "\<not> list_all (\<lambda>s. \<not> blank_statement s \<and> classify_statement s \<notin> {ReadOnly, TransactionControl}) stmts"
    using batch_loop_ok [of 0 False False stmts] by (metis Inl_Inr_False)
  with Inl show ?thesis
    by (auto simp: validate_execute_batch_def list_all_iff)
next
  case (Inr r)
  moreover have "length stmts = 1" if "stmts \<noteq> []" "\<not> 1 < length stmts"
    using that by (cases stmts) auto
  ultimately show ?thesis
    using batch_loop_ok [of 0 False False stmts r]
    by (auto simp: validate_execute_batch_def list_all_iff)
qed


lemma drop_not_blank: "\<not> blank_statement ''DROP TABLE t''"
  by (simp add: blank_statement_def strip_leading_sql_comments.simps trim_def trim_start.simps trim_end.simps
      codes_def Let_def starts_with_def ws_suffix_def)

lemma batch_accepted_iff_witness: "validate_execute_batch [''DROP TABLE t''] = Inr ()"
proof -
  have "classify_statement ''DROP TABLE t'' = Ddl"
    by (simp add: classify_statement_def parse_drop classify_items.simps)
  then show ?thesis
    using drop_not_blank unfolding batch_accepted_iff by (simp add: has_kind_def)
qed

text \<open>The error of a connection that lost step (see \<open>ensure_healthy\<close>) is recognised.\<close>

lemma desynchronized_is_lost:
  "from_api_error (Api_Connection (''connection is desynchronized from the server and cannot be reused; ''
      @ ''discard it and open a new one'') None None) =
   McpError_new ConnectionLost (''connection error: connection is desynchronized from the server and cannot be reused; ''
      @ ''discard it and open a new one'')"
proof -
  let ?m = "''connection error: connection is desynchronized from the server and cannot be reused; ''
      @ ''discard it and open a new one''"
  have "is_connection_lost ?m" by code_simp
  then show ?thesis
    by (simp add: from_api_error_def by_sqlstate_def optional_text_def)
qed

text \<open>A statement can take the connection down by its text: a server error whose SQLSTATE has no answer of
  its own is first searched for the words of a lost connection, so a column called like one of them
  makes an ordinary error look like a lost connection.\<close>

theorem server_text_looks_lost:
  "mcp_code (from_api_error (Api_Server (Some ''42703'') ''column end of file does not exist'' None None)) =
     ConnectionLost \<and>
   mcp_code (from_api_error (Api_Server (Some ''42703'') ''column e does not exist'' None None)) = SqlError"
  by code_simp

end
