(* ===== verification/Tool_Calls.thy ===== *)
theory Tool_Calls
  imports Bulk_Insert_Laws Mcp_Error
begin

text \<open>
  Transactions and the calls of the server's tools: the guard of \<open>hyperdb-api/src/transaction.rs\<close>, the engine's
  \<open>execute_in_transaction\<close> and \<open>with_search_path\<close> (\<open>hyperdb-mcp/src/engine.rs\<close>), and of
  \<open>hyperdb-mcp/src/server.rs\<close> the body of the \<open>execute\<close> tool and \<open>with_engine\<close>, which throws a lost
  connection away.

  The connection is the transport of the bulk insertion, so a call really goes through the client and
  the wire protocol. The pretty printer of SQL is a third-party library and a parameter. Timing,
  logging, JSON and the daemon's health report are left out.
\<close>

section \<open>Transactions\<close>

definition unit_answer :: "nat answer \<times> 's \<Rightarrow> unit answer \<times> 's" where
  "unit_answer r = continue r (\<lambda>_ s. (Answered (Inr ()), s))"

definition begin_transaction_unguarded :: "Transport \<Rightarrow> unit answer \<times> Transport" where
  "begin_transaction_unguarded t = unit_answer (execute_command ''BEGIN TRANSACTION'' t)"

definition commit_unguarded :: "Transport \<Rightarrow> unit answer \<times> Transport" where
  "commit_unguarded t = unit_answer (execute_command ''COMMIT'' t)"

definition rollback_unguarded :: "Transport \<Rightarrow> unit answer \<times> Transport" where
  "rollback_unguarded t = unit_answer (execute_command ''ROLLBACK'' t)"

text \<open>The guard: the connection it borrows is the transport, its flag says whether it was completed. Ending
  the transaction consumes the guard, whose drop then does nothing.\<close>

record Transaction = txn_completed :: bool

definition Transaction_new :: "Transport \<Rightarrow> Transaction answer \<times> Transport" where
  "Transaction_new t =
     (case begin_transaction_unguarded t of
        (Answered (Inr _), t') \<Rightarrow> (Answered (Inr \<lparr>txn_completed = False\<rparr>), t')
      | (Answered (Inl e), t') \<Rightarrow> (Answered (Inl e), t')
      | (Blocked, t') \<Rightarrow> (Blocked, t')
      | (Panicked, t') \<Rightarrow> (Panicked, t'))"

definition drop_transaction :: "Transaction \<Rightarrow> Transport \<Rightarrow> Transport" where
  "drop_transaction x t = (if txn_completed x then t else snd (rollback_unguarded t))"

definition commit :: "Transaction \<Rightarrow> Transport \<Rightarrow> unit answer \<times> Transport" where
  "commit x t =
     (let x' = x\<lparr>txn_completed := True\<rparr>
      in case commit_unguarded t of (r, t') \<Rightarrow> (r, drop_transaction x' t'))"

definition rollback :: "Transaction \<Rightarrow> Transport \<Rightarrow> unit answer \<times> Transport" where
  "rollback x t =
     (let x' = x\<lparr>txn_completed := True\<rparr>
      in case rollback_unguarded t of (r, t') \<Rightarrow> (r, drop_transaction x' t'))"

section \<open>The engine\<close>

datatype 'a tool = ToolBlocked | ToolPanicked | Tool "McpError + 'a"

text \<open>\<open>.map_err(McpError::from)\<close>\<close>

fun mcp_answer :: "'a answer \<Rightarrow> 'a tool" where
  "mcp_answer Blocked = ToolBlocked"
| "mcp_answer Panicked = ToolPanicked"
| "mcp_answer (Answered (Inl e)) = Tool (Inl (from_api_error e))"
| "mcp_answer (Answered (Inr a)) = Tool (Inr a)"

definition tool_bind :: "'a tool \<times> 's \<Rightarrow> ('a \<Rightarrow> 's \<Rightarrow> 'b tool \<times> 's) \<Rightarrow> 'b tool \<times> 's" where
  "tool_bind r f =
     (case r of
        (Tool (Inr a), s) \<Rightarrow> f a s
      | (Tool (Inl e), s) \<Rightarrow> (Tool (Inl e), s)
      | (ToolBlocked, s) \<Rightarrow> (ToolBlocked, s)
      | (ToolPanicked, s) \<Rightarrow> (ToolPanicked, s))"

definition Engine_execute_command :: "string \<Rightarrow> Transport \<Rightarrow> nat tool \<times> Transport" where
  "Engine_execute_command sql t = apfst mcp_answer (execute_command sql t)"

text \<open>A panic of \<open>f\<close> drops the guard on its way out.\<close>

definition execute_in_transaction ::
  "(Transport \<Rightarrow> 'a tool \<times> Transport) \<Rightarrow> Transport \<Rightarrow> 'a tool \<times> Transport" where
  "execute_in_transaction f t =
     tool_bind (apfst mcp_answer (Transaction_new t)) (\<lambda>txn t1.
       case f t1 of
         (Tool (Inr val), t2) \<Rightarrow>
           tool_bind (apfst mcp_answer (commit txn t2)) (\<lambda>_ t3. (Tool (Inr val), t3))
       | (Tool (Inl e), t2) \<Rightarrow>
           (case rollback txn t2 of
              (Blocked, t3) \<Rightarrow> (ToolBlocked, t3)
            | (Panicked, t3) \<Rightarrow> (ToolPanicked, t3)
            | (Answered _, t3) \<Rightarrow> (Tool (Inl e), t3))
       | (ToolPanicked, t2) \<Rightarrow> (ToolPanicked, drop_transaction txn t2)
       | (ToolBlocked, t2) \<Rightarrow> (ToolBlocked, t2))"

definition search_path_sql :: "string \<Rightarrow> string" where
  "search_path_sql alias =
     ''SET schema_search_path = '' @ [CHR 0x27] @ replace_char (CHR 0x27) [CHR 0x27, CHR 0x27] alias @ [CHR 0x27]"

definition with_search_path ::
  "string \<Rightarrow> string option \<Rightarrow> (Transport \<Rightarrow> 'a tool \<times> Transport) \<Rightarrow> Transport \<Rightarrow> 'a tool \<times> Transport" where
  "with_search_path primary_db_name alias f t =
     (case alias of
        None \<Rightarrow> f t
      | Some alias \<Rightarrow>
          tool_bind (Engine_execute_command (search_path_sql alias) t) (\<lambda>_ t1.
            case f t1 of
              (ToolBlocked, t2) \<Rightarrow> (ToolBlocked, t2)
            | (r, t2) \<Rightarrow>
                (case Engine_execute_command (search_path_sql primary_db_name) t2 of
                   (ToolBlocked, t3) \<Rightarrow> (ToolBlocked, t3)
                 | (ToolPanicked, t3) \<Rightarrow> (ToolPanicked, t3)
                 | (Tool _, t3) \<Rightarrow> (r, t3))))"

section \<open>The tools\<close>

definition check_writable :: "bool \<Rightarrow> string \<Rightarrow> McpError + unit" where
  "check_writable read_only operation =
     (if read_only then
        Inl (McpError_new ReadOnlyViolation
          (''Operation '' @ [CHR 0x27] @ operation @ [CHR 0x27] @ '' is not permitted in read-only mode''))
      else Inr ())"

definition require_read_only_sql :: "string \<Rightarrow> string \<Rightarrow> McpError + unit" where
  "require_read_only_sql tool_name sql =
     (if is_read_only_sql sql then Inr ()
      else Inl (McpError_new SqlError
        (''The '' @ tool_name @ '' tool only accepts read-only SQL (SELECT, WITH, EXPLAIN, SHOW, VALUES). '' @
         ''Use the execute tool for DDL/DML.'')))"

text \<open>\<open>formatted\<close> is the output of the pretty printer.\<close>

definition fmt_sql :: "(string \<Rightarrow> string) \<Rightarrow> string \<Rightarrow> string" where
  "fmt_sql sqlformat sql = (let formatted = sqlformat sql in if trim formatted = [] then sql else formatted)"

text \<open>The error of a failing statement keeps its code and its suggestion.\<close>

definition batch_error :: "(string \<Rightarrow> string) \<Rightarrow> nat \<Rightarrow> nat \<Rightarrow> string \<Rightarrow> McpError \<Rightarrow> McpError" where
  "batch_error sqlformat i n stmt e =
     (let rollback_note =
        ''Failing SQL: '' @ fmt_sql sqlformat stmt @ ''. All previous statements in this batch were rolled back.''
      in with_suggestion
           (case mcp_suggestion e of Some orig \<Rightarrow> orig @ '' | '' @ rollback_note | None \<Rightarrow> rollback_note)
           (McpError_new (mcp_code e)
             (''statement '' @ show_nat (i + 1) @ '' of '' @ show_nat n @ '' failed: '' @ mcp_message e)))"

definition U64_MAX :: nat where
  "U64_MAX = 2 ^ 64 - 1"

fun batch_run ::
  "(string \<Rightarrow> string) \<Rightarrow> nat \<Rightarrow> nat \<Rightarrow> (string \<times> nat) list \<Rightarrow> nat \<Rightarrow> string list \<Rightarrow> Transport
     \<Rightarrow> ((string \<times> nat) list \<times> nat) tool \<times> Transport" where
  "batch_run sqlformat n i out rows [] t = (Tool (Inr (out, rows)), t)"
| "batch_run sqlformat n i out rows (stmt # stmts) t =
     (case Engine_execute_command stmt t of
        (Tool (Inr affected), t') \<Rightarrow>
          batch_run sqlformat n (i + 1) (out @ [(fmt_sql sqlformat stmt, affected)]) (min U64_MAX (rows + affected)) stmts t'
      | (Tool (Inl e), t') \<Rightarrow> (Tool (Inl (batch_error sqlformat i n stmt e)), t')
      | (ToolBlocked, t') \<Rightarrow> (ToolBlocked, t')
      | (ToolPanicked, t') \<Rightarrow> (ToolPanicked, t'))"

text \<open>The body of \<open>execute\<close> for the database the call was resolved to: the statements with their counts, and the
  total.\<close>

definition execute_batch ::
  "(string \<Rightarrow> string) \<Rightarrow> string \<Rightarrow> string option \<Rightarrow> string list \<Rightarrow> Transport
     \<Rightarrow> ((string \<times> nat) list \<times> nat) tool \<times> Transport" where
  "execute_batch sqlformat primary_db_name target_db stmts t =
     with_search_path primary_db_name target_db (\<lambda>t.
       case stmts of
         [stmt] \<Rightarrow>
           tool_bind (Engine_execute_command stmt t)
             (\<lambda>affected t'. (Tool (Inr ([(fmt_sql sqlformat stmt, affected)], affected)), t'))
       | _ \<Rightarrow> execute_in_transaction (batch_run sqlformat (length stmts) 0 [] 0 stmts) t) t"

text \<open>The server's engine behind its mutex, and whether the catalog was set up. \<open>connect\<close> opens an engine, which
  starts processes and opens sockets; the work handed to \<open>with_engine\<close> includes the catalog's set-up.\<close>

record Server =
  engine :: "Transport option"
  catalog_ready :: bool

definition ensure_engine :: "(McpError + Transport) \<Rightarrow> Server \<Rightarrow> McpError + Server" where
  "ensure_engine connect s =
     (case engine s of
        Some _ \<Rightarrow> Inr s
      | None \<Rightarrow>
          (case connect of Inl e \<Rightarrow> Inl e | Inr t \<Rightarrow> Inr (s\<lparr>engine := Some t, catalog_ready := False\<rparr>)))"

definition panic_error :: "string \<Rightarrow> McpError" where
  "panic_error detail = McpError_new InternalError
     (''internal error: tool call panicked ('' @ detail @ ''); the connection was reset, retry'')"

text \<open>\<open>None\<close> is a call that never returns; \<open>detail\<close> is the text of a panic.\<close>

definition with_engine ::
  "(McpError + Transport) \<Rightarrow> string \<Rightarrow> (Transport \<Rightarrow> 'a tool \<times> Transport) \<Rightarrow> Server
     \<Rightarrow> ((McpError + 'a) \<times> Server) option" where
  "with_engine connect detail f s =
     (case ensure_engine connect s of
        Inl e \<Rightarrow> Some (Inl e, s)
      | Inr s1 \<Rightarrow>
          (case f (the (engine s1)) of
             (ToolBlocked, t) \<Rightarrow> None
           | (ToolPanicked, t) \<Rightarrow> Some (Inl (panic_error detail), s1\<lparr>engine := None, catalog_ready := False\<rparr>)
           | (Tool (Inl e), t) \<Rightarrow>
               if mcp_code e = ConnectionLost
               then Some (Inl e, s1\<lparr>engine := None, catalog_ready := False\<rparr>)
               else Some (Inl e, s1\<lparr>engine := Some t\<rparr>)
           | (Tool (Inr v), t) \<Rightarrow> Some (Inr v, s1\<lparr>engine := Some t\<rparr>)))"


section \<open>A command on a connection in step\<close>

text \<open>An exchange: the command, the messages of its answer and the state byte of the final
  \<open>ReadyForQuery\<close>.\<close>

type_synonym exchange = "string \<times> Message list \<times> u8"

definition exchange_ok :: "exchange \<Rightarrow> bool" where
  "exchange_ok x = (case x of (q, ms, s) \<Rightarrow> answers ms \<and> length q + 5 < 2 ^ 31)"

definition fails :: "exchange \<Rightarrow> bool" where
  "fails x = (case x of (q, ms, s) \<Rightarrow> first_error ms \<noteq> None)"

definition answer_of :: "exchange \<Rightarrow> bytes" where
  "answer_of x = (case x of (q, ms, s) \<Rightarrow> wire (ms @ [ReadyForQuery s]))"

definition answer_bytes :: "exchange list \<Rightarrow> bytes" where
  "answer_bytes xs = concat (map answer_of xs)"

definition request_bytes :: "exchange list \<Rightarrow> bytes" where
  "request_bytes xs = concat (map (\<lambda>(q, ms, s). query_frame q) xs)"

definition rows_affected :: "exchange \<Rightarrow> nat" where
  "rows_affected x = (case x of (q, ms, s) \<Rightarrow> affected_loop 0 (ms @ [ReadyForQuery s]))"

definition refusal :: "exchange \<Rightarrow> McpError" where
  "refusal x = (case x of (q, ms, s) \<Rightarrow> from_api_error (from_client_error (parse_error_response (the (first_error ms)))))"

text \<open>The transport is in step, and the server has these bytes for it; \<open>out\<close> is what was sent so far.\<close>

definition in_step :: "bytes \<Rightarrow> bytes \<Rightarrow> Transport \<Rightarrow> bool" where
  "in_step inp out t \<longleftrightarrow>
     (\<exists>cl. t = Tcp cl \<and> usable (connection cl) \<and> in_sync (guarded (connection cl)) \<and>
       unread (guarded (connection cl)) = inp \<and> sent (conn_stream (guarded (connection cl))) = out)"

lemma answer_bytes_simps [simp]:
  "answer_bytes [] = []" "answer_bytes (x # xs) = answer_of x @ answer_bytes xs"
  "answer_bytes (xs @ ys) = answer_bytes xs @ answer_bytes ys"
  by (simp_all add: answer_bytes_def)

lemma request_bytes_simps [simp]:
  "request_bytes [] = []" "request_bytes (x # xs) = query_frame (fst x) @ request_bytes xs"
  "request_bytes (xs @ ys) = request_bytes xs @ request_bytes ys"
  by (simp_all add: request_bytes_def case_prod_beta)

lemma command_in_step:
  assumes "in_step (answer_of x @ rest) out t" "exchange_ok x" "fst x = q"
  shows "\<exists>t'. Engine_execute_command q t = (Tool (if fails x then Inl (refusal x) else Inr (rows_affected x)), t') \<and>
    in_step rest (out @ query_frame q) t'"
proof -
  obtain ms s where x: "x = (q, ms, s)" using assms(3) by (cases x) auto
  obtain cl where t: "t = Tcp cl" "usable (connection cl)" "in_sync (guarded (connection cl))"
      "unread (guarded (connection cl)) = wire (ms @ [ReadyForQuery s]) @ rest"
      "sent (conn_stream (guarded (connection cl))) = out"
    using assms(1) by (auto simp: in_step_def x answer_of_def)
  obtain c where c: "simple_query q (guarded (connection cl)) = Some (answer ms s, c)" "in_sync c" "unread c = rest"
      "sent (conn_stream c) = out @ query_frame q"
    using simple_query_answer [of "guarded (connection cl)" ms s rest q] t assms(2) by (auto simp: exchange_ok_def x)
  from collecting_usable [of cl "simple_query q", OF t(2) c(1), of "\<lambda>messages. Inr (affected_loop 0 messages)"] obtain cl' where
    "exec q cl = (Returns (try_bind (answer ms s) (\<lambda>messages. Inr (affected_loop 0 messages))), cl')"
    "connection cl' = (connection cl)\<lparr>guarded := c\<rparr>"
    by (auto simp: exec_def)
  with t c show ?thesis
    by (cases "first_error ms")
      (auto simp: Engine_execute_command_def execute_command_def answer_def x fails_def refusal_def rows_affected_def
        in_step_def usable_def)
qed


text \<open>A run of statements that all succeed, and one that stops at a failing one.\<close>

lemma batch_run_ok:
  assumes "in_step (answer_bytes xs @ rest) out t" "list_all (\<lambda>x. exchange_ok x \<and> \<not> fails x) xs"
  shows "\<exists>t'. batch_run fmt n i res rows (map fst xs) t =
      (Tool (Inr (res @ map (\<lambda>x. (fmt_sql fmt (fst x), rows_affected x)) xs,
        foldl (\<lambda>s x. min U64_MAX (s + rows_affected x)) rows xs)), t') \<and>
    in_step rest (out @ request_bytes xs) t'"
  using assms
proof (induction xs arbitrary: t i res rows out)
  case (Cons x xs)
  obtain t1 where t1: "Engine_execute_command (fst x) t = (Tool (Inr (rows_affected x)), t1)"
      "in_step (answer_bytes xs @ rest) (out @ query_frame (fst x)) t1"
    using command_in_step [of x "answer_bytes xs @ rest" out t] Cons.prems by auto
  from Cons.IH [OF t1(2), of "i + 1" "res @ [(fmt_sql fmt (fst x), rows_affected x)]" "min U64_MAX (rows + rows_affected x)"]
    Cons.prems(2) t1(1) show ?case
    by auto
qed simp

lemma batch_run_fails:
  assumes "in_step (answer_bytes (xs @ [b]) @ rest) out t" "list_all (\<lambda>x. exchange_ok x \<and> \<not> fails x) xs"
    and "exchange_ok b" "fails b"
  shows "\<exists>t'. batch_run fmt n i res rows (map fst (xs @ [b]) @ later) t =
      (Tool (Inl (batch_error fmt (i + length xs) n (fst b) (refusal b))), t') \<and>
    in_step rest (out @ request_bytes (xs @ [b])) t'"
  using assms(1,2)
proof (induction xs arbitrary: t i res rows out)
  case Nil
  obtain t1 where "Engine_execute_command (fst b) t = (Tool (Inl (refusal b)), t1)"
      "in_step rest (out @ query_frame (fst b)) t1"
    using command_in_step [of b rest out t] Nil assms(3,4) by auto
  then show ?case by simp
next
  case (Cons x xs)
  obtain t1 where t1: "Engine_execute_command (fst x) t = (Tool (Inr (rows_affected x)), t1)"
      "in_step (answer_bytes (xs @ [b]) @ rest) (out @ query_frame (fst x)) t1"
    using command_in_step [of x "answer_bytes (xs @ [b]) @ rest" out t] Cons.prems by auto
  from Cons.IH [OF t1(2), of "i + 1" "res @ [(fmt_sql fmt (fst x), rows_affected x)]" "min U64_MAX (rows + rows_affected x)"]
    Cons.prems(2) t1(1) show ?case
    by auto
qed

lemma unit_command:
  assumes "in_step (answer_of x @ rest) out t" "exchange_ok x" "fst x = q"
  shows "\<exists>t'. apfst mcp_answer (unit_answer (execute_command q t)) = (Tool (if fails x then Inl (refusal x) else Inr ()), t') \<and>
    in_step rest (out @ query_frame q) t'"
proof -
  obtain t' where "Engine_execute_command q t = (Tool (if fails x then Inl (refusal x) else Inr (rows_affected x)), t')"
    "in_step rest (out @ query_frame q) t'"
    using command_in_step [OF assms] by blast
  moreover obtain r t1 where "execute_command q t = (r, t1)"
    by (cases "execute_command q t")
  ultimately show ?thesis
    by (cases r rule: mcp_answer.cases) (auto simp: Engine_execute_command_def unit_answer_def continue_def split: if_splits)
qed


section \<open>Properties\<close>

lemma saturating_sum:
  "rows \<le> U64_MAX \<Longrightarrow> foldl (\<lambda>s x. min U64_MAX (s + f x)) rows xs = min U64_MAX (rows + sum_list (map f xs))"
proof (induction xs arbitrary: rows)
  case (Cons x xs)
  show ?case
    using Cons.IH [of "min U64_MAX (rows + f x)"] by (auto simp: min_def)
qed simp

lemma mcp_answer_Inr: "mcp_answer r = Tool (Inr a) \<longleftrightarrow> r = Answered (Inr a)"
  by (cases r rule: mcp_answer.cases) auto

lemma transaction_opens:
  assumes "in_step (answer_of b @ rest) out t" "exchange_ok b" "fst b = ''BEGIN TRANSACTION''" "\<not> fails b"
  shows "\<exists>t1. Transaction_new t = (Answered (Inr \<lparr>txn_completed = False\<rparr>), t1) \<and>
    in_step rest (out @ query_frame (fst b)) t1"
proof -
  obtain r t1 where r: "begin_transaction_unguarded t = (r, t1)"
    by (cases "begin_transaction_unguarded t")
  with unit_command [OF assms(1,2,3)] assms(4) have "r = Answered (Inr ())"
      and "in_step rest (out @ query_frame (fst b)) t1"
    unfolding assms(3) by (simp_all add: begin_transaction_unguarded_def mcp_answer_Inr)
  with r show ?thesis by (simp add: Transaction_new_def)
qed

lemma transaction_commits:
  assumes "in_step (answer_of b @ inp @ answer_of e @ rest) out t" "exchange_ok b" "exchange_ok e"
    and "fst b = ''BEGIN TRANSACTION''" "\<not> fails b" "fst e = ''COMMIT''"
    and "\<And>t1. in_step (inp @ answer_of e @ rest) (out @ query_frame (fst b)) t1 \<Longrightarrow>
      \<exists>t2. f t1 = (Tool (Inr v), t2) \<and> in_step (answer_of e @ rest) out2 t2"
  shows "\<exists>t'. execute_in_transaction f t = (Tool (if fails e then Inl (refusal e) else Inr v), t') \<and>
    in_step rest (out2 @ query_frame (fst e)) t'"
proof -
  obtain t1 where new: "Transaction_new t = (Answered (Inr \<lparr>txn_completed = False\<rparr>), t1)"
      and t1: "in_step (inp @ answer_of e @ rest) (out @ query_frame (fst b)) t1"
    using transaction_opens [OF assms(1,2,4,5)] by blast
  obtain t2 where f: "f t1 = (Tool (Inr v), t2)" and t2: "in_step (answer_of e @ rest) out2 t2"
    using assms(7) [OF t1] by blast
  obtain t3 where "apfst mcp_answer (commit_unguarded t2) = (Tool (if fails e then Inl (refusal e) else Inr ()), t3)"
      and t3: "in_step rest (out2 @ query_frame (fst e)) t3"
    using unit_command [OF t2 assms(3,6)] assms(6) by (auto simp: commit_unguarded_def)
  then have "apfst mcp_answer (commit \<lparr>txn_completed = False\<rparr> t2) = (Tool (if fails e then Inl (refusal e) else Inr ()), t3)"
    by (auto simp: commit_def drop_transaction_def Let_def split: prod.splits)
  with new f t3 show ?thesis
    by (auto simp: execute_in_transaction_def tool_bind_def)
qed

lemma transaction_rolls_back:
  assumes "in_step (answer_of b @ inp @ answer_of e @ rest) out t" "exchange_ok b" "exchange_ok e"
    and "fst b = ''BEGIN TRANSACTION''" "\<not> fails b" "fst e = ''ROLLBACK''"
    and "\<And>t1. in_step (inp @ answer_of e @ rest) (out @ query_frame (fst b)) t1 \<Longrightarrow>
      \<exists>t2. f t1 = (Tool (Inl err), t2) \<and> in_step (answer_of e @ rest) out2 t2"
  shows "\<exists>t'. execute_in_transaction f t = (Tool (Inl err), t') \<and> in_step rest (out2 @ query_frame (fst e)) t'"
proof -
  obtain t1 where new: "Transaction_new t = (Answered (Inr \<lparr>txn_completed = False\<rparr>), t1)"
      and t1: "in_step (inp @ answer_of e @ rest) (out @ query_frame (fst b)) t1"
    using transaction_opens [OF assms(1,2,4,5)] by blast
  obtain t2 where f: "f t1 = (Tool (Inl err), t2)" and t2: "in_step (answer_of e @ rest) out2 t2"
    using assms(7) [OF t1] by blast
  obtain r t3 where "rollback_unguarded t2 = (r, t3)" "mcp_answer r = Tool (if fails e then Inl (refusal e) else Inr ())"
      and t3: "in_step rest (out2 @ query_frame (fst e)) t3"
    using unit_command [OF t2 assms(3,6)] assms(6) by (cases "rollback_unguarded t2") (auto simp: rollback_unguarded_def)
  then obtain a where "rollback \<lparr>txn_completed = False\<rparr> t2 = (Answered a, t3)"
    by (cases r) (auto simp: rollback_def drop_transaction_def Let_def)
  with new f t3 show ?thesis
    by (auto simp: execute_in_transaction_def tool_bind_def)
qed




text \<open>A tool call on a connection that lost step.\<close>

definition lost_error :: McpError where
  "lost_error = McpError_new ConnectionLost
     (''connection error: connection is desynchronized from the server and cannot be reused; ''
      @ ''discard it and open a new one'')"

lemma command_desynchronized:
  assumes "usable (connection cl)" "desynchronized (guarded (connection cl))"
  shows "\<exists>t'. execute_command q (Tcp cl) = (Answered (Inl (Api_Connection (
      ''connection is desynchronized from the server and cannot be reused; '' @ ''discard it and open a new one'') None None)), t')"
proof -
  have "simple_query q (guarded (connection cl)) = Some (Inl (connection_error (
      ''connection is desynchronized from the server and cannot be reused; '' @ ''discard it and open a new one'')),
      guarded (connection cl))"
    using assms(2) by (simp add: simple_query_def guard_def ensure_healthy_def)
  from collecting_usable [of cl "simple_query q", OF assms(1) this, of "\<lambda>messages. Inr (affected_loop 0 messages)"]
  show ?thesis
    by (auto simp: execute_command_def exec_def connection_error_def)
qed

lemma Engine_desynchronized:
  assumes "usable (connection cl)" "desynchronized (guarded (connection cl))"
  shows "\<exists>t'. Engine_execute_command q (Tcp cl) = (Tool (Inl lost_error), t')"
  using command_desynchronized [OF assms, of q] desynchronized_is_lost
  by (auto simp: Engine_execute_command_def lost_error_def)

lemma transaction_desynchronized:
  assumes "usable (connection cl)" "desynchronized (guarded (connection cl))"
  shows "\<exists>t'. execute_in_transaction f (Tcp cl) = (Tool (Inl lost_error), t')"
  using command_desynchronized [OF assms, of "''BEGIN TRANSACTION''"] desynchronized_is_lost
  by (auto simp: execute_in_transaction_def Transaction_new_def begin_transaction_unguarded_def unit_answer_def
      continue_def tool_bind_def lost_error_def)

lemma lost_error_code: "mcp_code lost_error = ConnectionLost"
  by (simp add: lost_error_def McpError_new_def)

lemma with_engine_reconnects:
  assumes "engine s = None" "\<not> catalog_ready s"
  shows "with_engine (Inr t) detail f s = with_engine (Inr t) detail f (s\<lparr>engine := Some t\<rparr>)"
proof -
  have "ensure_engine (Inr t) s = Inr (s\<lparr>engine := Some t\<rparr>)"
    using assms by (cases s) (simp add: ensure_engine_def)
  moreover have "ensure_engine (Inr t) (s\<lparr>engine := Some t\<rparr>) = Inr (s\<lparr>engine := Some t\<rparr>)"
    by (simp add: ensure_engine_def)
  ultimately show ?thesis by (simp only: with_engine_def sum.case)
qed

text \<open>C8. The server heals itself. When the connection of its engine was marked out of step, the next batch, of any
  length and for any database, answers \<open>ConnectionLost\<close> and the engine is thrown away with its catalog
  state; the call after that runs on a fresh connection. Marking a connection is what the client
  does whenever it cannot find the end of an answer.\<close>

theorem lost_step_is_replaced:
  assumes "engine s = Some (Tcp cl)" "usable (connection cl)" "desynchronized (guarded (connection cl))"
  shows "\<exists>s'. with_engine connect detail (execute_batch fmt primary target_db stmts) s = Some (Inl lost_error, s') \<and>
    engine s' = None \<and> \<not> catalog_ready s' \<and>
    (\<forall>t f. with_engine (Inr t) detail f s' = with_engine (Inr t) detail f (s'\<lparr>engine := Some t\<rparr>))"
proof -
  have "\<exists>t'. execute_batch fmt primary None stmts (Tcp cl) = (Tool (Inl lost_error), t')"
  proof (cases "\<exists>q. stmts = [q]")
    case True
    then obtain q where "stmts = [q]" by blast
    with Engine_desynchronized [OF assms(2,3), of q] show ?thesis
      by (auto simp: execute_batch_def with_search_path_def tool_bind_def)
  next
    case False
    then have "execute_batch fmt primary None stmts (Tcp cl) =
        execute_in_transaction (batch_run fmt (length stmts) 0 [] 0 stmts) (Tcp cl)"
      by (auto simp: execute_batch_def with_search_path_def split: list.splits)
    with transaction_desynchronized [OF assms(2,3)] show ?thesis by simp
  qed
  moreover have "\<exists>t'. execute_batch fmt primary (Some d) stmts (Tcp cl) = (Tool (Inl lost_error), t')" for d
    using Engine_desynchronized [OF assms(2,3), of "search_path_sql d"]
    by (auto simp: execute_batch_def with_search_path_def tool_bind_def)
  ultimately have "\<exists>t'. execute_batch fmt primary target_db stmts (Tcp cl) = (Tool (Inl lost_error), t')"
    by (cases target_db) auto
  then have "with_engine connect detail (execute_batch fmt primary target_db stmts) s =
      Some (Inl lost_error, s\<lparr>engine := None, catalog_ready := False\<rparr>)"
    using assms(1) lost_error_code by (auto simp: with_engine_def ensure_engine_def)
  then show ?thesis
    by (intro exI [of _ "s\<lparr>engine := None, catalog_ready := False\<rparr>"]) (simp add: with_engine_reconnects)
qed


theorem lost_step_is_replaced_witness:
  "\<exists>s'. with_engine (Inr Grpc) ''x'' (execute_batch (\<lambda>s. s) ''db'' None [''DELETE FROM t'', ''DELETE FROM u''])
      \<lparr>engine = Some (Tcp \<lparr>connection = \<lparr>held = False, poisoned = False, guarded = mark_desynchronized (demo_connection [1])\<rparr>,
         notice_receiver = False, delivered = []\<rparr>), catalog_ready = True\<rparr> = Some (Inl lost_error, s') \<and> engine s' = None"
proof -
  let ?cl = "\<lparr>connection = \<lparr>held = False, poisoned = False, guarded = mark_desynchronized (demo_connection [1])\<rparr>,
      notice_receiver = False, delivered = []\<rparr> :: Client"
  have "usable (connection ?cl)" "desynchronized (guarded (connection ?cl))"
    by (simp_all add: usable_def mark_desynchronized_def)
  with lost_step_is_replaced [of "\<lparr>engine = Some (Tcp ?cl), catalog_ready = True\<rparr>" ?cl] show ?thesis
    by (metis Server.select_convs(1))
qed

definition demo_exchanges :: "exchange list" where
  "demo_exchanges =
     [(''BEGIN TRANSACTION'', [CommandComplete (as_bytes ''BEGIN'')], 84),
      (''DELETE FROM t'', [CommandComplete (as_bytes ''DELETE 3'')], 84),
      (''DELETE FROM u'', [ErrorResponse []], 69),
      (''ROLLBACK'', [CommandComplete (as_bytes ''ROLLBACK'')], 73)]"

lemma demo_exchanges_ok: "list_all exchange_ok demo_exchanges"
  by (simp add: demo_exchanges_def exchange_ok_def answers_def sendable_def nul_free_bytes_def as_bytes_def byte_of_def
      POST_ERROR_DRAIN_CAP_def)


end
