(* ===== verification/Client_Config.thy ===== *)
theory Client_Config
  imports Scram_Auth Rust_Strings
begin

text \<open>
  Where and how to connect: \<open>endpoint.rs\<close> and \<open>config.rs\<close> of \<open>hyperdb-api-core/src/client\<close> (the
  connection descriptors, the connection string and the startup parameters) and the settings of
  \<open>tls.rs\<close>. The conditional compilation of the endpoints is an argument, the platform. Paths are
  strings; times are numbers of nanoseconds.
\<close>

section \<open>The code\<close>

subsection \<open>Text\<close>

text \<open>\<open>str::find\<close> for a string, \<open>str::split_once\<close> for a character.\<close>

fun find_sub :: "string \<Rightarrow> string \<Rightarrow> nat option" where
  "find_sub p s =
     (if starts_with s p then Some 0
      else case s of [] \<Rightarrow> None | _ # r \<Rightarrow> map_option Suc (find_sub p r))"

declare find_sub.simps [simp del]

definition split_once :: "char \<Rightarrow> string \<Rightarrow> (string \<times> string) option" where
  "split_once c s = map_option (\<lambda>i. (take i s, drop (Suc i) s)) (str_find c s)"

subsection \<open>\<open>endpoint.rs\<close>\<close>

datatype platform = Unix | Windows | OtherPlatform

datatype ConnectionEndpoint =
    TcpEndpoint string u16 \<comment> \<open>\<open>host\<close>, \<open>port\<close>\<close>
  | DomainSocket string string \<comment> \<open>\<open>directory\<close>, \<open>name\<close>\<close>
  | NamedPipe string string \<comment> \<open>\<open>host\<close>, \<open>name\<close>\<close>

definition parse_port :: "string \<Rightarrow> Error + u16" where
  "parse_port s =
     (if s = ''auto'' then Inr 0
      else case parse_unsigned 65535 s of
        Some n \<Rightarrow> Inr (word_of_nat n)
      | None \<Rightarrow> Inl (connection_error (''Invalid port number: '' @ [CHR 0x27] @ s @ [CHR 0x27])))"

definition parse_tcp :: "string \<Rightarrow> Error + ConnectionEndpoint" where
  "parse_tcp s =
     (if starts_with s ''['' then
        (case str_find CHR '']'' s of
           None \<Rightarrow> Inl (connection_error (''Invalid IPv6 address format: '' @ [CHR 0x27] @ s @ [CHR 0x27]))
         | Some end_bracket \<Rightarrow>
             (case strip_prefix '':'' (drop (end_bracket + 1) s) of
                None \<Rightarrow> Inl (connection_error (''Missing port in: '' @ [CHR 0x27] @ s @ [CHR 0x27]))
              | Some port_str \<Rightarrow>
                  try_bind (parse_port port_str) (\<lambda>port.
                    Inr (TcpEndpoint (drop 1 (take end_bracket s)) port))))
      else
        (case str_rfind CHR '':'' s of
           None \<Rightarrow> Inl (connection_error
             (''Invalid endpoint format: '' @ [CHR 0x27] @ s @ [CHR 0x27] @ ''. Expected '' @ [CHR 0x27] @ ''host:port'' @ [CHR 0x27]))
         | Some colon_idx \<Rightarrow>
             (let host = take colon_idx s; port_str = drop (colon_idx + 1) s
              in if host = [] then Inl (connection_error ''Host cannot be empty'')
                 else try_bind (parse_port port_str) (\<lambda>port. Inr (TcpEndpoint host port)))))"

definition ConnectionEndpoint_parse :: "platform \<Rightarrow> string \<Rightarrow> Error + ConnectionEndpoint" where
  "ConnectionEndpoint_parse os descriptor =
     (case strip_prefix ''tab.domain://'' descriptor of
        Some rest \<Rightarrow>
          if os = Unix then
            (case find_sub ''/domain/'' rest of
               None \<Rightarrow> Inl (connection_error
                 (''Invalid domain socket format: '' @ [CHR 0x27] @ descriptor @ [CHR 0x27] @ ''. Expected '' @ [CHR 0x27]
                   @ ''tab.domain://<dir>/domain/<name>'' @ [CHR 0x27]))
             | Some i \<Rightarrow>
                 (let directory = take i rest; name = drop (i + 8) rest
                  in if name = [] then Inl (connection_error ''Domain socket name cannot be empty'')
                     else Inr (DomainSocket directory name)))
          else Inl (connection_error ''Unix domain sockets are not supported on this platform'')
      | None \<Rightarrow>
      (case strip_prefix ''tab.pipe://'' descriptor of
         Some rest \<Rightarrow>
          if os = Windows then
            (case find_sub ''/pipe/'' rest of
               None \<Rightarrow> Inl (connection_error
                 (''Invalid named pipe format: '' @ [CHR 0x27] @ descriptor @ [CHR 0x27] @ ''. Expected '' @ [CHR 0x27]
                   @ ''tab.pipe://<host>/pipe/<name>'' @ [CHR 0x27]))
             | Some i \<Rightarrow>
                 (let host = take i rest; name = drop (i + 6) rest
                  in if name = [] then Inl (connection_error ''Named pipe name cannot be empty'')
                     else Inr (NamedPipe host name)))
          else Inl (connection_error ''Named pipes are not supported on this platform'')
       | None \<Rightarrow>
          parse_tcp
            (case strip_prefix ''tab.tcp://'' descriptor of
               Some rest \<Rightarrow> rest
             | None \<Rightarrow> (case strip_prefix ''tcp.libpq://'' descriptor of Some rest \<Rightarrow> rest | None \<Rightarrow> descriptor))))"

fun to_descriptor :: "ConnectionEndpoint \<Rightarrow> string" where
  "to_descriptor (TcpEndpoint host port) =
     (let port_str = (if port = 0 then ''auto'' else show_nat (unat port))
      in if CHR '':'' \<in> set host then ''tab.tcp://['' @ host @ '']:'' @ port_str
         else ''tab.tcp://'' @ host @ '':'' @ port_str)"
| "to_descriptor (DomainSocket directory name) = ''tab.domain://'' @ directory @ ''/domain/'' @ name"
| "to_descriptor (NamedPipe host name) = ''tab.pipe://'' @ host @ ''/pipe/'' @ name"

text \<open>\<open>Path::join\<close> on Unix: an absolute name replaces the directory.\<close>

definition path_join :: "string \<Rightarrow> string \<Rightarrow> string" where
  "path_join directory name =
     (if starts_with name ''/'' then name
      else if directory = [] \<or> ends_with directory ''/'' then directory @ name
      else directory @ ''/'' @ name)"

fun socket_path :: "ConnectionEndpoint \<Rightarrow> string option" where
  "socket_path (DomainSocket directory name) = Some (path_join directory name)"
| "socket_path _ = None"

fun pipe_path :: "ConnectionEndpoint \<Rightarrow> string option" where
  "pipe_path (NamedPipe host name) =
     Some ([CHR 0x5C, CHR 0x5C] @ host @ [CHR 0x5C] @ ''pipe'' @ [CHR 0x5C] @ name)"
| "pipe_path _ = None"

fun tcp_addr :: "ConnectionEndpoint \<Rightarrow> (string \<times> u16) option" where
  "tcp_addr (TcpEndpoint host port) = Some (host, port)"
| "tcp_addr _ = None"

fun ConnectionEndpoint_fmt :: "ConnectionEndpoint \<Rightarrow> string" where
  "ConnectionEndpoint_fmt (TcpEndpoint host port) =
     (if CHR '':'' \<in> set host then ''['' @ host @ '']:'' @ show_nat (unat port)
      else host @ '':'' @ show_nat (unat port))"
| "ConnectionEndpoint_fmt (DomainSocket directory name) = directory @ ''/'' @ name"
| "ConnectionEndpoint_fmt (NamedPipe host name) =
     [CHR 0x5C, CHR 0x5C] @ host @ [CHR 0x5C] @ ''pipe'' @ [CHR 0x5C] @ name"

subsection \<open>Settings of \<open>tls.rs\<close>\<close>

datatype TlsMode = Disable | Prefer | Require | VerifyCa | VerifyFull

fun TlsMode_as_str :: "TlsMode \<Rightarrow> string" where
  "TlsMode_as_str Disable = ''disable''"
| "TlsMode_as_str Prefer = ''prefer''"
| "TlsMode_as_str Require = ''require''"
| "TlsMode_as_str VerifyCa = ''verify-ca''"
| "TlsMode_as_str VerifyFull = ''verify-full''"

text \<open>The left of the result is the \<open>input\<close> of \<open>ParseTlsModeError\<close>.\<close>

definition TlsMode_from_str :: "string \<Rightarrow> string + TlsMode" where
  "TlsMode_from_str s =
     (if s = ''disable'' then Inr Disable
      else if s = ''prefer'' then Inr Prefer
      else if s = ''require'' then Inr Require
      else if s = ''verify-ca'' then Inr VerifyCa
      else if s = ''verify-full'' then Inr VerifyFull
      else Inl s)"

definition ParseTlsModeError_fmt :: "string \<Rightarrow> string" where
  "ParseTlsModeError_fmt input =
     ''invalid TLS mode `'' @ input @ ''`; expected one of: disable, prefer, require, verify-ca, verify-full''
       @ (if input = ''allow'' then '' (libpq'' @ [CHR 0x27] @ ''s `allow` is not supported; use `prefer`)'' else '''')"

record TlsConfig =
  mode :: TlsMode
  root_cert :: "string option"
  client_cert :: "(string \<times> string) option"
  server_name :: "string option"

definition TlsConfig_new :: "TlsMode \<Rightarrow> TlsConfig" where
  "TlsConfig_new m = \<lparr>mode = m, root_cert = None, client_cert = None, server_name = None\<rparr>"

subsection \<open>\<open>config.rs\<close>\<close>

record Config =
  cfg_host :: string
  cfg_port :: u16
  cfg_database :: "string option"
  cfg_user :: "string option"
  cfg_password :: "string option"
  connect_timeout :: "nat option"
  application_name :: "string option"
  cfg_options :: "(string \<times> string) list"
  cfg_tls :: TlsConfig

definition LIBPQ_TLS_KEYS :: "string list" where
  "LIBPQ_TLS_KEYS =
     [''sslmode'', ''sslrootcert'', ''sslcert'', ''sslkey'', ''sslpassword'', ''sslcrl'', ''sslsni'', ''sslnegotiation'']"

definition Config_new :: Config where
  "Config_new =
     \<lparr>cfg_host = ''localhost'', cfg_port = 7483, cfg_database = None, cfg_user = None, cfg_password = None,
      connect_timeout = Some (30 * 10 ^ 9), application_name = None,
      cfg_options = [(''result_format_code'', ''HyperBinary'')], cfg_tls = TlsConfig_new Disable\<rparr>"

definition with_option :: "string \<Rightarrow> string \<Rightarrow> Config \<Rightarrow> Config" where
  "with_option name val c = c\<lparr>cfg_options := cfg_options c @ [(name, val)]\<rparr>"

definition startup_params :: "Config \<Rightarrow> (string \<times> string) list" where
  "startup_params c =
     (case cfg_user c of Some u \<Rightarrow> [(''user'', u)] | None \<Rightarrow> [])
       @ (case cfg_database c of Some d \<Rightarrow> [(''database'', d)] | None \<Rightarrow> [])
       @ (case application_name c of Some a \<Rightarrow> [(''application_name'', a)] | None \<Rightarrow> [])
       @ cfg_options c"

text \<open>One turn of the loop over the query parameters.\<close>

definition query_param :: "string \<Rightarrow> Config \<Rightarrow> Error + Config" where
  "query_param param c =
     (if param = [] then Inr c
      else
        let name = (case split_once CHR ''='' param of Some (name, _) \<Rightarrow> name | None \<Rightarrow> param)
        in if name \<in> set LIBPQ_TLS_KEYS then
             Inl (ConfigError (''TLS options are not accepted in the connection string (found `'' @ name
               @ ''`); use Config::with_tls (ConnectionBuilder::tls in hyperdb-api)''))
           else case str_find CHR ''='' param of
             None \<Rightarrow> Inr c
           | Some i \<Rightarrow>
               let val = drop (i + 1) param
               in Inr (if name = ''user'' then c\<lparr>cfg_user := Some val\<rparr>
                    else if name = ''password'' then c\<lparr>cfg_password := Some val\<rparr>
                    else if name = ''application_name'' then c\<lparr>application_name := Some val\<rparr>
                    else with_option name val c))"

fun query_params :: "string list \<Rightarrow> Config \<Rightarrow> Error + Config" where
  "query_params [] c = Inr c"
| "query_params (p # ps) c = try_bind (query_param p c) (query_params ps)"

definition Config_from_str :: "string \<Rightarrow> Error + Config" where
  "Config_from_str s =
     (let (addr, rest) = (case split_once CHR ''/'' s of Some p \<Rightarrow> p | None \<Rightarrow> (s, []));
          address = (case str_rfind CHR '':'' addr of
            Some i \<Rightarrow>
              (case parse_unsigned 65535 (drop (i + 1) addr) of
                 None \<Rightarrow> Inl (ConfigError ''invalid port number'')
               | Some n \<Rightarrow> Inr (Config_new\<lparr>cfg_host := take i addr, cfg_port := word_of_nat n\<rparr>))
          | None \<Rightarrow> Inr (Config_new\<lparr>cfg_host := addr\<rparr>))
      in try_bind address (\<lambda>c.
           let (database, query) = (case split_once CHR ''?'' rest of Some p \<Rightarrow> p | None \<Rightarrow> (rest, []));
               c' = (if database = [] then c else c\<lparr>cfg_database := Some database\<rparr>)
           in query_params (str_split CHR ''&'' query) c'))"

section \<open>Text\<close>

lemma find_sub_Some_iff:
  "find_sub p s = Some i \<longleftrightarrow>
     i \<le> length s \<and> starts_with (drop i s) p \<and> (\<forall>j < i. \<not> starts_with (drop j s) p)"
proof (induction p s arbitrary: i rule: find_sub.induct)
  case (1 p s)
  show ?case
  proof (cases "starts_with s p")
    case True
    then show ?thesis
      by (cases i) (auto simp: find_sub.simps [of p s])
  next
    case False
    show ?thesis
    proof (cases s)
      case Nil
      with False show ?thesis by (simp add: find_sub.simps [of p "[]"])
    next
      case (Cons c r)
      have less: "(\<forall>j < Suc k. \<not> starts_with (drop j s) p) \<longleftrightarrow> (\<forall>j < k. \<not> starts_with (drop j r) p)" for k
        using False Cons by (auto simp: All_less_Suc2)
      show ?thesis
      proof (cases i)
        case 0
        with False Cons show ?thesis by (simp add: find_sub.simps [of p "c # r"])
      next
        case (Suc k)
        have "find_sub p s = Some i \<longleftrightarrow> find_sub p r = Some k"
          using False Cons Suc by (auto simp: find_sub.simps [of p "c # r"])
        with "1" [OF False Cons, of k] less [of k] Cons Suc show ?thesis
          by simp
      qed
    qed
  qed
qed

text \<open>The first separator is the one between directory and name exactly when the directory does not bring
  one of its own, alone or together with the separator's front.\<close>

lemma find_sub_sep:
  assumes "p \<noteq> []"
  shows "find_sub p (d @ p @ n) = Some (length d) \<longleftrightarrow> \<not> str_contains (d @ butlast p) p"
proof -
  have lp: "length (butlast p) + 1 = length p"
    using assms by (cases p rule: rev_cases) simp_all
  have "starts_with (drop j (d @ p @ n)) p \<longleftrightarrow> starts_with (drop j (d @ butlast p)) p" if j: "j < length d" for j
  proof -
    have eq: "take (length d + length p - 1) (d @ p @ n) = d @ butlast p"
      using lp by (simp add: butlast_conv_take)
    have "length p \<le> length d + length p - 1 - j" using j by simp
    then have "take (length p) (drop j (d @ p @ n)) = take (length p) (drop j (take (length d + length p - 1) (d @ p @ n)))"
      using assms by (cases p) (simp_all add: drop_take take_take min_def)
    then show ?thesis
      unfolding eq starts_with_def by simp
  qed
  moreover have "str_contains (d @ butlast p) p \<longleftrightarrow> (\<exists>j < length d. starts_with (drop j (d @ butlast p)) p)"
  proof
    assume "str_contains (d @ butlast p) p"
    then obtain q r where qr: "d @ butlast p = q @ p @ r"
      by (auto simp: str_contains_iff)
    then have "length d + length (butlast p) = length q + length p + length r"
      by (metis add.assoc length_append)
    with lp have "length q < length d" by linarith
    then show "\<exists>j < length d. starts_with (drop j (d @ butlast p)) p"
      using qr by (intro exI [of _ "length q"]) (simp add: starts_with_iff)
  next
    assume "\<exists>j < length d. starts_with (drop j (d @ butlast p)) p"
    then obtain j r where "drop j (d @ butlast p) = p @ r"
      by (auto simp: starts_with_iff)
    then have "d @ butlast p = take j (d @ butlast p) @ p @ r"
      by (metis append_take_drop_id)
    then show "str_contains (d @ butlast p) p"
      unfolding str_contains_iff by blast
  qed
  ultimately show ?thesis
    by (auto simp: find_sub_Some_iff)
qed

lemma cut_at_sep:
  assumes "p \<noteq> []"
  shows "(\<exists>i. find_sub p (d @ p @ n) = Some i \<and> take i (d @ p @ n) = d \<and> drop (i + length p) (d @ p @ n) = n) \<longleftrightarrow>
    \<not> str_contains (d @ butlast p) p"
proof -
  have "i = length d" if "find_sub p (d @ p @ n) = Some i" "take i (d @ p @ n) = d" for i
    using that by (auto simp: find_sub_Some_iff dest: arg_cong [of _ d length])
  then show ?thesis
    using find_sub_sep [OF assms, of d n] by auto
qed

section \<open>Endpoints\<close>

fun supported :: "platform \<Rightarrow> ConnectionEndpoint \<Rightarrow> bool" where
  "supported os (TcpEndpoint _ _) \<longleftrightarrow> True"
| "supported os (DomainSocket _ _) \<longleftrightarrow> os = Unix"
| "supported os (NamedPipe _ _) \<longleftrightarrow> os = Windows"

fun endpoint_plain :: "ConnectionEndpoint \<Rightarrow> bool" where
  "endpoint_plain (TcpEndpoint host port) \<longleftrightarrow>
     (if CHR '':'' \<in> set host then CHR '']'' \<notin> set host else host \<noteq> [] \<and> hd host \<noteq> CHR ''['')"
| "endpoint_plain (DomainSocket directory name) \<longleftrightarrow> name \<noteq> [] \<and> \<not> str_contains (directory @ ''/domain'') ''/domain/''"
| "endpoint_plain (NamedPipe host name) \<longleftrightarrow> name \<noteq> [] \<and> \<not> str_contains (host @ ''/pipe'') ''/pipe/''"

definition port_text :: "u16 \<Rightarrow> string" where
  "port_text port = (if port = 0 then ''auto'' else show_nat (unat port))"

lemma show_nat_char: "c \<in> set (show_nat n) \<Longrightarrow> char_digit c \<noteq> None"
  using show_nat_digits [of n] by (auto simp: list_all_iff)

lemma parse_port_text [simp]: "parse_port (port_text port) = Inr port"
proof (cases "port = 0")
  case False
  have "show_nat (unat port) \<noteq> ''auto''"
    using show_nat_char [of "CHR ''a''" "unat port"] by (auto simp: char_digit_def)
  moreover have "unat port \<le> 65535"
    using unsigned_less [of port, where 'a = nat] by simp
  ultimately show ?thesis
    using False by (simp add: parse_port_def port_text_def parse_unsigned_show_nat)
qed (simp add: parse_port_def port_text_def)

lemma port_text_plain: "CHR '':'' \<notin> set (port_text port)" "CHR '']'' \<notin> set (port_text port)"
  using show_nat_char [of "CHR '':''" "unat port"] show_nat_char [of "CHR '']''" "unat port"]
  by (auto simp: port_text_def char_digit_def)

lemma str_find_nth: "str_find c s = Some i \<Longrightarrow> i < length s \<and> s ! i = c \<and> c \<notin> set (take i s)"
proof (induction s arbitrary: i)
  case (Cons d s)
  then show ?case by (cases i) (auto split: if_splits)
qed simp

lemma str_find_first: "c \<in> set s \<Longrightarrow> \<exists>i < length s. str_find c (s @ t) = Some i"
proof (induction s)
  case (Cons d s)
  then show ?case by (cases "d = c") (auto simp: less_Suc_eq_0_disj)
qed simp

lemma parse_tcp_bracket:
  assumes "CHR '']'' \<notin> set host"
  shows "parse_tcp (''['' @ host @ '']:'' @ port_text port) = Inr (TcpEndpoint host port)"
  using str_find_append [OF assms, of "'':'' @ port_text port"]
  by (simp add: parse_tcp_def starts_with_def strip_prefix_def)

lemma parse_tcp_bracket_cut:
  assumes "CHR '']'' \<in> set host" "parse_tcp (''['' @ host @ t) = Inr (TcpEndpoint host' port)"
  shows "length host' < length host"
proof -
  obtain i where "i < length host" "str_find CHR '']'' (host @ t) = Some i"
    using str_find_first [OF assms(1)] by blast
  with assms(2) show ?thesis
    by (auto simp: parse_tcp_def starts_with_def try_bind_eq_Inr split: option.splits)
qed

lemma parse_tcp_plain:
  assumes "host \<noteq> []" "hd host \<noteq> CHR ''[''"
  shows "parse_tcp (host @ '':'' @ port_text port) = Inr (TcpEndpoint host port)"
  using assms str_rfind_append [OF port_text_plain(1), of host port]
  by (cases host) (simp_all add: parse_tcp_def starts_with_def)

lemma parse_tcp_open_bracket:
  assumes "parse_tcp (CHR ''['' # r @ '':'' @ port_text port) = Inr (TcpEndpoint host' port')"
  shows "length host' \<le> length r"
proof (cases "CHR '']'' \<in> set r")
  case True
  then show ?thesis using parse_tcp_bracket_cut [of r "'':'' @ port_text port"] assms by simp
next
  case False
  then have "CHR '']'' \<notin> set (CHR ''['' # r @ '':'' @ port_text port)"
    using port_text_plain by auto
  then have "str_find CHR '']'' (CHR ''['' # r @ '':'' @ port_text port) = None"
    using str_find_nth nth_mem by (metis not_Some_eq)
  with assms show ?thesis by (simp add: parse_tcp_def starts_with_def)
qed

text \<open>C34. printing an endpoint and reading it back gives the endpoint exactly when the platform has it
  and it is plain: a TCP host is not empty and does not open a bracket, or has a colon and no closing bracket;
  a socket or pipe has a name, and its directory or host brings no separator of its own. Any port survives,
  0 included, which is printed as \<open>auto\<close>.\<close>

theorem endpoint_roundtrip_iff:
  "ConnectionEndpoint_parse os (to_descriptor e) = Inr e \<longleftrightarrow> supported os e \<and> endpoint_plain e"
proof (cases e)
  case (TcpEndpoint host port)
  have desc: "to_descriptor (TcpEndpoint host port) = ''tab.tcp://'' @
      (if CHR '':'' \<in> set host then ''['' @ host @ '']:'' @ port_text port else host @ '':'' @ port_text port)"
    by (simp add: port_text_def)
  have "ConnectionEndpoint_parse os (''tab.tcp://'' @ t) = parse_tcp t" for t
    by (simp add: ConnectionEndpoint_parse_def strip_prefix_def)
  then have parse: "ConnectionEndpoint_parse os (to_descriptor (TcpEndpoint host port)) = parse_tcp
      (if CHR '':'' \<in> set host then ''['' @ host @ '']:'' @ port_text port else host @ '':'' @ port_text port)"
    by (simp only: desc)
  show ?thesis
  proof (cases "CHR '':'' \<in> set host")
    case True
    then show ?thesis
      unfolding TcpEndpoint parse
      using parse_tcp_bracket [of host port] parse_tcp_bracket_cut [of host "'']:'' @ port_text port" host port]
      by (auto simp del: append_Cons append.simps)
  next
    case False
    have "parse_tcp (host @ '':'' @ port_text port) = Inr (TcpEndpoint host port) \<longleftrightarrow> host \<noteq> [] \<and> hd host \<noteq> CHR ''[''"
    proof (cases host)
      case Nil
      then show ?thesis
        using str_rfind_append [OF port_text_plain(1), of "[]" port] by (simp add: parse_tcp_def starts_with_def)
    next
      case (Cons c r)
      then show ?thesis
        using parse_tcp_plain [of host port] parse_tcp_open_bracket [of r port host port] by (cases "c = CHR ''[''") auto
    qed
    with False show ?thesis
      unfolding TcpEndpoint parse by simp
  qed
next
  case (DomainSocket directory name)
  have "ConnectionEndpoint_parse os (to_descriptor e) = Inr e \<longleftrightarrow>
      os = Unix \<and> name \<noteq> [] \<and> (\<exists>i. find_sub ''/domain/'' (directory @ ''/domain/'' @ name) = Some i \<and>
        take i (directory @ ''/domain/'' @ name) = directory \<and> drop (i + 8) (directory @ ''/domain/'' @ name) = name)"
    unfolding DomainSocket by (auto simp: ConnectionEndpoint_parse_def strip_prefix_def Let_def split: option.split)
  moreover have "''/domain/'' \<noteq> []" "length ''/domain/'' = 8" "butlast ''/domain/'' = ''/domain''"
    by simp_all
  ultimately show ?thesis
    using cut_at_sep [of "''/domain/''" directory name] by (simp only: DomainSocket supported.simps endpoint_plain.simps) blast
next
  case (NamedPipe host name)
  have "ConnectionEndpoint_parse os (to_descriptor e) = Inr e \<longleftrightarrow>
      os = Windows \<and> name \<noteq> [] \<and> (\<exists>i. find_sub ''/pipe/'' (host @ ''/pipe/'' @ name) = Some i \<and>
        take i (host @ ''/pipe/'' @ name) = host \<and> drop (i + 6) (host @ ''/pipe/'' @ name) = name)"
    unfolding NamedPipe by (auto simp: ConnectionEndpoint_parse_def strip_prefix_def Let_def split: option.split)
  moreover have "''/pipe/'' \<noteq> []" "length ''/pipe/'' = 6" "butlast ''/pipe/'' = ''/pipe''"
    by simp_all
  ultimately show ?thesis
    using cut_at_sep [of "''/pipe/''" host name] by (simp only: NamedPipe supported.simps endpoint_plain.simps) blast
qed

section \<open>Connection strings\<close>

definition key_of :: "string \<Rightarrow> string" where
  "key_of param = takeWhile (\<lambda>c. c \<noteq> CHR ''='') param"

lemma str_find_takeWhile: "str_find c s = Some i \<Longrightarrow> take i s = takeWhile (\<lambda>d. d \<noteq> c) s"
proof (induction s arbitrary: i)
  case (Cons d s)
  then show ?case by (auto split: if_splits)
qed simp

lemma str_find_none: "str_find c s = None \<Longrightarrow> takeWhile (\<lambda>d. d \<noteq> c) s = s"
  by (induction s) (auto split: if_splits)

lemma split_once_key: "(case split_once CHR ''='' p of Some (name, _) \<Rightarrow> name | None \<Rightarrow> p) = key_of p"
  by (auto simp: split_once_def key_of_def str_find_takeWhile str_find_none split: option.split)

lemma tls_keys_plain [simp]:
  "''user'' \<notin> set LIBPQ_TLS_KEYS" "''database'' \<notin> set LIBPQ_TLS_KEYS" "''application_name'' \<notin> set LIBPQ_TLS_KEYS"
  "''result_format_code'' \<notin> set LIBPQ_TLS_KEYS" "[] \<notin> set LIBPQ_TLS_KEYS"
  by (simp_all add: LIBPQ_TLS_KEYS_def)

lemma query_param_ok: "(\<exists>c'. query_param p c = Inr c') \<longleftrightarrow> key_of p \<notin> set LIBPQ_TLS_KEYS"
proof (cases "p = []")
  case True
  then show ?thesis by (simp add: query_param_def key_of_def)
next
  case False
  then show ?thesis
    unfolding query_param_def split_once_key Let_def by (simp split: option.split)
qed

lemma query_params_ok: "(\<exists>c'. query_params ps c = Inr c') \<longleftrightarrow> (\<forall>p \<in> set ps. key_of p \<notin> set LIBPQ_TLS_KEYS)"
proof (induction ps arbitrary: c)
  case (Cons p ps)
  have "(\<exists>c'. query_params (p # ps) c = Inr c') \<longleftrightarrow>
      (\<exists>c1. query_param p c = Inr c1 \<and> (\<exists>c'. query_params ps c1 = Inr c'))"
    by (auto simp: try_bind_eq_Inr)
  with Cons.IH query_param_ok [of p c] show ?case by auto
qed simp

definition no_tls_options :: "Config \<Rightarrow> bool" where
  "no_tls_options c \<longleftrightarrow>
     cfg_tls c = TlsConfig_new Disable \<and> (\<forall>(name, _) \<in> set (cfg_options c). name \<notin> set LIBPQ_TLS_KEYS)"

lemma query_param_no_tls: "query_param p c = Inr c' \<Longrightarrow> no_tls_options c \<Longrightarrow> no_tls_options c'"
  unfolding query_param_def split_once_key Let_def
  by (auto simp: no_tls_options_def with_option_def split: if_splits option.splits)

lemma query_params_no_tls: "query_params ps c = Inr c' \<Longrightarrow> no_tls_options c \<Longrightarrow> no_tls_options c'"
  by (induction ps arbitrary: c) (auto simp: try_bind_eq_Inr dest: query_param_no_tls)

text \<open>The address and the query of a connection string, cut at the first slash and question mark.\<close>

definition address_of :: "string \<Rightarrow> string" where
  "address_of s = takeWhile (\<lambda>c. c \<noteq> CHR ''/'') s"

definition query_of :: "string \<Rightarrow> string" where
  "query_of s = drop 1 (dropWhile (\<lambda>c. c \<noteq> CHR ''?'') (drop 1 (dropWhile (\<lambda>c. c \<noteq> CHR ''/'') s)))"

definition port_readable :: "string \<Rightarrow> bool" where
  "port_readable addr \<longleftrightarrow>
     (case str_rfind CHR '':'' addr of None \<Rightarrow> True | Some i \<Rightarrow> parse_unsigned 65535 (drop (i + 1) addr) \<noteq> None)"

lemma str_find_dropWhile: "str_find c s = Some i \<Longrightarrow> drop i s = dropWhile (\<lambda>d. d \<noteq> c) s"
proof (induction s arbitrary: i)
  case (Cons d s)
  then show ?case by (auto split: if_splits)
qed simp

lemma str_find_none_drop: "str_find c s = None \<Longrightarrow> dropWhile (\<lambda>d. d \<noteq> c) s = []"
  by (induction s) (auto split: if_splits)

lemma split_once_parts:
  "(case split_once c s of Some p \<Rightarrow> p | None \<Rightarrow> (s, [])) =
     (takeWhile (\<lambda>d. d \<noteq> c) s, drop 1 (dropWhile (\<lambda>d. d \<noteq> c) s))"
proof (cases "str_find c s")
  case (Some i)
  then have "drop (Suc i) s = drop 1 (dropWhile (\<lambda>d. d \<noteq> c) s)"
    by (metis add.commute drop_drop plus_1_eq_Suc str_find_dropWhile)
  with Some show ?thesis by (simp add: split_once_def str_find_takeWhile)
qed (simp add: split_once_def str_find_none str_find_none_drop)

text \<open>The three parts of the reader.\<close>

definition address_config :: "string \<Rightarrow> Error + Config" where
  "address_config s =
     (case str_rfind CHR '':'' (address_of s) of
        Some i \<Rightarrow>
          (case parse_unsigned 65535 (drop (i + 1) (address_of s)) of
             None \<Rightarrow> Inl (ConfigError ''invalid port number'')
           | Some n \<Rightarrow> Inr (Config_new\<lparr>cfg_host := take i (address_of s), cfg_port := word_of_nat n\<rparr>))
      | None \<Rightarrow> Inr (Config_new\<lparr>cfg_host := address_of s\<rparr>))"

definition database_of :: "string \<Rightarrow> string" where
  "database_of s = takeWhile (\<lambda>c. c \<noteq> CHR ''?'') (drop 1 (dropWhile (\<lambda>c. c \<noteq> CHR ''/'') s))"

definition set_database :: "string \<Rightarrow> Config \<Rightarrow> Config" where
  "set_database d c = (if d = [] then c else c\<lparr>cfg_database := Some d\<rparr>)"

lemma connection_read:
  "Config_from_str s = try_bind (address_config s) (\<lambda>c.
     query_params (str_split CHR ''&'' (query_of s)) (set_database (database_of s) c))"
  unfolding Config_from_str_def split_once_parts address_config_def address_of_def database_of_def query_of_def
    set_database_def Let_def prod.case by (rule refl)

lemma address_config_ok: "(\<exists>c. address_config s = Inr c) \<longleftrightarrow> port_readable (address_of s)"
  by (auto simp: address_config_def port_readable_def split: option.splits)

lemma address_config_no_tls: "address_config s = Inr c \<Longrightarrow> no_tls_options c"
  by (auto simp: address_config_def no_tls_options_def Config_new_def split: option.splits)

lemma no_tls_options_database: "no_tls_options (set_database d c) \<longleftrightarrow> no_tls_options c"
  by (simp add: no_tls_options_def set_database_def)

text \<open>A connection string is read exactly when its port, if it has one, is a number below 65536 and no
  parameter of its query is one of the TLS settings of libpq; and then no startup parameter
  sent to the server carries such a name, and TLS is off until it is set in the program.\<close>

theorem connection_string_refuses_tls:
  "((\<exists>c. Config_from_str s = Inr c) \<longleftrightarrow>
     port_readable (address_of s) \<and> (\<forall>p \<in> set (str_split CHR ''&'' (query_of s)). key_of p \<notin> set LIBPQ_TLS_KEYS)) \<and>
   (\<forall>c. Config_from_str s = Inr c \<longrightarrow>
     mode (cfg_tls c) = Disable \<and> (\<forall>(name, val) \<in> set (startup_params c). name \<notin> set LIBPQ_TLS_KEYS))"
proof (intro conjI allI impI)
  show "(\<exists>c. Config_from_str s = Inr c) \<longleftrightarrow>
     port_readable (address_of s) \<and> (\<forall>p \<in> set (str_split CHR ''&'' (query_of s)). key_of p \<notin> set LIBPQ_TLS_KEYS)"
    using address_config_ok [of s] query_params_ok unfolding connection_read try_bind_eq_Inr by metis
next
  fix c assume "Config_from_str s = Inr c"
  then obtain c0 where "address_config s = Inr c0"
    "query_params (str_split CHR ''&'' (query_of s)) (set_database (database_of s) c0) = Inr c"
    unfolding connection_read try_bind_eq_Inr by blast
  then have "no_tls_options c"
    using query_params_no_tls address_config_no_tls no_tls_options_database by blast
  then show "mode (cfg_tls c) = Disable" "\<forall>(name, val) \<in> set (startup_params c). name \<notin> set LIBPQ_TLS_KEYS"
    by (auto simp: no_tls_options_def TlsConfig_new_def startup_params_def split: option.split)
qed

text \<open>A plain address, credentials and an option; a TLS setting is refused.\<close>

theorem connection_string_refuses_tls_witness:
  "(\<exists>c. Config_from_str ''h:7483/x.hyper?user=u&opt=1'' = Inr c) \<and>
   \<not> (\<exists>c. Config_from_str ''h:7483/x.hyper?user=u&sslmode=require'' = Inr c)"
  unfolding conjunct1 [OF connection_string_refuses_tls]
  by (simp add: port_readable_def address_of_def str_rfind_def parse_unsigned_def parse_nat_def char_digit_def query_of_def
      key_of_def LIBPQ_TLS_KEYS_def)

end
