(* ===== verification/Sync_Pool.thy ===== *)
theory Sync_Pool
  imports Bulk_Insert Client_Config
begin

text \<open>
  The synchronous connection pool, \<open>hyperdb-api/src/pool.rs\<close>: callers that take connections from a shared pool,
  wait on a condition variable when there is none and give them back.

  The state behind the mutex is a record and each critical section of the code a function on it. A caller
  is a phase: the place in \<open>get_timeout\<close>, in the life of the guard or in its drop where it stands
  between two critical sections. The system is a step relation on the pool and the phases of all
  callers, so every interleaving of the threads is a sequence of steps. A thread that holds two
  connections counts as two callers. Times are numbers read from a clock that may show anything;
  opening a connection may succeed with any connection or fail. Panics of a probe are not modelled.
\<close>

section \<open>The code\<close>

datatype CreateMode = DoNotCreate | CreateDb | CreateIfNotExists | CreateAndReplace

datatype SyncRecycleStrategy =
    SelectOne
  | Ping
  | NoProbe
  | Custom "Transport \<Rightarrow> unit answer \<times> Transport"

record SyncPoolConfig =
  endpoint :: string
  pool_database :: string
  create_mode :: CreateMode
  user :: "string option"
  password :: "string option"
  pool_tls :: TlsConfig
  max_size :: nat
  recycle_strategy :: SyncRecycleStrategy
  wait_timeout :: "nat option"
  max_lifetime :: "nat option"
  idle_timeout :: "nat option"
  min_idle :: "nat option"

record IdleConn =
  idle_conn :: Transport
  created :: nat
  last_used :: nat

record SyncPoolState =
  idle :: "IdleConn list"
  live :: nat \<comment> \<open>\<open>size\<close>: idle and checked out\<close>
  initialized :: bool
  init_in_progress :: bool

definition SyncPoolConfig_new :: "string \<Rightarrow> string \<Rightarrow> SyncPoolConfig" where
  "SyncPoolConfig_new e d =
     \<lparr>endpoint = e, pool_database = d, create_mode = DoNotCreate, user = None, password = None,
      pool_tls = TlsConfig_new Disable, max_size = 16, recycle_strategy = SelectOne, wait_timeout = None, max_lifetime = None, idle_timeout = None, min_idle = None\<rparr>"

definition build_pool :: SyncPoolState where
  "build_pool = \<lparr>idle = [], live = 0, initialized = False, init_in_progress = False\<rparr>"

text \<open>What \<open>open\<close> asks of the connection builder: endpoint, database, create mode, TLS, credentials.\<close>

definition open_request ::
  "SyncPoolConfig \<Rightarrow> bool \<Rightarrow> string \<times> string \<times> CreateMode \<times> TlsConfig \<times> (string \<times> string) option" where
  "open_request cfg first =
     (endpoint cfg, pool_database cfg, if first then create_mode cfg else DoNotCreate, pool_tls cfg,
      case (user cfg, password cfg) of (Some u, Some p) \<Rightarrow> Some (u, p) | _ \<Rightarrow> None)"

definition should_evict :: "SyncPoolConfig \<Rightarrow> nat \<Rightarrow> IdleConn \<Rightarrow> nat \<Rightarrow> bool" where
  "should_evict cfg now i live_size \<longleftrightarrow>
     (case max_lifetime cfg of Some m \<Rightarrow> now - created i \<ge> m | None \<Rightarrow> False) \<or>
     (case idle_timeout cfg of
        Some t \<Rightarrow> now - last_used i \<ge> t \<and> live_size > (case min_idle cfg of Some m \<Rightarrow> m | None \<Rightarrow> 0)
      | None \<Rightarrow> False)"

fun conn_is_alive :: "Transport \<Rightarrow> bool" where
  "conn_is_alive (Tcp cl) \<longleftrightarrow> is_alive cl = Returns (Inr True)"
| "conn_is_alive Grpc \<longleftrightarrow> True"

definition ping :: "Transport \<Rightarrow> unit answer \<times> Transport" where
  "ping t = continue (execute_command ''SELECT 1'' t) (\<lambda>_ t. (Answered (Inr ()), t))"

definition recycle :: "SyncPoolConfig \<Rightarrow> Transport \<Rightarrow> unit answer \<times> Transport" where
  "recycle cfg t =
     (if \<not> conn_is_alive t then (Answered (Inl (Api_Connection ''pooled connection is no longer alive'' None None)), t)
      else
        (case recycle_strategy cfg of
           SelectOne \<Rightarrow> continue (execute_command ''SELECT 1'' t) (\<lambda>_ t. (Answered (Inr ()), t))
         | Ping \<Rightarrow> ping t
         | NoProbe \<Rightarrow> (Answered (Inr ()), t)
         | Custom check \<Rightarrow> check t))"

definition checkin :: "Transport \<Rightarrow> nat \<Rightarrow> nat \<Rightarrow> SyncPoolState \<Rightarrow> SyncPoolState" where
  "checkin t born now s = s\<lparr>idle := idle s @ [\<lparr>idle_conn = t, created = born, last_used = now\<rparr>]\<rparr>"

definition discard :: "SyncPoolState \<Rightarrow> SyncPoolState" where
  "discard s = s\<lparr>live := live s - 1\<rparr>"

text \<open>The decision \<open>get_timeout\<close> takes under the lock; the back of the queue is the end of the list.\<close>

datatype Action = Reuse IdleConn | Create bool | Wait

definition choose_action :: "SyncPoolConfig \<Rightarrow> SyncPoolState \<Rightarrow> Action \<times> SyncPoolState" where
  "choose_action cfg s =
     (if idle s \<noteq> [] then (Reuse (last (idle s)), s\<lparr>idle := butlast (idle s)\<rparr>)
      else if \<not> initialized s then
        (if init_in_progress s then (Wait, s)
         else (Create True, s\<lparr>init_in_progress := True, live := live s + 1\<rparr>))
      else if live s < max_size cfg then (Create False, s\<lparr>live := live s + 1\<rparr>)
      else (Wait, s))"

definition first_opened :: "SyncPoolState \<Rightarrow> SyncPoolState" where
  "first_opened s = s\<lparr>initialized := True, init_in_progress := False\<rparr>"

definition open_failed :: "bool \<Rightarrow> SyncPoolState \<Rightarrow> SyncPoolState" where
  "open_failed first s =
     (let s' = s\<lparr>live := live s - 1\<rparr> in if first then s'\<lparr>init_in_progress := False\<rparr> else s')"

text \<open>The check before a caller sleeps.\<close>

definition may_proceed :: "SyncPoolConfig \<Rightarrow> SyncPoolState \<Rightarrow> bool" where
  "may_proceed cfg s \<longleftrightarrow>
     idle s \<noteq> [] \<or> initialized s \<and> live s < max_size cfg \<or> \<not> initialized s \<and> \<not> init_in_progress s"

record PoolStatus =
  st_idle :: nat
  st_size :: nat
  st_max_size :: nat

definition status :: "SyncPoolConfig \<Rightarrow> SyncPoolState \<Rightarrow> PoolStatus" where
  "status cfg s = \<lparr>st_idle = length (idle s), st_size = live s, st_max_size = max_size cfg\<rparr>"

section \<open>Callers\<close>

text \<open>\<open>d\<close> is the deadline of the call. \<open>NotifyOne\<close> and \<open>NotifyAll\<close> stand between the release of the lock and the
  notification.\<close>

datatype phase =
    Outside
  | Looking "nat option" \<comment> \<open>at the top of the loop\<close>
  | Reusing "nat option" IdleConn \<comment> \<open>has taken an idle connection\<close>
  | Judging "nat option" IdleConn nat \<comment> \<open>has read the live size\<close>
  | Probing "nat option" IdleConn
  | Opening bool
  | FirstOpened Transport
  | OpenFailed bool
  | Waiting "nat option" \<comment> \<open>was told to wait, has not yet checked again\<close>
  | Parked "nat option" \<comment> \<open>asleep on the condition variable\<close>
  | Holding Transport nat
  | Discarding phase \<comment> \<open>about to free the slot of its connection\<close>
  | NotifyOne phase
  | NotifyAll phase

type_synonym world = "SyncPoolState \<times> phase list"

fun wake :: "phase \<Rightarrow> phase" where
  "wake (Parked d) = Looking d"
| "wake p = p"

inductive step :: "SyncPoolConfig \<Rightarrow> world \<Rightarrow> world \<Rightarrow> bool" for cfg where
  get: "i < length ps \<Longrightarrow> ps ! i = Outside \<Longrightarrow> step cfg (s, ps) (s, ps[i := Looking d])"
| look_reuse: "i < length ps \<Longrightarrow> ps ! i = Looking d \<Longrightarrow> choose_action cfg s = (Reuse c, s') \<Longrightarrow>
    step cfg (s, ps) (s', ps[i := Reusing d c])"
| look_create: "i < length ps \<Longrightarrow> ps ! i = Looking d \<Longrightarrow> choose_action cfg s = (Create first, s') \<Longrightarrow>
    step cfg (s, ps) (s', ps[i := Opening first])"
| look_wait: "i < length ps \<Longrightarrow> ps ! i = Looking d \<Longrightarrow> choose_action cfg s = (Wait, s') \<Longrightarrow>
    step cfg (s, ps) (s', ps[i := Waiting d])"
| read_size: "i < length ps \<Longrightarrow> ps ! i = Reusing d c \<Longrightarrow> step cfg (s, ps) (s, ps[i := Judging d c (live s)])"
| evict: "i < length ps \<Longrightarrow> ps ! i = Judging d c n \<Longrightarrow> should_evict cfg now c n \<Longrightarrow>
    step cfg (s, ps) (s, ps[i := Discarding (Looking d)])"
| keep: "i < length ps \<Longrightarrow> ps ! i = Judging d c n \<Longrightarrow> \<not> should_evict cfg now c n \<Longrightarrow>
    step cfg (s, ps) (s, ps[i := Probing d c])"
| probe_ok: "i < length ps \<Longrightarrow> ps ! i = Probing d c \<Longrightarrow> recycle cfg (idle_conn c) = (Answered (Inr ()), t) \<Longrightarrow>
    step cfg (s, ps) (s, ps[i := Holding t (created c)])"
| probe_bad: "i < length ps \<Longrightarrow> ps ! i = Probing d c \<Longrightarrow> recycle cfg (idle_conn c) = (Answered (Inl e), t) \<Longrightarrow>
    step cfg (s, ps) (s, ps[i := Discarding (Looking d)])"
| opened: "i < length ps \<Longrightarrow> ps ! i = Opening False \<Longrightarrow> step cfg (s, ps) (s, ps[i := Holding t now])"
| opened_first: "i < length ps \<Longrightarrow> ps ! i = Opening True \<Longrightarrow> step cfg (s, ps) (s, ps[i := FirstOpened t])"
| first_done: "i < length ps \<Longrightarrow> ps ! i = FirstOpened t \<Longrightarrow>
    step cfg (s, ps) (first_opened s, ps[i := NotifyAll (Holding t now)])"
| open_fails: "i < length ps \<Longrightarrow> ps ! i = Opening first \<Longrightarrow> step cfg (s, ps) (s, ps[i := OpenFailed first])"
| fail_done: "i < length ps \<Longrightarrow> ps ! i = OpenFailed first \<Longrightarrow>
    step cfg (s, ps) (open_failed first s, ps[i := NotifyAll Outside])"
| wait_again: "i < length ps \<Longrightarrow> ps ! i = Waiting d \<Longrightarrow> may_proceed cfg s \<Longrightarrow> step cfg (s, ps) (s, ps[i := Looking d])"
| wait_expired: "i < length ps \<Longrightarrow> ps ! i = Waiting (Some dl) \<Longrightarrow> \<not> may_proceed cfg s \<Longrightarrow> dl \<le> now \<Longrightarrow>
    step cfg (s, ps) (s, ps[i := Outside])"
| park: "i < length ps \<Longrightarrow> ps ! i = Waiting d \<Longrightarrow> \<not> may_proceed cfg s \<Longrightarrow> (\<And>dl. d = Some dl \<Longrightarrow> now < dl) \<Longrightarrow>
    step cfg (s, ps) (s, ps[i := Parked d])"
| timed_out: "i < length ps \<Longrightarrow> ps ! i = Parked (Some dl) \<Longrightarrow> step cfg (s, ps) (s, ps[i := Outside])"
| spurious: "i < length ps \<Longrightarrow> ps ! i = Parked d \<Longrightarrow> step cfg (s, ps) (s, ps[i := Looking d])"
| use_conn: "i < length ps \<Longrightarrow> ps ! i = Holding t n \<Longrightarrow> step cfg (s, ps) (s, ps[i := Holding t' n])"
| drop_alive: "i < length ps \<Longrightarrow> ps ! i = Holding t n \<Longrightarrow> conn_is_alive t \<Longrightarrow>
    step cfg (s, ps) (checkin t n now s, ps[i := NotifyOne Outside])"
| drop_dead: "i < length ps \<Longrightarrow> ps ! i = Holding t n \<Longrightarrow> \<not> conn_is_alive t \<Longrightarrow>
    step cfg (s, ps) (s, ps[i := Discarding Outside])"
| take_conn: "i < length ps \<Longrightarrow> ps ! i = Holding t n \<Longrightarrow> step cfg (s, ps) (s, ps[i := Discarding Outside])"
| free_slot: "i < length ps \<Longrightarrow> ps ! i = Discarding p \<Longrightarrow> step cfg (s, ps) (discard s, ps[i := NotifyOne p])"
| notify_one: "i < length ps \<Longrightarrow> ps ! i = NotifyOne p \<Longrightarrow> j < length ps \<Longrightarrow> ps ! j = Parked d \<Longrightarrow>
    step cfg (s, ps) (s, ps[i := p, j := Looking d])"
| notify_nobody: "i < length ps \<Longrightarrow> ps ! i = NotifyOne p \<Longrightarrow> (\<And>j d. j < length ps \<Longrightarrow> ps ! j \<noteq> Parked d) \<Longrightarrow>
    step cfg (s, ps) (s, ps[i := p])"
| notify_all: "i < length ps \<Longrightarrow> ps ! i = NotifyAll p \<Longrightarrow> step cfg (s, ps) (s, map wake (ps[i := p]))"

text \<open>A pool is built, and any number of callers uses it.\<close>

definition reachable :: "SyncPoolConfig \<Rightarrow> world \<Rightarrow> bool" where
  "reachable cfg w \<longleftrightarrow> (\<exists>n. (step cfg)\<^sup>*\<^sup>* (build_pool, replicate n Outside) w)"


section \<open>Accounting\<close>

definition total :: "(phase \<Rightarrow> nat) \<Rightarrow> phase list \<Rightarrow> nat" where
  "total f ps = sum_list (map f ps)"

text \<open>The slots a phase occupies, and its part in the first connection's handshake.\<close>

fun uses :: "phase \<Rightarrow> nat" where
  "uses (Reusing d c) = 1"
| "uses (Judging d c n) = 1"
| "uses (Probing d c) = 1"
| "uses (Opening first) = 1"
| "uses (FirstOpened t) = 1"
| "uses (OpenFailed first) = 1"
| "uses (Holding t n) = 1"
| "uses (Discarding p) = Suc (uses p)"
| "uses (NotifyOne p) = uses p"
| "uses (NotifyAll p) = uses p"
| "uses _ = 0"

fun handshake :: "phase \<Rightarrow> nat" where
  "handshake (Opening first) = of_bool first"
| "handshake (FirstOpened t) = 1"
| "handshake (OpenFailed first) = of_bool first"
| "handshake (Discarding p) = handshake p"
| "handshake (NotifyOne p) = handshake p"
| "handshake (NotifyAll p) = handshake p"
| "handshake _ = 0"

text \<open>What may follow a notification.\<close>

fun simple_next :: "phase \<Rightarrow> bool" where
  "simple_next (Discarding p) \<longleftrightarrow> p = Outside \<or> (\<exists>d. p = Looking d)"
| "simple_next (NotifyOne p) \<longleftrightarrow> p = Outside \<or> (\<exists>d. p = Looking d)"
| "simple_next (NotifyAll p) \<longleftrightarrow> p = Outside \<or> (\<exists>t n. p = Holding t n)"
| "simple_next _ \<longleftrightarrow> True"

definition accounted :: "SyncPoolConfig \<Rightarrow> world \<Rightarrow> bool" where
  "accounted cfg w =
     (case w of (s, ps) \<Rightarrow>
        list_all simple_next ps \<and>
        live s = length (idle s) + total uses ps \<and>
        total handshake ps = of_bool (init_in_progress s) \<and>
        (initialized s \<longrightarrow> \<not> init_in_progress s) \<and>
        (\<not> initialized s \<longrightarrow> idle s = [] \<and> total uses ps = total handshake ps) \<and>
        live s \<le> max 1 (max_size cfg))"

lemma total_update: "i < length ps \<Longrightarrow> total f (ps[i := p]) + f (ps ! i) = total f ps + f p"
proof -
  assume i: "i < length ps"
  then have "f (ps ! i) \<le> total f ps"
    unfolding total_def by (metis elem_le_sum_list length_map nth_map)
  with i show ?thesis
    by (simp add: total_def map_update sum_list_update)
qed

lemma total_wake [simp]: "total uses (map wake ps) = total uses ps" "total handshake (map wake ps) = total handshake ps"
proof -
  have "uses (wake p) = uses p" "handshake (wake p) = handshake p" for p
    by (cases p; simp)+
  then show "total uses (map wake ps) = total uses ps" "total handshake (map wake ps) = total handshake ps"
    by (simp_all add: total_def o_def)
qed

lemma total_handshake_le:
  assumes "i < length ps"
  shows "total handshake ps + uses (ps ! i) \<le> total uses ps + handshake (ps ! i)"
proof -
  have le: "handshake p \<le> uses p" for p
    by (induction p) auto
  have "total handshake (ps[i := Outside]) \<le> total uses (ps[i := Outside])"
    unfolding total_def by (rule sum_list_mono) (rule le)
  then show ?thesis
    using total_update [OF assms, of handshake Outside] total_update [OF assms, of uses Outside] by simp
qed

lemma simple_next_update: "list_all simple_next ps \<Longrightarrow> simple_next p \<Longrightarrow> list_all simple_next (ps[i := p])"
  by (auto simp: list_all_iff dest: set_update_subset_insert [THEN subsetD])

lemma simple_next_wake: "list_all simple_next ps \<Longrightarrow> list_all simple_next (map wake ps)"
proof -
  have "simple_next p \<Longrightarrow> simple_next (wake p)" for p
    by (cases p) simp_all
  then show "list_all simple_next ps \<Longrightarrow> list_all simple_next (map wake ps)"
    by (auto simp: list_all_iff)
qed

lemma simple_next_nth: "list_all simple_next ps \<Longrightarrow> i < length ps \<Longrightarrow> simple_next (ps ! i)"
  by (simp add: list_all_length)


lemma accounted_move:
  assumes "accounted cfg (s, ps)" "i < length ps" "uses q = uses (ps ! i)" "handshake q = handshake (ps ! i)" "simple_next q"
  shows "accounted cfg (s, ps[i := q])"
proof -
  have "total uses (ps[i := q]) = total uses ps" "total handshake (ps[i := q]) = total handshake ps"
    using total_update [OF assms(2), of uses q] total_update [OF assms(2), of handshake q] assms(3,4) by simp_all
  with assms(1,5) simple_next_update [of ps q i] show ?thesis
    by (simp add: accounted_def)
qed

lemma accounted_look:
  assumes "accounted cfg (s, ps)" "i < length ps" "ps ! i = Looking d" "choose_action cfg s = (a, s')"
  shows "accounted cfg (s', ps[i := (case a of Reuse c \<Rightarrow> Reusing d c | Create first \<Rightarrow> Opening first | Wait \<Rightarrow> Waiting d)])"
proof -
  let ?q = "case a of Reuse c \<Rightarrow> Reusing d c | Create first \<Rightarrow> Opening first | Wait \<Rightarrow> Waiting d"
  have upd: "total uses (ps[i := ?q]) = total uses ps + uses ?q" "total handshake (ps[i := ?q]) = total handshake ps + handshake ?q"
    using total_update [OF assms(2), of uses ?q] total_update [OF assms(2), of handshake ?q] assms(3) by simp_all
  have "simple_next ?q" by (cases a) simp_all
  then have next': "list_all simple_next (ps[i := ?q])"
    using assms(1) simple_next_update [of ps ?q i] by (simp add: accounted_def)
  have "length (butlast (idle s)) + 1 = length (idle s)" if "idle s \<noteq> []"
    using that by (cases "idle s") simp_all
  then show ?thesis
    using assms(1,4) upd next'
    by (auto simp: accounted_def choose_action_def split: if_splits)
qed

lemma accounted_first_done:
  assumes "accounted cfg (s, ps)" "i < length ps" "ps ! i = FirstOpened t"
  shows "accounted cfg (first_opened s, ps[i := NotifyAll (Holding t n)])"
  using assms total_update [OF assms(2), of uses "NotifyAll (Holding t n)"]
    total_update [OF assms(2), of handshake "NotifyAll (Holding t n)"] simple_next_update [of ps "NotifyAll (Holding t n)" i]
  by (cases "init_in_progress s") (auto simp: accounted_def first_opened_def split: if_splits)

lemma accounted_fail_done:
  assumes "accounted cfg (s, ps)" "i < length ps" "ps ! i = OpenFailed first"
  shows "accounted cfg (open_failed first s, ps[i := NotifyAll Outside])"
  using assms total_update [OF assms(2), of uses "NotifyAll Outside"] total_handshake_le [OF assms(2)]
    total_update [OF assms(2), of handshake "NotifyAll Outside"] simple_next_update [of ps "NotifyAll Outside" i]
  by (cases first; cases "init_in_progress s") (auto simp: accounted_def open_failed_def Let_def split: if_splits)

lemma accounted_checkin:
  assumes "accounted cfg (s, ps)" "i < length ps" "ps ! i = Holding t n"
  shows "accounted cfg (checkin t n now s, ps[i := NotifyOne Outside])"
  using assms total_update [OF assms(2), of uses "NotifyOne Outside"] total_handshake_le [OF assms(2)]
    total_update [OF assms(2), of handshake "NotifyOne Outside"] simple_next_update [of ps "NotifyOne Outside" i]
  by (auto simp: accounted_def checkin_def split: if_splits)

lemma accounted_free_slot:
  assumes "accounted cfg (s, ps)" "i < length ps" "ps ! i = Discarding p"
  shows "accounted cfg (discard s, ps[i := NotifyOne p])"
proof -
  have p: "p = Outside \<or> (\<exists>d. p = Looking d)"
    using assms simple_next_nth [of ps i] by (simp add: accounted_def)
  then have z: "uses p = 0" "handshake p = 0" by auto
  show ?thesis
    using assms p z total_update [OF assms(2), of uses "NotifyOne p"] total_handshake_le [OF assms(2)]
      total_update [OF assms(2), of handshake "NotifyOne p"] simple_next_update [of ps "NotifyOne p" i]
    by (auto simp: accounted_def discard_def split: if_splits)
qed

lemma accounted_step:
  assumes "step cfg w w'" "accounted cfg w"
  shows "accounted cfg w'"
  using assms
proof (cases rule: step.cases)
  case (look_reuse i ps d s c s')
  then show ?thesis using accounted_look [of cfg s ps i d "Reuse c" s'] assms(2) by simp
next
  case (look_create i ps d s first s')
  then show ?thesis using accounted_look [of cfg s ps i d "Create first" s'] assms(2) by simp
next
  case (look_wait i ps d s s')
  then show ?thesis using accounted_look [of cfg s ps i d Wait s'] assms(2) by simp
next
  case (first_done i ps t s now)
  then show ?thesis using accounted_first_done assms(2) by blast
next
  case (fail_done i ps first s)
  then show ?thesis using accounted_fail_done assms(2) by blast
next
  case (drop_alive i ps t n s now)
  then show ?thesis using accounted_checkin assms(2) by blast
next
  case (free_slot i ps p s)
  then show ?thesis using accounted_free_slot assms(2) by blast
next
  case (notify_one i ps p j d s)
  have "simple_next (NotifyOne p)"
    using notify_one assms(2) simple_next_nth [of ps i] by (auto simp: accounted_def)
  then have "accounted cfg (s, ps[i := p])"
    using notify_one assms(2) by (intro accounted_move) auto
  moreover have "i \<noteq> j" using notify_one by auto
  then have "ps[i := p] ! j = Parked d" using notify_one by simp
  ultimately show ?thesis
    using notify_one accounted_move [of cfg s "ps[i := p]" j "Looking d"] by simp
next
  case (notify_nobody i ps p s)
  have "simple_next (NotifyOne p)"
    using notify_nobody assms(2) simple_next_nth [of ps i] by (auto simp: accounted_def)
  then show ?thesis
    using notify_nobody assms(2) by (auto intro!: accounted_move)
next
  case (notify_all i ps p s)
  have "simple_next (NotifyAll p)"
    using notify_all assms(2) simple_next_nth [of ps i] by (auto simp: accounted_def)
  then have "accounted cfg (s, ps[i := p])"
    using notify_all assms(2) by (intro accounted_move) auto
  then show ?thesis
    using notify_all simple_next_wake by (simp add: accounted_def)
qed (simp; rule accounted_move; simp)+


section \<open>Wake-ups\<close>

text \<open>A caller that is awake and will look at the pool, counting a notification it still has to send.\<close>

fun wants :: "phase \<Rightarrow> nat" where
  "wants (Looking d) = 1"
| "wants (Waiting d) = 1"
| "wants (NotifyOne p) = Suc (wants p)"
| "wants (Discarding p) = wants p"
| "wants _ = 0"

text \<open>The callers the pool could serve now.\<close>

definition free :: "SyncPoolConfig \<Rightarrow> SyncPoolState \<Rightarrow> nat" where
  "free cfg s = length (idle s) +
     (if initialized s then max_size cfg - live s else if init_in_progress s then 0 else 1)"

definition asleep :: "phase list \<Rightarrow> bool" where
  "asleep ps \<longleftrightarrow> (\<exists>d. Parked d \<in> set ps)"

definition waking_all :: "phase list \<Rightarrow> bool" where
  "waking_all ps \<longleftrightarrow> (\<exists>p. NotifyAll p \<in> set ps)"

definition attended :: "SyncPoolConfig \<Rightarrow> world \<Rightarrow> bool" where
  "attended cfg w =
     (case w of (s, ps) \<Rightarrow>
        list_all simple_next ps \<and> (waking_all ps \<or> \<not> asleep ps \<or> free cfg s \<le> total wants ps))"

lemma free_zero: "\<not> may_proceed cfg s \<longleftrightarrow> free cfg s = 0"
  by (auto simp: may_proceed_def free_def)

lemma set_update_keep: "x \<in> set ps \<Longrightarrow> x \<noteq> ps ! i \<Longrightarrow> x \<in> set (ps[i := q])"
  by (metis in_set_conv_nth length_list_update nth_list_update_neq)

lemma asleep_update: "asleep (ps[i := q]) \<Longrightarrow> (\<And>d. q \<noteq> Parked d) \<Longrightarrow> asleep ps"
  unfolding asleep_def by (metis insertE set_update_subset_insert subsetD)

lemma waking_all_update: "waking_all ps \<Longrightarrow> (\<And>p. ps ! i \<noteq> NotifyAll p) \<Longrightarrow> waking_all (ps[i := q])"
  unfolding waking_all_def by (metis set_update_keep)

lemma attended_update:
  assumes "attended cfg (s, ps)" "i < length ps" "\<And>p. ps ! i \<noteq> NotifyAll p" "\<And>d. q \<noteq> Parked d" "simple_next q"
    and "free cfg s' + wants (ps ! i) \<le> free cfg s + wants q"
  shows "attended cfg (s', ps[i := q])"
proof -
  have "free cfg s \<le> total wants ps \<Longrightarrow> free cfg s' \<le> total wants (ps[i := q])"
    using total_update [OF assms(2), of wants q] assms(6) by linarith
  then show ?thesis
    using assms asleep_update [of ps i q] waking_all_update [of ps i q] simple_next_update [of ps q i]
    by (auto simp: attended_def)
qed

lemma free_look:
  assumes "choose_action cfg s = (a, s')" "a \<noteq> Wait"
  shows "free cfg s' + 1 = free cfg s"
proof -
  have "length (butlast (idle s)) + 1 = length (idle s)" if "idle s \<noteq> []"
    using that by (cases "idle s") simp_all
  with assms show ?thesis
    by (auto simp: choose_action_def free_def split: if_splits)
qed

lemma attended_idle:
  assumes "list_all simple_next ps" "simple_next q" "\<not> may_proceed cfg s"
  shows "attended cfg (s, ps[i := q])"
  using assms simple_next_update [of ps q i] by (simp add: attended_def free_zero)

lemma attended_notify_one:
  assumes "attended cfg (s, ps)" "i < length ps" "ps ! i = NotifyOne p" "j < length ps" "ps ! j = Parked d"
  shows "attended cfg (s, ps[i := p, j := Looking d])"
proof -
  have ij: "i \<noteq> j" using assms by auto
  have p: "p = Outside \<or> (\<exists>d. p = Looking d)"
    using assms simple_next_nth [of ps i] by (auto simp: attended_def)
  have "total wants (ps[i := p, j := Looking d]) = total wants ps"
    using total_update [OF assms(2), of wants p] total_update [of j "ps[i := p]" wants "Looking d"] assms ij by simp
  moreover have "asleep ps"
    using assms(4,5) unfolding asleep_def by (metis nth_mem)
  moreover have "waking_all ps \<Longrightarrow> waking_all (ps[i := p, j := Looking d])"
    using assms ij by (intro waking_all_update) auto
  moreover have "list_all simple_next (ps[i := p, j := Looking d])"
    using assms(1) p by (intro simple_next_update) (auto simp: attended_def)
  ultimately show ?thesis
    using assms(1) by (auto simp: attended_def)
qed

lemma attended_awake: "list_all simple_next ps \<Longrightarrow> \<not> asleep ps \<Longrightarrow> attended cfg (s, ps)"
  by (simp add: attended_def)

lemma not_asleep_wake: "\<not> asleep (map wake ps)"
proof -
  have "wake p \<noteq> Parked d" for p d by (cases p) simp_all
  then show ?thesis unfolding asleep_def by (metis (no_types, lifting) imageE set_map)
qed


lemma attended_step:
  assumes "step cfg w w'" "attended cfg w"
  shows "attended cfg w'"
  using assms
proof (cases rule: step.cases)
  case (look_reuse i ps d s c s')
  then show ?thesis using free_look [of cfg s "Reuse c" s'] assms(2) by (auto intro!: attended_update)
next
  case (look_create i ps d s first s')
  then show ?thesis using free_look [of cfg s "Create first" s'] assms(2) by (auto intro!: attended_update)
next
  case (look_wait i ps d s s')
  then have "s' = s" by (auto simp: choose_action_def split: if_splits)
  then show ?thesis using look_wait assms(2) by (auto intro!: attended_update)
next
  case (first_done i ps t s now)
  then show ?thesis
    using assms(2) simple_next_update [of ps "NotifyAll (Holding t now)" i] set_update_memI [of i ps]
    by (auto simp: attended_def waking_all_def)
next
  case (fail_done i ps first s)
  then show ?thesis
    using assms(2) simple_next_update [of ps "NotifyAll Outside" i] set_update_memI [of i ps]
    by (auto simp: attended_def waking_all_def)
next
  case (wait_expired i ps dl s now)
  then show ?thesis using assms(2) attended_idle [of ps Outside] by (simp add: attended_def)
next
  case (park i ps d s now)
  then show ?thesis using assms(2) attended_idle [of ps "Parked d"] by (simp add: attended_def)
next
  case (drop_alive i ps t n s now)
  then show ?thesis using assms(2) by (auto intro!: attended_update simp: free_def checkin_def)
next
  case (free_slot i ps p s)
  have "simple_next (Discarding p)"
    using free_slot assms(2) simple_next_nth [of ps i] by (auto simp: attended_def)
  then show ?thesis using free_slot assms(2) by (auto intro!: attended_update simp: free_def discard_def)
next
  case (notify_one i ps p j d s)
  then show ?thesis using attended_notify_one assms(2) by blast
next
  case (notify_nobody i ps p s)
  have "simple_next (NotifyOne p)"
    using notify_nobody assms(2) simple_next_nth [of ps i] by (auto simp: attended_def)
  moreover have "\<not> asleep ps"
    using notify_nobody by (auto simp: asleep_def in_set_conv_nth)
  ultimately have "\<not> asleep (ps[i := p])" "list_all simple_next (ps[i := p])"
    using notify_nobody assms(2) asleep_update [of ps i p] by (auto simp: attended_def intro!: simple_next_update)
  then show ?thesis using notify_nobody attended_awake by simp
next
  case (notify_all i ps p s)
  have "simple_next (NotifyAll p)"
    using notify_all assms(2) simple_next_nth [of ps i] by (auto simp: attended_def)
  then have "list_all simple_next (ps[i := p])"
    using notify_all assms(2) by (auto simp: attended_def intro!: simple_next_update)
  then show ?thesis
    using notify_all simple_next_wake attended_awake not_asleep_wake by simp
qed (simp; rule attended_update; simp)+

lemma accounted_init: "accounted cfg (build_pool, replicate n Outside)"
  by (simp add: accounted_def build_pool_def total_def list_all_length)

lemma attended_init: "attended cfg (build_pool, replicate n Outside)"
  by (simp add: attended_def asleep_def list_all_length)

lemma reachable_invariants: "reachable cfg w \<Longrightarrow> accounted cfg w \<and> attended cfg w"
  unfolding reachable_def
proof (elim exE)
  fix n assume "(step cfg)\<^sup>*\<^sup>* (build_pool, replicate n Outside) w"
  then show "accounted cfg w \<and> attended cfg w"
    by (induction rule: rtranclp_induct) (auto intro: accounted_init attended_init accounted_step attended_step)
qed

section \<open>Properties\<close>

definition holding :: "phase \<Rightarrow> bool" where
  "holding p \<longleftrightarrow> (\<exists>t n. p = Holding t n)"

definition holders :: "phase list \<Rightarrow> nat" where
  "holders ps = length (filter holding ps)"

text \<open>C11. In every reachable state, whatever the callers do, the size the pool keeps is the number of its idle
  connections and of the slots callers occupy; it exceeds the limit only for a first connection under a
  limit of zero, callers never hold more connections than that, and at most one caller is in the
  handshake that may create the database, none once it has succeeded.\<close>

theorem pool_accounting:
  assumes "reachable cfg (s, ps)"
  shows "live s = length (idle s) + total uses ps \<and> live s \<le> max 1 (max_size cfg) \<and>
    holders ps + length (idle s) \<le> max 1 (max_size cfg) \<and>
    total handshake ps \<le> 1 \<and> (initialized s \<longrightarrow> total handshake ps = 0)"
proof -
  have acc: "accounted cfg (s, ps)"
    using reachable_invariants [OF assms] by simp
  have "holders ps \<le> total uses ps"
    unfolding holders_def total_def by (induction ps) (auto simp: holding_def)
  with acc show ?thesis
    by (auto simp: accounted_def)
qed

lemma total_holding:
  assumes "\<forall>p \<in> set ps. p = Outside \<or> (\<exists>d. p = Parked d) \<or> holding p"
  shows "total uses ps = holders ps" "total wants ps = 0" "total handshake ps = 0" "\<not> waking_all ps"
proof -
  show "\<not> waking_all ps" using assms by (auto simp: waking_all_def holding_def)
  show "total uses ps = holders ps" "total wants ps = 0" "total handshake ps = 0"
    using assms by (induction ps) (auto simp: total_def holders_def holding_def)
qed

text \<open>C10. No caller sleeps for nothing. In every reachable state where some caller is asleep and all others are
  outside, asleep or holding a connection, so that nobody is about to wake it, the pool has no idle
  connection and is full, and all its connections are in the hands of callers: no wake-up was lost.\<close>

theorem no_wakeup_is_lost:
  assumes "reachable cfg (s, ps)" "Parked d \<in> set ps"
    and "\<forall>p \<in> set ps. p = Outside \<or> (\<exists>d. p = Parked d) \<or> holding p"
  shows "idle s = [] \<and> initialized s \<and> max_size cfg \<le> live s \<and> live s = holders ps"
proof -
  note inv = reachable_invariants [OF assms(1)]
  note none = total_holding [OF assms(3)]
  have "free cfg s = 0"
    using inv none assms(2) by (auto simp: attended_def asleep_def)
  then have "idle s = []" "initialized s \<longrightarrow> max_size cfg \<le> live s" "initialized s \<or> init_in_progress s"
    by (auto simp: free_def split: if_splits)
  moreover have "\<not> init_in_progress s" "live s = length (idle s) + holders ps"
    using inv none by (auto simp: accounted_def)
  ultimately show ?thesis by simp
qed


text \<open>A pool with two slots and three callers, for concrete states.\<close>

definition demo_pool :: SyncPoolConfig where
  "demo_pool = (SyncPoolConfig_new ''localhost:7483'' ''x.hyper'')
     \<lparr>max_size := 2, recycle_strategy := NoProbe, idle_timeout := Some 5, min_idle := Some 1\<rparr>"

lemma reachable_init: "reachable cfg (build_pool, replicate n Outside)"
  by (auto simp: reachable_def)

lemma reachable_step: "reachable cfg w \<Longrightarrow> step cfg w w' \<Longrightarrow> reachable cfg w'"
  unfolding reachable_def by (meson rtranclp.rtrancl_into_rtrancl)

lemmas demo_defs = demo_pool_def SyncPoolConfig_new_def build_pool_def choose_action_def first_opened_def checkin_def

text \<open>The first caller connects, then the others do.\<close>

lemma demo_first:
  assumes "i < length ps" "ps ! i = Outside" "reachable demo_pool (build_pool, ps)" "list_all (\<lambda>p. \<forall>d. p \<noteq> Parked d) ps"
  shows "reachable demo_pool (build_pool\<lparr>live := 1, initialized := True\<rparr>, ps[i := Holding Grpc 0])"
proof -
  let ?s = "build_pool\<lparr>live := 1, init_in_progress := True\<rparr>"
  have "reachable demo_pool (build_pool, ps[i := Looking None])"
    using reachable_step [OF assms(3) step.get [OF assms(1,2)]] .
  then have "reachable demo_pool (?s, ps[i := Opening True])"
    using reachable_step [OF _ step.look_create [of i "ps[i := Looking None]" None demo_pool build_pool True ?s]] assms(1)
    by (simp add: demo_defs)
  then have "reachable demo_pool (?s, ps[i := FirstOpened Grpc])"
    using reachable_step [OF _ step.opened_first [of i "ps[i := Opening True]" demo_pool ?s Grpc]] assms(1) by simp
  then have "reachable demo_pool (first_opened ?s, ps[i := NotifyAll (Holding Grpc 0)])"
    using reachable_step [OF _ step.first_done [of i "ps[i := FirstOpened Grpc]" Grpc demo_pool ?s 0]] assms(1) by simp
  then have "reachable demo_pool (first_opened ?s, map wake (ps[i := Holding Grpc 0]))"
    using reachable_step [OF _ step.notify_all [of i "ps[i := NotifyAll (Holding Grpc 0)]" "Holding Grpc 0" demo_pool "first_opened ?s"]]
      assms(1) by simp
  moreover have "map wake (ps[i := Holding Grpc 0]) = ps[i := Holding Grpc 0]"
  proof (rule nth_equalityI)
    fix j assume j: "j < length (map wake (ps[i := Holding Grpc 0]))"
    have "wake p = p" if "\<And>d. p \<noteq> Parked d" for p using that by (cases p) auto
    then show "map wake (ps[i := Holding Grpc 0]) ! j = ps[i := Holding Grpc 0] ! j"
      using j assms(4) by (cases "i = j") (auto simp: list_all_length)
  qed simp
  ultimately show ?thesis by (simp add: demo_defs)
qed

lemma demo_two_holders:
  "reachable demo_pool (build_pool\<lparr>live := 2, initialized := True\<rparr>, [Holding Grpc 0, Holding Grpc 0, Outside])"
proof -
  let ?s1 = "build_pool\<lparr>live := 1, initialized := True\<rparr>"
  have s2: "build_pool\<lparr>initialized := True, live := 2\<rparr> = build_pool\<lparr>live := 2, initialized := True\<rparr>"
    by (simp add: build_pool_def)
  have "reachable demo_pool (build_pool, [Outside, Outside, Outside])"
    using reachable_init [of demo_pool 3] by (simp add: numeral_3_eq_3)
  then have "reachable demo_pool (?s1, [Holding Grpc 0, Outside, Outside])"
    using demo_first [of 0 "[Outside, Outside, Outside]"] by simp
  then have "reachable demo_pool (?s1, [Holding Grpc 0, Looking None, Outside])"
    using reachable_step [OF _ step.get [of 1 "[Holding Grpc 0, Outside, Outside]" demo_pool ?s1 None]] by simp
  then have "reachable demo_pool (?s1\<lparr>live := 2\<rparr>, [Holding Grpc 0, Opening False, Outside])"
    using reachable_step [OF _ step.look_create [of 1 "[Holding Grpc 0, Looking None, Outside]" None demo_pool ?s1 False "?s1\<lparr>live := 2\<rparr>"]]
    by (simp add: demo_defs)
  then show ?thesis
    using reachable_step [OF _ step.opened [of 1 "[Holding Grpc 0, Opening False, Outside]" demo_pool "?s1\<lparr>live := 2\<rparr>" Grpc 0]]
    by (simp add: s2)
qed

theorem pool_accounting_witness:
  "holders [Holding Grpc 0, Holding Grpc 0, Outside] + length (idle (build_pool\<lparr>live := 2, initialized := True\<rparr>)) \<le> max 1 (max_size demo_pool)"
  using pool_accounting [OF demo_two_holders] by blast

theorem no_wakeup_is_lost_witness:
  "reachable demo_pool (build_pool\<lparr>live := 2, initialized := True\<rparr>, [Holding Grpc 0, Holding Grpc 0, Parked None]) \<and>
   max_size demo_pool \<le> live (build_pool\<lparr>live := 2, initialized := True\<rparr>)"
proof -
  let ?s = "build_pool\<lparr>live := 2, initialized := True\<rparr>"
  have "reachable demo_pool (?s, [Holding Grpc 0, Holding Grpc 0, Looking None])"
    using reachable_step [OF demo_two_holders step.get [of 2 _ demo_pool ?s None]] by simp
  then have "reachable demo_pool (?s, [Holding Grpc 0, Holding Grpc 0, Waiting None])"
    using reachable_step [OF _ step.look_wait [of 2 "[Holding Grpc 0, Holding Grpc 0, Looking None]" None demo_pool ?s ?s]]
    by (simp add: demo_defs)
  then have r: "reachable demo_pool (?s, [Holding Grpc 0, Holding Grpc 0, Parked None])"
    using reachable_step [OF _ step.park [of 2 "[Holding Grpc 0, Holding Grpc 0, Waiting None]" None demo_pool ?s 0]]
    by (simp add: demo_defs may_proceed_def)
  with no_wakeup_is_lost [OF r, of None] show ?thesis
    by (simp add: holding_def)
qed

end
