(* ===== verification/Tls_Session.thy ===== *)
theory Tls_Session
  imports Client_Config Query_Streams
begin

text \<open>
  Opening and cancelling sessions: the negotiation of \<open>hyperdb-api-core/src/client/tls.rs\<close> and \<open>connect\<close>,
  \<open>connect_unix\<close>, \<open>connect_named_pipe\<close>, \<open>connect_endpoint\<close> and \<open>cancel\<close> of \<open>client.rs\<close>.

  A socket is a script: what each read returns, what each write accepts, the outcomes of setting its
  timeouts and the clock; what was sent is kept in order, each part marked by who wrote it, the
  program in clear or the TLS engine. The engine (\<open>rustls\<close>), the certificate files
  and the streams on top of a socket are arguments. A handshake loops until the engine is content, so it is a partial
  function: \<open>None\<close> is a loop that never ends.
\<close>

section \<open>The code\<close>

subsection \<open>Sockets\<close>

datatype io_kind = WouldBlock | TimedOut | EofKind | Interrupted | WriteZero | OtherKind

text \<open>An \<open>io::Error\<close>: its kind, its text, and the text of the \<open>rustls\<close> error it wraps.\<close>

record sock_error =
  err_kind :: io_kind
  err_text :: string
  err_tls :: "string option"

definition from_sock_io :: "sock_error \<Rightarrow> Error" where
  "from_sock_io e = (case err_tls e of Some t \<Rightarrow> TlsError t | None \<Rightarrow> IoError (err_text e))"

datatype sock_read = Got bytes | ReadFails sock_error

datatype sock_write = Takes nat | WriteFails sock_error

datatype wire_part = Clear bytes | Sealed bytes

record socket =
  to_read :: "sock_read list"
  to_write :: "sock_write list"
  set_outcomes :: "sock_error option list"
  clock :: "nat \<Rightarrow> nat"
  ticks :: nat
  last_instant :: nat
  on_wire :: "wire_part list"

definition now :: "socket \<Rightarrow> nat \<times> socket" where
  "now s = (clock s (ticks s), s\<lparr>ticks := Suc (ticks s)\<rparr>)"

text \<open>\<open>set_read_timeout\<close> and \<open>set_write_timeout\<close>.\<close>

definition set_timeout :: "socket \<Rightarrow> (sock_error + unit) \<times> socket" where
  "set_timeout s =
     (case set_outcomes s of
        Some e # r \<Rightarrow> (Inl e, s\<lparr>set_outcomes := r\<rparr>)
      | _ \<Rightarrow> (Inr (), s\<lparr>set_outcomes := tl (set_outcomes s)\<rparr>))"

text \<open>\<open>write_all\<close> tries again when interrupted and fails when nothing is accepted.\<close>

fun write_parts :: "sock_write list \<Rightarrow> bytes \<Rightarrow> (sock_error + unit) \<times> bytes \<times> sock_write list" where
  "write_parts ws [] = (Inr (), [], ws)"
| "write_parts [] bs = (Inr (), bs, [])"
| "write_parts (Takes n # ws) bs =
     (if n = 0 then (Inl \<lparr>err_kind = WriteZero, err_text = ''failed to write whole buffer'', err_tls = None\<rparr>, [], ws)
      else case write_parts ws (drop n bs) of (r, out, ws') \<Rightarrow> (r, take n bs @ out, ws'))"
| "write_parts (WriteFails e # ws) bs =
     (if err_kind e = Interrupted then write_parts ws bs else (Inl e, [], ws))"

definition write_clear :: "bytes \<Rightarrow> socket \<Rightarrow> (sock_error + unit) \<times> socket" where
  "write_clear bs s =
     (case write_parts (to_write s) bs of
        (r, out, ws) \<Rightarrow> (r, s\<lparr>to_write := ws, on_wire := on_wire s @ [Clear out]\<rparr>))"

text \<open>\<open>read_exact\<close> into one byte.\<close>

fun read_byte :: "sock_read list \<Rightarrow> (sock_error + u8) \<times> sock_read list" where
  "read_byte [] =
     (Inl \<lparr>err_kind = EofKind, err_text = ''failed to fill whole buffer'', err_tls = None\<rparr>, [])"
| "read_byte (Got [] # r) =
     (Inl \<lparr>err_kind = EofKind, err_text = ''failed to fill whole buffer'', err_tls = None\<rparr>, r)"
| "read_byte (Got (b # bs) # r) = (Inr b, if bs = [] then r else Got bs # r)"
| "read_byte (ReadFails e # r) = (if err_kind e = Interrupted then read_byte r else (Inl e, r))"

definition sock_read_byte :: "socket \<Rightarrow> (sock_error + u8) \<times> socket" where
  "sock_read_byte s = (case read_byte (to_read s) of (r, rest) \<Rightarrow> (r, s\<lparr>to_read := rest\<rparr>))"

subsection \<open>Addresses\<close>

text \<open>Whether \<open>Ipv6Addr\<close> parses a text: groups of up to four hexadecimal digits, one \<open>::\<close> for the zeros left
  out, an IPv4 address in place of the last two groups.\<close>

definition is_radix_digit :: "nat \<Rightarrow> char \<Rightarrow> bool" where
  "is_radix_digit radix c \<longleftrightarrow>
     (let n = of_char c :: nat
      in (48 \<le> n \<and> n \<le> 57) \<or> radix = 16 \<and> ((65 \<le> n \<and> n \<le> 70) \<or> (97 \<le> n \<and> n \<le> 102)))"

definition read_group :: "string \<Rightarrow> string option" where
  "read_group s =
     (let ds = takeWhile (is_radix_digit 16) s
      in if ds = [] \<or> length ds > 4 then None else Some (drop (length ds) s))"

definition read_octet :: "string \<Rightarrow> string option" where
  "read_octet s =
     (let ds = takeWhile (is_radix_digit 10) s
      in if ds = [] \<or> length ds > 3 \<or> hd ds = CHR ''0'' \<and> length ds > 1 \<or>
           (case parse_nat ds of Some n \<Rightarrow> n > 255 | None \<Rightarrow> True) then None
         else Some (drop (length ds) s))"

definition separated :: "char \<Rightarrow> bool \<Rightarrow> (string \<Rightarrow> string option) \<Rightarrow> string \<Rightarrow> string option" where
  "separated sep needed inner s =
     (if needed then (case s of c # r \<Rightarrow> if c = sep then inner r else None | [] \<Rightarrow> None) else inner s)"

definition read_ipv4 :: "string \<Rightarrow> string option" where
  "read_ipv4 s =
     do { s1 \<leftarrow> read_octet s;
          s2 \<leftarrow> separated CHR ''.'' True read_octet s1;
          s3 \<leftarrow> separated CHR ''.'' True read_octet s2;
          separated CHR ''.'' True read_octet s3 }"

text \<open>\<open>read_groups\<close> with \<open>k\<close> groups left and \<open>i\<close> read: how many it has, and whether they end in an IPv4
  address.\<close>

fun read_groups :: "nat \<Rightarrow> nat \<Rightarrow> string \<Rightarrow> nat \<times> bool \<times> string" where
  "read_groups 0 i s = (i, False, s)"
| "read_groups (Suc k) i s =
     (case (if k > 0 then separated CHR '':'' (i > 0) read_ipv4 s else None) of
        Some r \<Rightarrow> (i + 2, True, r)
      | None \<Rightarrow>
          (case separated CHR '':'' (i > 0) read_group s of
             Some r \<Rightarrow> read_groups k (i + 1) r
           | None \<Rightarrow> (i, False, s)))"

definition is_ipv6 :: "string \<Rightarrow> bool" where
  "is_ipv6 s =
     (case read_groups 8 0 s of (head_size, head_ipv4, r) \<Rightarrow>
        if head_size = 8 then r = []
        else if head_ipv4 then False
        else case strip_prefix ''::'' r of
          None \<Rightarrow> False
        | Some r' \<Rightarrow> (case read_groups (8 - (head_size + 1)) 0 r' of (_, _, rest) \<Rightarrow> rest = []))"

subsection \<open>The connector\<close>

text \<open>Certificates and keys are the bytes of their files' sections. What the libraries answer is an argument:
  the sections of a PEM file, whether a root certificate, a verifier, a client certificate or a server
  name is refused and why, and the bundled roots.\<close>

record tls_library =
  pem_certs :: "string \<Rightarrow> string + bytes list"
  pem_key :: "string \<Rightarrow> string + bytes"
  refuses_root :: "bytes \<Rightarrow> string option"
  refuses_verifier :: "bytes list \<Rightarrow> string option"
  refuses_protocols :: "string option"
  refuses_client :: "bytes list \<Rightarrow> bytes \<Rightarrow> string option"
  refuses_name :: "string \<Rightarrow> string option"
  bundled_roots :: "bytes list"

text \<open>\<open>WebPki\<close> is the verifier of \<open>rustls\<close> that checks chain and name.\<close>

datatype Verifier = NoVerify | ChainOnly "bytes list" | WebPki "bytes list"

record TlsConnector =
  verifier :: Verifier
  client_auth :: "(bytes list \<times> bytes) option"
  connector_name :: string

definition load_certs :: "tls_library \<Rightarrow> string \<Rightarrow> string \<Rightarrow> Error + bytes list" where
  "load_certs lib path what =
     (case pem_certs lib path of
        Inl e \<Rightarrow> Inl (ConfigError (''cannot read '' @ what @ '' `'' @ path @ ''`: '' @ e))
      | Inr certs \<Rightarrow>
          if certs = [] then Inl (ConfigError (what @ '' `'' @ path @ ''` contains no PEM certificate''))
          else Inr certs)"

fun add_roots :: "tls_library \<Rightarrow> string \<Rightarrow> bytes list \<Rightarrow> bytes list \<Rightarrow> Error + bytes list" where
  "add_roots lib path roots [] = Inr roots"
| "add_roots lib path roots (c # cs) =
     (case refuses_root lib c of
        Some e \<Rightarrow> Inl (ConfigError (''invalid root certificate in `'' @ path @ ''`: '' @ e))
      | None \<Rightarrow> add_roots lib path (roots @ [c]) cs)"

definition load_roots :: "tls_library \<Rightarrow> string \<Rightarrow> Error + bytes list" where
  "load_roots lib path = try_bind (load_certs lib path ''root certificate'') (add_roots lib path [])"

definition load_key :: "tls_library \<Rightarrow> string \<Rightarrow> Error + bytes" where
  "load_key lib path =
     (case pem_key lib path of
        Inl e \<Rightarrow> Inl (ConfigError (''cannot read client key `'' @ path @ ''`: '' @ e))
      | Inr k \<Rightarrow> Inr k)"

definition choose_verifier :: "tls_library \<Rightarrow> TlsMode \<Rightarrow> bytes list option \<Rightarrow> Error + Verifier" where
  "choose_verifier lib m roots =
     (case (m, roots) of
        (VerifyCa, None) \<Rightarrow>
          Inl (ConfigError ''TlsMode::VerifyCa needs a root certificate; set TlsConfig::root_cert'')
      | (VerifyFull, _) \<Rightarrow>
          (let rs = (case roots of Some rs \<Rightarrow> rs | None \<Rightarrow> bundled_roots lib)
           in case refuses_verifier lib rs of
                Some e \<Rightarrow> Inl (ConfigError (''cannot build TLS verifier: '' @ e))
              | None \<Rightarrow> Inr (WebPki rs))
      | (_, None) \<Rightarrow> Inr NoVerify
      | (_, Some rs) \<Rightarrow> Inr (ChainOnly rs))"

definition strip_zone :: "string \<Rightarrow> string" where
  "strip_zone host =
     (case split_once CHR ''%'' host of
        Some (address, _) \<Rightarrow> if is_ipv6 address then address else host
      | None \<Rightarrow> host)"

definition strip_brackets :: "string \<Rightarrow> string" where
  "strip_brackets host =
     (case strip_prefix ''['' host of
        Some inner \<Rightarrow> if ends_with inner '']'' then butlast inner else host
      | None \<Rightarrow> host)"

definition host_name :: "string \<Rightarrow> string" where
  "host_name host = strip_zone (strip_brackets host)"

definition load_client_auth :: "tls_library \<Rightarrow> (string \<times> string) option \<Rightarrow> Error + (bytes list \<times> bytes) option" where
  "load_client_auth lib files =
     (case files of
        None \<Rightarrow> Inr None
      | Some (cert_path, key_path) \<Rightarrow>
          try_bind (load_certs lib cert_path ''client certificate'') (\<lambda>certs.
          try_bind (load_key lib key_path) (\<lambda>key.
            case refuses_client lib certs key of
              Some e \<Rightarrow> Inl (ConfigError (''invalid client certificate or key: '' @ e))
            | None \<Rightarrow> Inr (Some (certs, key)))))"

definition TlsConnector_build :: "tls_library \<Rightarrow> TlsConfig \<Rightarrow> string \<Rightarrow> Error + TlsConnector option" where
  "TlsConnector_build lib tls host =
     (if mode tls = Disable then Inr None
      else
        try_bind (case root_cert tls of
            None \<Rightarrow> Inr None
          | Some path \<Rightarrow> try_bind (load_roots lib path) (\<lambda>roots. Inr (Some roots))) (\<lambda>roots.
        try_bind (choose_verifier lib (mode tls) roots) (\<lambda>v.
        try_bind (case refuses_protocols lib of
            Some e \<Rightarrow> Inl (ConfigError (''TLS protocol configuration: '' @ e)) | None \<Rightarrow> Inr ()) (\<lambda>_.
        try_bind (load_client_auth lib (client_cert tls)) (\<lambda>auth.
          let name = (case server_name tls of Some n \<Rightarrow> n | None \<Rightarrow> host_name host)
          in case refuses_name lib name of
               Some e \<Rightarrow> Inl (ConfigError (''invalid TLS server name `'' @ name @ ''`: '' @ e))
             | None \<Rightarrow> Inr (Some \<lparr>verifier = v, client_auth = auth, connector_name = name\<rparr>))))))"

text \<open>The verdict of the verifiers on a server certificate: \<open>chain\<close> is the check of \<open>rustls\<close> against trust
  anchors and \<open>webpki\<close> its full verifier, both with the certificate's own errors.\<close>

fun verify_server_cert ::
  "(bytes list \<Rightarrow> bytes \<Rightarrow> string + unit) \<Rightarrow> (bytes list \<Rightarrow> bytes \<Rightarrow> string \<Rightarrow> string + unit)
     \<Rightarrow> (bytes \<Rightarrow> string + unit) \<Rightarrow> Verifier \<Rightarrow> bytes \<Rightarrow> string \<Rightarrow> string + unit" where
  "verify_server_cert chain webpki parsed NoVerify cert name = Inr ()"
| "verify_server_cert chain webpki parsed (ChainOnly roots) cert name =
     try_bind (parsed cert) (\<lambda>_. try_bind (chain roots cert) (\<lambda>_. Inr ()))"
| "verify_server_cert chain webpki parsed (WebPki roots) cert name = webpki roots cert name"

datatype Fallback = AllowPlaintext | Deny

definition for_mode :: "TlsMode \<Rightarrow> Fallback" where
  "for_mode m = (if m = Prefer then AllowPlaintext else Deny)"

definition reject_on_ipc :: "TlsConfig \<Rightarrow> Error + unit" where
  "reject_on_ipc tls =
     (case mode tls of
        Disable \<Rightarrow> Inr ()
      | Prefer \<Rightarrow> Inr ()
      | m \<Rightarrow> Inl (FeatureNotSupportedError
          (''TLS mode '' @ TlsMode_as_str m @ '' is only available over TCP; use a host:port endpoint'')))"

subsection \<open>The negotiation\<close>

text \<open>\<open>{:?}\<close> of a duration: the largest unit not above it, with the decimals that are not zero.\<close>

definition fmt_decimal :: "nat \<Rightarrow> nat \<Rightarrow> nat \<Rightarrow> string \<Rightarrow> string" where
  "fmt_decimal whole frac digits unit' =
     (let ds = rev (dropWhile (\<lambda>c. c = CHR ''0'') (rev (pad_zeros digits (show_nat frac))))
      in show_nat whole @ (if ds = [] then [] else ''.'' @ ds) @ unit')"

definition duration_debug :: "nat \<Rightarrow> string" where
  "duration_debug d =
     (if d \<ge> 10 ^ 9 then fmt_decimal (d div 10 ^ 9) (d mod 10 ^ 9) 9 ''s''
      else if d \<ge> 10 ^ 6 then fmt_decimal (d div 10 ^ 6) (d mod 10 ^ 6) 6 ''ms''
      else if d \<ge> 10 ^ 3 then fmt_decimal (d div 10 ^ 3) (d mod 10 ^ 3) 3 [CHR 0xC2, CHR 0xB5, CHR ''s'']
      else show_nat d @ ''ns'')"

definition timed_out_error :: "nat option \<Rightarrow> Error" where
  "timed_out_error timeout =
     (case timeout of
        Some limit \<Rightarrow> TimeoutError (''TLS negotiation timed out after '' @ duration_debug limit)
      | None \<Rightarrow> TimeoutError ''TLS negotiation timed out'')"

definition NO_TLS_MESSAGE :: string where
  "NO_TLS_MESSAGE = ''server does not support TLS (answered '' @ [CHR 0x27] @ ''N'' @ [CHR 0x27] @ '' to SSLRequest)''"

definition EARLY_CLOSE_MESSAGE :: string where
  "EARLY_CLOSE_MESSAGE = ''server closed the connection during TLS negotiation''"

definition negotiation_error :: "sock_error \<Rightarrow> nat option \<Rightarrow> Error" where
  "negotiation_error e timeout =
     (if err_kind e = WouldBlock \<or> err_kind e = TimedOut then timed_out_error timeout
      else if err_kind e = EofKind \<and> err_tls e = None then IoError EARLY_CLOSE_MESSAGE
      else from_sock_io e)"

definition arm :: "nat option \<Rightarrow> nat option \<Rightarrow> socket \<Rightarrow> (Error + unit) \<times> socket" where
  "arm deadline timeout s =
     (case deadline of
        None \<Rightarrow> (Inr (), s)
      | Some d \<Rightarrow>
          (case now s of (t, s1) \<Rightarrow>
             if d - t = 0 then (Inl (timed_out_error timeout), s1)
             else case set_timeout s1 of
                 (Inl e, s2) \<Rightarrow> (Inl (from_sock_io e), s2)
               | (Inr _, s2) \<Rightarrow>
                   (case set_timeout s2 of
                      (Inl e, s3) \<Rightarrow> (Inl (from_sock_io e), s3)
                    | (Inr _, s3) \<Rightarrow> (Inr (), s3))))"

definition clear_timeouts :: "socket \<Rightarrow> (Error + unit) \<times> socket" where
  "clear_timeouts s =
     (case set_timeout s of
        (Inl e, s1) \<Rightarrow> (Inl (from_sock_io e), s1)
      | (Inr _, s1) \<Rightarrow>
          (case set_timeout s1 of
             (Inl e, s2) \<Rightarrow> (Inl (from_sock_io e), s2)
           | (Inr _, s2) \<Rightarrow> (Inr (), s2)))"

text \<open>What the client side of \<open>rustls\<close> offers. \<open>tls_output\<close> is what \<open>write_tls\<close> hands to the socket, \<open>wrote\<close> the
  engine after the socket took so many bytes of it; \<open>full\<close> is the error of \<open>read_tls\<close> when its buffer is
  full; \<open>send_app\<close> is \<open>write_all\<close> and \<open>flush\<close> of a \<open>StreamOwned\<close>, with the error of either.\<close>

record 'c engine =
  new_session :: "TlsConnector \<Rightarrow> string + 'c"
  is_handshaking :: "'c \<Rightarrow> bool"
  wants_write :: "'c \<Rightarrow> bool"
  tls_output :: "'c \<Rightarrow> bytes"
  wrote :: "nat \<Rightarrow> 'c \<Rightarrow> 'c"
  full :: "'c \<Rightarrow> sock_error option"
  received :: "bytes \<Rightarrow> 'c \<Rightarrow> 'c"
  process_new_packets :: "'c \<Rightarrow> string option \<times> 'c"
  send_app :: "bytes \<Rightarrow> 'c \<Rightarrow> socket \<Rightarrow> (sock_error + unit) \<times> 'c \<times> socket"
  send_close_notify :: "'c \<Rightarrow> 'c"

definition write_tls :: "'c engine \<Rightarrow> 'c \<Rightarrow> socket \<Rightarrow> (sock_error + unit) \<times> 'c \<times> socket" where
  "write_tls en c s =
     (case to_write s of
        WriteFails e # ws \<Rightarrow> (Inl e, c, s\<lparr>to_write := ws\<rparr>)
      | ws \<Rightarrow>
          (let n = (case ws of Takes k # _ \<Rightarrow> min k (length (tls_output en c)) | _ \<Rightarrow> length (tls_output en c))
           in (Inr (), wrote en n c,
               s\<lparr>to_write := tl ws, on_wire := on_wire s @ [Sealed (take n (tls_output en c))]\<rparr>)))"

definition read_tls :: "'c engine \<Rightarrow> 'c \<Rightarrow> socket \<Rightarrow> (sock_error + nat) \<times> 'c \<times> socket" where
  "read_tls en c s =
     (case full en c of
        Some e \<Rightarrow> (Inl e, c, s)
      | None \<Rightarrow>
          (case to_read s of
             [] \<Rightarrow> (Inr 0, c, s)
           | ReadFails e # r \<Rightarrow> (Inl e, c, s\<lparr>to_read := r\<rparr>)
           | Got bs # r \<Rightarrow> (Inr (length bs), received en bs c, s\<lparr>to_read := r\<rparr>)))"

partial_function (option) handshake ::
  "'c engine \<Rightarrow> nat option \<Rightarrow> nat option \<Rightarrow> 'c \<Rightarrow> socket \<Rightarrow> ((Error + 'c) \<times> socket) option" where
  "handshake en deadline timeout c s =
     (if is_handshaking en c \<or> wants_write en c then
        (case arm deadline timeout s of
           (Inl e, s) \<Rightarrow> Some (Inl e, s)
         | (Inr _, s) \<Rightarrow>
             if wants_write en c then
               (case write_tls en c s of
                  (Inr _, c, s) \<Rightarrow> handshake en deadline timeout c s
                | (Inl e, c, s) \<Rightarrow>
                    if err_kind e = Interrupted then handshake en deadline timeout c s
                    else Some (Inl (negotiation_error e timeout), s))
             else
               (case read_tls en c s of
                  (Inl e, c, s) \<Rightarrow>
                    if err_kind e = Interrupted then handshake en deadline timeout c s
                    else Some (Inl (negotiation_error e timeout), s)
                | (Inr n, c, s) \<Rightarrow>
                    if n = 0 then Some (Inl (IoError EARLY_CLOSE_MESSAGE), s)
                    else
                      (case process_new_packets en c of
                         (Some e, c) \<Rightarrow> Some (Inl (TlsError e), snd (snd (write_tls en c s)))
                       | (None, c) \<Rightarrow> handshake en deadline timeout c s)))
      else Some (Inr c, s))"

datatype 'c Negotiated = NegotiatedPlain | NegotiatedTls 'c

text \<open>\<open>{:?}\<close> of the character with the byte's code.\<close>

definition hex_digit :: "nat \<Rightarrow> char" where
  "hex_digit n = char_of (if n < 10 then 48 + n else 87 + n)"

definition char_debug :: "u8 \<Rightarrow> string" where
  "char_debug b =
     (let n = unat b;
          shown =
            (if n = 0 then [CHR 0x5C, CHR ''0'']
             else if n = 9 then [CHR 0x5C, CHR ''t'']
             else if n = 10 then [CHR 0x5C, CHR ''n'']
             else if n = 13 then [CHR 0x5C, CHR ''r'']
             else if n = 0x27 \<or> n = 0x5C then [CHR 0x5C, char_of n]
             else if n < 0x20 \<or> (0x7F \<le> n \<and> n \<le> 0xA0) \<or> n = 0xAD then
               [CHR 0x5C] @ ''u{'' @ (if n < 16 then [] else [hex_digit (n div 16)]) @ [hex_digit (n mod 16)] @ ''}''
             else if n < 0x80 then [char_of n]
             else [char_of (0xC0 + n div 64), char_of (0x80 + n mod 64)])
      in [CHR 0x27] @ shown @ [CHR 0x27])"

definition unexpected_reply :: "u8 \<Rightarrow> Error" where
  "unexpected_reply b =
     ProtocolError (''unexpected response to SSLRequest: '' @ char_debug b @ '' (expected '' @ [CHR 0x27] @ ''S'' @ [CHR 0x27]
       @ '' or '' @ [CHR 0x27] @ ''N'' @ [CHR 0x27] @ '')'')"

definition negotiate_sync ::
  "'c engine \<Rightarrow> TlsConnector \<Rightarrow> Fallback \<Rightarrow> nat option \<Rightarrow> socket \<Rightarrow> ((Error + 'c Negotiated) \<times> socket) option" where
  "negotiate_sync en connector fallback timeout s =
     (let (deadline, s) =
            (case timeout of
               None \<Rightarrow> (None, s)
             | Some limit \<Rightarrow>
                 (case now s of (t, s1) \<Rightarrow> (if t + limit \<le> last_instant s1 then Some (t + limit) else None, s1)))
      in case arm deadline timeout s of
           (Inl e, s) \<Rightarrow> Some (Inl e, s)
         | (Inr _, s) \<Rightarrow>
      (case write_clear (ssl_request []) s of
         (Inl e, s) \<Rightarrow> Some (Inl (negotiation_error e timeout), s)
       | (Inr _, s) \<Rightarrow>
      (case arm deadline timeout s of
         (Inl e, s) \<Rightarrow> Some (Inl e, s)
       | (Inr _, s) \<Rightarrow>
      (case sock_read_byte s of
         (Inl e, s) \<Rightarrow> Some (Inl (negotiation_error e timeout), s)
       | (Inr reply, s) \<Rightarrow>
           if reply = byte_of CHR ''S'' then
             (case new_session en connector of
                Inl e \<Rightarrow> Some (Inl (TlsError e), s)
              | Inr c \<Rightarrow>
                  (case handshake en deadline timeout c s of
                     None \<Rightarrow> None
                   | Some (Inl e, s) \<Rightarrow> Some (Inl e, s)
                   | Some (Inr c, s) \<Rightarrow>
                       (case clear_timeouts s of
                          (Inl e, s) \<Rightarrow> Some (Inl e, s)
                        | (Inr _, s) \<Rightarrow> Some (Inr (NegotiatedTls c), s))))
           else if reply = byte_of CHR ''N'' then
             (case fallback of
                AllowPlaintext \<Rightarrow>
                  (case clear_timeouts s of
                     (Inl e, s) \<Rightarrow> Some (Inl e, s)
                   | (Inr _, s) \<Rightarrow> Some (Inr NegotiatedPlain, s))
              | Deny \<Rightarrow> Some (Inl (TlsError NO_TLS_MESSAGE), s))
           else Some (Inl (unexpected_reply reply), s)))))"

subsection \<open>Opening and cancelling\<close>

text \<open>What the network answers: a TCP address, a Unix socket path or a pipe path gives a connected socket
  or an error; a socket read and written in clear, or through the engine, is a byte stream.\<close>

record 'c network =
  tcp_net :: "string \<Rightarrow> sock_error + socket"
  unix_net :: "string \<Rightarrow> sock_error + socket"
  pipe_net :: "string \<Rightarrow> sock_error + socket"
  plain_stream :: "socket \<Rightarrow> io_stream"
  tls_stream :: "'c \<Rightarrow> socket \<Rightarrow> io_stream"

record Session =
  session_connection :: RawConnection
  session_process_id :: i32
  session_secret_key :: i32
  session_endpoint :: ConnectionEndpoint
  session_tls :: "TlsConnector option"

text \<open>\<open>connect\<close> up to the stream, with the socket for what was sent on it.\<close>

definition connect_stream ::
  "tls_library \<Rightarrow> 'c engine \<Rightarrow> 'c network \<Rightarrow> Config \<Rightarrow>
     ((Error + io_stream \<times> TlsConnector option) \<times> socket option) option" where
  "connect_stream lib en net config =
     (case TlsConnector_build lib (cfg_tls config) (cfg_host config) of
        Inl e \<Rightarrow> Some (Inl e, None)
      | Inr connector \<Rightarrow>
          (let addr = cfg_host config @ '':'' @ show_nat (unat (cfg_port config))
           in case tcp_net net addr of
                Inl e \<Rightarrow> Some (Inl (connection_error (''failed to connect to '' @ addr @ '': '' @ err_text e)), None)
              | Inr s \<Rightarrow>
                  (case connector of
                     None \<Rightarrow> Some (Inr (plain_stream net s, None), Some s)
                   | Some c \<Rightarrow>
                       (let timeout = (case connect_timeout config of
                            Some t \<Rightarrow> if t = 0 then None else Some t | None \<Rightarrow> None)
                        in case negotiate_sync en c (for_mode (mode (cfg_tls config))) timeout s of
                             None \<Rightarrow> None
                           | Some (Inl e, s) \<Rightarrow> Some (Inl e, Some s)
                           | Some (Inr NegotiatedPlain, s) \<Rightarrow> Some (Inr (plain_stream net s, None), Some s)
                           | Some (Inr (NegotiatedTls t), s) \<Rightarrow> Some (Inr (tls_stream net t s, Some c), Some s)))))"

definition connect ::
  "crypto \<Rightarrow> (nat \<Rightarrow> bytes) \<Rightarrow> tls_library \<Rightarrow> 'c engine \<Rightarrow> 'c network \<Rightarrow> Config \<Rightarrow> Session reply" where
  "connect k rnd lib en net config =
     (case connect_stream lib en net config of
        None \<Rightarrow> Blocks
      | Some (Inl e, _) \<Rightarrow> Returns (Inl e)
      | Some (Inr (stream, tls), _) \<Rightarrow>
          (case startup k rnd (startup_params config) (cfg_password config) (RawConnection_new stream) of
             None \<Rightarrow> Panics
           | Some (Inl e, _) \<Rightarrow> Returns (Inl e)
           | Some (Inr _, c) \<Rightarrow>
               Returns (Inr \<lparr>session_connection = c, session_process_id = process_id c,
                 session_secret_key = secret_key c,
                 session_endpoint = TcpEndpoint (cfg_host config) (cfg_port config), session_tls = tls\<rparr>)))"

definition CANCEL_TLS_TIMEOUT :: nat where
  "CANCEL_TLS_TIMEOUT = 10 * 10 ^ 9"

definition CANCEL_DRAIN_TIMEOUT :: nat where
  "CANCEL_DRAIN_TIMEOUT = 10 ^ 9"

function drain_loop :: "nat \<Rightarrow> socket \<Rightarrow> socket" where
  "drain_loop deadline s =
     (case now s of (t, s) \<Rightarrow>
        if deadline - t = 0 then s
        else case set_timeout s of
            (Inl _, s) \<Rightarrow> s
          | (Inr _, s) \<Rightarrow>
              (case to_read s of
                 [] \<Rightarrow> s
               | ReadFails _ # r \<Rightarrow> s\<lparr>to_read := r\<rparr>
               | Got bs # r \<Rightarrow> if bs = [] then s\<lparr>to_read := r\<rparr> else drain_loop deadline (s\<lparr>to_read := r\<rparr>)))"
  by pat_completeness auto
termination
  by (relation "measure (\<lambda>(_, s). length (to_read s))")
    (auto simp: now_def set_timeout_def split: list.splits option.splits)

declare drain_loop.simps [simp del]

definition drain_sync :: "socket \<Rightarrow> socket" where
  "drain_sync s = (case now s of (t, s) \<Rightarrow> drain_loop (t + CANCEL_DRAIN_TIMEOUT) s)"

text \<open>The loop that sends \<open>close_notify\<close>.\<close>

partial_function (option) close_loop :: "'c engine \<Rightarrow> 'c \<Rightarrow> socket \<Rightarrow> socket option" where
  "close_loop en c s =
     (if wants_write en c then
        (case write_tls en c s of
           (Inl _, _, s) \<Rightarrow> Some s
         | (Inr _, c, s) \<Rightarrow> close_loop en c s)
      else Some s)"

definition send_cancel_sync ::
  "'c engine \<Rightarrow> 'c network \<Rightarrow> string \<Rightarrow> i32 \<Rightarrow> i32 \<Rightarrow> TlsConnector option \<Rightarrow> ((Error + unit) \<times> socket option) option" where
  "send_cancel_sync en net addr pid key tls =
     (case tcp_net net addr of
        Inl e \<Rightarrow> Some (Inl (connection_error (''failed to connect for cancel request to '' @ addr @ '': '' @ err_text e)), None)
      | Inr s \<Rightarrow>
          (let buf = cancel_request pid key []
           in case tls of
                None \<Rightarrow>
                  (case write_clear buf s of
                     (Inl e, s) \<Rightarrow> Some (Inl (from_sock_io e), Some s)
                   | (Inr _, s) \<Rightarrow> Some (Inr (), Some (drain_sync s)))
              | Some connector \<Rightarrow>
                  (case negotiate_sync en connector Deny (Some CANCEL_TLS_TIMEOUT) s of
                     None \<Rightarrow> None
                   | Some (Inl e, s) \<Rightarrow> Some (Inl e, Some s)
                   | Some (Inr NegotiatedPlain, s) \<Rightarrow> Some (Inl (TlsError NO_TLS_MESSAGE), Some s)
                   | Some (Inr (NegotiatedTls c), s) \<Rightarrow>
                       (case set_timeout s of
                          (Inl e, s) \<Rightarrow> Some (Inl (from_sock_io e), Some s)
                        | (Inr _, s) \<Rightarrow>
                            (case send_app en buf c s of
                               (Inl e, _, s) \<Rightarrow> Some (Inl (from_sock_io e), Some s)
                             | (Inr _, c, s) \<Rightarrow>
                                 (case close_loop en (send_close_notify en c) s of
                                    None \<Rightarrow> None
                                  | Some s \<Rightarrow> Some (Inr (), Some (drain_sync s))))))))"

definition cancel_in_clear ::
  "(string \<Rightarrow> sock_error + socket) \<Rightarrow> (socket \<Rightarrow> socket) \<Rightarrow> string \<Rightarrow> Session \<Rightarrow> ((Error + unit) \<times> socket option) option" where
  "cancel_in_clear open' wait path sess =
     (case open' path of
        Inl e \<Rightarrow> Some (Inl (connection_error (''failed to connect for cancel request to ''
          @ ConnectionEndpoint_fmt (session_endpoint sess) @ '': '' @ err_text e)), None)
      | Inr s \<Rightarrow>
          (case write_clear (cancel_request (session_process_id sess) (session_secret_key sess) []) s of
             (Inl e, s) \<Rightarrow> Some (Inl (from_sock_io e), Some s)
           | (Inr _, s) \<Rightarrow> Some (Inr (), Some (wait s))))"

definition Client_cancel :: "'c engine \<Rightarrow> 'c network \<Rightarrow> Session \<Rightarrow> ((Error + unit) \<times> socket option) option" where
  "Client_cancel en net sess =
     (case session_endpoint sess of
        TcpEndpoint host port \<Rightarrow>
          send_cancel_sync en net (host @ '':'' @ show_nat (unat port)) (session_process_id sess)
            (session_secret_key sess) (session_tls sess)
      | DomainSocket directory name \<Rightarrow> cancel_in_clear (unix_net net) drain_sync (path_join directory name) sess
      | NamedPipe host name \<Rightarrow>
          cancel_in_clear (pipe_net net) id
            ([CHR 0x5C, CHR 0x5C] @ host @ [CHR 0x5C] @ ''pipe'' @ [CHR 0x5C] @ name) sess)"

section \<open>What is sent in clear\<close>

fun clear_bytes :: "wire_part list \<Rightarrow> bytes" where
  "clear_bytes [] = []"
| "clear_bytes (Clear bs # ps) = bs @ clear_bytes ps"
| "clear_bytes (Sealed bs # ps) = clear_bytes ps"

definition in_clear :: "socket \<Rightarrow> bytes" where
  "in_clear s = clear_bytes (on_wire s)"

lemma clear_bytes_append [simp]: "clear_bytes (xs @ ys) = clear_bytes xs @ clear_bytes ys"
  by (induction xs rule: clear_bytes.induct) auto

lemma now_clear: "now s = (t, s') \<Longrightarrow> in_clear s' = in_clear s"
  by (auto simp: now_def in_clear_def)

lemma set_timeout_clear: "set_timeout s = (r, s') \<Longrightarrow> in_clear s' = in_clear s"
  by (auto simp: set_timeout_def in_clear_def split: list.splits option.splits)

lemma arm_clear: "arm d t s = (r, s') \<Longrightarrow> in_clear s' = in_clear s"
  unfolding arm_def by (auto split: option.splits prod.splits if_splits sum.splits dest!: now_clear set_timeout_clear)

lemma clear_timeouts_clear: "clear_timeouts s = (r, s') \<Longrightarrow> in_clear s' = in_clear s"
  unfolding clear_timeouts_def by (auto split: prod.splits sum.splits dest!: set_timeout_clear)

lemma read_byte_clear: "sock_read_byte s = (r, s') \<Longrightarrow> in_clear s' = in_clear s"
  by (auto simp: sock_read_byte_def in_clear_def split: prod.splits)

lemma write_tls_clear: "write_tls en c s = (r, c', s') \<Longrightarrow> in_clear s' = in_clear s"
  by (auto simp: write_tls_def in_clear_def Let_def split: list.splits sock_write.splits)

lemma read_tls_clear: "read_tls en c s = (r, c', s') \<Longrightarrow> in_clear s' = in_clear s"
  by (auto simp: read_tls_def in_clear_def split: list.splits sock_read.splits option.splits)

lemma handshake_clear: "handshake en d t c s = Some y \<Longrightarrow> in_clear (snd y) = in_clear s"
proof (rule handshake.raw_induct [where P = "\<lambda>en d t c s y. in_clear (snd y) = in_clear s"], goal_cases)
  case (1 h en d t c s y)
  have IH: "h en d t c1 s1 = Some y \<Longrightarrow> in_clear s1 = in_clear s \<Longrightarrow> in_clear (snd y) = in_clear s" for c1 s1
    using 1(2) by simp
  obtain a s1 where arm: "arm d t s = (a, s1)" by (cases "arm d t s")
  obtain w c2 s2 where wr: "write_tls en c s1 = (w, c2, s2)" by (cases "write_tls en c s1")
  obtain r c3 s3 where rd: "read_tls en c s1 = (r, c3, s3)" by (cases "read_tls en c s1")
  obtain e c4 where proc: "process_new_packets en c3 = (e, c4)" by (cases "process_new_packets en c3")
  obtain w' c5 s5 where alert: "write_tls en c4 s3 = (w', c5, s5)" by (cases "write_tls en c4 s3")
  have "in_clear s1 = in_clear s" "in_clear s2 = in_clear s" "in_clear s3 = in_clear s" "in_clear s5 = in_clear s"
    using arm_clear [OF arm] write_tls_clear [OF wr] read_tls_clear [OF rd] write_tls_clear [OF alert] by simp_all
  then show ?case
    using 1(3) arm wr rd proc alert IH by (auto split: sum.splits if_splits option.splits)
qed

text \<open>\<open>write_all\<close> sends the front of its argument, and all of it when it succeeds.\<close>

lemma write_parts_front:
  "write_parts ws bs = (r, out, ws') \<Longrightarrow> (\<exists>n. out = take n bs) \<and> (r = Inr () \<longrightarrow> out = bs)"
proof (induction ws bs arbitrary: r out ws' rule: write_parts.induct)
  case (3 n ws b bs)
  show ?case
  proof (cases "n = 0")
    case True
    with "3.prems" show ?thesis by (auto intro: exI [of _ 0])
  next
    case False
    obtain r' out' ws'' where rest: "write_parts ws (drop n (b # bs)) = (r', out', ws'')"
      using prod_cases3 by blast
    then obtain m where m: "out' = take m (drop n (b # bs))" "r' = Inr () \<longrightarrow> out' = drop n (b # bs)"
      using "3.IH" [OF False] by blast
    have out: "r = r'" "out = take n (b # bs) @ out'" "ws' = ws''"
      using "3.prems" False rest by auto
    have "out = take (n + m) (b # bs)"
      unfolding out m(1) by (simp add: take_add)
    moreover have "r = Inr () \<longrightarrow> out = b # bs"
      unfolding out using m(2) by simp
    ultimately show ?thesis by blast
  qed
next
  case (4 e ws b bs)
  then show ?case by (auto split: if_splits intro: exI [of _ 0])
next
  case (2 b bs)
  then show ?case by (auto intro: exI [of _ "length (b # bs)"])
qed simp

lemma write_clear_front:
  assumes "write_clear bs s = (r, s')"
  shows "\<exists>n. in_clear s' = in_clear s @ take n bs" "r = Inr () \<Longrightarrow> in_clear s' = in_clear s @ bs"
    "to_read s' = to_read s"
  using assms write_parts_front by (fastforce simp: write_clear_def in_clear_def split: prod.splits)+

lemma now_reads: "now s = (t, s') \<Longrightarrow> to_read s' = to_read s"
  by (auto simp: now_def)

lemma set_timeout_reads: "set_timeout s = (r, s') \<Longrightarrow> to_read s' = to_read s"
  by (auto simp: set_timeout_def split: list.splits option.splits)

lemma arm_reads: "arm d t s = (r, s') \<Longrightarrow> to_read s' = to_read s"
  unfolding arm_def by (auto split: option.splits prod.splits if_splits sum.splits dest!: now_reads set_timeout_reads)

text \<open>The first byte the server answers, through interrupted reads.\<close>

definition answer :: "socket \<Rightarrow> u8 option" where
  "answer s = (case fst (read_byte (to_read s)) of Inr b \<Rightarrow> Some b | Inl _ \<Rightarrow> None)"

definition start_deadline :: "nat option \<Rightarrow> socket \<Rightarrow> nat option \<times> socket" where
  "start_deadline timeout s =
     (case timeout of
        None \<Rightarrow> (None, s)
      | Some limit \<Rightarrow>
          (case now s of (t, s1) \<Rightarrow> (if t + limit \<le> last_instant s1 then Some (t + limit) else None, s1)))"

lemma start_deadline_keeps: "start_deadline t s = (d, s') \<Longrightarrow> in_clear s' = in_clear s \<and> to_read s' = to_read s"
  by (auto simp: start_deadline_def dest: now_clear now_reads split: option.splits prod.splits)

text \<open>The negotiation after the answer has been read.\<close>

definition after_answer ::
  "'c engine \<Rightarrow> TlsConnector \<Rightarrow> Fallback \<Rightarrow> nat option \<Rightarrow> nat option \<Rightarrow> u8 \<Rightarrow> socket \<Rightarrow> ((Error + 'c Negotiated) \<times> socket) option" where
  "after_answer en connector fallback deadline timeout reply s =
     (if reply = byte_of CHR ''S'' then
        (case new_session en connector of
           Inl e \<Rightarrow> Some (Inl (TlsError e), s)
         | Inr c \<Rightarrow>
             (case handshake en deadline timeout c s of
                None \<Rightarrow> None
              | Some (Inl e, s) \<Rightarrow> Some (Inl e, s)
              | Some (Inr c, s) \<Rightarrow>
                  (case clear_timeouts s of
                     (Inl e, s) \<Rightarrow> Some (Inl e, s)
                   | (Inr _, s) \<Rightarrow> Some (Inr (NegotiatedTls c), s))))
      else if reply = byte_of CHR ''N'' then
        (case fallback of
           AllowPlaintext \<Rightarrow>
             (case clear_timeouts s of
                (Inl e, s) \<Rightarrow> Some (Inl e, s)
              | (Inr _, s) \<Rightarrow> Some (Inr NegotiatedPlain, s))
         | Deny \<Rightarrow> Some (Inl (TlsError NO_TLS_MESSAGE), s))
      else Some (Inl (unexpected_reply reply), s))"

lemma negotiate_sync_stages:
  "negotiate_sync en connector fallback timeout s =
     (case start_deadline timeout s of (deadline, s) \<Rightarrow>
      case arm deadline timeout s of
         (Inl e, s) \<Rightarrow> Some (Inl e, s)
       | (Inr _, s) \<Rightarrow>
      (case write_clear (ssl_request []) s of
         (Inl e, s) \<Rightarrow> Some (Inl (negotiation_error e timeout), s)
       | (Inr _, s) \<Rightarrow>
      (case arm deadline timeout s of
         (Inl e, s) \<Rightarrow> Some (Inl e, s)
       | (Inr _, s) \<Rightarrow>
      (case sock_read_byte s of
         (Inl e, s) \<Rightarrow> Some (Inl (negotiation_error e timeout), s)
       | (Inr reply, s) \<Rightarrow> after_answer en connector fallback deadline timeout reply s))))"
  unfolding negotiate_sync_def after_answer_def start_deadline_def Let_def by (rule refl)

lemma after_answer_clear:
  assumes "after_answer en connector fallback d t reply s = Some (r, s')"
  shows "in_clear s' = in_clear s" "r = Inr NegotiatedPlain \<Longrightarrow> fallback = AllowPlaintext \<and> reply = byte_of CHR ''N''"
proof -
  show "in_clear s' = in_clear s"
    using assms unfolding after_answer_def
    by (auto split: if_splits sum.splits option.splits prod.splits Fallback.splits
        dest!: handshake_clear clear_timeouts_clear)
  show "fallback = AllowPlaintext \<and> reply = byte_of CHR ''N''" if "r = Inr NegotiatedPlain"
    using assms that unfolding after_answer_def
    by (auto split: if_splits sum.splits option.splits prod.splits Fallback.splits)
qed

lemma negotiate_clear:
  assumes "negotiate_sync en connector fallback timeout s = Some (r, s')"
  shows "\<exists>n. in_clear s' = in_clear s @ take n (ssl_request [])"
    "r = Inr x \<Longrightarrow> in_clear s' = in_clear s @ ssl_request []"
    "r = Inr NegotiatedPlain \<Longrightarrow> fallback = AllowPlaintext \<and> answer s = Some (byte_of CHR ''N'')"
proof -
  obtain d s0 where s0: "start_deadline timeout s = (d, s0)" by (cases "start_deadline timeout s")
  obtain a1 s1 where s1: "arm d timeout s0 = (a1, s1)" by (cases "arm d timeout s0")
  obtain a2 s2 where s2: "write_clear (ssl_request []) s1 = (a2, s2)" by (cases "write_clear (ssl_request []) s1")
  obtain a3 s3 where s3: "arm d timeout s2 = (a3, s3)" by (cases "arm d timeout s2")
  obtain a4 s4 where s4: "sock_read_byte s3 = (a4, s4)" by (cases "sock_read_byte s3")
  have keep: "in_clear s1 = in_clear s" "in_clear s3 = in_clear s2" "in_clear s4 = in_clear s2"
    using start_deadline_keeps [OF s0] arm_clear [OF s1] arm_clear [OF s3] read_byte_clear [OF s4] by simp_all
  have "to_read s3 = to_read s"
    using start_deadline_keeps [OF s0] arm_reads [OF s1] write_clear_front(3) [OF s2] arm_reads [OF s3] by simp
  then have ans: "a4 = Inr b \<Longrightarrow> answer s = Some b" for b
    using s4 by (auto simp: answer_def sock_read_byte_def split: prod.splits)
  note front = write_clear_front [OF s2]
  note run = assms [unfolded negotiate_sync_stages s0 prod.case s1 s2 s3 s4]
  show "\<exists>n. in_clear s' = in_clear s @ take n (ssl_request [])"
    using run front(1) keep after_answer_clear(1)
    by (fastforce split: sum.splits intro: exI [of _ 0])
  show "in_clear s' = in_clear s @ ssl_request []" if "r = Inr x"
    using run front(2) keep after_answer_clear(1) that by (fastforce split: sum.splits)
  show "fallback = AllowPlaintext \<and> answer s = Some (byte_of CHR ''N'')" if "r = Inr NegotiatedPlain"
    using run ans after_answer_clear(2) that by (fastforce split: sum.splits)
qed

lemma close_loop_clear: "close_loop en c s = Some s' \<Longrightarrow> in_clear s' = in_clear s"
proof (rule close_loop.raw_induct [where P = "\<lambda>en c s s'. in_clear s' = in_clear s" and en = en and c = c and s = s],
    goal_cases)
  case (1 h en c s s')
  obtain r c1 s1 where wr: "write_tls en c s = (r, c1, s1)"
    using prod_cases3 by blast
  then show ?case
    using 1(2) [of en c1 s1 s'] 1(3) write_tls_clear [OF wr] by (auto split: if_splits sum.splits)
qed

lemma drain_loop_clear: "in_clear (drain_loop d s) = in_clear s"
proof (induction d s rule: drain_loop.induct)
  case (1 d s)
  obtain t s1 where s1: "now s = (t, s1)" by (cases "now s")
  obtain r s2 where s2: "set_timeout s1 = (r, s2)" by (cases "set_timeout s1")
  have keep: "in_clear s2 = in_clear s" "in_clear s1 = in_clear s" "in_clear (s2\<lparr>to_read := x\<rparr>) = in_clear s2" for x
    using now_clear [OF s1] set_timeout_clear [OF s2] by (simp_all add: in_clear_def)
  have IH: "in_clear (drain_loop d (s2\<lparr>to_read := x\<rparr>)) = in_clear s"
    if "d - t \<noteq> 0" "r = Inr u" "to_read s2 = Got bs # x" "bs \<noteq> []" for u bs x
    using 1 [OF s1 [symmetric] that(1) s2 [symmetric] that(2,3) refl that(4)] keep by simp
  show ?case
    using s1 s2 keep IH
    by (subst drain_loop.simps) (auto split: sum.splits list.splits sock_read.splits)
qed

lemma drain_sync_clear [simp]: "in_clear (drain_sync s) = in_clear s"
  by (auto simp: drain_sync_def drain_loop_clear dest: now_clear split: prod.split)

section \<open>Properties\<close>

text \<open>A stream on top of the engine puts nothing on the socket but what the engine sealed.\<close>

definition seals :: "'c engine \<Rightarrow> bool" where
  "seals en \<longleftrightarrow> (\<forall>bs c s r c' s'. send_app en bs c s = (r, c', s') \<longrightarrow> in_clear s' = in_clear s)"

text \<open>A socket just connected has nothing on the wire.\<close>

definition fresh_sockets :: "'c network \<Rightarrow> bool" where
  "fresh_sockets net \<longleftrightarrow> (\<forall>addr s. tcp_net net addr = Inr s \<longrightarrow> on_wire s = [])"

definition address :: "Config \<Rightarrow> string" where
  "address config = cfg_host config @ '':'' @ show_nat (unat (cfg_port config))"

lemma build_disable: "TlsConnector_build lib tls host = Inr None \<longleftrightarrow> mode tls = Disable"
  by (auto simp: TlsConnector_build_def try_bind_def Let_def split: sum.splits option.splits)

lemma connect_stream_negotiates:
  assumes "mode (cfg_tls config) \<noteq> Disable" "connect_stream lib en net config = Some (r, Some s)"
  shows "\<exists>s0 c timeout q. tcp_net net (address config) = Inr s0 \<and>
    negotiate_sync en c (for_mode (mode (cfg_tls config))) timeout s0 = Some (q, s) \<and>
    r = (case q of Inl e \<Rightarrow> Inl e | Inr NegotiatedPlain \<Rightarrow> Inr (plain_stream net s, None)
         | Inr (NegotiatedTls t) \<Rightarrow> Inr (tls_stream net t s, Some c))"
proof -
  have "TlsConnector_build lib (cfg_tls config) (cfg_host config) \<noteq> Inr None"
    using assms(1) by (simp add: build_disable)
  with assms(2) obtain c s0 where build: "TlsConnector_build lib (cfg_tls config) (cfg_host config) = Inr (Some c)"
    and s0: "tcp_net net (address config) = Inr s0"
    by (auto simp: connect_stream_def address_def Let_def split: sum.splits option.splits)
  obtain timeout where timeout: "(case connect_timeout config of Some t \<Rightarrow> if t = 0 then None else Some t | None \<Rightarrow> None) = timeout"
    by simp
  from assms(2) obtain q where "negotiate_sync en c (for_mode (mode (cfg_tls config))) timeout s0 = Some (q, s)"
    "r = (case q of Inl e \<Rightarrow> Inl e | Inr NegotiatedPlain \<Rightarrow> Inr (plain_stream net s, None)
         | Inr (NegotiatedTls t) \<Rightarrow> Inr (tls_stream net t s, Some c))"
    unfolding connect_stream_def build Let_def sum.case option.case s0 [unfolded address_def] timeout
    by (auto split: option.splits prod.splits sum.splits Negotiated.splits)
  with s0 show ?thesis by blast
qed

text \<open>a downgrade needs the server's own word. When TLS is not disabled, whatever the server and the
  socket do, what \<open>connect\<close> puts on the wire in clear before the session starts is at most the
  request for TLS; and a session in clear is opened only in the mode that prefers TLS, and only when the
  first byte the server sent is the refusal \<open>N\<close>.\<close>

theorem downgrade_only_by_answer:
  assumes "fresh_sockets net" "mode (cfg_tls config) \<noteq> Disable"
    and "connect_stream lib en net config = Some (r, Some s)"
  shows "(\<exists>n. in_clear s = take n (ssl_request [])) \<and>
    (\<forall>stream. r = Inr (stream, None) \<longrightarrow> mode (cfg_tls config) = Prefer \<and>
      (\<exists>s0. tcp_net net (address config) = Inr s0 \<and> answer s0 = Some (byte_of CHR ''N'')))"
proof -
  obtain s0 c timeout q where s0: "tcp_net net (address config) = Inr s0"
    and neg: "negotiate_sync en c (for_mode (mode (cfg_tls config))) timeout s0 = Some (q, s)"
    and r: "r = (case q of Inl e \<Rightarrow> Inl e | Inr NegotiatedPlain \<Rightarrow> Inr (plain_stream net s, None)
         | Inr (NegotiatedTls t) \<Rightarrow> Inr (tls_stream net t s, Some c))"
    using connect_stream_negotiates [OF assms(2,3)] by blast
  have "in_clear s0 = []"
    using assms(1) s0 by (simp add: fresh_sockets_def in_clear_def)
  then show ?thesis
    using negotiate_clear(1,3) [OF neg] r s0
    by (auto simp: for_mode_def split: sum.splits Negotiated.splits if_splits)
qed

lemma cancel_sealed:
  assumes "seals en" "fresh_sockets net" "send_cancel_sync en net addr pid key (Some c) = Some (r, Some s)"
  shows "\<exists>n. in_clear s = take n (ssl_request [])"
proof -
  from assms(3) obtain s0 where s0: "tcp_net net addr = Inr s0"
    by (auto simp: send_cancel_sync_def split: sum.splits)
  have "in_clear s0 = []"
    using assms(2) s0 by (simp add: fresh_sockets_def in_clear_def)
  moreover from assms(3) s0 obtain q s1 where neg: "negotiate_sync en c Deny (Some CANCEL_TLS_TIMEOUT) s0 = Some (q, s1)"
    by (auto simp: send_cancel_sync_def Let_def split: option.splits)
  moreover have "in_clear s = in_clear s1"
    using assms(1,3) s0 neg unfolding seals_def send_cancel_sync_def Let_def
    by (auto split: sum.splits prod.splits option.splits Negotiated.splits dest!: set_timeout_clear close_loop_clear)
  ultimately show ?thesis
    using negotiate_clear(1) [OF neg] by simp
qed

text \<open>C9. with a mode that requires TLS, a session that was opened runs over TLS, having sent the request
  for TLS in clear and nothing else; and cancelling it, whatever the server and the
  sockets do, never puts more than that request on the wire in clear, so neither its process id nor its
  secret key.\<close>

theorem required_tls_is_never_clear:
  assumes "seals en" "fresh_sockets net" "mode (cfg_tls config) \<noteq> Disable" "mode (cfg_tls config) \<noteq> Prefer"
    and "connect k rnd lib en net config = Returns (Inr sess)"
  shows "(\<exists>t c s. connect_stream lib en net config = Some (Inr (tls_stream net t s, Some c), Some s) \<and>
      in_clear s = ssl_request [] \<and> session_tls sess = Some c) \<and>
    (\<forall>r s. Client_cancel en net sess = Some (r, Some s) \<longrightarrow> (\<exists>n. in_clear s = take n (ssl_request [])))"
proof -
  from assms(5) obtain stream tls s where cs: "connect_stream lib en net config = Some (Inr (stream, tls), Some s)"
    and sess: "session_tls sess = tls" "session_endpoint sess = TcpEndpoint (cfg_host config) (cfg_port config)"
    by (auto simp: connect_def connect_stream_def Let_def
        split: option.splits prod.splits sum.splits Negotiated.splits)
  obtain s0 c timeout q where s0: "tcp_net net (address config) = Inr s0"
    and neg: "negotiate_sync en c (for_mode (mode (cfg_tls config))) timeout s0 = Some (q, s)"
    and q: "Inr (stream, tls) = (case q of Inl e \<Rightarrow> Inl e | Inr NegotiatedPlain \<Rightarrow> Inr (plain_stream net s, None)
         | Inr (NegotiatedTls t) \<Rightarrow> Inr (tls_stream net t s, Some c))"
    using connect_stream_negotiates [OF assms(3) cs] by blast
  have "in_clear s0 = []"
    using assms(2) s0 by (simp add: fresh_sockets_def in_clear_def)
  then obtain t where t: "tls = Some c" "stream = tls_stream net t s" "in_clear s = ssl_request []"
    using negotiate_clear(2,3) [OF neg] q assms(4) by (auto simp: for_mode_def split: sum.splits Negotiated.splits if_splits)
  have "\<exists>n. in_clear s' = take n (ssl_request [])" if "Client_cancel en net sess = Some (r, Some s')" for r s'
    using that sess t(1) cancel_sealed [OF assms(1,2)] by (auto simp: Client_cancel_def)
  with cs t sess show ?thesis by blast
qed

section \<open>Termination\<close>

text \<open>The engine wants to write as long as it has output, gives each byte of it to the socket once, and its own
  refusal to read is not an interruption.\<close>

definition orderly :: "'c engine \<Rightarrow> bool" where
  "orderly en \<longleftrightarrow>
     (\<forall>c. wants_write en c \<longleftrightarrow> tls_output en c \<noteq> []) \<and>
     (\<forall>n c. tls_output en (wrote en n c) = drop n (tls_output en c)) \<and>
     (\<forall>c e. full en c = Some e \<longrightarrow> err_kind e \<noteq> Interrupted)"

definition turns :: "'c engine \<Rightarrow> (('c \<times> socket) \<times> ('c \<times> socket)) set" where
  "turns en = measures [\<lambda>(c, s). length (to_read s), \<lambda>(c, s). length (to_write s), \<lambda>(c, s). length (tls_output en c)]"

lemma arm_script: "arm d t s = (r, s') \<Longrightarrow> to_write s' = to_write s \<and> to_read s' = to_read s"
  unfolding arm_def now_def set_timeout_def
  by (auto split: option.splits prod.splits if_splits sum.splits list.splits)

lemma write_tls_progress:
  assumes "orderly en" "wants_write en c" "write_tls en c s = (r, c', s')"
  shows "((c', s'), (c, s)) \<in> turns en" "to_read s' = to_read s"
  using assms by (auto simp: write_tls_def turns_def orderly_def Let_def split: list.splits sock_write.splits)

lemma read_tls_progress:
  assumes "orderly en" "read_tls en c s = (r, c', s')"
  shows "(\<exists>e. r = Inl e \<and> err_kind e \<noteq> Interrupted) \<or> r = Inr 0 \<or> length (to_read s') < length (to_read s)"
  using assms by (auto simp: read_tls_def orderly_def split: option.splits list.splits sock_read.splits)

lemma turns_wf: "wf (turns en)"
  by (simp add: turns_def)

lemma handshake_returns:
  assumes orderly: "orderly en"
  shows "\<exists>y. handshake en d t c s = Some y"
  using turns_wf [of en]
proof (induction "(c, s)" arbitrary: c s rule: wf_induct_rule)
  case (less c s)
  obtain a s1 where arm: "arm d t s = (a, s1)" by (cases "arm d t s")
  have same: "(c', s') \<in> {(c', s'). ((c', s'), (c, s1)) \<in> turns en} \<Longrightarrow> ((c', s'), (c, s)) \<in> turns en" for c' s'
    using arm_script [OF arm] by (simp add: turns_def)
  have IH: "\<exists>y. handshake en d t c' s' = Some y" if "((c', s'), (c, s1)) \<in> turns en" for c' s'
    using less same that by blast
  obtain w c2 s2 where wr: "write_tls en c s1 = (w, c2, s2)" using prod_cases3 by blast
  obtain r c3 s3 where rd: "read_tls en c s1 = (r, c3, s3)" using prod_cases3 by blast
  obtain e c4 where proc: "process_new_packets en c3 = (e, c4)" by (cases "process_new_packets en c3")
  have w: "wants_write en c \<Longrightarrow> \<exists>y. handshake en d t c2 s2 = Some y"
    using IH write_tls_progress(1) [OF orderly _ wr] by blast
  have shorter: "length (to_read s3) < length (to_read s1) \<Longrightarrow> \<exists>y. handshake en d t c' s3 = Some y" for c'
    using IH by (simp add: turns_def)
  note read = read_tls_progress [OF orderly rd]
  show ?case
    using arm wr rd proc w shorter [of c3] shorter [of c4] read
    by (subst handshake.simps) (auto split: sum.splits option.splits)
qed


section \<open>A server that speaks TLS\<close>

text \<open>An engine with two bytes to send, content after the first answer.\<close>

definition demo_engine :: "(bytes \<times> bool) engine" where
  "demo_engine =
     \<lparr>new_session = (\<lambda>_. Inr ([1, 2], True)), is_handshaking = snd, wants_write = (\<lambda>c. fst c \<noteq> []), tls_output = fst,
      wrote = (\<lambda>n c. (drop n (fst c), snd c)), full = (\<lambda>_. None), received = (\<lambda>_ c. c),
      process_new_packets = (\<lambda>c. (None, (fst c, False))),
      send_app = (\<lambda>bs c s. (Inr (), c, s\<lparr>on_wire := on_wire s @ [Sealed (rev bs)]\<rparr>)),
      send_close_notify = (\<lambda>c. ([9], snd c))\<rparr>"

definition demo_socket :: "sock_read list \<Rightarrow> socket" where
  "demo_socket rs =
     \<lparr>to_read = rs, to_write = [], set_outcomes = [], clock = (\<lambda>n. n), ticks = 0,
      last_instant = 2 ^ 64, on_wire = []\<rparr>"

definition demo_net :: "sock_read list \<Rightarrow> (bytes \<times> bool) network" where
  "demo_net rs =
     \<lparr>tcp_net = (\<lambda>_. Inr (demo_socket rs)), unix_net = (\<lambda>_. Inr (demo_socket rs)),
      pipe_net = (\<lambda>_. Inr (demo_socket rs)), plain_stream = (\<lambda>s. \<lparr>incoming = [], sent = [], outcomes = []\<rparr>),
      tls_stream = (\<lambda>c s. \<lparr>incoming = [RdData (server_encode AuthenticationOk @ server_encode (ReadyForQuery 73))],
        sent = [], outcomes = []\<rparr>)\<rparr>"

definition demo_library :: tls_library where
  "demo_library =
     \<lparr>pem_certs = (\<lambda>_. Inr [[7]]), pem_key = (\<lambda>_. Inr [8]), refuses_root = (\<lambda>_. None), refuses_verifier = (\<lambda>_. None),
      refuses_protocols = None, refuses_client = (\<lambda>_ _. None), refuses_name = (\<lambda>_. None), bundled_roots = []\<rparr>"

definition demo_config :: "TlsMode \<Rightarrow> Config" where
  "demo_config m = Config_new\<lparr>cfg_tls := TlsConfig_new m\<rparr>"

lemmas demo_net_defs = demo_engine_def demo_socket_def demo_net_def demo_library_def demo_config_def

lemma demo_laws: "orderly demo_engine" "seals demo_engine" "fresh_sockets (demo_net rs)"
  by (auto simp: orderly_def seals_def fresh_sockets_def in_clear_def demo_net_defs)

lemma write_parts_all [simp]: "write_parts [] bs = (Inr (), bs, [])"
  by (cases bs) simp_all

lemmas demo_eval = connect_stream_def demo_net_defs TlsConnector_build_def Config_new_def TlsConfig_new_def choose_verifier_def
    load_client_auth_def for_mode_def negotiate_sync_stages start_deadline_def arm_def now_def set_timeout_def write_clear_def
    Let_def sock_read_byte_def after_answer_def handshake.simps write_tls_def read_tls_def clear_timeouts_def

lemma demo_handshake:
  "\<exists>t s c. connect_stream demo_library demo_engine (demo_net [Got [byte_of CHR ''S''], Got [3, 4]]) (demo_config Require) =
     Some (Inr (tls_stream (demo_net [Got [byte_of CHR ''S''], Got [3, 4]]) t s, Some c), Some s)"
  by (simp add: demo_eval)

lemma demo_startup:
  "\<exists>c. startup demo_crypto (\<lambda>_. []) (startup_params (demo_config Require)) None
      (RawConnection_new \<lparr>incoming = [RdData (server_encode AuthenticationOk @ server_encode (ReadyForQuery 73))],
        sent = [], outcomes = []\<rparr>) = Some (Inr (), c)"
proof -
  let ?ms = "server_encode AuthenticationOk @ server_encode (ReadyForQuery 73)"
  let ?c = "RawConnection_new \<lparr>incoming = [RdData ?ms], sent = [], outcomes = []\<rparr>"
  obtain m where m: "startup_message (startup_params (demo_config Require)) [] = Some m" "m \<noteq> []"
    by (simp add: startup_message_def startup_params_def demo_config_def Config_new_def msg_len_def put_i32_def)
  let ?c0 = "?c\<lparr>conn_stream := \<lparr>incoming = [RdData ?ms], sent = m, outcomes = []\<rparr>, write_buf := []\<rparr>"
  have c0: "quiet ?c0" "unread ?c0 = server_encode AuthenticationOk @ server_encode (ReadyForQuery 73) @ []"
    using length_server_encode [of AuthenticationOk] by (auto simp: quiet_def unread_def RawConnection_new_def)
  then obtain c1 where c1: "read_message ?c0 = (Inr AuthenticationOk, c1)" "advanced ?c0 (server_encode (ReadyForQuery 73) @ []) c1"
    using read_advances [of ?c0 AuthenticationOk "server_encode (ReadyForQuery 73) @ []"] by (auto simp: sendable_def)
  then obtain c2 where c2: "read_message c1 = (Inr (ReadyForQuery 73), c2)"
    using read_advances [of c1 "ReadyForQuery 73" "[]"] by (auto simp: advanced_def sendable_def)
  have "startup_loop demo_crypto (\<lambda>_. []) (startup_params (demo_config Require)) None (0, None) ?c0 = Some (Inr (), c2)"
    using c1(1) c2 by (simp add: startup_loop.simps [of _ _ _ _ _ ?c0] startup_loop.simps [of _ _ _ _ _ c1] startup_step_def)
  then show ?thesis
    using m by (auto simp: startup_def emit_def andthen_def flush_def RawConnection_new_def stream_write_all_def stream_flush_def)
qed

theorem required_tls_is_never_clear_witness:
  "\<exists>sess. connect demo_crypto (\<lambda>_. []) demo_library demo_engine (demo_net [Got [byte_of CHR ''S''], Got [3, 4]])
      (demo_config Require) = Returns (Inr sess) \<and>
    session_tls sess \<noteq> None \<and>
    (\<forall>r s. Client_cancel demo_engine (demo_net [Got [byte_of CHR ''S''], Got [3, 4]]) sess = Some (r, Some s) \<longrightarrow>
      (\<exists>n. in_clear s = take n (ssl_request [])))"
proof -
  let ?net = "demo_net [Got [byte_of CHR ''S''], Got [3, 4]]"
  have "tls_stream ?net t s = \<lparr>incoming = [RdData (server_encode AuthenticationOk @ server_encode (ReadyForQuery 73))],
        sent = [], outcomes = []\<rparr>" for t s
    by (simp add: demo_net_def)
  moreover have "cfg_password (demo_config Require) = None"
    by (simp add: demo_config_def Config_new_def)
  ultimately obtain sess where "connect demo_crypto (\<lambda>_. []) demo_library demo_engine ?net (demo_config Require) = Returns (Inr sess)"
    using demo_handshake demo_startup by (auto simp: connect_def)
  then show ?thesis
    using required_tls_is_never_clear [OF demo_laws(2,3) _ _ \<open>connect _ _ _ _ _ _ = _\<close>]
    by (auto simp: demo_config_def TlsConfig_new_def)
qed


theorem downgrade_only_by_answer_witness:
  "\<exists>s stream. connect_stream demo_library demo_engine (demo_net [Got [byte_of CHR ''N'']]) (demo_config Prefer) =
     Some (Inr (stream, None), Some s) \<and> (\<exists>n. in_clear s = take n (ssl_request []))"
proof -
  have "\<exists>s stream. connect_stream demo_library demo_engine (demo_net [Got [byte_of CHR ''N'']]) (demo_config Prefer) =
     Some (Inr (stream, None), Some s)"
    by (simp add: demo_eval)
  then show ?thesis
    using downgrade_only_by_answer [OF demo_laws(3), of "demo_config Prefer"] by (auto simp: demo_config_def TlsConfig_new_def)
qed

section \<open>What is verified\<close>

text \<open>The trust anchors of a configuration: the certificates of its file, or the bundled ones.\<close>

definition trusted :: "tls_library \<Rightarrow> TlsConfig \<Rightarrow> bytes list \<Rightarrow> bool" where
  "trusted lib tls roots \<longleftrightarrow>
     (case root_cert tls of
        Some path \<Rightarrow> pem_certs lib path = Inr roots \<and> roots \<noteq> []
      | None \<Rightarrow> roots = bundled_roots lib)"

lemma add_roots_Inr: "add_roots lib path roots cs = Inr rs \<Longrightarrow> rs = roots @ cs"
  by (induction lib path roots cs rule: add_roots.induct) (auto split: option.splits)

lemma load_roots_Inr: "load_roots lib path = Inr rs \<Longrightarrow> pem_certs lib path = Inr rs \<and> rs \<noteq> []"
  by (auto simp: load_roots_def load_certs_def try_bind_eq_Inr dest!: add_roots_Inr split: sum.splits if_splits)

lemma build_parts:
  assumes "TlsConnector_build lib tls host = Inr (Some c)"
  obtains roots where "choose_verifier lib (mode tls) roots = Inr (verifier c)" "mode tls \<noteq> Disable"
    "connector_name c = (case server_name tls of Some n \<Rightarrow> n | None \<Rightarrow> host_name host)"
    "case roots of Some rs \<Rightarrow> root_cert tls \<noteq> None \<and> trusted lib tls rs | None \<Rightarrow> root_cert tls = None"
  using assms
  by (auto simp: TlsConnector_build_def try_bind_eq_Inr Let_def trusted_def
      dest!: load_roots_Inr split: if_splits option.splits)

text \<open>C19. a server certificate that passes was checked as the mode says. Under verify-full it passed the full check,
  for the name set or else the host without brackets and zone, against the root file or else the
  bundled roots; under verify-ca, and under prefer and require with a root file, its chain leads to the
  certificates of that file; verify-ca without a root file, a file that cannot be read or is
  empty never give a connector.\<close>

theorem accepted_certificate_was_checked:
  assumes "TlsConnector_build lib tls host = Inr (Some c)"
    and "verify_server_cert chain webpki parsed (verifier c) cert (connector_name c) = Inr ()"
  shows "(mode tls = VerifyFull \<longrightarrow> (\<exists>roots. trusted lib tls roots \<and>
      webpki roots cert (case server_name tls of Some n \<Rightarrow> n | None \<Rightarrow> host_name host) = Inr ())) \<and>
    (mode tls \<noteq> VerifyFull \<and> (mode tls = VerifyCa \<or> root_cert tls \<noteq> None) \<longrightarrow>
      root_cert tls \<noteq> None \<and> (\<exists>roots. trusted lib tls roots \<and> chain roots cert = Inr ()))"
proof -
  obtain roots where v: "choose_verifier lib (mode tls) roots = Inr (verifier c)" "mode tls \<noteq> Disable"
    "connector_name c = (case server_name tls of Some n \<Rightarrow> n | None \<Rightarrow> host_name host)"
    "case roots of Some rs \<Rightarrow> root_cert tls \<noteq> None \<and> trusted lib tls rs | None \<Rightarrow> root_cert tls = None"
    using build_parts [OF assms(1)] by blast
  have bundled: "root_cert tls = None \<Longrightarrow> trusted lib tls (bundled_roots lib)"
    by (simp add: trusted_def)
  show ?thesis
    using v assms(2) bundled unfolding v(3) [symmetric]
    by (cases "mode tls"; cases roots; cases "verifier c") (auto simp: choose_verifier_def Let_def try_bind_eq_Inr split: option.splits)
qed

theorem accepted_certificate_was_checked_witness:
  "\<exists>c. TlsConnector_build demo_library \<lparr>mode = VerifyFull, root_cert = Some ''ca.pem'', client_cert = None, server_name = None\<rparr> ''[fe80::1%eth0]''
      = Inr (Some c) \<and> verify_server_cert (\<lambda>_ _. Inr ()) (\<lambda>roots cert name. if name = ''fe80::1'' then Inr () else Inl ''name'')
      (\<lambda>_. Inr ()) (verifier c) [5] (connector_name c) = Inr () \<and> host_name ''[fe80::1%eth0]'' = ''fe80::1''"
proof -
  let ?tls = "\<lparr>mode = VerifyFull, root_cert = Some ''ca.pem'', client_cert = None, server_name = None\<rparr>"
  have name: "host_name ''[fe80::1%eth0]'' = ''fe80::1''"
    by code_simp
  have build: "TlsConnector_build demo_library ?tls ''[fe80::1%eth0]'' =
      Inr (Some \<lparr>verifier = WebPki [[7]], client_auth = None, connector_name = ''fe80::1''\<rparr>)"
    by (simp add: TlsConnector_build_def demo_library_def load_roots_def load_certs_def choose_verifier_def load_client_auth_def name)
  show ?thesis
    using accepted_certificate_was_checked [OF build, of "\<lambda>_ _. Inr ()" "\<lambda>roots cert name. if name = ''fe80::1'' then Inr () else Inl ''name''"
      "\<lambda>_. Inr ()" "[5]"] build name by simp
qed

end
