(* ===== verification/Kv_Store.thy ===== *)
theory Kv_Store
  imports Sql_Names "HOL-Library.Multiset" "HOL-Library.List_Lexorder" "HOL-Library.Char_ord"
begin

text \<open>
  The key-value store, \<open>hyperdb-api/src/kv_store.rs\<close>: named stores in one SQL table.

  The connection and the server behind it are an argument: running a statement with bound
  parameters, fetching its rows, and the three statements of a transaction. What is relied on is the meaning
  of the statements the store sends, as a hypothesis over the rows of the table; the order
  of keys is the server's. A store is then shown to be a map from keys to values, and a batch
  to be all or nothing.
\<close>

section \<open>The code\<close>

text \<open>The methods of \<open>Connection\<close> the store calls, on a state of connection and server. A row is the text of
  its columns, \<open>None\<close> for NULL; \<open>query_scalar\<close> is \<open>query_params\<close> followed by \<open>scalar::<i64>\<close>.\<close>

record 's kv_connection =
  command_params :: "string \<Rightarrow> string list \<Rightarrow> 's \<Rightarrow> (ApiError + nat) \<times> 's"
  query_rows :: "string \<Rightarrow> string list \<Rightarrow> 's \<Rightarrow> (ApiError + string option list list) \<times> 's"
  query_scalar :: "string \<Rightarrow> string list \<Rightarrow> 's \<Rightarrow> (ApiError + int option) \<times> 's"
  plain_command :: "string \<Rightarrow> 's \<Rightarrow> (ApiError + nat) \<times> 's"
  tx_begin :: "'s \<Rightarrow> (ApiError + unit) \<times> 's"
  tx_commit :: "'s \<Rightarrow> (ApiError + unit) \<times> 's"
  tx_rollback :: "'s \<Rightarrow> (ApiError + unit) \<times> 's"

text \<open>The \<open>?\<close> operator.\<close>

definition kv_then ::
  "(ApiError + 'a) \<times> 's \<Rightarrow> ('a \<Rightarrow> 's \<Rightarrow> (ApiError + 'b) \<times> 's) \<Rightarrow> (ApiError + 'b) \<times> 's" where
  "kv_then r f = (case r of (Inl e, s) \<Rightarrow> (Inl e, s) | (Inr a, s) \<Rightarrow> f a s)"

definition KV_TABLE :: string where
  "KV_TABLE = ''_hyperdb_kv_store''"

definition KV_MAX_NAME_BYTES :: nat where
  "KV_MAX_NAME_BYTES = 512"

definition KV_CHARSET :: string where
  "KV_CHARSET = ''A-Z a-z 0-9 _ . -''"

definition kv_char :: "char \<Rightarrow> bool" where
  "kv_char c \<longleftrightarrow> is_ascii_alphanumeric c \<or> c = CHR ''_'' \<or> c = CHR ''.'' \<or> c = CHR ''-''"

definition hex_byte :: "char \<Rightarrow> string" where
  "hex_byte c =
     (let n = of_char c :: nat; d = (\<lambda>k. char_of (if k < 10 then 48 + k else 87 + k :: nat))
      in ''0x'' @ [d (n div 16), d (n mod 16)])"

definition validate_kv_name :: "string \<Rightarrow> string \<Rightarrow> ApiError + unit" where
  "validate_kv_name name kind =
     (if name = [] then Inl (InvalidName (''KV '' @ kind @ '' must not be empty''))
      else if length name > KV_MAX_NAME_BYTES then
        Inl (InvalidName (''KV '' @ kind @ '' exceeds '' @ show_nat KV_MAX_NAME_BYTES @ ''-byte limit ('' @ show_nat (length name) @ '' bytes)''))
      else case find (\<lambda>c. \<not> kv_char c) name of
        Some bad \<Rightarrow> Inl (InvalidName (''KV '' @ kind @ '' contains an invalid byte '' @ hex_byte bad @ ''; allowed: '' @ KV_CHARSET))
      | None \<Rightarrow> Inr ())"

definition kv_create_table_sql :: "string \<Rightarrow> string" where
  "kv_create_table_sql table_ref =
     ''CREATE TABLE IF NOT EXISTS '' @ table_ref @ '' (store_name TEXT NOT NULL, key TEXT NOT NULL, value TEXT)''"

definition kv_target_prefix :: "string \<Rightarrow> ApiError + string" where
  "kv_target_prefix database =
     try_bind (escape_name database) (\<lambda>d. try_bind (escape_name ''public'') (\<lambda>p. Inr (d @ ''.'' @ p)))"

record KvStore =
  store_name :: string
  table_ref :: string

text \<open>A validated name, as a step that may fail before anything is sent.\<close>

definition kv_checked :: "ApiError + unit \<Rightarrow> 's \<Rightarrow> (ApiError + unit) \<times> 's" where
  "kv_checked v s = (v, s)"

definition KvStore_open :: "'s kv_connection \<Rightarrow> string \<Rightarrow> string \<Rightarrow> 's \<Rightarrow> (ApiError + KvStore) \<times> 's" where
  "KvStore_open cn name t s =
     kv_then (kv_checked (validate_kv_name name ''store name'') s) (\<lambda>_ s.
     kv_then (plain_command cn (kv_create_table_sql t) s) (\<lambda>_ s.
       (Inr \<lparr>store_name = name, table_ref = t\<rparr>, s)))"

definition KvStore_new :: "'s kv_connection \<Rightarrow> string \<Rightarrow> 's \<Rightarrow> (ApiError + KvStore) \<times> 's" where
  "KvStore_new cn name = KvStore_open cn name KV_TABLE"

definition kv_with_target :: "'s kv_connection \<Rightarrow> string \<Rightarrow> string \<Rightarrow> 's \<Rightarrow> (ApiError + KvStore) \<times> 's" where
  "kv_with_target cn name target = KvStore_open cn name (target @ ''.'' @ KV_TABLE)"

definition kv_store_in :: "'s kv_connection \<Rightarrow> string \<Rightarrow> string \<Rightarrow> 's \<Rightarrow> (ApiError + KvStore) \<times> 's" where
  "kv_store_in cn database name s =
     kv_then (kv_target_prefix database, s) (\<lambda>target s. kv_with_target cn name target s)"

definition first_text :: "string option list list \<Rightarrow> string option" where
  "first_text rows = (case rows of (Some v # _) # _ \<Rightarrow> Some v | _ \<Rightarrow> None)"

definition kv_get :: "'s kv_connection \<Rightarrow> KvStore \<Rightarrow> string \<Rightarrow> 's \<Rightarrow> (ApiError + string option) \<times> 's" where
  "kv_get cn kv key s =
     kv_then (kv_checked (validate_kv_name key ''key'') s) (\<lambda>_ s.
     kv_then (query_rows cn (''SELECT value FROM '' @ table_ref kv @ '' WHERE store_name = $1 AND key = $2'') [store_name kv, key] s)
       (\<lambda>rows s. (Inr (first_text rows), s)))"

definition insert_absent_sql :: "string \<Rightarrow> string" where
  "insert_absent_sql t =
     ''INSERT INTO '' @ t @ '' (store_name, key, value) SELECT $1, $2, $3 WHERE NOT EXISTS (SELECT 1 FROM '' @ t
       @ '' WHERE store_name = $4 AND key = $5)''"

definition upsert :: "'s kv_connection \<Rightarrow> KvStore \<Rightarrow> string \<Rightarrow> string \<Rightarrow> 's \<Rightarrow> (ApiError + bool) \<times> 's" where
  "upsert cn kv key val s =
     kv_then (command_params cn (''UPDATE '' @ table_ref kv @ '' SET value = $3 WHERE store_name = $1 AND key = $2'')
       [store_name kv, key, val] s) (\<lambda>updated s.
     if updated = 0 then
       kv_then (command_params cn (insert_absent_sql (table_ref kv)) [store_name kv, key, val, store_name kv, key] s)
         (\<lambda>_ s. (Inr True, s))
     else (Inr False, s))"

text \<open>\<open>SetOutcome\<close> is its one field, \<open>created\<close>.\<close>

definition kv_set :: "'s kv_connection \<Rightarrow> KvStore \<Rightarrow> string \<Rightarrow> string \<Rightarrow> 's \<Rightarrow> (ApiError + bool) \<times> 's" where
  "kv_set cn kv key val s =
     kv_then (kv_checked (validate_kv_name key ''key'') s) (\<lambda>_ s. upsert cn kv key val s)"

definition get_as ::
  "(string \<Rightarrow> string + 'v) \<Rightarrow> 's kv_connection \<Rightarrow> KvStore \<Rightarrow> string \<Rightarrow> 's \<Rightarrow> (ApiError + 'v option) \<times> 's" where
  "get_as from_json cn kv key s =
     kv_then (kv_get cn kv key s) (\<lambda>found s.
       case found of
         Some json \<Rightarrow> (case from_json json of Inr v \<Rightarrow> (Inr (Some v), s) | Inl e \<Rightarrow> (Inl (Api_Serialization e), s))
       | None \<Rightarrow> (Inr None, s))"

definition set_as ::
  "('v \<Rightarrow> string + string) \<Rightarrow> 's kv_connection \<Rightarrow> KvStore \<Rightarrow> string \<Rightarrow> 'v \<Rightarrow> 's \<Rightarrow> (ApiError + bool) \<times> 's" where
  "set_as to_json cn kv key val s =
     kv_then (kv_checked (validate_kv_name key ''key'') s) (\<lambda>_ s.
       case to_json val of
         Inl e \<Rightarrow> (Inl (Api_Serialization e), s)
       | Inr json \<Rightarrow> upsert cn kv key json s)"

definition set_if_absent :: "'s kv_connection \<Rightarrow> KvStore \<Rightarrow> string \<Rightarrow> string \<Rightarrow> 's \<Rightarrow> (ApiError + bool) \<times> 's" where
  "set_if_absent cn kv key val s =
     kv_then (kv_checked (validate_kv_name key ''key'') s) (\<lambda>_ s.
     kv_then (command_params cn (insert_absent_sql (table_ref kv)) [store_name kv, key, val, store_name kv, key] s)
       (\<lambda>inserted s. (Inr (inserted > 0), s)))"

definition delete_sql :: "string \<Rightarrow> string" where
  "delete_sql t = ''DELETE FROM '' @ t @ '' WHERE store_name = $1 AND key = $2''"

definition kv_delete :: "'s kv_connection \<Rightarrow> KvStore \<Rightarrow> string \<Rightarrow> 's \<Rightarrow> (ApiError + bool) \<times> 's" where
  "kv_delete cn kv key s =
     kv_then (kv_checked (validate_kv_name key ''key'') s) (\<lambda>_ s.
     kv_then (command_params cn (delete_sql (table_ref kv)) [store_name kv, key] s)
       (\<lambda>affected s. (Inr (affected > 0), s)))"

definition kv_exists :: "'s kv_connection \<Rightarrow> KvStore \<Rightarrow> string \<Rightarrow> 's \<Rightarrow> (ApiError + bool) \<times> 's" where
  "kv_exists cn kv key s =
     kv_then (kv_checked (validate_kv_name key ''key'') s) (\<lambda>_ s.
     kv_then (query_rows cn (''SELECT 1 FROM '' @ table_ref kv @ '' WHERE store_name = $1 AND key = $2 LIMIT 1'') [store_name kv, key] s)
       (\<lambda>rows s. (Inr (rows \<noteq> []), s)))"

definition kv_size :: "'s kv_connection \<Rightarrow> KvStore \<Rightarrow> 's \<Rightarrow> (ApiError + int) \<times> 's" where
  "kv_size cn kv s =
     kv_then (query_scalar cn (''SELECT COUNT(*) FROM '' @ table_ref kv @ '' WHERE store_name = $1'') [store_name kv] s)
       (\<lambda>n s. (Inr (case n of Some k \<Rightarrow> k | None \<Rightarrow> 0), s))"

fun texts :: "string option list list \<Rightarrow> string list" where
  "texts [] = []"
| "texts ((Some k # _) # rows) = k # texts rows"
| "texts (_ # rows) = texts rows"

definition kv_keys :: "'s kv_connection \<Rightarrow> KvStore \<Rightarrow> 's \<Rightarrow> (ApiError + string list) \<times> 's" where
  "kv_keys cn kv s =
     kv_then (query_rows cn (''SELECT key FROM '' @ table_ref kv @ '' WHERE store_name = $1 ORDER BY key ASC'') [store_name kv] s)
       (\<lambda>rows s. (Inr (texts rows), s))"

definition byte_size :: "'s kv_connection \<Rightarrow> KvStore \<Rightarrow> 's \<Rightarrow> (ApiError + int) \<times> 's" where
  "byte_size cn kv s =
     kv_then (query_scalar cn (''SELECT COALESCE(SUM(OCTET_LENGTH(value)), 0) FROM '' @ table_ref kv @ '' WHERE store_name = $1'')
         [store_name kv] s)
       (\<lambda>n s. (Inr (case n of Some k \<Rightarrow> k | None \<Rightarrow> 0), s))"

text \<open>\<open>row.get::<String>(1).unwrap_or_default()\<close>.\<close>

definition second_text :: "string option list \<Rightarrow> string" where
  "second_text row = (case row of _ # Some v # _ \<Rightarrow> v | _ \<Rightarrow> [])"

fun pairs :: "string option list list \<Rightarrow> (string \<times> string) list" where
  "pairs [] = []"
| "pairs (row # rows) =
     (case row of Some k # _ \<Rightarrow> (k, second_text row) # pairs rows | _ \<Rightarrow> pairs rows)"

definition kv_entries :: "'s kv_connection \<Rightarrow> KvStore \<Rightarrow> 's \<Rightarrow> (ApiError + (string \<times> string) list) \<times> 's" where
  "kv_entries cn kv s =
     kv_then (query_rows cn (''SELECT key, value FROM '' @ table_ref kv @ '' WHERE store_name = $1 ORDER BY key ASC'') [store_name kv] s)
       (\<lambda>rows s. (Inr (pairs rows), s))"

definition kv_clear :: "'s kv_connection \<Rightarrow> KvStore \<Rightarrow> 's \<Rightarrow> (ApiError + nat) \<times> 's" where
  "kv_clear cn kv s =
     command_params cn (''DELETE FROM '' @ table_ref kv @ '' WHERE store_name = $1'') [store_name kv] s"

definition pop_inner :: "'s kv_connection \<Rightarrow> KvStore \<Rightarrow> 's \<Rightarrow> (ApiError + (string \<times> string) option) \<times> 's" where
  "pop_inner cn kv s =
     kv_then (query_rows cn (''SELECT key, value FROM '' @ table_ref kv @ '' WHERE store_name = $1 ORDER BY key ASC LIMIT 1'')
       [store_name kv] s) (\<lambda>rows s.
     case rows of
       [] \<Rightarrow> (Inr None, s)
     | row # _ \<Rightarrow>
         (case row of
            Some key # _ \<Rightarrow>
              kv_then (command_params cn (delete_sql (table_ref kv)) [store_name kv, key] s)
                (\<lambda>_ s. (Inr (Some (key, second_text row)), s))
          | _ \<Rightarrow> (Inl (Api_Internal ''kv pop: key column was unexpectedly NULL''), s)))"

text \<open>\<open>pop\<close>, \<open>set_batch\<close> and \<open>set_batch_if_absent\<close> run their body between \<open>BEGIN\<close> and \<open>COMMIT\<close> and roll back
  when it fails, keeping its error.\<close>

definition in_transaction :: "'s kv_connection \<Rightarrow> ('s \<Rightarrow> (ApiError + 'a) \<times> 's) \<Rightarrow> 's \<Rightarrow> (ApiError + 'a) \<times> 's" where
  "in_transaction cn body s =
     kv_then (tx_begin cn s) (\<lambda>_ s.
       case body s of
         (Inr a, s) \<Rightarrow> kv_then (tx_commit cn s) (\<lambda>_ s. (Inr a, s))
       | (Inl e, s) \<Rightarrow> (Inl e, snd (tx_rollback cn s)))"

definition kv_pop :: "'s kv_connection \<Rightarrow> KvStore \<Rightarrow> 's \<Rightarrow> (ApiError + (string \<times> string) option) \<times> 's" where
  "kv_pop cn kv = in_transaction cn (pop_inner cn kv)"

fun validate_keys :: "(string \<times> string) list \<Rightarrow> ApiError + unit" where
  "validate_keys [] = Inr ()"
| "validate_keys ((key, _) # es) = try_bind (validate_kv_name key ''key'') (\<lambda>_. validate_keys es)"

text \<open>The loop of a batch, counting the entries its step answers with true and with false.\<close>

fun kv_batch_loop ::
  "(string \<Rightarrow> string \<Rightarrow> 's \<Rightarrow> (ApiError + bool) \<times> 's) \<Rightarrow> (string \<times> string) list \<Rightarrow> nat \<times> nat \<Rightarrow> 's
     \<Rightarrow> (ApiError + nat \<times> nat) \<times> 's" where
  "kv_batch_loop f [] acc s = (Inr acc, s)"
| "kv_batch_loop f ((key, val) # es) acc s =
     kv_then (f key val s) (\<lambda>b s.
       kv_batch_loop f es (if b then (fst acc + 1, snd acc) else (fst acc, snd acc + 1)) s)"

text \<open>The outcomes are \<open>(created, overwritten)\<close> and \<open>(written, skipped)\<close>.\<close>

definition set_batch :: "'s kv_connection \<Rightarrow> KvStore \<Rightarrow> (string \<times> string) list \<Rightarrow> 's \<Rightarrow> (ApiError + nat \<times> nat) \<times> 's" where
  "set_batch cn kv es s =
     kv_then (kv_checked (validate_keys es) s) (\<lambda>_ s.
       in_transaction cn (kv_batch_loop (upsert cn kv) es (0, 0)) s)"

definition set_batch_if_absent ::
  "'s kv_connection \<Rightarrow> KvStore \<Rightarrow> (string \<times> string) list \<Rightarrow> 's \<Rightarrow> (ApiError + nat \<times> nat) \<times> 's" where
  "set_batch_if_absent cn kv es s =
     kv_then (kv_checked (validate_keys es) s) (\<lambda>_ s.
       in_transaction cn (kv_batch_loop (set_if_absent cn kv) es (0, 0)) s)"

definition kv_list_stores_impl :: "'s kv_connection \<Rightarrow> string \<Rightarrow> 's \<Rightarrow> (ApiError + string list) \<times> 's" where
  "kv_list_stores_impl cn t s =
     kv_then (plain_command cn (kv_create_table_sql t) s) (\<lambda>_ s.
     kv_then (query_rows cn (''SELECT DISTINCT store_name FROM '' @ t @ '' ORDER BY store_name ASC'') [] s)
       (\<lambda>rows s. (Inr (texts rows), s)))"

definition kv_list_stores :: "'s kv_connection \<Rightarrow> 's \<Rightarrow> (ApiError + string list) \<times> 's" where
  "kv_list_stores cn = kv_list_stores_impl cn KV_TABLE"

definition kv_list_stores_in :: "'s kv_connection \<Rightarrow> string \<Rightarrow> 's \<Rightarrow> (ApiError + string list) \<times> 's" where
  "kv_list_stores_in cn database s =
     kv_then (kv_target_prefix database, s) (\<lambda>p s. kv_list_stores_impl cn (p @ ''.'' @ KV_TABLE) s)"

section \<open>The table\<close>

text \<open>A row of the table: store, key, value.\<close>

type_synonym kv_table = "(string \<times> string \<times> string option) list"

text \<open>The statements the store sends, with their parameters, their text and their meaning.\<close>

datatype kv_statement =
    SelectValue string string
  | Update string string string
  | InsertAbsent string string string
  | Delete string string
  | Probe string string
  | Count string
  | SelectKeys string
  | SumBytes string
  | SelectEntries string
  | DeleteAll string
  | SelectLeast string

fun kv_text :: "string \<Rightarrow> kv_statement \<Rightarrow> string" where
  "kv_text t (SelectValue st k) = ''SELECT value FROM '' @ t @ '' WHERE store_name = $1 AND key = $2''"
| "kv_text t (Update st k v) = ''UPDATE '' @ t @ '' SET value = $3 WHERE store_name = $1 AND key = $2''"
| "kv_text t (InsertAbsent st k v) =
     ''INSERT INTO '' @ t @ '' (store_name, key, value) SELECT $1, $2, $3 WHERE NOT EXISTS (SELECT 1 FROM '' @ t
       @ '' WHERE store_name = $4 AND key = $5)''"
| "kv_text t (Delete st k) = ''DELETE FROM '' @ t @ '' WHERE store_name = $1 AND key = $2''"
| "kv_text t (Probe st k) = ''SELECT 1 FROM '' @ t @ '' WHERE store_name = $1 AND key = $2 LIMIT 1''"
| "kv_text t (Count st) = ''SELECT COUNT(*) FROM '' @ t @ '' WHERE store_name = $1''"
| "kv_text t (SelectKeys st) = ''SELECT key FROM '' @ t @ '' WHERE store_name = $1 ORDER BY key ASC''"
| "kv_text t (SumBytes st) = ''SELECT COALESCE(SUM(OCTET_LENGTH(value)), 0) FROM '' @ t @ '' WHERE store_name = $1''"
| "kv_text t (SelectEntries st) = ''SELECT key, value FROM '' @ t @ '' WHERE store_name = $1 ORDER BY key ASC''"
| "kv_text t (DeleteAll st) = ''DELETE FROM '' @ t @ '' WHERE store_name = $1''"
| "kv_text t (SelectLeast st) = ''SELECT key, value FROM '' @ t @ '' WHERE store_name = $1 ORDER BY key ASC LIMIT 1''"

fun kv_args :: "kv_statement \<Rightarrow> string list" where
  "kv_args (SelectValue st k) = [st, k]"
| "kv_args (Update st k v) = [st, k, v]"
| "kv_args (InsertAbsent st k v) = [st, k, v, st, k]"
| "kv_args (Delete st k) = [st, k]"
| "kv_args (Probe st k) = [st, k]"
| "kv_args (Count st) = [st]"
| "kv_args (SelectKeys st) = [st]"
| "kv_args (SumBytes st) = [st]"
| "kv_args (SelectEntries st) = [st]"
| "kv_args (DeleteAll st) = [st]"
| "kv_args (SelectLeast st) = [st]"

definition hit :: "string \<Rightarrow> string \<Rightarrow> string \<times> string \<times> string option \<Rightarrow> bool" where
  "hit st k r \<longleftrightarrow> fst r = st \<and> fst (snd r) = k"

definition of_store :: "string \<Rightarrow> string \<times> string \<times> string option \<Rightarrow> bool" where
  "of_store st r \<longleftrightarrow> fst r = st"

text \<open>Rows affected and the table afterwards.\<close>

fun command_meaning :: "kv_statement \<Rightarrow> kv_table \<Rightarrow> (nat \<times> kv_table) option" where
  "command_meaning (Update st k v) T =
     Some (length (filter (hit st k) T), map (\<lambda>r. if hit st k r then (st, k, Some v) else r) T)"
| "command_meaning (InsertAbsent st k v) T =
     Some (if filter (hit st k) T = [] then (1, T @ [(st, k, Some v)]) else (0, T))"
| "command_meaning (Delete st k) T = Some (length (filter (hit st k) T), filter (\<lambda>r. \<not> hit st k r) T)"
| "command_meaning (DeleteAll st) T = Some (length (filter (of_store st) T), filter (\<lambda>r. \<not> of_store st r) T)"
| "command_meaning _ T = None"

text \<open>The rows of a store in the server's order of keys.\<close>

definition in_order :: "(string \<Rightarrow> string \<Rightarrow> bool) \<Rightarrow> string \<Rightarrow> kv_table \<Rightarrow> kv_table \<Rightarrow> bool" where
  "in_order le st T p \<longleftrightarrow>
     mset p = mset (filter (of_store st) T) \<and> sorted_wrt (\<lambda>a b. le (fst (snd a)) (fst (snd b))) p"

definition columns :: "string \<times> string \<times> string option \<Rightarrow> string option list" where
  "columns r = [Some (fst (snd r)), snd (snd r)]"

fun rows_meaning ::
  "(string \<Rightarrow> string \<Rightarrow> bool) \<Rightarrow> kv_statement \<Rightarrow> kv_table \<Rightarrow> string option list list \<Rightarrow> bool" where
  "rows_meaning le (SelectValue st k) T rows \<longleftrightarrow> mset rows = mset (map (\<lambda>r. [snd (snd r)]) (filter (hit st k) T))"
| "rows_meaning le (Probe st k) T rows \<longleftrightarrow> length rows = min 1 (length (filter (hit st k) T))"
| "rows_meaning le (SelectKeys st) T rows \<longleftrightarrow> (\<exists>p. in_order le st T p \<and> rows = map (\<lambda>r. [Some (fst (snd r))]) p)"
| "rows_meaning le (SelectEntries st) T rows \<longleftrightarrow> (\<exists>p. in_order le st T p \<and> rows = map columns p)"
| "rows_meaning le (SelectLeast st) T rows \<longleftrightarrow> (\<exists>p. in_order le st T p \<and> rows = map columns (take 1 p))"
| "rows_meaning le _ T rows \<longleftrightarrow> False"

fun selects :: "kv_statement \<Rightarrow> bool" where
  "selects (SelectValue _ _) \<longleftrightarrow> True"
| "selects (Probe _ _) \<longleftrightarrow> True"
| "selects (SelectKeys _) \<longleftrightarrow> True"
| "selects (SelectEntries _) \<longleftrightarrow> True"
| "selects (SelectLeast _) \<longleftrightarrow> True"
| "selects _ \<longleftrightarrow> False"

fun scalar_meaning :: "kv_statement \<Rightarrow> kv_table \<Rightarrow> int option" where
  "scalar_meaning (Count st) T = Some (int (length (filter (of_store st) T)))"
| "scalar_meaning (SumBytes st) T =
     Some (sum_list (map (\<lambda>r. case snd (snd r) of Some v \<Rightarrow> int (length v) | None \<Rightarrow> 0) (filter (of_store st) T)))"
| "scalar_meaning _ T = None"

text \<open>What is relied on, for a server whose table \<open>t\<close> holds \<open>rows s\<close> and whose open transaction, if any, began
  with \<open>saved s\<close>: a statement that succeeds has its meaning; one that fails outside a transaction
  changes nothing; a transaction keeps what it began with until it is committed or rolled back, a
  failed commit leaves it open or undoes it, and a failed rollback leaves it open.\<close>

definition undisturbed :: "('s \<Rightarrow> kv_table) \<Rightarrow> ('s \<Rightarrow> kv_table option) \<Rightarrow> 's \<Rightarrow> 's \<Rightarrow> bool" where
  "undisturbed rows saved s s' \<longleftrightarrow> saved s' = saved s \<and> (saved s = None \<longrightarrow> rows s' = rows s)"

definition sql_laws ::
  "'s kv_connection \<Rightarrow> ('s \<Rightarrow> kv_table) \<Rightarrow> ('s \<Rightarrow> kv_table option) \<Rightarrow> (string \<Rightarrow> string \<Rightarrow> bool) \<Rightarrow> string \<Rightarrow> bool" where
  "sql_laws cn rows saved le t \<longleftrightarrow>
     (\<forall>x s n T r s'. command_meaning x (rows s) = Some (n, T) \<longrightarrow>
        command_params cn (kv_text t x) (kv_args x) s = (r, s') \<longrightarrow>
        (case r of Inr n' \<Rightarrow> n' = n \<and> rows s' = T \<and> saved s' = saved s | Inl _ \<Rightarrow> undisturbed rows saved s s')) \<and>
     (\<forall>x s r s'. selects x \<longrightarrow> query_rows cn (kv_text t x) (kv_args x) s = (r, s') \<longrightarrow>
        (case r of Inr rs \<Rightarrow> rows s' = rows s \<and> saved s' = saved s \<and> rows_meaning le x (rows s) rs
         | Inl _ \<Rightarrow> undisturbed rows saved s s')) \<and>
     (\<forall>x s n r s'. scalar_meaning x (rows s) = Some n \<longrightarrow>
        query_scalar cn (kv_text t x) (kv_args x) s = (r, s') \<longrightarrow>
        (case r of Inr n' \<Rightarrow> n' = Some n \<and> rows s' = rows s \<and> saved s' = saved s
         | Inl _ \<Rightarrow> undisturbed rows saved s s')) \<and>
     (\<forall>s r s'. tx_begin cn s = (r, s') \<longrightarrow>
        (case r of Inr _ \<Rightarrow> rows s' = rows s \<and> saved s' = Some (rows s) | Inl _ \<Rightarrow> undisturbed rows saved s s')) \<and>
     (\<forall>s T r s'. saved s = Some T \<longrightarrow> tx_commit cn s = (r, s') \<longrightarrow>
        (case r of Inr _ \<Rightarrow> rows s' = rows s \<and> saved s' = None
         | Inl _ \<Rightarrow> saved s' = Some T \<or> saved s' = None \<and> rows s' = T)) \<and>
     (\<forall>s T r s'. saved s = Some T \<longrightarrow> tx_rollback cn s = (r, s') \<longrightarrow>
        (case r of Inr _ \<Rightarrow> saved s' = None \<and> rows s' = T | Inl _ \<Rightarrow> saved s' = Some T)) \<and>
     (\<forall>a. le a a)"

section \<open>A store is a map\<close>

text \<open>One row for each key of a store, and no NULL.\<close>

definition kv_wf :: "kv_table \<Rightarrow> bool" where
  "kv_wf T \<longleftrightarrow> distinct (map (\<lambda>r. (fst r, fst (snd r))) T) \<and> (\<forall>r \<in> set T. snd (snd r) \<noteq> None)"

definition kv_map :: "kv_table \<Rightarrow> string \<Rightarrow> string \<rightharpoonup> string" where
  "kv_map T st k = (case find (hit st k) T of Some r \<Rightarrow> snd (snd r) | None \<Rightarrow> None)"

lemma kv_wf_unique:
  assumes "kv_wf T" "r \<in> set T" "r' \<in> set T" "fst r = fst r'" "fst (snd r) = fst (snd r')"
  shows "r = r'"
proof -
  have "inj_on (\<lambda>r. (fst r, fst (snd r))) (set T)"
    using assms(1) by (simp add: kv_wf_def distinct_map)
  then show ?thesis
    by (rule inj_onD) (use assms in simp_all)
qed

lemma find_found: "find P xs = Some r \<Longrightarrow> r \<in> set xs \<and> P r"
  by (induction xs) (auto split: if_splits)

lemma kv_map_Some:
  assumes "kv_wf T"
  shows "kv_map T st k = Some v \<longleftrightarrow> (st, k, Some v) \<in> set T"
proof
  assume "kv_map T st k = Some v"
  then obtain r where "find (hit st k) T = Some r" "snd (snd r) = Some v"
    by (auto simp: kv_map_def split: option.splits)
  then show "(st, k, Some v) \<in> set T"
    using find_found [of "hit st k" T r] by (cases r) (auto simp: hit_def)
next
  assume m: "(st, k, Some v) \<in> set T"
  then obtain r where r: "find (hit st k) T = Some r"
    by (cases "find (hit st k) T") (auto simp: find_None_iff hit_def)
  from find_found [OF r] have "r \<in> set T" "hit st k r"
    by simp_all
  with m have "r = (st, k, Some v)"
    by (intro kv_wf_unique [OF assms]) (simp_all add: hit_def)
  with r show "kv_map T st k = Some v"
    by (simp add: kv_map_def)
qed

lemma map_Some_eqI:
  assumes "\<And>k v. f k = Some v \<longleftrightarrow> g k = Some v"
  shows "f = g"
proof (rule ext)
  fix k
  show "f k = g k"
    using assms [of k "the (f k)"] assms [of k "the (g k)"] by (cases "f k"; cases "g k") auto
qed

lemma kv_map_eqI:
  assumes "kv_wf T" "\<And>k v. (st, k, Some v) \<in> set T \<longleftrightarrow> m k = Some v"
  shows "kv_map T st = m"
  by (rule ext) (metis assms kv_map_Some not_Some_eq)

lemma kv_map_None:
  assumes "kv_wf T"
  shows "kv_map T st k = None \<longleftrightarrow> filter (hit st k) T = []"
proof (cases "find (hit st k) T")
  case None
  then have "filter (hit st k) T = []"
    by (auto simp: find_None_iff filter_empty_conv)
  with None show ?thesis by (simp add: kv_map_def)
next
  case (Some r)
  then show ?thesis
    using assms find_found [OF Some] by (auto simp: kv_map_def kv_wf_def filter_empty_conv)
qed

lemma singleton_list: "distinct xs \<Longrightarrow> set xs = {a} \<Longrightarrow> xs = [a]"
  by (cases xs; cases "tl xs") auto

lemma hits_single:
  assumes "kv_wf T" "kv_map T st k = Some v"
  shows "filter (hit st k) T = [(st, k, Some v)]"
proof (rule singleton_list)
  show "distinct (filter (hit st k) T)"
    using assms(1) by (auto simp: kv_wf_def distinct_map)
  have m: "(st, k, Some v) \<in> set T"
    using assms kv_map_Some by simp
  have "r = (st, k, Some v)" if "r \<in> set (filter (hit st k) T)" for r
    using that m by (intro kv_wf_unique [OF assms(1)]) (simp_all add: hit_def)
  then have "set (filter (hit st k) T) \<subseteq> {(st, k, Some v)}"
    by blast
  moreover have "(st, k, Some v) \<in> set (filter (hit st k) T)"
    using m by (simp add: hit_def)
  ultimately show "set (filter (hit st k) T) = {(st, k, Some v)}"
    by blast
qed

text \<open>The commands on the map; other stores keep theirs.\<close>

lemma Update_wf:
  assumes "kv_wf T"
  shows "kv_wf (map (\<lambda>r. if hit st k r then (st, k, Some v) else r) T)"
proof -
  have "map (\<lambda>r. (fst r, fst (snd r))) (map (\<lambda>r. if hit st k r then (st, k, Some v) else r) T) = map (\<lambda>r. (fst r, fst (snd r))) T"
    by (auto simp: hit_def)
  moreover have "\<forall>r \<in> set (map (\<lambda>r. if hit st k r then (st, k, Some v) else r) T). snd (snd r) \<noteq> None"
    using assms by (auto simp: kv_wf_def)
  ultimately show ?thesis
    using assms by (simp only: kv_wf_def)
qed

lemma Update_map:
  assumes "kv_wf T"
  shows "kv_map (map (\<lambda>r. if hit st k r then (st, k, Some v) else r) T) st' =
    (if st' = st \<and> kv_map T st k \<noteq> None then (kv_map T st)(k \<mapsto> v) else kv_map T st')"
proof (rule kv_map_eqI [OF Update_wf [OF assms]])
  have ex: "kv_map T st k \<noteq> None \<longleftrightarrow> (\<exists>r \<in> set T. hit st k r)"
    using kv_map_None [OF assms, of st k] by (auto simp: filter_empty_conv)
  show "(st', k', Some v') \<in> set (map (\<lambda>r. if hit st k r then (st, k, Some v) else r) T) \<longleftrightarrow>
    (if st' = st \<and> kv_map T st k \<noteq> None then (kv_map T st)(k \<mapsto> v) else kv_map T st') k' = Some v'" for k' v'
    using ex kv_map_Some [OF assms] by (auto simp: image_iff hit_def split: if_splits)
qed

lemma Insert_wf: "kv_wf T \<Longrightarrow> filter (hit st k) T = [] \<Longrightarrow> kv_wf (T @ [(st, k, Some v)])"
  by (auto simp: kv_wf_def filter_empty_conv hit_def)

lemma Insert_map:
  assumes "kv_wf T" "filter (hit st k) T = []"
  shows "kv_map (T @ [(st, k, Some v)]) st' = (if st' = st then (kv_map T st)(k \<mapsto> v) else kv_map T st')"
proof (rule kv_map_eqI [OF Insert_wf [OF assms]])
  show "(st', k', Some v') \<in> set (T @ [(st, k, Some v)]) \<longleftrightarrow>
    (if st' = st then (kv_map T st)(k \<mapsto> v) else kv_map T st') k' = Some v'" for k' v'
    using kv_map_Some [OF assms(1)] assms(2) by (auto simp: filter_empty_conv hit_def)
qed

lemma filter_wf: "kv_wf T \<Longrightarrow> kv_wf (filter P T)"
  by (auto simp: kv_wf_def distinct_map intro: inj_on_subset)

lemma Delete_map:
  assumes "kv_wf T"
  shows "kv_map (filter (\<lambda>r. \<not> hit st k r) T) st' = (if st' = st then (kv_map T st)(k := None) else kv_map T st')"
proof (rule kv_map_eqI [OF filter_wf [OF assms]])
  show "(st', k', Some v') \<in> set (filter (\<lambda>r. \<not> hit st k r) T) \<longleftrightarrow>
    (if st' = st then (kv_map T st)(k := None) else kv_map T st') k' = Some v'" for k' v'
    using kv_map_Some [OF assms] by (auto simp: hit_def)
qed

lemma DeleteAll_map:
  assumes "kv_wf T"
  shows "kv_map (filter (\<lambda>r. \<not> of_store st r) T) st' = (if st' = st then Map.empty else kv_map T st')"
proof (rule kv_map_eqI [OF filter_wf [OF assms]])
  show "(st', k', Some v') \<in> set (filter (\<lambda>r. \<not> of_store st r) T) \<longleftrightarrow>
    (if st' = st then Map.empty else kv_map T st') k' = Some v'" for k' v'
    using kv_map_Some [OF assms] by (auto simp: of_store_def)
qed

section \<open>The operations\<close>

lemma command_law:
  assumes "sql_laws cn rows saved le t" "command_meaning x (rows s) = Some (n, T)"
    and "command_params cn (kv_text t x) (kv_args x) s = (r, s')"
  shows "case r of Inr n' \<Rightarrow> n' = n \<and> rows s' = T \<and> saved s' = saved s | Inl _ \<Rightarrow> undisturbed rows saved s s'"
  using assms(1) [unfolded sql_laws_def, THEN conjunct1, rule_format, OF assms(2,3)] .

lemma query_law:
  assumes "sql_laws cn rows saved le t" "selects x" "query_rows cn (kv_text t x) (kv_args x) s = (r, s')"
  shows "case r of Inr rs \<Rightarrow> rows s' = rows s \<and> saved s' = saved s \<and> rows_meaning le x (rows s) rs
    | Inl _ \<Rightarrow> undisturbed rows saved s s'"
  using assms(1) [unfolded sql_laws_def, THEN conjunct2, THEN conjunct1, rule_format, OF assms(2,3)] .

lemma scalar_law:
  assumes "sql_laws cn rows saved le t" "scalar_meaning x (rows s) = Some n"
    and "query_scalar cn (kv_text t x) (kv_args x) s = (r, s')"
  shows "case r of Inr n' \<Rightarrow> n' = Some n \<and> rows s' = rows s \<and> saved s' = saved s | Inl _ \<Rightarrow> undisturbed rows saved s s'"
  using assms(1) [unfolded sql_laws_def, THEN conjunct2, THEN conjunct2, THEN conjunct1, rule_format, OF assms(2,3)] .

lemma begin_law:
  assumes "sql_laws cn rows saved le t" "tx_begin cn s = (r, s')"
  shows "case r of Inr _ \<Rightarrow> rows s' = rows s \<and> saved s' = Some (rows s) | Inl _ \<Rightarrow> undisturbed rows saved s s'"
  using assms(1) [unfolded sql_laws_def, THEN conjunct2, THEN conjunct2, THEN conjunct2, THEN conjunct1, rule_format, OF assms(2)] .

lemma commit_law:
  assumes "sql_laws cn rows saved le t" "saved s = Some T" "tx_commit cn s = (r, s')"
  shows "case r of Inr _ \<Rightarrow> rows s' = rows s \<and> saved s' = None | Inl _ \<Rightarrow> saved s' = None \<longrightarrow> rows s' = T"
  using assms(1) [unfolded sql_laws_def, THEN conjunct2, THEN conjunct2, THEN conjunct2, THEN conjunct2, THEN conjunct1,
      rule_format, OF assms(2,3)]
  by (auto split: sum.splits)

lemma rollback_law:
  assumes "sql_laws cn rows saved le t" "saved s = Some T" "saved (snd (tx_rollback cn s)) = None"
  shows "rows (snd (tx_rollback cn s)) = T"
  using assms(1) [unfolded sql_laws_def, THEN conjunct2, THEN conjunct2, THEN conjunct2, THEN conjunct2, THEN conjunct2,
      THEN conjunct1, rule_format, OF assms(2), of "fst (tx_rollback cn s)" "snd (tx_rollback cn s)"] assms(3)
  by (auto split: sum.splits)

lemma order_refl: "sql_laws cn rows saved le t \<Longrightarrow> le a a"
  by (simp add: sql_laws_def)

text \<open>The row of a key written, replacing the one it has.\<close>

definition write_row :: "string \<Rightarrow> string \<Rightarrow> string \<Rightarrow> kv_table \<Rightarrow> kv_table" where
  "write_row st k v T =
     (if filter (hit st k) T = [] then T @ [(st, k, Some v)]
      else map (\<lambda>r. if hit st k r then (st, k, Some v) else r) T)"

lemma write_row_wf: "kv_wf T \<Longrightarrow> kv_wf (write_row st k v T)"
  by (simp add: write_row_def Insert_wf Update_wf)

lemma write_row_map:
  "kv_wf T \<Longrightarrow> kv_map (write_row st k v T) st' = (if st' = st then (kv_map T st)(k \<mapsto> v) else kv_map T st')"
  using kv_map_None [of T st k] by (simp add: write_row_def Insert_map Update_map)

lemma undisturbed_trans:
  "rows s1 = rows s \<Longrightarrow> saved s1 = saved s \<Longrightarrow> undisturbed rows saved s1 s' \<Longrightarrow> undisturbed rows saved s s'"
  by (simp add: undisturbed_def)

lemma undisturbed_refl [simp]: "undisturbed rows saved s s"
  by (simp add: undisturbed_def)

text \<open>What an operation that writes does, for a meaning \<open>f\<close> of answer and table.\<close>

definition does :: "('s \<Rightarrow> kv_table) \<Rightarrow> ('s \<Rightarrow> kv_table option) \<Rightarrow> 's \<Rightarrow> 'a \<times> kv_table \<Rightarrow> (ApiError + 'a) \<times> 's \<Rightarrow> bool" where
  "does rows saved s m x =
     (case x of (Inr a, s') \<Rightarrow> a = fst m \<and> rows s' = snd m \<and> saved s' = saved s | (Inl _, s') \<Rightarrow> undisturbed rows saved s s')"

lemma upsert_does:
  assumes laws: "sql_laws cn rows saved le (table_ref kv)"
  shows "does rows saved s (filter (hit (store_name kv) k) (rows s) = [], write_row (store_name kv) k v (rows s)) (upsert cn kv k v s)"
proof -
  let ?st = "store_name kv"
  obtain r1 s1 where s1: "command_params cn (kv_text (table_ref kv) (Update ?st k v)) (kv_args (Update ?st k v)) s = (r1, s1)"
    by (cases "command_params cn (kv_text (table_ref kv) (Update ?st k v)) (kv_args (Update ?st k v)) s")
  obtain r2 s2 where s2: "command_params cn (kv_text (table_ref kv) (InsertAbsent ?st k v)) (kv_args (InsertAbsent ?st k v)) s1 = (r2, s2)"
    by (cases "command_params cn (kv_text (table_ref kv) (InsertAbsent ?st k v)) (kv_args (InsertAbsent ?st k v)) s1")
  note u = command_law [OF laws command_meaning.simps(1) s1]
  have same: "filter (hit ?st k) (rows s) = [] \<Longrightarrow> map (\<lambda>r. if hit ?st k r then (?st, k, Some v) else r) (rows s) = rows s"
    by (rule map_idI) (auto simp: filter_empty_conv)
  have i: "case r2 of Inr _ \<Rightarrow> rows s2 = rows s @ [(?st, k, Some v)] \<and> saved s2 = saved s | Inl _ \<Rightarrow> undisturbed rows saved s s2"
    if "filter (hit ?st k) (rows s) = []" "r1 = Inr n" for n
  proof -
    have "command_meaning (InsertAbsent ?st k v) (rows s1) = Some (1, rows s @ [(?st, k, Some v)])"
      using u that same by simp
    from command_law [OF laws this s2] u that same show ?thesis
      by (auto split: sum.splits intro: undisturbed_trans)
  qed
  show ?thesis
    using s1 s2 u i unfolding upsert_def insert_absent_sql_def kv_text.simps [symmetric] does_def
    by (auto simp: kv_then_def write_row_def split: sum.splits)
qed

lemma set_if_absent_does:
  assumes laws: "sql_laws cn rows saved le (table_ref kv)"
  shows "does rows saved s
    (if filter (hit (store_name kv) k) (rows s) = [] then (True, write_row (store_name kv) k v (rows s)) else (False, rows s))
    (set_if_absent cn kv k v s)"
proof (cases "validate_kv_name k ''key''")
  case (Inl e)
  then show ?thesis by (simp add: set_if_absent_def kv_checked_def kv_then_def does_def)
next
  case (Inr u)
  let ?st = "store_name kv"
  obtain r s1 where s1: "command_params cn (kv_text (table_ref kv) (InsertAbsent ?st k v)) (kv_args (InsertAbsent ?st k v)) s = (r, s1)"
    by (cases "command_params cn (kv_text (table_ref kv) (InsertAbsent ?st k v)) (kv_args (InsertAbsent ?st k v)) s")
  have "command_meaning (InsertAbsent ?st k v) (rows s) =
      Some (if filter (hit ?st k) (rows s) = [] then 1 else 0,
        if filter (hit ?st k) (rows s) = [] then write_row ?st k v (rows s) else rows s)"
    by (simp add: write_row_def)
  from command_law [OF laws this s1] show ?thesis
    using Inr s1 unfolding set_if_absent_def insert_absent_sql_def does_def
    by (auto simp: kv_then_def kv_checked_def split: sum.splits)
qed

subsection \<open>Transactions and batches\<close>

lemma in_transaction_does:
  assumes laws: "sql_laws cn rows saved le t" and closed: "saved s = None"
    and body: "\<And>s1. saved s1 \<noteq> None \<Longrightarrow>
      (case body s1 of (Inr a, s2) \<Rightarrow> good a (rows s1) (rows s2) \<and> saved s2 = saved s1 | (Inl _, s2) \<Rightarrow> saved s2 = saved s1)"
    and run: "in_transaction cn body s = (r, s')"
  shows "case r of Inr a \<Rightarrow> good a (rows s) (rows s') \<and> saved s' = None | Inl _ \<Rightarrow> saved s' = None \<longrightarrow> rows s' = rows s"
proof -
  obtain b s1 where s1: "tx_begin cn s = (b, s1)" by (cases "tx_begin cn s")
  obtain x s2 where s2: "body s1 = (x, s2)" by (cases "body s1")
  obtain c s3 where s3: "tx_commit cn s2 = (c, s3)" by (cases "tx_commit cn s2")
  note bl = begin_law [OF laws s1]
  show ?thesis
  proof (cases b)
    case (Inl e)
    then show ?thesis
      using run s1 bl closed by (auto simp: in_transaction_def kv_then_def undisturbed_def)
  next
    case (Inr u)
    then have s1': "rows s1 = rows s" "saved s1 = Some (rows s)" using bl by simp_all
    note bd = body [of s1, unfolded s2 s1', simplified]
    show ?thesis
    proof (cases x)
      case (Inl e)
      then have "saved s2 = Some (rows s)" using bd by simp
      then show ?thesis
        using run s1 s2 Inr Inl rollback_law [OF laws] by (auto simp: in_transaction_def kv_then_def)
    next
      case (Inr a)
      then have good: "good a (rows s) (rows s2)" "saved s2 = Some (rows s)" using bd by simp_all
      then show ?thesis
        using run s1 s2 s3 Inr \<open>b = Inr u\<close> commit_law [OF laws good(2) s3]
        by (auto simp: in_transaction_def kv_then_def split: sum.splits)
    qed
  qed
qed

fun batch_meaning ::
  "(string \<Rightarrow> string \<Rightarrow> kv_table \<Rightarrow> bool \<times> kv_table) \<Rightarrow> (string \<times> string) list \<Rightarrow> nat \<times> nat \<Rightarrow> kv_table
     \<Rightarrow> (nat \<times> nat) \<times> kv_table" where
  "batch_meaning g [] acc T = (acc, T)"
| "batch_meaning g ((k, v) # es) acc T =
     batch_meaning g es (if fst (g k v T) then (fst acc + 1, snd acc) else (fst acc, snd acc + 1)) (snd (g k v T))"

lemma batch_loop_does:
  assumes "\<And>k v s. does rows saved s (g k v (rows s)) (f k v s)"
  shows "case kv_batch_loop f es acc s of
      (Inr c, s') \<Rightarrow> batch_meaning g es acc (rows s) = (c, rows s') \<and> saved s' = saved s
    | (Inl _, s') \<Rightarrow> saved s' = saved s"
proof (induction es arbitrary: acc s)
  case Nil
  then show ?case by simp
next
  case (Cons e es)
  obtain k v where e: "e = (k, v)" by (cases e)
  obtain r s1 where s1: "f k v s = (r, s1)" by (cases "f k v s")
  have d: "does rows saved s (g k v (rows s)) (r, s1)"
    using assms [where k = k and v = v and s = s] s1 by simp
  show ?case
  proof (cases r)
    case (Inl x)
    with s1 d show ?thesis by (simp add: e kv_then_def does_def undisturbed_def)
  next
    case (Inr b)
    then have b: "b = fst (g k v (rows s))" "rows s1 = snd (g k v (rows s))" "saved s1 = saved s"
      using d by (simp_all add: does_def)
    let ?acc = "if b then (fst acc + 1, snd acc) else (fst acc, snd acc + 1)"
    obtain x s2 where s2: "kv_batch_loop f es ?acc s1 = (x, s2)" by (cases "kv_batch_loop f es ?acc s1")
    have "kv_batch_loop f (e # es) acc s = (x, s2)"
      unfolding s2 [symmetric] using Inr s1 by (simp add: e kv_then_def)
    moreover have "batch_meaning g (e # es) acc (rows s) = batch_meaning g es ?acc (rows s1)"
      unfolding b(2) using b(1) by (simp add: e)
    ultimately show ?thesis
      using Cons.IH [where acc = ?acc and s = s1] s2 b(3) by (auto split: sum.splits)
  qed
qed

definition put_meaning :: "string \<Rightarrow> string \<Rightarrow> string \<Rightarrow> kv_table \<Rightarrow> bool \<times> kv_table" where
  "put_meaning st k v T = (filter (hit st k) T = [], write_row st k v T)"

definition absent_meaning :: "string \<Rightarrow> string \<Rightarrow> string \<Rightarrow> kv_table \<Rightarrow> bool \<times> kv_table" where
  "absent_meaning st k v T = (if filter (hit st k) T = [] then (True, write_row st k v T) else (False, T))"

lemma put_meaning_sel [simp]:
  "fst (put_meaning st k v T) \<longleftrightarrow> filter (hit st k) T = []" "snd (put_meaning st k v T) = write_row st k v T"
  "fst (absent_meaning st k v T) \<longleftrightarrow> filter (hit st k) T = []"
  "snd (absent_meaning st k v T) = (if filter (hit st k) T = [] then write_row st k v T else T)"
  by (simp_all add: put_meaning_def absent_meaning_def)

lemma card_new:
  assumes "finite A"
  shows "card (insert k A - D) = (if k \<in> D then 0 else 1) + card (A - insert k D)"
proof (cases "k \<in> D")
  case False
  then have "insert k A - D = insert k (A - insert k D)" by blast
  with False assms show ?thesis by simp
qed (simp add: insert_absorb)

text \<open>What a batch leaves behind: the later of two entries for a key wins when it overwrites, the
  earlier one when it only fills gaps.\<close>

lemma put_batch:
  assumes "kv_wf T" "batch_meaning (put_meaning st) es acc T = ((c, d), T')"
  shows "kv_wf T' \<and> kv_map T' st = kv_map T st ++ map_of (rev es) \<and> (\<forall>st'. st' \<noteq> st \<longrightarrow> kv_map T' st' = kv_map T st') \<and>
    c = fst acc + card (fst ` set es - dom (kv_map T st)) \<and> c + d = fst acc + snd acc + length es"
  using assms
proof (induction es arbitrary: acc T)
  case (Cons e es)
  obtain k v where e: "e = (k, v)" by (cases e)
  let ?T = "write_row st k v T"
  let ?m = "kv_map T st"
  have T: "kv_wf ?T" "kv_map ?T st = ?m(k \<mapsto> v)" "\<And>st'. st' \<noteq> st \<Longrightarrow> kv_map ?T st' = kv_map T st'"
    using Cons.prems(1) by (simp_all add: write_row_wf write_row_map)
  have new: "filter (hit st k) T = [] \<longleftrightarrow> k \<notin> dom ?m"
    using kv_map_None [OF Cons.prems(1), of st k] by auto
  let ?acc = "if filter (hit st k) T = [] then (fst acc + 1, snd acc) else (fst acc, snd acc + 1)"
  have "batch_meaning (put_meaning st) es ?acc ?T = ((c, d), T')"
    using Cons.prems(2) by (simp add: e)
  note IH = Cons.IH [OF T(1) this]
  obtain m where m: "kv_map ?T st = m" "dom m = insert k (dom ?m)" "?m ++ map_of (rev (e # es)) = m ++ map_of (rev es)"
    using T(2) by (auto simp: e)
  have "card (fst ` set (e # es) - dom ?m) = (if k \<in> dom ?m then 0 else 1) + card (fst ` set es - dom m)"
    using card_new [of "fst ` set es" k "dom ?m"] by (simp add: e m(2))
  then show ?case
    unfolding m(3) using IH [unfolded m(1)] T(3) new by (cases "k \<in> dom ?m") simp_all
qed simp

lemma absent_batch:
  assumes "kv_wf T" "batch_meaning (absent_meaning st) es acc T = ((c, d), T')"
  shows "kv_wf T' \<and> kv_map T' st = map_of es ++ kv_map T st \<and> (\<forall>st'. st' \<noteq> st \<longrightarrow> kv_map T' st' = kv_map T st') \<and>
    c = fst acc + card (fst ` set es - dom (kv_map T st)) \<and> c + d = fst acc + snd acc + length es"
  using assms
proof (induction es arbitrary: acc T)
  case (Cons e es)
  obtain k v where e: "e = (k, v)" by (cases e)
  let ?T = "if filter (hit st k) T = [] then write_row st k v T else T"
  let ?m = "kv_map T st"
  have new: "filter (hit st k) T = [] \<longleftrightarrow> k \<notin> dom ?m"
    using kv_map_None [OF Cons.prems(1), of st k] by auto
  have T: "kv_wf ?T" "kv_map ?T st = (if k \<in> dom ?m then ?m else ?m(k \<mapsto> v))"
      "\<And>st'. st' \<noteq> st \<Longrightarrow> kv_map ?T st' = kv_map T st'"
    using Cons.prems(1) new by (simp_all add: write_row_wf write_row_map)
  let ?acc = "if filter (hit st k) T = [] then (fst acc + 1, snd acc) else (fst acc, snd acc + 1)"
  have "batch_meaning (absent_meaning st) es ?acc ?T = ((c, d), T')"
    using Cons.prems(2) by (simp add: e)
  note IH = Cons.IH [OF T(1) this]
  have "map_of (e # es) ++ ?m = map_of es ++ (if k \<in> dom ?m then ?m else ?m(k \<mapsto> v))"
    by (rule ext) (auto simp: e map_add_def split: option.split)
  then obtain m where m: "kv_map ?T st = m" "dom m = insert k (dom ?m)" "map_of (e # es) ++ ?m = map_of es ++ m"
    using T(2) by (auto simp: insert_absorb)
  have "card (fst ` set (e # es) - dom ?m) = (if k \<in> dom ?m then 0 else 1) + card (fst ` set es - dom m)"
    using card_new [of "fst ` set es" k "dom ?m"] by (simp add: e m(2))
  then show ?case
    unfolding m(3) using IH [unfolded m(1)] T(3) new by (cases "k \<in> dom ?m") simp_all
qed simp

section \<open>Properties\<close>

text \<open>The operations of a store, their answers, and what they are on a map.\<close>

datatype kv_operation =
    KvGet string
  | KvSet string string
  | KvSetIfAbsent string string
  | KvDelete string
  | KvExists string
  | KvSize
  | KvKeys
  | KvByteSize
  | KvEntries
  | KvClear
  | KvPop

datatype kv_answer =
    TextAnswer "string option"
  | BoolAnswer bool
  | IntAnswer int
  | KeysAnswer "string list"
  | EntriesAnswer "(string \<times> string) list"
  | PopAnswer "(string \<times> string) option"

definition answered :: "('a \<Rightarrow> kv_answer) \<Rightarrow> (ApiError + 'a) \<times> 's \<Rightarrow> (ApiError + kv_answer) \<times> 's" where
  "answered f x = (case x of (Inl e, s) \<Rightarrow> (Inl e, s) | (Inr a, s) \<Rightarrow> (Inr (f a), s))"

fun run_operation :: "'s kv_connection \<Rightarrow> KvStore \<Rightarrow> kv_operation \<Rightarrow> 's \<Rightarrow> (ApiError + kv_answer) \<times> 's" where
  "run_operation cn kv (KvGet k) s = answered TextAnswer (kv_get cn kv k s)"
| "run_operation cn kv (KvSet k v) s = answered BoolAnswer (kv_set cn kv k v s)"
| "run_operation cn kv (KvSetIfAbsent k v) s = answered BoolAnswer (set_if_absent cn kv k v s)"
| "run_operation cn kv (KvDelete k) s = answered BoolAnswer (kv_delete cn kv k s)"
| "run_operation cn kv (KvExists k) s = answered BoolAnswer (kv_exists cn kv k s)"
| "run_operation cn kv KvSize s = answered IntAnswer (kv_size cn kv s)"
| "run_operation cn kv KvKeys s = answered KeysAnswer (kv_keys cn kv s)"
| "run_operation cn kv KvByteSize s = answered IntAnswer (byte_size cn kv s)"
| "run_operation cn kv KvEntries s = answered EntriesAnswer (kv_entries cn kv s)"
| "run_operation cn kv KvClear s = answered (\<lambda>n. IntAnswer (int n)) (kv_clear cn kv s)"
| "run_operation cn kv KvPop s = answered PopAnswer (kv_pop cn kv s)"

fun map_operation ::
  "(string \<Rightarrow> string \<Rightarrow> bool) \<Rightarrow> kv_operation \<Rightarrow> (string \<rightharpoonup> string) \<Rightarrow> kv_answer \<Rightarrow> (string \<rightharpoonup> string) \<Rightarrow> bool" where
  "map_operation le (KvGet k) m a m' \<longleftrightarrow> a = TextAnswer (m k) \<and> m' = m"
| "map_operation le (KvSet k v) m a m' \<longleftrightarrow> a = BoolAnswer (m k = None) \<and> m' = m(k \<mapsto> v)"
| "map_operation le (KvSetIfAbsent k v) m a m' \<longleftrightarrow>
     a = BoolAnswer (m k = None) \<and> m' = (if m k = None then m(k \<mapsto> v) else m)"
| "map_operation le (KvDelete k) m a m' \<longleftrightarrow> a = BoolAnswer (m k \<noteq> None) \<and> m' = m(k := None)"
| "map_operation le (KvExists k) m a m' \<longleftrightarrow> a = BoolAnswer (m k \<noteq> None) \<and> m' = m"
| "map_operation le KvSize m a m' \<longleftrightarrow> a = IntAnswer (int (card (dom m))) \<and> m' = m"
| "map_operation le KvKeys m a m' \<longleftrightarrow>
     (\<exists>ks. a = KeysAnswer ks \<and> set ks = dom m \<and> distinct ks \<and> sorted_wrt le ks) \<and> m' = m"
| "map_operation le KvByteSize m a m' \<longleftrightarrow> a = IntAnswer (\<Sum>k \<in> dom m. int (length (the (m k)))) \<and> m' = m"
| "map_operation le KvEntries m a m' \<longleftrightarrow>
     (\<exists>es. a = EntriesAnswer es \<and> map_of es = m \<and> distinct (map fst es) \<and> sorted_wrt le (map fst es)) \<and> m' = m"
| "map_operation le KvClear m a m' \<longleftrightarrow> a = IntAnswer (int (card (dom m))) \<and> m' = Map.empty"
| "map_operation le KvPop m a m' \<longleftrightarrow>
     (if m = Map.empty then a = PopAnswer None \<and> m' = m
      else \<exists>k v. m k = Some v \<and> (\<forall>k' \<in> dom m. le k k') \<and> a = PopAnswer (Some (k, v)) \<and> m' = m(k := None))"

text \<open>The rows of a store, as a list of the bindings of its map.\<close>

lemma store_rows:
  assumes "kv_wf T" "mset p = mset (filter (of_store st) T)"
  shows "map_of (map (\<lambda>r. (fst (snd r), the (snd (snd r)))) p) = kv_map T st"
    "distinct (map (\<lambda>r. fst (snd r)) p)" "set (map (\<lambda>r. fst (snd r)) p) = dom (kv_map T st)"
    "\<And>r. r \<in> set p \<Longrightarrow> \<exists>k v. r = (st, k, Some v) \<and> kv_map T st k = Some v"
proof -
  have p: "set p = {r \<in> set T. fst r = st}"
    using mset_eq_setD [OF assms(2)] by (auto simp: of_store_def)
  then show rows: "\<exists>k v. r = (st, k, Some v) \<and> kv_map T st k = Some v" if "r \<in> set p" for r
    using that assms(1) kv_map_Some [OF assms(1)] by (cases r) (auto simp: kv_wf_def)
  have "distinct T"
    using assms(1) by (simp add: kv_wf_def distinct_map)
  then have "distinct p"
    using assms(2) by (metis distinct_filter mset_eq_imp_distinct_iff)
  moreover have "inj_on (\<lambda>r. fst (snd r)) (set p)"
    unfolding inj_on_def p using kv_wf_unique [OF assms(1)] by auto
  ultimately show d: "distinct (map (\<lambda>r. fst (snd r)) p)"
    by (simp add: distinct_map)
  have bind: "(k, v) \<in> set (map (\<lambda>r. (fst (snd r), the (snd (snd r)))) p) \<longleftrightarrow> kv_map T st k = Some v" for k v
  proof
    assume "(k, v) \<in> set (map (\<lambda>r. (fst (snd r), the (snd (snd r)))) p)"
    then obtain r where "r \<in> set p" "k = fst (snd r)" "v = the (snd (snd r))"
      by auto
    then show "kv_map T st k = Some v" using rows [of r] by auto
  next
    assume "kv_map T st k = Some v"
    then have "(st, k, Some v) \<in> set p"
      using kv_map_Some [OF assms(1)] p by simp
    then show "(k, v) \<in> set (map (\<lambda>r. (fst (snd r), the (snd (snd r)))) p)"
      by force
  qed
  have d': "distinct (map fst (map (\<lambda>r. (fst (snd r), the (snd (snd r)))) p))"
    using d by (simp add: o_def)
  have "map_of (map (\<lambda>r. (fst (snd r), the (snd (snd r)))) p) k = Some v \<longleftrightarrow> kv_map T st k = Some v" for k v
    unfolding map_of_eq_Some_iff [OF d'] by (rule bind)
  then show m: "map_of (map (\<lambda>r. (fst (snd r), the (snd (snd r)))) p) = kv_map T st"
    by (rule map_Some_eqI)
  show "set (map (\<lambda>r. fst (snd r)) p) = dom (kv_map T st)"
    using dom_map_of_conv_image_fst [of "map (\<lambda>r. (fst (snd r), the (snd (snd r)))) p"] unfolding m by (simp add: image_comp o_def)
qed

text \<open>What an operation does to the table and the map: it follows the map, keeps the table well-formed and the
  other stores as they are; when it fails it changes nothing, unless it leaves a transaction open.\<close>

definition follows ::
  "('s \<Rightarrow> kv_table) \<Rightarrow> ('s \<Rightarrow> kv_table option) \<Rightarrow> (string \<Rightarrow> string \<Rightarrow> bool) \<Rightarrow> string \<Rightarrow> kv_operation \<Rightarrow> 's
     \<Rightarrow> (ApiError + kv_answer) \<times> 's \<Rightarrow> bool" where
  "follows rows saved le st op s x =
     (case x of
        (Inr a, s') \<Rightarrow> map_operation le op (kv_map (rows s) st) a (kv_map (rows s') st) \<and> kv_wf (rows s') \<and>
          saved s' = None \<and> (\<forall>st'. st' \<noteq> st \<longrightarrow> kv_map (rows s') st' = kv_map (rows s) st')
      | (Inl _, s') \<Rightarrow> saved s' = None \<longrightarrow> rows s' = rows s)"

lemma checked_follows:
  assumes "validate_kv_name k what = Inr () \<Longrightarrow> follows rows saved le st op s (answered f (g () s))"
  shows "follows rows saved le st op s (answered f (kv_then (kv_checked (validate_kv_name k what) s) g))"
  using assms by (cases "validate_kv_name k what") (auto simp: kv_then_def kv_checked_def answered_def follows_def)

lemma read_follows:
  assumes laws: "sql_laws cn rows saved le t" and x: "selects x"
    and wf: "kv_wf (rows s)" and closed: "saved s = None"
    and ok: "\<And>rs. rows_meaning le x (rows s) rs \<Longrightarrow> map_operation le op (kv_map (rows s) st) (f (g rs)) (kv_map (rows s) st)"
  shows "follows rows saved le st op s
    (answered f (kv_then (query_rows cn (kv_text t x) (kv_args x) s) (\<lambda>rs s. (Inr (g rs), s))))"
proof -
  obtain r s1 where s1: "query_rows cn (kv_text t x) (kv_args x) s = (r, s1)"
    by (cases "query_rows cn (kv_text t x) (kv_args x) s")
  from query_law [OF laws x s1] show ?thesis
    using s1 wf closed ok by (auto simp: kv_then_def answered_def follows_def undisturbed_def split: sum.splits)
qed

lemma scalar_follows:
  assumes laws: "sql_laws cn rows saved le t" and x: "scalar_meaning x (rows s) = Some n"
    and wf: "kv_wf (rows s)" and closed: "saved s = None"
    and ok: "map_operation le op (kv_map (rows s) st) (f n) (kv_map (rows s) st)"
  shows "follows rows saved le st op s
    (answered f (kv_then (query_scalar cn (kv_text t x) (kv_args x) s) (\<lambda>n s. (Inr (case n of Some k \<Rightarrow> k | None \<Rightarrow> 0), s))))"
proof -
  obtain r s1 where s1: "query_scalar cn (kv_text t x) (kv_args x) s = (r, s1)"
    by (cases "query_scalar cn (kv_text t x) (kv_args x) s")
  from scalar_law [OF laws x s1] show ?thesis
    using s1 wf closed ok by (auto simp: kv_then_def answered_def follows_def undisturbed_def split: sum.splits)
qed

lemma write_follows:
  assumes "does rows saved s (b, T) x" "kv_wf T" "saved s = None"
    and "map_operation le op (kv_map (rows s) st) (f b) (kv_map T st)"
    and "\<And>st'. st' \<noteq> st \<Longrightarrow> kv_map T st' = kv_map (rows s) st'"
  shows "follows rows saved le st op s (answered f x)"
  using assms by (auto simp: does_def follows_def answered_def undisturbed_def split: prod.splits sum.splits)

lemma command_does:
  assumes laws: "sql_laws cn rows saved le t" and x: "command_meaning x (rows s) = Some (n, T)"
  shows "does rows saved s (g n, T) (kv_then (command_params cn (kv_text t x) (kv_args x) s) (\<lambda>n s. (Inr (g n), s)))"
proof -
  obtain r s1 where s1: "command_params cn (kv_text t x) (kv_args x) s = (r, s1)"
    by (cases "command_params cn (kv_text t x) (kv_args x) s")
  from command_law [OF laws x s1] show ?thesis
    using s1 by (auto simp: kv_then_def does_def split: sum.splits)
qed

lemma hits_count:
  assumes "kv_wf T"
  shows "length (filter (hit st k) T) = (if kv_map T st k = None then 0 else 1)"
proof (cases "kv_map T st k")
  case None
  then show ?thesis using kv_map_None [OF assms, of st k] by simp
next
  case (Some v)
  then show ?thesis using hits_single [OF assms Some] by simp
qed

lemma store_count: "kv_wf T \<Longrightarrow> length (filter (of_store st) T) = card (dom (kv_map T st))"
  using store_rows(2,3) [of T "filter (of_store st) T" st] by (metis distinct_card length_map)

lemma store_bytes:
  assumes "kv_wf T"
  shows "sum_list (map (\<lambda>r. case snd (snd r) of Some v \<Rightarrow> int (length v) | None \<Rightarrow> 0) (filter (of_store st) T)) =
    (\<Sum>k \<in> dom (kv_map T st). int (length (the (kv_map T st k))))"
proof -
  let ?p = "filter (of_store st) T"
  note rows = store_rows [OF assms, of "filter (of_store st) T" st, OF refl]
  have "map (\<lambda>r. case snd (snd r) of Some v \<Rightarrow> int (length v) | None \<Rightarrow> 0) ?p =
      map (\<lambda>k. int (length (the (kv_map T st k)))) (map (\<lambda>r. fst (snd r)) ?p)"
    using rows(4) by fastforce
  then show ?thesis
    using rows(2,3) by (simp add: sum_list_distinct_conv_sum_set del: map_map)
qed

definition popped ::
  "(string \<Rightarrow> string \<Rightarrow> bool) \<Rightarrow> string \<Rightarrow> (string \<times> string) option \<Rightarrow> kv_table \<Rightarrow> kv_table \<Rightarrow> bool" where
  "popped le st a T T' \<longleftrightarrow>
     (kv_wf T \<longrightarrow>
       (if kv_map T st = Map.empty then a = None \<and> T' = T
        else \<exists>k v. kv_map T st k = Some v \<and> (\<forall>k' \<in> dom (kv_map T st). le k k') \<and> a = Some (k, v) \<and>
          T' = filter (\<lambda>r. \<not> hit st k r) T))"

lemma least_popped:
  assumes refl: "\<And>a. le a a" and p: "in_order le st T (r # p)" and wf: "kv_wf T"
  shows "\<exists>k v. r = (st, k, Some v) \<and> kv_map T st k = Some v \<and> (\<forall>k' \<in> dom (kv_map T st). le k k')"
proof -
  note rows = store_rows [OF wf, of "r # p" st]
  have m: "mset (r # p) = mset (filter (of_store st) T)"
    using p by (simp add: in_order_def)
  obtain k v where kv: "r = (st, k, Some v)" "kv_map T st k = Some v"
    using rows(4) [OF m, of r] by auto
  have "le k k'" if "k' \<in> dom (kv_map T st)" for k'
    using that p refl [of k] kv(1) unfolding rows(3) [OF m, symmetric] by (auto simp: in_order_def)
  with kv show ?thesis by blast
qed

lemma pop_inner_does:
  assumes laws: "sql_laws cn rows saved le (table_ref kv)"
  shows "case pop_inner cn kv s of
      (Inr a, s') \<Rightarrow> popped le (store_name kv) a (rows s) (rows s') \<and> saved s' = saved s
    | (Inl _, s') \<Rightarrow> saved s' = saved s"
proof -
  let ?st = "store_name kv" and ?t = "table_ref kv"
  obtain r s1 where s1: "query_rows cn (kv_text ?t (SelectLeast ?st)) (kv_args (SelectLeast ?st)) s = (r, s1)"
    by (cases "query_rows cn (kv_text ?t (SelectLeast ?st)) (kv_args (SelectLeast ?st)) s")
  have "selects (SelectLeast ?st)" by simp
  note q = query_law [OF laws this s1]
  show ?thesis
  proof (cases r)
    case (Inl e)
    then show ?thesis
      using q s1 by (simp add: pop_inner_def kv_then_def undisturbed_def)
  next
    case (Inr rs)
    then obtain p where p: "in_order le ?st (rows s) p" "rs = map columns (take 1 p)" and s1': "rows s1 = rows s" "saved s1 = saved s"
      using q by auto
    show ?thesis
    proof (cases p)
      case Nil
      have "kv_map (rows s) ?st = Map.empty" if "kv_wf (rows s)"
        using store_rows(3) [OF that, of p ?st] p Nil by (simp add: in_order_def dom_eq_empty_conv [symmetric] del: dom_eq_empty_conv)
      then show ?thesis
        using Inr s1 s1' p Nil by (simp add: pop_inner_def kv_then_def popped_def)
    next
      case (Cons x p')
      obtain a s2 where s2: "command_params cn (kv_text ?t (Delete ?st (fst (snd x)))) (kv_args (Delete ?st (fst (snd x)))) s1 = (a, s2)"
        by (cases "command_params cn (kv_text ?t (Delete ?st (fst (snd x)))) (kv_args (Delete ?st (fst (snd x)))) s1")
      note d = command_law [OF laws command_meaning.simps(3) s2, unfolded s1']
      have "popped le ?st (Some (fst (snd x), second_text (columns x))) (rows s) (filter (\<lambda>r. \<not> hit ?st (fst (snd x)) r) (rows s))"
        using least_popped [OF order_refl [OF laws] p(1) [unfolded Cons]] by (auto simp: popped_def columns_def second_text_def domI)
      then show ?thesis
        using Inr s1 s2 d p(2) Cons s1'
        by (auto simp: pop_inner_def delete_sql_def kv_then_def columns_def undisturbed_def split: sum.splits)
    qed
  qed
qed

lemma pop_follows:
  assumes laws: "sql_laws cn rows saved le (table_ref kv)" and wf: "kv_wf (rows s)" and closed: "saved s = None"
  shows "follows rows saved le (store_name kv) KvPop s (answered PopAnswer (kv_pop cn kv s))"
proof -
  let ?st = "store_name kv"
  obtain r s' where s': "in_transaction cn (pop_inner cn kv) s = (r, s')"
    by (cases "in_transaction cn (pop_inner cn kv) s")
  have "case r of Inr a \<Rightarrow> popped le ?st a (rows s) (rows s') \<and> saved s' = None | Inl _ \<Rightarrow> saved s' = None \<longrightarrow> rows s' = rows s"
    by (rule in_transaction_does [where good = "popped le ?st", OF laws closed pop_inner_does [OF laws] s'])
  then show ?thesis
    using s' wf Delete_map [OF wf, of ?st] filter_wf [OF wf]
    by (auto simp: kv_pop_def answered_def follows_def popped_def split: sum.splits if_splits)
qed

lemma get_follows:
  assumes laws: "sql_laws cn rows saved le (table_ref kv)" and wf: "kv_wf (rows s)" and closed: "saved s = None"
  shows "follows rows saved le (store_name kv) (KvGet k) s (run_operation cn kv (KvGet k) s)"
proof -
  have "follows rows saved le (store_name kv) (KvGet k) s (answered TextAnswer (kv_then
      (query_rows cn (kv_text (table_ref kv) (SelectValue (store_name kv) k)) (kv_args (SelectValue (store_name kv) k)) s)
      (\<lambda>rs s. (Inr (first_text rs), s))))"
  proof (rule read_follows [OF laws _ wf closed])
    fix rs assume rs: "rows_meaning le (SelectValue (store_name kv) k) (rows s) rs"
    show "map_operation le (KvGet k) (kv_map (rows s) (store_name kv)) (TextAnswer (first_text rs)) (kv_map (rows s) (store_name kv))"
    proof (cases "kv_map (rows s) (store_name kv) k")
      case None
      then show ?thesis
        using rs kv_map_None [OF wf, of "store_name kv" k] by (simp add: first_text_def)
    next
      case (Some v)
      then show ?thesis
        using rs hits_single [OF wf Some] by (simp add: first_text_def)
    qed
  qed simp
  then show ?thesis
    unfolding run_operation.simps kv_get_def by (intro checked_follows) simp
qed

lemma set_follows:
  assumes laws: "sql_laws cn rows saved le (table_ref kv)" and wf: "kv_wf (rows s)" and closed: "saved s = None"
  shows "follows rows saved le (store_name kv) (KvSet k v) s (run_operation cn kv (KvSet k v) s)"
proof -
  show ?thesis
    unfolding run_operation.simps kv_set_def
    by (rule checked_follows, rule write_follows [OF upsert_does [OF laws]])
      (auto simp: write_row_wf write_row_map wf closed kv_map_None [OF wf])
qed

lemma set_if_absent_follows:
  assumes laws: "sql_laws cn rows saved le (table_ref kv)" and wf: "kv_wf (rows s)" and closed: "saved s = None"
  shows "follows rows saved le (store_name kv) (KvSetIfAbsent k v) s (run_operation cn kv (KvSetIfAbsent k v) s)"
proof -
  let ?T = "if filter (hit (store_name kv) k) (rows s) = [] then write_row (store_name kv) k v (rows s) else rows s"
  have "does rows saved s (filter (hit (store_name kv) k) (rows s) = [], ?T) (set_if_absent cn kv k v s)"
    using set_if_absent_does [OF laws, of s k v] by (simp split: if_splits)
  then show ?thesis
    unfolding run_operation.simps
    by (rule write_follows) (auto simp: write_row_wf write_row_map wf closed kv_map_None [OF wf])
qed

lemma delete_follows:
  assumes laws: "sql_laws cn rows saved le (table_ref kv)" and wf: "kv_wf (rows s)" and closed: "saved s = None"
  shows "follows rows saved le (store_name kv) (KvDelete k) s (run_operation cn kv (KvDelete k) s)"
proof -
  have "does rows saved s (length (filter (hit (store_name kv) k) (rows s)) > 0, filter (\<lambda>r. \<not> hit (store_name kv) k r) (rows s))
      (kv_then (command_params cn (kv_text (table_ref kv) (Delete (store_name kv) k)) (kv_args (Delete (store_name kv) k)) s)
        (\<lambda>n s. (Inr (n > 0), s)))"
    by (rule command_does [OF laws]) simp
  then have "follows rows saved le (store_name kv) (KvDelete k) s (answered BoolAnswer
      (kv_then (command_params cn (kv_text (table_ref kv) (Delete (store_name kv) k)) (kv_args (Delete (store_name kv) k)) s)
        (\<lambda>n s. (Inr (n > 0), s))))"
    by (rule write_follows) (simp_all add: filter_wf wf closed Delete_map hits_count)
  then show ?thesis
    unfolding run_operation.simps kv_delete_def delete_sql_def by (intro checked_follows) simp
qed

lemma exists_follows:
  assumes laws: "sql_laws cn rows saved le (table_ref kv)" and wf: "kv_wf (rows s)" and closed: "saved s = None"
  shows "follows rows saved le (store_name kv) (KvExists k) s (run_operation cn kv (KvExists k) s)"
proof -
  have "follows rows saved le (store_name kv) (KvExists k) s (answered BoolAnswer (kv_then
      (query_rows cn (kv_text (table_ref kv) (Probe (store_name kv) k)) (kv_args (Probe (store_name kv) k)) s)
      (\<lambda>rs s. (Inr (rs \<noteq> []), s))))"
    by (rule read_follows [OF laws _ wf closed]) (auto simp: hits_count [OF wf] split: if_splits)
  then show ?thesis
    unfolding run_operation.simps kv_exists_def by (intro checked_follows) simp
qed

lemma size_follows:
  assumes laws: "sql_laws cn rows saved le (table_ref kv)" and wf: "kv_wf (rows s)" and closed: "saved s = None"
  shows "follows rows saved le (store_name kv) KvSize s (run_operation cn kv KvSize s)"
proof -
  show ?thesis
    unfolding run_operation.simps kv_size_def
    using scalar_follows [OF laws scalar_meaning.simps(1) wf closed, where op = KvSize and f = IntAnswer, of "store_name kv" "store_name kv"]
    by (simp add: store_count wf)
qed

lemma keys_follows:
  assumes laws: "sql_laws cn rows saved le (table_ref kv)" and wf: "kv_wf (rows s)" and closed: "saved s = None"
  shows "follows rows saved le (store_name kv) KvKeys s (run_operation cn kv KvKeys s)"
proof -
  have "follows rows saved le (store_name kv) KvKeys s (answered KeysAnswer (kv_then
      (query_rows cn (kv_text (table_ref kv) (SelectKeys (store_name kv))) (kv_args (SelectKeys (store_name kv))) s)
      (\<lambda>rs s. (Inr (texts rs), s))))"
  proof (rule read_follows [OF laws _ wf closed])
    fix rs assume "rows_meaning le (SelectKeys (store_name kv)) (rows s) rs"
    then obtain p where p: "in_order le (store_name kv) (rows s) p" "rs = map (\<lambda>r. [Some (fst (snd r))]) p" by auto
    have "texts rs = map (\<lambda>r. fst (snd r)) p"
      unfolding p(2) by (induction p) simp_all
    then show "map_operation le KvKeys (kv_map (rows s) (store_name kv)) (KeysAnswer (texts rs)) (kv_map (rows s) (store_name kv))"
      using p(1) store_rows(2,3) [OF wf, of p "store_name kv"] by (simp add: in_order_def sorted_wrt_map)
  qed simp
  then show ?thesis
    unfolding run_operation.simps kv_keys_def by simp
qed

lemma byte_size_follows:
  assumes laws: "sql_laws cn rows saved le (table_ref kv)" and wf: "kv_wf (rows s)" and closed: "saved s = None"
  shows "follows rows saved le (store_name kv) KvByteSize s (run_operation cn kv KvByteSize s)"
proof -
  show ?thesis
    unfolding run_operation.simps byte_size_def
    using scalar_follows [OF laws scalar_meaning.simps(2) wf closed, where op = KvByteSize and f = IntAnswer, of "store_name kv" "store_name kv"]
    by (simp add: store_bytes wf)
qed

lemma entries_follows:
  assumes laws: "sql_laws cn rows saved le (table_ref kv)" and wf: "kv_wf (rows s)" and closed: "saved s = None"
  shows "follows rows saved le (store_name kv) KvEntries s (run_operation cn kv KvEntries s)"
proof -
  have "follows rows saved le (store_name kv) KvEntries s (answered EntriesAnswer (kv_then
      (query_rows cn (kv_text (table_ref kv) (SelectEntries (store_name kv))) (kv_args (SelectEntries (store_name kv))) s)
      (\<lambda>rs s. (Inr (pairs rs), s))))"
  proof (rule read_follows [OF laws _ wf closed])
    fix rs assume "rows_meaning le (SelectEntries (store_name kv)) (rows s) rs"
    then obtain p where p: "in_order le (store_name kv) (rows s) p" "rs = map columns p" by auto
    have m: "mset p = mset (filter (of_store (store_name kv)) (rows s))"
      using p(1) by (simp add: in_order_def)
    have "\<forall>r \<in> set p. snd (snd r) \<noteq> None"
      using store_rows(4) [OF wf m] by fastforce
    then have "pairs rs = map (\<lambda>r. (fst (snd r), the (snd (snd r)))) p"
      unfolding p(2) by (induction p) (auto simp: columns_def second_text_def)
    then show "map_operation le KvEntries (kv_map (rows s) (store_name kv)) (EntriesAnswer (pairs rs)) (kv_map (rows s) (store_name kv))"
      using p(1) store_rows(1,2) [OF wf m] by (simp add: in_order_def sorted_wrt_map o_def)
  qed simp
  then show ?thesis
    unfolding run_operation.simps kv_entries_def by simp
qed

lemma clear_follows:
  assumes laws: "sql_laws cn rows saved le (table_ref kv)" and wf: "kv_wf (rows s)" and closed: "saved s = None"
  shows "follows rows saved le (store_name kv) KvClear s (run_operation cn kv KvClear s)"
proof -
  have "does rows saved s (length (filter (of_store (store_name kv)) (rows s)), filter (\<lambda>r. \<not> of_store (store_name kv) r) (rows s))
      (kv_then (command_params cn (kv_text (table_ref kv) (DeleteAll (store_name kv))) (kv_args (DeleteAll (store_name kv))) s)
        (\<lambda>n s. (Inr n, s)))"
    by (rule command_does [OF laws]) simp
  then have "follows rows saved le (store_name kv) KvClear s (answered (\<lambda>n. IntAnswer (int n)) (kv_then
      (command_params cn (kv_text (table_ref kv) (DeleteAll (store_name kv))) (kv_args (DeleteAll (store_name kv))) s)
        (\<lambda>n s. (Inr n, s))))"
    by (rule write_follows) (simp_all add: filter_wf wf closed DeleteAll_map store_count)
  moreover have "kv_then x (\<lambda>n s. (Inr n, s)) = x" for x :: "(ApiError + nat) \<times> 'a"
    by (auto simp: kv_then_def split: prod.split sum.split)
  ultimately show ?thesis
    unfolding run_operation.simps kv_clear_def by simp
qed

lemmas operations_follow =
  get_follows set_follows set_if_absent_follows delete_follows exists_follows size_follows keys_follows byte_size_follows entries_follows clear_follows

text \<open>C12. a store is a map. On a server that gives the store's statements their SQL meaning, every
  operation on a store, when it succeeds, answers and changes the store as the operation on a map from keys
  to values does, keys being listed and popped in the server's order, keeps one row per key and leaves
  every other store alone; when it fails the table is unchanged, unless a transaction was left open.\<close>

theorem kv_store_is_a_map:
  assumes laws: "sql_laws cn rows saved le (table_ref kv)" and wf: "kv_wf (rows s)" and closed: "saved s = None"
  shows "follows rows saved le (store_name kv) op s (run_operation cn kv op s)"
  using pop_follows [OF assms] by (cases op) (simp_all only: run_operation.simps(11) operations_follow [OF assms])

text \<open>C13. a batch is all or nothing. When \<open>set_batch\<close> succeeds every entry is in the store, the last one for a
  key winning, the other keys and stores are as before, and the outcome counts the keys that were
  new and the other entries; when it fails, by an invalid key, a failing statement or a failing
  transaction, nothing has changed, unless the transaction was left open.\<close>

theorem kv_batch_all_or_nothing:
  assumes laws: "sql_laws cn rows saved le (table_ref kv)" and wf: "kv_wf (rows s)" and closed: "saved s = None"
    and run: "set_batch cn kv es s = (r, s')"
  shows "case r of
      Inr (created, overwritten) \<Rightarrow>
        saved s' = None \<and> kv_wf (rows s') \<and>
        kv_map (rows s') (store_name kv) = kv_map (rows s) (store_name kv) ++ map_of (rev es) \<and>
        (\<forall>st. st \<noteq> store_name kv \<longrightarrow> kv_map (rows s') st = kv_map (rows s) st) \<and>
        created = card (fst ` set es - dom (kv_map (rows s) (store_name kv))) \<and> created + overwritten = length es
    | Inl _ \<Rightarrow> saved s' = None \<longrightarrow> rows s' = rows s"
proof (cases "validate_keys es")
  case (Inl e)
  then show ?thesis
    using run by (auto simp: set_batch_def kv_checked_def kv_then_def)
next
  case (Inr u)
  let ?st = "store_name kv"
  have "does rows saved s1 (put_meaning ?st k v (rows s1)) (upsert cn kv k v s1)" for k v s1
    using upsert_does [OF laws] by (simp add: put_meaning_def)
  note batch = batch_loop_does [OF this, where es = es and acc = "(0, 0)"]
  have "in_transaction cn (kv_batch_loop (upsert cn kv) es (0, 0)) s = (r, s')"
    using run Inr by (simp add: set_batch_def kv_checked_def kv_then_def)
  from in_transaction_does [where good = "\<lambda>c T T'. batch_meaning (put_meaning ?st) es (0, 0) T = (c, T')",
      OF laws closed batch this]
  show ?thesis
    using put_batch [OF wf, of ?st es "(0, 0)"] by (auto split: sum.splits)
qed

lemma kv_batch_if_absent:
  assumes laws: "sql_laws cn rows saved le (table_ref kv)" and wf: "kv_wf (rows s)" and closed: "saved s = None"
    and run: "set_batch_if_absent cn kv es s = (r, s')"
  shows "case r of
      Inr (written, skipped) \<Rightarrow>
        saved s' = None \<and> kv_wf (rows s') \<and>
        kv_map (rows s') (store_name kv) = map_of es ++ kv_map (rows s) (store_name kv) \<and>
        (\<forall>st. st \<noteq> store_name kv \<longrightarrow> kv_map (rows s') st = kv_map (rows s) st) \<and>
        written = card (fst ` set es - dom (kv_map (rows s) (store_name kv))) \<and> written + skipped = length es
    | Inl _ \<Rightarrow> saved s' = None \<longrightarrow> rows s' = rows s"
proof (cases "validate_keys es")
  case (Inl e)
  then show ?thesis
    using run by (auto simp: set_batch_if_absent_def kv_checked_def kv_then_def)
next
  case (Inr u)
  let ?st = "store_name kv"
  have "does rows saved s1 (absent_meaning ?st k v (rows s1)) (set_if_absent cn kv k v s1)" for k v s1
    using set_if_absent_does [OF laws] by (simp add: absent_meaning_def)
  note batch = batch_loop_does [OF this, where es = es and acc = "(0, 0)"]
  have "in_transaction cn (kv_batch_loop (set_if_absent cn kv) es (0, 0)) s = (r, s')"
    using run Inr by (simp add: set_batch_if_absent_def kv_checked_def kv_then_def)
  from in_transaction_does [where good = "\<lambda>c T T'. batch_meaning (absent_meaning ?st) es (0, 0) T = (c, T')",
      OF laws closed batch this]
  show ?thesis
    using absent_batch [OF wf, of ?st es "(0, 0)"] by (auto split: sum.splits)
qed

section \<open>A server with one table\<close>

text \<open>The statements executed on a list of rows; keys compare bytewise.\<close>

definition statement_of :: "string \<Rightarrow> string list \<Rightarrow> kv_statement option" where
  "statement_of sql args =
     (case args of
        [st] \<Rightarrow> find (\<lambda>x. kv_text KV_TABLE x = sql)
          [Count st, SelectKeys st, SumBytes st, SelectEntries st, DeleteAll st, SelectLeast st]
      | [st, k] \<Rightarrow> find (\<lambda>x. kv_text KV_TABLE x = sql) [SelectValue st k, Delete st k, Probe st k]
      | [st, k, v] \<Rightarrow> find (\<lambda>x. kv_text KV_TABLE x = sql) [Update st k v]
      | [st, k, v, _, _] \<Rightarrow> find (\<lambda>x. kv_text KV_TABLE x = sql) [InsertAbsent st k v]
      | _ \<Rightarrow> None)"

definition sorted_rows :: "string \<Rightarrow> kv_table \<Rightarrow> kv_table" where
  "sorted_rows st T = sort_key (\<lambda>r. fst (snd r)) (filter (of_store st) T)"

fun table_rows :: "kv_statement \<Rightarrow> kv_table \<Rightarrow> string option list list" where
  "table_rows (SelectValue st k) T = map (\<lambda>r. [snd (snd r)]) (filter (hit st k) T)"
| "table_rows (Probe st k) T = take 1 (map (\<lambda>r. [Some ''1'']) (filter (hit st k) T))"
| "table_rows (SelectKeys st) T = map (\<lambda>r. [Some (fst (snd r))]) (sorted_rows st T)"
| "table_rows (SelectEntries st) T = map columns (sorted_rows st T)"
| "table_rows (SelectLeast st) T = map columns (take 1 (sorted_rows st T))"
| "table_rows _ T = []"

definition syntax_error :: ApiError where
  "syntax_error = Api_Internal ''syntax error''"

definition table_server :: "(kv_table \<times> kv_table option) kv_connection" where
  "table_server =
     \<lparr>command_params = (\<lambda>sql args (T, sv).
        case statement_of sql args of
          None \<Rightarrow> (Inl syntax_error, T, sv)
        | Some x \<Rightarrow> (case command_meaning x T of None \<Rightarrow> (Inl syntax_error, T, sv) | Some (n, T') \<Rightarrow> (Inr n, T', sv))),
      query_rows = (\<lambda>sql args (T, sv).
        case statement_of sql args of None \<Rightarrow> (Inl syntax_error, T, sv) | Some x \<Rightarrow> (Inr (table_rows x T), T, sv)),
      query_scalar = (\<lambda>sql args (T, sv).
        case statement_of sql args of None \<Rightarrow> (Inl syntax_error, T, sv) | Some x \<Rightarrow> (Inr (scalar_meaning x T), T, sv)),
      plain_command = (\<lambda>sql s. (Inr 0, s)),
      tx_begin = (\<lambda>(T, sv). case sv of None \<Rightarrow> (Inr (), T, Some T) | Some _ \<Rightarrow> (Inl syntax_error, T, sv)),
      tx_commit = (\<lambda>(T, sv). case sv of None \<Rightarrow> (Inl syntax_error, T, sv) | Some _ \<Rightarrow> (Inr (), T, None)),
      tx_rollback = (\<lambda>(T, sv). case sv of None \<Rightarrow> (Inl syntax_error, T, sv) | Some T' \<Rightarrow> (Inr (), T', None))\<rparr>"

lemma statement_of_text: "statement_of (kv_text KV_TABLE x) (kv_args x) = Some x"
  by (cases x) (simp_all add: statement_of_def KV_TABLE_def)

lemma sorted_rows_in_order: "in_order (\<le>) st T (sorted_rows st T)"
  using sorted_sort_key [of "\<lambda>r. fst (snd r)" "filter (of_store st) T"]
  by (simp add: in_order_def sorted_rows_def sorted_wrt_map)

lemma table_rows_meaning: "selects x \<Longrightarrow> rows_meaning (\<le>) x T (table_rows x T)"
  using sorted_rows_in_order by (cases x) auto

lemma table_server_laws: "sql_laws table_server fst snd (\<le>) KV_TABLE"
  unfolding sql_laws_def
  by (auto simp: table_server_def statement_of_text undisturbed_def table_rows_meaning split: prod.splits option.splits sum.splits)

text \<open>Two stores with a key of the same name; popping from one, and a batch.\<close>

definition demo_store :: KvStore where
  "demo_store = \<lparr>store_name = ''a'', table_ref = KV_TABLE\<rparr>"

definition demo_rows :: kv_table where
  "demo_rows = [(''a'', ''k2'', Some ''x''), (''b'', ''k1'', Some ''y''), (''a'', ''k1'', Some ''z'')]"

lemma demo_rows_wf: "kv_wf demo_rows"
  by (simp add: kv_wf_def demo_rows_def)

theorem kv_store_is_a_map_witness:
  "follows fst snd (\<le>) ''a'' KvPop (demo_rows, None) (run_operation table_server demo_store KvPop (demo_rows, None)) \<and>
   fst (run_operation table_server demo_store KvPop (demo_rows, None)) = Inr (PopAnswer (Some (''k1'', ''z'')))"
proof -
  have "follows fst snd (\<le>) (store_name demo_store) KvPop (demo_rows, None) (run_operation table_server demo_store KvPop (demo_rows, None))"
    by (rule kv_store_is_a_map) (simp_all add: demo_store_def table_server_laws demo_rows_wf)
  moreover have "fst (run_operation table_server demo_store KvPop (demo_rows, None)) = Inr (PopAnswer (Some (''k1'', ''z'')))"
    by code_simp
  ultimately show ?thesis by (simp add: demo_store_def)
qed

theorem kv_batch_all_or_nothing_witness:
  "\<exists>s'. set_batch table_server demo_store [(''k3'', ''1''), (''k1'', ''2''), (''k3'', ''3'')] (demo_rows, None) = (Inr (1, 2), s') \<and>
    kv_map (fst s') ''a'' = kv_map demo_rows ''a'' ++ [''k1'' \<mapsto> ''2'', ''k3'' \<mapsto> ''3''] \<and> kv_map (fst s') ''b'' = kv_map demo_rows ''b''"
proof -
  let ?es = "[(''k3'', ''1''), (''k1'', ''2''), (''k3'', ''3'')]"
  have "fst (set_batch table_server demo_store ?es (demo_rows, None)) = Inr (1, 2)"
    by code_simp
  then obtain s' where s': "set_batch table_server demo_store ?es (demo_rows, None) = (Inr (1, 2), s')"
    by (metis prod.collapse)
  have st: "store_name demo_store = ''a''" "sql_laws table_server fst snd (\<le>) (table_ref demo_store)"
    "kv_wf (fst (demo_rows, None))" "snd (demo_rows, None) = None" "''b'' \<noteq> ''a''"
    by (simp_all add: demo_store_def table_server_laws demo_rows_wf)
  note batch = kv_batch_all_or_nothing [OF st(2,3,4) s', unfolded sum.case prod.case st(1) fst_conv]
  from batch have "kv_map (fst s') ''a'' = kv_map demo_rows ''a'' ++ map_of (rev ?es)"
    by (elim conjE)
  moreover from batch have "\<forall>st. st \<noteq> ''a'' \<longrightarrow> kv_map (fst s') st = kv_map demo_rows st"
    by (elim conjE)
  note this [rule_format, OF st(5)]
  ultimately show ?thesis
    using s' by (intro exI [of _ s'] conjI) simp_all
qed

end
