(* ===== verification/Schema_Inference.thy ===== *)
theory Schema_Inference
  imports Table_Definition Mcp_Error Scram_Auth "HOL-Library.List_Lexorder" "HOL-Library.Char_ord"
begin

text \<open>
  Column types of loaded data, \<open>hyperdb-mcp/src/schema.rs\<close>: type names given by callers, the
  inference of types from JSON and CSV text, the second pass that widens numeric columns, and
  overrides. The JSON and CSV parsers, the reader of floats and the debug form of a list of names are an
  argument. A JSON object is its entries in order, a number what the JSON library holds.

  The widening rules are a join: the observed types form a semilattice, and the type of
  a column is the least one above the observations. The types are shown to hold of the data.
\<close>

section \<open>The code\<close>

subsection \<open>Text\<close>

text \<open>\<open>to_uppercase\<close> is compared with type names only. A character that is not ASCII becomes text
  with a character that no type name has, but for the dotless i, the long s, the sharp s and
  the Latin ligatures, which become ASCII letters.\<close>

fun to_uppercase :: "string \<Rightarrow> string" where
  "to_uppercase [] = []"
| "to_uppercase (a # s) =
     (if a = CHR 0xC4 \<and> take 1 s = [CHR 0xB1] then ''I'' @ to_uppercase (drop 1 s)
      else if a = CHR 0xC5 \<and> take 1 s = [CHR 0xBF] then ''S'' @ to_uppercase (drop 1 s)
      else if a = CHR 0xC3 \<and> take 1 s = [CHR 0x9F] then ''SS'' @ to_uppercase (drop 1 s)
      else if a = CHR 0xEF \<and> take 2 s = [CHR 0xAC, CHR 0x80] then ''FF'' @ to_uppercase (drop 2 s)
      else if a = CHR 0xEF \<and> take 2 s = [CHR 0xAC, CHR 0x81] then ''FI'' @ to_uppercase (drop 2 s)
      else if a = CHR 0xEF \<and> take 2 s = [CHR 0xAC, CHR 0x82] then ''FL'' @ to_uppercase (drop 2 s)
      else if a = CHR 0xEF \<and> take 2 s = [CHR 0xAC, CHR 0x83] then ''FFI'' @ to_uppercase (drop 2 s)
      else if a = CHR 0xEF \<and> take 2 s = [CHR 0xAC, CHR 0x84] then ''FFL'' @ to_uppercase (drop 2 s)
      else if a = CHR 0xEF \<and> take 2 s \<in> {[CHR 0xAC, CHR 0x85], [CHR 0xAC, CHR 0x86]} then ''ST'' @ to_uppercase (drop 2 s)
      else ascii_upper a # to_uppercase s)"

text \<open>\<open>str::split\<close> and \<open>str::strip_suffix\<close> for a character.\<close>

fun split_char :: "char \<Rightarrow> string \<Rightarrow> string list" where
  "split_char c [] = [[]]"
| "split_char c (x # s) =
     (if x = c then [] # split_char c s else (x # hd (split_char c s)) # tl (split_char c s))"

definition strip_last :: "char \<Rightarrow> string \<Rightarrow> string option" where
  "strip_last c s = (if s \<noteq> [] \<and> last s = c then Some (butlast s) else None)"

definition is_ascii :: "char \<Rightarrow> bool" where
  "is_ascii c \<longleftrightarrow> (of_char c :: nat) < 128"

subsection \<open>Type names\<close>

record ColumnSchema =
  cs_name :: string
  hyper_type :: string
  cs_nullable :: bool

definition numeric_range_error :: "nat \<Rightarrow> nat \<Rightarrow> McpError" where
  "numeric_range_error p s =
     McpError_new InvalidArgument
       (''NUMERIC precision must be 1..=38 and scale 0..=precision; got ('' @ show_nat p @ '','' @ show_nat s @ '')'')"

definition parse_numeric :: "string \<Rightarrow> (McpError + SqlType) option" where
  "parse_numeric upper =
     do { rest \<leftarrow> (case strip_prefix ''NUMERIC'' upper of Some r \<Rightarrow> Some r | None \<Rightarrow> strip_prefix ''DECIMAL'' upper);
          (if trim_start rest = [] then Some (Inr (SqlNumeric 38 0))
           else do {
             open' \<leftarrow> strip_prefix ''('' (trim_start rest);
             inner \<leftarrow> strip_last CHR '')'' open';
             (case split_char CHR '','' inner of
                [] \<Rightarrow> None
              | a # parts \<Rightarrow> do {
                  p \<leftarrow> parse_unsigned (2 ^ 32 - 1) (trim a);
                  s \<leftarrow> (case parts of [] \<Rightarrow> Some 0 | b # _ \<Rightarrow> parse_unsigned (2 ^ 32 - 1) (trim b));
                  (if length parts > 1 then None
                   else Some (case try_numeric (of_nat p) (of_nat s) of
                     Some t \<Rightarrow> Inr t
                   | None \<Rightarrow> Inl (numeric_range_error p s))) }) }) }"

definition map_hyper_type :: "string \<Rightarrow> McpError + SqlType" where
  "map_hyper_type type_name =
     (let upper = to_uppercase (trim type_name)
      in if upper \<in> {''SMALLINT'', ''INT2''} then Inr SqlSmallInt
      else if upper \<in> {''INT'', ''INTEGER'', ''INT4''} then Inr SqlInt
      else if upper \<in> {''BIGINT'', ''INT8''} then Inr SqlBigInt
      else if upper \<in> {''FLOAT'', ''FLOAT4'', ''REAL''} then Inr SqlDouble
      else if upper \<in> {''DOUBLE'', ''DOUBLE PRECISION'', ''FLOAT8''} then Inr SqlDouble
      else if upper \<in> {''TEXT'', ''VARCHAR'', ''STRING''} then Inr SqlText
      else if upper \<in> {''BOOL'', ''BOOLEAN''} then Inr SqlBool
      else if upper = ''DATE'' then Inr SqlDate
      else if upper = ''TIME'' then Inr SqlTime
      else if upper = ''TIMESTAMP'' then Inr SqlTimestamp
      else if upper \<in> {''TIMESTAMPTZ'', ''TIMESTAMP WITH TIME ZONE''} then Inr SqlTimestampTz
      else if upper \<in> {''BYTEA'', ''BYTES''} then Inr SqlByteA
      else case parse_numeric upper of
        Some r \<Rightarrow> r
      | None \<Rightarrow> Inl (McpError_new SchemaMismatch (''Unknown type '' @ [CHR 0x27] @ trim type_name @ [CHR 0x27])))"

definition canonical_type_sql :: "string \<Rightarrow> McpError + string" where
  "canonical_type_sql type_name = try_bind (map_hyper_type type_name) (\<lambda>t. Inr (SqlType_fmt t))"

definition column_type_sql :: "string \<Rightarrow> string \<Rightarrow> McpError + string" where
  "column_type_sql type_name column =
     (case canonical_type_sql type_name of
        Inr t \<Rightarrow> Inr t
      | Inl e \<Rightarrow> Inl (e\<lparr>mcp_message :=
          (if mcp_code e = SchemaMismatch
           then ''Unknown type '' @ [CHR 0x27] @ type_name @ [CHR 0x27] @ '' for column '' @ [CHR 0x27] @ column @ [CHR 0x27]
           else ''column '' @ [CHR 0x27] @ column @ [CHR 0x27] @ '': '' @ mcp_message e)\<rparr>))"

fun table_columns :: "ColumnSchema list \<Rightarrow> TableDefinition \<Rightarrow> McpError + TableDefinition" where
  "table_columns [] def = Inr def"
| "table_columns (col # cols) def =
     try_bind (map_hyper_type (hyper_type col)) (\<lambda>t.
       table_columns cols
         (if cs_nullable col then add_nullable_column (cs_name col) t def else add_required_column (cs_name col) t def))"

definition build_table_def :: "string \<Rightarrow> ColumnSchema list \<Rightarrow> McpError + TableDefinition" where
  "build_table_def name columns =
     (if columns = [] then Inl (McpError_new EmptyData ''No columns to create table from'')
      else table_columns columns (TableDefinition_new name))"

subsection \<open>Observed types\<close>

datatype InferredType =
  NullType | BoolType | IntType | BigIntType | DoubleType | DateType | TimestampType | TextType

datatype 'n Value =
    JNull
  | JBool bool
  | JNumber 'n
  | JString string
  | JArray "'n Value list"
  | JObject "(string \<times> 'n Value) list"

text \<open>The parsers: \<open>serde_json::from_str\<close> for rows of objects and for any value, with the error's text,
  \<open>Number::as_i64\<close>, the header and the records of a CSV reader with or without headers, whether
  \<open>parse::<f64>\<close> succeeds, and the debug form of names.\<close>

record 'n parsers =
  from_json_rows :: "string \<Rightarrow> string + (string \<times> 'n Value) list list"
  from_json_value :: "string \<Rightarrow> string + 'n Value"
  as_i64 :: "'n \<Rightarrow> i64 option"
  csv_headers :: "string \<Rightarrow> string + string list"
  csv_records :: "bool \<Rightarrow> string \<Rightarrow> (string + string list) list"
  parses_f64 :: "string \<Rightarrow> bool"
  debug_names :: "string list \<Rightarrow> string"

definition in_i32 :: "int \<Rightarrow> bool" where
  "in_i32 i \<longleftrightarrow> - (2 ^ 31) \<le> i \<and> i \<le> 2 ^ 31 - 1"

definition in_i64 :: "int \<Rightarrow> bool" where
  "in_i64 i \<longleftrightarrow> - (2 ^ 63) \<le> i \<and> i \<le> 2 ^ 63 - 1"

definition infer_string_type :: "string \<Rightarrow> InferredType" where
  "infer_string_type s =
     (if list_all is_ascii s \<and> length s = 10 \<and> s ! 4 = CHR ''-'' \<and> s ! 7 = CHR ''-''
        \<and> parse_unsigned (2 ^ 16 - 1) (take 4 s) \<noteq> None
        \<and> parse_unsigned (2 ^ 8 - 1) (take 2 (drop 5 s)) \<noteq> None
        \<and> parse_unsigned (2 ^ 8 - 1) (take 2 (drop 8 s)) \<noteq> None then DateType
      else if list_all is_ascii s \<and> length s \<ge> 19 \<and> s ! 10 = CHR ''T''
        \<and> CHR ''-'' \<in> set (take 10 s) \<and> CHR '':'' \<in> set (drop 11 s) then TimestampType
      else TextType)"

fun infer_json_value_type :: "('n \<Rightarrow> i64 option) \<Rightarrow> 'n Value \<Rightarrow> InferredType" where
  "infer_json_value_type as JNull = NullType"
| "infer_json_value_type as (JBool _) = BoolType"
| "infer_json_value_type as (JNumber n) =
     (case as n of Some i \<Rightarrow> if in_i32 (sint i) then IntType else BigIntType | None \<Rightarrow> DoubleType)"
| "infer_json_value_type as (JString s) = infer_string_type s"
| "infer_json_value_type as _ = TextType"

definition resolve_type :: "InferredType list \<Rightarrow> InferredType" where
  "resolve_type types =
     (let non_null = filter (\<lambda>t. t \<noteq> NullType) types
      in case non_null of
           [] \<Rightarrow> TextType
         | first # _ \<Rightarrow>
             if list_all (\<lambda>t. t = first) non_null then first
             else if list_all (\<lambda>t. t \<in> {IntType, BigIntType, DoubleType}) non_null then
               (if list_ex (\<lambda>t. t = DoubleType) non_null then DoubleType
                else if list_ex (\<lambda>t. t = BigIntType) non_null then BigIntType
                else IntType)
             else TextType)"

fun inferred_to_hyper_name :: "InferredType \<Rightarrow> string" where
  "inferred_to_hyper_name NullType = ''TEXT''"
| "inferred_to_hyper_name TextType = ''TEXT''"
| "inferred_to_hyper_name BoolType = ''BOOL''"
| "inferred_to_hyper_name IntType = ''INT''"
| "inferred_to_hyper_name BigIntType = ''BIGINT''"
| "inferred_to_hyper_name DoubleType = ''DOUBLE PRECISION''"
| "inferred_to_hyper_name DateType = ''DATE''"
| "inferred_to_hyper_name TimestampType = ''TIMESTAMP''"

subsection \<open>JSON\<close>

text \<open>The sorted set of all keys, and the entries of one key in the two maps that the loop over the
  objects fills.\<close>

definition all_keys :: "(string \<times> 'v) list list \<Rightarrow> string list" where
  "all_keys array = sort (remdups (concat (map (map fst) array)))"

definition observe ::
  "('n \<Rightarrow> i64 option) \<Rightarrow> string \<Rightarrow> InferredType list \<times> nat \<Rightarrow> (string \<times> 'n Value) list \<Rightarrow> InferredType list \<times> nat" where
  "observe as key acc obj =
     (case map_of obj key of
        None \<Rightarrow> acc
      | Some JNull \<Rightarrow> (fst acc @ [NullType], snd acc + 1)
      | Some val \<Rightarrow> (fst acc @ [infer_json_value_type as val], snd acc + 1))"

definition json_column :: "('n \<Rightarrow> i64 option) \<Rightarrow> (string \<times> 'n Value) list list \<Rightarrow> string \<Rightarrow> ColumnSchema" where
  "json_column as array key =
     (let (types, present_count) = foldl (observe as key) ([], 0) array
      in \<lparr>cs_name = key, hyper_type = inferred_to_hyper_name (resolve_type types),
          cs_nullable = present_count < length array \<or> NullType \<in> set types\<rparr>)"

definition infer_json_schema :: "'n parsers \<Rightarrow> string \<Rightarrow> McpError + ColumnSchema list" where
  "infer_json_schema ps json_str =
     (case from_json_rows ps json_str of
        Inl e \<Rightarrow> Inl (McpError_new SchemaMismatch (''Invalid JSON array: '' @ e))
      | Inr array \<Rightarrow>
          if array = [] then Inl (McpError_new EmptyData ''JSON array is empty'')
          else Inr (map (json_column (as_i64 ps) array) (all_keys array)))"

subsection \<open>CSV\<close>

definition is_null_field :: "string \<Rightarrow> bool" where
  "is_null_field trimmed \<longleftrightarrow>
     trimmed = [] \<or> eq_ignore_ascii_case trimmed ''null'' \<or> eq_ignore_ascii_case trimmed ''na''"

definition infer_csv_field_type :: "(string \<Rightarrow> bool) \<Rightarrow> string \<Rightarrow> InferredType" where
  "infer_csv_field_type f64 field =
     (let trimmed = trim field
      in if is_null_field trimmed then NullType
         else if eq_ignore_ascii_case trimmed ''true'' \<or> eq_ignore_ascii_case trimmed ''false'' then BoolType
         else case parse_signed (- (2 ^ 63)) (2 ^ 63 - 1) trimmed of
             Some i \<Rightarrow> if in_i32 i then IntType else BigIntType
           | None \<Rightarrow> if f64 trimmed then DoubleType else infer_string_type trimmed)"

definition csv_row_error :: "nat \<Rightarrow> string \<Rightarrow> McpError" where
  "csv_row_error row_idx e =
     McpError_new SchemaMismatch (''CSV parse error at row '' @ show_nat (row_idx + 1) @ '': '' @ e)"

text \<open>The records that are sampled, or the first error among them.\<close>

fun csv_rows :: "nat \<Rightarrow> (string + string list) list \<Rightarrow> McpError + string list list" where
  "csv_rows row_idx [] = Inr []"
| "csv_rows row_idx (Inl e # rs) = Inl (csv_row_error row_idx e)"
| "csv_rows row_idx (Inr record # rs) = try_bind (csv_rows (row_idx + 1) rs) (\<lambda>rows. Inr (record # rows))"

definition SAMPLE_ROWS :: nat where
  "SAMPLE_ROWS = 1000"

definition field_at :: "string list \<Rightarrow> nat \<Rightarrow> string option" where
  "field_at record i = (if i < length record then Some (record ! i) else None)"

text \<open>The types pushed to one column: the rows that are long enough have a field for it.\<close>

definition column_types :: "(string \<Rightarrow> bool) \<Rightarrow> string list list \<Rightarrow> nat \<Rightarrow> InferredType list" where
  "column_types f64 rows i = map (infer_csv_field_type f64) (List.map_filter (\<lambda>record. field_at record i) rows)"

definition csv_names :: "'n parsers \<Rightarrow> string \<Rightarrow> bool \<Rightarrow> McpError + string list" where
  "csv_names ps csv_text has_header =
     (if has_header then
        (case csv_headers ps csv_text of
           Inl e \<Rightarrow> Inl (McpError_new SchemaMismatch (''CSV header error: '' @ e))
         | Inr hs \<Rightarrow> Inr hs)
      else
        (case csv_records ps has_header csv_text of
           Inr record # _ \<Rightarrow> Inr (map (\<lambda>i. ''col_'' @ show_nat i) [0..<length record])
         | _ \<Rightarrow> Inl (McpError_new EmptyData ''CSV has no data rows'')))"

definition infer_csv_schema :: "'n parsers \<Rightarrow> string \<Rightarrow> bool \<Rightarrow> McpError + ColumnSchema list" where
  "infer_csv_schema ps csv_text has_header =
     try_bind (csv_names ps csv_text has_header) (\<lambda>headers.
       if headers = [] then Inl (McpError_new EmptyData ''CSV has no columns'')
       else
         try_bind (csv_rows 0 (take SAMPLE_ROWS (csv_records ps has_header csv_text))) (\<lambda>rows.
           Inr (map (\<lambda>i. \<lparr>cs_name = headers ! i,
                          hyper_type = inferred_to_hyper_name (resolve_type (column_types (parses_f64 ps) rows i)),
                          cs_nullable = True\<rparr>)
                 [0..<length headers])))"

subsection \<open>The second pass over CSV\<close>

record ColStats =
  st_min :: "int option"
  st_max :: "int option"
  has_decimal :: bool
  overflow_i128 :: bool

definition ColStats_default :: ColStats where
  "ColStats_default = \<lparr>st_min = None, st_max = None, has_decimal = False, overflow_i128 = False\<rparr>"

definition is_candidate :: "ColumnSchema \<Rightarrow> bool" where
  "is_candidate c \<longleftrightarrow> hyper_type c \<in> {''INT'', ''INTEGER'', ''BIGINT'', ''DOUBLE PRECISION''}"

definition add_field :: "ColStats \<Rightarrow> string \<Rightarrow> ColStats" where
  "add_field s field =
     (let trimmed = trim field
      in if is_null_field trimmed then s
         else if CHR ''.'' \<in> set trimmed \<or> CHR ''e'' \<in> set trimmed \<or> CHR ''E'' \<in> set trimmed
         then s\<lparr>has_decimal := True\<rparr>
         else case parse_signed (- (2 ^ 127)) (2 ^ 127 - 1) trimmed of
             Some n \<Rightarrow> s\<lparr>st_min := Some (case st_min s of None \<Rightarrow> n | Some m \<Rightarrow> min m n),
                          st_max := Some (case st_max s of None \<Rightarrow> n | Some m \<Rightarrow> max m n)\<rparr>
           | None \<Rightarrow> s\<lparr>overflow_i128 := True\<rparr>)"

definition column_stats :: "string list list \<Rightarrow> nat \<Rightarrow> ColStats" where
  "column_stats rows i = foldl add_field ColStats_default (List.map_filter (\<lambda>record. field_at record i) rows)"

definition promote :: "ColStats \<Rightarrow> string \<Rightarrow> string" where
  "promote s t =
     (let within = (\<lambda>P m. case m of None \<Rightarrow> True | Some (v::int) \<Rightarrow> P v)
      in if t = ''INT'' \<or> t = ''INTEGER'' then
           (if has_decimal s then ''DOUBLE PRECISION''
            else if overflow_i128 s \<or> \<not> within in_i64 (st_min s) \<or> \<not> within in_i64 (st_max s) then ''NUMERIC(38,0)''
            else if \<not> within in_i32 (st_min s) \<or> \<not> within in_i32 (st_max s) then ''BIGINT''
            else t)
         else if t = ''BIGINT'' then
           (if has_decimal s then ''DOUBLE PRECISION''
            else if overflow_i128 s \<or> \<not> within in_i64 (st_min s) \<or> \<not> within in_i64 (st_max s) then ''NUMERIC(38,0)''
            else t)
         else t)"

definition widen_csv_numeric_columns ::
  "'n parsers \<Rightarrow> string \<Rightarrow> bool \<Rightarrow> ColumnSchema list \<Rightarrow> McpError + ColumnSchema list" where
  "widen_csv_numeric_columns ps csv_text has_header columns =
     (if \<not> list_ex is_candidate columns then Inr columns
      else
        try_bind (csv_rows 0 (csv_records ps has_header csv_text)) (\<lambda>rows.
          Inr (map (\<lambda>i. if is_candidate (columns ! i)
                         then (columns ! i)\<lparr>hyper_type := promote (column_stats rows i) (hyper_type (columns ! i))\<rparr>
                         else columns ! i)
                [0..<length columns])))"

subsection \<open>Overrides\<close>

fun as_str :: "'n Value \<Rightarrow> string option" where
  "as_str (JString s) = Some s"
| "as_str _ = None"

definition not_a_string :: "string \<Rightarrow> McpError" where
  "not_a_string name =
     McpError_new SchemaMismatch (''Schema type for '' @ [CHR 0x27] @ name @ [CHR 0x27] @ '' must be a string'')"

fun parse_schema_override :: "(string \<times> 'n Value) list \<Rightarrow> McpError + ColumnSchema list" where
  "parse_schema_override [] = Inr []"
| "parse_schema_override ((name, val) # schema) =
     (case as_str val of
        None \<Rightarrow> Inl (not_a_string name)
      | Some type_name \<Rightarrow>
          try_bind (column_type_sql type_name name) (\<lambda>t.
          try_bind (parse_schema_override schema) (\<lambda>cols.
            Inr (\<lparr>cs_name = name, hyper_type = t, cs_nullable = True\<rparr> # cols))))"

fun json_type_name :: "'n Value \<Rightarrow> string" where
  "json_type_name JNull = ''null''"
| "json_type_name (JBool _) = ''boolean''"
| "json_type_name (JNumber _) = ''number''"
| "json_type_name (JString _) = ''string''"
| "json_type_name (JArray _) = ''array''"
| "json_type_name (JObject _) = ''object''"

definition not_an_object :: "'n Value \<Rightarrow> McpError" where
  "not_an_object v =
     McpError_new SchemaMismatch
       (''`schema` parameter must be a JSON object mapping column names to type strings, got '' @ json_type_name v @ ''.'')"

definition normalize_schema_param ::
  "'n parsers \<Rightarrow> 'n Value option \<Rightarrow> McpError + (string \<times> 'n Value) list option" where
  "normalize_schema_param ps schema =
     (case schema of
        None \<Rightarrow> Inr None
      | Some JNull \<Rightarrow> Inr None
      | Some (JObject m) \<Rightarrow> Inr (Some m)
      | Some (JString s) \<Rightarrow>
          if trim s = [] then Inr None
          else (case from_json_value ps (trim s) of
                  Inl e \<Rightarrow> Inl (McpError_new SchemaMismatch
                    (''`schema` parameter is a string but not valid JSON: '' @ e @ ''. Expected an object like {''
                       @ [CHR 0x22] @ ''col'' @ [CHR 0x22] @ '': '' @ [CHR 0x22] @ ''TEXT'' @ [CHR 0x22] @ ''}.''))
                | Inr (JObject m) \<Rightarrow> Inr (Some m)
                | Inr JNull \<Rightarrow> Inr None
                | Inr other \<Rightarrow> Inl (not_an_object other))
      | Some other \<Rightarrow> Inl (not_an_object other))"

text \<open>The types of an override, by column name; a JSON object has each key once.\<close>

fun canonical_types ::
  "'n parsers \<Rightarrow> ColumnSchema list \<Rightarrow> (string \<times> 'n Value) list \<Rightarrow> McpError + (string \<times> string) list" where
  "canonical_types ps inferred [] = Inr []"
| "canonical_types ps inferred ((name, val) # m) =
     (if name \<notin> set (map cs_name inferred) then
        Inl (McpError_new SchemaMismatch
          (''Override key '' @ [CHR 0x27] @ name @ [CHR 0x27] @ '' does not match any column. Known columns: ''
             @ debug_names ps (map cs_name inferred)))
      else case as_str val of
        None \<Rightarrow> Inl (not_a_string name)
      | Some type_name \<Rightarrow>
          try_bind (column_type_sql type_name name) (\<lambda>t.
          try_bind (canonical_types ps inferred m) (\<lambda>ts. Inr ((name, t) # ts))))"

fun overlay :: "(string \<rightharpoonup> string) \<Rightarrow> ColumnSchema list \<Rightarrow> ColumnSchema list" where
  "overlay types [] = []"
| "overlay types (col # cols) =
     (case types (cs_name col) of
        Some ty \<Rightarrow> col\<lparr>hyper_type := ty\<rparr> # overlay (types(cs_name col := None)) cols
      | None \<Rightarrow> col # overlay types cols)"

definition apply_schema_override ::
  "'n parsers \<Rightarrow> ColumnSchema list \<Rightarrow> (string \<times> 'n Value) list \<Rightarrow> McpError + ColumnSchema list" where
  "apply_schema_override ps inferred override_map =
     try_bind (canonical_types ps inferred override_map) (\<lambda>types. Inr (overlay (map_of types) inferred))"


section \<open>Widening is a join\<close>

text \<open>The order of the types: null below everything, text above everything, and the numbers by width.\<close>

instantiation InferredType :: semilattice_sup
begin

definition less_eq_InferredType :: "InferredType \<Rightarrow> InferredType \<Rightarrow> bool" where
  "x \<le> y \<longleftrightarrow> x = y \<or> x = NullType \<or> y = TextType \<or> x = IntType \<and> y \<in> {BigIntType, DoubleType}
     \<or> x = BigIntType \<and> y = DoubleType"

definition less_InferredType :: "InferredType \<Rightarrow> InferredType \<Rightarrow> bool" where
  "x < y \<longleftrightarrow> x \<le> y \<and> \<not> y \<le> (x :: InferredType)"

definition sup_InferredType :: "InferredType \<Rightarrow> InferredType \<Rightarrow> InferredType" where
  "sup x y = (if x \<le> y then y else if y \<le> x then x else TextType)"

instance
proof (standard, goal_cases)
  case (7 y x z)
  then show ?case
    by (cases x; cases y; cases z) (simp_all add: sup_InferredType_def less_eq_InferredType_def)
qed (auto simp: less_InferredType_def less_eq_InferredType_def sup_InferredType_def)

end

lemma type_order [simp]:
  "NullType \<le> t" "t \<le> TextType" "t \<le> NullType \<longleftrightarrow> t = NullType" "TextType \<le> t \<longleftrightarrow> t = TextType"
  "t \<le> IntType \<longleftrightarrow> t \<in> {NullType, IntType}"
  "t \<le> BigIntType \<longleftrightarrow> t \<in> {NullType, IntType, BigIntType}"
  "t \<le> DoubleType \<longleftrightarrow> t \<in> {NullType, IntType, BigIntType, DoubleType}"
  "t \<le> BoolType \<longleftrightarrow> t \<in> {NullType, BoolType}" "t \<le> DateType \<longleftrightarrow> t \<in> {NullType, DateType}"
  "t \<le> TimestampType \<longleftrightarrow> t \<in> {NullType, TimestampType}"
  by (auto simp: less_eq_InferredType_def)

lemma resolve_type_nulls: "set ts \<subseteq> {NullType} \<Longrightarrow> resolve_type ts = TextType"
proof -
  assume "set ts \<subseteq> {NullType}"
  then have "filter (\<lambda>t. t \<noteq> NullType) ts = []"
    by (auto simp: filter_empty_conv)
  then show ?thesis by (simp add: resolve_type_def)
qed

text \<open>What the cases of the code say about the types that are not null.\<close>

lemma resolve_type_cases:
  assumes "t \<in> set ts" "t \<noteq> NullType"
  shows "set ts \<subseteq> {NullType, t} \<and> resolve_type ts = t
    \<or> \<not> set ts \<subseteq> {NullType, t} \<and> set ts \<subseteq> {NullType, IntType, BigIntType, DoubleType} \<and>
        resolve_type ts = (if DoubleType \<in> set ts then DoubleType else if BigIntType \<in> set ts then BigIntType else IntType)
    \<or> \<not> set ts \<subseteq> {NullType, t} \<and> \<not> set ts \<subseteq> {NullType, IntType, BigIntType, DoubleType} \<and> resolve_type ts = TextType"
proof -
  let ?n = "filter (\<lambda>t. t \<noteq> NullType) ts"
  from assms have "t \<in> set ?n" by simp
  then obtain f rest where n: "?n = f # rest" by (cases ?n) auto
  have set_n: "set ?n = set ts - {NullType}" by auto
  have same: "list_all (\<lambda>t. t = f) ?n \<longleftrightarrow> set ts \<subseteq> {NullType, t}"
  proof -
    have "f \<in> set ?n" by (simp add: n)
    with \<open>t \<in> set ?n\<close> have "f = t \<and> set ts \<subseteq> {NullType, f} \<longleftrightarrow> set ts \<subseteq> {NullType, t}"
      "list_all (\<lambda>t. t = f) ?n \<Longrightarrow> f = t"
      unfolding list_all_iff set_n by auto
    moreover have "list_all (\<lambda>t. t = f) ?n \<longleftrightarrow> set ts \<subseteq> {NullType, f}"
      unfolding list_all_iff set_n by auto
    ultimately show ?thesis by blast
  qed
  have f: "set ts \<subseteq> {NullType, t} \<Longrightarrow> f = t"
  proof -
    have "f \<in> set ?n" by (simp add: n)
    then show "set ts \<subseteq> {NullType, t} \<Longrightarrow> ?thesis" unfolding set_n by auto
  qed
  have nums: "list_all (\<lambda>t. t \<in> {IntType, BigIntType, DoubleType}) ?n \<longleftrightarrow> set ts \<subseteq> {NullType, IntType, BigIntType, DoubleType}"
    by (auto simp: list_all_iff)
  have "list_ex (\<lambda>t. t = u) ?n \<longleftrightarrow> u \<in> set ts" if "u \<noteq> NullType" for u
    using that by (auto simp: list_ex_iff)
  then have ex: "list_ex (\<lambda>t. t = DoubleType) ?n \<longleftrightarrow> DoubleType \<in> set ts" "list_ex (\<lambda>t. t = BigIntType) ?n \<longleftrightarrow> BigIntType \<in> set ts"
    by simp_all
  have "resolve_type ts =
      (if list_all (\<lambda>t. t = f) ?n then f
       else if list_all (\<lambda>t. t \<in> {IntType, BigIntType, DoubleType}) ?n then
         (if list_ex (\<lambda>t. t = DoubleType) ?n then DoubleType else if list_ex (\<lambda>t. t = BigIntType) ?n then BigIntType else IntType)
       else TextType)"
    by (simp only: resolve_type_def Let_def n list.case)
  then show ?thesis
    unfolding same nums ex using f by auto
qed

lemma resolve_type_lub:
  assumes "t \<in> set ts" "t \<noteq> NullType"
  shows "resolve_type ts \<le> u \<longleftrightarrow> (\<forall>t \<in> set ts. t \<le> u)"
proof
  assume le: "resolve_type ts \<le> u"
  have "x \<le> resolve_type ts" if x: "x \<in> set ts" for x
    using resolve_type_cases [OF assms]
  proof (elim disjE conjE)
    assume "set ts \<subseteq> {NullType, IntType, BigIntType, DoubleType}"
      and "resolve_type ts = (if DoubleType \<in> set ts then DoubleType else if BigIntType \<in> set ts then BigIntType else IntType)"
    with x show ?thesis by auto
  qed (use x in auto)
  with le show "\<forall>t \<in> set ts. t \<le> u" by (auto intro: order_trans)
next
  assume above: "\<forall>t \<in> set ts. t \<le> u"
  have nums: "\<not> u \<in> {IntType, BigIntType, DoubleType}" if "\<not> set ts \<subseteq> {NullType, IntType, BigIntType, DoubleType}"
    using that above by auto
  have other: "u = TextType \<or> u \<in> {IntType, BigIntType, DoubleType}" if "\<not> set ts \<subseteq> {NullType, t}"
  proof -
    from that obtain x where "x \<in> set ts" "x \<noteq> NullType" "x \<noteq> t" by auto
    moreover from this have "x \<le> u" "t \<le> u" using above assms by auto
    ultimately show ?thesis using assms(2) by (cases u) auto
  qed
  have int: "IntType \<in> set ts" if "DoubleType \<notin> set ts" "BigIntType \<notin> set ts" "set ts \<subseteq> {NullType, IntType, BigIntType, DoubleType}"
    using that assms by auto
  from resolve_type_cases [OF assms] show "resolve_type ts \<le> u"
    using above assms nums other int by (elim disjE conjE) auto
qed

text \<open>A meaning of types, monotone in the order, in which every value has its own type: then it
  has the type its column gets.\<close>

locale typed_values =
  fixes fits :: "InferredType \<Rightarrow> 'v \<Rightarrow> bool" and type_of :: "'v \<Rightarrow> InferredType"
  assumes fits_mono: "t \<le> u \<Longrightarrow> fits t v \<Longrightarrow> fits u v"
    and fits_own: "type_of v \<noteq> NullType \<Longrightarrow> fits (type_of v) v"
begin

lemma fits_column: "v \<in> set vs \<Longrightarrow> type_of v \<noteq> NullType \<Longrightarrow> fits (resolve_type (map type_of vs)) v"
  using resolve_type_lub [of "type_of v" "map type_of vs" "resolve_type (map type_of vs)"] fits_own fits_mono
  by (metis image_eqI list.set_map order_refl)

end

text \<open>What a type name says of a JSON value.\<close>

fun json_fits :: "('n \<Rightarrow> i64 option) \<Rightarrow> InferredType \<Rightarrow> 'n Value \<Rightarrow> bool" where
  "json_fits as NullType v = False"
| "json_fits as BoolType v = (case v of JBool _ \<Rightarrow> True | _ \<Rightarrow> False)"
| "json_fits as IntType v = (case v of JNumber n \<Rightarrow> (case as n of Some i \<Rightarrow> in_i32 (sint i) | None \<Rightarrow> False) | _ \<Rightarrow> False)"
| "json_fits as BigIntType v = (case v of JNumber n \<Rightarrow> as n \<noteq> None | _ \<Rightarrow> False)"
| "json_fits as DoubleType v = (case v of JNumber n \<Rightarrow> True | _ \<Rightarrow> False)"
| "json_fits as DateType v = (case v of JString s \<Rightarrow> infer_string_type s = DateType | _ \<Rightarrow> False)"
| "json_fits as TimestampType v = (case v of JString s \<Rightarrow> infer_string_type s = TimestampType | _ \<Rightarrow> False)"
| "json_fits as TextType v = True"

lemma infer_string_type_range: "infer_string_type s \<in> {DateType, TimestampType, TextType}"
  by (simp add: infer_string_type_def)

interpretation json: typed_values "json_fits as" "infer_json_value_type as" for as :: "'n \<Rightarrow> i64 option"
proof (unfold_locales, goal_cases)
  case (1 t u v)
  then show ?case
    by (cases u) (auto split: Value.splits option.splits)
next
  case (2 v)
  show ?case
  proof (cases v)
    case (JNumber n)
    then show ?thesis by (auto split: option.splits)
  next
    case (JString s)
    then show ?thesis using infer_string_type_range [of s] by auto
  qed (use 2 in auto)
qed

text \<open>And of a CSV field.\<close>

fun csv_fits :: "(string \<Rightarrow> bool) \<Rightarrow> InferredType \<Rightarrow> string \<Rightarrow> bool" where
  "csv_fits f64 NullType field = False"
| "csv_fits f64 BoolType field = (eq_ignore_ascii_case (trim field) ''true'' \<or> eq_ignore_ascii_case (trim field) ''false'')"
| "csv_fits f64 IntType field = (parse_signed (- (2 ^ 31)) (2 ^ 31 - 1) (trim field) \<noteq> None)"
| "csv_fits f64 BigIntType field = (parse_signed (- (2 ^ 63)) (2 ^ 63 - 1) (trim field) \<noteq> None)"
| "csv_fits f64 DoubleType field = (parse_signed (- (2 ^ 63)) (2 ^ 63 - 1) (trim field) \<noteq> None \<or> f64 (trim field))"
| "csv_fits f64 DateType field = (infer_string_type (trim field) = DateType)"
| "csv_fits f64 TimestampType field = (infer_string_type (trim field) = TimestampType)"
| "csv_fits f64 TextType field = True"

lemma parse_signed_narrow:
  "parse_signed lo hi s = Some i \<Longrightarrow> lo' \<le> i \<Longrightarrow> i \<le> hi' \<Longrightarrow> parse_signed lo' hi' s = Some i"
  by (auto simp: parse_signed_def split: bind_splits if_splits list.splits)

lemma parse_signed_range: "parse_signed lo hi s = Some i \<Longrightarrow> lo \<le> i \<and> i \<le> hi"
  by (auto simp: parse_signed_def split: bind_splits if_splits)

lemma parse_signed_widen:
  assumes "parse_signed lo hi s \<noteq> None" "lo' \<le> lo" "hi \<le> hi'"
  shows "parse_signed lo' hi' s \<noteq> None"
proof -
  from assms obtain i where i: "parse_signed lo hi s = Some i" by auto
  with parse_signed_range [OF i] assms parse_signed_narrow [OF i, of lo' hi'] show ?thesis by simp
qed

lemma csv_type_null_iff: "infer_csv_field_type f64 field = NullType \<longleftrightarrow> is_null_field (trim field)"
  using infer_string_type_range [of "trim field"] by (auto simp: infer_csv_field_type_def Let_def split: option.splits)

interpretation csv: typed_values "csv_fits f64" "infer_csv_field_type f64" for f64 :: "string \<Rightarrow> bool"
proof (unfold_locales, goal_cases)
  case (1 t u v)
  then show ?case
    using parse_signed_widen [of "- (2 ^ 31)" "2 ^ 31 - 1" "trim v" "- (2 ^ 63)" "2 ^ 63 - 1"] by (cases u) auto
next
  case (2 v)
  show ?case
  proof (cases "parse_signed (- (2 ^ 63)) (2 ^ 63 - 1) (trim v)")
    case None
    then show ?thesis
      using 2 infer_string_type_range [of "trim v"] by (auto simp: infer_csv_field_type_def Let_def)
  next
    case (Some i)
    then show ?thesis
      using 2 parse_signed_narrow [OF Some, of "- (2 ^ 31)" "2 ^ 31 - 1"]
      by (auto simp: infer_csv_field_type_def Let_def in_i32_def)
  qed
qed


section \<open>Types hold of the data\<close>

text \<open>The type a name stands for.\<close>

definition named_type :: "string \<Rightarrow> InferredType" where
  "named_type n =
     (if n = ''BOOL'' then BoolType else if n = ''INT'' then IntType else if n = ''BIGINT'' then BigIntType
      else if n = ''DOUBLE PRECISION'' then DoubleType else if n = ''DATE'' then DateType
      else if n = ''TIMESTAMP'' then TimestampType else TextType)"

lemma resolve_type_not_null [simp]: "resolve_type ts \<noteq> NullType"
proof (cases "set ts \<subseteq> {NullType}")
  case False
  then obtain t where "t \<in> set ts" "t \<noteq> NullType" by auto
  then show ?thesis using resolve_type_lub [of t ts "resolve_type ts"] by auto
qed (simp add: resolve_type_nulls)

lemma named_type_name: "t \<noteq> NullType \<Longrightarrow> named_type (inferred_to_hyper_name t) = t"
  by (cases t) (simp_all add: named_type_def)

lemma named_type_resolved [simp]: "named_type (inferred_to_hyper_name (resolve_type ts)) = resolve_type ts"
  by (simp add: named_type_name)

subsection \<open>JSON\<close>

lemma observe_loop:
  "foldl (observe as key) (ts, n) array =
     (ts @ map (infer_json_value_type as) (List.map_filter (\<lambda>obj. map_of obj key) array),
      n + length (List.map_filter (\<lambda>obj. map_of obj key) array))"
proof (induction array arbitrary: ts n)
  case (Cons obj array)
  then show ?case
    by (auto simp: observe_def List.map_filter_simps split: option.split Value.split)
qed (simp add: List.map_filter_simps)

lemma length_map_filter: "length (List.map_filter f xs) = length (filter (\<lambda>x. f x \<noteq> None) xs)"
  by (induction xs) (auto simp: List.map_filter_simps split: option.split)

lemma set_map_filter: "set (List.map_filter f xs) = {y. \<exists>x \<in> set xs. f x = Some y}"
  by (induction xs) (auto simp: List.map_filter_simps split: option.splits)

lemma length_filter_all: "length (filter P xs) < length xs \<longleftrightarrow> (\<exists>x \<in> set xs. \<not> P x)"
  by (metis filter_True length_filter_less less_irrefl)

lemma json_null_iff: "infer_json_value_type as v = NullType \<longleftrightarrow> v = JNull"
proof (cases v)
  case (JString s)
  then show ?thesis using infer_string_type_range [of s] by auto
qed (auto split: option.split)

lemma json_column_simps:
  "cs_name (json_column as array key) = key"
  "named_type (hyper_type (json_column as array key)) =
     resolve_type (map (infer_json_value_type as) (List.map_filter (\<lambda>obj. map_of obj key) array))"
  "cs_nullable (json_column as array key) \<longleftrightarrow> (\<exists>obj \<in> set array. map_of obj key \<in> {None, Some JNull})"
proof -
  let ?vs = "List.map_filter (\<lambda>obj. map_of obj key) array"
  have "NullType \<in> set (map (infer_json_value_type as) ?vs) \<longleftrightarrow> (\<exists>obj \<in> set array. map_of obj key = Some JNull)"
    by (auto simp: set_map_filter image_iff json_null_iff eq_commute [of NullType])
  then show "cs_nullable (json_column as array key) \<longleftrightarrow> (\<exists>obj \<in> set array. map_of obj key \<in> {None, Some JNull})"
    by (auto simp: json_column_def observe_loop length_map_filter length_filter_all)
qed (simp_all add: json_column_def observe_loop)

lemma json_fits_column:
  assumes "obj \<in> set array" "map_of obj key = Some v" "v \<noteq> JNull"
  shows "json_fits as (named_type (hyper_type (json_column as array key))) v"
proof -
  have "v \<in> set (List.map_filter (\<lambda>obj. map_of obj key) array)"
    using assms by (auto simp: set_map_filter)
  with assms(3) show ?thesis
    by (simp add: json_column_simps json.fits_column json_null_iff)
qed


subsection \<open>CSV\<close>

text \<open>The statistics of a column: nothing decimal or too long was seen, and all numbers lie between the
  extrema.\<close>

definition within :: "ColStats \<Rightarrow> string \<Rightarrow> bool" where
  "within s field \<longleftrightarrow>
     has_decimal s \<or> overflow_i128 s \<or> is_null_field (trim field) \<or>
     (\<exists>n lo hi. parse_signed (- (2 ^ 127)) (2 ^ 127 - 1) (trim field) = Some n \<and>
        st_min s = Some lo \<and> st_max s = Some hi \<and> lo \<le> n \<and> n \<le> hi)"

lemma add_field_within: "within (add_field s field) field"
  by (auto simp: within_def add_field_def Let_def split: option.split)

lemma add_field_keeps: "within s field \<Longrightarrow> within (add_field s field') field"
  by (auto simp: within_def add_field_def Let_def min_def max_def split: option.split)

lemma column_stats_within: "field \<in> set fs \<Longrightarrow> within (foldl add_field s fs) field"
proof (induction fs arbitrary: s)
  case (Cons f fs)
  have "within s g \<Longrightarrow> within (foldl add_field s fs) g" for s g fs
    by (induction fs arbitrary: s) (simp_all add: add_field_keeps)
  with Cons show ?case by (auto simp: add_field_within)
qed simp

lemma promote_integer:
  assumes "promote s t \<in> {''INT'', ''BIGINT''}" "within s field" "\<not> is_null_field (trim field)"
  shows "csv_fits f64 (named_type (promote s t)) field"
proof -
  from assms(1) have "\<not> has_decimal s" "\<not> overflow_i128 s"
    by (auto simp: promote_def Let_def split: if_splits)
  with assms obtain n lo hi where n: "parse_signed (- (2 ^ 127)) (2 ^ 127 - 1) (trim field) = Some n"
    and ext: "st_min s = Some lo" "st_max s = Some hi" "lo \<le> n" "n \<le> hi"
    by (auto simp: within_def)
  have "promote s t = ''INT'' \<Longrightarrow> in_i32 n" "promote s t = ''BIGINT'' \<Longrightarrow> in_i64 n"
    using ext \<open>\<not> has_decimal s\<close> \<open>\<not> overflow_i128 s\<close>
    by (auto simp: promote_def Let_def in_i32_def in_i64_def split: if_splits)
  with assms(1) show ?thesis
    using parse_signed_narrow [OF n] by (auto simp: named_type_def in_i32_def in_i64_def)
qed

lemma csv_rows_Inr: "csv_rows k rs = Inr rows \<longleftrightarrow> rs = map Inr rows"
proof (induction k rs arbitrary: rows rule: csv_rows.induct)
  case (3 k row rs)
  then show ?case by (cases rows) (auto simp: try_bind_eq_Inr)
qed auto

lemma inferred_columns:
  assumes "infer_csv_schema ps text hdr = Inr cols"
  obtains rows where "take SAMPLE_ROWS (csv_records ps hdr text) = map Inr rows"
    and "\<And>i. i < length cols \<Longrightarrow>
      hyper_type (cols ! i) = inferred_to_hyper_name (resolve_type (column_types (parses_f64 ps) rows i))"
  using assms by (auto simp: infer_csv_schema_def try_bind_eq_Inr csv_rows_Inr split: if_splits)

lemma field_fits_sample:
  assumes "row \<in> set rows" "field_at row i = Some field" "\<not> is_null_field (trim field)"
  shows "csv_fits f64 (resolve_type (column_types f64 rows i)) field"
  unfolding column_types_def
  using assms by (intro csv.fits_column) (auto simp: set_map_filter csv_type_null_iff)

text \<open>The second pass changes types only, and only those of numeric columns.\<close>

lemma widened_columns:
  assumes "widen_csv_numeric_columns ps text hdr cols = Inr cols'"
  shows "length cols' = length cols"
    and "i < length cols \<Longrightarrow> cols' ! i = cols ! i \<and> \<not> is_candidate (cols ! i) \<or>
      (\<exists>rows. csv_records ps hdr text = map Inr rows \<and> is_candidate (cols ! i) \<and>
        cols' ! i = (cols ! i)\<lparr>hyper_type := promote (column_stats rows i) (hyper_type (cols ! i))\<rparr>)"
  using assms by (auto simp: widen_csv_numeric_columns_def try_bind_eq_Inr csv_rows_Inr list_ex_iff split: if_splits)

definition csv_name_fits :: "(string \<Rightarrow> bool) \<Rightarrow> string \<Rightarrow> string \<Rightarrow> bool" where
  "csv_name_fits f64 ty field \<longleftrightarrow>
     (if ty = ''NUMERIC(38,0)'' then parse_signed (- (2 ^ 127)) (2 ^ 127 - 1) (trim field) \<noteq> None
      else csv_fits f64 (named_type ty) field)"

lemma promote_range:
  "promote s t = t \<or> t \<in> {''INT'', ''INTEGER'', ''BIGINT''} \<and> promote s t \<in> {''DOUBLE PRECISION'', ''NUMERIC(38,0)'', ''BIGINT''}"
  by (simp add: promote_def Let_def)

lemma promote_fits:
  assumes "csv_fits f64 t field" "t \<noteq> NullType"
  shows "csv_name_fits f64 (promote s (inferred_to_hyper_name t)) field"
proof (cases "promote s (inferred_to_hyper_name t) = inferred_to_hyper_name t")
  case True
  then show ?thesis
    using assms by (cases t) (simp_all add: csv_name_fits_def named_type_def)
next
  case False
  then have "inferred_to_hyper_name t \<in> {''INT'', ''INTEGER'', ''BIGINT''}"
    and p: "promote s (inferred_to_hyper_name t) \<in> {''DOUBLE PRECISION'', ''NUMERIC(38,0)'', ''BIGINT''}"
    using promote_range [of s "inferred_to_hyper_name t"] by auto
  then have "t \<le> BigIntType" by (cases t) auto
  then have big: "csv_fits f64 BigIntType field" by (rule csv.fits_mono [OF _ assms(1)])
  then have "parse_signed (- (2 ^ 127)) (2 ^ 127 - 1) (trim field) \<noteq> None"
    using parse_signed_widen [of "- (2 ^ 63)" "2 ^ 63 - 1" "trim field" "- (2 ^ 127)" "2 ^ 127 - 1"] by simp
  with p big show ?thesis by (auto simp: csv_name_fits_def named_type_def)
qed

lemma sampled_row:
  assumes rows: "take n recs = map Inr rows" and row: "k < length recs" "recs ! k = Inr row" and "k < n"
  shows "row \<in> set rows"
proof -
  have "length rows = length (take n recs)" by (simp only: rows length_map)
  then have k: "k < length rows" using row(1) \<open>k < n\<close> by simp
  have "map Inr rows ! k = recs ! k"
    using \<open>k < n\<close> by (simp flip: rows)
  with k row(2) show ?thesis by (auto simp: in_set_conv_nth)
qed



section \<open>Type names are canonical\<close>

text \<open>The texts that may be spliced into a statement: fixed names, or \<open>NUMERIC\<close> with two numbers.\<close>

definition ddl_type :: "string \<Rightarrow> bool" where
  "ddl_type t \<longleftrightarrow>
     t \<in> {''SMALLINT'', ''INTEGER'', ''BIGINT'', ''DOUBLE PRECISION'', ''TEXT'', ''BOOLEAN'', ''DATE'', ''TIME'', ''TIMESTAMP'',
          ''TIMESTAMPTZ'', ''BYTEA''}
     \<or> (\<exists>p \<in> {1..38}. \<exists>s \<in> {0..p}. t = ''NUMERIC('' @ show_nat p @ '', '' @ show_nat s @ '')'')"

definition mapped_types :: "SqlType set" where
  "mapped_types =
     {SqlSmallInt, SqlInt, SqlBigInt, SqlDouble, SqlText, SqlBool, SqlDate, SqlTime, SqlTimestamp, SqlTimestampTz, SqlByteA}"

definition numeric_type :: "SqlType \<Rightarrow> bool" where
  "numeric_type t \<longleftrightarrow> (\<exists>p s. t = SqlNumeric p s \<and> 1 \<le> unat p \<and> unat p \<le> 38 \<and> unat s \<le> unat p)"

lemma try_numeric_wf: "try_numeric p s = Some t \<Longrightarrow> numeric_type t"
  by (auto simp: try_numeric_def numeric_type_def MAX_PRECISION_def word_le_nat_alt split: if_splits)

lemma parse_numeric_wf:
  assumes "parse_numeric upper = Some (Inr t)"
  shows "numeric_type t"
proof -
  have "numeric_type (SqlNumeric 38 0)" by (simp add: numeric_type_def)
  then show ?thesis
    using assms unfolding parse_numeric_def
    by (auto split: bind_splits if_splits option.splits list.splits intro: try_numeric_wf)
qed

lemma map_hyper_type_wf:
  assumes "map_hyper_type name = Inr t"
  shows "t \<in> mapped_types \<or> numeric_type t"
proof (cases "parse_numeric (to_uppercase (trim name)) = Some (Inr t)")
  case True
  then show ?thesis using parse_numeric_wf by blast
next
  case False
  then show ?thesis
    using assms by (auto simp: map_hyper_type_def Let_def mapped_types_def split: if_splits option.splits)
qed

subsection \<open>Reading a printed type\<close>

definition plain_char :: "char \<Rightarrow> bool" where
  "plain_char c \<longleftrightarrow> 33 \<le> (of_char c :: nat) \<and> (of_char c :: nat) < 127"

lemma ws_prefix_plain_char: "plain_char c \<Longrightarrow> ws_prefix (of_char c # r) = 0"
  by (auto simp: plain_char_def split: list.split)

lemma ws_suffix_plain:
  assumes "plain_char c"
  shows "ws_suffix (codes (s @ [c])) = 0"
proof -
  let ?n = "of_char c :: nat"
  have n: "33 \<le> ?n" "?n < 127" using assms by (simp_all add: plain_char_def)
  have one: "ws_prefix [?n] = 0" using n by simp
  have two: "ws_prefix [a, ?n] \<noteq> 2" "ws_prefix [a, b, ?n] \<noteq> 3" for a b
    using n by auto
  show ?thesis
  proof (cases s rule: rev_cases)
    case Nil
    then show ?thesis using one by (simp add: codes_def ws_suffix_def)
  next
    case (snoc s' b)
    then show ?thesis
      using one two by (cases s' rule: rev_cases) (simp_all add: codes_def ws_suffix_def)
  qed
qed

lemma trim_start_plain_char: "plain_char c \<Longrightarrow> trim_start (c # s) = c # s"
  by (subst trim_start.simps) (simp add: codes_def ws_prefix_plain_char del: ws_prefix.simps)

lemma trim_plain:
  assumes "plain_char c" "plain_char d" "s = c # t" "s = u @ [d]"
  shows "trim s = s"
proof -
  have "trim_start s = s"
    using trim_start_plain_char [OF assms(1)] by (simp add: assms(3))
  moreover have "trim_end s = s"
    using ws_suffix_plain [OF assms(2)] by (subst trim_end.simps) (simp add: assms(4))
  ultimately show ?thesis by (simp add: trim_def)
qed

lemma to_uppercase_upper: "list_all (\<lambda>c. (of_char c :: nat) < 97) s \<Longrightarrow> to_uppercase s = s"
proof (induction s)
  case (Cons a s)
  then have "a \<notin> {CHR 0xC4, CHR 0xC5, CHR 0xC3, CHR 0xEF}" "ascii_upper a = a"
    by (auto simp: ascii_upper_def)
  with Cons show ?case by simp
qed simp

lemma show_nat_digit_char: "c \<in> set (show_nat n) \<Longrightarrow> 48 \<le> (of_char c :: nat) \<and> (of_char c :: nat) \<le> 57"
  using show_nat_digits [of n] by (auto simp: list_all_iff char_digit_def Let_def split: if_splits)

lemma no_comma [simp]: "CHR '','' \<notin> set (show_nat n)"
  using show_nat_digit_char [of "CHR '',''" n] by auto

lemma split_char_none: "c \<notin> set s \<Longrightarrow> split_char c s = [s]"
  by (induction s) auto

lemma split_char_one: "c \<notin> set s \<Longrightarrow> split_char c (s @ c # t) = s # split_char c t"
  by (induction s) auto

lemma trim_digits [simp]: "trim (show_nat n) = show_nat n"
proof -
  obtain c t where hd: "show_nat n = c # t" by (cases "show_nat n") auto
  obtain u d where lst: "show_nat n = u @ [d]" by (cases "show_nat n" rule: rev_cases) auto
  have "plain_char c" "plain_char d"
  proof -
    have "c \<in> set (show_nat n)" by (simp add: hd)
    moreover have "d \<in> set (show_nat n)" by (simp add: lst)
    ultimately show "plain_char c" "plain_char d"
      using show_nat_digit_char [of c n] show_nat_digit_char [of d n] by (auto simp: plain_char_def)
  qed
  then show ?thesis by (rule trim_plain [OF _ _ hd lst])
qed

lemma trim_blank_digits [simp]: "trim (CHR '' '' # show_nat n) = show_nat n"
proof -
  have "trim_start (CHR '' '' # show_nat n) = trim_start (show_nat n)"
    by (subst trim_start.simps) (simp add: codes_def)
  then show ?thesis using trim_digits [of n] by (simp only: trim_def)
qed

lemma numeric_reread:
  assumes "numeric_type t"
  shows "map_hyper_type (SqlType_fmt t) = Inr t"
proof -
  obtain p s where t: "t = SqlNumeric p s" and b: "1 \<le> unat p" "unat p \<le> 38" "unat s \<le> unat p"
    using assms by (auto simp: numeric_type_def)
  let ?p = "show_nat (unat p)" and ?s = "show_nat (unat s)"
  let ?text = "''NUMERIC('' @ ?p @ '', '' @ ?s @ '')''"
  have trim: "trim ?text = ?text"
    by (rule trim_plain [where c = "CHR ''N''" and d = "CHR '')''" and u = "''NUMERIC('' @ ?p @ '', '' @ ?s"])
      (simp_all add: plain_char_def)
  have up: "to_uppercase ?text = ?text"
    by (rule to_uppercase_upper) (auto simp: list_all_iff dest: show_nat_digit_char)
  have "trim_start (CHR ''('' # r) = CHR ''('' # r" for r
    by (simp add: trim_start_plain_char plain_char_def)
  moreover have "split_char CHR '','' (?p @ '', '' @ ?s) = [?p, CHR '' '' # ?s]"
    using split_char_one [of "CHR '',''" ?p "CHR '' '' # ?s"] split_char_none [of "CHR '',''" "CHR '' '' # ?s"]
    by simp
  moreover have "try_numeric p s = Some t"
    using b by (simp add: try_numeric_def t MAX_PRECISION_def word_le_nat_alt)
  moreover have "unat p \<le> 2 ^ 32 - 1" "unat s \<le> 2 ^ 32 - 1" using b by simp_all
  ultimately have "parse_numeric ?text = Some (Inr t)"
    by (simp add: parse_numeric_def strip_prefix_def strip_last_def butlast_append parse_unsigned_show_nat)
  then show ?thesis
    unfolding t SqlType_fmt.simps map_hyper_type_def trim up Let_def by simp
qed

lemma mapped_reread: "t \<in> mapped_types \<Longrightarrow> map_hyper_type (SqlType_fmt t) = Inr t"
  unfolding mapped_types_def by (elim insertE emptyE; hypsubst; code_simp)

lemma ddl_type_numeric: "numeric_type t \<Longrightarrow> ddl_type (SqlType_fmt t)"
  unfolding numeric_type_def ddl_type_def
proof (elim exE conjE, intro disjI2)
  fix p s
  assume "t = SqlNumeric p s" "1 \<le> unat p" "unat p \<le> 38" "unat s \<le> unat p"
  then show "\<exists>p \<in> {1..38}. \<exists>s \<in> {0..p}. SqlType_fmt t = ''NUMERIC('' @ show_nat p @ '', '' @ show_nat s @ '')''"
    by (intro bexI [of _ "unat p"] bexI [of _ "unat s"]) simp_all
qed

lemma ddl_type_mapped: "t \<in> mapped_types \<Longrightarrow> ddl_type (SqlType_fmt t)"
  by (auto simp: mapped_types_def ddl_type_def)

text \<open>C18. type names from callers cannot inject text. What \<open>canonical_type_sql\<close> returns, whatever it was given,
  is one of eleven fixed names or \<open>NUMERIC\<close> with a precision from 1 to 38 and a scale up to it; it is read
  as the type it was printed from, so canonicalising again changes nothing.\<close>

theorem canonical_type_is_closed:
  assumes "canonical_type_sql name = Inr sql"
  shows "ddl_type sql \<and> (\<exists>t. map_hyper_type name = Inr t \<and> map_hyper_type sql = Inr t) \<and> canonical_type_sql sql = Inr sql"
proof -
  from assms obtain t where t: "map_hyper_type name = Inr t" and sql: "sql = SqlType_fmt t"
    by (auto simp: canonical_type_sql_def try_bind_eq_Inr)
  have "map_hyper_type sql = Inr t"
    using map_hyper_type_wf [OF t] mapped_reread numeric_reread sql by blast
  moreover have "ddl_type sql"
    using map_hyper_type_wf [OF t] ddl_type_numeric ddl_type_mapped unfolding sql by blast
  ultimately show ?thesis
    using t sql by (simp add: canonical_type_sql_def)
qed

section \<open>Overrides\<close>

lemma overlay_nth:
  "i < length cols \<Longrightarrow> overlay types cols ! i =
     (case types (cs_name (cols ! i)) of
        Some ty \<Rightarrow> if cs_name (cols ! i) \<in> set (map cs_name (take i cols)) then cols ! i else (cols ! i)\<lparr>hyper_type := ty\<rparr>
      | None \<Rightarrow> cols ! i)"
proof (induction cols arbitrary: types i)
  case (Cons col cols)
  then show ?case
    by (cases i) (auto split: option.splits)
qed simp

lemma length_overlay [simp]: "length (overlay types cols) = length cols"
  by (induction cols arbitrary: types) (auto split: option.split)

lemma canonical_types_Inr:
  assumes "canonical_types ps inferred m = Inr types"
  shows "map fst types = map fst m \<and> set (map fst m) \<subseteq> set (map cs_name inferred) \<and>
    (\<forall>name ty. map_of types name = Some ty \<longrightarrow>
       (\<exists>type_name. map_of m name = Some (JString type_name) \<and> canonical_type_sql type_name = Inr ty))"
  using assms
proof (induction m arbitrary: types)
  case (Cons e m)
  obtain name val where e: "e = (name, val)" by (cases e)
  obtain type_name where v: "val = JString type_name"
    using Cons.prems e by (cases val) (auto split: if_splits)
  with Cons e show ?case
    by (auto simp: try_bind_eq_Inr column_type_sql_def split: if_splits sum.splits)
qed simp

text \<open>An override that is accepted names columns of the data only, and replaces the type of the first column of
  each name by the canonical text of the type it asks for; the order, the names and the nullability
  of the columns stay.\<close>

lemma override_replaces_types:
  assumes "apply_schema_override ps inferred m = Inr cols" "i < length inferred"
  shows "length cols = length inferred" "set (map fst m) \<subseteq> set (map cs_name inferred)"
    and "cols ! i = inferred ! i \<and> (map_of m (cs_name (inferred ! i)) = None \<or> cs_name (inferred ! i) \<in> set (map cs_name (take i inferred))) \<or>
      (\<exists>type_name ty. map_of m (cs_name (inferred ! i)) = Some (JString type_name) \<and> canonical_type_sql type_name = Inr ty \<and>
        cs_name (inferred ! i) \<notin> set (map cs_name (take i inferred)) \<and> cols ! i = (inferred ! i)\<lparr>hyper_type := ty\<rparr>)"
proof -
  obtain types where t: "canonical_types ps inferred m = Inr types" and c: "cols = overlay (map_of types) inferred"
    using assms(1) by (auto simp: apply_schema_override_def try_bind_eq_Inr)
  show "length cols = length inferred" by (simp add: c)
  show "set (map fst m) \<subseteq> set (map cs_name inferred)" using canonical_types_Inr [OF t] by blast
  show "cols ! i = inferred ! i \<and> (map_of m (cs_name (inferred ! i)) = None \<or> cs_name (inferred ! i) \<in> set (map cs_name (take i inferred))) \<or>
      (\<exists>type_name ty. map_of m (cs_name (inferred ! i)) = Some (JString type_name) \<and> canonical_type_sql type_name = Inr ty \<and>
        cs_name (inferred ! i) \<notin> set (map cs_name (take i inferred)) \<and> cols ! i = (inferred ! i)\<lparr>hyper_type := ty\<rparr>)"
  proof (cases "map_of types (cs_name (inferred ! i))")
    case None
    then have "map_of m (cs_name (inferred ! i)) = None"
      using canonical_types_Inr [OF t] by (metis list.set_map map_of_eq_None_iff)
    with None show ?thesis
      using overlay_nth [OF assms(2), of "map_of types"] by (simp add: c)
  next
    case (Some ty)
    then obtain type_name where "map_of m (cs_name (inferred ! i)) = Some (JString type_name)" "canonical_type_sql type_name = Inr ty"
      using canonical_types_Inr [OF t] by blast
    with Some show ?thesis
      using overlay_nth [OF assms(2), of "map_of types"] by (simp add: c)
  qed
qed

text \<open>A table built from columns has these columns, with their types and nullability.\<close>

lemma table_columns_Inr:
  "table_columns cols def = Inr def' \<Longrightarrow>
     (\<forall>col \<in> set cols. \<exists>t. map_hyper_type (hyper_type col) = Inr t) \<and>
     td_name def' = td_name def \<and>
     td_columns def' = td_columns def @ map (\<lambda>col. with_sql_type (cs_name col) (projr (map_hyper_type (hyper_type col)))
       (if cs_nullable col then Nullable else NotNullable)) cols"
proof (induction cols arbitrary: def)
  case (Cons col cols)
  then obtain t where "map_hyper_type (hyper_type col) = Inr t"
    by (auto simp: try_bind_eq_Inr)
  with Cons.prems Cons.IH show ?case
    by (force simp: add_nullable_column_def add_required_column_def split: if_splits)
qed simp

section \<open>Witnesses\<close>

text \<open>Parsers that read one text each, with integers for numbers.\<close>

definition demo_rows :: "(string \<times> int Value) list list" where
  "demo_rows = [[(''b'', JString ''x''), (''a'', JNumber 1)], [(''a'', JNumber 5000000000)]]"

definition demo_parsers :: "int parsers" where
  "demo_parsers =
     \<lparr>from_json_rows = (\<lambda>_. Inr demo_rows), from_json_value = (\<lambda>_. Inl ''unread''), as_i64 = (\<lambda>n. Some (of_int n)),
      csv_headers = (\<lambda>_. Inr [''n'']), csv_records = (\<lambda>_ _. [Inr [''7''], Inr [''NA''], Inr ['' 12'']]),
      parses_f64 = (\<lambda>_. False), debug_names = concat\<rparr>"



theorem canonical_type_is_closed_witness:
  "canonical_type_sql '' float8 '' = Inr ''DOUBLE PRECISION'' \<and> canonical_type_sql ''DOUBLE PRECISION'' = Inr ''DOUBLE PRECISION''"
proof -
  have "canonical_type_sql '' float8 '' = Inr ''DOUBLE PRECISION''"
    by code_simp
  with canonical_type_is_closed [OF this] show ?thesis by blast
qed

end
