(* ===== verification/Merge_Load.thy ===== *)
theory Merge_Load
  imports Schema_Inference Raw_Connection "HOL-Library.Multiset"
begin

text \<open>
  Loading with \<open>mode = merge\<close>: the modes and the merge of \<open>hyperdb-mcp/src/ingest.rs\<close>, the staging tables
  of \<open>scratch.rs\<close>, and of \<open>engine.rs\<close> the statements that create and widen tables.

  The engine is an argument: running a command, asking whether a table exists and for its columns,
  and the three ends of a transaction; so is the load of a format into the staging table.
  What is relied on is the meaning of the statements the merge sends, on tables whose rows are functions
  from column names to values, NULL being \<open>None\<close>. A merge is shown to be an upsert by key, and
  a failed one to leave the rows of the target as they were.
\<close>

section \<open>Modes\<close>

definition parse_mode_name :: "string option \<Rightarrow> string option \<Rightarrow> string list \<Rightarrow> string \<Rightarrow> McpError + string" where
  "parse_mode_name val dflt allowed tool =
     (case val of
        None \<Rightarrow>
          (case dflt of
             Some d \<Rightarrow> Inr d
           | None \<Rightarrow> Inl (McpError_new InvalidArgument (tool @ '': `mode` is required (one of: '' @ join '', '' allowed @ '')'')))
      | Some raw \<Rightarrow>
          (case List.find (\<lambda>a. a = raw) allowed of
             Some hit \<Rightarrow> Inr hit
           | None \<Rightarrow>
               let hint = (case List.find (\<lambda>a. eq_ignore_ascii_case a (trim raw)) allowed of
                             Some a \<Rightarrow> '' (did you mean '' @ [CHR 0x27] @ a @ [CHR 0x27] @ ''? mode values are exact lowercase)''
                           | None \<Rightarrow> [])
               in Inl (McpError_new InvalidArgument
                    (tool @ '': invalid mode '' @ [CHR 0x27] @ raw @ [CHR 0x27] @ ''; allowed values: '' @ join '', '' allowed @ hint))))"

datatype IngestMode = Replace | Append | Merge "string list"

definition IngestMode_parse ::
  "string option \<Rightarrow> string list option \<Rightarrow> string list \<Rightarrow> string \<Rightarrow> McpError + IngestMode" where
  "IngestMode_parse mode merge_key allowed tool =
     try_bind (parse_mode_name mode (Some ''replace'') allowed tool) (\<lambda>name.
       if name = ''merge'' then
         (case merge_key of
            None \<Rightarrow> Inl (McpError_new InvalidArgument
              (tool @ '': mode=merge requires merge_key (a column name or list of column names)''))
          | Some keys \<Rightarrow>
              if keys = [] \<or> [] \<in> set keys then
                Inl (McpError_new InvalidArgument (tool @ '': merge_key must be a non-empty list of non-empty column names''))
              else Inr (Merge keys))
       else if name = ''append'' \<or> name = ''replace'' then
         (if merge_key \<noteq> None then Inl (McpError_new InvalidArgument (tool @ '': merge_key is only valid with mode=merge''))
          else Inr (if name = ''append'' then Append else Replace))
       else Inl (McpError_new InternalError
         (tool @ '': internal error: unexpected mode '' @ [CHR 0x27] @ name @ [CHR 0x27] @ '' from mode parser'')))"

fun IngestMode_as_str :: "IngestMode \<Rightarrow> string" where
  "IngestMode_as_str Replace = ''replace''"
| "IngestMode_as_str Append = ''append''"
| "IngestMode_as_str (Merge _) = ''merge''"

fun is_merge :: "IngestMode \<Rightarrow> bool" where
  "is_merge (Merge _) = True"
| "is_merge _ = False"

fun merge_keys :: "IngestMode \<Rightarrow> string list option" where
  "merge_keys (Merge keys) = Some keys"
| "merge_keys _ = None"

fun replaces :: "IngestMode \<Rightarrow> McpError + bool" where
  "replaces Replace = Inr True"
| "replaces Append = Inr False"
| "replaces (Merge _) = Inl (McpError_new InvalidArgument ''mode=merge is not supported by this ingest path; use load_file for merge'')"

text \<open>A mode that is accepted is \<open>replace\<close> by omission or was spelled exactly and allowed; keys come with
  \<open>merge\<close> and with nothing else, and none of them is empty.\<close>

lemma mode_accepted:
  assumes "IngestMode_parse mode key allowed tool = Inr m"
  shows "(mode = None \<and> m = Replace \<or> mode = Some (IngestMode_as_str m) \<and> IngestMode_as_str m \<in> set allowed) \<and>
    merge_keys m = key \<and> (\<forall>keys. key = Some keys \<longrightarrow> keys \<noteq> [] \<and> [] \<notin> set keys)"
proof -
  obtain name where name: "parse_mode_name mode (Some ''replace'') allowed tool = Inr name"
    using assms by (auto simp: IngestMode_parse_def try_bind_eq_Inr)
  then have "mode = None \<and> name = ''replace'' \<or> mode = Some name \<and> name \<in> set allowed"
    by (auto simp: parse_mode_name_def Let_def find_Some_iff split: option.splits)
  with name assms show ?thesis
    by (auto simp: IngestMode_parse_def split: if_splits option.splits)
qed

record 'o IngestOptions =
  io_table :: string
  io_mode :: IngestMode
  schema_override :: 'o
  target_db :: "string option"

text \<open>Identifiers in quotes.\<close>

definition quoted :: "string \<Rightarrow> string" where
  "quoted name = [CHR 0x22] @ replace_char (CHR 0x22) [CHR 0x22, CHR 0x22] name @ [CHR 0x22]"

definition quoted_in :: "string option \<Rightarrow> string \<Rightarrow> string" where
  "quoted_in location table =
     (case location of
        Some dbase \<Rightarrow> quoted dbase @ ''.'' @ quoted ''public'' @ ''.'' @ quoted table
      | None \<Rightarrow> quoted table)"

definition qualified_table :: "'o IngestOptions \<Rightarrow> string" where
  "qualified_table opts = quoted_in (target_db opts) (io_table opts)"

text \<open>The statistics of a load: the fields the merge changes, and the others together.\<close>

record 'r IngestStats =
  is_rows :: nat
  is_table :: string
  schema_changed :: bool
  is_rest :: 'r

record 'r IngestResult =
  ir_rows :: nat
  ir_schema :: "ColumnSchema list"
  ir_stats :: "'r IngestStats"

section \<open>Staging tables\<close>

definition MERGE_PREFIX :: string where
  "MERGE_PREFIX = ''__hyperdb_merge_''"

definition COPY_PREFIX :: string where
  "COPY_PREFIX = ''__hyperdb_copy_''"

text \<open>Each character that is not allowed becomes one underscore, so only the first byte of an encoded
  character counts. The process id, the time and the counter are arguments.\<close>

definition scratch_name :: "nat \<Rightarrow> nat \<Rightarrow> nat \<Rightarrow> string \<Rightarrow> string \<Rightarrow> string" where
  "scratch_name pid nanos counter prefix target =
     prefix
       @ map (\<lambda>c. if is_ascii_alphanumeric c \<or> c = CHR ''_'' then c else CHR ''_'')
           (filter (\<lambda>c. \<not> (128 \<le> (of_char c :: nat) \<and> (of_char c :: nat) < 192)) target)
       @ ''_'' @ show_nat pid @ ''_'' @ show_nat nanos @ ''_'' @ show_nat counter"

section \<open>The engine\<close>

text \<open>The methods of \<open>Engine\<close> the merge calls, on a state of engine and server.\<close>

record 's engine_ops =
  run_command :: "string \<Rightarrow> 's \<Rightarrow> (McpError + nat) \<times> 's"
  table_exists_in :: "string option \<Rightarrow> string \<Rightarrow> 's \<Rightarrow> (McpError + bool) \<times> 's"
  column_metadata_in :: "string option \<Rightarrow> string \<Rightarrow> 's \<Rightarrow> (McpError + ColumnSchema list) \<times> 's"
  txn_begin :: "'s \<Rightarrow> (McpError + unit) \<times> 's"
  txn_commit :: "'s \<Rightarrow> (McpError + unit) \<times> 's"
  txn_rollback :: "'s \<Rightarrow> (McpError + unit) \<times> 's"

definition and_then :: "(McpError + 'a) \<times> 's \<Rightarrow> ('a \<Rightarrow> 's \<Rightarrow> (McpError + 'b) \<times> 's) \<Rightarrow> (McpError + 'b) \<times> 's" where
  "and_then r f = (case r of (Inl e, s) \<Rightarrow> (Inl e, s) | (Inr a, s) \<Rightarrow> f a s)"

definition in_transaction ::
  "'s engine_ops \<Rightarrow> ('s \<Rightarrow> (McpError + 'a) \<times> 's) \<Rightarrow> 's \<Rightarrow> (McpError + 'a) \<times> 's" where
  "in_transaction en f s =
     and_then (txn_begin en s) (\<lambda>_ s.
       case f s of
         (Inr val, s) \<Rightarrow> and_then (txn_commit en s) (\<lambda>_ s. (Inr val, s))
       | (Inl e, s) \<Rightarrow> (Inl e, snd (txn_rollback en s)))"

fun column_type_sqls :: "ColumnSchema list \<Rightarrow> McpError + string list" where
  "column_type_sqls [] = Inr []"
| "column_type_sqls (col # cols) =
     try_bind (column_type_sql (hyper_type col) (cs_name col)) (\<lambda>t.
     try_bind (column_type_sqls cols) (\<lambda>ts. Inr (t # ts)))"

definition create_table_statements ::
  "string \<Rightarrow> ColumnSchema list \<Rightarrow> bool \<Rightarrow> string option \<Rightarrow> McpError + string list" where
  "create_table_statements table columns replace dbase =
     (if columns = [] then Inl (McpError_new EmptyData ''No columns to create table from'')
      else
        try_bind (column_type_sqls columns) (\<lambda>type_sqls.
          let q = quoted_in dbase table;
              col_defs = map (\<lambda>(c, ty). quoted (cs_name c) @ '' '' @ ty @ (if cs_nullable c then [] else '' NOT NULL'')) (zip columns type_sqls)
          in Inr ((if replace then [''DROP TABLE IF EXISTS '' @ q] else [])
                  @ [''CREATE TABLE IF NOT EXISTS '' @ q @ '' ('' @ join '', '' col_defs @ '')''])))"

definition alter_table_add_columns_in ::
  "'s engine_ops \<Rightarrow> string option \<Rightarrow> string \<Rightarrow> ColumnSchema list \<Rightarrow> 's \<Rightarrow> (McpError + unit) \<times> 's" where
  "alter_table_add_columns_in en dbase table cols s =
     (if cols = [] then (Inr (), s)
      else
        and_then (column_type_sqls cols, s) (\<lambda>type_sqls s.
          let add_clauses = join '', '' (map (\<lambda>(c, ty). ''ADD COLUMN '' @ quoted (cs_name c) @ '' '' @ ty) (zip cols type_sqls))
          in and_then (run_command en (''ALTER TABLE '' @ quoted_in dbase table @ '' '' @ add_clauses) s) (\<lambda>_ s. (Inr (), s))))"

section \<open>The merge\<close>

definition types_compatible :: "string \<Rightarrow> string \<Rightarrow> bool" where
  "types_compatible a b \<longleftrightarrow>
     a = b \<or> (case (map_hyper_type a, map_hyper_type b) of (Inr sa, Inr sb) \<Rightarrow> sa = sb | _ \<Rightarrow> True)"

definition column_named :: "string \<Rightarrow> ColumnSchema list \<Rightarrow> ColumnSchema option" where
  "column_named n cols = List.find (\<lambda>c. cs_name c = n) cols"

fun check_keys :: "string \<Rightarrow> ColumnSchema list \<Rightarrow> ColumnSchema list \<Rightarrow> string list \<Rightarrow> McpError + unit" where
  "check_keys table target_cols tmp_cols [] = Inr ()"
| "check_keys table target_cols tmp_cols (k # ks) =
     (case (column_named k target_cols, column_named k tmp_cols) of
        (None, _) \<Rightarrow> Inl (McpError_new InvalidArgument
          (''merge_key column '' @ [CHR 0x27] @ k @ [CHR 0x27] @ '' is not in target table '' @ [CHR 0x27] @ table @ [CHR 0x27]))
      | (_, None) \<Rightarrow> Inl (McpError_new InvalidArgument
          (''merge_key column '' @ [CHR 0x27] @ k @ [CHR 0x27] @ '' is not in incoming data (column missing from the file)''))
      | (Some t, Some s) \<Rightarrow>
          if \<not> types_compatible (hyper_type t) (hyper_type s) then
            Inl (McpError_new InvalidArgument
              (''merge_key column '' @ [CHR 0x27] @ k @ [CHR 0x27] @ '' type mismatch: target is '' @ hyper_type t @ '' but incoming is ''
                 @ hyper_type s @ ''. Use mode=replace or apply a schema override.''))
          else check_keys table target_cols tmp_cols ks)"

fun check_shared :: "ColumnSchema list \<Rightarrow> ColumnSchema list \<Rightarrow> McpError + unit" where
  "check_shared target_cols [] = Inr ()"
| "check_shared target_cols (tc # tmp_cols) =
     (case column_named (cs_name tc) target_cols of
        Some target_c \<Rightarrow>
          if \<not> types_compatible (hyper_type target_c) (hyper_type tc) then
            Inl (McpError_new InvalidArgument
              (''Column '' @ [CHR 0x27] @ cs_name tc @ [CHR 0x27] @ '' type mismatch: target is '' @ hyper_type target_c
                 @ '' but incoming is '' @ hyper_type tc @ ''. Use mode=replace or apply a schema override.''))
          else check_shared target_cols tmp_cols
      | None \<Rightarrow> check_shared target_cols tmp_cols)"

definition missing_required :: "ColumnSchema list \<Rightarrow> ColumnSchema list \<Rightarrow> string list" where
  "missing_required target_cols tmp_cols =
     map cs_name (filter (\<lambda>t. \<not> cs_nullable t \<and> \<not> list_ex (\<lambda>c. cs_name c = cs_name t) tmp_cols) target_cols)"

definition new_columns :: "ColumnSchema list \<Rightarrow> ColumnSchema list \<Rightarrow> ColumnSchema list" where
  "new_columns target_cols tmp_cols =
     map (\<lambda>c. c\<lparr>cs_nullable := True\<rparr>) (filter (\<lambda>c. \<not> list_ex (\<lambda>t. cs_name t = cs_name c) target_cols) tmp_cols)"

definition delete_sql :: "string \<Rightarrow> string \<Rightarrow> string list \<Rightarrow> string" where
  "delete_sql quoted_tgt quoted_tmp keys =
     ''DELETE FROM '' @ quoted_tgt @ '' t USING '' @ quoted_tmp @ '' s WHERE ''
       @ join '' AND '' (map (\<lambda>k. ''t.'' @ quoted k @ '' = s.'' @ quoted k) keys)"

definition insert_sql :: "string \<Rightarrow> string \<Rightarrow> string list \<Rightarrow> string" where
  "insert_sql quoted_tgt quoted_tmp cols =
     (let cols_csv = join '', '' (map quoted cols)
      in ''INSERT INTO '' @ quoted_tgt @ '' ('' @ cols_csv @ '') SELECT '' @ cols_csv @ '' FROM '' @ quoted_tmp)"

definition drop_column_sql :: "string \<Rightarrow> string \<Rightarrow> string" where
  "drop_column_sql quoted_tgt col = ''ALTER TABLE '' @ quoted_tgt @ '' DROP COLUMN '' @ quoted col"

fun drop_columns :: "'s engine_ops \<Rightarrow> string \<Rightarrow> ColumnSchema list \<Rightarrow> 's \<Rightarrow> 's" where
  "drop_columns en quoted_tgt [] s = s"
| "drop_columns en quoted_tgt (col # cols) s =
     drop_columns en quoted_tgt cols (snd (run_command en (drop_column_sql quoted_tgt (cs_name col)) s))"

text \<open>Step 6 with its undoing, and the result.\<close>

definition merge_rows ::
  "'s engine_ops \<Rightarrow> 'o IngestOptions \<Rightarrow> string list \<Rightarrow> string \<Rightarrow> ColumnSchema list \<Rightarrow> ColumnSchema list
     \<Rightarrow> 'r IngestResult \<Rightarrow> 's \<Rightarrow> (McpError + 'r IngestResult \<times> bool) \<times> 's" where
  "merge_rows en opts keys quoted_tmp tmp_cols new_cols tmp_result s =
     (let quoted_tgt = qualified_table opts
      in case in_transaction en (\<lambda>s.
                and_then (run_command en (delete_sql quoted_tgt quoted_tmp keys) s) (\<lambda>_ s.
                  run_command en (insert_sql quoted_tgt quoted_tmp (map cs_name tmp_cols)) s)) s of
           (Inl e, s) \<Rightarrow> (Inl e, drop_columns en quoted_tgt new_cols s)
         | (Inr inserted, s) \<Rightarrow>
             and_then (column_metadata_in en (target_db opts) (io_table opts) s) (\<lambda>final_schema s.
               (Inr (\<lparr>ir_rows = inserted, ir_schema = final_schema,
                      ir_stats = (ir_stats tmp_result)\<lparr>is_rows := inserted, is_table := io_table opts, schema_changed := new_cols \<noteq> []\<rparr>\<rparr>,
                     False), s)))"

text \<open>Steps 4 to 6, for a target that exists.\<close>

definition merge_existing ::
  "'s engine_ops \<Rightarrow> 'o IngestOptions \<Rightarrow> string list \<Rightarrow> string \<Rightarrow> 'r IngestResult \<Rightarrow> 's
     \<Rightarrow> (McpError + 'r IngestResult \<times> bool) \<times> 's" where
  "merge_existing en opts keys tmp tmp_result s =
     and_then (column_metadata_in en (target_db opts) (io_table opts) s) (\<lambda>target_cols s.
     and_then (column_metadata_in en (target_db opts) tmp s) (\<lambda>tmp_cols s.
     and_then (check_keys (io_table opts) target_cols tmp_cols keys, s) (\<lambda>_ s.
     and_then (check_shared target_cols tmp_cols, s) (\<lambda>_ s.
       if missing_required target_cols tmp_cols \<noteq> [] then
         (Inl (McpError_new InvalidArgument
            (''merge: NOT NULL column(s) of '' @ [CHR 0x27] @ io_table opts @ [CHR 0x27] @ '' missing from the incoming data: ''
               @ join '', '' (missing_required target_cols tmp_cols) @ ''. Include them, or use mode=replace.'')), s)
       else
         and_then (alter_table_add_columns_in en (target_db opts) (io_table opts) (new_columns target_cols tmp_cols) s) (\<lambda>_ s.
           merge_rows en opts keys (quoted_in (target_db opts) tmp) tmp_cols (new_columns target_cols tmp_cols) tmp_result s)))))"

definition merge_from_staging ::
  "'s engine_ops \<Rightarrow> 'o IngestOptions \<Rightarrow> string list \<Rightarrow> string \<Rightarrow> 'r IngestResult \<Rightarrow> 's
     \<Rightarrow> (McpError + 'r IngestResult \<times> bool) \<times> 's" where
  "merge_from_staging en opts keys tmp tmp_result s =
     and_then (table_exists_in en (target_db opts) tmp s) (\<lambda>staged s.
       if \<not> staged then
         (Inl (McpError_new InternalError
            (''merge: temp table '' @ [CHR 0x27] @ tmp @ [CHR 0x27] @ '' was not produced by the format-specific replace load ''
               @ [CHR 0xE2, CHR 0x80, CHR 0x94] @ '' this is a contract violation in the per-format ingest path'')), s)
       else
         let quoted_tmp = quoted_in (target_db opts) tmp
         in and_then (table_exists_in en (target_db opts) (io_table opts) s) (\<lambda>present s.
              if \<not> present then
                and_then (run_command en (''ALTER TABLE '' @ quoted_tmp @ '' RENAME TO '' @ quoted (io_table opts)) s) (\<lambda>_ s.
                  (Inr (tmp_result\<lparr>ir_stats := (ir_stats tmp_result)\<lparr>is_table := io_table opts, schema_changed := True\<rparr>\<rparr>, True), s))
              else
                merge_existing en opts keys tmp tmp_result s))"

text \<open>The guard of the staging table: at the end of the scope the table is dropped, unless the guard was
  disarmed; an error of that is only logged.\<close>

definition drop_staging :: "'s engine_ops \<Rightarrow> string \<Rightarrow> 's \<Rightarrow> 's" where
  "drop_staging en q s = snd (run_command en (''DROP TABLE IF EXISTS '' @ q) s)"

definition merge_via_temp_table ::
  "'s engine_ops \<Rightarrow> 'o IngestOptions \<Rightarrow> string \<Rightarrow> ('o IngestOptions \<Rightarrow> 's \<Rightarrow> (McpError + 'r IngestResult) \<times> 's) \<Rightarrow> 's
     \<Rightarrow> (McpError + 'r IngestResult) \<times> 's" where
  "merge_via_temp_table en opts tmp replace_load s =
     (case io_mode opts of
        Merge keys \<Rightarrow>
          if keys = [] \<or> [] \<in> set keys then
            (Inl (McpError_new InvalidArgument ''merge_key must be a non-empty list of non-empty column names''), s)
          else
            let tmp_opts = opts\<lparr>io_table := tmp, io_mode := Replace\<rparr>;
                guarded = drop_staging en (qualified_table tmp_opts)
            in case replace_load tmp_opts s of
                 (Inl e, s) \<Rightarrow> (Inl e, guarded s)
               | (Inr tmp_result, s) \<Rightarrow>
                   (case merge_from_staging en opts keys tmp tmp_result s of
                      (Inl e, s) \<Rightarrow> (Inl e, guarded s)
                    | (Inr (result, renamed), s) \<Rightarrow> (Inr result, if renamed then s else guarded s))
      | _ \<Rightarrow> (Inl (McpError_new InternalError ''merge_via_temp_table called with a non-merge mode''), s))"


section \<open>Tables\<close>

text \<open>A row gives each column a value or NULL, and NULL to every name that is no column. The database maps
  the quoted names of tables to their columns, as the catalog reports them, and their rows.\<close>

type_synonym row = "string \<Rightarrow> string option"

record table =
  t_cols :: "ColumnSchema list"
  t_rows :: "row multiset"

type_synonym database = "string \<rightharpoonup> table"

definition names :: "ColumnSchema list \<Rightarrow> string set" where
  "names cols = cs_name ` set cols"

definition table_wf :: "table \<Rightarrow> bool" where
  "table_wf T \<longleftrightarrow> (\<forall>r \<in># t_rows T. \<forall>c. c \<notin> names (t_cols T) \<longrightarrow> r c = None)"

text \<open>A row of the target matches an incoming row when they agree on all keys, NULL agreeing with nothing.\<close>

definition matches :: "string list \<Rightarrow> table \<Rightarrow> row \<Rightarrow> bool" where
  "matches keys S r \<longleftrightarrow> (\<exists>s \<in># t_rows S. \<forall>k \<in> set keys. r k \<noteq> None \<and> r k = s k)"

definition project :: "string list \<Rightarrow> row \<Rightarrow> row" where
  "project cols r c = (if c \<in> set cols then r c else None)"

text \<open>The statements of a merge into the table \<open>tgt\<close> from the table \<open>tmp\<close>, both in \<open>dbase\<close>.\<close>

datatype merge_statement =
    AddColumns "(ColumnSchema \<times> string) list"
  | DeleteMatching "string list"
  | InsertAll "string list"
  | DropColumn string
  | RenameStaging
  | DropStaging

fun merge_text :: "string option \<Rightarrow> string \<Rightarrow> string \<Rightarrow> merge_statement \<Rightarrow> string" where
  "merge_text dbase tgt tmp (AddColumns cols) =
     ''ALTER TABLE '' @ quoted_in dbase tgt @ '' '' @
       join '', '' (map (\<lambda>(c, ty). ''ADD COLUMN '' @ quoted (cs_name c) @ '' '' @ ty) cols)"
| "merge_text dbase tgt tmp (DeleteMatching keys) =
     ''DELETE FROM '' @ quoted_in dbase tgt @ '' t USING '' @ quoted_in dbase tmp @ '' s WHERE '' @
       join '' AND '' (map (\<lambda>k. ''t.'' @ quoted k @ '' = s.'' @ quoted k) keys)"
| "merge_text dbase tgt tmp (InsertAll cols) =
     ''INSERT INTO '' @ quoted_in dbase tgt @ '' ('' @ join '', '' (map quoted cols) @ '') SELECT '' @
       join '', '' (map quoted cols) @ '' FROM '' @ quoted_in dbase tmp"
| "merge_text dbase tgt tmp (DropColumn c) =
     ''ALTER TABLE '' @ quoted_in dbase tgt @ '' DROP COLUMN '' @ quoted c"
| "merge_text dbase tgt tmp RenameStaging = ''ALTER TABLE '' @ quoted_in dbase tmp @ '' RENAME TO '' @ quoted tgt"
| "merge_text dbase tgt tmp DropStaging = ''DROP TABLE IF EXISTS '' @ quoted_in dbase tmp"

text \<open>What a statement that succeeds does to the database, with the number of rows it answers.\<close>

fun merge_meaning :: "string \<Rightarrow> string \<Rightarrow> merge_statement \<Rightarrow> database \<Rightarrow> nat \<Rightarrow> database \<Rightarrow> bool" where
  "merge_meaning qt qs (AddColumns cols) D n D' \<longleftrightarrow>
     (\<exists>T new. D qt = Some T \<and> map cs_name new = map (cs_name \<circ> fst) cols \<and> list_all cs_nullable new \<and>
        D' = D(qt \<mapsto> T\<lparr>t_cols := t_cols T @ new\<rparr>))"
| "merge_meaning qt qs (DeleteMatching keys) D n D' \<longleftrightarrow>
     (\<exists>T S. D qt = Some T \<and> D qs = Some S \<and>
        D' = D(qt \<mapsto> T\<lparr>t_rows := filter_mset (\<lambda>r. \<not> matches keys S r) (t_rows T)\<rparr>))"
| "merge_meaning qt qs (InsertAll cols) D n D' \<longleftrightarrow>
     (\<exists>T S. D qt = Some T \<and> D qs = Some S \<and> n = size (t_rows S) \<and>
        D' = D(qt \<mapsto> T\<lparr>t_rows := t_rows T + image_mset (project cols) (t_rows S)\<rparr>))"
| "merge_meaning qt qs (DropColumn c) D n D' \<longleftrightarrow>
     (\<exists>T. D qt = Some T \<and>
        D' = D(qt \<mapsto> T\<lparr>t_cols := filter (\<lambda>x. cs_name x \<noteq> c) (t_cols T), t_rows := image_mset (\<lambda>r. r(c := None)) (t_rows T)\<rparr>))"
| "merge_meaning qt qs RenameStaging D n D' \<longleftrightarrow>
     (\<exists>S. D qs = Some S \<and> D qt = None \<and> D' = D(qs := None, qt \<mapsto> S))"
| "merge_meaning qt qs DropStaging D n D' \<longleftrightarrow> D' = D(qs := None)"

text \<open>What is relied on, for a server that holds \<open>tables s\<close> and whose open transaction, if any, began
  with \<open>saved s\<close>: a statement that succeeds has its meaning; one that fails outside a transaction changes
  nothing; questions to the catalog change nothing and are answered truthfully; a failed
  commit leaves the transaction open or undoes it, and a failed rollback leaves it open.\<close>

definition command_laws ::
  "'s engine_ops \<Rightarrow> ('s \<Rightarrow> database) \<Rightarrow> ('s \<Rightarrow> database option) \<Rightarrow> string option \<Rightarrow> string \<Rightarrow> string \<Rightarrow> bool" where
  "command_laws en tables saved dbase tgt tmp \<longleftrightarrow>
     (\<forall>x s r s'. run_command en (merge_text dbase tgt tmp x) s = (r, s') \<longrightarrow>
        saved s' = saved s \<and>
        (case r of
           Inr n \<Rightarrow> merge_meaning (quoted_in dbase tgt) (quoted_in dbase tmp) x (tables s) n (tables s')
         | Inl _ \<Rightarrow> saved s = None \<longrightarrow> tables s' = tables s))"

definition catalog_laws ::
  "'s engine_ops \<Rightarrow> ('s \<Rightarrow> database) \<Rightarrow> ('s \<Rightarrow> database option) \<Rightarrow> string option \<Rightarrow> string \<Rightarrow> bool" where
  "catalog_laws en tables saved dbase t \<longleftrightarrow>
     (\<forall>s r s'. table_exists_in en dbase t s = (r, s') \<longrightarrow>
        saved s' = saved s \<and> tables s' = tables s \<and>
        (case r of Inr b \<Rightarrow> b \<longleftrightarrow> tables s (quoted_in dbase t) \<noteq> None | Inl _ \<Rightarrow> True)) \<and>
     (\<forall>s r s'. column_metadata_in en dbase t s = (r, s') \<longrightarrow>
        saved s' = saved s \<and> tables s' = tables s \<and>
        (case r of Inr cols \<Rightarrow> (\<exists>T. tables s (quoted_in dbase t) = Some T \<and> t_cols T = cols) | Inl _ \<Rightarrow> True))"

definition transaction_laws :: "'s engine_ops \<Rightarrow> ('s \<Rightarrow> database) \<Rightarrow> ('s \<Rightarrow> database option) \<Rightarrow> bool" where
  "transaction_laws en tables saved \<longleftrightarrow>
     (\<forall>s r s'. txn_begin en s = (r, s') \<longrightarrow>
        tables s' = tables s \<and> (case r of Inr _ \<Rightarrow> saved s' = Some (tables s) | Inl _ \<Rightarrow> saved s' = saved s)) \<and>
     (\<forall>s D r s'. saved s = Some D \<longrightarrow> txn_commit en s = (r, s') \<longrightarrow>
        (case r of Inr _ \<Rightarrow> tables s' = tables s \<and> saved s' = None
         | Inl _ \<Rightarrow> saved s' = Some D \<or> saved s' = None \<and> tables s' = D)) \<and>
     (\<forall>s D r s'. saved s = Some D \<longrightarrow> txn_rollback en s = (r, s') \<longrightarrow>
        (case r of Inr _ \<Rightarrow> saved s' = None \<and> tables s' = D | Inl _ \<Rightarrow> saved s' = Some D))"

definition merge_laws ::
  "'s engine_ops \<Rightarrow> ('s \<Rightarrow> database) \<Rightarrow> ('s \<Rightarrow> database option) \<Rightarrow> string option \<Rightarrow> string \<Rightarrow> string \<Rightarrow> bool" where
  "merge_laws en tables saved dbase tgt tmp \<longleftrightarrow>
     command_laws en tables saved dbase tgt tmp \<and> catalog_laws en tables saved dbase tgt \<and>
     catalog_laws en tables saved dbase tmp \<and> transaction_laws en tables saved"

declare merge_text.simps [simp del]

lemma merge_command_law:
  assumes "merge_laws en tables saved dbase tgt tmp" "run_command en (merge_text dbase tgt tmp x) s = (r, s')"
  shows "saved s' = saved s"
    and "r = Inr n \<Longrightarrow> merge_meaning (quoted_in dbase tgt) (quoted_in dbase tmp) x (tables s) n (tables s')"
    and "r = Inl e \<Longrightarrow> saved s = None \<Longrightarrow> tables s' = tables s"
proof -
  have "command_laws en tables saved dbase tgt tmp" using assms(1) by (simp add: merge_laws_def)
  from this [unfolded command_laws_def, rule_format, OF assms(2)]
  show "saved s' = saved s"
    and "r = Inr n \<Longrightarrow> merge_meaning (quoted_in dbase tgt) (quoted_in dbase tmp) x (tables s) n (tables s')"
    and "r = Inl e \<Longrightarrow> saved s = None \<Longrightarrow> tables s' = tables s"
    by simp_all
qed

lemma catalog_law:
  assumes "merge_laws en tables saved dbase tgt tmp" "t \<in> {tgt, tmp}"
  shows "table_exists_in en dbase t s = (r, s') \<Longrightarrow> saved s' = saved s \<and> tables s' = tables s \<and>
      (case r of Inr b \<Rightarrow> b \<longleftrightarrow> tables s (quoted_in dbase t) \<noteq> None | Inl _ \<Rightarrow> True)"
    and "column_metadata_in en dbase t s = (c, s') \<Longrightarrow> saved s' = saved s \<and> tables s' = tables s \<and>
      (case c of Inr cols \<Rightarrow> (\<exists>T. tables s (quoted_in dbase t) = Some T \<and> t_cols T = cols) | Inl _ \<Rightarrow> True)"
proof -
  have "catalog_laws en tables saved dbase t" using assms by (auto simp: merge_laws_def)
  note laws = this [unfolded catalog_laws_def]
  show "table_exists_in en dbase t s = (r, s') \<Longrightarrow> saved s' = saved s \<and> tables s' = tables s \<and>
      (case r of Inr b \<Rightarrow> b \<longleftrightarrow> tables s (quoted_in dbase t) \<noteq> None | Inl _ \<Rightarrow> True)"
    using laws [THEN conjunct1] by blast
  show "column_metadata_in en dbase t s = (c, s') \<Longrightarrow> saved s' = saved s \<and> tables s' = tables s \<and>
      (case c of Inr cols \<Rightarrow> (\<exists>T. tables s (quoted_in dbase t) = Some T \<and> t_cols T = cols) | Inl _ \<Rightarrow> True)"
    using laws [THEN conjunct2] by blast
qed

lemma transaction_law:
  assumes "merge_laws en tables saved dbase tgt tmp"
  shows "txn_begin en s = (r, s') \<Longrightarrow>
      tables s' = tables s \<and> (case r of Inr _ \<Rightarrow> saved s' = Some (tables s) | Inl _ \<Rightarrow> saved s' = saved s)"
    and "saved s = Some D \<Longrightarrow> txn_commit en s = (r, s') \<Longrightarrow>
      (case r of Inr _ \<Rightarrow> tables s' = tables s \<and> saved s' = None | Inl _ \<Rightarrow> saved s' = Some D \<or> saved s' = None \<and> tables s' = D)"
    and "saved s = Some D \<Longrightarrow> txn_rollback en s = (r, s') \<Longrightarrow> saved s' = None \<and> tables s' = D \<or> saved s' = Some D"
proof -
  have "transaction_laws en tables saved" using assms by (simp add: merge_laws_def)
  note laws = this [unfolded transaction_laws_def]
  show "txn_begin en s = (r, s') \<Longrightarrow>
      tables s' = tables s \<and> (case r of Inr _ \<Rightarrow> saved s' = Some (tables s) | Inl _ \<Rightarrow> saved s' = saved s)"
    using laws [THEN conjunct1] by blast
  show "saved s = Some D \<Longrightarrow> txn_commit en s = (r, s') \<Longrightarrow>
      (case r of Inr _ \<Rightarrow> tables s' = tables s \<and> saved s' = None | Inl _ \<Rightarrow> saved s' = Some D \<or> saved s' = None \<and> tables s' = D)"
    using laws [THEN conjunct2, THEN conjunct1] by blast
  assume "saved s = Some D" "txn_rollback en s = (r, s')"
  with laws [THEN conjunct2, THEN conjunct2] have "case r of Inr _ \<Rightarrow> saved s' = None \<and> tables s' = D | Inl _ \<Rightarrow> saved s' = Some D"
    by blast
  then show "saved s' = None \<and> tables s' = D \<or> saved s' = Some D"
    by (cases r) auto
qed

section \<open>Names\<close>

text \<open>A quoted name ends where its quote is not doubled, so names and lists of them can be told from the text.\<close>

abbreviation not_quote :: "string \<Rightarrow> bool" where
  "not_quote r \<equiv> r = [] \<or> hd r \<noteq> CHR 0x22"

lemma replace_char_Cons [simp]:
  "replace_char c n [] = []" "replace_char c n (d # s) = (if d = c then n else [d]) @ replace_char c n s"
  by (simp_all add: replace_char_def)

lemma quoted_body_inj:
  assumes "replace_char (CHR 0x22) [CHR 0x22, CHR 0x22] a @ CHR 0x22 # r = replace_char (CHR 0x22) [CHR 0x22, CHR 0x22] b @ CHR 0x22 # r'"
    and "not_quote r" "not_quote r'"
  shows "a = b \<and> r = r'"
  using assms(1)
proof (induction a arbitrary: b)
  case Nil
  then show ?case using assms(2,3) by (cases b) (auto split: if_splits)
next
  case (Cons x a)
  show ?case
  proof (cases b)
    case Nil
    then show ?thesis using Cons.prems assms(2,3) by (auto split: if_splits)
  next
    case (Cons y b')
    then show ?thesis using Cons.prems Cons.IH [of b'] by (auto split: if_splits)
  qed
qed

lemma quoted_inj: "quoted a @ r = quoted b @ r' \<Longrightarrow> not_quote r \<Longrightarrow> not_quote r' \<Longrightarrow> a = b \<and> r = r'"
  using quoted_body_inj [of a r b r'] by (simp add: quoted_def)

lemma quoted_in_inj: "quoted_in dbase a = quoted_in dbase b \<Longrightarrow> a = b"
  using quoted_inj [of a "[]" b "[]"] by (auto simp: quoted_in_def split: option.splits)

section \<open>The steps of a merge\<close>

definition rows_after :: "string list \<Rightarrow> table \<Rightarrow> table \<Rightarrow> row multiset" where
  "rows_after keys T S = filter_mset (\<lambda>r. \<not> matches keys S r) (t_rows T) + t_rows S"

text \<open>The target after a merge: the new columns behind its own, nullable, and the incoming rows in place of those
  they match.\<close>

definition merged_table :: "string list \<Rightarrow> table \<Rightarrow> table \<Rightarrow> table \<Rightarrow> bool" where
  "merged_table keys T S T' \<longleftrightarrow>
     (\<exists>new. t_cols T' = t_cols T @ new \<and> map cs_name new = map cs_name (new_columns (t_cols T) (t_cols S)) \<and>
        list_all cs_nullable new) \<and> t_rows T' = rows_after keys T S"

lemma and_then_Inr: "and_then r f = (Inr b, s') \<longleftrightarrow> (\<exists>a s. r = (Inr a, s) \<and> f a s = (Inr b, s'))"
  by (auto simp: and_then_def split: prod.splits sum.splits)

lemma and_then_Inl: "and_then r f = (Inl e, s') \<longleftrightarrow> r = (Inl e, s') \<or> (\<exists>a s. r = (Inr a, s) \<and> f a s = (Inl e, s'))"
  by (auto simp: and_then_def split: prod.splits sum.splits)

lemma project_wf: "table_wf S \<Longrightarrow> image_mset (project (map cs_name (t_cols S))) (t_rows S) = t_rows S"
proof -
  assume wf: "table_wf S"
  have "project (map cs_name (t_cols S)) r = r" if "r \<in># t_rows S" for r
    using wf that by (auto simp: table_wf_def project_def names_def fun_eq_iff)
  then have "image_mset (project (map cs_name (t_cols S))) (t_rows S) = image_mset id (t_rows S)"
    by (intro image_mset_cong) simp
  then show ?thesis by simp
qed

lemma delete_insert:
  fixes D :: database
  assumes "D qt = Some T" "D qs = Some S" "qt \<noteq> qs" "table_wf S"
    and "merge_meaning qt qs (DeleteMatching keys) D m D1"
    and "merge_meaning qt qs (InsertAll (map cs_name (t_cols S))) D1 n D2"
  shows "D2 = D(qt \<mapsto> T\<lparr>t_rows := rows_after keys T S\<rparr>) \<and> n = size (t_rows S)"
  using assms by (auto simp: rows_after_def project_wf)

text \<open>The transaction that deletes and inserts.\<close>

lemma transaction_outcome:
  assumes laws: "merge_laws en tables saved dbase tgt tmp" and neq: "tgt \<noteq> tmp" and closed: "saved s = None"
    and T: "tables s (quoted_in dbase tgt) = Some T" and S: "tables s (quoted_in dbase tmp) = Some S" "table_wf S"
    and run: "in_transaction en (\<lambda>s.
        and_then (run_command en (merge_text dbase tgt tmp (DeleteMatching keys)) s) (\<lambda>_ s.
          run_command en (merge_text dbase tgt tmp (InsertAll (map cs_name (t_cols S)))) s)) s = (r, s')"
  shows "case r of
      Inr n \<Rightarrow> saved s' = None \<and> n = size (t_rows S) \<and>
        tables s' = (tables s)(quoted_in dbase tgt \<mapsto> T\<lparr>t_rows := rows_after keys T S\<rparr>)
    | Inl _ \<Rightarrow> saved s' = None \<longrightarrow> tables s' = tables s"
proof -
  let ?body = "\<lambda>s. and_then (run_command en (merge_text dbase tgt tmp (DeleteMatching keys)) s) (\<lambda>_ s.
          run_command en (merge_text dbase tgt tmp (InsertAll (map cs_name (t_cols S)))) s)"
  obtain b s1 where b: "txn_begin en s = (b, s1)" by fastforce
  note beg = transaction_law(1) [OF laws b]
  show ?thesis
  proof (cases b)
    case (Inl e)
    then show ?thesis using run b beg closed by (auto simp: in_transaction_def and_then_def)
  next
    case (Inr u)
    then have s1: "tables s1 = tables s" "saved s1 = Some (tables s)" using beg by auto
    obtain q s2 where q: "?body s1 = (q, s2)" by fastforce
    have keep: "saved s2 = Some (tables s)"
      using q s1(2) merge_command_law(1) [OF laws]
      by (cases "run_command en (merge_text dbase tgt tmp (DeleteMatching keys)) s1"; cases "fst (run_command en (merge_text dbase tgt tmp (DeleteMatching keys)) s1)")
        (auto simp: and_then_def)
    show ?thesis
    proof (cases q)
      case (Inl e)
      obtain x s3 where x: "txn_rollback en s2 = (x, s3)" by fastforce
      then have "r = Inl e" "s' = s3"
        using run b Inr q Inl by (auto simp: in_transaction_def and_then_def)
      with transaction_law(3) [OF laws keep x] show ?thesis by auto
    next
      case q_ok: (Inr n)
      obtain x s3 where x: "txn_commit en s2 = (x, s3)" by fastforce
      obtain m sd where d: "run_command en (merge_text dbase tgt tmp (DeleteMatching keys)) s1 = (Inr m, sd)"
        and i: "run_command en (merge_text dbase tgt tmp (InsertAll (map cs_name (t_cols S)))) sd = (Inr n, s2)"
        using q q_ok by (auto simp: and_then_Inr)
      have "quoted_in dbase tgt \<noteq> quoted_in dbase tmp" using neq quoted_in_inj by blast
      from delete_insert [OF T S(1) this S(2)] have "tables s2 = (tables s)(quoted_in dbase tgt \<mapsto> T\<lparr>t_rows := rows_after keys T S\<rparr>)"
        "n = size (t_rows S)"
        using merge_command_law(2) [OF laws d refl] merge_command_law(2) [OF laws i refl] unfolding s1(1) by blast+
      then show ?thesis
        using run b Inr q q_ok x transaction_law(2) [OF laws keep x]
        by (cases x) (auto simp: in_transaction_def and_then_def)
    qed
  qed
qed


text \<open>Dropping the new columns again: the rows stay, since they are NULL there, and what is left of the new columns
  are those whose drop failed.\<close>

definition drops_succeed :: "'s engine_ops \<Rightarrow> string option \<Rightarrow> string \<Rightarrow> string \<Rightarrow> bool" where
  "drops_succeed en dbase tgt tmp \<longleftrightarrow> (\<forall>c s. \<not> isl (fst (run_command en (merge_text dbase tgt tmp (DropColumn c)) s)))"

lemma null_columns: "table_wf T \<Longrightarrow> c \<notin> names (t_cols T) \<Longrightarrow> image_mset (\<lambda>r. r(c := None)) (t_rows T) = t_rows T"
proof -
  assume "table_wf T" "c \<notin> names (t_cols T)"
  then have "r(c := None) = r" if "r \<in># t_rows T" for r
    using that by (auto simp: table_wf_def fun_eq_iff)
  then have "image_mset (\<lambda>r. r(c := None)) (t_rows T) = image_mset id (t_rows T)"
    by (intro image_mset_cong) simp
  then show ?thesis by simp
qed

lemma drop_columns_saved:
  assumes "merge_laws en tables saved dbase tgt tmp"
  shows "saved (drop_columns en (quoted_in dbase tgt) cols s) = saved s"
proof (induction cols arbitrary: s)
  case (Cons col cols)
  have "drop_column_sql (quoted_in dbase tgt) c = merge_text dbase tgt tmp (DropColumn c)" for c
    by (simp add: drop_column_sql_def merge_text.simps)
  then show ?case
    using Cons merge_command_law(1) [OF assms] by (metis drop_columns.simps(2) prod.collapse)
qed simp

lemma drop_columns_outcome:
  assumes laws: "merge_laws en tables saved dbase tgt tmp" and wf: "table_wf T"
    and "saved s = None" "tables s = D(quoted_in dbase tgt \<mapsto> T\<lparr>t_cols := t_cols T @ new\<rparr>)"
    and "names cols \<inter> names (t_cols T) = {}"
  shows "\<exists>left. tables (drop_columns en (quoted_in dbase tgt) cols s) = D(quoted_in dbase tgt \<mapsto> T\<lparr>t_cols := t_cols T @ left\<rparr>) \<and>
    set left \<subseteq> set new \<and> (drops_succeed en dbase tgt tmp \<longrightarrow> names left \<inter> names cols = {})"
  using assms(3-)
proof (induction cols arbitrary: s new)
  case (Cons col cols)
  let ?x = "DropColumn (cs_name col)" and ?qt = "quoted_in dbase tgt"
  have sql: "drop_column_sql ?qt (cs_name col) = merge_text dbase tgt tmp ?x"
    by (simp add: drop_column_sql_def merge_text.simps)
  obtain r s1 where run: "run_command en (merge_text dbase tgt tmp ?x) s = (r, s1)" by fastforce
  have c: "cs_name col \<notin> names (t_cols T)" using Cons.prems(3) by (auto simp: names_def)
  then have old: "filter (\<lambda>x. cs_name x \<noteq> cs_name col) (t_cols T) = t_cols T"
    by (intro filter_True) (metis image_eqI names_def)
  let ?new' = "filter (\<lambda>x. cs_name x \<noteq> cs_name col) new"
  have disj: "names cols \<inter> names (t_cols T) = {}" using Cons.prems(3) by (auto simp: names_def)
  have s1: "saved s1 = None" using merge_command_law(1) [OF laws run] Cons.prems(1) by simp
  show ?case
  proof (cases r)
    case (Inl e)
    then have "tables s1 = D(?qt \<mapsto> T\<lparr>t_cols := t_cols T @ new\<rparr>)"
      using trans [OF merge_command_law(3) [OF laws run _ Cons.prems(1)] Cons.prems(2)] by blast
    moreover have "\<not> drops_succeed en dbase tgt tmp"
      unfolding drops_succeed_def using run Inl by (metis fst_conv sum.disc(1))
    moreover from Cons.IH [OF s1 calculation(1) disj] obtain left where
      "tables (drop_columns en ?qt cols s1) = D(?qt \<mapsto> T\<lparr>t_cols := t_cols T @ left\<rparr>)" "set left \<subseteq> set new"
      by blast
    ultimately show ?thesis
      by (intro exI [of _ left]) (simp add: sql run)
  next
    case (Inr n)
    have "tables s1 = D(?qt \<mapsto> T\<lparr>t_cols := t_cols T @ ?new'\<rparr>)"
      using merge_command_law(2) [OF laws run Inr] Cons.prems(2) null_columns [OF wf c] old by auto
    from Cons.IH [OF s1 this disj] obtain left where
      "tables (drop_columns en ?qt cols s1) = D(?qt \<mapsto> T\<lparr>t_cols := t_cols T @ left\<rparr>)" "set left \<subseteq> set ?new'"
      "drops_succeed en dbase tgt tmp \<longrightarrow> names left \<inter> names cols = {}"
      by blast
    then show ?thesis
      by (intro exI [of _ left]) (auto simp: sql run names_def)
  qed
qed (auto simp: names_def)


text \<open>What may have become of the target \<open>T\<close> when the merge of \<open>S\<close> answers an error: nothing; some of the new columns are
  left, when dropping them failed; or everything was done and only the columns could not be read again.\<close>

definition failed_target :: "bool \<Rightarrow> string list \<Rightarrow> table \<Rightarrow> table \<Rightarrow> table \<Rightarrow> bool" where
  "failed_target drops keys T S T' \<longleftrightarrow>
     (\<exists>left. T' = T\<lparr>t_cols := t_cols T @ left\<rparr> \<and> names left \<subseteq> names (t_cols S) - names (t_cols T) \<and> (drops \<longrightarrow> left = []))
     \<or> merged_table keys T S T'"

lemma new_columns_names: "names (new_columns cols cols') = names cols' - names cols"
  by (auto simp: names_def new_columns_def list_ex_iff image_iff) metis

lemma failed_target_left:
  assumes "set left \<subseteq> set new" "map cs_name new = map cs_name (new_columns (t_cols T) (t_cols S))"
    and "drops \<longrightarrow> names left \<inter> names (new_columns (t_cols T) (t_cols S)) = {}"
  shows "failed_target drops keys T S (T\<lparr>t_cols := t_cols T @ left\<rparr>)"
proof -
  have "names new = names (new_columns (t_cols T) (t_cols S))"
    using assms(2) by (metis image_set names_def)
  moreover have "names left \<subseteq> names new" using assms(1) by (auto simp: names_def)
  ultimately have sub: "names left \<subseteq> names (t_cols S) - names (t_cols T)" "drops \<Longrightarrow> names left = {}"
    using assms(3) by (auto simp: new_columns_names)
  then have "drops \<longrightarrow> left = []" by (simp add: names_def)
  with sub(1) show ?thesis by (auto simp: failed_target_def)
qed

lemma merge_sqls:
  "delete_sql (quoted_in dbase tgt) (quoted_in dbase tmp) keys = merge_text dbase tgt tmp (DeleteMatching keys)"
  "insert_sql (quoted_in dbase tgt) (quoted_in dbase tmp) cols = merge_text dbase tgt tmp (InsertAll cols)"
  by (simp_all add: delete_sql_def insert_sql_def merge_text.simps Let_def)

abbreviation replace_rows ::
  "'s engine_ops \<Rightarrow> string option \<Rightarrow> string \<Rightarrow> string \<Rightarrow> string list \<Rightarrow> string list \<Rightarrow> 's \<Rightarrow> (McpError + nat) \<times> 's" where
  "replace_rows en dbase tgt tmp keys cols s \<equiv>
     and_then (run_command en (merge_text dbase tgt tmp (DeleteMatching keys)) s) (\<lambda>_ s.
       run_command en (merge_text dbase tgt tmp (InsertAll cols)) s)"

lemma merge_rows_unfold:
  assumes "target_db opts = dbase" "io_table opts = tgt"
    and "in_transaction en (replace_rows en dbase tgt tmp keys (map cs_name tmp_cols)) s = (q, s1)"
  shows "merge_rows en opts keys (quoted_in dbase tmp) tmp_cols new_cols res0 s =
      (case q of
         Inl e \<Rightarrow> (Inl e, drop_columns en (quoted_in dbase tgt) new_cols s1)
       | Inr inserted \<Rightarrow>
           and_then (column_metadata_in en dbase tgt s1) (\<lambda>final_schema s.
             (Inr (\<lparr>ir_rows = inserted, ir_schema = final_schema,
                    ir_stats = (ir_stats res0)\<lparr>is_rows := inserted, is_table := tgt, schema_changed := new_cols \<noteq> []\<rparr>\<rparr>, False), s)))"
  using assms by (simp add: merge_rows_def qualified_table_def merge_sqls split: sum.split)

lemma merge_rows_outcome:
  assumes laws: "merge_laws en tables saved dbase tgt tmp" and neq: "tgt \<noteq> tmp" and closed: "saved s = None"
    and opts: "target_db opts = dbase" "io_table opts = tgt"
    and T: "tables s = D(quoted_in dbase tgt \<mapsto> T\<lparr>t_cols := t_cols T @ new\<rparr>)" "table_wf T"
    and S: "tables s (quoted_in dbase tmp) = Some S" "table_wf S"
    and new: "map cs_name new = map cs_name (new_columns (t_cols T) (t_cols S))" "list_all cs_nullable new"
    and run: "merge_rows en opts keys (quoted_in dbase tmp) (t_cols S) (new_columns (t_cols T) (t_cols S)) res0 s = (r, s')"
  shows "saved s' = None \<longrightarrow> (\<exists>T'. tables s' = D(quoted_in dbase tgt \<mapsto> T') \<and>
      (case r of Inr (res, renamed) \<Rightarrow> \<not> renamed \<and> merged_table keys T S T' \<and> ir_rows res = size (t_rows S)
       | Inl _ \<Rightarrow> failed_target (drops_succeed en dbase tgt tmp) keys T S T'))"
    and "\<not> isl r \<Longrightarrow> saved s' = None"
proof -
  let ?qt = "quoted_in dbase tgt" and ?qs = "quoted_in dbase tmp" and ?N = "new_columns (t_cols T) (t_cols S)"
  let ?body = "replace_rows en dbase tgt tmp keys (map cs_name (t_cols S))"
  obtain q s1 where q: "in_transaction en ?body s = (q, s1)" by fastforce
  have "tables s ?qt = Some (T\<lparr>t_cols := t_cols T @ new\<rparr>)" using T by simp
  note outcome = transaction_outcome [OF laws neq closed this S q]
  note run' = merge_rows_unfold [OF opts q, of ?N res0]
  have "(saved s' = None \<longrightarrow> (\<exists>T'. tables s' = D(?qt \<mapsto> T') \<and>
      (case r of Inr (res, renamed) \<Rightarrow> \<not> renamed \<and> merged_table keys T S T' \<and> ir_rows res = size (t_rows S)
       | Inl _ \<Rightarrow> failed_target (drops_succeed en dbase tgt tmp) keys T S T'))) \<and> (\<not> isl r \<longrightarrow> saved s' = None)"
  proof (cases q)
    case (Inl e)
    have rs: "r = Inl e" "s' = drop_columns en ?qt ?N s1"
      using run run' Inl by simp_all
    then have "saved s' = None \<Longrightarrow> saved s1 = None"
      by (simp add: drop_columns_saved [OF laws])
    moreover have "\<exists>left. tables s' = D(?qt \<mapsto> T\<lparr>t_cols := t_cols T @ left\<rparr>) \<and> set left \<subseteq> set new \<and>
        (drops_succeed en dbase tgt tmp \<longrightarrow> names left \<inter> names ?N = {})" if "saved s1 = None"
      unfolding rs(2)
      using drop_columns_outcome [OF laws T(2) that, of D new ?N] outcome Inl T(1) that new_columns_names by auto
    ultimately show ?thesis
      using rs(1) failed_target_left [OF _ new(1)] by (simp del: fun_upd_apply) blast
  next
    case (Inr n)
    let ?T' = "T\<lparr>t_cols := t_cols T @ new, t_rows := rows_after keys T S\<rparr>"
    have rows: "rows_after keys (T\<lparr>t_cols := cs\<rparr>) S = rows_after keys T S" for cs
      by (simp add: rows_after_def)
    have s1: "saved s1 = None" "n = size (t_rows S)" "tables s1 = D(?qt \<mapsto> ?T')"
      using outcome Inr T(1) by (simp_all add: rows)
    have finished: "merged_table keys T S ?T'" using new by (auto simp: merged_table_def)
    obtain c s2 where c: "column_metadata_in en dbase tgt s1 = (c, s2)" by fastforce
    then have "saved s2 = None" "tables s2 = tables s1" using catalog_law(2) [OF laws _ c] s1 by simp_all
    then show ?thesis
      using run run' Inr c s1 finished by (cases c) (auto simp: and_then_def failed_target_def)
  qed
  then show "saved s' = None \<longrightarrow> (\<exists>T'. tables s' = D(?qt \<mapsto> T') \<and>
      (case r of Inr (res, renamed) \<Rightarrow> \<not> renamed \<and> merged_table keys T S T' \<and> ir_rows res = size (t_rows S)
       | Inl _ \<Rightarrow> failed_target (drops_succeed en dbase tgt tmp) keys T S T'))"
    and "\<not> isl r \<Longrightarrow> saved s' = None"
    by blast+
qed


lemma column_type_sqls_length: "column_type_sqls cols = Inr ts \<Longrightarrow> length ts = length cols"
  by (induction cols arbitrary: ts) (auto simp: try_bind_eq_Inr)

lemma add_columns_outcome:
  assumes laws: "merge_laws en tables saved dbase tgt tmp" and closed: "saved s = None" and T: "tables s (quoted_in dbase tgt) = Some T"
    and run: "alter_table_add_columns_in en dbase tgt cols s = (r, s')"
  shows "saved s' = None" and "r = Inl e \<Longrightarrow> tables s' = tables s"
    and "r = Inr u \<Longrightarrow> \<exists>new. tables s' = (tables s)(quoted_in dbase tgt \<mapsto> T\<lparr>t_cols := t_cols T @ new\<rparr>) \<and>
      map cs_name new = map cs_name cols \<and> list_all cs_nullable new"
proof -
  let ?goal = "saved s' = None \<and> (case r of Inl _ \<Rightarrow> tables s' = tables s
    | Inr _ \<Rightarrow> \<exists>new. tables s' = (tables s)(quoted_in dbase tgt \<mapsto> T\<lparr>t_cols := t_cols T @ new\<rparr>) \<and>
      map cs_name new = map cs_name cols \<and> list_all cs_nullable new)"
  have ?goal
  proof (cases "cols = [] \<or> isl (column_type_sqls cols)")
    case True
    have "(tables s)(quoted_in dbase tgt \<mapsto> T) = tables s" using T by (simp add: fun_upd_idem)
    with True run closed show ?thesis
      by (cases "cols = []"; cases "column_type_sqls cols") (auto simp: alter_table_add_columns_in_def and_then_def simp del: fun_upd_apply)
  next
    case False
    then obtain ts where ts: "column_type_sqls cols = Inr ts" by (cases "column_type_sqls cols") auto
    let ?x = "AddColumns (zip cols ts)"
    obtain q s1 where q: "run_command en (merge_text dbase tgt tmp ?x) s = (q, s1)" by fastforce
    have "map (cs_name \<circ> fst) (zip cols ts) = map cs_name cols"
      using column_type_sqls_length [OF ts] by (simp flip: map_map)
    moreover have "(r, s') = (case q of Inl e \<Rightarrow> Inl e | Inr _ \<Rightarrow> Inr (), s1)"
      using run False ts q
      by (auto simp: alter_table_add_columns_in_def and_then_def merge_text.simps Let_def split: sum.split)
    ultimately show ?thesis
      using merge_command_law [OF laws q] closed T by (cases q) (auto simp del: fun_upd_apply)
  qed
  then show "saved s' = None" "r = Inl e \<Longrightarrow> tables s' = tables s"
    "r = Inr u \<Longrightarrow> \<exists>new. tables s' = (tables s)(quoted_in dbase tgt \<mapsto> T\<lparr>t_cols := t_cols T @ new\<rparr>) \<and>
      map cs_name new = map cs_name cols \<and> list_all cs_nullable new"
    by simp_all
qed

lemma check_keys_names: "check_keys t tc sc ks = Inr () \<Longrightarrow> set ks \<subseteq> names tc \<inter> names sc"
proof (induction ks)
  case (Cons k ks)
  have "column_named k cols = Some c \<Longrightarrow> k \<in> names cols" for cols c
    by (auto simp: column_named_def names_def find_Some_iff)
  with Cons show ?case by (auto split: option.splits if_splits)
qed simp

lemma and_then_cases:
  assumes "and_then r f = (q, s')"
  obtains (err) e where "r = (Inl e, s')" "q = Inl e" | (ok) a s where "r = (Inr a, s)" "f a s = (q, s')"
  using assms by (auto simp: and_then_def split: prod.splits sum.splits)

text \<open>The outcome of a merge into a table that exists.\<close>

definition merge_outcome ::
  "bool \<Rightarrow> string list \<Rightarrow> string \<Rightarrow> database \<Rightarrow> table \<Rightarrow> table \<Rightarrow> McpError + 'r IngestResult \<times> bool \<Rightarrow> database \<Rightarrow> bool" where
  "merge_outcome drops keys qt D T S r D' \<longleftrightarrow>
     (\<exists>T'. D' = D(qt \<mapsto> T') \<and>
       (case r of
          Inr (res, renamed) \<Rightarrow> \<not> renamed \<and> merged_table keys T S T' \<and> ir_rows res = size (t_rows S) \<and>
            set keys \<subseteq> names (t_cols T) \<inter> names (t_cols S)
        | Inl _ \<Rightarrow> failed_target drops keys T S T'))"

lemma merge_outcome_unchanged: "D qt = Some T \<Longrightarrow> merge_outcome drops keys qt D T S (Inl e) D"
proof -
  assume "D qt = Some T"
  moreover have "failed_target drops keys T S T"
    unfolding failed_target_def by (rule disjI1, rule exI [of _ "[]"]) (simp add: names_def)
  ultimately show ?thesis
    unfolding merge_outcome_def by (intro exI [of _ T]) (simp add: fun_upd_idem)
qed

lemma merge_widened_outcome:
  assumes laws: "merge_laws en tables saved dbase tgt tmp" and neq: "tgt \<noteq> tmp" and closed: "saved s = None"
    and opts: "target_db opts = dbase" "io_table opts = tgt"
    and T: "tables s (quoted_in dbase tgt) = Some T" "table_wf T"
    and S: "tables s (quoted_in dbase tmp) = Some S" "table_wf S"
    and run: "and_then (alter_table_add_columns_in en dbase tgt (new_columns (t_cols T) (t_cols S)) s)
      (\<lambda>_ s. merge_rows en opts keys (quoted_in dbase tmp) (t_cols S) (new_columns (t_cols T) (t_cols S)) res0 s) = (r, s')"
    and keys: "set keys \<subseteq> names (t_cols T) \<inter> names (t_cols S)"
  shows "(saved s' = None \<longrightarrow> merge_outcome (drops_succeed en dbase tgt tmp) keys (quoted_in dbase tgt) (tables s) T S r (tables s')) \<and>
    (\<not> isl r \<longrightarrow> saved s' = None)"
  using run
proof (cases rule: and_then_cases)
  case (err e)
  then show ?thesis
    using add_columns_outcome(2) [OF laws closed T(1) err(1)] T(1) by (simp add: merge_outcome_unchanged)
next
  case (ok u s1)
  let ?qt = "quoted_in dbase tgt"
  obtain new where new: "tables s1 = (tables s)(?qt \<mapsto> T\<lparr>t_cols := t_cols T @ new\<rparr>)"
    "map cs_name new = map cs_name (new_columns (t_cols T) (t_cols S))" "list_all cs_nullable new"
    using add_columns_outcome(3) [OF laws closed T(1) ok(1) refl] by auto
  have "quoted_in dbase tmp \<noteq> ?qt" using neq quoted_in_inj by blast
  then have S1: "tables s1 (quoted_in dbase tmp) = Some S" using new(1) S by simp
  from merge_rows_outcome [OF laws neq add_columns_outcome(1) [OF laws closed T(1) ok(1)] opts new(1) T(2) S1 S(2) new(2,3) ok(2)]
  show ?thesis
    unfolding merge_outcome_def using keys by (auto simp del: fun_upd_apply split: sum.splits)
qed

lemma merge_existing_outcome:
  assumes laws: "merge_laws en tables saved dbase tgt tmp" and neq: "tgt \<noteq> tmp" and closed: "saved s = None"
    and opts: "target_db opts = dbase" "io_table opts = tgt"
    and T: "tables s (quoted_in dbase tgt) = Some T" "table_wf T"
    and S: "tables s (quoted_in dbase tmp) = Some S" "table_wf S"
    and run: "merge_existing en opts keys tmp res0 s = (r, s')"
  shows "(saved s' = None \<longrightarrow> merge_outcome (drops_succeed en dbase tgt tmp) keys (quoted_in dbase tgt) (tables s) T S r (tables s')) \<and>
    (\<not> isl r \<longrightarrow> saved s' = None)"
    (is "?goal r s'")
proof -
  let ?qt = "quoted_in dbase tgt" and ?N = "new_columns (t_cols T) (t_cols S)"
  have stop: "?goal r s'" if "r = Inl e" "tables s' = tables s" for e
    using that T(1) by (simp add: merge_outcome_unchanged)
  note run [unfolded merge_existing_def opts]
  then show ?thesis
  proof (cases rule: and_then_cases)
    case (err e)
    then show ?thesis using catalog_law(2) [OF laws _ err(1)] stop by simp
  next
    case (ok tc s1)
    have s1: "saved s1 = None" "tables s1 = tables s" "tc = t_cols T"
      using catalog_law(2) [OF laws _ ok(1)] closed T by auto
    from ok(2) show ?thesis
    proof (cases rule: and_then_cases)
      case (err e)
      then show ?thesis using catalog_law(2) [OF laws _ err(1)] stop s1 by simp
    next
      case (ok sc s2)
      have s2: "saved s2 = None" "tables s2 = tables s" "sc = t_cols S"
        using catalog_law(2) [OF laws _ ok(1)] s1 S by auto
      show ?thesis
      proof (cases "check_keys tgt tc sc keys = Inr () \<and> check_shared tc sc = Inr () \<and> missing_required tc sc = []")
        case False
        then have "isl r \<and> s' = s2"
          using ok(2) by (cases "check_keys tgt tc sc keys"; cases "check_shared tc sc") (auto simp: and_then_def)
        then show ?thesis using stop s2 by (auto simp: isl_def)
      next
        case True
        then have "and_then (alter_table_add_columns_in en dbase tgt ?N s2)
            (\<lambda>_ s. merge_rows en opts keys (quoted_in dbase tmp) (t_cols S) ?N res0 s) = (r, s')"
          using ok(2) s1(3) s2(3) by (simp add: and_then_def)
        from merge_widened_outcome [OF laws neq s2(1) opts _ T(2) _ S(2) this] show ?thesis
          using True check_keys_names s1(3) s2 T(1) S(1) by (metis (no_types, lifting))
      qed
    qed
  qed
qed


lemma merge_from_staging_outcome:
  assumes laws: "merge_laws en tables saved (target_db opts) (io_table opts) tmp" and neq: "io_table opts \<noteq> tmp" and closed: "saved s = None"
    and wf: "\<And>T. tables s (qualified_table opts) = Some T \<Longrightarrow> table_wf T" "\<And>S. tables s (quoted_in (target_db opts) tmp) = Some S \<Longrightarrow> table_wf S"
    and run: "merge_from_staging en opts keys tmp res0 s = (r, s')" and end_closed: "saved s' = None \<or> \<not> isl r"
  shows "saved s' = None" and "tables s' = tables s \<and> isl r \<or>
    (\<exists>S. tables s (quoted_in (target_db opts) tmp) = Some S \<and>
      (case tables s (qualified_table opts) of
         None \<Rightarrow> (\<exists>res. r = Inr (res, True)) \<and> tables s' = (tables s)(quoted_in (target_db opts) tmp := None, qualified_table opts \<mapsto> S)
       | Some T \<Rightarrow> merge_outcome (drops_succeed en (target_db opts) (io_table opts) tmp) keys (qualified_table opts) (tables s) T S r (tables s')))"
proof -
  let ?d = "target_db opts" and ?t = "io_table opts"
  let ?qt = "qualified_table opts" and ?qs = "quoted_in ?d tmp"
  let ?staged = "\<exists>S. tables s ?qs = Some S \<and>
      (case tables s ?qt of
         None \<Rightarrow> (\<exists>res. r = Inr (res, True)) \<and> tables s' = (tables s)(?qs := None, ?qt \<mapsto> S)
       | Some T \<Rightarrow> merge_outcome (drops_succeed en ?d ?t tmp) keys ?qt (tables s) T S r (tables s'))"
  have qt: "quoted_in ?d ?t = ?qt" by (simp add: qualified_table_def)
  have "saved s' = None \<and> (tables s' = tables s \<and> isl r \<or> ?staged)"
    using run [unfolded merge_from_staging_def]
  proof (cases rule: and_then_cases)
    case (err e)
    then show ?thesis using catalog_law(1) [OF laws _ err(1)] closed by simp
  next
    case (ok staged s1)
    have s1: "saved s1 = None" "tables s1 = tables s" "staged \<longleftrightarrow> tables s ?qs \<noteq> None"
      using catalog_law(1) [OF laws _ ok(1)] closed by auto
    show ?thesis
    proof (cases staged)
      case False
      then show ?thesis using ok(2) s1 by auto
    next
      case True
      then obtain S where S: "tables s ?qs = Some S" using s1(3) by auto
      from ok(2) True have "and_then (table_exists_in en ?d ?t s1) (\<lambda>present s.
          if \<not> present then
            and_then (run_command en (merge_text ?d ?t tmp RenameStaging) s) (\<lambda>_ s.
              (Inr (res0\<lparr>ir_stats := (ir_stats res0)\<lparr>is_table := ?t, schema_changed := True\<rparr>\<rparr>, True), s))
          else merge_existing en opts keys tmp res0 s) = (r, s')"
        unfolding merge_text.simps Let_def by simp
      then show ?thesis
      proof (cases rule: and_then_cases)
        case (err e)
        then show ?thesis using catalog_law(1) [OF laws _ err(1)] s1 by simp
      next
        case (ok present s2)
        have s2: "saved s2 = None" "tables s2 = tables s" "present \<longleftrightarrow> tables s ?qt \<noteq> None"
          using catalog_law(1) [OF laws _ ok(1)] s1 by (auto simp: qt)
        show ?thesis
        proof (cases present)
          case True
          then obtain T where T: "tables s ?qt = Some T" using s2(3) by auto
          have "merge_existing en opts keys tmp res0 s2 = (r, s')" using ok(2) True by simp
          from merge_existing_outcome [OF laws neq s2(1) refl refl _ wf(1) _ wf(2) this] T S s2(2) end_closed
          show ?thesis by (auto simp: qt)
        next
          case False
          obtain q s3 where q: "run_command en (merge_text ?d ?t tmp RenameStaging) s2 = (q, s3)" by fastforce
          show ?thesis
            using ok(2) False q merge_command_law [OF laws q] s2 S
            by (cases q) (auto simp: and_then_def qt simp del: fun_upd_apply)
        qed
      qed
    qed
  qed
  then show "saved s' = None" "tables s' = tables s \<and> isl r \<or> ?staged" by blast+
qed


section \<open>Merging is an upsert\<close>

lemma drop_staging_outcome:
  assumes "merge_laws en tables saved dbase tgt tmp"
  shows "saved (drop_staging en (quoted_in dbase tmp) s) = saved s"
    and "saved s = None \<Longrightarrow> q \<noteq> quoted_in dbase tmp \<Longrightarrow> tables (drop_staging en (quoted_in dbase tmp) s) q = tables s q"
proof -
  obtain r s1 where r: "run_command en (merge_text dbase tgt tmp DropStaging) s = (r, s1)" by fastforce
  then have "drop_staging en (quoted_in dbase tmp) s = s1"
    by (simp add: drop_staging_def merge_text.simps)
  with merge_command_law [OF assms r] show "saved (drop_staging en (quoted_in dbase tmp) s) = saved s"
    and "saved s = None \<Longrightarrow> q \<noteq> quoted_in dbase tmp \<Longrightarrow> tables (drop_staging en (quoted_in dbase tmp) s) q = tables s q"
    by (cases r; simp)+
qed

text \<open>What is relied on of the load of a format: it touches no table but the staging table and no transaction, and
  what it leaves there is a table.\<close>

definition loads_only ::
  "('s \<Rightarrow> database) \<Rightarrow> ('s \<Rightarrow> database option) \<Rightarrow> string \<Rightarrow> ('s \<Rightarrow> (McpError + 'r IngestResult) \<times> 's) \<Rightarrow> bool" where
  "loads_only tables saved qs load \<longleftrightarrow>
     (\<forall>s r s'. load s = (r, s') \<longrightarrow>
        saved s' = saved s \<and> (\<forall>q. q \<noteq> qs \<longrightarrow> tables s' q = tables s q) \<and> (\<forall>S. tables s' qs = Some S \<longrightarrow> table_wf S))"

text \<open>What the target becomes when a merge answers \<open>r\<close> after \<open>S\<close> was staged.\<close>

definition target_after ::
  "bool \<Rightarrow> string list \<Rightarrow> table option \<Rightarrow> table option \<Rightarrow> McpError + 'r IngestResult \<Rightarrow> table option \<Rightarrow> bool" where
  "target_after drops keys T S r T' \<longleftrightarrow>
     (case r of
        Inr res \<Rightarrow>
          (case T of
             None \<Rightarrow> S \<noteq> None \<and> T' = S
           | Some T \<Rightarrow> (\<exists>S0 T0. S = Some S0 \<and> T' = Some T0 \<and> merged_table keys T S0 T0 \<and> ir_rows res = size (t_rows S0) \<and>
               set keys \<subseteq> names (t_cols T) \<inter> names (t_cols S0)))
      | Inl _ \<Rightarrow> T' = T \<or> (\<exists>T0 S0 T1. T = Some T0 \<and> S = Some S0 \<and> T' = Some T1 \<and> failed_target drops keys T0 S0 T1))"

lemma merge_outcome_target:
  "merge_outcome drops keys qt D T S r D' \<Longrightarrow> r' = map_sum id fst r \<Longrightarrow> target_after drops keys (Some T) (Some S) r' (D' qt)"
  by (cases r) (auto simp: merge_outcome_def target_after_def)

lemma merge_outcome_others: "merge_outcome drops keys qt D T S r D' \<Longrightarrow> q \<noteq> qt \<Longrightarrow> D' q = D q"
  by (auto simp: merge_outcome_def)

lemma staged_target:
  fixes D D' :: database
  assumes "D' = D \<and> isl r \<or>
      (\<exists>S. D qs = Some S \<and>
        (case D qt of
           None \<Rightarrow> (\<exists>res. r = Inr (res, True)) \<and> D' = D(qs := None, qt \<mapsto> S)
         | Some T \<Rightarrow> merge_outcome drops keys qt D T S r D'))"
    and "qt \<noteq> qs"
  shows "(\<forall>q. q \<notin> {qt, qs} \<longrightarrow> D' q = D q) \<and> target_after drops keys (D qt) (D qs) (map_sum id fst r) (D' qt)"
  using assms(1)
proof (elim disjE exE conjE)
  assume "D' = D" "isl r"
  then show ?thesis by (cases r) (auto simp: target_after_def)
next
  fix S
  assume S: "D qs = Some S" and c: "case D qt of
       None \<Rightarrow> (\<exists>res. r = Inr (res, True)) \<and> D' = D(qs := None, qt \<mapsto> S)
     | Some T \<Rightarrow> merge_outcome drops keys qt D T S r D'"
  show ?thesis
  proof (cases "D qt")
    case None
    then show ?thesis using c S assms(2) by (auto simp: target_after_def)
  next
    case (Some T)
    then have "merge_outcome drops keys qt D T S r D'" using c by simp
    from merge_outcome_others [OF this] merge_outcome_target [OF this refl] show ?thesis
      using Some S by simp
  qed
qed

lemma merge_core:
  assumes laws: "merge_laws en tables saved (target_db opts) (io_table opts) tmp" and neq: "io_table opts \<noteq> tmp"
    and mode: "io_mode opts = Merge keys" and closed: "saved s = None"
    and wf: "\<forall>T. tables s (qualified_table opts) = Some T \<longrightarrow> table_wf T"
    and load: "loads_only tables saved (quoted_in (target_db opts) tmp) (load (opts\<lparr>io_table := tmp, io_mode := Replace\<rparr>))"
    and run: "merge_via_temp_table en opts tmp load s = (r, s')" and end_closed: "saved s' = None \<or> \<not> isl r"
  shows "saved s' = None" and "\<forall>q. q \<notin> {qualified_table opts, quoted_in (target_db opts) tmp} \<longrightarrow> tables s' q = tables s q"
    and "target_after (drops_succeed en (target_db opts) (io_table opts) tmp) keys (tables s (qualified_table opts))
      (tables (snd (load (opts\<lparr>io_table := tmp, io_mode := Replace\<rparr>) s)) (quoted_in (target_db opts) tmp)) r (tables s' (qualified_table opts))"
proof -
  let ?qt = "qualified_table opts" and ?qs = "quoted_in (target_db opts) tmp" and ?o = "opts\<lparr>io_table := tmp, io_mode := Replace\<rparr>"
  let ?drops = "drops_succeed en (target_db opts) (io_table opts) tmp"
  let ?goal = "saved s' = None \<and> (\<forall>q. q \<notin> {?qt, ?qs} \<longrightarrow> tables s' q = tables s q) \<and>
    target_after ?drops keys (tables s ?qt) (tables (snd (load ?o s)) ?qs) r (tables s' ?qt)"
  have qs: "qualified_table ?o = ?qs" by (simp add: qualified_table_def)
  have ne: "?qt \<noteq> ?qs" using neq quoted_in_inj by (auto simp: qualified_table_def)
  note drop = drop_staging_outcome [OF laws]
  obtain l s1 where l: "load ?o s = (l, s1)" by fastforce
  have s1: "saved s1 = None" "\<And>q. q \<noteq> ?qs \<Longrightarrow> tables s1 q = tables s q" "\<And>S. tables s1 ?qs = Some S \<Longrightarrow> table_wf S"
    using load [unfolded loads_only_def, rule_format, OF l] closed by auto
  have ?goal
  proof (cases "keys = [] \<or> [] \<in> set keys")
    case True
    then show ?thesis using run closed by (auto simp: merge_via_temp_table_def mode target_after_def)
  next
    case False
    note run' = run [unfolded merge_via_temp_table_def mode Let_def qs IngestMode.case if_not_P [OF False] l prod.case]
    show ?thesis
    proof (cases l)
      case (Inl e)
      then show ?thesis using run' s1 drop ne by (auto simp: target_after_def)
    next
      case (Inr res0)
      obtain r2 s2 where m: "merge_from_staging en opts keys tmp res0 s1 = (r2, s2)" by fastforce
      have rs: "r = map_sum id fst r2" "s' = (if \<exists>res. r2 = Inr (res, True) then s2 else drop_staging en ?qs s2)"
        using run' Inr m by (auto split: sum.splits)
      then have "saved s2 = None \<or> \<not> isl r2" using end_closed drop(1) by (cases r2) (auto split: if_splits)
      note outcome = merge_from_staging_outcome [OF laws neq s1(1) _ s1(3) m this]
      have s2: "saved s2 = None" using outcome(1) wf s1(2) ne by auto
      have s': "saved s' = None" "\<And>q. q \<noteq> ?qs \<Longrightarrow> tables s' q = tables s2 q"
        using rs(2) drop s2 by auto
      have "(\<forall>q. q \<notin> {?qt, ?qs} \<longrightarrow> tables s2 q = tables s1 q) \<and>
          target_after ?drops keys (tables s1 ?qt) (tables s1 ?qs) r (tables s2 ?qt)"
        unfolding rs(1) by (rule staged_target [OF _ ne]) (use outcome(2) wf s1(2) ne in auto)
      then show ?thesis using s' s1(2) ne l by auto
    qed
  qed
  then show "saved s' = None" "\<forall>q. q \<notin> {?qt, ?qs} \<longrightarrow> tables s' q = tables s q"
    "target_after ?drops keys (tables s ?qt) (tables (snd (load ?o s)) ?qs) r (tables s' ?qt)"
    by blast+
qed


text \<open>C14. a merge is an upsert. When \<open>merge_via_temp_table\<close> succeeds on a server that gives its statements their
  meaning, with a load that fills only the staging table, no transaction is left open, every other table is untouched,
  and the target is the staged table when there was none; otherwise it has the columns it had and behind
  them, nullable, those only the incoming data has, its rows are the incoming ones and those of before that match
  none of them on the keys, and the row count answered is that of the incoming data.\<close>

theorem merge_is_upsert:
  assumes laws: "merge_laws en tables saved (target_db opts) (io_table opts) tmp" and neq: "io_table opts \<noteq> tmp"
    and mode: "io_mode opts = Merge keys" and closed: "saved s = None"
    and wf: "\<forall>T. tables s (qualified_table opts) = Some T \<longrightarrow> table_wf T"
    and load: "loads_only tables saved (quoted_in (target_db opts) tmp) (load (opts\<lparr>io_table := tmp, io_mode := Replace\<rparr>))"
    and run: "merge_via_temp_table en opts tmp load s = (Inr res, s')"
  shows "saved s' = None \<and>
    (\<forall>q. q \<notin> {qualified_table opts, quoted_in (target_db opts) tmp} \<longrightarrow> tables s' q = tables s q) \<and>
    (\<exists>S. tables (snd (load (opts\<lparr>io_table := tmp, io_mode := Replace\<rparr>) s)) (quoted_in (target_db opts) tmp) = Some S \<and>
      (case tables s (qualified_table opts) of
         None \<Rightarrow> tables s' (qualified_table opts) = Some S
       | Some T \<Rightarrow> (\<exists>T'. tables s' (qualified_table opts) = Some T' \<and> merged_table keys T S T' \<and>
           ir_rows res = size (t_rows S) \<and> set keys \<subseteq> names (t_cols T) \<inter> names (t_cols S))))"
proof -
  note core = merge_core [OF laws neq mode closed wf load run, simplified]
  then show ?thesis by (auto simp: target_after_def split: option.splits)
qed

text \<open>C15. a merge that fails keeps the rows. When \<open>merge_via_temp_table\<close> answers an error and no transaction is left
  open, every other table is untouched, a target that did not exist still does not, and one that did has its rows
  and its columns, with none of the new columns left when dropping columns succeeds; except that everything may have
  been merged and only reading the columns for the answer failed.\<close>

theorem failed_merge_keeps_rows:
  assumes laws: "merge_laws en tables saved (target_db opts) (io_table opts) tmp" and neq: "io_table opts \<noteq> tmp"
    and mode: "io_mode opts = Merge keys" and closed: "saved s = None"
    and wf: "\<forall>T. tables s (qualified_table opts) = Some T \<longrightarrow> table_wf T"
    and load: "loads_only tables saved (quoted_in (target_db opts) tmp) (load (opts\<lparr>io_table := tmp, io_mode := Replace\<rparr>))"
    and run: "merge_via_temp_table en opts tmp load s = (Inl e, s')" and end_closed: "saved s' = None"
  shows "(\<forall>q. q \<notin> {qualified_table opts, quoted_in (target_db opts) tmp} \<longrightarrow> tables s' q = tables s q) \<and>
    (case tables s (qualified_table opts) of
       None \<Rightarrow> tables s' (qualified_table opts) = None
     | Some T \<Rightarrow> (\<exists>T'. tables s' (qualified_table opts) = Some T' \<and>
         ((\<exists>left. T' = T\<lparr>t_cols := t_cols T @ left\<rparr> \<and> (drops_succeed en (target_db opts) (io_table opts) tmp \<longrightarrow> left = [])) \<or>
          (\<exists>S. tables (snd (load (opts\<lparr>io_table := tmp, io_mode := Replace\<rparr>) s)) (quoted_in (target_db opts) tmp) = Some S \<and>
             merged_table keys T S T'))))"
proof -
  have same: "\<exists>left. T = T\<lparr>t_cols := t_cols T @ left\<rparr> \<and> (b \<longrightarrow> left = [])" for T :: table and b
    by (rule exI [of _ "[]"]) simp
  note core = merge_core(2,3) [OF laws neq mode closed wf load run disjI1 [OF end_closed]]
  show ?thesis
  proof (cases "tables s (qualified_table opts)")
    case None
    then show ?thesis using core by (simp add: target_after_def)
  next
    case (Some T)
    from core(2) [unfolded Some target_after_def failed_target_def sum.case]
    have "\<exists>T'. tables s' (qualified_table opts) = Some T' \<and>
         ((\<exists>left. T' = T\<lparr>t_cols := t_cols T @ left\<rparr> \<and> (drops_succeed en (target_db opts) (io_table opts) tmp \<longrightarrow> left = [])) \<or>
          (\<exists>S. tables (snd (load (opts\<lparr>io_table := tmp, io_mode := Replace\<rparr>) s)) (quoted_in (target_db opts) tmp) = Some S \<and>
             merged_table keys T S T'))"
      using same [of T] by (elim disjE) blast+
    with core(1) Some show ?thesis by simp
  qed
qed

section \<open>Witnesses\<close>

lemma keys_text_inj:
  "join '' AND '' (map (\<lambda>k. ''t.'' @ quoted k @ '' = s.'' @ quoted k) xs) = join '' AND '' (map (\<lambda>k. ''t.'' @ quoted k @ '' = s.'' @ quoted k) ys)
     \<Longrightarrow> xs = ys"
proof (induction xs arbitrary: ys)
  case Nil
  then show ?case by (cases ys rule: remdups_adj.cases) auto
next
  case (Cons x xs)
  let ?f = "\<lambda>k. ''t.'' @ quoted k @ '' = s.'' @ quoted k"
  let ?tail = "\<lambda>zs. if zs = [] then [] else '' AND '' @ join '' AND '' (map ?f zs)"
  have step: "join '' AND '' (map ?f (z # zs)) = ?f z @ ?tail zs" for z zs
    by (cases zs) simp_all
  obtain y ys' where ys: "ys = y # ys'" using Cons.prems [unfolded step] by (cases ys) auto
  with Cons.prems have "quoted x @ '' = s.'' @ quoted x @ ?tail xs = quoted y @ '' = s.'' @ quoted y @ ?tail ys'"
    unfolding ys step by simp
  then have both: "x = y \<and> '' = s.'' @ quoted x @ ?tail xs = '' = s.'' @ quoted y @ ?tail ys'"
    by (rule quoted_inj) simp_all
  from both have xy: "x = y" by (rule conjunct1)
  from both [THEN conjunct2] have "quoted x @ ?tail xs = quoted y @ ?tail ys'" by (simp only: same_append_eq)
  then have tails: "?tail xs = ?tail ys'" by (simp only: xy append_same_eq same_append_eq)
  show ?case
  proof (cases "xs = []")
    case True
    then show ?thesis using tails ys xy by (cases ys') simp_all
  next
    case False
    with tails have "ys' \<noteq> []" "join '' AND '' (map ?f xs) = join '' AND '' (map ?f ys')"
      by (cases ys'; simp)+
    with Cons.IH [of ys'] ys xy show ?thesis by simp
  qed
qed

lemma columns_text_inj:
  "join '', '' (map quoted xs) @ CHR '')'' # r = join '', '' (map quoted ys) @ CHR '')'' # r' \<Longrightarrow> xs = ys"
proof (induction xs arbitrary: ys)
  case Nil
  then show ?case by (cases ys rule: remdups_adj.cases) (auto simp: quoted_def)
next
  case (Cons x xs)
  let ?tail = "\<lambda>zs. if zs = [] then [] else '', '' @ join '', '' (map quoted zs)"
  have step: "join '', '' (map quoted (z # zs)) = quoted z @ ?tail zs" for z zs
    by (cases zs) simp_all
  obtain y ys' where ys: "ys = y # ys'" using Cons.prems [unfolded step] by (cases ys) (auto simp: quoted_def)
  with Cons.prems have "quoted x @ ?tail xs @ CHR '')'' # r = quoted y @ ?tail ys' @ CHR '')'' # r'"
    unfolding ys step by simp
  from quoted_inj [OF this] have "x = y" "?tail xs @ CHR '')'' # r = ?tail ys' @ CHR '')'' # r'" by (simp_all split: if_splits)
  with Cons.IH [of ys'] ys show ?case by (auto split: if_splits)
qed

lemma merge_text_kinds:
  "merge_text dbase tgt tmp x = merge_text dbase tgt tmp (DeleteMatching ks) \<Longrightarrow> x = DeleteMatching ks"
  "merge_text dbase tgt tmp x = merge_text dbase tgt tmp (InsertAll cs) \<Longrightarrow> x = InsertAll cs"
  "merge_text dbase tgt tmp x = merge_text dbase tgt tmp DropStaging \<Longrightarrow> x = DropStaging"
  using keys_text_inj columns_text_inj by (cases x; simp add: merge_text.simps; blast)+


text \<open>A server that knows some of the statements of one merge, and a load that stages one row.\<close>

definition demo_cols :: "ColumnSchema list" where
  "demo_cols = [\<lparr>cs_name = ''k'', hyper_type = ''INTEGER'', cs_nullable = True\<rparr>, \<lparr>cs_name = ''v'', hyper_type = ''TEXT'', cs_nullable = True\<rparr>]"

definition demo_row :: "string \<Rightarrow> string \<Rightarrow> row" where
  "demo_row k v = [''k'' \<mapsto> k, ''v'' \<mapsto> v]"

definition demo_run :: "merge_statement \<Rightarrow> database \<Rightarrow> (nat \<times> database) option" where
  "demo_run x D =
     (case (D (quoted ''t''), D (quoted ''tmp'')) of
        (Some T, Some S) \<Rightarrow>
          (case x of
             DeleteMatching keys \<Rightarrow> Some (0, D(quoted ''t'' \<mapsto> T\<lparr>t_rows := filter_mset (\<lambda>r. \<not> matches keys S r) (t_rows T)\<rparr>))
           | InsertAll cols \<Rightarrow> Some (size (t_rows S), D(quoted ''t'' \<mapsto> T\<lparr>t_rows := t_rows T + image_mset (project cols) (t_rows S)\<rparr>))
           | DropStaging \<Rightarrow> Some (0, D(quoted ''tmp'' := None))
           | _ \<Rightarrow> None)
      | _ \<Rightarrow> None)"

definition demo_statements :: "merge_statement list" where
  "demo_statements = [DeleteMatching [''k''], InsertAll [''k'', ''v''], DropStaging]"

definition demo_error :: McpError where
  "demo_error = McpError_new SqlError ''refused''"

definition demo_engine :: "merge_statement list \<Rightarrow> (database \<times> database option) engine_ops" where
  "demo_engine known =
     \<lparr>run_command = (\<lambda>sql (D, saved).
        case List.find (\<lambda>x. merge_text None ''t'' ''tmp'' x = sql) known of
          None \<Rightarrow> (Inl demo_error, (D, saved))
        | Some x \<Rightarrow> (case demo_run x D of None \<Rightarrow> (Inl demo_error, (D, saved)) | Some (n, D') \<Rightarrow> (Inr n, (D', saved)))),
      table_exists_in = (\<lambda>d t (D, saved). (Inr (D (quoted_in d t) \<noteq> None), (D, saved))),
      column_metadata_in = (\<lambda>d t (D, saved).
        (case D (quoted_in d t) of Some T \<Rightarrow> Inr (t_cols T) | None \<Rightarrow> Inl demo_error, (D, saved))),
      txn_begin = (\<lambda>(D, saved). (Inr (), (D, Some D))),
      txn_commit = (\<lambda>(D, saved). (Inr (), (D, None))),
      txn_rollback = (\<lambda>(D, saved). case saved of Some D' \<Rightarrow> (Inr (), (D', None)) | None \<Rightarrow> (Inl demo_error, (D, saved)))\<rparr>"

lemma demo_run_meaning:
  "demo_run x D = Some (n, D') \<Longrightarrow> merge_meaning (quoted ''t'') (quoted ''tmp'') x D n D'"
  by (cases x) (auto simp: demo_run_def split: option.splits)

lemma demo_statements_text:
  assumes "List.find (\<lambda>y. merge_text None ''t'' ''tmp'' y = merge_text None ''t'' ''tmp'' x) known = Some y"
    and "set known \<subseteq> set demo_statements"
  shows "y = x"
proof -
  from assms have "y \<in> set demo_statements" and "merge_text None ''t'' ''tmp'' y = merge_text None ''t'' ''tmp'' x"
    by (auto simp: find_Some_iff)
  then show ?thesis
    unfolding demo_statements_def
    by (auto dest: merge_text_kinds(1) [OF sym] merge_text_kinds(2) [OF sym] merge_text_kinds(3) [OF sym])
qed

lemma demo_command:
  assumes "set known \<subseteq> set demo_statements"
  shows "run_command (demo_engine known) (merge_text None ''t'' ''tmp'' x) (D, saved) =
    (if x \<in> set known
     then case demo_run x D of None \<Rightarrow> (Inl demo_error, (D, saved)) | Some (n, D') \<Rightarrow> (Inr n, (D', saved))
     else (Inl demo_error, (D, saved)))"
proof (cases "List.find (\<lambda>y. merge_text None ''t'' ''tmp'' y = merge_text None ''t'' ''tmp'' x) known")
  case None
  then have "x \<notin> set known" by (auto simp: find_None_iff)
  with None show ?thesis by (simp add: demo_engine_def)
next
  case (Some y)
  then have "y \<in> set known" by (auto simp: find_Some_iff)
  with Some demo_statements_text [OF Some assms] show ?thesis by (simp add: demo_engine_def)
qed

lemma demo_merge_laws:
  assumes "set known \<subseteq> set demo_statements"
  shows "merge_laws (demo_engine known) fst snd None ''t'' ''tmp''"
proof -
  have "command_laws (demo_engine known) fst snd None ''t'' ''tmp''"
    by (auto simp: command_laws_def demo_command [OF assms] quoted_in_def split: option.splits prod.splits if_splits
        dest: demo_run_meaning)
  moreover have "catalog_laws (demo_engine known) fst snd None t" for t
    by (auto simp: catalog_laws_def demo_engine_def split: option.splits)
  moreover have "transaction_laws (demo_engine known) fst snd"
    by (auto simp: transaction_laws_def demo_engine_def split: option.splits)
  ultimately show ?thesis by (simp add: merge_laws_def)
qed

definition demo_target :: table where
  "demo_target = \<lparr>t_cols = demo_cols, t_rows = {#demo_row ''1'' ''old'', demo_row ''2'' ''kept''#}\<rparr>"

definition demo_staged :: table where
  "demo_staged = \<lparr>t_cols = demo_cols, t_rows = {#demo_row ''1'' ''new''#}\<rparr>"

definition demo_opts :: "unit IngestOptions" where
  "demo_opts = \<lparr>io_table = ''t'', io_mode = Merge [''k''], schema_override = (), target_db = None\<rparr>"

definition demo_result :: "unit IngestResult" where
  "demo_result = \<lparr>ir_rows = 1, ir_schema = demo_cols,
     ir_stats = \<lparr>is_rows = 1, is_table = ''tmp'', schema_changed = False, is_rest = ()\<rparr>\<rparr>"

definition demo_load :: "unit IngestOptions \<Rightarrow> database \<times> database option \<Rightarrow> (McpError + unit IngestResult) \<times> database \<times> database option" where
  "demo_load opts s = (Inr demo_result, ((fst s)(quoted ''tmp'' \<mapsto> demo_staged), snd s))"

definition demo_state :: "database \<times> database option" where
  "demo_state = ([quoted ''t'' \<mapsto> demo_target], None)"

lemma demo_tables:
  "table_wf demo_target" "table_wf demo_staged" "quoted ''t'' \<noteq> quoted ''tmp''"
  "qualified_table demo_opts = quoted ''t''" "quoted_in None ''tmp'' = quoted ''tmp''" "quoted_in None ''t'' = quoted ''t''"
  by (auto simp: table_wf_def demo_target_def demo_staged_def demo_row_def demo_cols_def names_def quoted_def
      qualified_table_def quoted_in_def demo_opts_def)

lemma demo_load_only: "loads_only fst snd (quoted ''tmp'') (demo_load opts)"
  by (auto simp: loads_only_def demo_load_def demo_tables)

lemmas demo_defs = demo_opts_def demo_load_def demo_result_def demo_state_def

lemma demo_engine_simps [simp]:
  "table_exists_in (demo_engine known) d t s = (Inr (fst s (quoted_in d t) \<noteq> None), s)"
  "column_metadata_in (demo_engine known) d t s = (case fst s (quoted_in d t) of Some T \<Rightarrow> Inr (t_cols T) | None \<Rightarrow> Inl demo_error, s)"
  "txn_begin (demo_engine known) s = (Inr (), (fst s, Some (fst s)))"
  "txn_commit (demo_engine known) s = (Inr (), (fst s, None))"
  "txn_rollback (demo_engine known) s = (case snd s of Some D \<Rightarrow> (Inr (), (D, None)) | None \<Rightarrow> (Inl demo_error, s))"
  by (auto simp: demo_engine_def split: prod.splits option.splits)

lemma demo_checks:
  "check_keys ''t'' demo_cols demo_cols [''k''] = Inr ()" "check_shared demo_cols demo_cols = Inr ()"
  "missing_required demo_cols demo_cols = []" "new_columns demo_cols demo_cols = []" "map cs_name demo_cols = [''k'', ''v'']"
  by (simp_all add: demo_cols_def column_named_def types_compatible_def missing_required_def new_columns_def)

lemma demo_sel:
  "target_db demo_opts = None" "io_table demo_opts = ''t''" "io_mode demo_opts = Merge [''k'']"
  "t_cols demo_target = demo_cols" "t_cols demo_staged = demo_cols"
  by (simp_all add: demo_opts_def demo_target_def demo_staged_def)

lemma demo_staging:
  "merge_from_staging (demo_engine known) demo_opts [''k''] ''tmp'' demo_result ([quoted ''t'' \<mapsto> demo_target, quoted ''tmp'' \<mapsto> demo_staged], None) =
     merge_rows (demo_engine known) demo_opts [''k''] (quoted ''tmp'') demo_cols [] demo_result
       ([quoted ''t'' \<mapsto> demo_target, quoted ''tmp'' \<mapsto> demo_staged], None)"
  using demo_tables(3)
  by (simp add: merge_from_staging_def merge_existing_def and_then_def demo_tables demo_checks alter_table_add_columns_in_def
      demo_sel Let_def del: check_keys.simps check_shared.simps)

lemma demo_rows_merge:
  assumes "set known \<subseteq> set demo_statements" "DeleteMatching [''k''] \<in> set known"
  shows "isl (fst (merge_rows (demo_engine known) demo_opts [''k''] (quoted ''tmp'') demo_cols [] demo_result
      ([quoted ''t'' \<mapsto> demo_target, quoted ''tmp'' \<mapsto> demo_staged], None))) \<longleftrightarrow> InsertAll [''k'', ''v''] \<notin> set known"
    and "snd (snd (merge_rows (demo_engine known) demo_opts [''k''] (quoted ''tmp'') demo_cols [] demo_result
      ([quoted ''t'' \<mapsto> demo_target, quoted ''tmp'' \<mapsto> demo_staged], None))) = None"
  using assms(2) demo_tables(3) merge_sqls [of None "''t''" "''tmp''"]
  by (simp_all add: merge_rows_def in_transaction_def and_then_def demo_tables demo_checks demo_sel Let_def demo_command [OF assms(1)] demo_run_def)

lemma demo_merge:
  assumes "set known \<subseteq> set demo_statements" "DeleteMatching [''k''] \<in> set known"
  obtains r s' where "merge_via_temp_table (demo_engine known) demo_opts ''tmp'' demo_load demo_state = (r, s')"
    and "isl r \<longleftrightarrow> InsertAll [''k'', ''v''] \<notin> set known" and "snd s' = None"
proof -
  obtain r0 s0 where m: "merge_rows (demo_engine known) demo_opts [''k''] (quoted ''tmp'') demo_cols [] demo_result
      ([quoted ''t'' \<mapsto> demo_target, quoted ''tmp'' \<mapsto> demo_staged], None) = (r0, s0)" by (rule prod.exhaust)
  note facts = demo_rows_merge [OF assms, unfolded m fst_conv snd_conv]
  have q: "qualified_table (demo_opts\<lparr>io_table := ''tmp'', io_mode := Replace\<rparr>) = quoted ''tmp''"
    by (simp add: qualified_table_def demo_sel demo_tables)
  have load: "demo_load opts demo_state = (Inr demo_result, ([quoted ''t'' \<mapsto> demo_target, quoted ''tmp'' \<mapsto> demo_staged], None))" for opts
    using demo_tables(3) by (simp add: demo_load_def demo_state_def)
  have saved: "snd (drop_staging (demo_engine known) (quoted ''tmp'') s0) = None"
    using drop_staging_outcome(1) [OF demo_merge_laws [OF assms(1)], of s0] facts(2) by (simp add: demo_tables)
  have run: "merge_via_temp_table (demo_engine known) demo_opts ''tmp'' demo_load demo_state =
      (case r0 of Inl e \<Rightarrow> (Inl e, drop_staging (demo_engine known) (quoted ''tmp'') s0)
       | Inr (res, renamed) \<Rightarrow> (Inr res, if renamed then s0 else drop_staging (demo_engine known) (quoted ''tmp'') s0))"
    by (simp add: merge_via_temp_table_def demo_sel q load demo_staging m split: sum.split)
  obtain r s' where rs: "merge_via_temp_table (demo_engine known) demo_opts ''tmp'' demo_load demo_state = (r, s')"
    by (rule prod.exhaust)
  have "isl r \<longleftrightarrow> isl r0" "snd s' = None"
    using rs [unfolded run] saved facts(2) by (auto split: sum.splits)
  with facts(1) show ?thesis by (intro that [OF rs]) simp_all
qed

lemma demo_after: "rows_after [''k''] demo_target demo_staged = {#demo_row ''1'' ''new'', demo_row ''2'' ''kept''#}"
  by (simp add: rows_after_def matches_def demo_target_def demo_staged_def demo_row_def)

theorem merge_is_upsert_witness:
  "\<exists>res s' T'. merge_via_temp_table (demo_engine demo_statements) demo_opts ''tmp'' demo_load demo_state = (Inr res, s') \<and>
     fst s' (quoted ''t'') = Some T' \<and> t_rows T' = {#demo_row ''1'' ''new'', demo_row ''2'' ''kept''#}"
proof -
  have known: "set demo_statements \<subseteq> set demo_statements" "DeleteMatching [''k''] \<in> set demo_statements"
    by (simp_all add: demo_statements_def)
  obtain r s' where run: "merge_via_temp_table (demo_engine demo_statements) demo_opts ''tmp'' demo_load demo_state = (r, s')"
    and "\<not> isl r" "snd s' = None"
    using demo_merge [OF known] by (metis demo_statements_def list.set_intros)
  then obtain res where run: "merge_via_temp_table (demo_engine demo_statements) demo_opts ''tmp'' demo_load demo_state = (Inr res, s')"
    by (cases r) auto
  have wf: "\<forall>T. fst demo_state (qualified_table demo_opts) = Some T \<longrightarrow> table_wf T"
    by (simp add: demo_state_def demo_tables)
  have "\<exists>T'. fst s' (quoted ''t'') = Some T' \<and> merged_table [''k''] demo_target demo_staged T'"
    using merge_is_upsert [where tables = fst and saved = snd and tmp = "''tmp''" and load = demo_load and opts = demo_opts,
        unfolded demo_sel demo_tables(4,5), OF demo_merge_laws [OF known(1)] _ refl _ wf [unfolded demo_tables(4)] demo_load_only run]
    by (auto simp: demo_state_def demo_load_def)
  then show ?thesis
    using run by (auto simp: merged_table_def demo_after)
qed

theorem failed_merge_keeps_rows_witness:
  "\<exists>e s' T'. merge_via_temp_table (demo_engine [DeleteMatching [''k'']]) demo_opts ''tmp'' demo_load demo_state = (Inl e, s') \<and>
     fst s' (quoted ''t'') = Some T' \<and> (t_rows T' = t_rows demo_target \<or> merged_table [''k''] demo_target demo_staged T')"
proof -
  have known: "set [DeleteMatching [''k'']] \<subseteq> set demo_statements" "DeleteMatching [''k''] \<in> set [DeleteMatching [''k'']]"
    by (simp_all add: demo_statements_def)
  obtain r s' where "merge_via_temp_table (demo_engine [DeleteMatching [''k'']]) demo_opts ''tmp'' demo_load demo_state = (r, s')"
    and "isl r" and closed: "snd s' = None"
    using demo_merge [OF known] by force
  then obtain e where run: "merge_via_temp_table (demo_engine [DeleteMatching [''k'']]) demo_opts ''tmp'' demo_load demo_state = (Inl e, s')"
    by (cases r) auto
  have wf: "\<forall>T. fst demo_state (qualified_table demo_opts) = Some T \<longrightarrow> table_wf T"
    by (simp add: demo_state_def demo_tables)
  have "\<exists>T'. fst s' (quoted ''t'') = Some T' \<and> (t_rows T' = t_rows demo_target \<or> merged_table [''k''] demo_target demo_staged T')"
    using failed_merge_keeps_rows [where tables = fst and saved = snd and tmp = "''tmp''" and load = demo_load and opts = demo_opts,
        unfolded demo_sel demo_tables(4,5), OF demo_merge_laws [OF known(1)] _ refl _ wf [unfolded demo_tables(4)] demo_load_only run closed]
    by (auto simp: demo_state_def demo_load_def)
  with run show ?thesis by blast
qed

end
