(* ===== verification/Arrow_Rows.thy ===== *)
theory Arrow_Rows
  imports Row_Access Numeric_Decimal Sql_Types
begin

text \<open>
  Rows in Arrow form, \<open>hyperdb-api/src/arrow_result.rs\<close>: the typed columns a gRPC query returns, reading a
  value of a column with the conversions of \<open>FromArrowValue\<close>, the rows of a batch, and the SQL types of Arrow
  types.

  The arrays are those of the \<open>arrow\<close> crate: a column is one list with \<open>None\<close> for a null slot, and
  its constructor is the type \<open>downcast_ref\<close> recognizes. Reading past the end of an array panics and is
  \<open>None\<close>. Decoding the IPC byte stream is the work of the \<open>arrow\<close> crate; an \<open>ArrowRowset\<close> holds what it delivers,
  a batch or an error at each step.
\<close>

section \<open>Arrays and batches\<close>

datatype TimeUnit = Second | Millisecond | Microsecond | Nanosecond

text \<open>The type descriptor of a field. \<open>DOther\<close> stands for the types the code has no case for.\<close>

datatype DataType =
    DBoolean | DInt8 | DInt16 | DInt32 | DInt64 | DUInt8 | DUInt16 | DUInt32 | DUInt64
  | DFloat16 | DFloat32 | DFloat64 | DUtf8 | DLargeUtf8 | DBinary | DLargeBinary
  | DDate32 | DDate64 | DTime32 TimeUnit | DTime64 TimeUnit | DTimestamp TimeUnit "string option"
  | DDecimal128 u8 i8 | DDecimal256 u8 i8 | DInterval | DList | DStruct | DOther

record MonthDayNano =
  mdn_months :: i32
  mdn_days :: i32
  mdn_nanoseconds :: i64

datatype ArrowArray =
    Int16Array "i16 option list"
  | Int32Array "i32 option list"
  | Int64Array "i64 option list"
  | Float32Array "f32 option list"
  | Float64Array "f64 option list"
  | BooleanArray "bool option list"
  | StringArray "string option list"
  | LargeStringArray "string option list"
  | BinaryArray "bytes option list"
  | LargeBinaryArray "bytes option list"
  | Date32Array "i32 option list"
  | Time64MicrosecondArray "i64 option list"
  | TimestampMicrosecondArray "string option" "i64 option list" \<comment> \<open>the time zone of the type\<close>
  | IntervalMonthDayNanoArray "MonthDayNano option list"
  | Decimal128Array u8 i8 "i128 option list" \<comment> \<open>precision and scale of the type\<close>
  | Decimal256Array u8 i8 "256 word option list"
  | OtherArray DataType "bool list" \<comment> \<open>any other type; \<open>True\<close> for a null slot\<close>

fun nulls :: "ArrowArray \<Rightarrow> bool list" where
  "nulls (Int16Array xs) = map Option.is_none xs"
| "nulls (Int32Array xs) = map Option.is_none xs"
| "nulls (Int64Array xs) = map Option.is_none xs"
| "nulls (Float32Array xs) = map Option.is_none xs"
| "nulls (Float64Array xs) = map Option.is_none xs"
| "nulls (BooleanArray xs) = map Option.is_none xs"
| "nulls (StringArray xs) = map Option.is_none xs"
| "nulls (LargeStringArray xs) = map Option.is_none xs"
| "nulls (BinaryArray xs) = map Option.is_none xs"
| "nulls (LargeBinaryArray xs) = map Option.is_none xs"
| "nulls (Date32Array xs) = map Option.is_none xs"
| "nulls (Time64MicrosecondArray xs) = map Option.is_none xs"
| "nulls (TimestampMicrosecondArray tz xs) = map Option.is_none xs"
| "nulls (IntervalMonthDayNanoArray xs) = map Option.is_none xs"
| "nulls (Decimal128Array p s xs) = map Option.is_none xs"
| "nulls (Decimal256Array p s xs) = map Option.is_none xs"
| "nulls (OtherArray t ns) = ns"

definition array_is_null :: "ArrowArray \<Rightarrow> nat \<Rightarrow> bool option" where
  "array_is_null a i = (if i < length (nulls a) then Some (nulls a ! i) else None)"

text \<open>All columns of a batch have its number of rows.\<close>

record RecordBatch =
  batch_columns :: "ArrowArray list"
  num_rows :: nat

definition batch_wf :: "RecordBatch \<Rightarrow> bool" where
  "batch_wf b \<longleftrightarrow> list_all (\<lambda>a. length (nulls a) = num_rows b) (batch_columns b)"

section \<open>\<open>FromArrowValue\<close>\<close>

text \<open>A conversion gives \<open>None\<close> when it panics, \<open>Some None\<close> when there is no value. The first test of every
  conversion: a null slot is no value.\<close>

definition unless_null :: "ArrowArray \<Rightarrow> nat \<Rightarrow> 'a option \<Rightarrow> 'a option option" where
  "unless_null a i v = map_option (\<lambda>isnull. if isnull then None else v) (array_is_null a i)"

text \<open>\<open>try_from\<close> between signed integers.\<close>

definition try_narrow :: "('a::len) word \<Rightarrow> ('b::len) word option" where
  "try_narrow w =
     (if - (2 ^ (LENGTH('b) - 1)) \<le> sint w \<and> sint w < 2 ^ (LENGTH('b) - 1) then Some (word_of_int (sint w)) else None)"

definition i16_from_arrow :: "ArrowArray \<Rightarrow> nat \<Rightarrow> i16 option option" where
  "i16_from_arrow a i = unless_null a i
     (case a of
        Int16Array xs \<Rightarrow> xs ! i
      | Int32Array xs \<Rightarrow> Option.bind (xs ! i) try_narrow
      | Int64Array xs \<Rightarrow> Option.bind (xs ! i) try_narrow
      | _ \<Rightarrow> None)"

definition i32_from_arrow :: "ArrowArray \<Rightarrow> nat \<Rightarrow> i32 option option" where
  "i32_from_arrow a i = unless_null a i
     (case a of
        Int32Array xs \<Rightarrow> xs ! i
      | Int16Array xs \<Rightarrow> map_option scast (xs ! i)
      | Int64Array xs \<Rightarrow> Option.bind (xs ! i) try_narrow
      | _ \<Rightarrow> None)"

definition i64_from_arrow :: "ArrowArray \<Rightarrow> nat \<Rightarrow> i64 option option" where
  "i64_from_arrow a i = unless_null a i
     (case a of
        Int64Array xs \<Rightarrow> xs ! i
      | Int32Array xs \<Rightarrow> map_option scast (xs ! i)
      | Int16Array xs \<Rightarrow> map_option scast (xs ! i)
      | Date32Array xs \<Rightarrow> map_option scast (xs ! i)
      | TimestampMicrosecondArray tz xs \<Rightarrow> xs ! i
      | _ \<Rightarrow> None)"

text \<open>The conversions between floats are arguments: \<open>f64 as f32\<close> and \<open>f64::from(f32)\<close>.\<close>

definition f32_from_arrow :: "(f64 \<Rightarrow> f32) \<Rightarrow> ArrowArray \<Rightarrow> nat \<Rightarrow> f32 option option" where
  "f32_from_arrow as_f32 a i = unless_null a i
     (case a of
        Float32Array xs \<Rightarrow> xs ! i
      | Float64Array xs \<Rightarrow> map_option as_f32 (xs ! i)
      | _ \<Rightarrow> None)"

definition f64_from_arrow :: "(f32 \<Rightarrow> f64) \<Rightarrow> ArrowArray \<Rightarrow> nat \<Rightarrow> f64 option option" where
  "f64_from_arrow from_f32 a i = unless_null a i
     (case a of
        Float64Array xs \<Rightarrow> xs ! i
      | Float32Array xs \<Rightarrow> map_option from_f32 (xs ! i)
      | _ \<Rightarrow> None)"

definition bool_from_arrow :: "ArrowArray \<Rightarrow> nat \<Rightarrow> bool option option" where
  "bool_from_arrow a i = unless_null a i (case a of BooleanArray xs \<Rightarrow> xs ! i | _ \<Rightarrow> None)"

definition string_from_arrow :: "ArrowArray \<Rightarrow> nat \<Rightarrow> string option option" where
  "string_from_arrow a i = unless_null a i
     (case a of StringArray xs \<Rightarrow> xs ! i | LargeStringArray xs \<Rightarrow> xs ! i | _ \<Rightarrow> None)"

definition bytes_from_arrow :: "ArrowArray \<Rightarrow> nat \<Rightarrow> bytes option option" where
  "bytes_from_arrow a i = unless_null a i
     (case a of BinaryArray xs \<Rightarrow> xs ! i | LargeBinaryArray xs \<Rightarrow> xs ! i | _ \<Rightarrow> None)"

section \<open>Rows, chunks and row sets\<close>

record ArrowRow =
  arrow_batch :: RecordBatch
  arrow_index :: nat

definition ArrowRow_column_count :: "ArrowRow \<Rightarrow> nat" where
  "ArrowRow_column_count r = length (batch_columns (arrow_batch r))"

definition ArrowRow_get :: "(ArrowArray \<Rightarrow> nat \<Rightarrow> 'a option option) \<Rightarrow> ArrowRow \<Rightarrow> nat \<Rightarrow> 'a option option" where
  "ArrowRow_get from_column r col =
     (if col \<ge> length (batch_columns (arrow_batch r)) then Some None
      else from_column (batch_columns (arrow_batch r) ! col) (arrow_index r))"

definition ArrowRow_is_null :: "ArrowRow \<Rightarrow> nat \<Rightarrow> bool option" where
  "ArrowRow_is_null r col =
     (if col \<ge> length (batch_columns (arrow_batch r)) then Some True
      else array_is_null (batch_columns (arrow_batch r) ! col) (arrow_index r))"

record ArrowChunk =
  chunk_batch :: RecordBatch

definition ArrowChunk_len :: "ArrowChunk \<Rightarrow> nat" where
  "ArrowChunk_len ch = num_rows (chunk_batch ch)"

definition ArrowChunk_is_empty :: "ArrowChunk \<Rightarrow> bool" where
  "ArrowChunk_is_empty ch \<longleftrightarrow> num_rows (chunk_batch ch) = 0"

definition ArrowChunk_row :: "ArrowChunk \<Rightarrow> nat \<Rightarrow> ArrowRow option" where
  "ArrowChunk_row ch i =
     (if i < num_rows (chunk_batch ch) then Some \<lparr>arrow_batch = chunk_batch ch, arrow_index = i\<rparr> else None)"

definition ArrowChunk_first :: "ArrowChunk \<Rightarrow> ArrowRow option" where
  "ArrowChunk_first ch = ArrowChunk_row ch 0"

record ArrowChunkIter =
  iter_chunk :: ArrowChunk
  iter_index :: nat

definition ArrowChunk_iter :: "ArrowChunk \<Rightarrow> ArrowChunkIter" where
  "ArrowChunk_iter ch = \<lparr>iter_chunk = ch, iter_index = 0\<rparr>"

definition ArrowChunkIter_next :: "ArrowChunkIter \<Rightarrow> ArrowRow option \<times> ArrowChunkIter" where
  "ArrowChunkIter_next it =
     (if iter_index it < ArrowChunk_len (iter_chunk it) then
        (Some \<lparr>arrow_batch = chunk_batch (iter_chunk it), arrow_index = iter_index it\<rparr>,
         it\<lparr>iter_index := iter_index it + 1\<rparr>)
      else (None, it))"

text \<open>What the source and its decoder deliver, in order; after it, the end.\<close>

record 'e ArrowRowset =
  arrow_fields :: "(string \<times> DataType) list"
  arrow_batches :: "('e + RecordBatch) list"

definition ArrowRowset_next_chunk :: "'e ArrowRowset \<Rightarrow> ('e + ArrowChunk option) \<times> 'e ArrowRowset" where
  "ArrowRowset_next_chunk rs =
     (case arrow_batches rs of
        [] \<Rightarrow> (Inr None, rs)
      | Inl e # rest \<Rightarrow> (Inl e, rs\<lparr>arrow_batches := rest\<rparr>)
      | Inr b # rest \<Rightarrow> (Inr (Some \<lparr>chunk_batch = b\<rparr>), rs\<lparr>arrow_batches := rest\<rparr>))"

section \<open>SQL types of Arrow types\<close>

definition decimal_scale_to_u32 :: "i8 \<Rightarrow> u32" where
  "decimal_scale_to_u32 s = (if sint s < 0 then 0 else word_of_int (sint s))"

fun arrow_type_to_sql_type :: "DataType \<Rightarrow> SqlType" where
  "arrow_type_to_sql_type DBoolean = SqlBool"
| "arrow_type_to_sql_type DInt8 = SqlSmallInt"
| "arrow_type_to_sql_type DInt16 = SqlSmallInt"
| "arrow_type_to_sql_type DInt32 = SqlInt"
| "arrow_type_to_sql_type DInt64 = SqlBigInt"
| "arrow_type_to_sql_type DUInt8 = SqlSmallInt"
| "arrow_type_to_sql_type DUInt16 = SqlSmallInt"
| "arrow_type_to_sql_type DUInt32 = SqlInt"
| "arrow_type_to_sql_type DUInt64 = SqlBigInt"
| "arrow_type_to_sql_type DFloat16 = SqlFloat"
| "arrow_type_to_sql_type DFloat32 = SqlFloat"
| "arrow_type_to_sql_type DFloat64 = SqlDouble"
| "arrow_type_to_sql_type DUtf8 = SqlText"
| "arrow_type_to_sql_type DLargeUtf8 = SqlText"
| "arrow_type_to_sql_type DBinary = SqlByteA"
| "arrow_type_to_sql_type DLargeBinary = SqlByteA"
| "arrow_type_to_sql_type DDate32 = SqlDate"
| "arrow_type_to_sql_type DDate64 = SqlDate"
| "arrow_type_to_sql_type (DTime32 _) = SqlTime"
| "arrow_type_to_sql_type (DTime64 _) = SqlTime"
| "arrow_type_to_sql_type (DTimestamp _ None) = SqlTimestamp"
| "arrow_type_to_sql_type (DTimestamp _ (Some _)) = SqlTimestampTz"
| "arrow_type_to_sql_type (DDecimal128 p s) =
     (case try_numeric (ucast p) (decimal_scale_to_u32 s) of Some t \<Rightarrow> t | None \<Rightarrow> SqlText)"
| "arrow_type_to_sql_type (DDecimal256 p s) =
     (case try_numeric (ucast p) (decimal_scale_to_u32 s) of Some t \<Rightarrow> t | None \<Rightarrow> SqlText)"
| "arrow_type_to_sql_type DInterval = SqlInterval"
| "arrow_type_to_sql_type _ = SqlText"

fun arrow_type_to_sql_name :: "DataType \<Rightarrow> string" where
  "arrow_type_to_sql_name DBoolean = ''BOOLEAN''"
| "arrow_type_to_sql_name DInt8 = ''SMALLINT''"
| "arrow_type_to_sql_name DInt16 = ''SMALLINT''"
| "arrow_type_to_sql_name DInt32 = ''INTEGER''"
| "arrow_type_to_sql_name DInt64 = ''BIGINT''"
| "arrow_type_to_sql_name DUInt8 = ''SMALLINT''"
| "arrow_type_to_sql_name DUInt16 = ''INTEGER''"
| "arrow_type_to_sql_name DUInt32 = ''BIGINT''"
| "arrow_type_to_sql_name DUInt64 = ''BIGINT''"
| "arrow_type_to_sql_name DFloat16 = ''REAL''"
| "arrow_type_to_sql_name DFloat32 = ''REAL''"
| "arrow_type_to_sql_name DFloat64 = ''DOUBLE PRECISION''"
| "arrow_type_to_sql_name DUtf8 = ''TEXT''"
| "arrow_type_to_sql_name DLargeUtf8 = ''TEXT''"
| "arrow_type_to_sql_name DBinary = ''BYTEA''"
| "arrow_type_to_sql_name DLargeBinary = ''BYTEA''"
| "arrow_type_to_sql_name DDate32 = ''DATE''"
| "arrow_type_to_sql_name DDate64 = ''DATE''"
| "arrow_type_to_sql_name (DTime32 _) = ''TIME''"
| "arrow_type_to_sql_name (DTime64 _) = ''TIME''"
| "arrow_type_to_sql_name (DTimestamp _ None) = ''TIMESTAMP''"
| "arrow_type_to_sql_name (DTimestamp _ (Some _)) = ''TIMESTAMPTZ''"
| "arrow_type_to_sql_name (DDecimal128 p s) =
     ''NUMERIC('' @ show_nat (unat p) @ '', '' @ show_int (sint s) @ '')''"
| "arrow_type_to_sql_name (DDecimal256 p s) =
     ''NUMERIC('' @ show_nat (unat p) @ '', '' @ show_int (sint s) @ '')''"
| "arrow_type_to_sql_name DInterval = ''INTERVAL''"
| "arrow_type_to_sql_name DList = ''ARRAY''"
| "arrow_type_to_sql_name DStruct = ''RECORD''"
| "arrow_type_to_sql_name DOther = ''UNKNOWN''"

section \<open>Laws\<close>

text \<open>A typed column read at its own type, inside its length.\<close>

lemma unless_null_inside: "i < length (nulls a) \<Longrightarrow> unless_null a i v = Some (if nulls a ! i then None else v)"
  by (simp add: unless_null_def array_is_null_def)

lemma null_slot: "i < length xs \<Longrightarrow> (if map Option.is_none xs ! i then None else xs ! i) = xs ! i"
  by (simp add: Option.is_none_def)

lemma own_column:
  "i < length s \<Longrightarrow> i16_from_arrow (Int16Array s) i = Some (s ! i)"
  "i < length n \<Longrightarrow> i32_from_arrow (Int32Array n) i = Some (n ! i)"
  "i < length l \<Longrightarrow> i64_from_arrow (Int64Array l) i = Some (l ! i)"
  "i < length f \<Longrightarrow> f32_from_arrow c (Float32Array f) i = Some (f ! i)"
  "i < length d \<Longrightarrow> f64_from_arrow c' (Float64Array d) i = Some (d ! i)"
  "i < length b \<Longrightarrow> bool_from_arrow (BooleanArray b) i = Some (b ! i)"
  "i < length t \<Longrightarrow> string_from_arrow (StringArray t) i = Some (t ! i)"
  "i < length bs \<Longrightarrow> bytes_from_arrow (BinaryArray bs) i = Some (bs ! i)"
  by (simp_all add: i16_from_arrow_def i32_from_arrow_def i64_from_arrow_def f32_from_arrow_def f64_from_arrow_def
      bool_from_arrow_def string_from_arrow_def bytes_from_arrow_def unless_null_inside Option.is_none_def)

text \<open>A narrowing that gives a value gives the same number.\<close>

lemma try_narrow_value:
  assumes "try_narrow (w :: ('a::len) word) = Some (v :: ('b::len) word)"
  shows "sint v = sint w"
proof -
  have b: "- (2 ^ (LENGTH('b) - 1)) \<le> sint w" "sint w < 2 ^ (LENGTH('b) - 1)" "v = word_of_int (sint w)"
    using assms by (auto simp: try_narrow_def split: if_splits)
  then show ?thesis
    by (simp add: signed_scast_eq signed_take_bit_int_eq_self)
qed

lemma widened_value:
  "sint (scast (v :: i16) :: i32) = sint v" "sint (scast (v :: i16) :: i64) = sint v"
  "sint (scast (w :: i32) :: i64) = sint w"
  using sint_greater_eq [of v] sint_less [of v] sint_i32_bounds [of w]
  by (simp_all add: signed_scast_eq signed_take_bit_int_eq_self)

text \<open>An integer column of any width gives the number it holds or nothing: no conversion changes a
  value.\<close>

theorem arrow_integers_keep_value:
  assumes "i < length (nulls a)"
    and "a = Int16Array s \<and> s ! i = Some v \<and> x = sint v \<or> a = Int32Array n \<and> n ! i = Some w \<and> x = sint w \<or>
      a = Int64Array l \<and> l ! i = Some u \<and> x = sint u"
  shows "i16_from_arrow a i = Some (Some r) \<Longrightarrow> sint r = x"
    and "i32_from_arrow a i = Some (Some r') \<Longrightarrow> sint r' = x"
    and "i64_from_arrow a i = Some (Some r'') \<Longrightarrow> sint r'' = x"
  using assms
  by (auto simp: i16_from_arrow_def i32_from_arrow_def i64_from_arrow_def unless_null_inside widened_value
      dest: try_narrow_value split: if_splits)

end
