(* ===== verification/Result_Sets.thy ===== *)
theory Result_Sets
  imports Arrow_Rows Value_Codec Bulk_Insert
begin

text \<open>
  Query results, \<open>hyperdb-api/src/result.rs\<close> and \<open>row_accessor.rs\<close>: a row over either transport with its typed
  accessors, the schema of a result, the row set that hands out chunks, the two row iterators, and the
  lookup of columns by name.

  A row set over TCP owns a stream that holds the client's mutex; the transport it was opened on is passed
  next to it. Dropping the row set drops its stream first and the prepared statement it owns after it.
  A typed accessor gives \<open>None\<close> when it panics, \<open>Some None\<close> when there is no value. The \<open>Debug\<close> text of a
  string and the names of Rust types in messages are arguments.
\<close>

section \<open>Schemas\<close>

record ResultColumn =
  rc_name :: string
  rc_type :: SqlType
  rc_index :: nat

record ResultSchema =
  schema_columns :: "ResultColumn list"

definition ResultSchema_new :: ResultSchema where
  "ResultSchema_new = \<lparr>schema_columns = []\<rparr>"

definition Schema_add_column :: "string \<Rightarrow> SqlType \<Rightarrow> ResultSchema \<Rightarrow> ResultSchema" where
  "Schema_add_column name t s =
     s\<lparr>schema_columns := schema_columns s @ [\<lparr>rc_name = name, rc_type = t, rc_index = length (schema_columns s)\<rparr>]\<rparr>"

definition Schema_column_count :: "ResultSchema \<Rightarrow> nat" where
  "Schema_column_count s = length (schema_columns s)"

text \<open>Indexing out of bounds panics.\<close>

definition Schema_column :: "ResultSchema \<Rightarrow> nat \<Rightarrow> ResultColumn option" where
  "Schema_column s i = (if i < length (schema_columns s) then Some (schema_columns s ! i) else None)"

definition Schema_column_by_name :: "ResultSchema \<Rightarrow> string \<Rightarrow> ResultColumn option" where
  "Schema_column_by_name s name = List.find (\<lambda>c. rc_name c = name) (schema_columns s)"

definition Schema_column_index :: "ResultSchema \<Rightarrow> string \<Rightarrow> nat option" where
  "Schema_column_index s name = position (\<lambda>c. rc_name c = name) (schema_columns s)"

definition schema_of_columns :: "Column list \<Rightarrow> ResultSchema" where
  "schema_of_columns cols = \<lparr>schema_columns =
     map (\<lambda>(i, col). \<lparr>rc_name = Column.col_name col,
         rc_type = from_oid_and_modifier (col_type_oid col) (col_type_modifier col), rc_index = i\<rparr>)
       (enumerate 0 cols)\<rparr>"

definition schema_of_fields :: "(string \<times> DataType) list \<Rightarrow> ResultSchema" where
  "schema_of_fields fs = \<lparr>schema_columns =
     map (\<lambda>(i, name, t). \<lparr>rc_name = name, rc_type = arrow_type_to_sql_type t, rc_index = i\<rparr>) (enumerate 0 fs)\<rparr>"

section \<open>Rows\<close>

datatype RowInner = RowTcp StreamRow | RowArrow RecordBatch nat

record ApiRow =
  row_inner :: RowInner
  row_schema :: "ResultSchema option"

definition ApiRow_sql_type :: "ApiRow \<Rightarrow> nat \<Rightarrow> SqlType option" where
  "ApiRow_sql_type r idx =
     (case row_schema r of
        None \<Rightarrow> None
      | Some s \<Rightarrow> if idx < Schema_column_count s then map_option rc_type (Schema_column s idx) else None)"

definition arrow_column :: "RecordBatch \<Rightarrow> nat \<Rightarrow> ArrowArray option" where
  "arrow_column b idx = (if idx < length (batch_columns b) then Some (batch_columns b ! idx) else None)"

text \<open>\<open>Self::arrow_column(batch, idx)?\<close> and a conversion of the column.\<close>

definition on_arrow :: "(ArrowArray \<Rightarrow> nat \<Rightarrow> 'a option option) \<Rightarrow> RecordBatch \<Rightarrow> nat \<Rightarrow> nat \<Rightarrow> 'a option option" where
  "on_arrow from_column b i idx =
     (case arrow_column b idx of None \<Rightarrow> Some None | Some col \<Rightarrow> from_column col i)"

definition per_transport ::
  "(StreamRow \<Rightarrow> nat \<Rightarrow> 'a option) \<Rightarrow> (ArrowArray \<Rightarrow> nat \<Rightarrow> 'a option option) \<Rightarrow> ApiRow \<Rightarrow> nat \<Rightarrow> 'a option option" where
  "per_transport tcp arrow r idx =
     (case row_inner r of
        RowTcp row \<Rightarrow> Some (tcp row idx)
      | RowArrow b i \<Rightarrow> on_arrow arrow b i idx)"

definition ApiRow_get_i16 :: "ApiRow \<Rightarrow> nat \<Rightarrow> i16 option option" where
  "ApiRow_get_i16 = per_transport Stream_get_i16 i16_from_arrow"

definition ApiRow_get_i32 :: "ApiRow \<Rightarrow> nat \<Rightarrow> i32 option option" where
  "ApiRow_get_i32 = per_transport Stream_get_i32 i32_from_arrow"

definition ApiRow_get_i64 :: "ApiRow \<Rightarrow> nat \<Rightarrow> i64 option option" where
  "ApiRow_get_i64 = per_transport Stream_get_i64 i64_from_arrow"

definition ApiRow_get_f32 :: "(f64 \<Rightarrow> f32) \<Rightarrow> ApiRow \<Rightarrow> nat \<Rightarrow> f32 option option" where
  "ApiRow_get_f32 as_f32 = per_transport Stream_get_f32 (f32_from_arrow as_f32)"

definition ApiRow_get_f64 :: "(f32 \<Rightarrow> f64) \<Rightarrow> ApiRow \<Rightarrow> nat \<Rightarrow> f64 option option" where
  "ApiRow_get_f64 from_f32 = per_transport Stream_get_f64 (f64_from_arrow from_f32)"

definition ApiRow_get_bool :: "ApiRow \<Rightarrow> nat \<Rightarrow> bool option option" where
  "ApiRow_get_bool = per_transport Stream_get_bool bool_from_arrow"

definition ApiRow_get_string :: "ApiRow \<Rightarrow> nat \<Rightarrow> string option option" where
  "ApiRow_get_string = per_transport Stream_get_string string_from_arrow"

definition ApiRow_get_bytes :: "ApiRow \<Rightarrow> nat \<Rightarrow> bytes option option" where
  "ApiRow_get_bytes = per_transport Stream_get_bytes bytes_from_arrow"

definition ApiRow_is_null :: "ApiRow \<Rightarrow> nat \<Rightarrow> bool option" where
  "ApiRow_is_null r idx =
     (case row_inner r of
        RowTcp row \<Rightarrow> Some (Stream_is_null row idx)
      | RowArrow b i \<Rightarrow> (case arrow_column b idx of None \<Rightarrow> Some True | Some col \<Rightarrow> array_is_null col i))"

definition ApiRow_column_count :: "ApiRow \<Rightarrow> nat" where
  "ApiRow_column_count r =
     (case row_inner r of
        RowTcp row \<Rightarrow> Stream_column_count row
      | RowArrow b i \<Rightarrow> length (batch_columns b))"

text \<open>A slot of an array of the right type: out of range it panics, a null is no value.\<close>

definition slot :: "'v option list \<Rightarrow> nat \<Rightarrow> ('v \<Rightarrow> 'a option option) \<Rightarrow> 'a option option" where
  "slot xs i f = (if i < length xs then (case xs ! i of None \<Rightarrow> Some None | Some v \<Rightarrow> f v) else None)"

definition UNIX_TO_HYPER_DAYS :: int where "UNIX_TO_HYPER_DAYS = 10957"
definition UNIX_TO_HYPER_MICROS :: int where "UNIX_TO_HYPER_MICROS = 946684800000000"

definition date_from_arrow :: "ArrowArray \<Rightarrow> nat \<Rightarrow> Date option option" where
  "date_from_arrow a i =
     (case a of
        Date32Array xs \<Rightarrow> slot xs i (\<lambda>unix_days.
          map_option (\<lambda>d. Some (Date_from_days (word_of_int d))) (chk32 (sint unix_days - UNIX_TO_HYPER_DAYS)))
      | _ \<Rightarrow> Some None)"

definition time_from_arrow :: "ArrowArray \<Rightarrow> nat \<Rightarrow> Time option option" where
  "time_from_arrow a i =
     (case a of
        Time64MicrosecondArray xs \<Rightarrow> slot xs i (\<lambda>us.
          Some (if sint us < 0 then None else Some \<lparr>time_micros = us\<rparr>))
      | _ \<Rightarrow> Some None)"

definition timestamp_from_arrow :: "ArrowArray \<Rightarrow> nat \<Rightarrow> Timestamp option option" where
  "timestamp_from_arrow a i =
     (case a of
        TimestampMicrosecondArray tz xs \<Rightarrow> slot xs i (\<lambda>unix_micros.
          map_option (\<lambda>us. Some \<lparr>ts_micros = word_of_int us\<rparr>) (chk64 (sint unix_micros - UNIX_TO_HYPER_MICROS)))
      | _ \<Rightarrow> Some None)"

definition offset_timestamp_from_arrow :: "ArrowArray \<Rightarrow> nat \<Rightarrow> OffsetTimestamp option option" where
  "offset_timestamp_from_arrow a i =
     map_option (map_option (\<lambda>t. \<lparr>ots_timestamp = t, offset_minutes = 0\<rparr>)) (timestamp_from_arrow a i)"

definition interval_from_arrow :: "ArrowArray \<Rightarrow> nat \<Rightarrow> Interval option option" where
  "interval_from_arrow a i =
     (case a of
        IntervalMonthDayNanoArray xs \<Rightarrow> slot xs i (\<lambda>v.
          Some (Some (Interval_new (mdn_months v) (mdn_days v) (word_of_int (sint (mdn_nanoseconds v) sdiv 1000)))))
      | _ \<Rightarrow> Some None)"

definition numeric_from_arrow :: "ArrowArray \<Rightarrow> nat \<Rightarrow> Numeric option option" where
  "numeric_from_arrow a i =
     (case a of
        Decimal128Array p s xs \<Rightarrow>
          if sint s < 0 then Some None
          else slot xs i (\<lambda>raw. Some (Some (Numeric_new raw s)))
      | Decimal256Array p s xs \<Rightarrow>
          if sint s < 0 then Some None
          else slot xs i (\<lambda>raw. Some (map_option (\<lambda>v. Numeric_new v s) (try_narrow raw)))
      | _ \<Rightarrow> Some None)"

definition ApiRow_get_date :: "ApiRow \<Rightarrow> nat \<Rightarrow> Date option option" where
  "ApiRow_get_date = per_transport (hyper_from_stream_row Date_FromHyperBinary) date_from_arrow"

definition ApiRow_get_time :: "ApiRow \<Rightarrow> nat \<Rightarrow> Time option option" where
  "ApiRow_get_time = per_transport (hyper_from_stream_row Time_FromHyperBinary) time_from_arrow"

definition ApiRow_get_timestamp :: "ApiRow \<Rightarrow> nat \<Rightarrow> Timestamp option option" where
  "ApiRow_get_timestamp = per_transport (hyper_from_stream_row Timestamp_FromHyperBinary) timestamp_from_arrow"

definition ApiRow_get_offset_timestamp :: "ApiRow \<Rightarrow> nat \<Rightarrow> OffsetTimestamp option option" where
  "ApiRow_get_offset_timestamp =
     per_transport (hyper_from_stream_row OffsetTimestamp_FromHyperBinary) offset_timestamp_from_arrow"

definition ApiRow_get_interval :: "ApiRow \<Rightarrow> nat \<Rightarrow> Interval option option" where
  "ApiRow_get_interval = per_transport (hyper_from_stream_row Interval_FromHyperBinary) interval_from_arrow"

text \<open>Over TCP the scale is the one of the column's type, which has to fit a byte.\<close>

definition ApiRow_get_numeric :: "ApiRow \<Rightarrow> nat \<Rightarrow> Numeric option option" where
  "ApiRow_get_numeric r idx =
     (case row_inner r of
        RowTcp row \<Rightarrow>
          Some (case ApiRow_sql_type r idx of
                  Some (SqlNumeric p s) \<Rightarrow>
                    if unat s > 255 then None
                    else do { b \<leftarrow> Stream_get_bytes row idx; ok (from_binary_with_scale b (ucast s)) }
                | _ \<Rightarrow> None)
      | RowArrow b i \<Rightarrow> on_arrow numeric_from_arrow b i idx)"

subsection \<open>\<open>RowValue\<close>\<close>

type_synonym 'a row_value = "ApiRow \<Rightarrow> nat \<Rightarrow> 'a option option"

definition or_else_value :: "'a option option \<Rightarrow> 'a option option \<Rightarrow> 'a option option" where
  "or_else_value x y = (case x of None \<Rightarrow> None | Some None \<Rightarrow> y | Some (Some v) \<Rightarrow> Some (Some v))"

definition i32_from_row :: "i32 row_value" where
  "i32_from_row r idx =
     or_else_value (ApiRow_get_i32 r idx) (map_option (map_option scast) (ApiRow_get_i16 r idx))"

definition i64_from_row :: "i64 row_value" where
  "i64_from_row r idx =
     or_else_value (or_else_value (ApiRow_get_i64 r idx) (map_option (map_option scast) (ApiRow_get_i32 r idx)))
       (map_option (map_option scast) (ApiRow_get_i16 r idx))"

definition f64_from_row :: "(f64 \<Rightarrow> f32) \<Rightarrow> (f32 \<Rightarrow> f64) \<Rightarrow> f64 row_value" where
  "f64_from_row as_f32 from_f32 r idx =
     or_else_value (ApiRow_get_f64 from_f32 r idx) (map_option (map_option from_f32) (ApiRow_get_f32 as_f32 r idx))"

definition ApiRow_try_get :: "(string \<Rightarrow> string) \<Rightarrow> 'a row_value \<Rightarrow> ApiRow \<Rightarrow> nat \<Rightarrow> string \<Rightarrow> (ApiError + 'a) option" where
  "ApiRow_try_get debug T r idx name =
     (if idx \<ge> ApiRow_column_count r then
        Some (Inl (Api_Conversion (''Column index '' @ show_nat idx @ '' ('' @ debug name @ '') out of bounds '' @
          [CHR 0xE2, CHR 0x80, CHR 0x94] @ '' row has '' @ show_nat (ApiRow_column_count r) @ '' columns'')))
      else map_option (\<lambda>v. case v of
          Some x \<Rightarrow> Inr x
        | None \<Rightarrow> Inl (Api_Conversion (''Column '' @ show_nat idx @ '' ('' @ debug name @
            '') is NULL or has incompatible type''))) (T r idx))"

definition ApiRow_get_by_name :: "(string \<Rightarrow> string) \<Rightarrow> 'a row_value \<Rightarrow> ApiRow \<Rightarrow> string \<Rightarrow> (ApiError + 'a) option" where
  "ApiRow_get_by_name debug T r name =
     (case Option.bind (row_schema r) (\<lambda>s. Schema_column_index s name) of
        None \<Rightarrow> Some (Inl (Api_Column name Missing))
      | Some idx \<Rightarrow> ApiRow_try_get debug T r idx name)"

section \<open>\<open>RowAccessor\<close>\<close>

datatype Indices = BorrowedIndices "string \<rightharpoonup> nat" | OwnedIndices "string \<rightharpoonup> nat"

fun Indices_get :: "Indices \<Rightarrow> string \<Rightarrow> nat option" where
  "Indices_get (BorrowedIndices m) name = m name"
| "Indices_get (OwnedIndices m) name = m name"

record RowAccessor =
  accessor_row :: ApiRow
  accessor_indices :: Indices

definition build_indices :: "ResultSchema \<Rightarrow> string \<rightharpoonup> nat" where
  "build_indices s = foldl (\<lambda>m (i, c). m(rc_name c \<mapsto> i)) Map.empty (enumerate 0 (schema_columns s))"

definition build_owned_indices :: "ResultSchema \<Rightarrow> string \<rightharpoonup> nat" where
  "build_owned_indices s = foldl (\<lambda>m (i, c). m(rc_name c \<mapsto> i)) Map.empty (enumerate 0 (schema_columns s))"

definition RowAccessor_new :: "ApiRow \<Rightarrow> (string \<rightharpoonup> nat) \<Rightarrow> RowAccessor" where
  "RowAccessor_new r m = \<lparr>accessor_row = r, accessor_indices = BorrowedIndices m\<rparr>"

definition RowAccessor_new_owned :: "ApiRow \<Rightarrow> (string \<rightharpoonup> nat) \<Rightarrow> RowAccessor" where
  "RowAccessor_new_owned r m = \<lparr>accessor_row = r, accessor_indices = OwnedIndices m\<rparr>"

fun SqlType_debug :: "SqlType \<Rightarrow> string" where
  "SqlType_debug SqlBool = ''Bool''"
| "SqlType_debug SqlBigInt = ''BigInt''"
| "SqlType_debug SqlSmallInt = ''SmallInt''"
| "SqlType_debug SqlInt = ''Int''"
| "SqlType_debug (SqlNumeric p s) =
     ''Numeric { precision: '' @ show_nat (unat p) @ '', scale: '' @ show_nat (unat s) @ '' }''"
| "SqlType_debug SqlDouble = ''Double''"
| "SqlType_debug SqlFloat = ''Float''"
| "SqlType_debug SqlOid = ''Oid''"
| "SqlType_debug SqlByteA = ''ByteA''"
| "SqlType_debug SqlText = ''Text''"
| "SqlType_debug (SqlVarchar None) = ''Varchar { max_length: None }''"
| "SqlType_debug (SqlVarchar (Some n)) = ''Varchar { max_length: Some('' @ show_nat (unat n) @ '') }''"
| "SqlType_debug (SqlChar n) = ''Char { length: '' @ show_nat (unat n) @ '' }''"
| "SqlType_debug SqlJson = ''Json''"
| "SqlType_debug SqlDate = ''Date''"
| "SqlType_debug SqlInterval = ''Interval''"
| "SqlType_debug SqlTime = ''Time''"
| "SqlType_debug SqlTimestamp = ''Timestamp''"
| "SqlType_debug SqlTimestampTz = ''TimestampTz''"
| "SqlType_debug SqlGeography = ''Geography''"
| "SqlType_debug SqlUnsupported = ''Unsupported''"

definition mismatch :: "string \<Rightarrow> ApiRow \<Rightarrow> nat \<Rightarrow> ColumnErrorKind" where
  "mismatch expected r idx =
     TypeMismatch expected (case ApiRow_sql_type r idx of None \<Rightarrow> ''<unknown>'' | Some t \<Rightarrow> SqlType_debug t)"

text \<open>The order of the tests differs: \<open>get\<close> and \<open>position\<close> decode first and then ask whether the cell is null,
  \<open>get_opt\<close> and \<open>position_opt\<close> ask first.\<close>

definition required :: "string \<Rightarrow> 'a row_value \<Rightarrow> ApiRow \<Rightarrow> string \<Rightarrow> nat \<Rightarrow> (ApiError + 'a) option" where
  "required type_name T r label idx =
     (case T r idx of
        None \<Rightarrow> None
      | Some (Some v) \<Rightarrow> Some (Inr v)
      | Some None \<Rightarrow> map_option (\<lambda>isnull. Inl (Api_Column label
            (if isnull then Null else mismatch type_name r idx))) (ApiRow_is_null r idx))"

definition optional :: "string \<Rightarrow> 'a row_value \<Rightarrow> ApiRow \<Rightarrow> string \<Rightarrow> nat \<Rightarrow> (ApiError + 'a option) option" where
  "optional type_name T r label idx =
     (case ApiRow_is_null r idx of
        None \<Rightarrow> None
      | Some True \<Rightarrow> Some (Inr None)
      | Some False \<Rightarrow> map_option (\<lambda>v. case v of
            Some x \<Rightarrow> Inr (Some x)
          | None \<Rightarrow> Inl (Api_Column label (mismatch type_name r idx))) (T r idx))"

definition Accessor_get :: "string \<Rightarrow> 'a row_value \<Rightarrow> RowAccessor \<Rightarrow> string \<Rightarrow> (ApiError + 'a) option" where
  "Accessor_get type_name T a name =
     (case Indices_get (accessor_indices a) name of
        None \<Rightarrow> Some (Inl (Api_Column name Missing))
      | Some idx \<Rightarrow> required type_name T (accessor_row a) name idx)"

definition Accessor_get_opt :: "string \<Rightarrow> 'a row_value \<Rightarrow> RowAccessor \<Rightarrow> string \<Rightarrow> (ApiError + 'a option) option" where
  "Accessor_get_opt type_name T a name =
     (case Indices_get (accessor_indices a) name of
        None \<Rightarrow> Some (Inl (Api_Column name Missing))
      | Some idx \<Rightarrow> optional type_name T (accessor_row a) name idx)"

definition Accessor_position :: "string \<Rightarrow> 'a row_value \<Rightarrow> RowAccessor \<Rightarrow> nat \<Rightarrow> (ApiError + 'a) option" where
  "Accessor_position type_name T a idx =
     (if idx \<ge> ApiRow_column_count (accessor_row a) then
        Some (Inl (ColumnIndexOutOfBounds idx (ApiRow_column_count (accessor_row a))))
      else required type_name T (accessor_row a) (''col['' @ show_nat idx @ '']'') idx)"

definition Accessor_position_opt :: "string \<Rightarrow> 'a row_value \<Rightarrow> RowAccessor \<Rightarrow> nat \<Rightarrow> (ApiError + 'a option) option" where
  "Accessor_position_opt type_name T a idx =
     (if idx \<ge> ApiRow_column_count (accessor_row a) then
        Some (Inl (ColumnIndexOutOfBounds idx (ApiRow_column_count (accessor_row a))))
      else optional type_name T (accessor_row a) (''col['' @ show_nat idx @ '']'') idx)"

section \<open>\<open>Rowset\<close>\<close>

definition DEFAULT_BINARY_CHUNK_SIZE :: nat where "DEFAULT_BINARY_CHUNK_SIZE = 65536"

datatype RowsetInner = InnerTcp QueryStream | InnerArrow "ApiError ArrowRowset" | InnerPrepared PreparedQueryStream

record Rowset =
  rs_inner :: RowsetInner
  schema_cache :: "ResultSchema option"
  statement_guard :: "PreparedStatement option"

definition Rowset_new :: "QueryStream \<Rightarrow> Rowset" where
  "Rowset_new s = \<lparr>rs_inner = InnerTcp s, schema_cache = None, statement_guard = None\<rparr>"

definition Rowset_from_arrow :: "ApiError ArrowRowset \<Rightarrow> Rowset" where
  "Rowset_from_arrow a = \<lparr>rs_inner = InnerArrow a, schema_cache = None, statement_guard = None\<rparr>"

definition Rowset_from_prepared :: "PreparedQueryStream \<Rightarrow> Rowset" where
  "Rowset_from_prepared s = \<lparr>rs_inner = InnerPrepared s, schema_cache = None, statement_guard = None\<rparr>"

definition with_statement_guard :: "Rowset \<Rightarrow> PreparedStatement \<Rightarrow> Rowset" where
  "with_statement_guard rs statement = rs\<lparr>statement_guard := Some statement\<rparr>"

definition build_schema :: "Rowset \<Rightarrow> ResultSchema option" where
  "build_schema rs =
     (case rs_inner rs of
        InnerTcp s \<Rightarrow> map_option schema_of_columns (schema s)
      | InnerArrow a \<Rightarrow> Some (schema_of_fields (arrow_fields a))
      | InnerPrepared s \<Rightarrow> Some (schema_of_columns (ps_schema s)))"

definition Rowset_schema :: "Rowset \<Rightarrow> ResultSchema option" where
  "Rowset_schema rs = (case schema_cache rs of Some s \<Rightarrow> Some s | None \<Rightarrow> build_schema rs)"

definition cached_schema_arc :: "Rowset \<Rightarrow> ResultSchema option \<times> Rowset" where
  "cached_schema_arc rs =
     (let rs' = (case schema_cache rs of
                   Some _ \<Rightarrow> rs
                 | None \<Rightarrow> (case build_schema rs of Some s \<Rightarrow> rs\<lparr>schema_cache := Some s\<rparr> | None \<Rightarrow> rs))
      in (schema_cache rs', rs'))"

text \<open>The calls of a prepared stream on the client whose guard it holds.\<close>

definition prepared_fetch ::
  "PreparedQueryStream \<Rightarrow> Client \<Rightarrow> (Error + StreamRow list option) \<times> PreparedQueryStream \<times> Client" where
  "prepared_fetch s cl =
     (case ps_next_chunk s (guarded (connection cl)) of
        (r, s', c) \<Rightarrow> (r, s', cl\<lparr>connection := (connection cl)\<lparr>guarded := c, held := ps_conn s'\<rparr>\<rparr>))"

datatype TransportChunk = ChunkTcp "StreamRow list" | ChunkArrow RecordBatch

text \<open>A stream that has given up its guard no longer touches the connection, which may be in other hands.
  A stream without a TCP client cannot be.\<close>

definition transport_chunk :: "RowsetInner \<Rightarrow> Transport \<Rightarrow> TransportChunk option answer \<times> RowsetInner \<times> Transport" where
  "transport_chunk source t =
     (case (source, t) of
        (InnerTcp s, Tcp cl) \<Rightarrow>
          if qs_conn s then
            (case stream_fetch s cl of
               (r, s', cl') \<Rightarrow>
                 (Answered (map_sum from_client_error (map_option ChunkTcp) r), InnerTcp s', Tcp cl'))
          else (Answered (Inr None), source, t)
      | (InnerPrepared s, Tcp cl) \<Rightarrow>
          if ps_conn s then
            (case prepared_fetch s cl of
               (r, s', cl') \<Rightarrow>
                 (Answered (map_sum from_client_error (map_option ChunkTcp) r), InnerPrepared s', Tcp cl'))
          else (Answered (Inr None), source, t)
      | (InnerArrow a, _) \<Rightarrow>
          (case ArrowRowset_next_chunk a of
             (r, a') \<Rightarrow> (Answered (map_sum id (map_option (\<lambda>ch. ChunkArrow (chunk_batch ch))) r), InnerArrow a', t))
      | _ \<Rightarrow> (Panicked, source, t))"

fun attach_schema :: "ResultSchema option \<Rightarrow> TransportChunk \<Rightarrow> ApiRow list" where
  "attach_schema sch (ChunkTcp rows) = map (\<lambda>row. \<lparr>row_inner = RowTcp row, row_schema = sch\<rparr>) rows"
| "attach_schema sch (ChunkArrow b) = map (\<lambda>i. \<lparr>row_inner = RowArrow b i, row_schema = sch\<rparr>) [0..<num_rows b]"

definition Rowset_next_chunk :: "Rowset \<Rightarrow> Transport \<Rightarrow> ApiRow list option answer \<times> Rowset \<times> Transport" where
  "Rowset_next_chunk rs t =
     (case transport_chunk (rs_inner rs) t of
        (r, source, t') \<Rightarrow>
          continue (r, rs\<lparr>rs_inner := source\<rparr>, t') (\<lambda>chunk_opt (rs, t).
            case chunk_opt of
              None \<Rightarrow> (Answered (Inr None), rs, t)
            | Some ch \<Rightarrow>
                (case cached_schema_arc rs of
                   (sch, rs') \<Rightarrow> (Answered (Inr (Some (attach_schema sch ch))), rs', t))))"

text \<open>Dropping: the stream, then the statement, which takes the mutex the stream has just given up.\<close>

definition drop_inner :: "RowsetInner \<Rightarrow> Transport \<Rightarrow> Transport" where
  "drop_inner source t =
     (case (source, t) of
        (InnerTcp s, Tcp cl) \<Rightarrow> if qs_conn s then Tcp (stream_drop s cl) else t
      | (InnerPrepared s, Tcp cl) \<Rightarrow>
          if ps_conn s then
            Tcp (cl\<lparr>connection := (connection cl)\<lparr>guarded := ps_drop s (guarded (connection cl)), held := False\<rparr>\<rparr>)
          else t
      | _ \<Rightarrow> t)"

definition drop_guard :: "PreparedStatement option \<Rightarrow> Transport \<Rightarrow> Transport" where
  "drop_guard statement t =
     (case (statement, t) of
        (Some st, Tcp cl) \<Rightarrow>
          (case drop_statement st (Some (connection cl)) of
             Some m \<Rightarrow> Tcp (cl\<lparr>connection := m\<rparr>)
           | None \<Rightarrow> t)
      | _ \<Rightarrow> t)"

definition Rowset_drop :: "Rowset \<Rightarrow> Transport \<Rightarrow> Transport" where
  "Rowset_drop rs t = drop_guard (statement_guard rs) (drop_inner (rs_inner rs) t)"

text \<open>A method that takes \<open>self\<close>: the row set is dropped on every way out.\<close>

definition consume :: "'a answer \<times> Rowset \<times> Transport \<Rightarrow> 'a answer \<times> Transport" where
  "consume r = (case r of (a, rs, t) \<Rightarrow> (a, Rowset_drop rs t))"

definition first_row :: "Rowset \<Rightarrow> Transport \<Rightarrow> ApiRow option answer \<times> Transport" where
  "first_row rs t =
     consume (continue (Rowset_next_chunk rs t) (\<lambda>ch st.
       (Answered (Inr (Option.bind ch (\<lambda>rows. case rows of [] \<Rightarrow> None | r # _ \<Rightarrow> Some r))), st)))"

definition require_first_row :: "Rowset \<Rightarrow> Transport \<Rightarrow> ApiRow answer \<times> Transport" where
  "require_first_row rs t =
     continue (first_row rs t) (\<lambda>row t.
       (Answered (case row of Some r \<Rightarrow> Inr r | None \<Rightarrow> Inl (Api_Conversion ''Query returned no rows'')), t))"

fun value_answer :: "'a option \<Rightarrow> 'a answer" where
  "value_answer None = Panicked"
| "value_answer (Some v) = Answered (Inr v)"

definition Rowset_scalar :: "'a row_value \<Rightarrow> Rowset \<Rightarrow> Transport \<Rightarrow> 'a option answer \<times> Transport" where
  "Rowset_scalar T rs t = continue (require_first_row rs t) (\<lambda>row t. (value_answer (T row 0), t))"

definition require_scalar :: "'a row_value \<Rightarrow> Rowset \<Rightarrow> Transport \<Rightarrow> 'a answer \<times> Transport" where
  "require_scalar T rs t =
     continue (Rowset_scalar T rs t) (\<lambda>v t.
       (Answered (case v of Some x \<Rightarrow> Inr x | None \<Rightarrow> Inl (Api_Conversion ''Scalar query returned NULL'')), t))"

section \<open>Iterators\<close>

record RowIterator =
  it_rowset :: Rowset
  current_iter :: "ApiRow list"

definition Rowset_rows :: "Rowset \<Rightarrow> RowIterator" where
  "Rowset_rows rs = \<lparr>it_rowset = rs, current_iter = []\<rparr>"

text \<open>\<open>Iterator::next\<close>: \<open>Inr None\<close> is the end, \<open>Inl e\<close> an item that is an error.\<close>

definition RowIterator_next :: "RowIterator \<Rightarrow> Transport \<Rightarrow> ApiRow option answer \<times> RowIterator \<times> Transport" where
  "RowIterator_next it t =
     (case current_iter it of
        row # rest \<Rightarrow> (Answered (Inr (Some row)), it\<lparr>current_iter := rest\<rparr>, t)
      | [] \<Rightarrow>
          (case Rowset_next_chunk (it_rowset it) t of
             (r, rs, t') \<Rightarrow>
               continue (r, it\<lparr>it_rowset := rs\<rparr>, t') (\<lambda>ch (it, t).
                 case ch of
                   None \<Rightarrow> (Answered (Inr None), it, t)
                 | Some [] \<Rightarrow> (Answered (Inr None), it\<lparr>current_iter := []\<rparr>, t)
                 | Some (row # rest) \<Rightarrow> (Answered (Inr (Some row)), it\<lparr>current_iter := rest\<rparr>, t))))"

subsection \<open>Iteration ends\<close>

text \<open>A chunk that has rows has taken something from the connection or from the batches.\<close>

fun transport_pending :: "Transport \<Rightarrow> nat" where
  "transport_pending (Tcp cl) = pending (guarded (connection cl))"
| "transport_pending Grpc = 0"

fun batches_left :: "RowsetInner \<Rightarrow> nat" where
  "batches_left (InnerArrow a) = length (arrow_batches a)"
| "batches_left _ = 0"

definition remaining :: "Rowset \<Rightarrow> Transport \<Rightarrow> nat" where
  "remaining rs t = transport_pending t + batches_left (rs_inner rs)"

lemma chunk_loop_less:
  assumes "chunk_loop rows s c = (Inr (Some rows'), s', c')" "length rows < chunk_size s"
  shows "pending c' < pending c"
  using assms
proof (induction "pending c" arbitrary: rows s c rule: less_induct)
  case less
  obtain r c1 where r: "read_message c = (r, c1)"
    by (cases "read_message c")
  show ?case
  proof (cases r)
    case (Inl e)
    with less.prems r show ?thesis
      by (simp add: chunk_loop.simps [of rows s c])
  next
    case (Inr m)
    then have p: "pending c1 < pending c"
      using r read_message_pending by blast
    have again: "pending c' < pending c"
      if "chunk_loop rows2 s2 c1 = (Inr (Some rows'), s', c')" "length rows2 < chunk_size s2" for rows2 s2
      using less.hyps [OF p that] p by simp
    show ?thesis
      using less.prems r Inr p again
      by (cases m) (auto simp: chunk_loop.simps [of rows s c] Let_def split: if_splits prod.splits)
  qed
qed

lemma next_chunk_less:
  assumes "next_chunk s c = (Inr (Some rows), s', c')" "rows \<noteq> []"
  shows "pending c' < pending c"
proof (cases "0 < chunk_size s")
  case True
  with assms chunk_loop_less [of "[]" s c rows s' c'] show ?thesis
    by (auto simp: next_chunk_def split: if_splits)
next
  case False
  with assms show ?thesis
    by (auto simp: next_chunk_def chunk_loop.simps [of "[]" s c] split: if_splits)
qed

lemma ps_next_chunk_less:
  assumes "ps_next_chunk s c = (Inr (Some rows), s', c')" "rows \<noteq> []"
  shows "pending c' < pending c"
  using assms ps_refines(1) [of s c] next_chunk_less [of "as_query_stream s" c rows "as_query_stream s'" c'] by simp

lemma cached_schema_inner: "rs_inner (snd (cached_schema_arc rs)) = rs_inner rs"
  by (simp add: cached_schema_arc_def Let_def split: option.split)

lemma map_chunk_iff:
  "map_sum f (map_option ChunkTcp) r = Inr (Some ch) \<longleftrightarrow> (\<exists>rows. r = Inr (Some rows) \<and> ch = ChunkTcp rows)"
  by (cases r) auto

lemma transport_chunk_less:
  assumes "transport_chunk source t = (Answered (Inr (Some ch)), source', t')" "attach_schema sch ch \<noteq> []"
  shows "transport_pending t' + batches_left source' < transport_pending t + batches_left source"
proof (cases source)
  case (InnerTcp s)
  with assms show ?thesis
    by (cases t) (auto simp: transport_chunk_def stream_fetch_def map_chunk_iff split: if_splits prod.splits
        intro: next_chunk_less)
next
  case (InnerArrow a)
  with assms show ?thesis
    by (auto simp: transport_chunk_def ArrowRowset_next_chunk_def split: list.splits sum.splits)
next
  case (InnerPrepared s)
  with assms show ?thesis
    by (cases t) (auto simp: transport_chunk_def prepared_fetch_def map_chunk_iff split: if_splits prod.splits
        intro: ps_next_chunk_less)
qed

lemma Rowset_next_chunk_Some:
  assumes "Rowset_next_chunk rs t = (Answered (Inr (Some rows)), rs', t')"
  shows "\<exists>ch sch. transport_chunk (rs_inner rs) t = (Answered (Inr (Some ch)), rs_inner rs', t') \<and> rows = attach_schema sch ch"
proof -
  obtain r source t1 where x: "transport_chunk (rs_inner rs) t = (r, source, t1)"
    by (metis prod_cases3)
  obtain ch where r: "r = Answered (Inr (Some ch))"
    using assms x by (cases r) (auto simp: Rowset_next_chunk_def continue_def split: sum.splits option.splits)
  obtain sch rs1 where s: "cached_schema_arc (rs\<lparr>rs_inner := source\<rparr>) = (sch, rs1)"
    by (metis surj_pair)
  have "rs_inner rs1 = source"
    using cached_schema_inner [of "rs\<lparr>rs_inner := source\<rparr>"] s by simp
  with assms x r s show ?thesis
    by (auto simp: Rowset_next_chunk_def continue_def)
qed

lemma Rowset_next_chunk_less:
  assumes "Rowset_next_chunk rs t = (Answered (Inr (Some rows)), rs', t')" "rows \<noteq> []"
  shows "remaining rs' t' < remaining rs t"
  using Rowset_next_chunk_Some [OF assms(1)] assms(2) transport_chunk_less by (fastforce simp: remaining_def)

lemma RowIterator_next_less:
  assumes "RowIterator_next it t = (Answered (Inr (Some row)), it', t')"
  shows "remaining (it_rowset it') t' < remaining (it_rowset it) t
    \<or> remaining (it_rowset it') t' = remaining (it_rowset it) t \<and> length (current_iter it') < length (current_iter it)"
proof (cases "current_iter it")
  case Nil
  obtain r rs t1 where x: "Rowset_next_chunk (it_rowset it) t = (r, rs, t1)"
    by (cases "Rowset_next_chunk (it_rowset it) t") auto
  with assms Nil obtain rest where "r = Answered (Inr (Some (row # rest)))" "it_rowset it' = rs" "t' = t1"
    by (auto simp: RowIterator_next_def continue_def split: answer.splits sum.splits option.splits list.splits)
  with x Rowset_next_chunk_less show ?thesis
    by blast
next
  case (Cons r rest)
  with assms show ?thesis
    by (auto simp: RowIterator_next_def)
qed

text \<open>The loop of every collecting method; the argument makes an item of a row and may panic. The
  iterator is dropped at the end of the call.\<close>

function collect_loop ::
  "(ApiRow \<Rightarrow> 'a option) \<Rightarrow> 'a list \<Rightarrow> RowIterator \<Rightarrow> Transport \<Rightarrow> 'a list answer \<times> RowIterator \<times> Transport" where
  "collect_loop f items it t =
     (case RowIterator_next it t of
        (Answered (Inr (Some row)), it', t') \<Rightarrow>
          (case f row of
             None \<Rightarrow> (Panicked, it', t')
           | Some v \<Rightarrow> collect_loop f (items @ [v]) it' t')
      | (Answered (Inr None), it', t') \<Rightarrow> (Answered (Inr items), it', t')
      | (Answered (Inl e), it', t') \<Rightarrow> (Answered (Inl e), it', t')
      | (Panicked, it', t') \<Rightarrow> (Panicked, it', t')
      | (Blocked, it', t') \<Rightarrow> (Blocked, it', t'))"
  by pat_completeness auto
termination
  by (relation "measures [\<lambda>(_, _, it, t). remaining (it_rowset it) t, \<lambda>(_, _, it, t). length (current_iter it)]")
    (auto dest: RowIterator_next_less [OF sym])

declare collect_loop.simps [simp del]

definition collect_with :: "(ApiRow \<Rightarrow> 'a option) \<Rightarrow> Rowset \<Rightarrow> Transport \<Rightarrow> 'a list answer \<times> Transport" where
  "collect_with f rs t =
     (case collect_loop f [] (Rowset_rows rs) t of (r, it, t') \<Rightarrow> consume (r, it_rowset it, t'))"

definition collect_rows :: "Rowset \<Rightarrow> Transport \<Rightarrow> ApiRow list answer \<times> Transport" where
  "collect_rows rs t = collect_with Some rs t"

definition collect_column :: "'a row_value \<Rightarrow> Rowset \<Rightarrow> Transport \<Rightarrow> 'a option list answer \<times> Transport" where
  "collect_column T rs t = collect_with (\<lambda>row. T row 0) rs t"

definition collect_column_non_null :: "'a row_value \<Rightarrow> Rowset \<Rightarrow> Transport \<Rightarrow> 'a list answer \<times> Transport" where
  "collect_column_non_null T rs t =
     continue (collect_column T rs t) (\<lambda>vs t. (Answered (Inr (List.map_filter id vs)), t))"

subsection \<open>\<open>TypedRowIterator\<close>\<close>

record TypedRowIterator =
  tri_rowset :: Rowset
  tri_current :: "ApiRow list"
  tri_indices :: "(string \<rightharpoonup> nat) option"

definition TypedRowIterator_new :: "Rowset \<Rightarrow> TypedRowIterator" where
  "TypedRowIterator_new rs = \<lparr>tri_rowset = rs, tri_current = [], tri_indices = None\<rparr>"

text \<open>\<open>FromRow\<close> is implemented by the caller; its result may be a panic. The loop goes on past an empty
  chunk; not returning would be \<open>None\<close>.\<close>

partial_function (option) TypedRowIterator_next ::
  "(RowAccessor \<Rightarrow> (ApiError + 'a) option) \<Rightarrow> TypedRowIterator \<Rightarrow> Transport
     \<Rightarrow> ('a option answer \<times> TypedRowIterator \<times> Transport) option" where
  "TypedRowIterator_next from_row it t =
     (case tri_current it of
        row # rest \<Rightarrow>
          (let indices = (case tri_indices it of Some m \<Rightarrow> m | None \<Rightarrow> Map.empty);
               it' = it\<lparr>tri_current := rest, tri_indices := Some indices\<rparr>
           in case from_row (RowAccessor_new_owned row indices) of
                None \<Rightarrow> Some (Panicked, it', t)
              | Some (Inl e) \<Rightarrow> Some (Answered (Inl e), it', t)
              | Some (Inr v) \<Rightarrow> Some (Answered (Inr (Some v)), it', t))
      | [] \<Rightarrow>
          (case Rowset_next_chunk (tri_rowset it) t of
             (Answered (Inr (Some rows)), rs, t') \<Rightarrow>
               TypedRowIterator_next from_row
                 (it\<lparr>tri_rowset := rs, tri_current := rows,
                     tri_indices := Some (case tri_indices it of
                        Some m \<Rightarrow> m
                      | None \<Rightarrow> (case Rowset_schema rs of None \<Rightarrow> Map.empty | Some s \<Rightarrow> build_owned_indices s))\<rparr>) t'
           | (Answered (Inr None), rs, t') \<Rightarrow> Some (Answered (Inr None), it\<lparr>tri_rowset := rs\<rparr>, t')
           | (Answered (Inl e), rs, t') \<Rightarrow> Some (Answered (Inl e), it\<lparr>tri_rowset := rs\<rparr>, t')
           | (Panicked, rs, t') \<Rightarrow> Some (Panicked, it\<lparr>tri_rowset := rs\<rparr>, t')
           | (Blocked, rs, t') \<Rightarrow> Some (Blocked, it\<lparr>tri_rowset := rs\<rparr>, t')))"

section \<open>Looking up columns by name\<close>

lemma enumerate_snoc: "enumerate n (xs @ [x]) = enumerate n xs @ [(n + length xs, x)]"
  by (simp add: enumerate_append_eq)

lemma build_indices_snoc:
  "build_indices \<lparr>schema_columns = cs @ [c]\<rparr> = (build_indices \<lparr>schema_columns = cs\<rparr>)(rc_name c \<mapsto> length cs)"
  by (simp add: build_indices_def enumerate_snoc)

lemma build_indices_dom: "dom (build_indices \<lparr>schema_columns = cs\<rparr>) = rc_name ` set cs"
proof (induction cs rule: rev_induct)
  case Nil
  then show ?case
    by (simp add: build_indices_def)
next
  case (snoc c cs)
  then show ?case
    unfolding build_indices_snoc dom_fun_upd by simp
qed

lemma position_snoc:
  "position P (xs @ [y]) = (case position P xs of Some i \<Rightarrow> Some i | None \<Rightarrow> if P y then Some (length xs) else None)"
  by (induction xs) (auto split: option.split)

lemma position_None_iff: "position P xs = None \<longleftrightarrow> list_all (\<lambda>x. \<not> P x) xs"
  by (induction xs) auto

lemma position_less: "position P xs = Some i \<Longrightarrow> i < length xs"
  by (induction xs arbitrary: i) (auto split: if_splits)

text \<open>The index map of a \<open>RowAccessor\<close> keeps the last column of a name, \<open>Row::get_by_name\<close> takes the first: the two
  lookups are the same function exactly when no name occurs twice.\<close>

theorem name_lookups_agree_iff:
  "build_indices s = Schema_column_index s \<longleftrightarrow> distinct (map rc_name (schema_columns s))"
proof -
  have "build_indices \<lparr>schema_columns = cs\<rparr> = Schema_column_index \<lparr>schema_columns = cs\<rparr> \<longleftrightarrow> distinct (map rc_name cs)" for cs
  proof (induction cs rule: rev_induct)
    case Nil
    then show ?case
      by (auto simp: build_indices_def Schema_column_index_def)
  next
    case (snoc c cs)
    let ?b = "build_indices \<lparr>schema_columns = cs\<rparr>" and ?p = "Schema_column_index \<lparr>schema_columns = cs\<rparr>"
    have p: "Schema_column_index \<lparr>schema_columns = cs @ [c]\<rparr> =
        (\<lambda>n. case ?p n of Some i \<Rightarrow> Some i | None \<Rightarrow> if rc_name c = n then Some (length cs) else None)"
      by (auto simp: Schema_column_index_def position_snoc split: option.split)
    show ?case
    proof (cases "rc_name c \<in> rc_name ` set cs")
      case True
      then obtain i where i: "?p (rc_name c) = Some i" "i < length cs"
        by (auto simp: Schema_column_index_def position_None_iff list_all_iff dest: position_less
            intro: position_less split: option.splits)
          (metis (mono_tags, lifting) list_all_iff not_None_eq position_None_iff position_less)
      then have "build_indices \<lparr>schema_columns = cs @ [c]\<rparr> (rc_name c) \<noteq>
          Schema_column_index \<lparr>schema_columns = cs @ [c]\<rparr> (rc_name c)"
        by (simp add: build_indices_snoc p)
      with True show ?thesis
        by auto
    next
      case False
      then have "\<forall>x \<in> set cs. rc_name x \<noteq> rc_name c"
        by (metis imageI)
      then have "?p (rc_name c) = None"
        by (simp add: Schema_column_index_def position_None_iff list_all_iff)
      moreover have "?b (rc_name c) = None"
        using build_indices_dom [of cs] False by blast
      ultimately have "build_indices \<lparr>schema_columns = cs @ [c]\<rparr> = Schema_column_index \<lparr>schema_columns = cs @ [c]\<rparr> \<longleftrightarrow> ?b = ?p"
        by (auto simp: build_indices_snoc p fun_eq_iff split: option.split) (metis option.exhaust)+
      with snoc False show ?thesis
        by simp
    qed
  qed
  from this [of "schema_columns s"] show ?thesis
    by (cases s) simp
qed

section \<open>A row set over TCP\<close>

abbreviation tcp_row :: "ResultSchema option \<Rightarrow> StreamRow \<Rightarrow> ApiRow" where
  "tcp_row sch r \<equiv> \<lparr>row_inner = RowTcp r, row_schema = sch\<rparr>"

text \<open>Whenever a chunk with rows is handed out, the stream has seen this schema.\<close>

definition describes :: "QueryStream \<Rightarrow> ResultSchema option \<Rightarrow> Message list \<Rightarrow> bool" where
  "describes s sch ms \<longleftrightarrow> (\<forall>pre suf. ms = pre @ suf \<longrightarrow> rows_of pre \<noteq> [] \<longrightarrow>
     map_option schema_of_columns (schema (foldl seen s pre)) = sch)"

lemma describes_append: "describes s sch (pre @ ms) \<Longrightarrow> describes (foldl seen s pre) sch ms"
  unfolding describes_def by (metis append_assoc append_is_Nil_conv foldl_append rows_of_append)

lemma cached_schema:
  assumes "schema_cache rs \<in> {None, sch}" "build_schema rs = sch"
  shows "\<exists>rs'. cached_schema_arc rs = (sch, rs') \<and> rs_inner rs' = rs_inner rs \<and>
    statement_guard rs' = statement_guard rs \<and> schema_cache rs' = sch"
  using assms by (cases "schema_cache rs"; cases sch) (auto simp: cached_schema_arc_def)

text \<open>The client while a stream holds its mutex, and after the stream has given it up.\<close>

abbreviation at :: "Client \<Rightarrow> RawConnection \<Rightarrow> bool \<Rightarrow> Transport" where
  "at cl c h \<equiv> Tcp (cl\<lparr>connection := (connection cl)\<lparr>guarded := c, held := h\<rparr>\<rparr>)"

definition open_stream ::
  "Client \<Rightarrow> Message list \<Rightarrow> u8 \<Rightarrow> bytes \<Rightarrow> QueryStream \<Rightarrow> ResultSchema option \<Rightarrow> Rowset \<Rightarrow> bool" where
  "open_stream cl ms t rest s sch rs \<longleftrightarrow>
     answers ms \<and> quiet (guarded (connection cl)) \<and>
     unread (guarded (connection cl)) = wire (ms @ [ReadyForQuery t]) @ rest \<and>
     0 < chunk_size s \<and> \<not> finished s \<and> qs_conn s \<and>
     describes s sch ms \<and> schema_cache rs \<in> {None, sch} \<and> rs_inner rs = InnerTcp s"

lemma tcp_call:
  assumes "rs_inner rs = InnerTcp s" "qs_conn s"
  shows "Rowset_next_chunk rs (Tcp cl) =
    (case next_chunk s (guarded (connection cl)) of (r, s', c) \<Rightarrow>
       continue (Answered (map_sum from_client_error (map_option ChunkTcp) r), rs\<lparr>rs_inner := InnerTcp s'\<rparr>, at cl c (qs_conn s'))
         (\<lambda>ch (rs, t). case ch of None \<Rightarrow> (Answered (Inr None), rs, t)
            | Some ch \<Rightarrow> (case cached_schema_arc rs of (sch, rs') \<Rightarrow> (Answered (Inr (Some (attach_schema sch ch))), rs', t))))"
  using assms by (simp add: Rowset_next_chunk_def transport_chunk_def stream_fetch_def split: prod.split)

lemma tcp_cache:
  assumes "schema_cache rs \<in> {None, sch}" "map_option schema_of_columns (schema s') = sch"
  shows "\<exists>rs'. cached_schema_arc (rs\<lparr>rs_inner := InnerTcp s'\<rparr>) = (sch, rs') \<and> rs_inner rs' = InnerTcp s' \<and>
    statement_guard rs' = statement_guard rs \<and> schema_cache rs' = sch"
  using cached_schema [of "rs\<lparr>rs_inner := InnerTcp s'\<rparr>" sch] assms by (auto simp: build_schema_def)

text \<open>One call of \<open>next_chunk\<close> on such a row set.\<close>

lemma tcp_next_chunk:
  assumes "open_stream cl ms t rest s sch rs" "take_rows (chunk_size s) ms = (rows, st)"
  shows "\<exists>rs' s' c'. rs_inner rs' = InnerTcp s' \<and> statement_guard rs' = statement_guard rs \<and>
    (case st of
       Full ms' \<Rightarrow> Rowset_next_chunk rs (Tcp cl) = (Answered (Inr (Some (map (tcp_row sch) rows))), rs', at cl c' True) \<and>
         advanced (guarded (connection cl)) (wire (ms' @ [ReadyForQuery t]) @ rest) c' \<and>
         open_stream (cl\<lparr>connection := (connection cl)\<lparr>guarded := c', held := True\<rparr>\<rparr>) ms' t rest s' sch rs' \<and>
         chunk_size s' = chunk_size s
     | Ended \<Rightarrow> Rowset_next_chunk rs (Tcp cl) =
           (Answered (Inr (if rows = [] then None else Some (map (tcp_row sch) rows))), rs', at cl c' False) \<and>
         \<not> qs_conn s' \<and> advanced (guarded (connection cl)) rest c'
     | Failed b \<Rightarrow> Rowset_next_chunk rs (Tcp cl) =
           (Answered (Inl (from_client_error (parse_error_response b))), rs', at cl c' False) \<and>
         \<not> qs_conn s' \<and> advanced (guarded (connection cl)) rest c')"
proof -
  let ?c = "guarded (connection cl)"
  have o: "answers ms" "quiet ?c" "unread ?c = wire (ms @ [ReadyForQuery t]) @ rest"
    and live: "0 < chunk_size s" "\<not> finished s" "qs_conn s"
    and k: "describes s sch ms" "schema_cache rs \<in> {None, sch}" "rs_inner rs = InnerTcp s"
    using assms(1) by (simp_all add: open_stream_def)
  have nc: "next_chunk s ?c = chunk_loop [] s ?c"
    using live by (simp add: next_chunk_def)
  note call = tcp_call [OF k(3) live(3), of cl]
  note step = chunk_loop_stream [of ms ?c t rest "[]" s rows st, OF o]
  note cache = tcp_cache [OF k(2)]
  note spec = take_rows_spec [OF assms(2) live(1)]
  show ?thesis
  proof (cases st)
    case (Full ms')
    with step assms(2) live obtain s' c' pre where n: "next_chunk s ?c = (Inr (Some rows), s', c')" "answers ms'"
        "advanced ?c (wire (ms' @ [ReadyForQuery t]) @ rest) c'"
        "chunk_size s' = chunk_size s" "\<not> finished s'" "qs_conn s'" "ms = pre @ ms'" "s' = foldl seen s pre"
      unfolding nc by auto
    have "rows_of pre = rows" "rows \<noteq> []"
      using spec Full n(7) live(1) by (auto simp: rows_of_append)
    then have "map_option schema_of_columns (schema s') = sch"
      using k(1) n(7,8) unfolding describes_def by blast
    from cache [OF this] obtain rs' where rs': "cached_schema_arc (rs\<lparr>rs_inner := InnerTcp s'\<rparr>) = (sch, rs')"
        "rs_inner rs' = InnerTcp s'" "statement_guard rs' = statement_guard rs" "schema_cache rs' = sch"
      by blast
    have "describes s' sch ms'"
      using describes_append k(1) n(7,8) by blast
    then have "open_stream (cl\<lparr>connection := (connection cl)\<lparr>guarded := c', held := True\<rparr>\<rparr>) ms' t rest s' sch rs'"
      using n rs' live(1) by (simp add: open_stream_def advanced_def)
    with n rs' Full show ?thesis
      by (intro exI [of _ rs'] exI [of _ s'] exI [of _ c']) (simp add: call continue_def)
  next
    case Ended
    with step assms(2) live obtain c' where n: "next_chunk s ?c =
        (Inr (if rows = [] then None else Some rows), release (foldl seen s ms), c')" "advanced ?c rest c'"
      unfolding nc by auto
    show ?thesis
    proof (cases "rows = []")
      case True
      with n Ended show ?thesis
        by (intro exI [of _ "rs\<lparr>rs_inner := InnerTcp (release (foldl seen s ms))\<rparr>"] exI [of _ "release (foldl seen s ms)"] exI [of _ c'])
          (simp add: call continue_def release_def)
    next
      case False
      then have "map_option schema_of_columns (schema (foldl seen s ms)) = sch"
        using k(1) [unfolded describes_def, rule_format, of ms "[]"] spec Ended by simp
      then obtain rs' where rs': "cached_schema_arc (rs\<lparr>rs_inner := InnerTcp (release (foldl seen s ms))\<rparr>) = (sch, rs')"
          "rs_inner rs' = InnerTcp (release (foldl seen s ms))" "statement_guard rs' = statement_guard rs"
        using cache [of "release (foldl seen s ms)"] by auto
      have "\<not> qs_conn (release (foldl seen s ms))"
        by (simp add: release_def)
      with n rs' Ended False show ?thesis
        by (intro exI [of _ rs'] exI [of _ "release (foldl seen s ms)"] exI [of _ c']) (simp add: call continue_def)
    qed
  next
    case (Failed b)
    with step assms(2) live obtain s' c' where
      "next_chunk s ?c = (Inl (parse_error_response b), release s', c')" "advanced ?c rest c'"
      unfolding nc by auto
    with Failed show ?thesis
      by (intro exI [of _ "rs\<lparr>rs_inner := InnerTcp (release s')\<rparr>"] exI [of _ "release s'"] exI [of _ c'])
        (simp add: call continue_def release_def)
  qed
qed

text \<open>A stream that has given up its guard has no more rows.\<close>

lemma ended_next_chunk:
  "rs_inner rs = InnerTcp s \<Longrightarrow> \<not> qs_conn s \<Longrightarrow> Rowset_next_chunk rs (Tcp cl) = (Answered (Inr None), rs, Tcp cl)"
  by (simp add: Rowset_next_chunk_def transport_chunk_def continue_def)

lemma ended_drop: "rs_inner rs = InnerTcp s \<Longrightarrow> \<not> qs_conn s \<Longrightarrow> drop_inner (rs_inner rs) t = t"
  by (simp add: drop_inner_def split: Transport.split)

lemma collect_current:
  "collect_loop (\<lambda>row. Some (g row)) items (it\<lparr>current_iter := xs\<rparr>) t =
     collect_loop (\<lambda>row. Some (g row)) (items @ map g xs) (it\<lparr>current_iter := []\<rparr>) t"
proof (induction xs arbitrary: items)
  case (Cons x xs)
  then show ?case
    by (subst collect_loop.simps) (simp add: RowIterator_next_def)
qed simp

text \<open>A chunk is a step of the collecting loop.\<close>

lemma collect_chunk:
  assumes "current_iter it = []"
    and "Rowset_next_chunk (it_rowset it) t = (Answered (Inr (Some rows)), rs', t')" "rows \<noteq> []"
  shows "collect_loop (\<lambda>row. Some (g row)) items it t = collect_loop (\<lambda>row. Some (g row)) (items @ map g rows) \<lparr>it_rowset = rs', current_iter = []\<rparr> t'"
proof -
  obtain r rest where rows: "rows = r # rest"
    using assms(3) by (cases rows) auto
  have "collect_loop (\<lambda>row. Some (g row)) items it t = collect_loop (\<lambda>row. Some (g row)) (items @ [g r]) (it\<lparr>it_rowset := rs', current_iter := rest\<rparr>) t'"
    using assms by (subst collect_loop.simps) (simp add: RowIterator_next_def continue_def rows)
  also have "\<dots> = collect_loop (\<lambda>row. Some (g row)) ((items @ [g r]) @ map g rest) (it\<lparr>it_rowset := rs', current_iter := []\<rparr>) t'"
    using collect_current [of g "items @ [g r]" rest "it\<lparr>it_rowset := rs'\<rparr>" t'] by simp
  finally show ?thesis
    by (cases it) (simp add: rows)
qed

lemma collect_stop:
  assumes "current_iter it = []" "Rowset_next_chunk (it_rowset it) t = (r, rs', t')"
  shows "r = Answered (Inr None) \<Longrightarrow> collect_loop f items it t = (Answered (Inr items), \<lparr>it_rowset = rs', current_iter = []\<rparr>, t')"
    and "r = Answered (Inl e) \<Longrightarrow> collect_loop f items it t = (Answered (Inl e), \<lparr>it_rowset = rs', current_iter = []\<rparr>, t')"
  using assms by (cases it; subst collect_loop.simps; simp add: RowIterator_next_def continue_def)+

lemma collect_tcp:
  assumes "open_stream cl ms t rest s sch rs"
    and "it = \<lparr>it_rowset = rs, current_iter = []\<rparr>"
  shows "\<exists>rs' s' c'. collect_loop (\<lambda>row. Some (g row)) items it (Tcp cl) =
      (Answered (case first_error ms of
          None \<Rightarrow> Inr (items @ map g (map (tcp_row sch) (rows_of ms)))
        | Some b \<Rightarrow> Inl (from_client_error (parse_error_response b))),
       \<lparr>it_rowset = rs', current_iter = []\<rparr>, at cl c' False) \<and>
    rs_inner rs' = InnerTcp s' \<and> \<not> qs_conn s' \<and> statement_guard rs' = statement_guard rs \<and>
    advanced (guarded (connection cl)) rest c'"
  using assms
proof (induction "length ms" arbitrary: ms cl s rs it items rule: less_induct)
  case less
  have pos: "0 < chunk_size s"
    using less.prems(1) by (simp add: open_stream_def)
  obtain rows st where tk: "take_rows (chunk_size s) ms = (rows, st)"
    by (cases "take_rows (chunk_size s) ms")
  note spec = take_rows_spec [OF tk pos]
  obtain rs1 s1 c1 where one: "rs_inner rs1 = InnerTcp s1" "statement_guard rs1 = statement_guard rs"
    and call: "case st of
       Full ms' \<Rightarrow> Rowset_next_chunk rs (Tcp cl) = (Answered (Inr (Some (map (tcp_row sch) rows))), rs1, at cl c1 True) \<and>
         advanced (guarded (connection cl)) (wire (ms' @ [ReadyForQuery t]) @ rest) c1 \<and>
         open_stream (cl\<lparr>connection := (connection cl)\<lparr>guarded := c1, held := True\<rparr>\<rparr>) ms' t rest s1 sch rs1 \<and>
         chunk_size s1 = chunk_size s
     | Ended \<Rightarrow> Rowset_next_chunk rs (Tcp cl) =
           (Answered (Inr (if rows = [] then None else Some (map (tcp_row sch) rows))), rs1, at cl c1 False) \<and>
         \<not> qs_conn s1 \<and> advanced (guarded (connection cl)) rest c1
     | Failed b \<Rightarrow> Rowset_next_chunk rs (Tcp cl) =
           (Answered (Inl (from_client_error (parse_error_response b))), rs1, at cl c1 False) \<and>
         \<not> qs_conn s1 \<and> advanced (guarded (connection cl)) rest c1"
    using tcp_next_chunk [OF less.prems(1) tk] by blast
  note it = less.prems(2)
  show ?case
  proof (cases st)
    case (Full ms')
    let ?cl = "cl\<lparr>connection := (connection cl)\<lparr>guarded := c1, held := True\<rparr>\<rparr>"
    have rows: "rows \<noteq> []" and len: "length ms' < length ms"
      using spec pos Full tk take_rows_shorter by auto
    from less.hyps [OF len _ refl, of ?cl s1 rs1 "items @ map g (map (tcp_row sch) rows)"] call Full
    obtain rs2 s2 c2 where
      "collect_loop (\<lambda>row. Some (g row)) (items @ map g (map (tcp_row sch) rows)) \<lparr>it_rowset = rs1, current_iter = []\<rparr> (Tcp ?cl) =
        (Answered (case first_error ms' of
            None \<Rightarrow> Inr ((items @ map g (map (tcp_row sch) rows)) @ map g (map (tcp_row sch) (rows_of ms')))
          | Some b \<Rightarrow> Inl (from_client_error (parse_error_response b))),
         \<lparr>it_rowset = rs2, current_iter = []\<rparr>, at ?cl c2 False)"
      "rs_inner rs2 = InnerTcp s2" "\<not> qs_conn s2" "statement_guard rs2 = statement_guard rs1" "advanced c1 rest c2"
      by auto
    moreover have "collect_loop (\<lambda>row. Some (g row)) items it (Tcp cl) =
        collect_loop (\<lambda>row. Some (g row)) (items @ map g (map (tcp_row sch) rows)) \<lparr>it_rowset = rs1, current_iter = []\<rparr> (Tcp ?cl)"
      using call Full rows it collect_chunk [of it "Tcp cl" "map (tcp_row sch) rows" rs1 "Tcp ?cl" g items] by simp
    moreover have "first_error ms' = first_error ms" "rows_of ms = rows @ rows_of ms'"
      using spec Full by simp_all
    ultimately show ?thesis
      using one(2) call Full advanced_trans [of "guarded (connection cl)" _ c1 rest c2]
      by (intro exI [of _ rs2] exI [of _ s2] exI [of _ c2]) (auto split: option.split)
  next
    case Ended
    then have rows: "rows_of ms = rows" "first_error ms = None"
      using spec by simp_all
    show ?thesis
    proof (cases "rows = []")
      case True
      with call Ended it collect_stop(1) [of it "Tcp cl" _ rs1 "at cl c1 False" "\<lambda>row. Some (g row)" items] rows one show ?thesis
        by (intro exI [of _ rs1] exI [of _ s1] exI [of _ c1]) simp
    next
      case False
      with call Ended it have "collect_loop (\<lambda>row. Some (g row)) items it (Tcp cl) =
          collect_loop (\<lambda>row. Some (g row)) (items @ map g (map (tcp_row sch) rows)) \<lparr>it_rowset = rs1, current_iter = []\<rparr> (at cl c1 False)"
        using collect_chunk [of it "Tcp cl" "map (tcp_row sch) rows" rs1 "at cl c1 False" g items] by simp
      with call Ended one rows ended_next_chunk [OF one(1)]
        collect_stop(1) [of "\<lparr>it_rowset = rs1, current_iter = []\<rparr>" "at cl c1 False" _ rs1 "at cl c1 False" "\<lambda>row. Some (g row)"]
      show ?thesis
        by (intro exI [of _ rs1] exI [of _ s1] exI [of _ c1]) simp
    qed
  next
    case (Failed b)
    with call it collect_stop(2) [of it "Tcp cl" _ rs1 "at cl c1 False" _ "\<lambda>row. Some (g row)" items] spec one show ?thesis
      by (intro exI [of _ rs1] exI [of _ s1] exI [of _ c1]) simp
  qed
qed

text \<open>Reading exactly one's own answer, on a stream that carries it.\<close>

lemma own_answer_advanced:
  assumes "list_all sendable ms" "list_all not_ready ms" "quiet c" "unread c = wire (ms @ [ReadyForQuery t]) @ rest" "own_answer c c'"
  shows "advanced c rest c'"
proof -
  obtain rs u where "list_all before_ready rs" "reading c (rs @ [Inr (ReadyForQuery u)]) c'"
    using assms(5) by (auto simp: own_answer_def)
  with assms(1-4) show ?thesis
  proof (induction ms arbitrary: c rs)
    case Nil
    then obtain c1 where c1: "read_message c = (Inr (ReadyForQuery t), c1)" "advanced c rest c1"
      using read_advances [of c "ReadyForQuery t" rest] by auto
    with Nil.prems(5,6) show ?case
      by (cases rs) (auto elim!: reading_ConsE)
  next
    case (Cons m ms)
    then obtain c1 where c1: "read_message c = (Inr m, c1)" "advanced c (wire (ms @ [ReadyForQuery t]) @ rest) c1"
      using read_advances [of c m "wire (ms @ [ReadyForQuery t]) @ rest"] by auto
    with Cons.prems(2,6) obtain rs' where "rs = Inr m # rs'" "reading c1 (rs' @ [Inr (ReadyForQuery u)]) c'"
      by (cases rs) (auto elim!: reading_ConsE)
    with Cons.IH [of c1 rs'] Cons.prems c1(2) have "advanced c1 rest c'"
      by (simp add: advanced_def)
    with c1(2) advanced_trans show ?case
      by blast
  qed
qed

text \<open>Dropping a row set in the middle of its answer leaves a connection that is marked or in step.\<close>

lemma open_drop:
  assumes "open_stream cl ms t rest s sch rs"
  shows "\<exists>c'. drop_inner (rs_inner rs) (Tcp cl) = at cl c' False \<and>
    (desynchronized c' \<or> advanced (guarded (connection cl)) rest c')"
proof -
  let ?c = "guarded (connection cl)"
  have o: "answers ms" "quiet ?c" "unread ?c = wire (ms @ [ReadyForQuery t]) @ rest" "\<not> finished s" "qs_conn s"
      "rs_inner rs = InnerTcp s"
    using assms by (simp_all add: open_stream_def)
  have "desynchronized (drop_stream s ?c) \<or> own_answer ?c (drop_stream s ?c)"
    using query_stream.close_reads [OF o(4,5)] .
  with own_answer_advanced [of ms ?c t rest] o(1-3) have "desynchronized (drop_stream s ?c) \<or> advanced ?c rest (drop_stream s ?c)"
    by (auto simp: answers_def)
  with o(5,6) show ?thesis
    by (auto simp: drop_inner_def stream_drop_def Let_def)
qed

definition first_chunk :: "nat \<Rightarrow> Message list \<Rightarrow> ApiError + StreamRow list" where
  "first_chunk n ms =
     (case take_rows n ms of
        (rows, Failed b) \<Rightarrow> Inl (from_client_error (parse_error_response b))
      | (rows, _) \<Rightarrow> Inr rows)"

lemma first_row_tcp:
  assumes "open_stream cl ms t rest s sch rs"
  shows "\<exists>c'. first_row rs (Tcp cl) =
      (Answered (map_sum id (\<lambda>rows. case rows of [] \<Rightarrow> None | r # _ \<Rightarrow> Some (tcp_row sch r)) (first_chunk (chunk_size s) ms)),
       drop_guard (statement_guard rs) (at cl c' False)) \<and>
    (desynchronized c' \<or> advanced (guarded (connection cl)) rest c')"
proof -
  obtain rows st where tk: "take_rows (chunk_size s) ms = (rows, st)"
    by (cases "take_rows (chunk_size s) ms")
  from tcp_next_chunk [OF assms tk] obtain rs1 s1 c1 where
    one: "rs_inner rs1 = InnerTcp s1" "statement_guard rs1 = statement_guard rs"
    and call: "case st of
       Full ms' \<Rightarrow> Rowset_next_chunk rs (Tcp cl) = (Answered (Inr (Some (map (tcp_row sch) rows))), rs1, at cl c1 True) \<and>
         advanced (guarded (connection cl)) (wire (ms' @ [ReadyForQuery t]) @ rest) c1 \<and>
         open_stream (cl\<lparr>connection := (connection cl)\<lparr>guarded := c1, held := True\<rparr>\<rparr>) ms' t rest s1 sch rs1 \<and>
         chunk_size s1 = chunk_size s
     | Ended \<Rightarrow> Rowset_next_chunk rs (Tcp cl) =
           (Answered (Inr (if rows = [] then None else Some (map (tcp_row sch) rows))), rs1, at cl c1 False) \<and>
         \<not> qs_conn s1 \<and> advanced (guarded (connection cl)) rest c1
     | Failed b \<Rightarrow> Rowset_next_chunk rs (Tcp cl) =
           (Answered (Inl (from_client_error (parse_error_response b))), rs1, at cl c1 False) \<and>
         \<not> qs_conn s1 \<and> advanced (guarded (connection cl)) rest c1"
    by blast
  note result = first_row_def consume_def continue_def Rowset_drop_def first_chunk_def
  show ?thesis
  proof (cases st)
    case (Full ms')
    let ?cl = "cl\<lparr>connection := (connection cl)\<lparr>guarded := c1, held := True\<rparr>\<rparr>"
    from open_drop [of ?cl ms' t rest s1 sch rs1] call Full obtain c2 where
      "drop_inner (rs_inner rs1) (Tcp ?cl) = at ?cl c2 False" "desynchronized c2 \<or> advanced c1 rest c2"
      by auto
    with call Full one(2) tk advanced_trans [of "guarded (connection cl)" _ c1 rest c2] show ?thesis
      by (intro exI [of _ c2]) (auto simp: result split: list.split)
  next
    case Ended
    with call one tk ended_drop [OF one(1)] show ?thesis
      by (intro exI [of _ c1]) (auto simp: result split: list.split)
  next
    case (Failed b)
    with call one tk ended_drop [OF one(1)] show ?thesis
      by (intro exI [of _ c1]) (auto simp: result)
  qed
qed

lemma collect_rows_tcp:
  assumes "open_stream cl ms t rest s sch rs"
  shows "\<exists>c'. collect_rows rs (Tcp cl) =
      (Answered (case first_error ms of
          None \<Rightarrow> Inr (map (tcp_row sch) (rows_of ms))
        | Some b \<Rightarrow> Inl (from_client_error (parse_error_response b))),
       drop_guard (statement_guard rs) (at cl c' False)) \<and>
    advanced (guarded (connection cl)) rest c'"
proof -
  obtain rs' s' c' where l: "collect_loop Some [] (Rowset_rows rs) (Tcp cl) =
      (Answered (case first_error ms of
          None \<Rightarrow> Inr (map (tcp_row sch) (rows_of ms))
        | Some b \<Rightarrow> Inl (from_client_error (parse_error_response b))),
       \<lparr>it_rowset = rs', current_iter = []\<rparr>, at cl c' False)"
    "rs_inner rs' = InnerTcp s'" "\<not> qs_conn s'" "statement_guard rs' = statement_guard rs"
    "advanced (guarded (connection cl)) rest c'"
    using collect_tcp [OF assms refl, of "\<lambda>row. row" "[]", unfolded append_Nil list.map_ident]
    unfolding Rowset_rows_def by blast
  with ended_drop [OF l(2,3)] show ?thesis
    by (intro exI [of _ c']) (simp add: collect_rows_def collect_with_def consume_def Rowset_drop_def)
qed

section \<open>A prepared stream\<close>

text \<open>A row set over a prepared stream does what one over a query stream does whose schema is known from the
  start.\<close>

fun as_tcp :: "RowsetInner \<Rightarrow> RowsetInner" where
  "as_tcp (InnerPrepared s) = InnerTcp (as_query_stream s)"
| "as_tcp source = source"

definition as_tcp_rowset :: "Rowset \<Rightarrow> Rowset" where
  "as_tcp_rowset rs = rs\<lparr>rs_inner := as_tcp (rs_inner rs)\<rparr>"

lemma as_tcp_rowset_simps [simp]:
  "rs_inner (as_tcp_rowset rs) = as_tcp (rs_inner rs)" "schema_cache (as_tcp_rowset rs) = schema_cache rs"
  "statement_guard (as_tcp_rowset rs) = statement_guard rs"
  "as_tcp_rowset (rs\<lparr>rs_inner := source\<rparr>) = rs\<lparr>rs_inner := as_tcp source\<rparr>"
  "as_tcp_rowset (rs\<lparr>schema_cache := c\<rparr>) = (as_tcp_rowset rs)\<lparr>schema_cache := c\<rparr>"
  "(as_tcp_rowset rs)\<lparr>rs_inner := source\<rparr> = rs\<lparr>rs_inner := source\<rparr>"
  by (simp_all add: as_tcp_rowset_def)

lemma transport_chunk_as_tcp:
  "transport_chunk (as_tcp source) t = (case transport_chunk source t of (r, source', t') \<Rightarrow> (r, as_tcp source', t'))"
proof (cases source)
  case (InnerPrepared s)
  show ?thesis
  proof (cases t)
    case (Tcp cl)
    obtain r s' c where p: "ps_next_chunk s (guarded (connection cl)) = (r, s', c)"
      by (metis prod_cases3)
    with ps_refines(1) [of s "guarded (connection cl)"]
    have "next_chunk (as_query_stream s) (guarded (connection cl)) = (r, as_query_stream s', c)"
      by simp
    with p InnerPrepared Tcp show ?thesis
      by (simp add: transport_chunk_def stream_fetch_def prepared_fetch_def)
  qed (simp add: transport_chunk_def InnerPrepared)
qed (simp_all add: transport_chunk_def split: Transport.split prod.split)

lemma build_schema_as_tcp: "build_schema (as_tcp_rowset rs) = build_schema rs"
  by (cases "rs_inner rs") (simp_all add: build_schema_def ps_schema_def)

lemma cached_schema_as_tcp:
  "cached_schema_arc (as_tcp_rowset rs) = (case cached_schema_arc rs of (sch, rs') \<Rightarrow> (sch, as_tcp_rowset rs'))"
  by (simp add: cached_schema_arc_def build_schema_as_tcp Let_def split: option.split)

lemma Rowset_next_chunk_as_tcp:
  "Rowset_next_chunk (as_tcp_rowset rs) t = (case Rowset_next_chunk rs t of (r, rs', t') \<Rightarrow> (r, as_tcp_rowset rs', t'))"
proof -
  obtain r source t' where x: "transport_chunk (rs_inner rs) t = (r, source, t')"
    by (metis prod_cases3)
  have s: "cached_schema_arc (rs\<lparr>rs_inner := as_tcp source\<rparr>) =
      (case cached_schema_arc (rs\<lparr>rs_inner := source\<rparr>) of (sch, rs') \<Rightarrow> (sch, as_tcp_rowset rs'))"
    using cached_schema_as_tcp [of "rs\<lparr>rs_inner := source\<rparr>"] by simp
  show ?thesis
    unfolding Rowset_next_chunk_def as_tcp_rowset_simps transport_chunk_as_tcp x
    by (cases r) (auto simp: continue_def s split: sum.split option.split prod.split)
qed

lemma drop_inner_as_tcp: "drop_inner (as_tcp source) t = drop_inner source t"
  by (cases source; cases t) (simp_all add: drop_inner_def stream_drop_def ps_refines(3))

lemma Rowset_drop_as_tcp: "Rowset_drop (as_tcp_rowset rs) t = Rowset_drop rs t"
  by (simp add: Rowset_drop_def drop_inner_as_tcp)

lemma first_row_as_tcp: "first_row (as_tcp_rowset rs) t = first_row rs t"
proof -
  obtain r rs' t' where x: "Rowset_next_chunk rs t = (r, rs', t')"
    by (metis prod_cases3)
  show ?thesis
    unfolding first_row_def Rowset_next_chunk_as_tcp x
    by (cases r) (auto simp: continue_def consume_def Rowset_drop_as_tcp split: sum.split)
qed

abbreviation as_tcp_iterator :: "RowIterator \<Rightarrow> RowIterator" where
  "as_tcp_iterator it \<equiv> it\<lparr>it_rowset := as_tcp_rowset (it_rowset it)\<rparr>"

lemma RowIterator_next_as_tcp:
  "RowIterator_next (as_tcp_iterator it) t =
     (case RowIterator_next it t of (r, it', t') \<Rightarrow> (r, as_tcp_iterator it', t'))"
proof (cases "current_iter it")
  case Nil
  obtain r rs' t' where x: "Rowset_next_chunk (it_rowset it) t = (r, rs', t')"
    by (metis prod_cases3)
  with Nil show ?thesis
    by (cases r) (auto simp: RowIterator_next_def Rowset_next_chunk_as_tcp continue_def split: sum.split option.split list.split)
qed (simp add: RowIterator_next_def)

lemma collect_loop_as_tcp:
  "collect_loop f items (as_tcp_iterator it) t =
     (case collect_loop f items it t of (r, it', t') \<Rightarrow> (r, as_tcp_iterator it', t'))"
proof (induction f items it t rule: collect_loop.induct)
  case (1 f items it t)
  obtain r it' t' where x: "RowIterator_next it t = (r, it', t')"
    by (metis prod_cases3)
  show ?case
  proof (cases "\<exists>row v. r = Answered (Inr (Some row)) \<and> f row = Some v")
    case True
    then obtain row v where r: "r = Answered (Inr (Some row))" "f row = Some v"
      by blast
    note IH = "1.IH" [OF x [symmetric] r(1) refl refl refl r(2)]
    from x r show ?thesis
      by (subst (1 2) collect_loop.simps) (simp add: RowIterator_next_as_tcp IH)
  next
    case False
    with x show ?thesis
      by (subst (1 2) collect_loop.simps)
        (auto simp: RowIterator_next_as_tcp split: answer.split sum.split option.split)
  qed
qed

lemma collect_with_as_tcp: "collect_with f (as_tcp_rowset rs) t = collect_with f rs t"
proof -
  have "Rowset_rows (as_tcp_rowset rs) = as_tcp_iterator (Rowset_rows rs)"
    by (simp add: Rowset_rows_def)
  then show ?thesis
    by (simp add: collect_with_def collect_loop_as_tcp consume_def Rowset_drop_as_tcp split: prod.split)
qed

section \<open>A row set over Arrow batches\<close>

abbreviation arrow_rows :: "ResultSchema option \<Rightarrow> RecordBatch \<Rightarrow> ApiRow list" where
  "arrow_rows sch b \<equiv> map (\<lambda>i. \<lparr>row_inner = RowArrow b i, row_schema = sch\<rparr>) [0..<num_rows b]"

definition arrow_rowset :: "(string \<times> DataType) list \<Rightarrow> (ApiError + RecordBatch) list \<Rightarrow> ResultSchema option \<Rightarrow> Rowset" where
  "arrow_rowset fs bs cache =
     \<lparr>rs_inner = InnerArrow \<lparr>arrow_fields = fs, arrow_batches = bs\<rparr>, schema_cache = cache, statement_guard = None\<rparr>"

lemma arrow_next_chunk:
  assumes "cache \<in> {None, Some (schema_of_fields fs)}"
  shows "Rowset_next_chunk (arrow_rowset fs (Inr b # bs) cache) t =
      (Answered (Inr (Some (arrow_rows (Some (schema_of_fields fs)) b))),
       arrow_rowset fs bs (Some (schema_of_fields fs)), t)"
    and "Rowset_next_chunk (arrow_rowset fs [] cache) t = (Answered (Inr None), arrow_rowset fs [] cache, t)"
  using assms
  by (auto simp: Rowset_next_chunk_def transport_chunk_def arrow_rowset_def ArrowRowset_next_chunk_def continue_def
      cached_schema_arc_def build_schema_def split: Transport.split)

lemma arrow_schema: "Rowset_schema (arrow_rowset fs bs (Some s)) = Some s"
  by (simp add: Rowset_schema_def arrow_rowset_def)

lemma arrow_drop: "Rowset_drop (arrow_rowset fs bs cache) t = t"
  by (cases t) (simp_all add: Rowset_drop_def arrow_rowset_def drop_inner_def drop_guard_def)

lemma collect_arrow:
  assumes "list_all (\<lambda>b. 0 < num_rows b) bs" "cache \<in> {None, Some (schema_of_fields fs)}"
  shows "\<exists>cache' \<in> {None, Some (schema_of_fields fs)}.
    collect_loop (\<lambda>row. Some (g row)) items \<lparr>it_rowset = arrow_rowset fs (map Inr bs @ later) cache, current_iter = []\<rparr> t =
    collect_loop (\<lambda>row. Some (g row)) (items @ map g (concat (map (arrow_rows (Some (schema_of_fields fs))) bs)))
      \<lparr>it_rowset = arrow_rowset fs later cache', current_iter = []\<rparr> t"
  using assms
proof (induction bs arbitrary: items cache)
  case (Cons b bs)
  have "collect_loop (\<lambda>row. Some (g row)) items
      \<lparr>it_rowset = arrow_rowset fs (map Inr (b # bs) @ later) cache, current_iter = []\<rparr> t =
    collect_loop (\<lambda>row. Some (g row)) (items @ map g (arrow_rows (Some (schema_of_fields fs)) b))
      \<lparr>it_rowset = arrow_rowset fs (map Inr bs @ later) (Some (schema_of_fields fs)), current_iter = []\<rparr> t"
    using Cons.prems arrow_next_chunk(1) [OF Cons.prems(2)] by (intro collect_chunk) auto
  with Cons.IH [of "Some (schema_of_fields fs)" "items @ map g (arrow_rows (Some (schema_of_fields fs)) b)"] Cons.prems(1)
  show ?case
    by auto
qed auto

text \<open>A consumer of a \<open>TypedRowIterator\<close> that takes items until the end; \<open>None\<close> when it is out of fuel or an item is
  not a value.\<close>

fun typed_all ::
  "nat \<Rightarrow> (RowAccessor \<Rightarrow> (ApiError + 'a) option) \<Rightarrow> TypedRowIterator \<Rightarrow> Transport \<Rightarrow> 'a list option" where
  "typed_all 0 from_row it t = None"
| "typed_all (Suc n) from_row it t =
     (case TypedRowIterator_next from_row it t of
        Some (Answered (Inr (Some v)), it', t') \<Rightarrow> map_option (Cons v) (typed_all n from_row it' t')
      | Some (Answered (Inr None), it', t') \<Rightarrow> Some []
      | _ \<Rightarrow> None)"

lemma typed_row:
  "from_row (RowAccessor_new_owned row m) = Some (Inr v) \<Longrightarrow>
     TypedRowIterator_next from_row \<lparr>tri_rowset = rs, tri_current = row # rest, tri_indices = Some m\<rparr> t =
     Some (Answered (Inr (Some v)), \<lparr>tri_rowset = rs, tri_current = rest, tri_indices = Some m\<rparr>, t)"
  by (subst TypedRowIterator_next.simps) simp

lemma typed_chunk:
  assumes "Rowset_next_chunk rs t = (Answered (Inr (Some rows)), rs', t')" "Rowset_schema rs' = Some s"
    and "i \<in> {None, Some (build_owned_indices s)}"
  shows "TypedRowIterator_next from_row \<lparr>tri_rowset = rs, tri_current = [], tri_indices = i\<rparr> t =
    TypedRowIterator_next from_row \<lparr>tri_rowset = rs', tri_current = rows, tri_indices = Some (build_owned_indices s)\<rparr> t'"
  using assms by (subst TypedRowIterator_next.simps) auto

lemma typed_all_rows:
  assumes "\<And>row. from_row (RowAccessor_new_owned row m) = Some (Inr (v row))"
    and "typed_all n from_row \<lparr>tri_rowset = rs, tri_current = [], tri_indices = Some m\<rparr> t = Some vs"
  shows "typed_all (length rows + n) from_row \<lparr>tri_rowset = rs, tri_current = rows, tri_indices = Some m\<rparr> t = Some (map v rows @ vs)"
  using assms(2) by (induction rows) (simp_all add: typed_row [where from_row = from_row, OF assms(1)])

lemma typed_arrow:
  fixes fs :: "(string \<times> DataType) list"
  defines "sch \<equiv> schema_of_fields fs"
  assumes "\<And>row. from_row (RowAccessor_new_owned row (build_owned_indices sch)) = Some (Inr (v row))"
    and "cache \<in> {None, Some sch}" "i \<in> {None, Some (build_owned_indices sch)}"
  shows "\<exists>n. typed_all n from_row \<lparr>tri_rowset = arrow_rowset fs (map Inr bs) cache, tri_current = [], tri_indices = i\<rparr> t =
    Some (map v (concat (map (arrow_rows (Some sch)) bs)))"
  using assms(3,4)
proof (induction bs arbitrary: cache i)
  case Nil
  then have "typed_all 1 from_row \<lparr>tri_rowset = arrow_rowset fs [] cache, tri_current = [], tri_indices = i\<rparr> t = Some []"
    using arrow_next_chunk(2) [of cache fs t] by (simp add: sch_def) (subst TypedRowIterator_next.simps, simp)
  then show ?case
    by (metis concat.simps(1) list.map(1))
next
  case (Cons b bs)
  from Cons.IH [of "Some sch" "Some (build_owned_indices sch)"] obtain n where
    "typed_all n from_row \<lparr>tri_rowset = arrow_rowset fs (map Inr bs) (Some sch), tri_current = [],
       tri_indices = Some (build_owned_indices sch)\<rparr> t = Some (map v (concat (map (arrow_rows (Some sch)) bs)))"
    by auto
  note rest = typed_all_rows [OF assms(2) this, of "arrow_rows (Some sch) b"]
  moreover have "TypedRowIterator_next from_row \<lparr>tri_rowset = arrow_rowset fs (map Inr (b # bs)) cache, tri_current = [],
        tri_indices = i\<rparr> t =
      TypedRowIterator_next from_row \<lparr>tri_rowset = arrow_rowset fs (map Inr bs) (Some sch),
        tri_current = arrow_rows (Some sch) b, tri_indices = Some (build_owned_indices sch)\<rparr> t"
    using Cons.prems arrow_next_chunk(1) [of cache fs b "map Inr bs" t]
    by (intro typed_chunk) (simp_all add: sch_def arrow_schema)
  ultimately obtain k where
    "typed_all (Suc k) from_row \<lparr>tri_rowset = arrow_rowset fs (map Inr (b # bs)) cache, tri_current = [], tri_indices = i\<rparr> t =
      Some (map v (arrow_rows (Some sch) b) @ map v (concat (map (arrow_rows (Some sch)) bs)))"
    by (cases "length (arrow_rows (Some sch) b) + n") auto
  then show ?case
    by (intro exI [of _ "Suc k"]) simp
qed

section \<open>The same value over both transports\<close>

text \<open>A value of a column, as the server sends it: its HyperBinary bytes in a row of the TCP protocol, or a
  slot of an Arrow array. Arrow counts days and microseconds from 1970 and intervals in nanoseconds.\<close>

datatype cell =
    CellSmall i16 | CellInt i32 | CellBig i64 | CellFloat f32 | CellDouble f64 | CellBool bool | CellText string | CellBytes bytes
  | CellDate Date | CellTime Time | CellTimestamp Timestamp | CellInterval Interval | CellNumeric Numeric

fun cell_ok :: "cell \<Rightarrow> bool" where
  "cell_ok (CellText s) \<longleftrightarrow> utf8_valid (as_bytes s)"
| "cell_ok (CellDate d) \<longleftrightarrow> MIN_DAYS \<le> sint (date_days d) \<and> sint (date_days d) \<le> MAX_DAYS"
| "cell_ok (CellTime t) \<longleftrightarrow> time_micros t \<le> MAX_MICROSECONDS"
| "cell_ok (CellNumeric n) \<longleftrightarrow> 0 \<le> sint (num_scale n)"
| "cell_ok _ \<longleftrightarrow> True"

fun hyper_bytes :: "cell \<Rightarrow> bytes" where
  "hyper_bytes (CellSmall x) = to_le_bytes x"
| "hyper_bytes (CellInt x) = to_le_bytes x"
| "hyper_bytes (CellBig x) = to_le_bytes x"
| "hyper_bytes (CellFloat x) = to_le_bytes x"
| "hyper_bytes (CellDouble x) = to_le_bytes x"
| "hyper_bytes (CellBool b) = [if b then 1 else 0]"
| "hyper_bytes (CellText s) = as_bytes s"
| "hyper_bytes (CellBytes b) = b"
| "hyper_bytes (CellDate d) = to_le_bytes (Date_encode d)"
| "hyper_bytes (CellTime t) = to_le_bytes (Time_encode t)"
| "hyper_bytes (CellTimestamp t) = to_le_bytes (Timestamp_encode t)"
| "hyper_bytes (CellInterval i) = Interval_encode i"
| "hyper_bytes (CellNumeric n) = Numeric_encode n"

definition at_slot :: "'v option list \<Rightarrow> nat \<Rightarrow> 'v \<Rightarrow> bool" where
  "at_slot xs i v \<longleftrightarrow> i < length xs \<and> xs ! i = Some v"

fun in_array :: "cell \<Rightarrow> ArrowArray \<Rightarrow> nat \<Rightarrow> bool" where
  "in_array (CellSmall x) a i \<longleftrightarrow> (\<exists>xs. a = Int16Array xs \<and> at_slot xs i x)"
| "in_array (CellInt x) a i \<longleftrightarrow> (\<exists>xs. a = Int32Array xs \<and> at_slot xs i x)"
| "in_array (CellBig x) a i \<longleftrightarrow> (\<exists>xs. a = Int64Array xs \<and> at_slot xs i x)"
| "in_array (CellFloat x) a i \<longleftrightarrow> (\<exists>xs. a = Float32Array xs \<and> at_slot xs i x)"
| "in_array (CellDouble x) a i \<longleftrightarrow> (\<exists>xs. a = Float64Array xs \<and> at_slot xs i x)"
| "in_array (CellBool b) a i \<longleftrightarrow> (\<exists>xs. a = BooleanArray xs \<and> at_slot xs i b)"
| "in_array (CellText s) a i \<longleftrightarrow> (\<exists>xs. (a = StringArray xs \<or> a = LargeStringArray xs) \<and> at_slot xs i s)"
| "in_array (CellBytes b) a i \<longleftrightarrow> (\<exists>xs. (a = BinaryArray xs \<or> a = LargeBinaryArray xs) \<and> at_slot xs i b)"
| "in_array (CellDate d) a i \<longleftrightarrow>
     (\<exists>xs u. a = Date32Array xs \<and> at_slot xs i u \<and> sint u = sint (date_days d) + 10957)"
| "in_array (CellTime t) a i \<longleftrightarrow> (\<exists>xs. a = Time64MicrosecondArray xs \<and> at_slot xs i (time_micros t))"
| "in_array (CellTimestamp t) a i \<longleftrightarrow>
     (\<exists>tz xs u. a = TimestampMicrosecondArray tz xs \<and> at_slot xs i u \<and> sint u = sint (ts_micros t) + 946684800000000)"
| "in_array (CellInterval v) a i \<longleftrightarrow>
     (\<exists>xs u. a = IntervalMonthDayNanoArray xs \<and> at_slot xs i u \<and> mdn_months u = iv_months v \<and> mdn_days u = iv_days v \<and>
        sint (mdn_nanoseconds u) = sint (iv_micros v) * 1000)"
| "in_array (CellNumeric n) a i \<longleftrightarrow>
     (\<exists>p xs. a = Decimal128Array p (num_scale n) xs \<and> at_slot xs i (num_value n)) \<or>
     (\<exists>p xs u. a = Decimal256Array p (num_scale n) xs \<and> at_slot xs i u \<and> sint u = sint (num_value n))"

text \<open>The typed reads a caller may make of a column of that type, widening ones included.\<close>

fun reads_as :: "(f64 \<Rightarrow> f32) \<Rightarrow> (f32 \<Rightarrow> f64) \<Rightarrow> ApiRow \<Rightarrow> nat \<Rightarrow> cell \<Rightarrow> bool" where
  "reads_as a f r i (CellSmall x) \<longleftrightarrow> ApiRow_get_i16 r i = Some (Some x) \<and>
     i32_from_row r i = Some (Some (scast x)) \<and> i64_from_row r i = Some (Some (scast x))"
| "reads_as a f r i (CellInt x) \<longleftrightarrow> ApiRow_get_i32 r i = Some (Some x) \<and>
     i32_from_row r i = Some (Some x) \<and> i64_from_row r i = Some (Some (scast x))"
| "reads_as a f r i (CellBig x) \<longleftrightarrow> ApiRow_get_i64 r i = Some (Some x) \<and> i64_from_row r i = Some (Some x)"
| "reads_as a f r i (CellFloat x) \<longleftrightarrow> ApiRow_get_f32 a r i = Some (Some x) \<and> f64_from_row a f r i = Some (Some (f x))"
| "reads_as a f r i (CellDouble x) \<longleftrightarrow> ApiRow_get_f64 f r i = Some (Some x) \<and> f64_from_row a f r i = Some (Some x)"
| "reads_as a f r i (CellBool b) \<longleftrightarrow> ApiRow_get_bool r i = Some (Some b)"
| "reads_as a f r i (CellText s) \<longleftrightarrow> ApiRow_get_string r i = Some (Some s)"
| "reads_as a f r i (CellBytes b) \<longleftrightarrow> ApiRow_get_bytes r i = Some (Some b)"
| "reads_as a f r i (CellDate d) \<longleftrightarrow> ApiRow_get_date r i = Some (Some d)"
| "reads_as a f r i (CellTime t) \<longleftrightarrow> ApiRow_get_time r i = Some (Some t)"
| "reads_as a f r i (CellTimestamp t) \<longleftrightarrow> ApiRow_get_timestamp r i = Some (Some t) \<and>
     ApiRow_get_offset_timestamp r i = Some (Some \<lparr>ots_timestamp = t, offset_minutes = 0\<rparr>)"
| "reads_as a f r i (CellInterval v) \<longleftrightarrow> ApiRow_get_interval r i = Some (Some v)"
| "reads_as a f r i (CellNumeric n) \<longleftrightarrow> ApiRow_get_numeric r i = Some (Some n)"

lemmas row_getters = ApiRow_get_i16_def ApiRow_get_i32_def ApiRow_get_i64_def ApiRow_get_f32_def ApiRow_get_f64_def
  ApiRow_get_bool_def ApiRow_get_string_def ApiRow_get_bytes_def ApiRow_get_date_def ApiRow_get_time_def
  ApiRow_get_timestamp_def ApiRow_get_offset_timestamp_def ApiRow_get_interval_def i32_from_row_def i64_from_row_def
  f64_from_row_def per_transport_def or_else_value_def

text \<open>A numeric column over TCP has its scale in the schema.\<close>

definition typed_for :: "cell \<Rightarrow> ApiRow \<Rightarrow> nat \<Rightarrow> bool" where
  "typed_for c r i \<longleftrightarrow> (\<forall>n. c = CellNumeric n \<longrightarrow> (\<exists>p. ApiRow_sql_type r i = Some (SqlNumeric p (ucast (num_scale n)))))"

lemma tcp_reads:
  assumes "cell_ok c" "row_inner r = RowTcp row" "Stream_get_bytes row i = Some (hyper_bytes c)" "typed_for c r i"
  shows "reads_as a f r i c"
proof (cases c)
  case (CellDate d)
  with assms(1) Date_try_decode_encode(1) [of d] have "Date_FromHyperBinary (to_le_bytes (Date_encode d)) = Inr d"
    by (simp add: Date_FromHyperBinary_def from_to_le_bytes)
  with CellDate assms show ?thesis
    by (simp add: row_getters hyper_from_stream_row_def ok_def)
next
  case (CellTime t)
  then have "Time_FromHyperBinary (to_le_bytes (Time_encode t)) = Inr t"
    using assms(1) by (simp add: Time_FromHyperBinary_def from_to_le_bytes Time_encode_def Time_try_from_microseconds_def)
  with CellTime assms show ?thesis
    by (simp add: row_getters hyper_from_stream_row_def ok_def)
next
  case (CellTimestamp t)
  have "Timestamp_FromHyperBinary (to_le_bytes (Timestamp_encode t)) = Inr t"
    by (simp add: Timestamp_FromHyperBinary_def from_to_le_bytes Timestamp_codec)
  with CellTimestamp assms show ?thesis
    by (simp add: row_getters hyper_from_stream_row_def ok_def OffsetTimestamp_FromHyperBinary_def)
next
  case (CellInterval v)
  have "length (Interval_encode v) = 16"
    by (simp add: Interval_encode_def)
  with CellInterval assms show ?thesis
    by (simp add: row_getters hyper_from_stream_row_def ok_def Interval_FromHyperBinary_def Interval_decode_encode)
next
  case (CellNumeric n)
  then obtain p where "ApiRow_sql_type r i = Some (SqlNumeric p (ucast (num_scale n)))"
    using assms(4) by (auto simp: typed_for_def)
  moreover have "unat (num_scale n) < 256"
    using unsigned_less [of "num_scale n"] by simp
  then have "unat (ucast (num_scale n) :: u32) \<le> 255"
    by (simp add: unsigned_ucast_eq take_bit_nat_eq_self)
  moreover have "(ucast (ucast (num_scale n) :: u32) :: u8) = num_scale n"
    by (rule bit_word_eqI) (auto simp: bit_simps)
  ultimately show ?thesis
    using CellNumeric assms decode_encode_i128 [of n] by (simp add: ApiRow_get_numeric_def ok_def)
qed (use assms in \<open>simp_all add: row_getters Stream_get_i16_def Stream_get_i32_def Stream_get_i64_def Stream_get_f32_def
    Stream_get_f64_def Stream_get_bool_def Stream_get_string_def le_value_def bool_value_def byte_of_def from_to_le_bytes
    from_utf8_as_bytes\<close>)

lemma arrow_reads:
  assumes "cell_ok c" "row_inner r = RowArrow b k" "arrow_column b i = Some col" "in_array c col k"
  shows "reads_as a f r i c"
proof (cases c)
  case (CellDate d)
  with assms(4) obtain xs u where u: "col = Date32Array xs" "at_slot xs k u" "sint u = sint (date_days d) + 10957"
    by auto
  then have "date_from_arrow col k = Some (Some d)"
    using sint_i32_bounds [of "date_days d"]
    by (simp add: date_from_arrow_def slot_def at_slot_def UNIX_TO_HYPER_DAYS_def panic_free Date_from_days_def)
  with CellDate assms show ?thesis
    by (simp add: row_getters on_arrow_def)
next
  case (CellTime t)
  with assms(4) obtain xs where u: "col = Time64MicrosecondArray xs" "at_slot xs k (time_micros t)"
    by auto
  have "uint (time_micros t) \<le> 86399999999"
    using assms(1) CellTime by (simp add: time_consts word_le_def)
  then have "\<not> sint (time_micros t) < 0"
    using signed_take_bit_int_eq_self [of 63 "uint (time_micros t)"] uint_nonnegative [of "time_micros t"]
    unfolding sint_uint by simp
  with u have "time_from_arrow col k = Some (Some t)"
    by (simp add: time_from_arrow_def slot_def at_slot_def)
  with CellTime assms show ?thesis
    by (simp add: row_getters on_arrow_def)
next
  case (CellTimestamp t)
  with assms(4) obtain tz xs u where u: "col = TimestampMicrosecondArray tz xs" "at_slot xs k u"
      "sint u = sint (ts_micros t) + 946684800000000"
    by auto
  then have "timestamp_from_arrow col k = Some (Some t)"
    using sint_i64_bounds [of "ts_micros t"]
    by (simp add: timestamp_from_arrow_def slot_def at_slot_def UNIX_TO_HYPER_MICROS_def panic_free)
  with CellTimestamp assms show ?thesis
    by (simp add: row_getters on_arrow_def offset_timestamp_from_arrow_def)
next
  case (CellInterval v)
  with assms(4) obtain xs u where u: "col = IntervalMonthDayNanoArray xs" "at_slot xs k u" "mdn_months u = iv_months v"
      "mdn_days u = iv_days v" "sint (mdn_nanoseconds u) = sint (iv_micros v) * 1000"
    by auto
  have "sint (iv_micros v) * 1000 sdiv 1000 = sint (iv_micros v)"
    by (simp add: signed_divide_int_def abs_mult sgn_mult mult_sgn_abs)
  with u have "interval_from_arrow col k = Some (Some v)"
    by (simp add: interval_from_arrow_def slot_def at_slot_def Interval_new_def)
  with CellInterval assms show ?thesis
    by (simp add: row_getters on_arrow_def)
next
  case (CellNumeric n)
  then have s: "\<not> sint (num_scale n) < 0"
    using assms(1) by simp
  have narrow: "try_narrow (u :: 256 word) = Some (num_value n)" if "sint u = sint (num_value n)" for u
    using that sint_greater_eq [of "num_value n"] sint_less [of "num_value n"] by (simp add: try_narrow_def)
  have "numeric_from_arrow col k = Some (Some n)"
    using assms(4) CellNumeric s by (auto simp: numeric_from_arrow_def slot_def at_slot_def Numeric_new_def narrow)
  with CellNumeric assms show ?thesis
    by (simp add: ApiRow_get_numeric_def on_arrow_def)
qed (use assms in \<open>auto simp: row_getters on_arrow_def at_slot_def own_column unless_null_inside i32_from_arrow_def
    i64_from_arrow_def string_from_arrow_def bytes_from_arrow_def f64_from_arrow_def f32_from_arrow_def\<close>)

text \<open>The null test of a row over TCP.\<close>

lemma skip_column_put:
  assumes "\<And>v. c = Some v \<Longrightarrow> length v < 2 ^ 31"
  shows "skip_columns (Suc n) (put_column c @ buf) = skip_columns n buf"
  using assms by (cases c) (simp_all add: put_column_def Let_def sint_of_small_nat)

lemma is_column_null_put:
  assumes "row_fits cols" "i < length cols"
  shows "is_column_null (put_row cols) i \<longleftrightarrow> cols ! i = None"
proof -
  have small: "list_all (\<lambda>c. case c of None \<Rightarrow> True | Some v \<Rightarrow> length v < 2 ^ 31) cols"
    and len: "unat (row_len (put_row cols)) = length cols"
    using assms(1) by (simp_all add: row_fits_def put_row_def unat_of_nat)
  from small assms(2) have "\<exists>buf. skip_columns i (concat (map put_column cols)) = Some (put_column (cols ! i) @ buf)"
  proof (induction cols arbitrary: i)
    case (Cons c cols)
    show ?case
    proof (cases i)
      case (Suc j)
      with Cons.IH [of j] Cons.prems skip_column_put [of c j "concat (map put_column cols)"] show ?thesis
        by (cases c) (auto simp del: skip_columns.simps(2))
    qed auto
  qed simp
  moreover have "\<And>v. cols ! i = Some v \<Longrightarrow> length v < 2 ^ 31"
    using small assms(2) by (auto simp: list_all_length)
  ultimately show ?thesis
    using len assms(2)
    by (cases "cols ! i") (auto simp: is_column_null_def put_row_def put_column_def sint_of_small_nat)
qed

section \<open>Properties\<close>



text \<open>C38. A batch without rows ends the iteration over an Arrow result. \<open>collect_rows\<close>, and with it \<open>fetch_all\<close>,
  returns the rows of the batches before the first empty one and reports success, whatever batches follow;
  \<open>first_row\<close> says there is no row when the first batch is empty. The typed iterator of \<open>stream_as\<close> goes on past the
  empty batch and delivers the rows of all batches.\<close>

theorem empty_batch_ends_iteration:
  assumes "list_all (\<lambda>b. 0 < num_rows b) bs" "num_rows b = 0"
    and "\<And>row. from_row (RowAccessor_new_owned row (build_owned_indices (schema_of_fields fs))) = Some (Inr (v row))"
  shows "collect_rows (Rowset_from_arrow \<lparr>arrow_fields = fs, arrow_batches = map Inr (bs @ b # later)\<rparr>) t =
      (Answered (Inr (concat (map (arrow_rows (Some (schema_of_fields fs))) bs))), t) \<and>
    first_row (Rowset_from_arrow \<lparr>arrow_fields = fs, arrow_batches = map Inr (b # later)\<rparr>) t = (Answered (Inr None), t) \<and>
    (\<exists>n. typed_all n from_row
        (TypedRowIterator_new (Rowset_from_arrow \<lparr>arrow_fields = fs, arrow_batches = map Inr (bs @ b # later)\<rparr>)) t =
      Some (map v (concat (map (arrow_rows (Some (schema_of_fields fs))) (bs @ later)))))"
proof -
  let ?rs = "Rowset_from_arrow \<lparr>arrow_fields = fs, arrow_batches = map Inr (bs @ b # later)\<rparr>"
  have rs: "?rs = arrow_rowset fs (map Inr bs @ map Inr (b # later)) None"
    by (simp add: Rowset_from_arrow_def arrow_rowset_def)
  obtain cache where cache: "cache \<in> {None, Some (schema_of_fields fs)}"
    and "collect_loop Some [] (Rowset_rows ?rs) t =
      collect_loop Some (concat (map (arrow_rows (Some (schema_of_fields fs))) bs))
        \<lparr>it_rowset = arrow_rowset fs (map Inr (b # later)) cache, current_iter = []\<rparr> t"
    using collect_arrow [OF assms(1), of None fs "\<lambda>row. row" "[]" "map Inr (b # later)" t] rs
    by (auto simp: Rowset_rows_def)
  moreover have "collect_loop Some items
      \<lparr>it_rowset = arrow_rowset fs (map Inr (b # later)) cache, current_iter = []\<rparr> t =
    (Answered (Inr items), \<lparr>it_rowset = arrow_rowset fs (map Inr later) (Some (schema_of_fields fs)), current_iter = []\<rparr>, t)" for items
    using arrow_next_chunk(1) [OF cache, of b "map Inr later" t] assms(2)
    by (subst collect_loop.simps) (simp add: RowIterator_next_def continue_def)
  ultimately have "collect_rows ?rs t = (Answered (Inr (concat (map (arrow_rows (Some (schema_of_fields fs))) bs))), t)"
    by (simp add: collect_rows_def collect_with_def consume_def arrow_drop)
  moreover have "first_row (Rowset_from_arrow \<lparr>arrow_fields = fs, arrow_batches = map Inr (b # later)\<rparr>) t = (Answered (Inr None), t)"
    using arrow_next_chunk(1) [of None fs b "map Inr later" t] assms(2)
    by (simp add: Rowset_from_arrow_def arrow_rowset_def [symmetric] first_row_def continue_def consume_def arrow_drop)
  moreover have "\<exists>n. typed_all n from_row (TypedRowIterator_new ?rs) t =
      Some (map v (concat (map (arrow_rows (Some (schema_of_fields fs))) (bs @ later))))"
    using typed_arrow [of from_row fs v None None "bs @ b # later" t] assms(2,3)
    by (simp add: TypedRowIterator_new_def rs [simplified])
  ultimately show ?thesis
    by blast
qed

definition demo_batch :: "i32 list \<Rightarrow> RecordBatch" where
  "demo_batch xs = \<lparr>batch_columns = [Int32Array (map Some xs)], num_rows = length xs\<rparr>"

theorem empty_batch_ends_iteration_witness:
  "collect_rows (Rowset_from_arrow \<lparr>arrow_fields = [(''x'', DInt32)],
      arrow_batches = map Inr [demo_batch [1], demo_batch [], demo_batch [2, 3]]\<rparr>) Grpc =
    (Answered (Inr (arrow_rows (Some (schema_of_fields [(''x'', DInt32)])) (demo_batch [1]))), Grpc) \<and>
   (\<exists>n. typed_all n (\<lambda>a. Some (Inr (i32_from_row (accessor_row a) 0)))
      (TypedRowIterator_new (Rowset_from_arrow \<lparr>arrow_fields = [(''x'', DInt32)],
         arrow_batches = map Inr [demo_batch [1], demo_batch [], demo_batch [2, 3]]\<rparr>)) Grpc =
      Some [Some (Some 1), Some (Some 2), Some (Some 3)])"
proof -
  have "RowAccessor_new_owned row m = \<lparr>accessor_row = row, accessor_indices = OwnedIndices m\<rparr>" for row m
    by (simp add: RowAccessor_new_owned_def)
  then show ?thesis
    using empty_batch_ends_iteration [of "[demo_batch [1]]" "demo_batch []" "\<lambda>a. Some (Inr (i32_from_row (accessor_row a) 0))"
        "[(''x'', DInt32)]" "\<lambda>row. i32_from_row row 0" "[demo_batch [2, 3]]" Grpc]
    by (simp add: demo_batch_def row_getters on_arrow_def arrow_column_def own_column upt_rec)
qed

end
