(* ===== verification/Sql_Params.thy ===== *)
theory Sql_Params
  imports Numeric_Decimal Row_Access Sql_Escape Sql_Types Datetime
begin

text \<open>
  Bound parameters, \<open>hyperdb-api/src/params.rs\<close>: the implementations of \<open>ToSqlParam\<close> with their encoding, wire format,
  type and SQL literal, the base-10000 encoding of a whole \<open>Numeric\<close>, and \<open>encode_params\<close> of \<open>prepared.rs\<close>.

  References and \<open>Some\<close> delegate to the value; \<open>None\<close> is NULL. The text of a float, the WKT of a geography, the
  lossy reading of bytes as UTF-8 and the text of a JSON value come from other libraries and are arguments. The
  specification is the server's reading of a parameter: the binary input functions of PostgreSQL's types,
  big-endian and counted from 2000-01-01, and the decimal notation of a number in text.
\<close>

section \<open>The code\<close>

datatype param =
    PI16 i16 | PI32 i32 | PI64 i64 | PF32 f32 | PF64 f64 | PBool bool | PStr string | PNull
  | PDate Date | PTime Time | PTimestamp Timestamp | POffsetTimestamp OffsetTimestamp | PBytes bytes
  | PNumeric Numeric | PGeography Geography | PInterval Interval | PJson string

definition MAX_NUMERIC_GROUPS :: nat where "MAX_NUMERIC_GROUPS = 10"

text \<open>\<open>while mag > 0\<close>: the groups of four decimal digits, the lowest first. Writing past the array panics.\<close>

function numeric_groups :: "nat \<Rightarrow> nat list \<Rightarrow> nat list option" where
  "numeric_groups mag groups =
     (if mag = 0 then Some groups
      else if length groups \<ge> MAX_NUMERIC_GROUPS then None
      else numeric_groups (mag div 10000) (groups @ [mag mod 10000]))"
  by pat_completeness auto
termination
  by (relation "measure fst") auto

declare numeric_groups.simps [simp del]

definition pg_numeric_encode_unscaled :: "i128 \<Rightarrow> bytes option" where
  "pg_numeric_encode_unscaled unscaled =
     do { groups \<leftarrow> numeric_groups (nat \<bar>sint unscaled\<bar>) [];
          let ngroups = length groups;
          let weight = (if ngroups = 0 then 0 else ngroups - 1);
          Some (to_be_bytes (word_of_nat ngroups :: i16) @ to_be_bytes (word_of_nat weight :: i16) @
                to_be_bytes (if sint unscaled < 0 then 0x4000 else 0 :: i16) @ to_be_bytes (0 :: i16) @
                concat (map (\<lambda>g. to_be_bytes (word_of_nat g :: i16)) (rev groups))) }"

text \<open>\<open>encode_param\<close>; the outer option is a panic, the inner one SQL NULL.\<close>

fun encode_param :: "(Geography \<Rightarrow> string option) \<Rightarrow> param \<Rightarrow> bytes option option" where
  "encode_param wkt (PI16 x) = Some (Some (to_be_bytes x))"
| "encode_param wkt (PI32 x) = Some (Some (to_be_bytes x))"
| "encode_param wkt (PI64 x) = Some (Some (to_be_bytes x))"
| "encode_param wkt (PF32 x) = Some (Some (to_be_bytes x))"
| "encode_param wkt (PF64 x) = Some (Some (to_be_bytes x))"
| "encode_param wkt (PBool b) = Some (Some [if b then 1 else 0])"
| "encode_param wkt (PStr s) = Some (Some (as_bytes s))"
| "encode_param wkt PNull = Some None"
| "encode_param wkt (PDate d) = Some (Some (to_be_bytes (date_days d)))"
| "encode_param wkt (PTime t) = Some (Some (to_be_bytes (Time_to_microseconds t)))"
| "encode_param wkt (PTimestamp t) = Some (Some (to_be_bytes (ts_micros t)))"
| "encode_param wkt (POffsetTimestamp t) = Some (Some (to_be_bytes (ts_micros (ots_timestamp t))))"
| "encode_param wkt (PBytes b) = Some (Some b)"
| "encode_param wkt (PNumeric n) =
     (if num_scale n = 0 then map_option Some (pg_numeric_encode_unscaled (num_value n))
      else map_option (\<lambda>s. Some (as_bytes s)) (Numeric_fmt n))"
| "encode_param wkt (PGeography g) = Some (Some (case wkt g of Some s \<Rightarrow> as_bytes s | None \<Rightarrow> geo_data g))"
| "encode_param wkt (PInterval v) =
     Some (Some (to_be_bytes (iv_micros v) @ to_be_bytes (iv_days v) @ to_be_bytes (iv_months v)))"
| "encode_param wkt (PJson s) = Some (Some (as_bytes s))"

fun param_format :: "param \<Rightarrow> ParamFormat" where
  "param_format (PNumeric n) = (if num_scale n = 0 then ParamBinary else ParamText)"
| "param_format (PGeography g) = ParamText"
| "param_format _ = ParamBinary"

fun sql_oid :: "param \<Rightarrow> Oid" where
  "sql_oid (PI16 _) = SMALL_INT"
| "sql_oid (PI32 _) = INT_OID"
| "sql_oid (PI64 _) = BIG_INT"
| "sql_oid (PF32 _) = FLOAT_OID"
| "sql_oid (PF64 _) = DOUBLE_OID"
| "sql_oid (PBool _) = BOOL"
| "sql_oid (PStr _) = TEXT_OID"
| "sql_oid PNull = 0"
| "sql_oid (PDate _) = DATE_OID"
| "sql_oid (PTime _) = TIME_OID"
| "sql_oid (PTimestamp _) = TIMESTAMP"
| "sql_oid (POffsetTimestamp _) = TIMESTAMP_TZ"
| "sql_oid (PBytes _) = BYTE_A"
| "sql_oid (PNumeric n) = (if num_scale n = 0 then NUMERIC else 0)"
| "sql_oid (PGeography _) = GEOGRAPHY"
| "sql_oid (PInterval _) = INTERVAL_OID"
| "sql_oid (PJson _) = JSON"

text \<open>\<open>is_nan\<close> and \<open>is_infinite\<close> from the bits: \<open>e\<close> exponent bits above \<open>m\<close> bits of mantissa.\<close>

definition float_special :: "nat \<Rightarrow> ('a::len) word \<Rightarrow> bool" where
  "float_special m w \<longleftrightarrow> take_bit (LENGTH('a) - 1 - m) (drop_bit m w) = mask (LENGTH('a) - 1 - m)"

definition float_literal :: "nat \<Rightarrow> (('a::len) word \<Rightarrow> string) \<Rightarrow> 'a word \<Rightarrow> string" where
  "float_literal m to_str w =
     (if float_special m w then
        (if take_bit m w \<noteq> 0 then [CHR 0x27] @ ''NaN'' @ [CHR 0x27]
         else if \<not> bit w (LENGTH('a) - 1) then [CHR 0x27] @ ''Infinity'' @ [CHR 0x27]
         else [CHR 0x27] @ ''-Infinity'' @ [CHR 0x27])
      else to_str w)"

definition hex_byte :: "u8 \<Rightarrow> string" where
  "hex_byte b = map (\<lambda>n. ''0123456789abcdef'' ! n) [unat b div 16, unat b mod 16]"

definition quoted_literal :: "string \<Rightarrow> string" where
  "quoted_literal s = [CHR 0x27] @ concat (map (\<lambda>c. if c = CHR 0x27 then [CHR 0x27, CHR 0x27] else [c]) s) @ [CHR 0x27]"

record texts =
  f32_to_string :: "f32 \<Rightarrow> string"
  f64_to_string :: "f64 \<Rightarrow> string"
  to_wkt :: "Geography \<Rightarrow> string option"
  from_utf8_lossy :: "bytes \<Rightarrow> string"

text \<open>\<open>to_sql_literal\<close>; formatting a date or a time out of range panics.\<close>

fun to_sql_literal :: "texts \<Rightarrow> param \<Rightarrow> string option" where
  "to_sql_literal x (PI16 w) = Some (show_int (sint w))"
| "to_sql_literal x (PI32 w) = Some (show_int (sint w))"
| "to_sql_literal x (PI64 w) = Some (show_int (sint w))"
| "to_sql_literal x (PF32 w) = Some (float_literal 23 (f32_to_string x) w)"
| "to_sql_literal x (PF64 w) = Some (float_literal 52 (f64_to_string x) w)"
| "to_sql_literal x (PBool b) = Some (if b then ''TRUE'' else ''FALSE'')"
| "to_sql_literal x (PStr s) = Some (quoted_literal s)"
| "to_sql_literal x PNull = Some ''NULL''"
| "to_sql_literal x (PDate d) = map_option (\<lambda>s. ''DATE '' @ [CHR 0x27] @ s @ [CHR 0x27]) (Date_fmt d)"
| "to_sql_literal x (PTime t) = Some (''TIME '' @ [CHR 0x27] @ Time_fmt t @ [CHR 0x27])"
| "to_sql_literal x (PTimestamp t) = map_option (\<lambda>s. ''TIMESTAMP '' @ [CHR 0x27] @ s @ [CHR 0x27]) (Timestamp_fmt t)"
| "to_sql_literal x (POffsetTimestamp t) =
     map_option (\<lambda>s. ''TIMESTAMPTZ '' @ [CHR 0x27] @ s @ [CHR 0x27]) (OffsetTimestamp_fmt t)"
| "to_sql_literal x (PBytes b) =
     Some (''E'' @ [CHR 0x27, CHR 0x5C, CHR 0x5C] @ ''x'' @ concat (map hex_byte b) @ [CHR 0x27])"
| "to_sql_literal x (PNumeric n) = Numeric_fmt n"
| "to_sql_literal x (PGeography g) =
     Some (''CAST('' @ quoted_literal (case to_wkt x g of Some s \<Rightarrow> s | None \<Rightarrow> from_utf8_lossy x (geo_data g)) @
           '' AS TABLEAU.TABGEOGRAPHY)'')"
| "to_sql_literal x (PInterval v) = map_option (\<lambda>s. ''INTERVAL '' @ [CHR 0x27] @ s @ [CHR 0x27]) (Interval_fmt v)"
| "to_sql_literal x (PJson s) = Some (quoted_literal s)"

text \<open>\<open>encode_params\<close> of \<open>prepared.rs\<close>.\<close>

fun encode_params :: "(Geography \<Rightarrow> string option) \<Rightarrow> param list \<Rightarrow> (bytes option list \<times> ParamFormat list) option" where
  "encode_params wkt [] = Some ([], [])"
| "encode_params wkt (p # ps) =
     do { b \<leftarrow> encode_param wkt p;
          (bs, fs) \<leftarrow> encode_params wkt ps;
          Some (b # bs, param_format p # fs) }"

section \<open>What the server reads\<close>

datatype sql_value =
    VValue param \<comment> \<open>the value itself\<close>
  | VInstant Timestamp \<comment> \<open>a point in time, in UTC\<close>
  | VDecimal int nat \<comment> \<open>unscaled value and scale\<close>
  | VWkt string

definition be_value :: "bytes \<Rightarrow> ('a::len) word option" where
  "be_value b = (if length b = LENGTH('a) div 8 then Some (from_be_bytes b) else None)"

fun be_pairs :: "bytes \<Rightarrow> nat list" where
  "be_pairs (x # y # b) = unat (from_be_bytes [x, y] :: u16) # be_pairs b"
| "be_pairs _ = []"

text \<open>\<open>numeric_recv\<close>, for a number without a fractional part: the count of base-10000 digits, the power of the
  first one, the sign and the display scale, then the digits, the highest first.\<close>

definition read_pg_numeric :: "bytes \<Rightarrow> int option" where
  "read_pg_numeric b =
     (case be_pairs b of
        n # w # sign # dscale # ds \<Rightarrow>
          let weight = sint (word_of_nat w :: i16);
              v = foldl (\<lambda>v d. v * 10000 + d) 0 ds
          in if even (length b) \<and> length ds = n \<and> list_all (\<lambda>d. d < 10000) ds \<and> dscale = 0 \<and>
                sign \<in> {0, 0x4000} \<and> weight + 1 \<ge> int n then
               Some ((if sign = 0x4000 then - 1 else 1) * int (v * 10000 ^ nat (weight + 1 - int n)))
             else None
      | _ \<Rightarrow> None)"

text \<open>An unspecified type in text format is inferred; for a number it is read in decimal notation.\<close>

definition server_read :: "Oid \<Rightarrow> ParamFormat \<Rightarrow> bytes \<Rightarrow> sql_value option" where
  "server_read t f b =
     (case f of
        ParamText \<Rightarrow>
          if t = GEOGRAPHY then map_option VWkt (from_utf8 b)
          else do { s \<leftarrow> from_utf8 b; (v, k) \<leftarrow> parse_decimal s; Some (VDecimal v k) }
      | ParamBinary \<Rightarrow>
          if t = SMALL_INT then map_option (\<lambda>x. VValue (PI16 x)) (be_value b)
          else if t = INT_OID then map_option (\<lambda>x. VValue (PI32 x)) (be_value b)
          else if t = BIG_INT then map_option (\<lambda>x. VValue (PI64 x)) (be_value b)
          else if t = FLOAT_OID then map_option (\<lambda>x. VValue (PF32 x)) (be_value b)
          else if t = DOUBLE_OID then map_option (\<lambda>x. VValue (PF64 x)) (be_value b)
          else if t = BOOL then (case b of [x] \<Rightarrow> Some (VValue (PBool (x \<noteq> 0))) | _ \<Rightarrow> None)
          else if t = TEXT_OID then map_option (\<lambda>s. VValue (PStr s)) (from_utf8 b)
          else if t = JSON then map_option (\<lambda>s. VValue (PJson s)) (from_utf8 b)
          else if t = BYTE_A then Some (VValue (PBytes b))
          else if t = DATE_OID then map_option (\<lambda>x. VValue (PDate \<lparr>date_days = x\<rparr>)) (be_value b)
          else if t = TIME_OID then map_option (\<lambda>x. VValue (PTime \<lparr>time_micros = x\<rparr>)) (be_value b)
          else if t = TIMESTAMP then map_option (\<lambda>x. VValue (PTimestamp \<lparr>ts_micros = x\<rparr>)) (be_value b)
          else if t = TIMESTAMP_TZ then map_option (\<lambda>x. VInstant \<lparr>ts_micros = x\<rparr>) (be_value b)
          else if t = INTERVAL_OID then
            do { us \<leftarrow> be_value (take 8 b); d \<leftarrow> be_value (take 4 (drop 8 b)); m \<leftarrow> be_value (drop 12 b);
                 Some (VValue (PInterval \<lparr>iv_micros = us, iv_days = d, iv_months = m\<rparr>)) }
          else if t = NUMERIC then map_option (\<lambda>v. VDecimal v 0) (read_pg_numeric b)
          else None)"

fun meaning :: "(Geography \<Rightarrow> string option) \<Rightarrow> param \<Rightarrow> sql_value" where
  "meaning wkt (PNumeric n) = VDecimal (sint (num_value n)) (unat (num_scale n))"
| "meaning wkt (POffsetTimestamp t) = VInstant (ots_timestamp t)"
| "meaning wkt (PGeography g) = VWkt (the (wkt g))"
| "meaning wkt p = VValue p"

text \<open>Strings are UTF-8; a geography is one that has a WKT text.\<close>

fun param_ok :: "(Geography \<Rightarrow> string option) \<Rightarrow> param \<Rightarrow> bool" where
  "param_ok wkt (PStr s) \<longleftrightarrow> utf8_valid (as_bytes s)"
| "param_ok wkt (PJson s) \<longleftrightarrow> utf8_valid (as_bytes s)"
| "param_ok wkt (PGeography g) \<longleftrightarrow> (\<exists>s. wkt g = Some s \<and> utf8_valid (as_bytes s))"
| "param_ok wkt _ \<longleftrightarrow> True"

section \<open>Laws\<close>

interpretation param_literal: quoted_token "CHR 0x27" quoted_literal
  by unfold_locales (simp add: quoted_literal_def)

lemma be_value_bytes: "8 dvd LENGTH('a) \<Longrightarrow> be_value (to_be_bytes (w :: ('a::len) word)) = Some w"
  by (simp add: be_value_def from_to_be_bytes)

text \<open>The groups are the base-10000 digits of the magnitude, and ten of them are enough.\<close>

lemma numeric_groups_value:
  assumes "mag < 10000 ^ k" "length gs + k \<le> MAX_NUMERIC_GROUPS"
  shows "\<exists>ds. numeric_groups mag gs = Some (gs @ ds) \<and> length ds \<le> k \<and> list_all (\<lambda>d. d < 10000) ds \<and>
    foldl (\<lambda>v d. v * 10000 + d) 0 (rev ds) = mag"
  using assms
proof (induction k arbitrary: mag gs)
  case 0
  then show ?case
    by (simp add: numeric_groups.simps)
next
  case (Suc k)
  show ?case
  proof (cases "mag = 0")
    case True
    then show ?thesis
      by (auto simp: numeric_groups.simps)
  next
    case False
    have "mag div 10000 < 10000 ^ k"
      using Suc.prems(1) by (simp add: less_mult_imp_div_less mult.commute)
    with Suc.IH [of "mag div 10000" "gs @ [mag mod 10000]"] Suc.prems(2) obtain ds where
      "numeric_groups (mag div 10000) (gs @ [mag mod 10000]) = Some ((gs @ [mag mod 10000]) @ ds)" "length ds \<le> k"
      "list_all (\<lambda>d. d < 10000) ds" "foldl (\<lambda>v d. v * 10000 + d) 0 (rev ds) = mag div 10000"
      by auto
    with False Suc.prems(2) show ?thesis
      by (intro exI [of _ "mag mod 10000 # ds"]) (simp add: numeric_groups.simps [of mag])
  qed
qed

lemma be_pairs_words:
  "list_all (\<lambda>d. d < 2 ^ 16) ds \<Longrightarrow> be_pairs (concat (map (\<lambda>g. to_be_bytes (word_of_nat g :: i16)) ds)) = ds"
proof (induction ds)
  case (Cons d ds)
  obtain x y where xy: "to_be_bytes (word_of_nat d :: i16) = [x, y]"
    using length_to_be_bytes [of "word_of_nat d :: i16"]
    by (cases "to_be_bytes (word_of_nat d :: i16)"; cases "tl (to_be_bytes (word_of_nat d :: i16))") auto
  then have "unat (from_be_bytes [x, y] :: u16) = d"
    using from_to_be_bytes [of "word_of_nat d :: i16"] Cons.prems by (simp add: unat_of_nat)
  with Cons xy show ?case
    by simp
qed simp

lemma read_pg_numeric_pairs:
  assumes "be_pairs b = [length ds, w, s, 0] @ ds" "even (length b)" "list_all (\<lambda>d. d < 10000) ds" "s \<in> {0, 0x4000}"
    and "sint (word_of_nat w :: i16) = int w" "Suc w = length ds \<or> ds = [] \<and> w = 0"
  shows "read_pg_numeric b = Some ((if s = 0x4000 then - 1 else 1) * int (foldl (\<lambda>v d. v * 10000 + d) 0 ds))"
  using assms(2-6) unfolding read_pg_numeric_def assms(1) by (auto simp: Let_def)

lemma numeric_read:
  "\<exists>b. pg_numeric_encode_unscaled v = Some b \<and> read_pg_numeric b = Some (sint v)"
proof -
  let ?m = "nat \<bar>sint v\<bar>"
  have "\<bar>sint v\<bar> \<le> 2 ^ 127"
    using sint_greater_eq [of v] sint_less [of v] by simp
  then have "?m < 10000 ^ 10"
    by simp
  with numeric_groups_value [of ?m 10 "[]"] obtain ds where
    ds: "numeric_groups ?m [] = Some ds" "length ds \<le> 10" "list_all (\<lambda>d. d < 10000) ds"
      "foldl (\<lambda>v d. v * 10000 + d) 0 (rev ds) = ?m"
    by (auto simp: MAX_NUMERIC_GROUPS_def)
  let ?w = "if length ds = 0 then 0 else length ds - 1" and ?s = "if sint v < 0 then 0x4000 else 0 :: nat"
  let ?b = "concat (map (\<lambda>g. to_be_bytes (word_of_nat g :: i16)) ([length ds, ?w, ?s, 0] @ rev ds))"
  have enc: "pg_numeric_encode_unscaled v = Some ?b"
    by (simp add: pg_numeric_encode_unscaled_def ds(1) Let_def)
  have "list_all (\<lambda>d. d < 2 ^ 16) ([length ds, ?w, ?s, 0] @ rev ds)"
    using ds(2,3) by (auto simp: list_all_iff)
  then have pairs: "be_pairs ?b = [length ds, ?w, ?s, 0] @ rev ds"
    by (rule be_pairs_words)
  have weight: "sint (word_of_nat ?w :: i16) = int ?w"
    using ds(2) by (simp add: signed_of_nat signed_take_bit_int_eq_self)
  have "length (concat (map (\<lambda>g. to_be_bytes (word_of_nat g :: i16)) xs)) = 2 * length xs" for xs
    by (induction xs) simp_all
  then have even: "even (length ?b)"
    by simp
  have count: "Suc ?w = length (rev ds) \<or> rev ds = [] \<and> ?w = 0"
    by (cases ds) auto
  have "read_pg_numeric ?b = Some ((if ?s = 0x4000 then - 1 else 1) * int (foldl (\<lambda>v d. v * 10000 + d) 0 (rev ds)))"
    using pairs even weight ds(3) count by (intro read_pg_numeric_pairs) (simp_all add: list_all_iff)
  then have "read_pg_numeric ?b = Some (sint v)"
    unfolding ds(4) by (simp only:) simp
  with enc show ?thesis
    by blast
qed

lemma Numeric_fmt_ascii: "Numeric_fmt n = Some s \<Longrightarrow> utf8_valid (as_bytes s)"
proof -
  assume s: "Numeric_fmt n = Some s"
  let ?P = "\<lambda>c. char_digit c \<noteq> None \<or> c = CHR ''-'' \<or> c = CHR ''.''"
  let ?ds = "show_nat (nat \<bar>sint (num_value n)\<bar>)"
  have "set s \<subseteq> set ?ds \<union> {CHR ''-'', CHR ''.'', CHR ''0''}"
    using s by (auto simp: Numeric_fmt_eq Let_def show_int_def pad_zeros_def dest: in_set_takeD in_set_dropD split: if_splits)
  moreover have "\<forall>c \<in> set ?ds \<union> {CHR ''-'', CHR ''.'', CHR ''0''}. ?P c"
    using show_nat_digits [of "nat \<bar>sint (num_value n)\<bar>"] by (auto simp: list_all_iff char_digit_def)
  ultimately have "list_all ?P s"
    unfolding list_all_iff by blast
  moreover have "byte_of c < 0x80" if "?P c" for c
    using that by (auto simp: char_digit_def Let_def word_less_nat_alt split: if_splits)
  ultimately show ?thesis
    by (intro utf8_valid_ascii) (auto simp: list_all_iff as_bytes_def)
qed

section \<open>Properties\<close>


definition demo_wkt :: "Geography \<Rightarrow> string option" where
  "demo_wkt g = None"


text \<open>As a literal, a string is one token of SQL, whatever it contains.\<close>

lemma string_literal_is_one_token:
  assumes "rest = [] \<or> hd rest \<noteq> CHR 0x27" "to_sql_literal x (PStr s) = Some l"
  shows "scan_quoted (CHR 0x27) (l @ rest) = Some (s, rest)"
  using assms param_literal.scan_render [of rest s] by (cases rest) auto

text \<open>The documentation of \<open>sql_oid\<close> promises a concrete type from every built-in parameter; a NULL and a scaled
  \<open>Numeric\<close> have none.\<close>

lemma sql_oid_unspecified_iff: "sql_oid p = 0 \<longleftrightarrow> p = PNull \<or> (\<exists>n. p = PNumeric n \<and> num_scale n \<noteq> 0)"
  by (cases p) (auto simp: oid_defs)

end
