(* ===== verification/Hyper_Binary.thy ===== *)
theory Hyper_Binary
  imports Rust_Prelude
begin

text \<open>
  Value conversion of \<open>hyperdb-api-core/src/protocol/types.rs\<close>: the paired functions
  \<open>*_to_hyper_binary\<close> and \<open>*_from_hyper_binary\<close>. A writer appends to its buffer, so it is a
  function from the buffer to the new buffer; the length prefix of a variable-length value
  panics above \<open>u32::MAX\<close>, so those writers return \<open>None\<close> there.

  The locale \<open>fixed_codec\<close> is the contract of a fixed-width pair: what is written is read
  back, and a reader accepts exactly the buffers of its width.
\<close>

section \<open>The code\<close>

datatype parse_error =
    InvalidLength string nat nat \<comment> \<open>\<open>type_name\<close>, \<open>expected\<close>, \<open>actual\<close>\<close>
  | BufferTooShort string \<comment> \<open>\<open>context\<close>\<close>
  | InvalidUtf8 \<comment> \<open>the position inside \<open>Utf8Error\<close> is not modelled\<close>

definition hb_len :: "nat \<Rightarrow> u32 option" where
  "hb_len n = (if n < 2 ^ 32 then Some (word_of_nat n) else None)"

definition bool_to_hyper_binary :: "bool \<Rightarrow> bytes \<Rightarrow> bytes" where
  "bool_to_hyper_binary v buf = buf @ [if v then 1 else 0]"

definition bool_from_hyper_binary :: "bytes \<Rightarrow> parse_error + bool" where
  "bool_from_hyper_binary buf =
     (if length buf \<noteq> 1 then Inl (InvalidLength ''bool'' 1 (length buf))
      else Inr (buf ! 0 \<noteq> 0))"

definition i16_to_hyper_binary :: "i16 \<Rightarrow> bytes \<Rightarrow> bytes" where
  "i16_to_hyper_binary v buf = buf @ to_le_bytes v"

definition i16_from_hyper_binary :: "bytes \<Rightarrow> parse_error + i16" where
  "i16_from_hyper_binary buf =
     (if length buf \<noteq> 2 then Inl (InvalidLength ''i16'' 2 (length buf))
      else Inr (from_le_bytes buf))"

definition i32_to_hyper_binary :: "i32 \<Rightarrow> bytes \<Rightarrow> bytes" where
  "i32_to_hyper_binary v buf = buf @ to_le_bytes v"

definition i32_from_hyper_binary :: "bytes \<Rightarrow> parse_error + i32" where
  "i32_from_hyper_binary buf =
     (if length buf \<noteq> 4 then Inl (InvalidLength ''i32'' 4 (length buf))
      else Inr (from_le_bytes buf))"

definition i64_to_hyper_binary :: "i64 \<Rightarrow> bytes \<Rightarrow> bytes" where
  "i64_to_hyper_binary v buf = buf @ to_le_bytes v"

definition i64_from_hyper_binary :: "bytes \<Rightarrow> parse_error + i64" where
  "i64_from_hyper_binary buf =
     (if length buf \<noteq> 8 then Inl (InvalidLength ''i64'' 8 (length buf))
      else Inr (from_le_bytes buf))"

definition f32_to_hyper_binary :: "f32 \<Rightarrow> bytes \<Rightarrow> bytes" where
  "f32_to_hyper_binary v buf = buf @ to_le_bytes v"

definition f32_from_hyper_binary :: "bytes \<Rightarrow> parse_error + f32" where
  "f32_from_hyper_binary buf =
     (if length buf \<noteq> 4 then Inl (InvalidLength ''f32'' 4 (length buf))
      else Inr (from_le_bytes buf))"

definition f64_to_hyper_binary :: "f64 \<Rightarrow> bytes \<Rightarrow> bytes" where
  "f64_to_hyper_binary v buf = buf @ to_le_bytes v"

definition f64_from_hyper_binary :: "bytes \<Rightarrow> parse_error + f64" where
  "f64_from_hyper_binary buf =
     (if length buf \<noteq> 8 then Inl (InvalidLength ''f64'' 8 (length buf))
      else Inr (from_le_bytes buf))"

definition text_to_hyper_binary :: "string \<Rightarrow> bytes \<Rightarrow> bytes option" where
  "text_to_hyper_binary v buf =
     (case hb_len (length v) of
        None \<Rightarrow> None
      | Some len \<Rightarrow> Some (buf @ to_le_bytes len @ as_bytes v))"

definition text_from_hyper_binary :: "bytes \<Rightarrow> parse_error + string" where
  "text_from_hyper_binary buf =
     (if length buf < 4 then Inl (BufferTooShort ''text length'')
      else
        let len = unat (from_le_bytes (take 4 buf) :: u32); rest = drop 4 buf
        in if length rest < len then Inl (BufferTooShort ''text data'')
           else case from_utf8 (take len rest) of
                  None \<Rightarrow> Inl InvalidUtf8
                | Some s \<Rightarrow> Inr s)"

definition bytea_to_hyper_binary :: "bytes \<Rightarrow> bytes \<Rightarrow> bytes option" where
  "bytea_to_hyper_binary v buf =
     (case hb_len (length v) of
        None \<Rightarrow> None
      | Some len \<Rightarrow> Some (buf @ to_le_bytes len @ v))"

definition bytea_from_hyper_binary :: "bytes \<Rightarrow> parse_error + bytes" where
  "bytea_from_hyper_binary buf =
     (if length buf < 4 then Inl (BufferTooShort ''bytea length'')
      else
        let len = unat (from_le_bytes (take 4 buf) :: u32); rest = drop 4 buf
        in if length rest < len then Inl (BufferTooShort ''bytea data'')
           else Inr (take len rest))"

section \<open>The contract of a fixed-width codec\<close>

locale fixed_codec =
  fixes enc :: "'v \<Rightarrow> bytes \<Rightarrow> bytes"
    and dec :: "bytes \<Rightarrow> parse_error + 'v"
    and type_name :: string
    and width :: nat
  assumes write_appends: "\<exists>e. length e = width \<and> enc v buf = buf @ e \<and> dec e = Inr v"
    and read_length: "length bs \<noteq> width \<Longrightarrow> dec bs = Inl (InvalidLength type_name width (length bs))"
    and read_total: "length bs = width \<Longrightarrow> \<exists>v. dec bs = Inr v"
begin

lemma length_write [simp]: "length (enc v buf) = length buf + width"
  using write_appends [of v buf] by auto

lemma read_write [simp]: "dec (drop (length buf) (enc v buf)) = Inr v"
  using write_appends [of v buf] by auto

lemma read_iff: "(\<exists>v. dec bs = Inr v) \<longleftrightarrow> length bs = width"
  using read_length read_total by (metis sum.distinct(1))

lemma write_inj: "enc v buf = enc w buf \<Longrightarrow> v = w"
  using read_write [of buf v] read_write [of buf w] by (metis sum.inject(2))

text \<open>Values written one after the other are dec back by slicing at the width.\<close>

lemma read_slice:
  assumes "i < length vs"
  shows "dec (take width (drop (i * width) (fold enc vs []))) = Inr (vs ! i)"
  using assms
proof (induction vs rule: rev_induct)
  case (snoc v vs)
  have len: "length (fold enc vs []) = length vs * width"
    by (induction vs rule: rev_induct) auto
  obtain e where e: "length e = width" "enc v (fold enc vs []) = fold enc vs [] @ e"
      "dec e = Inr v"
    using write_appends by blast
  show ?case
  proof (cases "i < length vs")
    case True
    then have le: "width + i * width \<le> length (fold enc vs [])"
      using mult_le_mono1 [of "Suc i" "length vs" width] by (simp add: len)
    then show ?thesis
      using snoc True by (simp add: e nth_append)
  next
    case False
    with snoc.prems have "i = length vs" by simp
    then show ?thesis by (simp add: e len nth_append)
  qed
qed simp

end

interpretation bool_codec: fixed_codec bool_to_hyper_binary bool_from_hyper_binary "''bool''" 1
  by unfold_locales (auto simp: bool_to_hyper_binary_def bool_from_hyper_binary_def)

interpretation i16_codec: fixed_codec i16_to_hyper_binary i16_from_hyper_binary "''i16''" 2
  by unfold_locales (auto simp: i16_to_hyper_binary_def i16_from_hyper_binary_def)

interpretation i32_codec: fixed_codec i32_to_hyper_binary i32_from_hyper_binary "''i32''" 4
  by unfold_locales (auto simp: i32_to_hyper_binary_def i32_from_hyper_binary_def)

interpretation i64_codec: fixed_codec i64_to_hyper_binary i64_from_hyper_binary "''i64''" 8
  by unfold_locales (auto simp: i64_to_hyper_binary_def i64_from_hyper_binary_def)

interpretation f32_codec: fixed_codec f32_to_hyper_binary f32_from_hyper_binary "''f32''" 4
  by unfold_locales (auto simp: f32_to_hyper_binary_def f32_from_hyper_binary_def)

interpretation f64_codec: fixed_codec f64_to_hyper_binary f64_from_hyper_binary "''f64''" 8
  by unfold_locales (auto simp: f64_to_hyper_binary_def f64_from_hyper_binary_def)

section \<open>Variable-length values\<close>

lemma hb_len_Some_iff: "hb_len n = Some w \<longleftrightarrow> n < 2 ^ 32 \<and> w = word_of_nat n"
  by (auto simp: hb_len_def)

lemma unat_word_of_nat_u32: "n < 2 ^ 32 \<Longrightarrow> unat (word_of_nat n :: u32) = n"
  by (simp add: unat_of_nat)

lemma bytea_write_shape:
  assumes "bytea_to_hyper_binary v buf = Some out"
  shows "out = buf @ to_le_bytes (word_of_nat (length v) :: u32) @ v" "length v < 2 ^ 32"
  using assms by (auto simp: bytea_to_hyper_binary_def hb_len_Some_iff split: option.splits)

lemma bytea_read_write:
  assumes "bytea_to_hyper_binary v buf = Some out"
  shows "bytea_from_hyper_binary (drop (length buf) out @ rest) = Inr v"
  using bytea_write_shape [OF assms] by (simp add: bytea_from_hyper_binary_def unat_word_of_nat_u32)

lemma bytea_read_prefix:
  assumes "bytea_from_hyper_binary buf = Inr v"
  shows "\<exists>rest. buf = to_le_bytes (word_of_nat (length v) :: u32) @ v @ rest \<and> length v < 2 ^ 32"
proof -
  let ?len = "from_le_bytes (take 4 buf) :: u32"
  have len: "4 \<le> length buf" "unat ?len \<le> length (drop 4 buf)" "v = take (unat ?len) (drop 4 buf)"
    using assms by (auto simp: bytea_from_hyper_binary_def Let_def split: if_splits)
  then have v: "length v = unat ?len"
    by simp
  have "to_le_bytes (word_of_nat (length v) :: u32) = take 4 buf"
    using len(1) by (simp add: v to_from_le_bytes)
  moreover have "buf = take 4 buf @ v @ drop (unat ?len) (drop 4 buf)"
    using len(3) by (metis append_take_drop_id)
  moreover have "length v < 2 ^ 32"
    using unsigned_less [of ?len, where ?'a = nat] by (simp add: v)
  ultimately show ?thesis
    by metis
qed

end
