(* ===== verification/Spec2Isabelle.thy ===== *)
theory Spec2Isabelle
  imports Tool_Calls Sync_Pool Tls_Session Kv_Store Merge_Load Result_Sets Sql_Params Hyper_Binary
begin

text \<open>
  A verification development for the Hyper API for Rust (\<open>src/\<close>), a client library for the Hyper
  database: the wire protocol, the value codecs, the connection, TLS and the client of
  \<open>src/hyperdb-api-core\<close>; names, table definitions, query results, bound parameters, bulk insertion, the
  connection pool and the key-value store of \<open>src/hyperdb-api\<close>; and the statement classifier, the error mapping, the
  transactional tool calls, the schema inference and the merge loads of \<open>src/hyperdb-mcp\<close>.

  \<^bold>\<open>The program.\<close> \<open>hyperdb-api-core\<close> speaks a PostgreSQL-style protocol over a byte stream. \<open>protocol/\<close>
  frames messages, escapes SQL text and writes the binary COPY format; \<open>types/\<close> holds the SQL types
  and the values with their HyperBinary encodings; \<open>client/\<close> owns the connection: it authenticates,
  sends requests, reads answers, drains after errors, runs COPY, and decodes rows; a client puts the
  connection behind a mutex that streams and COPY writers hold while they are open. \<open>hyperdb-api\<close> is the
  public library on top: validated names, table definitions, row sets that read a TCP answer or Arrow batches
  through one interface, bound parameters, bulk insertion, transactions, a pool that threads share, and a key-value store kept in a table. \<open>hyperdb-mcp\<close> is a tool server on top of that: it
  classifies the statements it is given, runs batches in a transaction on its engine's
  connection, replaces the engine when that connection is lost, infers the columns of CSV and JSON
  input, and merges loaded rows into existing tables. Bindings and tools call the same library.

  \<^bold>\<open>The theories and what they model.\<close>
  \<^item> \<open>Rust_Prelude\<close>, \<open>Rust_Text\<close>, \<open>Rust_Strings\<close>: machine integers as words, byte order, UTF-8 validity, checked
    arithmetic, \<open>Result\<close> and \<open>?\<close>, integer formatting and parsing, \<open>trim\<close>, \<open>find\<close> and \<open>split\<close>.
  \<^item> \<open>Sql_Escape\<close>: \<open>protocol/escape.rs\<close>. A scanner for quoted tokens is the specification.
  \<^item> \<open>Hyper_Binary\<close>: \<open>protocol/types.rs\<close>; \<open>Copy_Format\<close>: \<open>protocol/copy.rs\<close> with its builder.
  \<^item> \<open>Frontend\<close>, \<open>Backend\<close>, \<open>Message_Bodies\<close>: \<open>protocol/message/frontend.rs\<close> and \<open>backend.rs\<close>: the
    writers, \<open>Message::parse\<close>, and the iterators and accessors of the message bodies. The server side
    of the protocol (\<open>server_encode\<close>, \<open>decode_frontend\<close>, \<open>put_row\<close>) is the specification.
  \<^item> \<open>Sql_Types\<close>: \<open>types/oid.rs\<close>, \<open>types/sql_type.rs\<close>; \<open>Calendar\<close>, \<open>Datetime\<close>, \<open>Numeric_Decimal\<close>:
    \<open>types/special.rs\<close> against the proleptic Gregorian calendar and decimal notation;
    \<open>Value_Codec\<close>: the \<open>ToHyperBinary\<close> and \<open>FromHyperBinary\<close> implementations of \<open>types/types.rs\<close>
    and \<open>types/special.rs\<close>, one interpretation of the locale \<open>hyper_value\<close> each.
  \<^item> \<open>Client_Error\<close>: \<open>client/error.rs\<close>, \<open>client/notice.rs\<close>, \<open>parse_error_response\<close>;
    \<open>Scram_Auth\<close>: \<open>client/auth.rs\<close> with a server of RFC 5802 as the specification;
    \<open>Row_Access\<close>: \<open>client/statement.rs\<close>, \<open>client/row.rs\<close>.
  \<^item> \<open>Raw_Connection\<close>: \<open>client/connection.rs\<close>, every method that changes the state, over a scripted
    stream; \<open>Connection_Laws\<close> and \<open>Connection_Properties\<close>: its laws and properties, with the locales
    \<open>partial_message_loop\<close> and \<open>message_loop\<close> that all loops reading an answer interpret.
  \<^item> \<open>Prepared_Statements\<close>: \<open>client/prepare.rs\<close> under the mutex; \<open>Query_Streams\<close>: the two row streams of
    \<open>client/client.rs\<close> and \<open>client/prepared_stream.rs\<close>, both interpretations of \<open>row_stream\<close>;
    \<open>Sync_Client\<close>: the requests, notices and COPY writer of \<open>client/client.rs\<close>.
  \<^item> \<open>Api_Error\<close>, \<open>Sql_Names\<close>, \<open>Table_Definition\<close>: \<open>hyperdb-api/src/error.rs\<close>, \<open>names.rs\<close>,
    \<open>table_definition.rs\<close>; the specification of generated SQL is a scanner for quoted names and lists.
  \<^item> \<open>Arrow_Rows\<close>: \<open>hyperdb-api/src/arrow_result.rs\<close>, the typed reads of an Arrow column, its rows, chunks and
    types; the arrays are those of the Arrow library, and what its decoder yields is a list of batches and errors.
    \<open>Result_Sets\<close>: \<open>hyperdb-api/src/result.rs\<close> and \<open>row_accessor.rs\<close>: schemas, rows, lookups by name, the row set
    over the three sources, its iterators and the methods that consume it, with the drops that give the mutex back. The
    specification is the list of rows of the answer (\<open>open_stream\<close>) and the value of a cell (\<open>reads_as\<close>).
  \<^item> \<open>Sql_Params\<close>: \<open>hyperdb-api/src/params.rs\<close> and \<open>encode_params\<close> of \<open>prepared.rs\<close>; the specification is the
    server's reading of a parameter under its type and format.
  \<^item> \<open>Insert_Chunk\<close>, \<open>Bulk_Insert\<close>: \<open>hyperdb-api/src/inserter.rs\<close> and \<open>transport.rs\<close>; \<open>Bulk_Insert_Laws\<close>: what
    they put on the wire. \<open>Inserter\<close> and \<open>ChunkSender\<close> interpret the locale \<open>copy_owner\<close>, a COPY session that is
    opened on first use.
  \<^item> \<open>Client_Config\<close>: \<open>client/endpoint.rs\<close>, \<open>client/config.rs\<close> and the settings of \<open>client/tls.rs\<close>: descriptors
    and connection strings. \<open>Tls_Session\<close>: the connector and the synchronous negotiation of \<open>client/tls.rs\<close>,
    \<open>client/cancel.rs\<close>, and opening and cancelling a session; the sockets, the TLS library and the
    certificate files are an environment, and what was put on the wire in clear is recorded.
  \<^item> \<open>Sync_Pool\<close>: \<open>hyperdb-api/src/pool.rs\<close>, the synchronous pool. Every critical section is a function on the
    state under the mutex, and a caller is a small state machine; the inductive relation \<open>step\<close>
    interleaves any number of callers, with sleeping and waking on the condition variable.
  \<^item> \<open>Kv_Store\<close>: \<open>hyperdb-api/src/kv_store.rs\<close> on a connection that is an argument. The specification is a map
    from keys to values; the hypothesis \<open>sql_laws\<close> gives each statement the store sends its SQL meaning on
    the rows of the table, and \<open>table_server\<close> is a server that meets it.
  \<^item> \<open>Sql_Classify\<close>: \<open>hyperdb-mcp/src/sql_classify.rs\<close>, specified by a relation of what a statement
    runs; \<open>Mcp_Error\<close>: \<open>hyperdb-mcp/src/error.rs\<close> and the validation of batches;
    \<open>Tool_Calls\<close>: \<open>hyperdb-api/src/transaction.rs\<close>, and the engine's transactions, the execute tool and
    \<open>with_engine\<close> of \<open>hyperdb-mcp/src/engine.rs\<close> and \<open>server.rs\<close>, down to the messages on the wire.
  \<^item> \<open>Schema_Inference\<close>: \<open>hyperdb-mcp/src/schema.rs\<close>. The inferred types form a semilattice, and the locale
    \<open>typed_values\<close>, interpreted for CSV fields and for JSON values, says what a type promises of a value.
  \<^item> \<open>Merge_Load\<close>: the load modes and \<open>merge_via_temp_table\<close> of \<open>hyperdb-mcp/src/ingest.rs\<close>, the staging tables of
    \<open>scratch.rs\<close> and the table statements of \<open>engine.rs\<close>, on a server that is an argument; the hypothesis
    \<open>merge_laws\<close> gives each statement sent its SQL meaning on the tables, and the specification is an upsert.

  \<^bold>\<open>How code becomes definitions.\<close> A struct is a record, an enum a datatype, a method a function that
  takes and returns the state; \<open>Result\<close> is a sum with \<open>Inl\<close> for \<open>Err\<close>; a panic (and arithmetic overflow,
  which panics when overflow checks are on) is \<open>None\<close>; \<open>usize\<close> is \<open>nat\<close>, other integers are words.
  Strings are their UTF-8 bytes as characters. What comes from outside the repository is an argument:
  the hash functions and base64 (record \<open>crypto\<close>), random bytes, the decimal reader and the
  conversions of floats, the stream. Memory zeroing, logging and buffer capacities are left out.

  \<^bold>\<open>Loops.\<close> Loops over data recurse on it; the message loops of the connection recurse on
  \<open>pending\<close>, the bytes and events still to come, so they are total on every finite script; the
  bounded loops recurse on their own budget. Iterators are collected with a fuel of their
  remaining count plus one, which \<open>result_iterator\<close> proves to be enough. The TLS handshake, whose
  length the peer decides, and the typed row iterator, which skips empty chunks, are each a
  \<open>partial_function\<close>: not returning would be \<open>None\<close>. The handshake is shown to return on every socket, the iterator
  on every list of batches. Collecting a row set recurses on what is left of the stream or of the batches.

  \<^bold>\<open>What is shown.\<close> Round trips of every encoder against its decoder or against the protocol's
  grammar; independence of the way the stream is cut; equivalence of the three row types and of the two
  ways to send COPY data; that each request of a session gets its own answer, that a desynchronized
  connection is never used again, and that the end of a COPY leaves a connection marked or in
  step; that streaming and collecting a query are the same, that a stream takes exactly its own answer,
  and that a prepared statement lives as the protocol says; that a row set takes exactly the rows of its
  answer, that a row reads the same over both transports, and that a bound parameter reaches the server as
  the value it is; that bulk insertion delivers exactly the
  rows added however they are cut into chunks and in whatever order threads send them; the structure
  of generated SQL; completeness and binding of the SCRAM exchange; that a session which requires TLS is
  never opened, used or cancelled in clear, that only the server's answer in mode prefer falls back to
  clear text, and that an accepted certificate passed the check its mode promises; that the pool's
  counts are exact and no wake-up is lost under every interleaving; that a key-value store is a map
  and its batches are all or nothing; that the types inferred from a sample hold of the data and their names
  are read back as themselves; that a merge load is an upsert and a failed one keeps the rows; that a statement taken for a read runs no write, and that
  a batch of a tool call is one transaction on the wire; calendar and decimal arithmetic;
  bounds and panics. Some theorems show where the code departs from its intent: a failed read that
  poisons a connection, a server signature that is never demanded, a malformed row that shifts the
  next answer, a failed flush that loses rows, an empty Arrow batch that ends the iteration, integers reinterpreted as floats, values that do not
  round-trip.

  \<^bold>\<open>Not modelled.\<close> The asynchronous twins of the modelled methods (the same code on an async runtime),
  the gRPC calls and the decoding of Arrow IPC, the TLS library itself and operating-system sockets, the geometry
  conversions of \<open>Geography\<close>, conversions between \<open>Numeric\<close> and floats, the catalog and the connection builder of
  \<open>hyperdb-api\<close>, starting server processes, and of the crates above it the readers of the input formats and the export,
  chart and resource tools of \<open>hyperdb-mcp\<close>, the bindings and the examples.
\<close>

end
